(* ===== verification/Prelude.thy ===== *)
theory Prelude
  imports Main "HOL-Library.AList" "HOL-Library.Multiset"
begin

text \<open>
  Shared vocabulary of the development: the result of a statement sequence that may throw
  (\<open>outcome\<close>), JavaScript's insertion-ordered \<open>Map\<close> as an association list (\<open>jmap\<close>), and the
  generic list, map and multiset lemmas the components share.
\<close>

named_theorems jmap_simps \<open>lookups after the operations of an insertion-ordered map\<close>

section \<open>Outcomes: statements that mutate state and may throw\<close>

text \<open>
  A JavaScript exception does not undo the mutations made before it, so a throwing statement
  carries both the error and the state it leaves behind.
\<close>

datatype ('e, 's) outcome = Done 's | Throws 'e 's

fun and_then :: "('e, 's) outcome \<Rightarrow> ('s \<Rightarrow> ('e, 't) outcome) \<Rightarrow> ('s \<Rightarrow> 't) \<Rightarrow> ('e, 't) outcome" where
  "and_then (Done s) k _ = k s"
| "and_then (Throws e s) _ h = Throws e (h s)"

abbreviation seq :: "('e, 's) outcome \<Rightarrow> ('s \<Rightarrow> ('e, 's) outcome) \<Rightarrow> ('e, 's) outcome" where
  "seq r k \<equiv> and_then r k (\<lambda>s. s)"

fun state_of :: "('e, 's) outcome \<Rightarrow> 's" where
  "state_of (Done s) = s"
| "state_of (Throws _ s) = s"

fun is_done :: "('e, 's) outcome \<Rightarrow> bool" where
  "is_done (Done _) = True"
| "is_done (Throws _ _) = False"

fun map_state :: "('s \<Rightarrow> 't) \<Rightarrow> ('e, 's) outcome \<Rightarrow> ('e, 't) outcome" where
  "map_state f (Done s) = Done (f s)"
| "map_state f (Throws e s) = Throws e (f s)"

text \<open>A loop that runs one statement per element and stops at the first throw.\<close>

fun for_each :: "('a \<Rightarrow> 's \<Rightarrow> ('e, 's) outcome) \<Rightarrow> 'a list \<Rightarrow> 's \<Rightarrow> ('e, 's) outcome" where
  "for_each f [] s = Done s"
| "for_each f (x # xs) s = seq (f x s) (for_each f xs)"

lemma seq_state_inv:
  assumes "P (state_of r)" and "\<And>s. r = Done s \<Longrightarrow> P s \<Longrightarrow> P (state_of (k s))"
  shows "P (state_of (seq r k))"
  using assms by (cases r) auto

lemma seq_DoneE:
  assumes "seq r k = Done t"
  obtains s where "r = Done s" and "k s = Done t"
  using assms by (cases r) auto

lemma for_each_state_inv:
  assumes "\<And>x s. x \<in> set xs \<Longrightarrow> P s \<Longrightarrow> P (state_of (f x s))" and "P s"
  shows "P (state_of (for_each f xs s))"
  using assms
proof (induction xs arbitrary: s)
  case Nil
  then show ?case by simp
next
  case (Cons x xs)
  show ?case
    unfolding for_each.simps
    by (rule seq_state_inv) (use Cons in \<open>auto\<close>)
qed

lemma state_of_map_state [simp]: "state_of (map_state f r) = f (state_of r)"
  by (cases r) auto

lemma is_done_iff: "is_done r \<longleftrightarrow> (\<exists>s. r = Done s)"
  by (cases r) auto

section \<open>Insertion-ordered maps\<close>

text \<open>
  A JavaScript \<open>Map\<close> keeps its entries in insertion order; \<open>set\<close> on a present key
  replaces the value in place, on a new key it appends. This is \<^const>\<open>AList.update\<close>.
\<close>

type_synonym ('k, 'v) jmap = "('k \<times> 'v) list"

abbreviation jget :: "('k, 'v) jmap \<Rightarrow> 'k \<Rightarrow> 'v option" where
  "jget \<equiv> map_of"

definition jhas :: "('k, 'v) jmap \<Rightarrow> 'k \<Rightarrow> bool" where
  "jhas m k \<longleftrightarrow> jget m k \<noteq> None"

definition jset :: "'k \<Rightarrow> 'v \<Rightarrow> ('k, 'v) jmap \<Rightarrow> ('k, 'v) jmap" where
  "jset k v m = AList.update k v m"

definition jdel :: "'k \<Rightarrow> ('k, 'v) jmap \<Rightarrow> ('k, 'v) jmap" where
  "jdel k m = AList.delete k m"

definition jvalues :: "('k, 'v) jmap \<Rightarrow> 'v list" where
  "jvalues m = map snd m"

definition jkeys :: "('k, 'v) jmap \<Rightarrow> 'k list" where
  "jkeys m = map fst m"

definition jwhere :: "('k \<Rightarrow> 'v \<Rightarrow> bool) \<Rightarrow> ('k, 'v) jmap \<Rightarrow> ('k, 'v) jmap" where
  "jwhere P m = filter (\<lambda>(k, v). P k v) m"

abbreviation jwf :: "('k, 'v) jmap \<Rightarrow> bool" where
  "jwf m \<equiv> distinct (map fst m)"

lemma jget_jset [simp, jmap_simps]: "jget (jset k v m) = (jget m)(k \<mapsto> v)"
  by (simp add: jset_def update_conv')

lemma jget_jdel [simp, jmap_simps]: "jget (jdel k m) = (jget m)(k := None)"
  by (simp add: jdel_def delete_conv')

lemma jwf_jset [simp, intro]: "jwf m \<Longrightarrow> jwf (jset k v m)"
  by (simp add: jset_def distinct_update)

lemma jwf_jdel [simp, intro]: "jwf m \<Longrightarrow> jwf (jdel k m)"
  by (simp add: jdel_def distinct_delete)

lemma jwf_jwhere [simp, intro]: "jwf m \<Longrightarrow> jwf (jwhere P m)"
  unfolding jwhere_def by (induction m) auto

lemma jset_new: "jget m k = None \<Longrightarrow> jset k v m = m @ [(k, v)]"
  unfolding jset_def by (induction m) (auto split: if_splits)

lemma jdel_absent: "jget m k = None \<Longrightarrow> jdel k m = m"
  unfolding jdel_def by (simp add: AList.delete_eq filter_id_conv) (auto simp: map_of_eq_None_iff image_iff)

lemma set_jset_sub: "set (jset k v m) \<subseteq> insert (k, v) (set m)"
  unfolding jset_def by (induction m) (auto split: if_splits)

lemma set_jdel: "set (jdel k m) = {(a, b) \<in> set m. a \<noteq> k}"
  by (auto simp: jdel_def AList.delete_eq)

lemma jget_mem: "jget m k = Some v \<Longrightarrow> (k, v) \<in> set m"
  by (rule map_of_SomeD)

lemma jget_jwhere: "jwf m \<Longrightarrow> jget (jwhere P m) k = (case jget m k of None \<Rightarrow> None | Some v \<Rightarrow> if P k v then Some v else None)"
  unfolding jwhere_def
  by (induction m) (auto split: option.splits simp: map_of_eq_None_iff image_iff)

text \<open>The entries as a multiset: what \<open>set\<close> and \<open>delete\<close> add and take away.\<close>

lemma mset_jset_new: "jget m k = None \<Longrightarrow> mset (jset k v m) = add_mset (k, v) (mset m)"
  by (simp add: jset_new)

lemma mset_jset_old:
  "jget m k = Some u \<Longrightarrow> add_mset (k, u) (mset (jset k v m)) = add_mset (k, v) (mset m)"
  unfolding jset_def
  by (induction m) (auto split: if_splits simp: add_mset_commute)

lemma mset_jdel:
  "jwf m \<Longrightarrow> jget m k = Some u \<Longrightarrow> mset m = add_mset (k, u) (mset (jdel k m))"
proof (induction m)
  case Nil
  then show ?case by simp
next
  case (Cons p m)
  obtain a b where p: "p = (a, b)" by (cases p)
  show ?case
  proof (cases "a = k")
    case True
    with Cons.prems p have "jdel k m = m"
      by (intro jdel_absent) (auto simp: map_of_eq_None_iff)
    with True Cons.prems p show ?thesis by (simp add: jdel_def)
  next
    case False
    with Cons p show ?thesis by (simp add: jdel_def add_mset_commute)
  qed
qed

lemma jset_jset_restore:
  "jget m k = Some u \<Longrightarrow> jwf m \<Longrightarrow> jset k u (jset k v m) = m"
  unfolding jset_def by (induction m) (auto split: if_splits)

lemma jdel_jset_new: "jget m k = None \<Longrightarrow> jdel k (jset k v m) = m"
proof -
  assume n: "jget m k = None"
  have "jdel k (m @ [(k, v)]) = jdel k m"
    by (simp add: jdel_def AList.delete_eq)
  with n show ?thesis by (simp add: jset_new jdel_absent)
qed

lemma mset_frame_split:
  fixes A B E P Q :: "'a multiset"
  assumes "Q + A = E + B" and "P + A = E"
  shows "Q = B + P"
proof -
  have "Q + A = (B + P) + A" using assms by (simp add: ac_simps)
  then show ?thesis by simp
qed

section \<open>Truthiness of optional strings\<close>

text \<open>\<open>undefined\<close>, \<open>null\<close> and the empty string are falsy.\<close>

fun truthy :: "string option \<Rightarrow> bool" where
  "truthy None = False"
| "truthy (Some t) = (t \<noteq> [])"

lemma truthy_Some: "truthy x \<Longrightarrow> \<exists>t. x = Some t \<and> t \<noteq> []"
  by (cases x) auto

end
