(* ===== verification/Capacity.thy ===== *)
theory Capacity
  imports Prelude
begin

text \<open>
  The two durable ceilings of the relay store: the number of retained entries
  (\<open>DurableEntryCapacity\<close> in apps/relay/src/state.ts) and the number of retained bytes
  (\<open>DurableByteCapacity\<close> in apps/relay/src/store-byte-capacity.ts). Both are counters kept
  beside the maps. The abstract specification of a counter is the multiset of the entries
  (or weights) it stands for; every operation is shown to refine the multiset operation.
\<close>

datatype resource = Mls_backlog | Attachment_blobs
datatype scope = Scope_relay | Scope_team | Scope_room

text \<open>
  \<open>RelayStoreCapacityError\<close>, \<open>RelayStoreByteCapacityError\<close>, and the \<open>TypeError\<close> of reading
  a property of \<open>null\<close>.
\<close>

datatype store_error =
    Entry_capacity int "string option"
  | Byte_capacity resource int scope "string option"
  | Type_error

section \<open>Entry capacity\<close>

record entry_capacity =
  ec_used :: int
  ec_by_team :: "string \<rightharpoonup> int"
  ec_max :: int
  ec_max_team :: int

definition ec_configure :: "int \<Rightarrow> int \<Rightarrow> entry_capacity" where
  "ec_configure maximum maximum_per_team =
     \<lparr>ec_used = 0, ec_by_team = Map.empty, ec_max = maximum, ec_max_team = maximum_per_team\<rparr>"

definition counter :: "(string \<rightharpoonup> int) \<Rightarrow> string \<Rightarrow> int" where
  "counter m k = (case m k of None \<Rightarrow> 0 | Some n \<Rightarrow> n)"

text \<open>\<open>adjustCounter\<close>: a counter that reaches zero is deleted.\<close>

definition adjust_counter :: "(string \<rightharpoonup> int) \<Rightarrow> string \<Rightarrow> int \<Rightarrow> (string \<rightharpoonup> int)" where
  "adjust_counter m k delta =
     (let next = counter m k + delta in if next = 0 then m(k := None) else m(k \<mapsto> next))"

lemma counter_adjust_counter [simp]:
  "counter (adjust_counter m k d) j = (if j = k then counter m k + d else counter m j)"
  by (simp add: counter_def adjust_counter_def Let_def)

lemma counter_upd [simp]: "counter (m(k \<mapsto> n)) j = (if j = k then n else counter m j)"
  by (simp add: counter_def)

lemma counter_empty [simp]: "counter Map.empty k = 0"
  by (simp add: counter_def)

definition ec_adjust :: "int \<Rightarrow> string option \<Rightarrow> entry_capacity \<Rightarrow> (store_error, entry_capacity) outcome" where
  "ec_adjust delta team c =
     (if delta > 0 \<and> ec_used c + delta > ec_max c then Throws (Entry_capacity (ec_max c) None) c
      else let team_used = (if truthy team then counter (ec_by_team c) (the team) else 0) in
        if truthy team \<and> delta > 0 \<and> team_used + delta > ec_max_team c
        then Throws (Entry_capacity (ec_max_team c) team) c
        else Done (c\<lparr>ec_used := ec_used c + delta,
               ec_by_team := (if truthy team then adjust_counter (ec_by_team c) (the team) delta
                              else ec_by_team c)\<rparr>))"

definition ec_claim :: "string option \<Rightarrow> entry_capacity \<Rightarrow> (store_error, entry_capacity) outcome" where
  "ec_claim team c = ec_adjust 1 team c"

definition ec_release :: "string option \<Rightarrow> entry_capacity \<Rightarrow> (store_error, entry_capacity) outcome" where
  "ec_release team c = ec_adjust (-1) team c"

definition ec_move :: "string option \<Rightarrow> string option \<Rightarrow> entry_capacity \<Rightarrow> (store_error, entry_capacity) outcome" where
  "ec_move from_team to_team c =
     (if from_team = to_team then Done c
      else let to_used = (if truthy to_team then counter (ec_by_team c) (the to_team) else 0) in
        if truthy to_team \<and> to_used + 1 > ec_max_team c
        then Throws (Entry_capacity (ec_max_team c) to_team) c
        else let m = (if truthy from_team then adjust_counter (ec_by_team c) (the from_team) (-1)
                      else ec_by_team c)
             in Done (c\<lparr>ec_by_team := (if truthy to_team then m(the to_team \<mapsto> to_used + 1) else m)\<rparr>))"

subsection \<open>Abstract specification: the multiset of the teams of the retained entries\<close>

definition ec_counts :: "entry_capacity \<Rightarrow> string option multiset \<Rightarrow> bool" where
  "ec_counts c M \<longleftrightarrow> ec_used c = int (size M) \<and>
     (\<forall>t. t \<noteq> [] \<longrightarrow> counter (ec_by_team c) t = int (count M (Some t)))"

definition ec_bounded :: "entry_capacity \<Rightarrow> bool" where
  "ec_bounded c \<longleftrightarrow> ec_used c \<le> ec_max c \<and> (\<forall>t. t \<noteq> [] \<longrightarrow> counter (ec_by_team c) t \<le> ec_max_team c)"

lemma ec_counts_configure: "ec_counts (ec_configure m t) {#}"
  by (simp add: ec_counts_def ec_configure_def)

lemma ec_bounded_configure: "0 \<le> m \<Longrightarrow> 0 \<le> t \<Longrightarrow> ec_bounded (ec_configure m t)"
  by (simp add: ec_bounded_def ec_configure_def)

lemma ec_adjust_throws_unchanged: "ec_adjust d t c = Throws e c' \<Longrightarrow> c' = c"
  by (auto simp: ec_adjust_def Let_def split: if_splits)

lemma ec_move_throws_unchanged: "ec_move f t c = Throws e c' \<Longrightarrow> c' = c"
  by (auto simp: ec_move_def Let_def split: if_splits)

lemma ec_adjust_limits [simp]:
  "ec_max (state_of (ec_adjust d t c)) = ec_max c"
  "ec_max_team (state_of (ec_adjust d t c)) = ec_max_team c"
  by (auto simp: ec_adjust_def Let_def)

lemma ec_move_limits [simp]:
  "ec_max (state_of (ec_move f t c)) = ec_max c"
  "ec_max_team (state_of (ec_move f t c)) = ec_max_team c"
  by (auto simp: ec_move_def Let_def)

lemma ec_adjust_nonpos: "d \<le> 0 \<Longrightarrow> is_done (ec_adjust d t c)"
  by (simp add: ec_adjust_def)

lemma ec_adjust_counts:
  assumes "ec_counts c M" and "ec_adjust (int n) t c = Done c'"
  shows "ec_counts c' (M + replicate_mset n t)"
  using assms by (auto simp: ec_counts_def ec_adjust_def Let_def split: if_splits dest!: truthy_Some)

lemma ec_adjust_bounded:
  assumes "ec_bounded c" and "ec_adjust d t c = Done c'"
  shows "ec_bounded c'"
  using assms by (auto simp: ec_bounded_def ec_adjust_def Let_def split: if_splits) force+

lemma ec_claim_counts:
  "ec_counts c M \<Longrightarrow> ec_claim t c = Done c' \<Longrightarrow> ec_counts c' (add_mset t M)"
  using ec_adjust_counts [of c M 1 t c'] by (simp add: ec_claim_def)

lemma ec_release_counts:
  assumes "ec_counts c (add_mset t M)"
  shows "\<exists>c'. ec_release t c = Done c' \<and> ec_counts c' M"
  using assms by (auto simp: ec_counts_def ec_release_def ec_adjust_def Let_def dest!: truthy_Some)

lemma ec_move_team_counter:
  assumes "ec_move f t c = Done c'" and "j \<noteq> []"
  shows "counter (ec_by_team c') j =
    counter (ec_by_team c) j + (if t = Some j then 1 else 0) - (if f = Some j then 1 else 0)"
  using assms
  by (cases f; cases t) (auto simp: ec_move_def Let_def split: if_splits)

lemma ec_move_counts:
  assumes "ec_counts c (add_mset f M)" and "ec_move f t c = Done c'"
  shows "ec_counts c' (add_mset t M)"
proof -
  have "ec_used c' = ec_used c"
    using assms(2) by (auto simp: ec_move_def Let_def split: if_splits)
  with assms(1) ec_move_team_counter [OF assms(2)] show ?thesis
    by (simp add: ec_counts_def)
qed

lemma ec_move_bounded:
  assumes "ec_bounded c" and "ec_move f t c = Done c'"
  shows "ec_bounded c'"
  using assms
  by (cases f; cases t) (auto simp: ec_bounded_def ec_move_def Let_def split: if_splits, force+)

section \<open>Byte capacity\<close>

record byte_limits =
  bl_mls_global :: int
  bl_mls_team :: int
  bl_mls_room :: int
  bl_att_global :: int
  bl_att_team :: int

record byte_weight =
  w_resource :: resource
  w_bytes :: nat
  w_team :: string
  w_room :: "string option"

record byte_capacity =
  bc_mls :: int
  bc_att :: int
  bc_mls_by_team :: "string \<rightharpoonup> int"
  bc_mls_by_room :: "string \<rightharpoonup> int"
  bc_att_by_team :: "string \<rightharpoonup> int"
  bc_limits :: byte_limits

text \<open>The constructor refuses limits whose scopes are not ordered room, team, relay.\<close>

definition bc_new :: "byte_limits \<Rightarrow> byte_capacity option" where
  "bc_new l =
     (if bl_mls_room l > bl_mls_team l \<or> bl_mls_team l > bl_mls_global l \<or> bl_att_team l > bl_att_global l
      then None
      else Some \<lparr>bc_mls = 0, bc_att = 0, bc_mls_by_team = Map.empty, bc_mls_by_room = Map.empty,
                 bc_att_by_team = Map.empty, bc_limits = l\<rparr>)"

definition bc_assert :: "resource \<Rightarrow> int \<Rightarrow> string \<Rightarrow> string option \<Rightarrow> byte_capacity \<Rightarrow> store_error option" where
  "bc_assert r delta team room b =
     (if delta \<le> 0 then None
      else case r of
        Mls_backlog \<Rightarrow>
          (if bc_mls b + delta > bl_mls_global (bc_limits b)
           then Some (Byte_capacity r (bl_mls_global (bc_limits b)) Scope_relay None)
           else if counter (bc_mls_by_team b) team + delta > bl_mls_team (bc_limits b)
           then Some (Byte_capacity r (bl_mls_team (bc_limits b)) Scope_team (Some team))
           else if truthy room \<and> counter (bc_mls_by_room b) (the room) + delta > bl_mls_room (bc_limits b)
           then Some (Byte_capacity r (bl_mls_room (bc_limits b)) Scope_room room)
           else None)
      | Attachment_blobs \<Rightarrow>
          (if bc_att b + delta > bl_att_global (bc_limits b)
           then Some (Byte_capacity r (bl_att_global (bc_limits b)) Scope_relay None)
           else if counter (bc_att_by_team b) team + delta > bl_att_team (bc_limits b)
           then Some (Byte_capacity r (bl_att_team (bc_limits b)) Scope_team (Some team))
           else None))"

definition bc_apply :: "resource \<Rightarrow> int \<Rightarrow> string \<Rightarrow> string option \<Rightarrow> byte_capacity \<Rightarrow> byte_capacity" where
  "bc_apply r delta team room b =
     (case r of
        Mls_backlog \<Rightarrow> b\<lparr>bc_mls := bc_mls b + delta,
           bc_mls_by_team := adjust_counter (bc_mls_by_team b) team delta,
           bc_mls_by_room := (if truthy room then adjust_counter (bc_mls_by_room b) (the room) delta
                              else bc_mls_by_room b)\<rparr>
      | Attachment_blobs \<Rightarrow> b\<lparr>bc_att := bc_att b + delta,
           bc_att_by_team := adjust_counter (bc_att_by_team b) team delta\<rparr>)"

definition bc_adjust :: "resource \<Rightarrow> int \<Rightarrow> string \<Rightarrow> string option \<Rightarrow> byte_capacity \<Rightarrow> (store_error, byte_capacity) outcome" where
  "bc_adjust r delta team room b =
     (case bc_assert r delta team room b of
        Some e \<Rightarrow> Throws e b
      | None \<Rightarrow> Done (bc_apply r delta team room b))"

abbreviation bc_add :: "byte_weight \<Rightarrow> byte_capacity \<Rightarrow> (store_error, byte_capacity) outcome" where
  "bc_add w \<equiv> bc_adjust (w_resource w) (int (w_bytes w)) (w_team w) (w_room w)"

abbreviation bc_sub :: "byte_weight \<Rightarrow> byte_capacity \<Rightarrow> (store_error, byte_capacity) outcome" where
  "bc_sub w \<equiv> bc_adjust (w_resource w) (- int (w_bytes w)) (w_team w) (w_room w)"

definition same_scope :: "byte_weight \<Rightarrow> byte_weight \<Rightarrow> bool" where
  "same_scope p n \<longleftrightarrow> w_resource p = w_resource n \<and> w_team p = w_team n \<and> w_room p = w_room n"

fun bc_replace :: "byte_weight option \<Rightarrow> byte_weight option \<Rightarrow> byte_capacity \<Rightarrow> (store_error, byte_capacity) outcome" where
  "bc_replace None None b = Throws Type_error b"
| "bc_replace (Some p) None b = bc_sub p b"
| "bc_replace None (Some n) b = bc_add n b"
| "bc_replace (Some p) (Some n) b =
     (if same_scope p n
      then bc_adjust (w_resource n) (int (w_bytes n) - int (w_bytes p)) (w_team n) (w_room n) b
      else seq (bc_sub p b) (\<lambda>b1. case bc_add n b1 of
             Done b2 \<Rightarrow> Done b2
           | Throws e b2 \<Rightarrow> (case bc_add p b2 of Done b3 \<Rightarrow> Throws e b3 | Throws e' b3 \<Rightarrow> Throws e' b3)))"

definition bc_snapshot :: "byte_capacity \<Rightarrow> int \<times> int" where
  "bc_snapshot b = (bc_mls b, bc_att b)"

subsection \<open>Abstract specification: one level per scope\<close>

text \<open>
  Every ceiling is one level: the whole relay per resource, one team per resource, one room of the
  MLS backlog. A weight counts at the levels it hits.
\<close>

datatype level = Total resource | Team_level resource string | Room_level string

definition bc_level :: "byte_capacity \<Rightarrow> level \<Rightarrow> int" where
  "bc_level b k = (case k of
       Total Mls_backlog \<Rightarrow> bc_mls b | Total Attachment_blobs \<Rightarrow> bc_att b
     | Team_level Mls_backlog t \<Rightarrow> counter (bc_mls_by_team b) t
     | Team_level Attachment_blobs t \<Rightarrow> counter (bc_att_by_team b) t
     | Room_level r \<Rightarrow> counter (bc_mls_by_room b) r)"

definition bl_limit :: "byte_limits \<Rightarrow> level \<Rightarrow> int" where
  "bl_limit l k = (case k of
       Total Mls_backlog \<Rightarrow> bl_mls_global l | Total Attachment_blobs \<Rightarrow> bl_att_global l
     | Team_level Mls_backlog t \<Rightarrow> bl_mls_team l
     | Team_level Attachment_blobs t \<Rightarrow> bl_att_team l
     | Room_level r \<Rightarrow> bl_mls_room l)"

definition hits :: "resource \<Rightarrow> string \<Rightarrow> string option \<Rightarrow> level \<Rightarrow> bool" where
  "hits r team room k = (case k of
       Total q \<Rightarrow> q = r
     | Team_level q t \<Rightarrow> q = r \<and> t = team
     | Room_level x \<Rightarrow> r = Mls_backlog \<and> truthy room \<and> room = Some x)"

abbreviation w_hits :: "byte_weight \<Rightarrow> level \<Rightarrow> bool" where
  "w_hits w \<equiv> hits (w_resource w) (w_team w) (w_room w)"

definition wsum :: "level \<Rightarrow> byte_weight multiset \<Rightarrow> int" where
  "wsum k W = (\<Sum>w\<in>#W. if w_hits w k then int (w_bytes w) else 0)"

definition bc_counts :: "byte_capacity \<Rightarrow> byte_weight multiset \<Rightarrow> bool" where
  "bc_counts b W \<longleftrightarrow> (\<forall>k. bc_level b k = wsum k W)"

definition bc_bounded :: "byte_capacity \<Rightarrow> bool" where
  "bc_bounded b \<longleftrightarrow> (\<forall>k. bc_level b k \<le> bl_limit (bc_limits b) k)"

definition nonzero :: "(string \<rightharpoonup> int) \<Rightarrow> bool" where
  "nonzero m \<longleftrightarrow> (\<forall>k. m k \<noteq> Some 0)"

definition bc_normal :: "byte_capacity \<Rightarrow> bool" where
  "bc_normal b \<longleftrightarrow> nonzero (bc_mls_by_team b) \<and> nonzero (bc_mls_by_room b) \<and> nonzero (bc_att_by_team b)"

lemma wsum_empty [simp]: "wsum k {#} = 0"
  by (simp add: wsum_def)

lemma wsum_add [simp]: "wsum k (add_mset w W) = (if w_hits w k then int (w_bytes w) else 0) + wsum k W"
  by (simp add: wsum_def)

lemma bc_level_apply [simp]:
  "bc_level (bc_apply r d t q b) k = bc_level b k + (if hits r t q k then d else 0)"
  by (auto simp: bc_level_def bc_apply_def hits_def split: level.splits resource.splits dest!: truthy_Some)

lemma bc_limits_apply [simp]: "bc_limits (bc_apply r d t q b) = bc_limits b"
  by (simp add: bc_apply_def split: resource.splits)

lemma nonzero_adjust [simp, intro]: "nonzero m \<Longrightarrow> nonzero (adjust_counter m k d)"
  by (auto simp: nonzero_def adjust_counter_def Let_def)

lemma bc_normal_apply [simp, intro]: "bc_normal b \<Longrightarrow> bc_normal (bc_apply r d t q b)"
  by (auto simp: bc_normal_def bc_apply_def split: resource.splits)

lemma adjust_counter_0 [simp]: "nonzero m \<Longrightarrow> adjust_counter m k 0 = m"
  by (rule ext) (auto simp: nonzero_def adjust_counter_def Let_def counter_def split: option.splits)

lemma adjust_counter_twice:
  "adjust_counter (adjust_counter m k d) k e = adjust_counter m k (d + e)"
  by (rule ext) (auto simp: adjust_counter_def Let_def counter_def)

lemma bc_apply_undo:
  assumes "bc_normal b" shows "bc_apply r d t q (bc_apply r (- d) t q b) = b"
  using assms by (auto simp: bc_apply_def bc_normal_def adjust_counter_twice split: resource.splits)

lemma bc_apply_undo':
  assumes "bc_normal b" shows "bc_apply r (- d) t q (bc_apply r d t q b) = b"
  using bc_apply_undo [OF assms, of r "- d" t q] by simp

lemma bc_assert_iff:
  "bc_assert r d t q b = None \<longleftrightarrow>
     d \<le> 0 \<or> (\<forall>k. hits r t q k \<longrightarrow> bc_level b k + d \<le> bl_limit (bc_limits b) k)"
proof -
  have lev: "(\<forall>k. P k) \<longleftrightarrow> (\<forall>r. P (Total r)) \<and> (\<forall>r t. P (Team_level r t)) \<and> (\<forall>x. P (Room_level x))" for P
    by (metis level.exhaust)
  have res: "(\<forall>r. P r) \<longleftrightarrow> P Mls_backlog \<and> P Attachment_blobs" for P
    by (metis resource.exhaust)
  show ?thesis
    unfolding lev res
    by (cases q) (auto simp: bc_assert_def bc_level_def bl_limit_def hits_def split: resource.splits)
qed

lemma bc_assert_nonpos [simp]: "d \<le> 0 \<Longrightarrow> bc_assert r d t q b = None"
  by (simp add: bc_assert_def)

lemma bc_adjust_Done:
  "bc_adjust r d t q b = Done b' \<Longrightarrow> b' = bc_apply r d t q b"
  by (auto simp: bc_adjust_def split: option.splits)

lemma bc_adjust_Throws: "bc_adjust r d t q b = Throws e b' \<Longrightarrow> b' = b"
  by (auto simp: bc_adjust_def split: option.splits)

lemma bc_sub_done [simp]: "bc_sub w b = Done (bc_apply (w_resource w) (- int (w_bytes w)) (w_team w) (w_room w) b)"
  by (simp add: bc_adjust_def)

lemma bc_bounded_apply:
  assumes "bc_bounded b" and "bc_assert r d t q b = None"
  shows "bc_bounded (bc_apply r d t q b)"
  using assms unfolding bc_assert_iff bc_bounded_def
  by (auto intro: order_trans [rotated])

lemma bc_adjust_bounded: "bc_bounded b \<Longrightarrow> bc_adjust r d t q b = Done b' \<Longrightarrow> bc_bounded b'"
  by (auto simp: bc_adjust_def bc_bounded_apply split: option.splits)

subsection \<open>Replacing the weight of an entry\<close>

abbreviation opt_mset :: "'a option \<Rightarrow> 'a multiset" where
  "opt_mset x \<equiv> (case x of None \<Rightarrow> {#} | Some a \<Rightarrow> {#a#})"

abbreviation w_apply :: "byte_weight \<Rightarrow> byte_capacity \<Rightarrow> byte_capacity" where
  "w_apply w \<equiv> bc_apply (w_resource w) (int (w_bytes w)) (w_team w) (w_room w)"

abbreviation w_unapply :: "byte_weight \<Rightarrow> byte_capacity \<Rightarrow> byte_capacity" where
  "w_unapply w \<equiv> bc_apply (w_resource w) (- int (w_bytes w)) (w_team w) (w_room w)"

lemma bc_add_after_sub:
  assumes "bc_bounded b" and "bc_normal b"
  shows "bc_add w (w_unapply w b) = Done b"
proof -
  have "bc_assert (w_resource w) (int (w_bytes w)) (w_team w) (w_room w) (w_unapply w b) = None"
    using assms(1) by (simp add: bc_assert_iff bc_bounded_def)
  with assms(2) show ?thesis by (simp add: bc_adjust_def bc_apply_undo)
qed

text \<open>The four shapes of a replacement: \<open>cases\<close> rule used by every proof below.\<close>

lemma bc_replace_cases [consumes 1, case_names remove insert same other]:
  assumes "p \<noteq> None \<or> n \<noteq> None"
  obtains (remove) w where "p = Some w" "n = None"
  | (insert) w where "p = None" "n = Some w"
  | (same) u w where "p = Some u" "n = Some w" "same_scope u w"
  | (other) u w where "p = Some u" "n = Some w" "\<not> same_scope u w"
  using assms by (cases p; cases n) auto

lemma same_scope_hits: "same_scope u w \<Longrightarrow> w_hits u = w_hits w"
  by (simp add: same_scope_def)

lemma bc_replace_Done:
  assumes "bc_replace p n b = Done b'" and "bc_bounded b" and "bc_normal b"
  shows "bc_level b' k = bc_level b k - wsum k (opt_mset p) + wsum k (opt_mset n)
         \<and> bc_bounded b' \<and> bc_normal b' \<and> bc_limits b' = bc_limits b"
proof -
  have "p \<noteq> None \<or> n \<noteq> None" using assms(1) by (cases p; cases n) auto
  then show ?thesis
  proof (cases rule: bc_replace_cases)
    case (remove w)
    with assms show ?thesis by (auto intro: bc_bounded_apply)
  next
    case (insert w)
    with assms(1) have add: "bc_add w b = Done b'" by simp
    from bc_adjust_Done [OF add] bc_adjust_bounded [OF assms(2) add] insert assms(3) show ?thesis
      by auto
  next
    case (same u w)
    then have h: "hits (w_resource w) (w_team w) (w_room w) = w_hits u" by (simp add: same_scope_def)
    from same assms(1) have adj: "bc_adjust (w_resource w) (int (w_bytes w) - int (w_bytes u)) (w_team w) (w_room w) b = Done b'"
      by simp
    from bc_adjust_Done [OF adj] bc_adjust_bounded [OF assms(2) adj] same h assms(3) show ?thesis
      by auto
  next
    case (other u w)
    have bd: "bc_bounded (w_unapply u b)" using assms(2) by (simp add: bc_bounded_apply)
    from other assms(1) have add: "bc_add w (w_unapply u b) = Done b'"
      by (auto split: outcome.splits)
    from bc_adjust_Done [OF add] bc_adjust_bounded [OF bd add] other assms(3) show ?thesis
      by auto
  qed
qed

lemma bc_replace_counts:
  assumes "bc_counts b (opt_mset p + W)" and "bc_replace p n b = Done b'"
    and "bc_bounded b" and "bc_normal b"
  shows "bc_counts b' (opt_mset n + W)"
  using assms(1) bc_replace_Done [OF assms(2-4)]
  by (auto simp: bc_counts_def split: option.splits)

lemma bc_replace_Throws:
  assumes "bc_replace p n b = Throws e b'" and "bc_bounded b" and "bc_normal b"
  shows "b' = b"
proof (cases "p \<noteq> None \<or> n \<noteq> None")
  case True
  then show ?thesis
  proof (cases rule: bc_replace_cases)
    case (remove w)
    with assms show ?thesis by simp
  next
    case (insert w)
    with assms show ?thesis by (auto dest: bc_adjust_Throws)
  next
    case (same u w)
    with assms show ?thesis by (auto dest: bc_adjust_Throws)
  next
    case (other u w)
    show ?thesis
    proof (cases "bc_add w (w_unapply u b)")
      case (Done b2)
      with other assms(1) show ?thesis by simp
    next
      case (Throws e2 b2)
      then have "b2 = w_unapply u b" by (rule bc_adjust_Throws)
      with other assms Throws show ?thesis by (simp add: bc_add_after_sub)
    qed
  qed
next
  case False
  with assms show ?thesis by auto
qed

text \<open>The undo of \<open>DurableMutationMap.set\<close>: replacing back never fails and restores the counters.\<close>

lemma bc_replace_undo:
  assumes "bc_replace p n b = Done b'" and "bc_bounded b" and "bc_normal b"
  shows "bc_replace n p b' = Done b"
proof -
  have undo: "bc_adjust r d t q (bc_apply r (- d) t q b) = Done b" for r d t q
  proof -
    have "bc_assert r d t q (bc_apply r (- d) t q b) = None"
      using assms(2) by (simp add: bc_assert_iff bc_bounded_def)
    with assms(3) show ?thesis by (simp add: bc_adjust_def bc_apply_undo)
  qed
  have "p \<noteq> None \<or> n \<noteq> None" using assms(1) by (cases p; cases n) auto
  then show ?thesis
  proof (cases rule: bc_replace_cases)
    case (remove w)
    with assms undo show ?thesis by auto
  next
    case (insert w)
    with assms(1) have "b' = w_apply w b" by (auto dest: bc_adjust_Done)
    with insert assms(3) show ?thesis by (simp add: bc_apply_undo')
  next
    case (same u w)
    with assms undo [of "w_resource w" "int (w_bytes u) - int (w_bytes w)" "w_team w" "w_room w"] show ?thesis
      by (auto simp: same_scope_def dest!: bc_adjust_Done)
  next
    case (other u w)
    have nsym: "\<not> same_scope w u" using other by (simp add: same_scope_def) metis
    from other assms(1) have b': "bc_add w (w_unapply u b) = Done b'"
      by (auto split: outcome.splits)
    have "w_unapply w b' = w_unapply u b"
      using bc_adjust_Done [OF b'] bc_apply_undo [of "w_unapply u b" "w_resource w" "- int (w_bytes w)"] assms(3)
      by simp
    with other nsym assms show ?thesis
      by (simp add: bc_add_after_sub)
  qed
qed

end
