(* ===== verification/Js_Values.thy ===== *)
theory Js_Values
  imports Prelude
begin

text \<open>
  What the relay uses of JavaScript's standard library: \<open>String(value)\<close>, \<open>trim\<close>, the control
  character test, \<open>Buffer.byteLength\<close>, \<open>JSON.stringify\<close>, base64, and timestamps.

  A string is a list of UTF-16 code units below 256 (Isabelle's \<open>char\<close>), so \<open>length\<close> is the
  code's \<open>length\<close>; text with code units above U+00FF is outside the model.
\<close>

section \<open>Request values\<close>

text \<open>
  An untyped value of a parsed request body. \<open>J_num\<close> is an integral number, \<open>J_frac\<close> any other
  number, carried as the text \<open>String\<close> prints for it.
\<close>

datatype jsv = J_undefined | J_null | J_bool bool | J_num int | J_frac string
  | J_str string | J_arr "jsv list" | J_obj "(string \<times> jsv) list"

definition digit_char :: "nat \<Rightarrow> char" where
  "digit_char d = char_of (48 + d)"

fun nat_digits :: "nat \<Rightarrow> string" where
  "nat_digits n = (if n < 10 then [digit_char n] else nat_digits (n div 10) @ [digit_char (n mod 10)])"

declare nat_digits.simps [simp del]

definition int_digits :: "int \<Rightarrow> string" where
  "int_digits i = (if i < 0 then ''-'' @ nat_digits (nat (- i)) else nat_digits (nat i))"

fun join_comma :: "string list \<Rightarrow> string" where
  "join_comma [] = []"
| "join_comma [x] = x"
| "join_comma (x # xs) = x @ '','' @ join_comma xs"

text \<open>\<open>String(v)\<close>; an array joins its elements, printing \<open>null\<close> and \<open>undefined\<close> elements as empty.\<close>

fun js_string :: "jsv \<Rightarrow> string" where
  "js_string J_undefined = ''undefined''"
| "js_string J_null = ''null''"
| "js_string (J_bool b) = (if b then ''true'' else ''false'')"
| "js_string (J_num i) = int_digits i"
| "js_string (J_frac s) = s"
| "js_string (J_str s) = s"
| "js_string (J_arr xs) =
     join_comma (map (\<lambda>x. case x of J_undefined \<Rightarrow> [] | J_null \<Rightarrow> [] | _ \<Rightarrow> js_string x) xs)"
| "js_string (J_obj _) = ''[object Object]''"

text \<open>\<open>String(v ?? "")\<close>.\<close>

definition string_or_empty :: "jsv \<Rightarrow> string" where
  "string_or_empty v = (case v of J_undefined \<Rightarrow> [] | J_null \<Rightarrow> [] | _ \<Rightarrow> js_string v)"

text \<open>\<open>body?.key\<close>: an absent key, and any key of a value without properties, reads \<open>undefined\<close>.\<close>

definition field_of :: "jsv \<Rightarrow> string \<Rightarrow> jsv" where
  "field_of v k = (case v of J_obj fs \<Rightarrow> (case map_of fs k of None \<Rightarrow> J_undefined | Some x \<Rightarrow> x) | _ \<Rightarrow> J_undefined)"

text \<open>\<open>hasExactKeys\<close>: a plain object with exactly the allowed keys (JSON objects have distinct keys).\<close>

definition has_exact_keys :: "jsv \<Rightarrow> string list \<Rightarrow> bool" where
  "has_exact_keys v allowed = (case v of
     J_obj fs \<Rightarrow> length fs = length allowed \<and> list_all (\<lambda>(k, _). List.member allowed k) fs
   | _ \<Rightarrow> False)"

section \<open>Characters and trimming\<close>

text \<open>The white space and line terminators below U+0100 that \<open>trim\<close> removes.\<close>

definition is_space :: "char \<Rightarrow> bool" where
  "is_space c = (let n = of_char c :: nat in (9 \<le> n \<and> n \<le> 13) \<or> n = 32 \<or> n = 160)"

definition js_trim :: "string \<Rightarrow> string" where
  "js_trim s = rev (dropWhile is_space (rev (dropWhile is_space s)))"

text \<open>The pattern \<open>[\u0000-\u001f\u007f]\<close> matches.\<close>

definition is_control :: "char \<Rightarrow> bool" where
  "is_control c = (let n = of_char c :: nat in n \<le> 31 \<or> n = 127)"

definition has_control :: "string \<Rightarrow> bool" where
  "has_control s = list_ex is_control s"

definition is_id_char :: "char \<Rightarrow> bool" where
  "is_id_char c = (let n = of_char c :: nat in
     (65 \<le> n \<and> n \<le> 90) \<or> (97 \<le> n \<and> n \<le> 122) \<or> (48 \<le> n \<and> n \<le> 57) \<or> n = 45 \<or> n = 95)"

text \<open>\<open>Buffer.byteLength(s, "utf8")\<close>: code units from U+0080 take two bytes.\<close>

definition utf8_length :: "string \<Rightarrow> nat" where
  "utf8_length s = sum_list (map (\<lambda>c. if (of_char c :: nat) < 128 then 1 else 2) s)"

lemma dropWhile_trim_idem: "dropWhile P (dropWhile P s) = dropWhile P s"
  by (induction s) auto

lemma js_trim_ends:
  assumes "js_trim s \<noteq> []"
  shows "\<not> is_space (hd (js_trim s)) \<and> \<not> is_space (last (js_trim s))"
proof -
  define d where "d = dropWhile is_space s"
  define t where "t = dropWhile is_space (rev d)"
  have js: "js_trim s = rev t" by (simp add: js_trim_def t_def d_def)
  with assms have t0: "t \<noteq> []" by simp
  have "\<not> is_space (hd t)" using t0 unfolding t_def by (rule hd_dropWhile)
  moreover have "\<not> is_space (last t)"
  proof -
    have "last t = last (rev d)"
      using t0 unfolding t_def by (metis dropWhile_append3 last_append takeWhile_dropWhile_id)
    moreover have "d \<noteq> []" using t0 by (auto simp: t_def)
    ultimately show ?thesis using hd_dropWhile [of is_space s] by (simp add: last_rev d_def)
  qed
  ultimately show ?thesis using t0 by (simp add: js hd_rev last_rev)
qed

lemma js_trim_fixed:
  assumes "s \<noteq> []" and "\<not> is_space (hd s)" and "\<not> is_space (last s)"
  shows "js_trim s = s"
proof -
  have "dropWhile is_space s = s" using assms(1,2) by (cases s) auto
  moreover have "dropWhile is_space (rev s) = rev s" using assms(1,3) by (cases s rule: rev_cases) auto
  ultimately show ?thesis by (simp add: js_trim_def)
qed

lemma js_trim_idem [simp]: "js_trim (js_trim s) = js_trim s"
proof (cases "js_trim s = []")
  case True
  show ?thesis unfolding True by (simp add: js_trim_def)
next
  case False
  with js_trim_ends [OF False] show ?thesis by (intro js_trim_fixed) auto
qed

section \<open>Timestamps\<close>

text \<open>
  A stored timestamp is a string. \<open>Iso t\<close> is the string \<open>new Date(t).toISOString()\<close>;
  \<open>Other_stamp s p\<close> is any other string \<open>s\<close>, with \<open>p\<close> what \<open>Date.parse\<close> makes of it
  (\<open>None\<close> for \<open>NaN\<close>). Two stamps are equal exactly when the strings are.
\<close>

datatype stamp = Iso int | Other_stamp string "int option"

fun date_parse :: "stamp \<Rightarrow> int option" where
  "date_parse (Iso t) = Some t"
| "date_parse (Other_stamp _ p) = p"

text \<open>Comparisons with \<open>NaN\<close> are false.\<close>

definition stamp_le :: "stamp \<Rightarrow> int \<Rightarrow> bool" where
  "stamp_le s now = (case date_parse s of None \<Rightarrow> False | Some t \<Rightarrow> t \<le> now)"

definition stamp_lt :: "stamp \<Rightarrow> int \<Rightarrow> bool" where
  "stamp_lt s now = (case date_parse s of None \<Rightarrow> False | Some t \<Rightarrow> t < now)"

definition stamp_gt :: "stamp \<Rightarrow> int \<Rightarrow> bool" where
  "stamp_gt s now = (case date_parse s of None \<Rightarrow> False | Some t \<Rightarrow> t > now)"

fun stamp_set :: "stamp option \<Rightarrow> bool" where
  "stamp_set None = False"
| "stamp_set (Some (Iso _)) = True"
| "stamp_set (Some (Other_stamp s _)) = (s \<noteq> [])"

lemma stamp_Iso [simp]:
  "stamp_le (Iso t) n \<longleftrightarrow> t \<le> n" "stamp_lt (Iso t) n \<longleftrightarrow> t < n" "stamp_gt (Iso t) n \<longleftrightarrow> t > n"
  by (simp_all add: stamp_le_def stamp_lt_def stamp_gt_def)

end
