(* ===== verification/Records.thy ===== *)
theory Records
  imports Js_Values
begin

text \<open>
  The records of packages/protocol/src (room-team-records.ts, relay-messages.ts) and of
  apps/relay/src/state.ts. An optional field is an option; numbers that the schemas restrict to
  non-negative integers are \<open>nat\<close>; times in milliseconds are \<open>int\<close>.
\<close>

datatype team_role = Owner | Admin | Member

record team =
  t_id :: string
  t_name :: string
  t_members :: nat
  t_role :: "team_role option"
  t_archived :: "stamp option"
  t_deleted :: "stamp option"

record team_member =
  m_team :: string
  m_user :: string
  m_role :: team_role
  m_joined :: stamp

record device =
  d_user :: string
  d_device :: string
  d_display :: string
  d_sig_key :: string
  d_sig_fp :: string
  d_hpke_key :: string
  d_hpke_fp :: string
  d_registered :: stamp
  d_last_seen :: stamp

datatype host_status = Host_active | Host_offline
datatype approval_policy = Ask_every_turn | Never_host

record room =
  r_id :: string
  r_team :: string
  r_epoch :: "nat option"
  r_name :: string
  r_host :: string
  r_host_user :: "string option"
  r_host_device :: "string option"
  r_status :: host_status
  r_policy :: approval_policy
  r_archived :: "stamp option"
  r_deleted :: "stamp option"

record invite =
  i_id :: string
  i_team :: string
  i_room :: string
  i_creator :: "string option"
  i_user :: "string option"
  i_device :: "string option"
  i_kp_hash :: "string option"
  i_created :: stamp
  i_expires :: "stamp option"

record invite_request =
  q_id :: string
  q_invite :: string
  q_user :: string
  q_device :: string
  q_kp_id :: string
  q_kp_hash :: string
  q_sealed :: string
  q_created :: stamp

datatype decision = Approved | Denied

record response_binding =
  b_invite :: string
  b_team :: string
  b_room :: string
  b_epoch :: nat
  b_kp_hash :: string
  b_request :: string
  b_nonce :: string
  b_user :: string
  b_device :: string
  b_host_user :: string
  b_host_device :: string
  b_expires :: stamp
  b_status :: decision
  b_decided :: stamp

record invite_response =
  s_request :: string
  s_invite :: string
  s_user :: string
  s_device :: string
  s_kp_hash :: string
  s_status :: decision
  s_binding :: response_binding
  s_mac :: string
  s_welcome :: "string option"
  s_created :: stamp

record attachment =
  a_id :: string
  a_team :: string
  a_room :: string
  a_name :: string
  a_type :: string
  a_size :: nat
  a_uploader :: "string option"
  a_epoch :: nat
  a_sealed :: string
  a_created :: stamp
  a_expires :: "stamp option"

section \<open>Messages (relay-messages.ts)\<close>

datatype mls_type = Application | Commit

record host_transfer =
  h_transfer :: string
  h_room :: string
  h_commit :: string
  h_parent :: nat
  h_out_user :: string
  h_out_device :: string
  h_next_user :: string
  h_next_device :: string
  h_next_leaf :: nat
  h_signature :: string
  h_public_key :: string

record mls_message =
  mm_id :: string
  mm_team :: string
  mm_room :: string
  mm_device :: string
  mm_user :: string
  mm_created :: stamp
  mm_type :: mls_type
  mm_epoch :: nat
  mm_mls :: string
  mm_handoff :: bool
  mm_next_user :: "string option"
  mm_next_device :: "string option"
  mm_transfer :: "host_transfer option"

record key_package =
  k_id :: string
  k_package :: string
  k_hash :: string
  k_user :: string
  k_device :: string
  k_identity :: string
  k_created :: stamp

section \<open>Relay state records (state.ts)\<close>

record session_user =
  u_id :: string
  u_login :: string
  u_name :: "string option"
  u_avatar :: "string option"

record auth_session =
  as_hash :: string
  as_user :: session_user
  as_expires :: int

record presence =
  p_team :: string
  p_room :: string
  p_user :: string
  p_device :: string
  p_display :: string
  p_avatar :: "string option"
  p_fp :: "string option"

record device_challenge =
  dc_user :: string
  dc_device :: string
  dc_expires :: int

record device_session =
  ds_token :: string
  ds_user :: string
  ds_device :: string
  ds_expires :: int

record message_receipt =
  mr_room :: string
  mr_message :: string
  mr_type :: mls_type
  mr_user :: string
  mr_device :: string
  mr_parent :: nat
  mr_digest :: string
  mr_accepted :: stamp

record ack_receipt =
  ar_invite :: string
  ar_request :: string
  ar_team :: string
  ar_user :: string
  ar_device :: string
  ar_kp_hash :: string
  ar_status :: decision
  ar_acked :: stamp
  ar_expires :: stamp

record consumed_key_package =
  ck_hash :: string
  ck_team :: "string option"
  ck_user :: "string option"
  ck_device :: "string option"
  ck_at :: stamp

record restriction =
  re_user :: string
  re_reason :: string
  re_created :: stamp
  re_expires :: "stamp option"

datatype quota_kind = Daily_team_creations | Daily_room_creations | Attachment_upload_bytes

record quota_record =
  qr_key :: string
  qr_user :: string
  qr_quota :: quota_kind
  qr_used :: int
  qr_reset :: int

end
