(* ===== verification/Json.thy ===== *)
theory Json
  imports Records
begin

text \<open>
  \<open>JSON.stringify\<close> of the values whose text the relay depends on (message sizes and retry
  digests), and \<open>toISOString\<close>.
\<close>

datatype json = Jstr string | Jint int | Jlist "json list" | Jobj "(string \<times> json) list"

definition hex_digit :: "nat \<Rightarrow> char" where
  "hex_digit d = (if d < 10 then char_of (48 + d) else char_of (87 + d))"

text \<open>The escapes of a JSON string literal, for code units below U+0100.\<close>

definition json_char :: "char \<Rightarrow> string" where
  "json_char c = (let n = of_char c :: nat in
     if 35 \<le> n \<and> n \<noteq> 92 then [c]
     else if n = 34 then [char_of (92::nat), char_of (34::nat)]
     else if n = 92 then [char_of (92::nat), char_of (92::nat)]
     else if n = 8 then char_of (92::nat) # ''b''
     else if n = 9 then char_of (92::nat) # ''t''
     else if n = 10 then char_of (92::nat) # ''n''
     else if n = 12 then char_of (92::nat) # ''f''
     else if n = 13 then char_of (92::nat) # ''r''
     else if n < 32 then char_of (92::nat) # ''u00'' @ [hex_digit (n div 16), hex_digit (n mod 16)]
     else [c])"

definition json_quote :: "string \<Rightarrow> string" where
  "json_quote s = [char_of (34::nat)] @ concat (map json_char s) @ [char_of (34::nat)]"

fun stringify :: "json \<Rightarrow> string" where
  "stringify (Jstr s) = json_quote s"
| "stringify (Jint i) = int_digits i"
| "stringify (Jlist xs) = ''['' @ join_comma (map stringify xs) @ '']''"
| "stringify (Jobj fs) = ''{'' @ join_comma (map (\<lambda>(k, v). json_quote k @ '':'' @ stringify v) fs) @ ''}''"

section \<open>toISOString\<close>

text \<open>The proleptic Gregorian date of a day number counted from 1970-01-01.\<close>

definition civil :: "int \<Rightarrow> int \<times> int \<times> int" where
  "civil days =
     (let z = days + 719468; era = z div 146097; doe = z mod 146097;
          yoe = (doe - doe div 1460 + doe div 36524 - doe div 146096) div 365;
          doy = doe - (365 * yoe + yoe div 4 - yoe div 100);
          mp = (5 * doy + 2) div 153;
          d = doy - (153 * mp + 2) div 5 + 1;
          m = (if mp < 10 then mp + 3 else mp - 9)
      in (yoe + era * 400 + (if m \<le> 2 then 1 else 0), m, d))"

definition pad :: "nat \<Rightarrow> int \<Rightarrow> string" where
  "pad w i = (let s = nat_digits (nat i) in replicate (w - length s) (CHR ''0'') @ s)"

definition iso_text :: "int \<Rightarrow> string" where
  "iso_text t =
     (let ms = t mod 86400000; (y, m, d) = civil (t div 86400000);
          year = (if 0 \<le> y \<and> y \<le> 9999 then pad 4 y
                  else (if y < 0 then ''-'' else ''+'') @ pad 6 \<bar>y\<bar>)
      in year @ ''-'' @ pad 2 m @ ''-'' @ pad 2 d @ ''T''
         @ pad 2 (ms div 3600000) @ '':'' @ pad 2 (ms div 60000 mod 60) @ '':''
         @ pad 2 (ms div 1000 mod 60) @ ''.'' @ pad 3 (ms mod 1000) @ ''Z'')"

fun stamp_text :: "stamp \<Rightarrow> string" where
  "stamp_text (Iso t) = iso_text t"
| "stamp_text (Other_stamp s _) = s"

section \<open>Relay messages\<close>

definition opt_field :: "string \<Rightarrow> string option \<Rightarrow> (string \<times> json) list" where
  "opt_field k v = (case v of None \<Rightarrow> [] | Some s \<Rightarrow> [(k, Jstr s)])"

definition transfer_signed_fields :: "host_transfer \<Rightarrow> (string \<times> json) list" where
  "transfer_signed_fields h =
     [(''version'', Jint 2), (''transferId'', Jstr (h_transfer h)), (''roomId'', Jstr (h_room h)),
      (''commitMessageId'', Jstr (h_commit h)), (''parentEpoch'', Jint (int (h_parent h))),
      (''outgoingHostUserId'', Jstr (h_out_user h)), (''outgoingHostDeviceId'', Jstr (h_out_device h)),
      (''nextHostUserId'', Jstr (h_next_user h)), (''nextHostDeviceId'', Jstr (h_next_device h)),
      (''nextHostLeaf'', Jint (int (h_next_leaf h)))]"

definition transfer_json :: "host_transfer \<Rightarrow> json" where
  "transfer_json h = Jobj (transfer_signed_fields h @
     [(''signatureDer'', Jstr (h_signature h)), (''publicKeySpkiDer'', Jstr (h_public_key h))])"

definition mls_type_text :: "mls_type \<Rightarrow> string" where
  "mls_type_text t = (case t of Application \<Rightarrow> ''application'' | Commit \<Rightarrow> ''commit'')"

definition mls_fields :: "bool \<Rightarrow> mls_message \<Rightarrow> (string \<times> json) list" where
  "mls_fields with_created m =
     [(''id'', Jstr (mm_id m)), (''teamId'', Jstr (mm_team m)), (''roomId'', Jstr (mm_room m)),
      (''senderDeviceId'', Jstr (mm_device m)), (''senderUserId'', Jstr (mm_user m))]
     @ (if with_created then [(''createdAt'', Jstr (stamp_text (mm_created m)))] else [])
     @ [(''messageType'', Jstr (mls_type_text (mm_type m))), (''epochHint'', Jint (int (mm_epoch m))),
        (''mlsMessage'', Jstr (mm_mls m))]
     @ (if mm_handoff m then [(''commitEffect'', Jstr ''host_handoff'')] else [])
     @ opt_field ''nextHostUserId'' (mm_next_user m)
     @ opt_field ''nextHostDeviceId'' (mm_next_device m)
     @ (case mm_transfer m of None \<Rightarrow> [] | Some h \<Rightarrow> [(''hostTransferAuthorization'', transfer_json h)])"

text \<open>\<open>JSON.stringify(message)\<close>, and of a Commit without its \<open>createdAt\<close>.\<close>

definition mls_text :: "mls_message \<Rightarrow> string" where
  "mls_text m = stringify (Jobj (mls_fields True m))"

definition mls_text_without_created :: "mls_message \<Rightarrow> string" where
  "mls_text_without_created m = stringify (Jobj (mls_fields False m))"

text \<open>\<open>retainedJsonBytes(messages)\<close> of store-byte-capacity.ts.\<close>

definition retained_json_bytes :: "mls_message list \<Rightarrow> nat" where
  "retained_json_bytes ms =
     utf8_length (stringify (Jlist (map (\<lambda>m. Jobj (mls_fields True m)) ms)))"

end
