(* ===== verification/Store.thy ===== *)
theory Store
  imports Capacity Json
begin

text \<open>
  The durable half of \<open>InMemoryRelayStore\<close> (apps/relay/src/state.ts): sixteen tracked maps that
  share one entry capacity, one byte capacity and one log of durable mutations, and the
  untracked maps of device challenges and device sessions.

  A tracked map is described by a \<open>tracked\<close> record (which field of the store it is, what team
  and what byte weight an entry counts for), and \<open>dm_set\<close>, \<open>dm_delete\<close>, \<open>dm_clear\<close> are the
  methods of \<open>DurableMutationMap\<close>. The locale \<open>tracked_map\<close> states what such a description must
  satisfy; every map of the store is an interpretation.
\<close>

datatype entity = E_authSessions | E_accountRestrictions | E_accountQuotaRecords | E_teams | E_rooms
  | E_invites | E_inviteRequests | E_inviteResponses | E_inviteAckReceipts | E_acceptedMessageReceipts
  | E_devices | E_keyPackages | E_consumedKeyPackages | E_attachmentBlobs | E_teamMembers | E_mlsBacklog

record relay_store =
  st_cap :: entry_capacity
  st_bytes :: byte_capacity
  st_log :: "(entity \<times> string) list"
  authSessions :: "(string, auth_session) jmap"
  accountRestrictions :: "(string, restriction) jmap"
  accountQuotaRecords :: "(string, quota_record) jmap"
  teams :: "(string, team) jmap"
  rooms :: "(string, room) jmap"
  invites :: "(string, invite) jmap"
  inviteRequests :: "(string, invite_request) jmap"
  inviteResponses :: "(string, invite_response) jmap"
  inviteAckReceipts :: "(string, ack_receipt) jmap"
  acceptedMessageReceipts :: "(string, message_receipt) jmap"
  devices :: "(string, device) jmap"
  keyPackages :: "(string, key_package) jmap"
  consumedKeyPackages :: "(string, consumed_key_package) jmap"
  attachmentBlobs :: "(string, attachment) jmap"
  mlsBacklog :: "(string, mls_message list) jmap"
  teamMembers :: "(string, (string, team_member) jmap) jmap"
  deviceChallenges :: "(string, device_challenge) jmap"
  deviceSessions :: "(string, device_session) jmap"

text \<open>The constructor: empty maps; ill-ordered byte limits are refused.\<close>

definition empty_store :: "entry_capacity \<Rightarrow> byte_capacity \<Rightarrow> relay_store" where
  "empty_store c b =
     \<lparr>st_cap = c, st_bytes = b, st_log = [], authSessions = [], accountRestrictions = [],
      accountQuotaRecords = [], teams = [], rooms = [], invites = [], inviteRequests = [],
      inviteResponses = [], inviteAckReceipts = [], acceptedMessageReceipts = [], devices = [],
      keyPackages = [], consumedKeyPackages = [], attachmentBlobs = [], mlsBacklog = [],
      teamMembers = [], deviceChallenges = [], deviceSessions = []\<rparr>"

definition create_relay_store :: "int \<Rightarrow> int \<Rightarrow> byte_limits \<Rightarrow> relay_store option" where
  "create_relay_store max_entries max_per_team limits =
     (case bc_new limits of None \<Rightarrow> None
      | Some b \<Rightarrow> Some (empty_store (ec_configure max_entries max_per_team) b))"

text \<open>\<open>key.slice(0, key.indexOf(":"))\<close>; without a colon the index is \<open>-1\<close>.\<close>

definition team_from_room_key :: "string \<Rightarrow> string" where
  "team_from_room_key key =
     (if CHR '':'' \<in> set key then takeWhile (\<lambda>c. c \<noteq> CHR '':'') key else butlast key)"

section \<open>Tracked maps\<close>

record 'v tracked =
  tr_get :: "relay_store \<Rightarrow> (string, 'v) jmap"
  tr_put :: "(string, 'v) jmap \<Rightarrow> relay_store \<Rightarrow> relay_store"
  tr_entity :: entity
  tr_team :: "'v \<Rightarrow> string \<Rightarrow> string option"
  tr_weight :: "('v \<Rightarrow> string \<Rightarrow> byte_weight) option"

definition log_mutation :: "entity \<Rightarrow> string \<Rightarrow> relay_store \<Rightarrow> relay_store" where
  "log_mutation e k s = s\<lparr>st_log := st_log s @ [(e, k)]\<rparr>"

definition bytes_replace :: "'v tracked \<Rightarrow> 'v option \<Rightarrow> 'v option \<Rightarrow> string \<Rightarrow> relay_store \<Rightarrow> (store_error, relay_store) outcome" where
  "bytes_replace T p n k s =
     (case tr_weight T of
        None \<Rightarrow> Done s
      | Some w \<Rightarrow> map_state (\<lambda>b. s\<lparr>st_bytes := b\<rparr>)
          (bc_replace (map_option (\<lambda>v. w v k) p) (map_option (\<lambda>v. w v k) n) (st_bytes s)))"

definition dm_set :: "'v tracked \<Rightarrow> string \<Rightarrow> 'v \<Rightarrow> relay_store \<Rightarrow> (store_error, relay_store) outcome" where
  "dm_set T k v s =
     (let prev = jget (tr_get T s) k in
      seq (bytes_replace T prev (Some v) k s) (\<lambda>s1.
        case (case prev of
                None \<Rightarrow> ec_claim (tr_team T v k) (st_cap s1)
              | Some u \<Rightarrow> ec_move (tr_team T u k) (tr_team T v k) (st_cap s1)) of
          Done c \<Rightarrow> Done (log_mutation (tr_entity T) k
                            (tr_put T (jset k v (tr_get T s1)) (s1\<lparr>st_cap := c\<rparr>)))
        | Throws e c \<Rightarrow>
            (case bytes_replace T (Some v) prev k (s1\<lparr>st_cap := c\<rparr>) of
               Done s2 \<Rightarrow> Throws e s2
             | Throws e' s2 \<Rightarrow> Throws e' s2)))"

text \<open>What \<open>delete\<close> and \<open>clear\<close> do for an entry they removed: releasing never throws.\<close>

definition dm_release :: "'v tracked \<Rightarrow> string \<Rightarrow> 'v \<Rightarrow> relay_store \<Rightarrow> relay_store" where
  "dm_release T k u s =
     (let s2 = state_of (bytes_replace T (Some u) None k s)
      in log_mutation (tr_entity T) k
           (s2\<lparr>st_cap := state_of (ec_release (tr_team T u k) (st_cap s2))\<rparr>))"

definition dm_delete :: "'v tracked \<Rightarrow> string \<Rightarrow> relay_store \<Rightarrow> relay_store" where
  "dm_delete T k s =
     (case jget (tr_get T s) k of
        None \<Rightarrow> s
      | Some u \<Rightarrow> dm_release T k u (tr_put T (jdel k (tr_get T s)) s))"

definition dm_clear :: "'v tracked \<Rightarrow> relay_store \<Rightarrow> relay_store" where
  "dm_clear T s = fold (\<lambda>(k, u). dm_release T k u) (tr_get T s) (tr_put T [] s)"

text \<open>Deleting every entry that matches, in iteration order (a \<open>for ... of\<close> loop that deletes).\<close>

definition dm_delete_where :: "'v tracked \<Rightarrow> (string \<Rightarrow> 'v \<Rightarrow> bool) \<Rightarrow> relay_store \<Rightarrow> relay_store" where
  "dm_delete_where T P s =
     fold (\<lambda>(k, u) s. if P k u then dm_delete T k s else s) (tr_get T s) s"

subsection \<open>The maps of the store\<close>

definition auth_map :: "auth_session tracked" where
  "auth_map = \<lparr>tr_get = authSessions, tr_put = (\<lambda>m s. s\<lparr>authSessions := m\<rparr>),
     tr_entity = E_authSessions, tr_team = (\<lambda>_ _. None), tr_weight = None\<rparr>"

definition restriction_map :: "restriction tracked" where
  "restriction_map = \<lparr>tr_get = accountRestrictions, tr_put = (\<lambda>m s. s\<lparr>accountRestrictions := m\<rparr>),
     tr_entity = E_accountRestrictions, tr_team = (\<lambda>_ _. None), tr_weight = None\<rparr>"

definition quota_map :: "quota_record tracked" where
  "quota_map = \<lparr>tr_get = accountQuotaRecords, tr_put = (\<lambda>m s. s\<lparr>accountQuotaRecords := m\<rparr>),
     tr_entity = E_accountQuotaRecords, tr_team = (\<lambda>_ _. None), tr_weight = None\<rparr>"

definition team_map :: "team tracked" where
  "team_map = \<lparr>tr_get = teams, tr_put = (\<lambda>m s. s\<lparr>teams := m\<rparr>),
     tr_entity = E_teams, tr_team = (\<lambda>v _. Some (t_id v)), tr_weight = None\<rparr>"

definition room_map :: "room tracked" where
  "room_map = \<lparr>tr_get = rooms, tr_put = (\<lambda>m s. s\<lparr>rooms := m\<rparr>),
     tr_entity = E_rooms, tr_team = (\<lambda>v _. Some (r_team v)), tr_weight = None\<rparr>"

definition invite_map :: "invite tracked" where
  "invite_map = \<lparr>tr_get = invites, tr_put = (\<lambda>m s. s\<lparr>invites := m\<rparr>),
     tr_entity = E_invites, tr_team = (\<lambda>v _. Some (i_team v)), tr_weight = None\<rparr>"

definition request_map :: "invite_request tracked" where
  "request_map = \<lparr>tr_get = inviteRequests, tr_put = (\<lambda>m s. s\<lparr>inviteRequests := m\<rparr>),
     tr_entity = E_inviteRequests, tr_team = (\<lambda>_ _. None), tr_weight = None\<rparr>"

definition response_map :: "invite_response tracked" where
  "response_map = \<lparr>tr_get = inviteResponses, tr_put = (\<lambda>m s. s\<lparr>inviteResponses := m\<rparr>),
     tr_entity = E_inviteResponses, tr_team = (\<lambda>v _. Some (b_team (s_binding v))), tr_weight = None\<rparr>"

definition ack_map :: "ack_receipt tracked" where
  "ack_map = \<lparr>tr_get = inviteAckReceipts, tr_put = (\<lambda>m s. s\<lparr>inviteAckReceipts := m\<rparr>),
     tr_entity = E_inviteAckReceipts, tr_team = (\<lambda>v _. Some (ar_team v)), tr_weight = None\<rparr>"

definition receipt_map :: "message_receipt tracked" where
  "receipt_map = \<lparr>tr_get = acceptedMessageReceipts, tr_put = (\<lambda>m s. s\<lparr>acceptedMessageReceipts := m\<rparr>),
     tr_entity = E_acceptedMessageReceipts, tr_team = (\<lambda>v _. Some (team_from_room_key (mr_room v))),
     tr_weight = None\<rparr>"

definition device_map :: "device tracked" where
  "device_map = \<lparr>tr_get = devices, tr_put = (\<lambda>m s. s\<lparr>devices := m\<rparr>),
     tr_entity = E_devices, tr_team = (\<lambda>_ _. None), tr_weight = None\<rparr>"

definition key_package_map :: "key_package tracked" where
  "key_package_map = \<lparr>tr_get = keyPackages, tr_put = (\<lambda>m s. s\<lparr>keyPackages := m\<rparr>),
     tr_entity = E_keyPackages, tr_team = (\<lambda>_ _. None), tr_weight = None\<rparr>"

definition consumed_map :: "consumed_key_package tracked" where
  "consumed_map = \<lparr>tr_get = consumedKeyPackages, tr_put = (\<lambda>m s. s\<lparr>consumedKeyPackages := m\<rparr>),
     tr_entity = E_consumedKeyPackages, tr_team = (\<lambda>v _. ck_team v), tr_weight = None\<rparr>"

definition attachment_map :: "attachment tracked" where
  "attachment_map = \<lparr>tr_get = attachmentBlobs, tr_put = (\<lambda>m s. s\<lparr>attachmentBlobs := m\<rparr>),
     tr_entity = E_attachmentBlobs, tr_team = (\<lambda>v _. Some (a_team v)),
     tr_weight = Some (\<lambda>v _. \<lparr>w_resource = Attachment_blobs, w_bytes = utf8_length (a_sealed v),
                              w_team = a_team v, w_room = None\<rparr>)\<rparr>"

definition backlog_map :: "mls_message list tracked" where
  "backlog_map = \<lparr>tr_get = mlsBacklog, tr_put = (\<lambda>m s. s\<lparr>mlsBacklog := m\<rparr>),
     tr_entity = E_mlsBacklog, tr_team = (\<lambda>_ k. Some (team_from_room_key k)),
     tr_weight = Some (\<lambda>v k. \<lparr>w_resource = Mls_backlog, w_bytes = retained_json_bytes v,
                              w_team = team_from_room_key k, w_room = Some k\<rparr>)\<rparr>"

section \<open>Team membership\<close>

text \<open>
  \<open>TeamMemberCollectionMap\<close>: one entry per team and one per member, all counted for the team.
  The inner maps are themselves tracked: \<open>member_set\<close> and \<open>member_delete\<close> mutate the live map
  that \<open>getTeamMembers\<close> returns.
\<close>

definition members_of :: "relay_store \<Rightarrow> string \<Rightarrow> (string, team_member) jmap option" where
  "members_of s t = jget (teamMembers s) t"

definition set_team_members :: "string \<Rightarrow> (string, team_member) jmap \<Rightarrow> relay_store \<Rightarrow> (store_error, relay_store) outcome" where
  "set_team_members t ms s =
     (let prev = (case members_of s t of None \<Rightarrow> 0 | Some old \<Rightarrow> length old);
          delta = int (length ms) - int prev + (if jhas (teamMembers s) t then 0 else 1) in
      case ec_adjust delta (Some t) (st_cap s) of
        Throws e c \<Rightarrow> Throws e (s\<lparr>st_cap := c\<rparr>)
      | Done c \<Rightarrow> Done (log_mutation E_teamMembers t
                    (s\<lparr>st_cap := c, teamMembers := jset t ms (teamMembers s)\<rparr>)))"

definition delete_team_members :: "string \<Rightarrow> relay_store \<Rightarrow> relay_store" where
  "delete_team_members t s =
     (case members_of s t of
        None \<Rightarrow> s
      | Some ms \<Rightarrow> log_mutation E_teamMembers t
          (s\<lparr>st_cap := state_of (ec_adjust (- (1 + int (length ms))) (Some t) (st_cap s)),
             teamMembers := jdel t (teamMembers s)\<rparr>))"

definition member_set :: "string \<Rightarrow> string \<Rightarrow> team_member \<Rightarrow> relay_store \<Rightarrow> (store_error, relay_store) outcome" where
  "member_set t u r s =
     (case members_of s t of
        None \<Rightarrow> Done s
      | Some ms \<Rightarrow>
          (case (if jhas ms u then ec_move (Some t) (Some t) (st_cap s) else ec_claim (Some t) (st_cap s)) of
             Throws e c \<Rightarrow> Throws e (s\<lparr>st_cap := c\<rparr>)
           | Done c \<Rightarrow> Done (log_mutation E_teamMembers t
               (s\<lparr>st_cap := c, teamMembers := jset t (jset u r ms) (teamMembers s)\<rparr>))))"

definition get_team_member :: "relay_store \<Rightarrow> string \<Rightarrow> string \<Rightarrow> team_member option" where
  "get_team_member s t u = (case members_of s t of None \<Rightarrow> None | Some ms \<Rightarrow> jget ms u)"

definition has_team_member :: "relay_store \<Rightarrow> string \<Rightarrow> string \<Rightarrow> bool" where
  "has_team_member s t u = (case members_of s t of None \<Rightarrow> False | Some ms \<Rightarrow> jhas ms u)"

definition team_ids_for_member :: "relay_store \<Rightarrow> string \<Rightarrow> string list" where
  "team_ids_for_member s u = map fst (filter (\<lambda>(_, ms). jhas ms u) (teamMembers s))"

section \<open>Named accessors\<close>

text \<open>\<open>`${userId}:${deviceId}`\<close> and \<open>`${teamId}:${roomId}`\<close>.\<close>

definition device_key :: "string \<Rightarrow> string \<Rightarrow> string" where
  "device_key u d = u @ '':'' @ d"

definition room_key :: "string \<Rightarrow> string \<Rightarrow> string" where
  "room_key t r = t @ '':'' @ r"

definition get_device :: "relay_store \<Rightarrow> string \<Rightarrow> string \<Rightarrow> device option" where
  "get_device s u d = jget (devices s) (device_key u d)"

definition set_device :: "device \<Rightarrow> relay_store \<Rightarrow> (store_error, relay_store) outcome" where
  "set_device d s = dm_set device_map (device_key (d_user d) (d_device d)) d s"

definition set_team :: "team \<Rightarrow> relay_store \<Rightarrow> (store_error, relay_store) outcome" where
  "set_team t s = dm_set team_map (t_id t) t s"

definition set_room :: "room \<Rightarrow> relay_store \<Rightarrow> (store_error, relay_store) outcome" where
  "set_room r s = dm_set room_map (r_id r) r s"

definition key_packages_for_device :: "relay_store \<Rightarrow> string \<Rightarrow> string \<Rightarrow> key_package list" where
  "key_packages_for_device s u d =
     filter (\<lambda>k. k_user k = u \<and> k_device k = d) (jvalues (keyPackages s))"

text \<open>\<open>drainDurableMutations\<close> hands the log over and starts a new one.\<close>

definition drain_durable_mutations :: "relay_store \<Rightarrow> (entity \<times> string) list \<times> relay_store" where
  "drain_durable_mutations s = (st_log s, s\<lparr>st_log := []\<rparr>)"

definition discard_durable_mutations :: "relay_store \<Rightarrow> relay_store" where
  "discard_durable_mutations s = s\<lparr>st_log := []\<rparr>"

lemma has_team_member_iff: "has_team_member s t u \<longleftrightarrow> get_team_member s t u \<noteq> None"
  by (simp add: has_team_member_def get_team_member_def jhas_def split: option.splits)

lemma team_from_room_key_room_key: "CHR '':'' \<notin> set t \<Longrightarrow> team_from_room_key (room_key t r) = t"
  by (induction t) (auto simp: team_from_room_key_def room_key_def)

lemma room_key_inj:
  assumes "CHR '':'' \<notin> set t" and "CHR '':'' \<notin> set t'" and "room_key t r = room_key t' r'"
  shows "t = t' \<and> r = r'"
  using team_from_room_key_room_key [OF assms(1), of r] team_from_room_key_room_key [OF assms(2), of r']
    assms(3) by (simp add: room_key_def)

end
