(* ===== verification/Store_Accounting.thy ===== *)
theory Store_Accounting
  imports Store
begin

text \<open>
  The accounting invariant of the durable store. \<open>entry_teams\<close> is the multiset of the teams that
  the entries of all maps count for, \<open>entry_weights\<close> the multiset of their byte weights;
  \<open>store_ok\<close> says that the counters are exactly the counts of these multisets and respect the
  configured ceilings. The proofs are made once, in the locale \<open>tracked_map\<close>, which every map of
  the store interprets.
\<close>

definition team_mset :: "'v tracked \<Rightarrow> relay_store \<Rightarrow> string option multiset" where
  "team_mset T s = image_mset (\<lambda>(k, u). tr_team T u k) (mset (tr_get T s))"

definition weights_of :: "'v tracked \<Rightarrow> (string, 'v) jmap \<Rightarrow> byte_weight multiset" where
  "weights_of T m = (case tr_weight T of None \<Rightarrow> {#} | Some w \<Rightarrow> image_mset (\<lambda>(k, u). w u k) (mset m))"

definition member_teams :: "(string, (string, team_member) jmap) jmap \<Rightarrow> string option multiset" where
  "member_teams m = (\<Sum>(t, ms)\<in>#mset m. replicate_mset (Suc (length ms)) (Some t))"

definition entry_teams :: "relay_store \<Rightarrow> string option multiset" where
  "entry_teams s = team_mset auth_map s + team_mset restriction_map s + team_mset quota_map s
     + team_mset team_map s + team_mset room_map s + team_mset invite_map s + team_mset request_map s
     + team_mset response_map s + team_mset ack_map s + team_mset receipt_map s + team_mset device_map s
     + team_mset key_package_map s + team_mset consumed_map s + team_mset attachment_map s
     + team_mset backlog_map s + member_teams (teamMembers s)"

definition entry_weights :: "relay_store \<Rightarrow> byte_weight multiset" where
  "entry_weights s = weights_of attachment_map (attachmentBlobs s) + weights_of backlog_map (mlsBacklog s)"

definition store_wf :: "relay_store \<Rightarrow> bool" where
  "store_wf s \<longleftrightarrow> jwf (authSessions s) \<and> jwf (accountRestrictions s) \<and> jwf (accountQuotaRecords s)
     \<and> jwf (teams s) \<and> jwf (rooms s) \<and> jwf (invites s) \<and> jwf (inviteRequests s)
     \<and> jwf (inviteResponses s) \<and> jwf (inviteAckReceipts s) \<and> jwf (acceptedMessageReceipts s)
     \<and> jwf (devices s) \<and> jwf (keyPackages s) \<and> jwf (consumedKeyPackages s)
     \<and> jwf (attachmentBlobs s) \<and> jwf (mlsBacklog s) \<and> jwf (teamMembers s)
     \<and> list_all (\<lambda>(_, ms). jwf ms) (teamMembers s)"

definition store_ok :: "relay_store \<Rightarrow> bool" where
  "store_ok s \<longleftrightarrow> store_wf s \<and> ec_counts (st_cap s) (entry_teams s) \<and> ec_bounded (st_cap s)
     \<and> bc_counts (st_bytes s) (entry_weights s) \<and> bc_bounded (st_bytes s) \<and> bc_normal (st_bytes s)"

lemmas map_defs = auth_map_def restriction_map_def quota_map_def team_map_def room_map_def
  invite_map_def request_map_def response_map_def ack_map_def receipt_map_def device_map_def
  key_package_map_def consumed_map_def attachment_map_def backlog_map_def

text \<open>
  \<open>store_data\<close> is the store without its counters and log: the value of its maps. \<open>erase T\<close> also
  forgets the map \<open>T\<close>: what an operation on that map leaves alone.
\<close>

definition blank_bytes :: byte_capacity where
  "blank_bytes = \<lparr>bc_mls = 0, bc_att = 0, bc_mls_by_team = Map.empty, bc_mls_by_room = Map.empty,
     bc_att_by_team = Map.empty, bc_limits = \<lparr>bl_mls_global = 0, bl_mls_team = 0, bl_mls_room = 0,
     bl_att_global = 0, bl_att_team = 0\<rparr>\<rparr>"

definition store_data :: "relay_store \<Rightarrow> relay_store" where
  "store_data s = s\<lparr>st_cap := ec_configure 0 0, st_bytes := blank_bytes, st_log := []\<rparr>"

definition erase :: "'v tracked \<Rightarrow> relay_store \<Rightarrow> relay_store" where
  "erase T s = tr_put T [] (store_data s)"

section \<open>The interface of a tracked map\<close>

locale tracked_map =
  fixes T :: "'v tracked"
  assumes get_put [simp]: "tr_get T (tr_put T m s) = m"
    and get_cap [simp]: "tr_get T (s\<lparr>st_cap := c\<rparr>) = tr_get T s"
    and get_bytes [simp]: "tr_get T (s\<lparr>st_bytes := b\<rparr>) = tr_get T s"
    and get_log [simp]: "tr_get T (s\<lparr>st_log := l\<rparr>) = tr_get T s"
    and put_cap [simp]: "st_cap (tr_put T m s) = st_cap s"
    and put_bytes [simp]: "st_bytes (tr_put T m s) = st_bytes s"
    and put_entries: "entry_teams (tr_put T m s) + team_mset T s
        = entry_teams s + image_mset (\<lambda>(k, u). tr_team T u k) (mset m)"
    and put_weights: "entry_weights (tr_put T m s) + weights_of T (tr_get T s)
        = entry_weights s + weights_of T m"
    and put_wf: "store_wf s \<Longrightarrow> jwf m \<Longrightarrow> store_wf (tr_put T m s)"
    and get_wf: "store_wf s \<Longrightarrow> jwf (tr_get T s)"
    and put_get [simp]: "tr_put T (tr_get T s) s = s"
    and put_put [simp]: "tr_put T m (tr_put T m' s) = tr_put T m s"
    and put_set_cap: "tr_put T m (s\<lparr>st_cap := c\<rparr>) = tr_put T m s\<lparr>st_cap := c\<rparr>"
    and put_set_bytes: "tr_put T m (s\<lparr>st_bytes := b\<rparr>) = tr_put T m s\<lparr>st_bytes := b\<rparr>"
    and put_set_log: "tr_put T m (s\<lparr>st_log := l\<rparr>) = tr_put T m s\<lparr>st_log := l\<rparr>"

lemma entry_teams_frame [simp]:
  "entry_teams (s\<lparr>st_cap := c\<rparr>) = entry_teams s" "entry_teams (s\<lparr>st_bytes := b\<rparr>) = entry_teams s"
  "entry_teams (s\<lparr>st_log := l\<rparr>) = entry_teams s"
  by (simp_all add: entry_teams_def team_mset_def map_defs)

lemma entry_weights_frame [simp]:
  "entry_weights (s\<lparr>st_cap := c\<rparr>) = entry_weights s" "entry_weights (s\<lparr>st_bytes := b\<rparr>) = entry_weights s"
  "entry_weights (s\<lparr>st_log := l\<rparr>) = entry_weights s"
  by (simp_all add: entry_weights_def)

lemma store_wf_frame [simp]:
  "store_wf (s\<lparr>st_cap := c\<rparr>) = store_wf s" "store_wf (s\<lparr>st_bytes := b\<rparr>) = store_wf s"
  "store_wf (s\<lparr>st_log := l\<rparr>) = store_wf s"
  by (simp_all add: store_wf_def)

lemma store_data_simps [simp]:
  "store_data (s\<lparr>st_cap := c\<rparr>) = store_data s" "store_data (s\<lparr>st_bytes := b\<rparr>) = store_data s"
  "store_data (s\<lparr>st_log := l\<rparr>) = store_data s" "store_data (log_mutation e k s) = store_data s"
  "store_data (store_data s) = store_data s" "entry_teams (store_data s) = entry_teams s"
  "entry_weights (store_data s) = entry_weights s" "store_wf (store_data s) = store_wf s"
  by (simp_all add: store_data_def log_mutation_def)

lemma store_ok_log [simp]: "store_ok (log_mutation e k s) = store_ok s"
  by (simp add: store_ok_def log_mutation_def)

section \<open>The methods keep the accounting\<close>

context tracked_map begin

lemma bytes_replace_cases:
  assumes "store_ok s"
  shows "bytes_replace T p (Some v) k s = Done s'
      \<Longrightarrow> \<exists>b. s' = s\<lparr>st_bytes := b\<rparr> \<and> bc_bounded b \<and> bc_normal b
          \<and> bytes_replace T (Some v) p k s' = Done s
          \<and> (\<forall>W. bc_counts (st_bytes s) (weights_of T (case p of None \<Rightarrow> [] | Some u \<Rightarrow> [(k, u)]) + W)
                 \<longrightarrow> bc_counts b (weights_of T [(k, v)] + W))"
    and "bytes_replace T p (Some v) k s = Throws e s' \<Longrightarrow> s' = s"
proof -
  have ok: "bc_bounded (st_bytes s)" "bc_normal (st_bytes s)" using assms by (auto simp: store_ok_def)
  assume *: "bytes_replace T p (Some v) k s = Done s'"
  show "\<exists>b. s' = s\<lparr>st_bytes := b\<rparr> \<and> bc_bounded b \<and> bc_normal b
          \<and> bytes_replace T (Some v) p k s' = Done s
          \<and> (\<forall>W. bc_counts (st_bytes s) (weights_of T (case p of None \<Rightarrow> [] | Some u \<Rightarrow> [(k, u)]) + W)
                 \<longrightarrow> bc_counts b (weights_of T [(k, v)] + W))"
  proof (cases "tr_weight T")
    case None
    with * ok show ?thesis by (intro exI [of _ "st_bytes s"]) (simp add: bytes_replace_def weights_of_def)
  next
    case (Some w)
    with * obtain b where b: "bc_replace (map_option (\<lambda>u. w u k) p) (Some (w v k)) (st_bytes s) = Done b"
      and s': "s' = s\<lparr>st_bytes := b\<rparr>"
      by (cases "bc_replace (map_option (\<lambda>u. w u k) p) (Some (w v k)) (st_bytes s)")
         (auto simp: bytes_replace_def)
    from bc_replace_Done [OF b ok] bc_replace_undo [OF b ok] bc_replace_counts [OF _ b ok]
    show ?thesis
      by (intro exI [of _ b]) (auto simp: s' bytes_replace_def Some weights_of_def split: option.splits)
  qed
next
  have ok: "bc_bounded (st_bytes s)" "bc_normal (st_bytes s)" using assms by (auto simp: store_ok_def)
  assume *: "bytes_replace T p (Some v) k s = Throws e s'"
  show "s' = s"
  proof (cases "tr_weight T")
    case None
    with * show ?thesis by (simp add: bytes_replace_def)
  next
    case (Some w)
    with * obtain b where b: "bc_replace (map_option (\<lambda>u. w u k) p) (Some (w v k)) (st_bytes s) = Throws e b"
      and s': "s' = s\<lparr>st_bytes := b\<rparr>"
      by (cases "bc_replace (map_option (\<lambda>u. w u k) p) (Some (w v k)) (st_bytes s)")
         (auto simp: bytes_replace_def)
    from bc_replace_Throws [OF b ok] s' show ?thesis by simp
  qed
qed

text \<open>A \<open>set\<close> that throws leaves the store as it was.\<close>

lemma dm_set_throws:
  assumes "store_ok s" and "dm_set T k v s = Throws e s'"
  shows "s' = s"
proof (cases "bytes_replace T (jget (tr_get T s) k) (Some v) k s")
  case (Throws e1 s1)
  with assms bytes_replace_cases(2) [OF assms(1) Throws] show ?thesis by (simp add: dm_set_def)
next
  case (Done s1)
  from bytes_replace_cases(1) [OF assms(1) Done] obtain b where
    s1: "s1 = s\<lparr>st_bytes := b\<rparr>" and undo: "bytes_replace T (Some v) (jget (tr_get T s) k) k s1 = Done s"
    by blast
  define r where "r = (case jget (tr_get T s) k of None \<Rightarrow> ec_claim (tr_team T v k) (st_cap s1)
              | Some u \<Rightarrow> ec_move (tr_team T u k) (tr_team T v k) (st_cap s1))"
  from assms(2) Done obtain e2 c where r: "r = Throws e2 c"
    by (cases r) (auto simp: dm_set_def Let_def r_def [symmetric])
  then have "c = st_cap s1"
    by (auto simp: r_def ec_claim_def dest: ec_adjust_throws_unchanged ec_move_throws_unchanged split: option.splits)
  with assms(2) Done r undo show ?thesis
    by (simp add: dm_set_def Let_def r_def [symmetric])
qed

text \<open>The counters before and after one claim or move.\<close>

lemma capacity_step:
  assumes "ec_counts c (image_mset (\<lambda>(k, u). tr_team T u k) (mset m) + R)" and "ec_bounded c"
    and "(case jget m k of None \<Rightarrow> ec_claim (tr_team T v k) c
          | Some u \<Rightarrow> ec_move (tr_team T u k) (tr_team T v k) c) = Done c'"
    and "jwf m"
  shows "ec_counts c' (image_mset (\<lambda>(k, u). tr_team T u k) (mset (jset k v m)) + R) \<and> ec_bounded c'"
proof (cases "jget m k")
  case None
  with assms(3) have claim: "ec_claim (tr_team T v k) c = Done c'" by simp
  from ec_claim_counts [OF assms(1) claim] ec_adjust_bounded [OF assms(2) claim [unfolded ec_claim_def]]
  show ?thesis by (simp add: mset_jset_new [OF None])
next
  case (Some u)
  let ?M = "image_mset (\<lambda>(k, u). tr_team T u k) (mset (jdel k m)) + R"
  from mset_jdel [OF assms(4) Some] have old: "mset m = add_mset (k, u) (mset (jdel k m))" .
  with mset_jset_old [OF Some, of v] have new: "mset (jset k v m) = add_mset (k, v) (mset (jdel k m))"
    by (simp add: add_mset_commute)
  from assms(1) old have "ec_counts c (add_mset (tr_team T u k) ?M)" by simp
  moreover from assms(3) Some have "ec_move (tr_team T u k) (tr_team T v k) c = Done c'" by simp
  ultimately have "ec_counts c' (add_mset (tr_team T v k) ?M)" and "ec_bounded c'"
    by (auto intro: ec_move_counts ec_move_bounded [OF assms(2)])
  then show ?thesis by (simp add: new)
qed

text \<open>The value of the counters fixes the rest of the store's entries.\<close>

lemma entries_split:
  obtains R where "entry_teams s = team_mset T s + R"
    and "\<And>m. entry_teams (tr_put T m s) = image_mset (\<lambda>(k, u). tr_team T u k) (mset m) + R"
proof
  let ?R = "entry_teams (tr_put T [] s)"
  have e: "?R + team_mset T s = entry_teams s" using put_entries [of "[]" s] by simp
  then show "entry_teams s = team_mset T s + ?R" by (simp add: add.commute)
  show "\<And>m. entry_teams (tr_put T m s) = image_mset (\<lambda>(k, u). tr_team T u k) (mset m) + ?R"
    by (rule mset_frame_split [OF put_entries e])
qed

lemma weights_split:
  obtains R where "entry_weights s = weights_of T (tr_get T s) + R"
    and "\<And>m. entry_weights (tr_put T m s) = weights_of T m + R"
proof
  let ?R = "entry_weights (tr_put T [] s)"
  have "weights_of T [] = {#}" by (simp add: weights_of_def split: option.splits)
  with put_weights [of "[]" s] have e: "?R + weights_of T (tr_get T s) = entry_weights s" by simp
  then show "entry_weights s = weights_of T (tr_get T s) + ?R" by (simp add: add.commute)
  show "\<And>m. entry_weights (tr_put T m s) = weights_of T m + ?R"
    by (rule mset_frame_split [OF put_weights e])
qed

lemma weights_jset:
  assumes "jwf m"
  obtains W where "weights_of T m = weights_of T (case jget m k of None \<Rightarrow> [] | Some u \<Rightarrow> [(k, u)]) + W"
    and "weights_of T (jset k v m) = weights_of T [(k, v)] + W"
proof (cases "jget m k")
  case None
  with that [of "weights_of T m"] show ?thesis
    by (simp add: weights_of_def mset_jset_new split: option.splits)
next
  case (Some u)
  from mset_jdel [OF assms Some] have old: "mset m = add_mset (k, u) (mset (jdel k m))" .
  with mset_jset_old [OF Some, of v] have "mset (jset k v m) = add_mset (k, v) (mset (jdel k m))"
    by (simp add: add_mset_commute)
  with old Some that [of "weights_of T (jdel k m)"] show ?thesis
    by (simp add: weights_of_def split: option.splits)
qed

lemma dm_set_done:
  assumes ok: "store_ok s" and set: "dm_set T k v s = Done s'"
  shows "store_ok s' \<and> tr_get T s' = jset k v (tr_get T s)"
proof -
  from set obtain s1 where Done: "bytes_replace T (jget (tr_get T s) k) (Some v) k s = Done s1"
    by (cases "bytes_replace T (jget (tr_get T s) k) (Some v) k s") (auto simp: dm_set_def Let_def)
  from bytes_replace_cases(1) [OF ok Done] obtain b where
    s1: "s1 = s\<lparr>st_bytes := b\<rparr>" and b: "bc_bounded b" "bc_normal b" and
    cnt: "\<And>W. bc_counts (st_bytes s) (weights_of T (case jget (tr_get T s) k of None \<Rightarrow> [] | Some u \<Rightarrow> [(k, u)]) + W)
          \<Longrightarrow> bc_counts b (weights_of T [(k, v)] + W)"
    by blast
  define r where "r = (case jget (tr_get T s) k of None \<Rightarrow> ec_claim (tr_team T v k) (st_cap s1)
              | Some u \<Rightarrow> ec_move (tr_team T u k) (tr_team T v k) (st_cap s1))"
  have get1: "tr_get T s1 = tr_get T s" by (simp add: s1)
  from set Done get1 obtain c where r: "r = Done c"
    and s': "s' = log_mutation (tr_entity T) k (tr_put T (jset k v (tr_get T s)) (s1\<lparr>st_cap := c\<rparr>))"
    by (cases r) (auto simp: dm_set_def Let_def r_def [symmetric] split: outcome.splits)
  let ?s = "s1\<lparr>st_cap := c\<rparr>"
  have wf: "store_wf s" "jwf (tr_get T s)" using ok by (auto simp: store_ok_def get_wf)
  obtain R where R: "entry_teams ?s = team_mset T ?s + R"
    and R': "\<And>m. entry_teams (tr_put T m ?s) = image_mset (\<lambda>(k, u). tr_team T u k) (mset m) + R"
    by (rule entries_split [of ?s]) blast
  have "ec_counts (st_cap s1) (image_mset (\<lambda>(k, u). tr_team T u k) (mset (tr_get T s)) + R)"
    using ok R by (simp add: s1 store_ok_def team_mset_def)
  from capacity_step [OF this _ r [unfolded r_def] wf(2)] ok
  have cap: "ec_counts c (image_mset (\<lambda>(k, u). tr_team T u k) (mset (jset k v (tr_get T s))) + R)" "ec_bounded c"
    by (auto simp: store_ok_def s1)
  obtain Q where Q: "entry_weights ?s = weights_of T (tr_get T ?s) + Q"
    and Q': "\<And>m. entry_weights (tr_put T m ?s) = weights_of T m + Q"
    by (rule weights_split [of ?s]) blast
  obtain W where W: "weights_of T (tr_get T s)
        = weights_of T (case jget (tr_get T s) k of None \<Rightarrow> [] | Some u \<Rightarrow> [(k, u)]) + W"
    and W': "weights_of T (jset k v (tr_get T s)) = weights_of T [(k, v)] + W"
    by (rule weights_jset [OF wf(2), of k v])
  have "bc_counts (st_bytes s) (weights_of T (case jget (tr_get T s) k of None \<Rightarrow> [] | Some u \<Rightarrow> [(k, u)]) + (W + Q))"
    using ok Q W by (simp add: s1 store_ok_def add.assoc)
  from cnt [OF this] have "bc_counts b (weights_of T (jset k v (tr_get T s)) + Q)"
    by (simp add: W' add.assoc)
  moreover have "st_bytes s1 = b" and "store_wf s1" using wf by (simp_all add: s1)
  ultimately have "store_ok (tr_put T (jset k v (tr_get T s)) ?s)"
    using cap b wf by (simp add: store_ok_def R' Q' put_wf)
  then show ?thesis by (simp add: s') (simp add: log_mutation_def)
qed

lemma dm_set_ok: "store_ok s \<Longrightarrow> store_ok (state_of (dm_set T k v s))"
  by (cases "dm_set T k v s") (auto dest: dm_set_done dm_set_throws)

text \<open>Deleting: the bytes and the entry are released, and nothing throws.\<close>

lemma dm_delete_ok:
  assumes ok: "store_ok s"
  shows "store_ok (dm_delete T k s) \<and> tr_get T (dm_delete T k s) = jdel k (tr_get T s)"
proof (cases "jget (tr_get T s) k")
  case None
  with ok show ?thesis by (simp add: dm_delete_def jdel_absent)
next
  case (Some u)
  let ?m = "jdel k (tr_get T s)" and ?s = "tr_put T (jdel k (tr_get T s)) s"
  have wf: "store_wf s" "jwf (tr_get T s)" using ok by (auto simp: store_ok_def get_wf)
  from mset_jdel [OF wf(2) Some] have old: "mset (tr_get T s) = add_mset (k, u) (mset ?m)" .
  obtain R where R: "entry_teams s = team_mset T s + R"
    and R': "\<And>m. entry_teams (tr_put T m s) = image_mset (\<lambda>(k, u). tr_team T u k) (mset m) + R"
    by (rule entries_split [of s]) blast
  obtain Q where Q: "entry_weights s = weights_of T (tr_get T s) + Q"
    and Q': "\<And>m. entry_weights (tr_put T m s) = weights_of T m + Q"
    by (rule weights_split [of s]) blast
  have cnt: "ec_counts (st_cap s) (add_mset (tr_team T u k) (entry_teams ?s))"
    using ok by (simp add: store_ok_def R R' team_mset_def old)
  from ec_release_counts [OF cnt] obtain c where
    c: "ec_release (tr_team T u k) (st_cap s) = Done c" "ec_counts c (entry_teams ?s)" by blast
  have bounded: "ec_bounded c"
    using ec_adjust_bounded c(1) ok unfolding ec_release_def store_ok_def by blast
  have "\<exists>b. bytes_replace T (Some u) None k ?s = Done (?s\<lparr>st_bytes := b\<rparr>)
      \<and> bc_counts b (entry_weights ?s) \<and> bc_bounded b \<and> bc_normal b"
  proof (cases "tr_weight T")
    case None
    have "?s\<lparr>st_bytes := st_bytes ?s\<rparr> = ?s" by simp
    then have "bytes_replace T (Some u) None k ?s = Done (?s\<lparr>st_bytes := st_bytes s\<rparr>)"
      by (simp only: put_bytes) (simp add: bytes_replace_def None)
    with ok None show ?thesis
      by (intro exI [of _ "st_bytes s"]) (simp add: store_ok_def Q Q' weights_of_def)
  next
    case (Some w)
    let ?b = "w_unapply (w u k) (st_bytes s)"
    have r: "bc_replace (Some (w u k)) None (st_bytes s) = Done ?b" by simp
    have ok': "bc_bounded (st_bytes s)" "bc_normal (st_bytes s)" using ok by (auto simp: store_ok_def)
    have "bc_counts (st_bytes s) (opt_mset (Some (w u k)) + entry_weights ?s)"
      using ok by (simp add: store_ok_def Q Q' weights_of_def Some old)
    from bc_replace_counts [OF this r ok'] bc_replace_Done [OF r ok'] show ?thesis
      by (intro exI [of _ ?b]) (simp add: bytes_replace_def Some)
  qed
  then obtain b where b: "bytes_replace T (Some u) None k ?s = Done (?s\<lparr>st_bytes := b\<rparr>)"
    "bc_counts b (entry_weights ?s)" "bc_bounded b" "bc_normal b" by blast
  have "store_wf ?s" using wf by (simp add: put_wf)
  with c(2) b(2-4) bounded have "store_ok (?s\<lparr>st_bytes := b, st_cap := c\<rparr>)"
    by (simp add: store_ok_def)
  then show ?thesis
    by (simp add: dm_delete_def dm_release_def Some Let_def b(1) c(1)) (simp add: log_mutation_def)
qed

lemma dm_delete_where_ok:
  assumes "store_ok s"
  shows "store_ok (dm_delete_where T P s)"
proof -
  have "store_ok (fold (\<lambda>(k, u) s. if P k u then dm_delete T k s else s) xs s)" if "store_ok s" for xs s
    using that by (induction xs arbitrary: s) (auto simp: dm_delete_ok)
  with assms show ?thesis by (simp add: dm_delete_where_def)
qed

text \<open>The loop deletes exactly the entries that match, and keeps the order of the others.\<close>

lemma dm_delete_where_get:
  assumes "store_ok s"
  shows "tr_get T (dm_delete_where T P s) = jwhere (\<lambda>k u. \<not> P k u) (tr_get T s)"
proof -
  have step: "tr_get T (fold (\<lambda>(k, u) s. if P k u then dm_delete T k s else s) xs s)
      = filter (\<lambda>(k, _). k \<notin> {k. \<exists>u. (k, u) \<in> set xs \<and> P k u}) (tr_get T s)"
    if "store_ok s" for xs s
    using that
  proof (induction xs arbitrary: s)
    case Nil
    then show ?case by (simp add: case_prod_unfold)
  next
    case (Cons x xs)
    obtain k u where x: "x = (k, u)" by (cases x)
    let ?s = "if P k u then dm_delete T k s else s"
    have ok: "store_ok ?s" using Cons.prems by (simp add: dm_delete_ok)
    have get: "tr_get T ?s = (if P k u then filter (\<lambda>(k', _). k' \<noteq> k) (tr_get T s) else tr_get T s)"
      using dm_delete_ok [OF Cons.prems, of k] by (auto simp: jdel_def AList.delete_eq case_prod_unfold intro!: filter_cong)
    show ?case
      using Cons.IH [OF ok] by (auto simp: x get intro!: filter_cong)
  qed
  have wf: "jwf (tr_get T s)" using assms by (simp add: store_ok_def get_wf)
  show ?thesis
    unfolding dm_delete_where_def step [OF assms] jwhere_def
    using wf by (intro filter_cong) (auto dest: eq_key_imp_eq_value)
qed

text \<open>What the methods do apart from the counters and the log; no invariant is needed.\<close>

lemma bytes_replace_shape: "\<exists>b. state_of (bytes_replace T p n k s) = s\<lparr>st_bytes := b\<rparr>"
proof (cases "tr_weight T")
  case None
  then show ?thesis by (intro exI [of _ "st_bytes s"]) (simp add: bytes_replace_def)
qed (auto simp: bytes_replace_def)

lemma dm_set_shape:
  assumes "dm_set T k v s = Done s'"
  shows "\<exists>c b l. s' = tr_put T (jset k v (tr_get T s)) (s\<lparr>st_bytes := b, st_cap := c\<rparr>)\<lparr>st_log := l\<rparr>"
proof -
  from assms obtain s1 where 1: "bytes_replace T (jget (tr_get T s) k) (Some v) k s = Done s1"
    by (cases "bytes_replace T (jget (tr_get T s) k) (Some v) k s") (auto simp: dm_set_def Let_def)
  with bytes_replace_shape [of "jget (tr_get T s) k" "Some v" k s] obtain b where s1: "s1 = s\<lparr>st_bytes := b\<rparr>"
    by auto
  from assms 1 show ?thesis
    by (auto simp: dm_set_def Let_def s1 log_mutation_def split: outcome.splits)
qed

lemma dm_set_throws_shape:
  assumes "dm_set T k v s = Throws e s'"
  shows "\<exists>c b. s' = s\<lparr>st_bytes := b, st_cap := c\<rparr>"
proof (cases "bytes_replace T (jget (tr_get T s) k) (Some v) k s")
  case (Throws e1 s1)
  with bytes_replace_shape [of "jget (tr_get T s) k" "Some v" k s] obtain b where "s1 = s\<lparr>st_bytes := b\<rparr>" by auto
  with assms Throws have "s' = s\<lparr>st_bytes := b\<rparr>" by (simp add: dm_set_def)
  also have "\<dots> = s\<lparr>st_bytes := b, st_cap := st_cap s\<rparr>" by simp
  finally show ?thesis by blast
next
  case (Done s1)
  with bytes_replace_shape [of "jget (tr_get T s) k" "Some v" k s] obtain b where s1: "s1 = s\<lparr>st_bytes := b\<rparr>" by auto
  from assms Done have "\<exists>c. s' = state_of (bytes_replace T (Some v) (jget (tr_get T s) k) k (s1\<lparr>st_cap := c\<rparr>))"
    by (auto simp: dm_set_def Let_def split: outcome.splits) (metis state_of.simps)+
  then obtain c where "s' = state_of (bytes_replace T (Some v) (jget (tr_get T s) k) k (s1\<lparr>st_cap := c\<rparr>))" ..
  with bytes_replace_shape [of "Some v" "jget (tr_get T s) k" k "s1\<lparr>st_cap := c\<rparr>"] obtain b' where
    "s' = (s1\<lparr>st_cap := c\<rparr>)\<lparr>st_bytes := b'\<rparr>" by auto
  then have "s' = s\<lparr>st_bytes := b', st_cap := c\<rparr>" by (simp add: s1)
  then show ?thesis by blast
qed

lemma dm_delete_shape:
  "\<exists>c b l. dm_delete T k s = tr_put T (jdel k (tr_get T s)) s\<lparr>st_bytes := b, st_cap := c, st_log := l\<rparr>
     \<or> dm_delete T k s = s \<and> jget (tr_get T s) k = None"
proof (cases "jget (tr_get T s) k")
  case None
  then show ?thesis by (simp add: dm_delete_def)
next
  case (Some u)
  from bytes_replace_shape [of "Some u" None k "tr_put T (jdel k (tr_get T s)) s"] obtain b where
    "state_of (bytes_replace T (Some u) None k (tr_put T (jdel k (tr_get T s)) s))
      = tr_put T (jdel k (tr_get T s)) s\<lparr>st_bytes := b\<rparr>" by blast
  then show ?thesis by (auto simp: dm_delete_def dm_release_def Some Let_def log_mutation_def)
qed

lemma get_data [simp]: "tr_get T (store_data s) = tr_get T s"
  by (simp add: store_data_def)

lemma put_data: "store_data (tr_put T m s) = tr_put T m (store_data s)"
  by (simp add: store_data_def put_set_cap put_set_bytes put_set_log)

lemma dm_set_data: "dm_set T k v s = Done s' \<Longrightarrow> store_data s' = tr_put T (jset k v (tr_get T s)) (store_data s)"
  using dm_set_shape [of k v s s'] by (auto simp: put_data)

lemma dm_set_throws_data: "dm_set T k v s = Throws e s' \<Longrightarrow> store_data s' = store_data s"
  using dm_set_throws_shape [of k v s e s'] by auto

lemma dm_delete_data: "store_data (dm_delete T k s) = tr_put T (jdel k (tr_get T s)) (store_data s)"
  using dm_delete_shape [of k s] by (auto simp: put_data jdel_absent) (metis get_data put_get)

lemma data_by_erase:
  assumes "erase T a = erase T b" and "tr_get T a = tr_get T b"
  shows "store_data a = store_data b"
proof -
  have "tr_put T (tr_get T s) (erase T s) = store_data s" for s
    unfolding erase_def by (simp only: put_put) (metis get_data put_get)
  with assms show ?thesis by metis
qed

lemma erase_counters [simp]:
  "erase T (s\<lparr>st_cap := c\<rparr>) = erase T s" "erase T (s\<lparr>st_bytes := b\<rparr>) = erase T s" "erase T (s\<lparr>st_log := l\<rparr>) = erase T s"
  "erase T (tr_put T m s) = erase T s" "erase T (log_mutation e k s) = erase T s"
  by (simp_all add: erase_def put_data)

lemma bytes_replace_erase: "erase T (state_of (bytes_replace T p n k s)) = erase T s"
  using bytes_replace_shape [of p n k s] by auto

lemma dm_set_erase: "erase T (state_of (dm_set T k v s)) = erase T s"
  using dm_set_shape [of k v s] dm_set_throws_shape [of k v s] by (cases "dm_set T k v s") fastforce+

lemma dm_set_get: "dm_set T k v s = Done s' \<Longrightarrow> tr_get T s' = jset k v (tr_get T s)"
  using dm_set_shape [of k v s s'] by auto

lemma dm_set_Done_erase: "dm_set T k v s = Done s' \<Longrightarrow> erase T s' = erase T s"
  using dm_set_erase [of k v s] by simp

lemma dm_release_erase: "erase T (dm_release T k u s) = erase T s"
  by (simp add: dm_release_def Let_def bytes_replace_erase)

lemma dm_delete_erase: "erase T (dm_delete T k s) = erase T s"
  by (simp add: dm_delete_def dm_release_erase split: option.split)

lemma erase_fold: "(\<And>x s. erase T (g x s) = erase T s) \<Longrightarrow> erase T (fold g xs s) = erase T s"
  by (induction xs arbitrary: s) auto

lemma dm_delete_where_erase: "erase T (dm_delete_where T P s) = erase T s"
  unfolding dm_delete_where_def by (rule erase_fold) (auto simp: dm_delete_erase)

lemma dm_clear_erase: "erase T (dm_clear T s) = erase T s"
  unfolding dm_clear_def by (subst erase_fold) (auto simp: dm_release_erase)

lemma dm_delete_absent: "jget (tr_get T s) k = None \<Longrightarrow> dm_delete T k s = s"
  by (simp add: dm_delete_def)

end

section \<open>Every map of the store is a tracked map\<close>

lemmas interp_defs = entry_teams_def team_mset_def entry_weights_def weights_of_def store_wf_def

interpretation auth_tm: tracked_map auth_map
  by unfold_locales (simp_all add: map_defs interp_defs ac_simps)
interpretation restriction_tm: tracked_map restriction_map
  by unfold_locales (simp_all add: map_defs interp_defs ac_simps)
interpretation quota_tm: tracked_map quota_map
  by unfold_locales (simp_all add: map_defs interp_defs ac_simps)
interpretation team_tm: tracked_map team_map
  by unfold_locales (simp_all add: map_defs interp_defs ac_simps)
interpretation room_tm: tracked_map room_map
  by unfold_locales (simp_all add: map_defs interp_defs ac_simps)
interpretation invite_tm: tracked_map invite_map
  by unfold_locales (simp_all add: map_defs interp_defs ac_simps)
interpretation request_tm: tracked_map request_map
  by unfold_locales (simp_all add: map_defs interp_defs ac_simps)
interpretation response_tm: tracked_map response_map
  by unfold_locales (simp_all add: map_defs interp_defs ac_simps)
interpretation ack_tm: tracked_map ack_map
  by unfold_locales (simp_all add: map_defs interp_defs ac_simps)
interpretation receipt_tm: tracked_map receipt_map
  by unfold_locales (simp_all add: map_defs interp_defs ac_simps)
interpretation device_tm: tracked_map device_map
  by unfold_locales (simp_all add: map_defs interp_defs ac_simps)
interpretation key_package_tm: tracked_map key_package_map
  by unfold_locales (simp_all add: map_defs interp_defs ac_simps)
interpretation consumed_tm: tracked_map consumed_map
  by unfold_locales (simp_all add: map_defs interp_defs ac_simps)
interpretation attachment_tm: tracked_map attachment_map
  by unfold_locales (simp_all add: map_defs interp_defs ac_simps)
interpretation backlog_tm: tracked_map backlog_map
  by unfold_locales (simp_all add: map_defs interp_defs ac_simps)

section \<open>Team membership\<close>

lemma member_teams_jdel:
  assumes "jwf m" and "jget m t = Some ms"
  shows "member_teams m = replicate_mset (Suc (length ms)) (Some t) + member_teams (jdel t m)"
  using mset_jdel [OF assms] by (simp add: member_teams_def)

lemma member_teams_jset:
  assumes "jwf m"
  shows "member_teams (jset t ms m) + (case jget m t of None \<Rightarrow> {#} | Some old \<Rightarrow> replicate_mset (Suc (length old)) (Some t))
    = member_teams m + replicate_mset (Suc (length ms)) (Some t)"
proof (cases "jget m t")
  case None
  then show ?thesis by (simp add: member_teams_def mset_jset_new ac_simps)
next
  case (Some old)
  from mset_jset_old [OF Some, of ms]
  have "member_teams (jset t ms m) + replicate_mset (Suc (length old)) (Some t)
      = replicate_mset (Suc (length ms)) (Some t) + member_teams m"
    unfolding member_teams_def
    by (metis (no_types, lifting) add.commute image_mset_add_mset old.prod.case sum_mset.insert)
  with Some show ?thesis by (simp add: ac_simps)
qed

text \<open>The rest of the entries, seen from the membership map.\<close>

lemma entry_teams_members:
  obtains R where "entry_teams s = member_teams (teamMembers s) + R"
    and "\<And>m c. entry_teams (s\<lparr>st_cap := c, teamMembers := m\<rparr>) = member_teams m + R"
proof
  let ?R = "entry_teams (s\<lparr>teamMembers := []\<rparr>)"
  show "entry_teams s = member_teams (teamMembers s) + ?R"
    by (simp add: entry_teams_def team_mset_def map_defs member_teams_def ac_simps)
  show "\<And>m c. entry_teams (s\<lparr>st_cap := c, teamMembers := m\<rparr>) = member_teams m + ?R"
    by (simp add: entry_teams_def team_mset_def map_defs member_teams_def ac_simps)
qed

lemma store_wf_members:
  assumes "store_wf s" and "jwf m" and "list_all (\<lambda>(_, ms). jwf ms) m"
  shows "store_wf (s\<lparr>st_cap := c, teamMembers := m\<rparr>)"
  using assms by (simp add: store_wf_def)

lemma members_wf:
  assumes "store_wf s" and "jwf ms"
  shows "jwf (jset t ms (teamMembers s))" and "list_all (\<lambda>(_, ms). jwf ms) (jset t ms (teamMembers s))"
    and "jwf (jdel t (teamMembers s))" and "list_all (\<lambda>(_, ms). jwf ms) (jdel t (teamMembers s))"
  using assms set_jset_sub [of t ms "teamMembers s"]
  by (auto simp: store_wf_def list_all_iff set_jdel)

lemma members_of_wf: "store_wf s \<Longrightarrow> members_of s t = Some ms \<Longrightarrow> jwf ms"
  by (auto simp: store_wf_def members_of_def list_all_iff dest!: jget_mem)

lemma entry_weights_members [simp]: "entry_weights (s\<lparr>teamMembers := m\<rparr>) = entry_weights s"
  by (simp add: entry_weights_def)

text \<open>Adjusting by any difference that the multiset bears.\<close>

lemma ec_adjust_Done:
  assumes "ec_adjust d t c = Done c'"
  shows "ec_used c' = ec_used c + d"
    and "j \<noteq> [] \<Longrightarrow> counter (ec_by_team c') j = counter (ec_by_team c) j + (if t = Some j then d else 0)"
  using assms by (auto simp: ec_adjust_def Let_def split: if_splits dest!: truthy_Some)

lemma ec_adjust_counts_diff:
  assumes "ec_counts c (M + replicate_mset a t)" and "ec_adjust (int b - int a) t c = Done c'"
  shows "ec_counts c' (M + replicate_mset b t)"
  using assms(1) ec_adjust_Done [OF assms(2)] by (simp add: ec_counts_def)

definition team_slots :: "string \<Rightarrow> relay_store \<Rightarrow> nat" where
  "team_slots t s = (case members_of s t of None \<Rightarrow> 0 | Some old \<Rightarrow> Suc (length old))"

lemma set_team_members_slots:
  "set_team_members t ms s =
     (case ec_adjust (int (Suc (length ms)) - int (team_slots t s)) (Some t) (st_cap s) of
        Throws e c \<Rightarrow> Throws e (s\<lparr>st_cap := c\<rparr>)
      | Done c \<Rightarrow> Done (log_mutation E_teamMembers t
                    (s\<lparr>st_cap := c, teamMembers := jset t ms (teamMembers s)\<rparr>)))"
proof -
  have "int (length ms) - int (case members_of s t of None \<Rightarrow> 0 | Some old \<Rightarrow> length old)
      + (if jhas (teamMembers s) t then 0 else 1) = int (Suc (length ms)) - int (team_slots t s)"
    by (simp add: jhas_def members_of_def team_slots_def split: option.split)
  note d = this
  show ?thesis unfolding set_team_members_def Let_def d ..
qed

lemma member_teams_replace:
  assumes "jwf (teamMembers s)"
  obtains N where "member_teams (teamMembers s) = N + replicate_mset (team_slots t s) (Some t)"
    and "\<And>ms. member_teams (jset t ms (teamMembers s)) = N + replicate_mset (Suc (length ms)) (Some t)"
proof (cases "members_of s t")
  case None
  then have n: "jget (teamMembers s) t = None" by (simp add: members_of_def)
  have "member_teams (jset t ms (teamMembers s)) = member_teams (teamMembers s) + replicate_mset (Suc (length ms)) (Some t)" for ms
    using member_teams_jset [OF assms, of t ms] n by simp
  with None that [of "member_teams (teamMembers s)"] show ?thesis by (simp add: team_slots_def)
next
  case (Some old)
  then have g: "jget (teamMembers s) t = Some old" by (simp add: members_of_def)
  note d = member_teams_jdel [OF assms g]
  have "member_teams (jset t ms (teamMembers s)) = member_teams (jdel t (teamMembers s)) + replicate_mset (Suc (length ms)) (Some t)" for ms
  proof -
    have "member_teams (jset t ms (teamMembers s)) + replicate_mset (Suc (length old)) (Some t)
        = (member_teams (jdel t (teamMembers s)) + replicate_mset (Suc (length ms)) (Some t)) + replicate_mset (Suc (length old)) (Some t)"
      using member_teams_jset [OF assms, of t ms] unfolding g option.case d by (simp only: ac_simps)
    then show ?thesis by (simp only: add_right_cancel)
  qed
  with d Some that [of "member_teams (jdel t (teamMembers s))"] show ?thesis
    by (simp add: team_slots_def)
qed

text \<open>The invariant after the live map of a team was replaced and the counter follows.\<close>

lemma store_ok_members:
  assumes ok: "store_ok s" and wf: "jwf ms" and bounded: "ec_bounded c"
    and cnt: "\<And>M. ec_counts (st_cap s) (M + replicate_mset (team_slots t s) (Some t))
      \<Longrightarrow> ec_counts c (M + replicate_mset (Suc (length ms)) (Some t))"
  shows "store_ok (s\<lparr>st_cap := c, teamMembers := jset t ms (teamMembers s)\<rparr>)"
proof -
  obtain R where R: "entry_teams s = member_teams (teamMembers s) + R"
    and R': "\<And>m c. entry_teams (s\<lparr>st_cap := c, teamMembers := m\<rparr>) = member_teams m + R"
    by (rule entry_teams_members [of s]) blast
  have swf: "store_wf s" "jwf (teamMembers s)" using ok by (auto simp: store_ok_def store_wf_def)
  obtain N where N: "member_teams (teamMembers s) = N + replicate_mset (team_slots t s) (Some t)"
    and N': "\<And>ms. member_teams (jset t ms (teamMembers s)) = N + replicate_mset (Suc (length ms)) (Some t)"
    by (rule member_teams_replace [OF swf(2), of t]) blast
  have "entry_teams s = (N + R) + replicate_mset (team_slots t s) (Some t)"
    unfolding R N by (simp only: ac_simps)
  with ok have "ec_counts (st_cap s) ((N + R) + replicate_mset (team_slots t s) (Some t))"
    by (simp only: store_ok_def)
  from cnt [OF this] have c: "ec_counts c (member_teams (jset t ms (teamMembers s)) + R)"
    unfolding N' by (simp only: ac_simps)
  note w = store_wf_members [OF swf(1) members_wf(1,2) [OF swf(1) wf]]
  from ok c bounded w show ?thesis by (simp add: store_ok_def R')
qed

lemma set_team_members_ok:
  assumes ok: "store_ok s" and wf: "jwf ms"
  shows "store_ok (state_of (set_team_members t ms s))"
proof (cases "ec_adjust (int (Suc (length ms)) - int (team_slots t s)) (Some t) (st_cap s)")
  case (Throws e c)
  then have "c = st_cap s" by (rule ec_adjust_throws_unchanged)
  with Throws ok show ?thesis by (simp add: set_team_members_slots del: of_nat_Suc)
next
  case (Done c)
  have b: "ec_bounded c" using ok Done by (auto simp: store_ok_def intro: ec_adjust_bounded)
  have "store_ok (s\<lparr>st_cap := c, teamMembers := jset t ms (teamMembers s)\<rparr>)"
    by (rule store_ok_members [OF ok wf b]) (rule ec_adjust_counts_diff [OF _ Done])
  with Done show ?thesis by (simp add: set_team_members_slots del: of_nat_Suc)
qed

lemma set_team_members_throws:
  "set_team_members t ms s = Throws e s' \<Longrightarrow> s' = s"
  by (auto simp: set_team_members_def Let_def split: outcome.splits dest!: ec_adjust_throws_unchanged)

lemma delete_team_members_ok:
  assumes ok: "store_ok s"
  shows "store_ok (delete_team_members t s)"
proof (cases "members_of s t")
  case None
  with ok show ?thesis by (simp add: delete_team_members_def)
next
  case (Some ms)
  obtain R where R: "entry_teams s = member_teams (teamMembers s) + R"
    and R': "\<And>m c. entry_teams (s\<lparr>st_cap := c, teamMembers := m\<rparr>) = member_teams m + R"
    by (rule entry_teams_members [of s]) blast
  have swf: "store_wf s" "jwf (teamMembers s)" using ok by (auto simp: store_ok_def store_wf_def)
  obtain c where c: "ec_adjust (- (1 + int (length ms))) (Some t) (st_cap s) = Done c"
    using ec_adjust_nonpos [of "- (1 + int (length ms))" "Some t" "st_cap s"] by (auto simp: is_done_iff)
  have "ec_counts (st_cap s) ((member_teams (jdel t (teamMembers s)) + R) + replicate_mset (Suc (length ms)) (Some t))"
    using ok member_teams_jdel [OF swf(2), of t ms] Some by (simp add: store_ok_def R members_of_def ac_simps)
  from ec_adjust_counts_diff [OF this, of 0 c] c
  have "ec_counts c (member_teams (jdel t (teamMembers s)) + R)" by (simp add: algebra_simps)
  moreover have "ec_bounded c" using ok c by (auto simp: store_ok_def intro: ec_adjust_bounded)
  ultimately have "store_ok (s\<lparr>st_cap := c, teamMembers := jdel t (teamMembers s)\<rparr>)"
    using ok members_wf(3,4) [OF swf(1), of "[]" t] by (simp add: store_ok_def R' store_wf_members)
  with Some c show ?thesis by (simp add: delete_team_members_def)
qed

lemma length_jset: "length (jset k v m) = (if jhas m k then length m else Suc (length m))"
proof (cases "jget m k")
  case None
  then show ?thesis by (simp add: jset_new jhas_def)
next
  case (Some u)
  from mset_jset_old [OF Some, of v] have "size (add_mset (k, u) (mset (jset k v m))) = size (add_mset (k, v) (mset m))"
    by simp
  with Some show ?thesis by (simp add: jhas_def)
qed

lemma member_set_ok:
  assumes ok: "store_ok s"
  shows "store_ok (state_of (member_set t u r s))"
proof (cases "members_of s t")
  case None
  with ok show ?thesis by (simp add: member_set_def)
next
  case (Some ms)
  have wf: "jwf (jset u r ms)" using ok Some by (auto simp: store_ok_def dest: members_of_wf)
  show ?thesis
  proof (cases "jhas ms u")
    case True
    have b: "ec_bounded (st_cap s)" using ok by (simp add: store_ok_def)
    have "store_ok (s\<lparr>st_cap := st_cap s, teamMembers := jset t (jset u r ms) (teamMembers s)\<rparr>)"
      by (rule store_ok_members [OF ok wf b]) (simp add: team_slots_def Some length_jset True)
    with True Some show ?thesis by (simp add: member_set_def ec_move_def)
  next
    case False
    have "member_set t u r s = set_team_members t (jset u r ms) s"
      using Some False by (simp add: member_set_def set_team_members_def Let_def length_jset jhas_def
          members_of_def ec_claim_def)
    with set_team_members_ok [OF ok wf, of t] show ?thesis by simp
  qed
qed

end
