(* ===== verification/Text_Limits.thy ===== *)
theory Text_Limits
  imports Json
begin

text \<open>
  The text boundaries of the relay: apps/relay/src/limits.ts, the base64 and directed-invite
  checks of apps/relay/src/opaque.ts, and the identifier limits of
  packages/protocol/src/limits-ids.ts. \<open>JSON.parse\<close> is modelled as far as these checks can
  distinguish its results: a number with a fraction or an exponent is kept as its text.
\<close>

section \<open>Identifier limits (limits-ids.ts)\<close>

definition max_relay_id :: nat where "max_relay_id = 160"
definition max_envelope_id :: nat where "max_envelope_id = 160"
definition max_device_id :: nat where "max_device_id = 160"
definition max_user_id :: nat where "max_user_id = 160"
definition max_display_name :: nat where "max_display_name = 120"
definition max_team_name :: nat where "max_team_name = 120"
definition max_host_name :: nat where "max_host_name = 120"
definition max_room_name :: nat where "max_room_name = 160"
definition max_url :: nat where "max_url = 2048"
definition max_project_path :: nat where "max_project_path = 2048"
definition max_fingerprint :: nat where "max_fingerprint = 128"

section \<open>Normalizers (limits.ts)\<close>

definition normalize_metadata_text :: "jsv \<Rightarrow> nat \<Rightarrow> string option" where
  "normalize_metadata_text v max_chars =
     (let t = js_trim (string_or_empty v) in
      if t = [] \<or> length t > max_chars then None
      else if has_control t then None
      else Some t)"

definition normalize_relay_id :: "jsv \<Rightarrow> nat \<Rightarrow> string option" where
  "normalize_relay_id v max_chars =
     (case v of
        J_str s \<Rightarrow>
          if s = [] \<or> s \<noteq> js_trim s \<or> length s > max_chars then None
          else if \<not> list_all is_id_char s then None
          else Some s
      | _ \<Rightarrow> None)"

definition normalize_optional_metadata_text :: "jsv \<Rightarrow> nat \<Rightarrow> string option" where
  "normalize_optional_metadata_text v max_chars =
     (let t = js_trim (string_or_empty v) in
      if t = [] then Some [] else normalize_metadata_text (J_str t) max_chars)"

definition is_approval_policy :: "string \<Rightarrow> bool" where
  "is_approval_policy s = List.member [''ask_every_turn'', ''never_host''] s"

definition normalize_room_project_path :: "jsv \<Rightarrow> nat \<Rightarrow> string option" where
  "normalize_room_project_path v max_chars =
     (let p = js_trim (string_or_empty v) in
      if p = [] \<or> length p > max_chars then None
      else if has_control p then None
      else Some p)"

text \<open>\<open>Math.ceil(n * 4 / 3) + 1024\<close> and \<open>Math.ceil((n + 1024) * 4 / 3) + 64\<close>.\<close>

definition max_mls_chars :: "nat \<Rightarrow> nat" where
  "max_mls_chars bytes = (bytes * 4 + 2) div 3 + 1024"

definition max_ciphertext_chars_for_blob :: "nat \<Rightarrow> nat" where
  "max_ciphertext_chars_for_blob bytes = ((bytes + 1024) * 4 + 2) div 3 + 64"

section \<open>Base64\<close>

definition b64_char :: "nat \<Rightarrow> char" where
  "b64_char n = (if n < 26 then char_of (65 + n) else if n < 52 then char_of (71 + n)
     else if n < 62 then char_of (n - 4) else if n = 62 then CHR ''+'' else CHR ''/'')"

definition b64_value :: "char \<Rightarrow> nat option" where
  "b64_value c = (let n = of_char c :: nat in
     if 65 \<le> n \<and> n \<le> 90 then Some (n - 65) else if 97 \<le> n \<and> n \<le> 122 then Some (n - 71)
     else if 48 \<le> n \<and> n \<le> 57 then Some (n + 4) else if n = 43 then Some 62
     else if n = 47 then Some 63 else None)"

text \<open>\<open>buffer.toString("base64")\<close>; a buffer is a list of bytes (\<open>char\<close>).\<close>

fun b64_encode :: "string \<Rightarrow> string" where
  "b64_encode [] = []"
| "b64_encode [a] = (let x = of_char a :: nat in
     [b64_char (x div 4), b64_char (x mod 4 * 16), CHR ''='', CHR ''=''])"
| "b64_encode [a, b] = (let x = of_char a :: nat; y = of_char b :: nat in
     [b64_char (x div 4), b64_char (x mod 4 * 16 + y div 16), b64_char (y mod 16 * 4), CHR ''=''])"
| "b64_encode (a # b # c # bs) = (let x = of_char a :: nat; y = of_char b :: nat; z = of_char c :: nat in
     b64_char (x div 4) # b64_char (x mod 4 * 16 + y div 16) # b64_char (y mod 16 * 4 + z div 64)
       # b64_char (z mod 64) # b64_encode bs)"

text \<open>
  \<open>Buffer.from(s, "base64")\<close> on a padded string of the alphabet, the strings on which the code
  uses the bytes; on any other string the result is \<open>None\<close>.
\<close>

fun b64_decode :: "string \<Rightarrow> string option" where
  "b64_decode [] = Some []"
| "b64_decode (p # q # r # t # s) =
     (case (b64_value p, b64_value q) of
        (Some a, Some b) \<Rightarrow>
          (case (b64_value r, b64_value t) of
             (Some c, Some d) \<Rightarrow>
               (case b64_decode s of
                  None \<Rightarrow> None
                | Some bs \<Rightarrow> Some (char_of (a * 4 + b div 16) # char_of (b mod 16 * 16 + c div 4)
                                    # char_of (c mod 4 * 64 + d) # bs))
           | (Some c, None) \<Rightarrow>
               if t = CHR ''='' \<and> s = [] then Some [char_of (a * 4 + b div 16), char_of (b mod 16 * 16 + c div 4)]
               else None
           | (None, _) \<Rightarrow>
               if r = CHR ''='' \<and> t = CHR ''='' \<and> s = [] then Some [char_of (a * 4 + b div 16)] else None)
      | _ \<Rightarrow> None)"
| "b64_decode _ = None"

text \<open>
  \<open>isCanonicalPaddedBase64\<close>. On a string outside the padded alphabet the lenient decoder still
  yields bytes, whose encoding is in the alphabet and therefore differs from the string.
\<close>

definition is_canonical_base64 :: "string \<Rightarrow> nat \<Rightarrow> bool" where
  "is_canonical_base64 s max_chars =
     (if length s < 4 \<or> length s > max_chars \<or> has_control s then False
      else case b64_decode s of
             None \<Rightarrow> False
           | Some bytes \<Rightarrow> length bytes > 0 \<and> b64_encode bytes = s)"

lemma b64_value_char: "n < 64 \<Longrightarrow> b64_value (b64_char n) = Some n"
  by (auto simp: b64_char_def b64_value_def Let_def)

lemma b64_value_pad [simp]: "b64_value (CHR ''='') = None"
  by code_simp

lemma sextets:
  fixes x y z :: nat
  assumes "x < 256" and "y < 256" and "z < 256"
  shows "x div 4 < 64" and "x mod 4 * 16 + y div 16 < 64" and "y mod 16 * 4 + z div 64 < 64"
    and "z mod 64 < 64"
proof -
  have "x mod 4 < 4" "y div 16 < 16" "y mod 16 < 16" "z div 64 < 4"
    using assms by (simp_all add: less_mult_imp_div_less)
  then show "x mod 4 * 16 + y div 16 < 64" and "y mod 16 * 4 + z div 64 < 64" by linarith+
  show "x div 4 < 64" and "z mod 64 < 64" using assms by (simp_all add: less_mult_imp_div_less)
qed

lemma octets:
  fixes x y z :: nat
  assumes "y < 256" and "z < 256"
  shows "x div 4 * 4 + (x mod 4 * 16 + y div 16) div 16 = x"
    and "(x mod 4 * 16 + y div 16) mod 16 * 16 + (y mod 16 * 4 + z div 64) div 4 = y"
    and "(y mod 16 * 4 + z div 64) mod 4 * 64 + z mod 64 = z"
proof -
  have y: "y div 16 < 16" and z: "z div 64 < 4" using assms by (simp_all add: less_mult_imp_div_less)
  have 0: "y div 16 mod 16 = y div 16" "z div 64 mod 4 = z div 64" using y z by simp_all
  have 1: "(x mod 4 * 16 + y div 16) div 16 = x mod 4" "(x mod 4 * 16 + y div 16) mod 16 = y div 16"
    using y by simp_all
  have 2: "(y mod 16 * 4 + z div 64) div 4 = y mod 16" "(y mod 16 * 4 + z div 64) mod 4 = z div 64"
    using z by simp_all
  show "x div 4 * 4 + (x mod 4 * 16 + y div 16) div 16 = x" by (simp add: 1)
  show "(x mod 4 * 16 + y div 16) mod 16 * 16 + (y mod 16 * 4 + z div 64) div 4 = y" by (simp add: 0 1 2)
  show "(y mod 16 * 4 + z div 64) mod 4 * 64 + z mod 64 = z" by (simp add: 2 0)
qed

lemma b64_decode_quad:
  assumes "p < 64" "q < 64" "r < 64" "t < 64"
  shows "b64_decode (b64_char p # b64_char q # b64_char r # b64_char t # s) =
    (case b64_decode s of None \<Rightarrow> None
     | Some bs \<Rightarrow> Some (char_of (p * 4 + q div 16) # char_of (q mod 16 * 16 + r div 4)
                         # char_of (r mod 4 * 64 + t) # bs))"
  using assms by (simp add: b64_value_char)

lemma b64_decode_triple:
  assumes "p < 64" "q < 64" "r < 64"
  shows "b64_decode [b64_char p, b64_char q, b64_char r, CHR ''=''] =
    Some [char_of (p * 4 + q div 16), char_of (q mod 16 * 16 + r div 4)]"
  using assms by (simp add: b64_value_char)

lemma b64_decode_pair:
  assumes "p < 64" "q < 64"
  shows "b64_decode [b64_char p, b64_char q, CHR ''='', CHR ''=''] = Some [char_of (p * 4 + q div 16)]"
  using assms by (simp add: b64_value_char)

text \<open>Decoding inverts encoding.\<close>

lemma b64_roundtrip: "b64_decode (b64_encode bs) = Some bs"
proof (induction bs rule: b64_encode.induct)
  case 1
  show ?case by simp
next
  case (2 a)
  have x: "(of_char a :: nat) < 256" by simp
  have p: "of_char a div 4 < (64::nat)" and q: "of_char a mod 4 * 16 < (64::nat)"
    using sextets(1,2) [OF x, of 0 0] by simp_all
  show ?case by (simp only: b64_encode.simps Let_def b64_decode_pair [OF p q]) simp
next
  case (3 a b)
  have x: "(of_char a :: nat) < 256" and y: "(of_char b :: nat) < 256" by simp_all
  have p: "of_char a div 4 < (64::nat)" and q: "of_char a mod 4 * 16 + of_char b div 16 < (64::nat)"
    and r: "of_char b mod 16 * 4 < (64::nat)"
    using sextets(1,2,3) [OF x y, of 0] by simp_all
  note o = octets(1,2) [OF y, of 0 "of_char a"]
  show ?case using o by (simp only: b64_encode.simps Let_def b64_decode_triple [OF p q r]) simp
next
  case (4 a b c bs)
  have x: "(of_char a :: nat) < 256" and y: "(of_char b :: nat) < 256" and z: "(of_char c :: nat) < 256"
    by simp_all
  note s = sextets [OF x y z] and o = octets(1,2) [OF y z, of "of_char a"] octets(3) [OF y z]
  have "b64_decode (b64_encode bs) = Some bs" by (rule "4.IH" [OF refl refl refl])
  then show ?case using o by (simp only: b64_encode.simps Let_def b64_decode_quad [OF s] option.case char_of_char)
qed

section \<open>MLS messages (limits.ts)\<close>

text \<open>\<open>MlsBacklogLimitOptions\<close>; the retention is given in days.\<close>

record mls_options =
  lim_message_bytes :: nat
  lim_mls_chars :: nat
  lim_envelope_id :: nat
  lim_device_id :: nat
  lim_user_id :: nat
  lim_backlog :: nat
  lim_retention_days :: int

definition is_mls_message_within_limits :: "mls_message \<Rightarrow> mls_options \<Rightarrow> bool" where
  "is_mls_message_within_limits m lim =
     (if normalize_metadata_text (J_str (mm_id m)) (lim_envelope_id lim) = None then False
      else if normalize_metadata_text (J_str (mm_user m)) (lim_user_id lim) = None then False
      else if normalize_metadata_text (J_str (mm_device m)) (lim_device_id lim) = None then False
      else if \<not> is_canonical_base64 (mm_mls m) (lim_mls_chars lim) then False
      else utf8_length (mls_text m) \<le> lim_message_bytes lim)"

text \<open>\<open>xs.slice(-n)\<close>; \<open>slice(-0)\<close> is the whole array.\<close>

definition slice_last :: "nat \<Rightarrow> 'a list \<Rightarrow> 'a list" where
  "slice_last n xs = (if n = 0 then xs else drop (length xs - n) xs)"

definition prune_mls_backlog :: "mls_options \<Rightarrow> int \<Rightarrow> mls_message list \<Rightarrow> mls_message list" where
  "prune_mls_backlog lim now ms =
     (let cutoff = now - lim_retention_days lim * 24 * 60 * 60 * 1000 in
      slice_last (lim_backlog lim)
        (filter (\<lambda>m. (case date_parse (mm_created m) of None \<Rightarrow> False | Some t \<Rightarrow> t \<ge> cutoff)
                    \<and> is_mls_message_within_limits m lim) ms))"

lemma set_slice_last: "set (slice_last n xs) \<subseteq> set xs"
  by (auto simp: slice_last_def dest: in_set_dropD)

lemma length_slice_last: "0 < n \<Longrightarrow> length (slice_last n xs) = min n (length xs)"
  by (auto simp: slice_last_def)

lemma prune_mls_backlog_mem:
  "m \<in> set (prune_mls_backlog lim now ms) \<Longrightarrow> m \<in> set ms \<and> is_mls_message_within_limits m lim"
  using set_slice_last by (fastforce simp: prune_mls_backlog_def Let_def)

lemma prune_mls_backlog_length:
  "0 < lim_backlog lim \<Longrightarrow> length (prune_mls_backlog lim now ms) \<le> lim_backlog lim"
  by (simp add: prune_mls_backlog_def Let_def length_slice_last)

section \<open>What the normalizers promise\<close>

text \<open>A normalized text is trimmed, bounded, free of control characters, and normalizes to itself.\<close>

lemma normalize_metadata_text_Some:
  assumes "normalize_metadata_text v n = Some t"
  shows "t \<noteq> []" and "length t \<le> n" and "\<not> has_control t" and "js_trim t = t"
    and "t = js_trim (string_or_empty v)"
  using assms by (auto simp: normalize_metadata_text_def Let_def split: if_splits)

lemma normalize_metadata_text_idem:
  assumes "normalize_metadata_text v n = Some t"
  shows "normalize_metadata_text (J_str t) n = Some t"
  using normalize_metadata_text_Some [OF assms]
  by (simp add: normalize_metadata_text_def string_or_empty_def)

lemma normalize_relay_id_Some:
  "normalize_relay_id v n = Some t \<longleftrightarrow>
     v = J_str t \<and> t \<noteq> [] \<and> t = js_trim t \<and> length t \<le> n \<and> list_all is_id_char t"
  by (auto simp: normalize_relay_id_def split: jsv.splits)

lemma id_char_no_colon: "list_all is_id_char t \<Longrightarrow> CHR '':'' \<notin> set t"
  by (auto simp: list_all_iff is_id_char_def Let_def)

end
