(* ===== verification/Directed_Invite.thy ===== *)
theory Directed_Invite
  imports Text_Limits
begin

text \<open>
  The strict parse of a directed invite request (\<open>parseStrictDirectedInviteRequestJson\<close> in
  apps/relay/src/opaque.ts), with the part of \<open>JSON.parse\<close> and \<open>JSON.stringify\<close> it relies on.
  Numbers with a fraction or an exponent, and integers that are not safe, are kept as their text
  (\<open>J_frac\<close>): the check refuses them wherever they can stand.
\<close>

section \<open>JSON text to values\<close>

definition is_json_space :: "char \<Rightarrow> bool" where
  "is_json_space c = (let n = of_char c :: nat in n = 32 \<or> n = 9 \<or> n = 10 \<or> n = 13)"

definition skip_space :: "string \<Rightarrow> string" where
  "skip_space s = dropWhile is_json_space s"

definition is_digit :: "char \<Rightarrow> bool" where
  "is_digit c = (let n = of_char c :: nat in 48 \<le> n \<and> n \<le> 57)"

definition hex_value :: "char \<Rightarrow> nat option" where
  "hex_value c = (let n = of_char c :: nat in
     if 48 \<le> n \<and> n \<le> 57 then Some (n - 48) else if 97 \<le> n \<and> n \<le> 102 then Some (n - 87)
     else if 65 \<le> n \<and> n \<le> 70 then Some (n - 55) else None)"

text \<open>The rest of a string literal after its opening quote; an escape above U+00FF has no model.\<close>

definition simple_escape :: "char \<Rightarrow> char option" where
  "simple_escape e =
     (if (of_char e :: nat) = 34 \<or> (of_char e :: nat) = 92 \<or> e = CHR ''/'' then Some e
      else if e = CHR ''b'' then Some (char_of (8::nat))
      else if e = CHR ''f'' then Some (char_of (12::nat))
      else if e = CHR ''n'' then Some (char_of (10::nat))
      else if e = CHR ''r'' then Some (char_of (13::nat))
      else if e = CHR ''t'' then Some (char_of (9::nat))
      else None)"

definition unicode_escape :: "char list \<Rightarrow> char option" where
  "unicode_escape h = (case map hex_value h of
     [Some 0, Some 0, Some x, Some y] \<Rightarrow> Some (char_of (x * 16 + y)) | _ \<Rightarrow> None)"

definition cons_char :: "char \<Rightarrow> (string \<times> string) option \<Rightarrow> (string \<times> string) option" where
  "cons_char c r = map_option (\<lambda>(t, r). (c # t, r)) r"

function json_string_rest :: "string \<Rightarrow> (string \<times> string) option" where
  "json_string_rest s =
     (case s of
        [] \<Rightarrow> None
      | c # r \<Rightarrow>
          if (of_char c :: nat) = 34 then Some ([], r)
          else if (of_char c :: nat) < 32 then None
          else if (of_char c :: nat) = 92 then
            (case r of
               [] \<Rightarrow> None
             | e # r' \<Rightarrow>
                 if e = CHR ''u'' then
                   (case unicode_escape (take 4 r') of
                      None \<Rightarrow> None
                    | Some x \<Rightarrow> cons_char x (json_string_rest (drop 4 r')))
                 else (case simple_escape e of
                         None \<Rightarrow> None
                       | Some x \<Rightarrow> cons_char x (json_string_rest r')))
          else cons_char c (json_string_rest r))"
  by pat_completeness auto
termination by (relation "measure length") auto

declare json_string_rest.simps [simp del]

definition digits_value :: "string \<Rightarrow> nat" where
  "digits_value s = foldl (\<lambda>n c. n * 10 + (of_char c - 48)) 0 s"

definition max_safe_integer :: int where
  "max_safe_integer = 9007199254740991"

text \<open>A number literal; the fraction and exponent parts are optional.\<close>

definition json_number :: "string \<Rightarrow> (jsv \<times> string) option" where
  "json_number s =
     (let (neg, s1) = (case s of c # r \<Rightarrow> if c = CHR ''-'' then (True, r) else (False, s) | [] \<Rightarrow> (False, s));
          ds = takeWhile is_digit s1; s2 = dropWhile is_digit s1 in
      if ds = [] \<or> (hd ds = CHR ''0'' \<and> length ds > 1) then None
      else
        let (frac, s3, ok1) = (case s2 of c # r \<Rightarrow> if c = CHR ''.''
               then (CHR ''.'' # takeWhile is_digit r, dropWhile is_digit r, takeWhile is_digit r \<noteq> [])
               else ([], s2, True) | [] \<Rightarrow> ([], s2, True));
            (expo, s4, ok2) = (case s3 of c # r \<Rightarrow> if c = CHR ''e'' \<or> c = CHR ''E''
               then (let (sg, r') = (case r of x # r'' \<Rightarrow> if x = CHR ''+'' \<or> x = CHR ''-'' then ([x], r'') else ([], r) | [] \<Rightarrow> ([], r))
                     in (c # sg @ takeWhile is_digit r', dropWhile is_digit r', takeWhile is_digit r' \<noteq> []))
               else ([], s3, True) | [] \<Rightarrow> ([], s3, True));
            text = (if neg then ''-'' else []) @ ds @ frac @ expo;
            i = (if neg then - int (digits_value ds) else int (digits_value ds)) in
        if \<not> ok1 \<or> \<not> ok2 then None
        else if frac = [] \<and> expo = [] \<and> \<bar>i\<bar> \<le> max_safe_integer then Some (J_num i, s4)
        else Some (J_frac text, s4))"

text \<open>
  Values, array elements and object members, with a fuel that bounds the nesting and the number
  of elements. An array or object spends one call on itself and one per element, and has at least
  that many brackets and separators, so one more than the length of the text is enough.
\<close>

definition starts :: "string \<Rightarrow> string \<Rightarrow> bool" where
  "starts p s = (take (length p) s = p)"

fun json_value :: "nat \<Rightarrow> string \<Rightarrow> (jsv \<times> string) option"
  and json_elements :: "nat \<Rightarrow> string \<Rightarrow> (jsv list \<times> string) option"
  and json_members :: "nat \<Rightarrow> (string \<times> jsv) list \<Rightarrow> string \<Rightarrow> ((string \<times> jsv) list \<times> string) option" where
  "json_value 0 _ = None"
| "json_value (Suc n) s0 =
     (let s = skip_space s0 in
      case s of
        [] \<Rightarrow> None
      | c # r \<Rightarrow>
          if c = CHR ''{'' then
            (case skip_space r of
               [] \<Rightarrow> None
             | d # r' \<Rightarrow> if d = CHR ''}'' then Some (J_obj [], r')
                        else map_option (\<lambda>(fs, t). (J_obj fs, t)) (json_members n [] r))
          else if c = CHR ''['' then
            (case skip_space r of
               [] \<Rightarrow> None
             | d # r' \<Rightarrow> if d = CHR '']'' then Some (J_arr [], r')
                        else map_option (\<lambda>(xs, t). (J_arr xs, t)) (json_elements n r))
          else if (of_char c :: nat) = 34 then map_option (\<lambda>(x, t). (J_str x, t)) (json_string_rest r)
          else if starts ''true'' s then Some (J_bool True, drop 4 s)
          else if starts ''false'' s then Some (J_bool False, drop 5 s)
          else if starts ''null'' s then Some (J_null, drop 4 s)
          else json_number s)"
| "json_elements 0 _ = None"
| "json_elements (Suc n) s =
     (case json_value n s of
        None \<Rightarrow> None
      | Some (x, r) \<Rightarrow>
          (case skip_space r of
             [] \<Rightarrow> None
           | c # r' \<Rightarrow> if c = CHR '']'' then Some ([x], r')
                      else if c = CHR '','' then map_option (\<lambda>(xs, t). (x # xs, t)) (json_elements n r')
                      else None))"
| "json_members 0 _ _ = None"
| "json_members (Suc n) acc s =
     (case skip_space s of
        [] \<Rightarrow> None
      | q # r \<Rightarrow>
          if (of_char q :: nat) \<noteq> 34 then None
          else (case json_string_rest r of
                  None \<Rightarrow> None
                | Some (k, r1) \<Rightarrow>
                    (case skip_space r1 of
                       [] \<Rightarrow> None
                     | c # r2 \<Rightarrow>
                         if c \<noteq> CHR '':'' then None
                         else (case json_value n r2 of
                                 None \<Rightarrow> None
                               | Some (v, r3) \<Rightarrow>
                                   (case skip_space r3 of
                                      [] \<Rightarrow> None
                                    | d # r4 \<Rightarrow> if d = CHR ''}'' then Some (jset k v acc, r4)
                                               else if d = CHR '','' then json_members n (jset k v acc) r4
                                               else None)))))"

definition json_parse :: "string \<Rightarrow> jsv option" where
  "json_parse s = (case json_value (Suc (length s)) s of
     None \<Rightarrow> None | Some (v, r) \<Rightarrow> if skip_space r = [] then Some v else None)"

text \<open>\<open>JSON.stringify\<close> of a parsed value.\<close>

fun json_text :: "jsv \<Rightarrow> string" where
  "json_text J_undefined = []"
| "json_text J_null = ''null''"
| "json_text (J_bool b) = (if b then ''true'' else ''false'')"
| "json_text (J_num i) = int_digits i"
| "json_text (J_frac s) = s"
| "json_text (J_str s) = json_quote s"
| "json_text (J_arr xs) = ''['' @ join_comma (map json_text xs) @ '']''"
| "json_text (J_obj fs) = ''{'' @ join_comma (map (\<lambda>(k, v). json_quote k @ '':'' @ json_text v) fs) @ ''}''"

section \<open>The shape checks (opaque.ts)\<close>

definition same_keys :: "jsv \<Rightarrow> string list \<Rightarrow> bool" where
  "same_keys v expected = (case v of J_obj fs \<Rightarrow> map fst fs = expected | _ \<Rightarrow> False)"

definition is_plain_record :: "jsv \<Rightarrow> bool" where
  "is_plain_record v = (case v of J_obj _ \<Rightarrow> True | _ \<Rightarrow> False)"

definition bounded_text :: "jsv \<Rightarrow> nat \<Rightarrow> bool" where
  "bounded_text v n = (case v of J_str s \<Rightarrow> length s > 0 \<and> length s \<le> n \<and> \<not> has_control s | _ \<Rightarrow> False)"

definition bounded_relay_id :: "jsv \<Rightarrow> bool" where
  "bounded_relay_id v = (case v of J_str s \<Rightarrow> length s \<ge> 3 \<and> length s \<le> 160 \<and> list_all is_id_char s | _ \<Rightarrow> False)"

definition is_lower_hex :: "char \<Rightarrow> bool" where
  "is_lower_hex c = (let n = of_char c :: nat in (48 \<le> n \<and> n \<le> 57) \<or> (97 \<le> n \<and> n \<le> 102))"

text \<open>The pattern \<open>^sha256:[0-9a-f]{64}$\<close>.\<close>

definition is_hash_text :: "string \<Rightarrow> bool" where
  "is_hash_text s = (take 7 s = ''sha256:'' \<and> length s = 71 \<and> list_all is_lower_hex (drop 7 s))"

definition is_safe_nat :: "jsv \<Rightarrow> bool" where
  "is_safe_nat v = (case v of J_num i \<Rightarrow> 0 \<le> i \<and> i \<le> max_safe_integer | _ \<Rightarrow> False)"

definition byte_array :: "jsv \<Rightarrow> nat \<Rightarrow> nat \<Rightarrow> bool" where
  "byte_array v lo hi = (case v of
     J_arr xs \<Rightarrow> length xs \<ge> lo \<and> length xs \<le> hi \<and>
       list_all (\<lambda>x. case x of J_num i \<Rightarrow> 0 \<le> i \<and> i \<le> 255 | _ \<Rightarrow> False) xs
   | _ \<Rightarrow> False)"

definition strict_hpke_sealed_object :: "jsv \<Rightarrow> bool" where
  "strict_hpke_sealed_object v \<longleftrightarrow>
     same_keys v [''version'', ''kem_id'', ''kdf_id'', ''aead_id'', ''encapsulated_key'', ''ciphertext'']
     \<and> field_of v ''version'' = J_num 1 \<and> field_of v ''kem_id'' = J_num 16
     \<and> field_of v ''kdf_id'' = J_num 1 \<and> field_of v ''aead_id'' = J_num 1
     \<and> byte_array (field_of v ''encapsulated_key'') 65 65
     \<and> byte_array (field_of v ''ciphertext'') 16 1000000"

definition is_strict_invite_envelope :: "jsv \<Rightarrow> bool" where
  "is_strict_invite_envelope v \<longleftrightarrow>
     is_plain_record v \<and> same_keys v [''version'', ''binding'', ''sealedPayload'']
     \<and> field_of v ''version'' = J_num 3
     \<and> is_plain_record (field_of v ''binding'') \<and> is_plain_record (field_of v ''sealedPayload'')"

definition directed_invite_binding_keys :: "string list" where
  "directed_invite_binding_keys = [''version'', ''phase'', ''inviteId'', ''teamId'', ''roomId'', ''keyEpoch'',
     ''keyPackageHash'', ''requestId'', ''requestNonce'', ''requesterUserId'', ''requesterDeviceId'',
     ''hostUserId'', ''hostDeviceId'', ''expiresAt'', ''status'', ''decidedAt'']"

definition valid_invite_cryptographic_binding :: "jsv \<Rightarrow> bool" where
  "valid_invite_cryptographic_binding b \<longleftrightarrow>
     is_safe_nat (field_of b ''keyEpoch'')
     \<and> (case field_of b ''keyPackageHash'' of J_str h \<Rightarrow> is_hash_text h | _ \<Rightarrow> False)
     \<and> bounded_text (field_of b ''requestId'') 160
     \<and> (case field_of b ''requestNonce'' of
          J_str t \<Rightarrow> 16 \<le> length t \<and> length t \<le> 160 \<and> list_all is_id_char t | _ \<Rightarrow> False)"

text \<open>\<open>date_of\<close> is what \<open>Date.parse\<close> makes of a text.\<close>

definition valid_invite_participants :: "(string \<Rightarrow> int option) \<Rightarrow> jsv \<Rightarrow> bool" where
  "valid_invite_participants date_of b \<longleftrightarrow>
     bounded_text (field_of b ''requesterUserId'') 160 \<and> bounded_text (field_of b ''requesterDeviceId'') 160
     \<and> bounded_text (field_of b ''hostUserId'') 160 \<and> bounded_text (field_of b ''hostDeviceId'') 160
     \<and> (case field_of b ''expiresAt'' of J_str t \<Rightarrow> date_of t \<noteq> None | _ \<Rightarrow> False)"

definition is_strict_invite_binding :: "(string \<Rightarrow> int option) \<Rightarrow> jsv \<Rightarrow> bool" where
  "is_strict_invite_binding date_of b \<longleftrightarrow>
     same_keys b directed_invite_binding_keys
     \<and> field_of b ''version'' = J_num 3 \<and> field_of b ''phase'' = J_str ''request''
     \<and> bounded_text (field_of b ''inviteId'') 160
     \<and> bounded_relay_id (field_of b ''teamId'') \<and> bounded_relay_id (field_of b ''roomId'')
     \<and> valid_invite_cryptographic_binding b
     \<and> valid_invite_participants date_of b
     \<and> field_of b ''status'' = J_null \<and> field_of b ''decidedAt'' = J_null"

record request_binding =
  rb_invite :: string
  rb_team :: string
  rb_room :: string
  rb_epoch :: nat
  rb_kp_hash :: string
  rb_request :: string
  rb_nonce :: string
  rb_user :: string
  rb_device :: string
  rb_host_user :: string
  rb_host_device :: string
  rb_expires :: string

fun str_field :: "jsv \<Rightarrow> string" where
  "str_field (J_str s) = s"
| "str_field _ = []"

fun nat_field :: "jsv \<Rightarrow> nat" where
  "nat_field (J_num i) = nat i"
| "nat_field _ = 0"

definition binding_of :: "jsv \<Rightarrow> request_binding" where
  "binding_of b =
     \<lparr>rb_invite = str_field (field_of b ''inviteId''), rb_team = str_field (field_of b ''teamId''),
      rb_room = str_field (field_of b ''roomId''), rb_epoch = nat_field (field_of b ''keyEpoch''),
      rb_kp_hash = str_field (field_of b ''keyPackageHash''), rb_request = str_field (field_of b ''requestId''),
      rb_nonce = str_field (field_of b ''requestNonce''), rb_user = str_field (field_of b ''requesterUserId''),
      rb_device = str_field (field_of b ''requesterDeviceId''), rb_host_user = str_field (field_of b ''hostUserId''),
      rb_host_device = str_field (field_of b ''hostDeviceId''), rb_expires = str_field (field_of b ''expiresAt'')\<rparr>"

definition parse_strict_directed_invite_request :: "(string \<Rightarrow> int option) \<Rightarrow> jsv \<Rightarrow> nat \<Rightarrow> request_binding option" where
  "parse_strict_directed_invite_request date_of v max_chars =
     (case v of
        J_str s \<Rightarrow>
          if length s < 2 \<or> length s > max_chars \<or> has_control s then None
          else (case json_parse s of
                  None \<Rightarrow> None
                | Some p \<Rightarrow>
                    if \<not> is_strict_invite_envelope p then None
                    else if \<not> is_strict_invite_binding date_of (field_of p ''binding'') then None
                    else if \<not> strict_hpke_sealed_object (field_of p ''sealedPayload'') then None
                    else if json_text p \<noteq> s then None
                    else Some (binding_of (field_of p ''binding'')))
      | _ \<Rightarrow> None)"

text \<open>\<open>isStrictExporterCiphertextJson\<close>.\<close>

definition is_strict_exporter_ciphertext :: "string \<Rightarrow> nat \<Rightarrow> bool" where
  "is_strict_exporter_ciphertext s max_chars =
     (if length s < 2 \<or> length s > max_chars \<or> has_control s then False
      else case json_parse s of
             None \<Rightarrow> False
           | Some p \<Rightarrow>
               is_plain_record p \<and> same_keys p [''version'', ''epoch'', ''nonce'', ''ciphertext'']
               \<and> field_of p ''version'' = J_num 1 \<and> is_safe_nat (field_of p ''epoch'')
               \<and> (case field_of p ''nonce'' of J_str t \<Rightarrow> is_canonical_base64 t 64 | _ \<Rightarrow> False)
               \<and> (case field_of p ''ciphertext'' of J_str t \<Rightarrow> is_canonical_base64 t max_chars | _ \<Rightarrow> False)
               \<and> json_text p = s)"

text \<open>An accepted request is its canonical text: two accepted texts with equal values are equal.\<close>

lemma parse_strict_Some:
  assumes "parse_strict_directed_invite_request date_of (J_str s) n = Some b"
  obtains p where "json_parse s = Some p" and "json_text p = s" and "length s \<le> n"
    and "is_strict_invite_binding date_of (field_of p ''binding'')" and "b = binding_of (field_of p ''binding'')"
  using assms
  by (auto simp: parse_strict_directed_invite_request_def split: if_splits option.splits)

end
