(* ===== verification/Domain.thy ===== *)
theory Domain
  imports Store_Accounting Directed_Invite
begin

text \<open>
  The rules shared by every request: which teams and rooms are active, who may act on a team,
  and the revocation of invites (apps/relay/src/relay-domain.ts and apps/relay/src/authz.ts).
\<close>

section \<open>Active teams and rooms\<close>

definition team_active :: "team \<Rightarrow> bool" where
  "team_active t \<longleftrightarrow> \<not> stamp_set (t_archived t) \<and> \<not> stamp_set (t_deleted t)"

definition is_active_team :: "relay_store \<Rightarrow> string \<Rightarrow> bool" where
  "is_active_team s t = (case jget (teams s) t of None \<Rightarrow> False | Some team \<Rightarrow> team_active team)"

definition is_active_room :: "relay_store \<Rightarrow> string \<Rightarrow> string \<Rightarrow> bool" where
  "is_active_room s t r \<longleftrightarrow> is_active_team s t \<and>
     (case jget (rooms s) r of None \<Rightarrow> False
      | Some room \<Rightarrow> r_team room = t \<and> \<not> stamp_set (r_archived room) \<and> \<not> stamp_set (r_deleted room))"

definition is_active_invite_target :: "relay_store \<Rightarrow> invite option \<Rightarrow> bool" where
  "is_active_invite_target s i = (case i of None \<Rightarrow> False | Some v \<Rightarrow> is_active_room s (i_team v) (i_room v))"

definition display_name_for_user :: "session_user \<Rightarrow> string" where
  "display_name_for_user u =
     (case u_name u of None \<Rightarrow> u_login u | Some n \<Rightarrow> if js_trim n \<noteq> [] then js_trim n else u_login u)"

record requester =
  rq_id :: string
  rq_name :: string

definition is_room_host :: "room \<Rightarrow> requester \<Rightarrow> bool" where
  "is_room_host room who =
     (if rq_id who = [] \<and> rq_name who = [] then False
      else if r_status room \<noteq> Host_active then False
      else if truthy (r_host_user room) then r_host_user room = Some (rq_id who)
      else r_host room = rq_name who)"

text \<open>\<open>requesterFromRequest\<close>: the account session's user, or the ids the body names.\<close>

definition requester_from_request :: "session_user option \<Rightarrow> jsv \<Rightarrow> requester" where
  "requester_from_request u body =
     (let text = (\<lambda>v n. case normalize_optional_metadata_text v n of None \<Rightarrow> [] | Some t \<Rightarrow> t) in
      case u of
        Some user \<Rightarrow> \<lparr>rq_id = u_id user,
          rq_name = (case normalize_metadata_text (J_str (display_name_for_user user)) max_host_name of
                       None \<Rightarrow> [] | Some t \<Rightarrow> t)\<rparr>
      | None \<Rightarrow> \<lparr>rq_id = text (field_of body ''requesterUserId'') max_user_id,
          rq_name = text (field_of body ''requesterName'') max_host_name\<rparr>)"

section \<open>Authority over a team (authz.ts)\<close>

definition team_role_rank :: "team_role \<Rightarrow> nat" where
  "team_role_rank r = (case r of Owner \<Rightarrow> 0 | Admin \<Rightarrow> 1 | Member \<Rightarrow> 2)"

definition can_set_team_member_role :: "team_role option \<Rightarrow> team_role \<Rightarrow> team_role \<Rightarrow> bool" where
  "can_set_team_member_role requester target next_role =
     (if target = Owner \<or> next_role = Owner then False
      else if requester = Some Owner then True
      else if requester \<noteq> Some Admin then False
      else target = Member \<and> next_role = Member)"

definition can_remove_team_member :: "team_role option \<Rightarrow> team_role \<Rightarrow> bool" where
  "can_remove_team_member requester target =
     (if target = Owner then False
      else if requester = Some Owner then True
      else requester = Some Admin \<and> target = Member)"

definition transferred :: "string \<Rightarrow> string \<Rightarrow> team_member \<Rightarrow> team_member" where
  "transferred next_owner u m =
     (if u = next_owner then m\<lparr>m_role := Owner\<rparr>
      else if m_role m = Owner then m\<lparr>m_role := Admin\<rparr> else m)"

text \<open>The loop of \<open>transferTeamOwnership\<close>: every \<open>set\<close> replaces a present entry in place.\<close>

definition transfer_team_ownership :: "(string, team_member) jmap \<Rightarrow> string \<Rightarrow> (string, team_member) jmap" where
  "transfer_team_ownership ms next_owner = map (\<lambda>(u, m). (u, transferred next_owner u m)) ms"

definition can_access_room :: "relay_store \<Rightarrow> string \<Rightarrow> string \<Rightarrow> string \<Rightarrow> bool" where
  "can_access_room s t r u \<longleftrightarrow> is_active_room s t r \<and> has_team_member s t u"

section \<open>Adding members and revoking invites\<close>

text \<open>
  \<open>addTeamMember\<close>. On a known team the member is set in the live map before \<open>setTeamMembers\<close>
  replaces it by a copy; on a team without a member map the new map is stored at once.
\<close>

definition add_team_member :: "int \<Rightarrow> string \<Rightarrow> string \<Rightarrow> team_role \<Rightarrow> relay_store \<Rightarrow> (store_error, relay_store) outcome" where
  "add_team_member now t u role s =
     (if u = [] then Done s
      else case jget (teams s) t of
        None \<Rightarrow> Done s
      | Some team \<Rightarrow>
          if has_team_member s t u then Done s
          else
            let m = \<lparr>m_team = t, m_user = u, m_role = role, m_joined = Iso now\<rparr> in
            seq (member_set t u m s) (\<lambda>s1.
              let ms = (case members_of s1 t of None \<Rightarrow> [(u, m)] | Some live \<Rightarrow> live) in
              seq (set_team_members t ms s1) (\<lambda>s2.
                set_team (team\<lparr>t_members := length ms\<rparr>) s2)))"

text \<open>\<open>revokeInviteArtifactsWhere\<close> returns whether an invite was revoked.\<close>

definition revoke_invite_artifacts_where :: "(invite \<Rightarrow> bool) \<Rightarrow> relay_store \<Rightarrow> bool \<times> relay_store" where
  "revoke_invite_artifacts_where matches s =
     (let revoked = map fst (filter (\<lambda>(_, v). matches v) (invites s));
          s1 = dm_delete_where invite_map (\<lambda>_ v. matches v) s;
          s2 = dm_delete_where request_map (\<lambda>_ q. List.member revoked (q_invite q)) s1;
          s3 = dm_delete_where response_map (\<lambda>_ r. List.member revoked (s_invite r)) s2;
          s4 = dm_delete_where ack_map (\<lambda>_ r. List.member revoked (ar_invite r)) s3
      in (revoked \<noteq> [], s4))"

definition revoke_room_invites :: "string \<Rightarrow> string \<Rightarrow> relay_store \<Rightarrow> bool \<times> relay_store" where
  "revoke_room_invites t r s = revoke_invite_artifacts_where (\<lambda>v. i_team v = t \<and> i_room v = r) s"

definition revoke_team_invite_artifacts :: "string \<Rightarrow> relay_store \<Rightarrow> bool \<times> relay_store" where
  "revoke_team_invite_artifacts t s = revoke_invite_artifacts_where (\<lambda>v. i_team v = t) s"

section \<open>Lemmas\<close>

lemma is_active_room_cong:
  "teams s = teams s' \<Longrightarrow> rooms s = rooms s' \<Longrightarrow> is_active_room s t r = is_active_room s' t r"
  by (simp add: is_active_room_def is_active_team_def)

lemma transfer_keys [simp]: "map fst (transfer_team_ownership ms u) = map fst ms"
  by (simp add: transfer_team_ownership_def case_prod_unfold)

lemma transfer_length [simp]: "length (transfer_team_ownership ms u) = length ms"
  by (simp add: transfer_team_ownership_def)

lemma transfer_get: "jget (transfer_team_ownership ms n) u = map_option (transferred n u) (jget ms u)"
  by (induction ms) (auto simp: transfer_team_ownership_def)

definition owners :: "(string, team_member) jmap \<Rightarrow> string list" where
  "owners ms = map fst (filter (\<lambda>(_, m). m_role m = Owner) ms)"

lemma owners_transfer:
  assumes "jwf ms" and "jget ms n \<noteq> None"
  shows "owners (transfer_team_ownership ms n) = [n]"
  using assms
proof (induction ms)
  case Nil
  then show ?case by simp
next
  case (Cons p ms)
  obtain u m where p: "p = (u, m)" by (cases p)
  have tail: "owners (transfer_team_ownership xs n) = []" if "n \<notin> fst ` set xs" for xs
    using that by (induction xs) (auto simp: owners_def transfer_team_ownership_def transferred_def split: if_splits)
  show ?case
  proof (cases "u = n")
    case True
    with Cons.prems tail [of ms] show ?thesis
      by (simp add: p owners_def transfer_team_ownership_def transferred_def)
  next
    case False
    with Cons show ?thesis
      by (auto simp: p owners_def transfer_team_ownership_def transferred_def)
  qed
qed

text \<open>Adding a member keeps the accounting, whatever step fails.\<close>

lemma add_team_member_ok:
  assumes "store_ok s"
  shows "store_ok (state_of (add_team_member now t u role s))"
proof -
  have wf: "jwf (case members_of s1 t of None \<Rightarrow> [(u, m)] | Some live \<Rightarrow> live)" if "store_ok s1" for s1 and m :: team_member
    using that by (auto simp: store_ok_def dest: members_of_wf split: option.split)
  show ?thesis
    using assms
    by (auto simp: add_team_member_def Let_def set_team_def split: option.splits
        intro!: seq_state_inv [where P = store_ok] member_set_ok set_team_members_ok team_tm.dm_set_ok wf)
qed

lemma revoke_ok: "store_ok s \<Longrightarrow> store_ok (snd (revoke_invite_artifacts_where P s))"
  by (simp add: revoke_invite_artifacts_where_def Let_def invite_tm.dm_delete_where_ok
      request_tm.dm_delete_where_ok response_tm.dm_delete_where_ok ack_tm.dm_delete_where_ok)

end
