(* ===== verification/Quotas.thy ===== *)
theory Quotas
  imports Domain
begin

text \<open>
  Durable account quotas (apps/relay/src/auth/account-quotas.ts), the account restriction test
  (auth/account-restrictions.ts) and the liveness of an account session
  (auth/account-mutation-transaction.ts).
\<close>

section \<open>Durable quotas\<close>

definition quota_name :: "quota_kind \<Rightarrow> string" where
  "quota_name q = (case q of Daily_team_creations \<Rightarrow> ''daily_team_creations''
     | Daily_room_creations \<Rightarrow> ''daily_room_creations'' | Attachment_upload_bytes \<Rightarrow> ''attachment_upload_bytes'')"

definition quota_key :: "quota_kind \<Rightarrow> string \<Rightarrow> string" where
  "quota_key q u = quota_name q @ '':'' @ u"

record quota_reservation =
  rv_amount :: int
  rv_record :: quota_record

datatype quota_decision = Quota_denied int int | Quota_allowed quota_reservation

text \<open>A stored record counts only until its reset time.\<close>

definition current_quota :: "quota_kind \<Rightarrow> string \<Rightarrow> int \<Rightarrow> relay_store \<Rightarrow> quota_record option" where
  "current_quota q u now s =
     (case jget (accountQuotaRecords s) (quota_key q u) of
        None \<Rightarrow> None | Some r \<Rightarrow> if qr_reset r > now then Some r else None)"

definition quota_used :: "quota_kind \<Rightarrow> string \<Rightarrow> int \<Rightarrow> relay_store \<Rightarrow> int" where
  "quota_used q u now s = (case current_quota q u now s of None \<Rightarrow> 0 | Some r \<Rightarrow> qr_used r)"

definition reserved_record :: "quota_kind \<Rightarrow> string \<Rightarrow> int \<Rightarrow> int \<Rightarrow> int \<Rightarrow> relay_store \<Rightarrow> quota_record" where
  "reserved_record q u amount reset_at now s =
     \<lparr>qr_key = quota_key q u, qr_user = u, qr_quota = q, qr_used = quota_used q u now s + amount,
      qr_reset = (case current_quota q u now s of None \<Rightarrow> reset_at | Some r \<Rightarrow> qr_reset r)\<rparr>"

text \<open>\<open>reserveDurableQuota\<close>: the decision beside the store; storing the record may throw.\<close>

definition reserve_durable_quota ::
  "quota_kind \<Rightarrow> string \<Rightarrow> int \<Rightarrow> int \<Rightarrow> int \<Rightarrow> int \<Rightarrow> relay_store
     \<Rightarrow> quota_decision \<times> (store_error, relay_store) outcome" where
  "reserve_durable_quota q u amount limit reset_at now s =
     (let record = reserved_record q u amount reset_at now s in
      if quota_used q u now s + amount > limit
      then (Quota_denied (quota_used q u now s) (qr_reset record), Done s)
      else (Quota_allowed \<lparr>rv_amount = amount, rv_record = record\<rparr>,
            dm_set quota_map (quota_key q u) record s))"

definition rollback_durable_quota :: "quota_reservation \<Rightarrow> relay_store \<Rightarrow> (store_error, relay_store) outcome" where
  "rollback_durable_quota v s =
     (case jget (accountQuotaRecords s) (qr_key (rv_record v)) of
        None \<Rightarrow> Done s
      | Some cur \<Rightarrow>
          if qr_reset cur \<noteq> qr_reset (rv_record v) then Done s
          else if qr_used cur - rv_amount v \<le> 0 then Done (dm_delete quota_map (qr_key cur) s)
          else dm_set quota_map (qr_key cur) (cur\<lparr>qr_used := qr_used cur - rv_amount v\<rparr>) s)"

text \<open>\<open>Date.UTC(year, month, day + 1)\<close> of the current date.\<close>

definition day_ms :: int where "day_ms = 86400000"

definition next_utc_midnight :: "int \<Rightarrow> int" where
  "next_utc_midnight now = (now div day_ms + 1) * day_ms"

section \<open>Restrictions and live sessions\<close>

definition is_account_restricted :: "relay_store \<Rightarrow> string \<Rightarrow> int \<Rightarrow> bool" where
  "is_account_restricted s u now =
     (case jget (accountRestrictions s) u of
        None \<Rightarrow> False
      | Some r \<Rightarrow> (case re_expires r of
            Some e \<Rightarrow> \<not> stamp_set (Some e) \<or> stamp_gt e now | None \<Rightarrow> True))"

text \<open>
  \<open>isLiveAccountSession\<close>. The code compares the stored object with the session's; stored
  sessions are replaced as a whole, so equal records stand for the same object.
\<close>

definition is_live_account_session :: "relay_store \<Rightarrow> auth_session \<Rightarrow> int \<Rightarrow> bool" where
  "is_live_account_session s a now \<longleftrightarrow>
     jget (authSessions s) (as_hash a) = Some a \<and> as_expires a > now
     \<and> \<not> is_account_restricted s (u_id (as_user a)) now"

section \<open>Lemmas\<close>

lemma next_utc_midnight_bounds: "now < next_utc_midnight now" "next_utc_midnight now \<le> now + day_ms"
    "next_utc_midnight now mod day_ms = 0"
proof -
  have p: "(0::int) < day_ms" by (simp add: day_ms_def)
  have e: "now div day_ms * day_ms + now mod day_ms = now" by simp
  have b: "0 \<le> now mod day_ms" "now mod day_ms < day_ms" using p by simp_all
  have n: "next_utc_midnight now = now div day_ms * day_ms + day_ms"
    by (simp add: next_utc_midnight_def distrib_right)
  show "now < next_utc_midnight now" "next_utc_midnight now \<le> now + day_ms" using e b unfolding n by linarith+
  show "next_utc_midnight now mod day_ms = 0" by (simp add: next_utc_midnight_def)
qed

lemma reserve_ok: "store_ok s \<Longrightarrow> store_ok (state_of (snd (reserve_durable_quota q u a l r now s)))"
  by (simp add: reserve_durable_quota_def Let_def quota_tm.dm_set_ok)

lemma rollback_quota_ok: "store_ok s \<Longrightarrow> store_ok (state_of (rollback_durable_quota v s))"
  by (auto simp: rollback_durable_quota_def quota_tm.dm_set_ok quota_tm.dm_delete_ok split: option.splits)

text \<open>An allowed reservation keeps the recorded use within the limit.\<close>

lemma reserve_allowed:
  assumes "reserve_durable_quota q u amount limit reset_at now s = (Quota_allowed v, Done s')"
    and ok: "store_ok s" and fresh: "now < reset_at"
  shows "quota_used q u now s' = quota_used q u now s + amount" and "quota_used q u now s' \<le> limit"
    and "rv_amount v = amount" and "jget (accountQuotaRecords s') (quota_key q u) = Some (rv_record v)"
proof -
  from assms(1) have set: "dm_set quota_map (quota_key q u) (reserved_record q u amount reset_at now s) s = Done s'"
    and le: "quota_used q u now s + amount \<le> limit"
    and v: "v = \<lparr>rv_amount = amount, rv_record = reserved_record q u amount reset_at now s\<rparr>"
    by (auto simp: reserve_durable_quota_def Let_def split: if_splits)
  from quota_tm.dm_set_done [OF ok set]
  have get: "accountQuotaRecords s' = jset (quota_key q u) (reserved_record q u amount reset_at now s) (accountQuotaRecords s)"
    by (simp add: quota_map_def)
  have live: "qr_reset (reserved_record q u amount reset_at now s) > now"
    using fresh by (auto simp: reserved_record_def current_quota_def split: option.splits if_splits)
  then have cur: "current_quota q u now s' = Some (reserved_record q u amount reset_at now s)"
    by (simp add: current_quota_def get)
  then show "quota_used q u now s' = quota_used q u now s + amount"
    by (simp add: quota_used_def [of q u now s'] reserved_record_def)
  then show "quota_used q u now s' \<le> limit" using le by simp
  show "rv_amount v = amount" by (simp add: v)
  show "jget (accountQuotaRecords s') (quota_key q u) = Some (rv_record v)" by (simp add: get v)
qed

text \<open>Rolling a reservation back gives the use before it.\<close>

lemma rollback_restores:
  assumes "reserve_durable_quota q u amount limit reset_at now s = (Quota_allowed v, Done s')"
    and ok: "store_ok s" and fresh: "now < reset_at" and amount: "0 < amount"
    and used: "\<And>r. current_quota q u now s = Some r \<Longrightarrow> 0 \<le> qr_used r"
    and undo: "rollback_durable_quota v s' = Done s''"
  shows "quota_used q u now s'' = quota_used q u now s"
proof -
  note facts = reserve_allowed [OF assms(1-3)]
  from assms(1) have v: "rv_record v = reserved_record q u amount reset_at now s"
    by (auto simp: reserve_durable_quota_def Let_def split: if_splits)
  have key: "qr_key (rv_record v) = quota_key q u" by (simp add: v reserved_record_def)
  have ok': "store_ok s'" using reserve_ok [OF ok, of q u amount limit reset_at now] assms(1) by simp
  have u0: "0 \<le> quota_used q u now s" using used by (auto simp: quota_used_def split: option.splits)
  have r: "qr_used (rv_record v) = quota_used q u now s + amount" by (simp add: v reserved_record_def)
  have live: "qr_reset (rv_record v) > now"
    using fresh by (auto simp: v reserved_record_def current_quota_def split: option.splits if_splits)
  show ?thesis
  proof (cases "quota_used q u now s = 0")
    case True
    with undo facts key r have s'': "s'' = dm_delete quota_map (quota_key q u) s'"
      by (simp add: rollback_durable_quota_def)
    have "accountQuotaRecords s'' = jdel (quota_key q u) (accountQuotaRecords s')"
      using quota_tm.dm_delete_ok [OF ok', of "quota_key q u"] unfolding s'' by (simp add: quota_map_def)
    then have "quota_used q u now s'' = 0" by (simp add: quota_used_def current_quota_def)
    with True show ?thesis by simp
  next
    case False
    with undo facts key r u0
    have "dm_set quota_map (quota_key q u) (rv_record v\<lparr>qr_used := quota_used q u now s\<rparr>) s' = Done s''"
      by (simp add: rollback_durable_quota_def)
    from quota_tm.dm_set_done [OF ok' this]
    have "jget (accountQuotaRecords s'') (quota_key q u) = Some (rv_record v\<lparr>qr_used := quota_used q u now s\<rparr>)"
      by (simp add: quota_map_def)
    with live show ?thesis by (simp add: quota_used_def [of q u now s''] current_quota_def)
  qed
qed

end
