(* ===== verification/Retention.thy ===== *)
theory Retention
  imports Quotas
begin

text \<open>
  What the relay forgets: the expiry and size caps that \<open>pruneExpiredRelayState\<close>
  (apps/relay/src/store-codec.ts) applies before a write, and the pruning of message receipts
  after a publish (\<open>pruneAcceptedReceipts\<close> in apps/relay/src/ws/fanout.ts).
\<close>

section \<open>Pools\<close>

text \<open>A \<open>Map\<close> from a key to the list of elements that have it, in order of arrival.\<close>

definition group_add :: "('a \<Rightarrow> 'k) \<Rightarrow> 'a \<Rightarrow> ('k, 'a list) jmap \<Rightarrow> ('k, 'a list) jmap" where
  "group_add f x m = jset (f x) (case jget m (f x) of None \<Rightarrow> [x] | Some xs \<Rightarrow> xs @ [x]) m"

definition group_by :: "('a \<Rightarrow> 'k) \<Rightarrow> 'a list \<Rightarrow> ('k, 'a list) jmap" where
  "group_by f xs = fold (group_add f) xs []"

lemma group_by_snoc: "group_by f (xs @ [x]) = group_add f x (group_by f xs)"
  by (simp add: group_by_def)

lemma group_by_get:
  "jget (group_by f xs) k = (if filter (\<lambda>x. f x = k) xs = [] then None else Some (filter (\<lambda>x. f x = k) xs))"
proof (induction xs rule: rev_induct)
  case Nil
  show ?case by (simp add: group_by_def)
next
  case (snoc x xs)
  show ?case
    using snoc unfolding group_by_snoc group_add_def by (cases "k = f x") auto
qed

lemma group_by_wf: "jwf (group_by f xs)"
proof (induction xs rule: rev_induct)
  case Nil
  show ?case by (simp add: group_by_def)
next
  case (snoc x xs)
  show ?case unfolding group_by_snoc group_add_def by (rule jwf_jset [OF snoc])
qed

lemma group_by_mem:
  assumes "(k, ys) \<in> set (group_by f xs)"
  shows "ys = filter (\<lambda>x. f x = k) xs"
proof -
  from assms have "jget (group_by f xs) k = Some ys" by (simp add: group_by_wf)
  then show ?thesis by (simp add: group_by_get split: if_splits)
qed

text \<open>Deleting a list of keys, and the first \<open>n\<close> more than a maximum.\<close>

definition delete_keys :: "'v tracked \<Rightarrow> string list \<Rightarrow> relay_store \<Rightarrow> relay_store" where
  "delete_keys T ks s = fold (dm_delete T) ks s"

definition excess :: "nat \<Rightarrow> 'a list \<Rightarrow> 'a list" where
  "excess maximum xs = take (length xs - maximum) xs"

context tracked_map begin

lemma delete_keys_ok:
  "store_ok s \<Longrightarrow> store_ok (delete_keys T ks s)
     \<and> tr_get T (delete_keys T ks s) = filter (\<lambda>(k, _). k \<notin> set ks) (tr_get T s)"
proof (induction ks arbitrary: s)
  case Nil
  then show ?case by (simp add: delete_keys_def case_prod_unfold)
next
  case (Cons k ks)
  from dm_delete_ok [OF Cons.prems, of k]
  have ok: "store_ok (dm_delete T k s)" and get: "tr_get T (dm_delete T k s) = jdel k (tr_get T s)" by auto
  from Cons.IH [OF ok] show ?case
    by (auto simp: delete_keys_def get jdel_def AList.delete_eq intro!: filter_cong)
qed

lemma delete_keys_erase: "erase T (delete_keys T ks s) = erase T s"
  unfolding delete_keys_def by (rule erase_fold) (rule dm_delete_erase)

end

section \<open>Accepted message receipts\<close>

definition receipt_retention_ms :: int where
  "receipt_retention_ms = 180 * 24 * 60 * 60 * 1000"

definition max_receipts :: nat where
  "max_receipts = 4096"

text \<open>\<open>Date.parse\<close> of the acceptance time; stored receipts always carry one that parses.\<close>

definition receipt_time :: "string \<times> message_receipt \<Rightarrow> int" where
  "receipt_time e = (case date_parse (mr_accepted (snd e)) of None \<Rightarrow> 0 | Some t \<Rightarrow> t)"

definition delete_excess :: "('k, (string \<times> 'v) list) jmap \<Rightarrow> 'v tracked \<Rightarrow> relay_store \<Rightarrow> relay_store" where
  "delete_excess pools T s =
     fold (\<lambda>pool. delete_keys T (map fst (excess max_receipts pool))) (jvalues pools) s"

text \<open>\<open>pruneAcceptedReceipts(store, roomKey)\<close>.\<close>

definition prune_accepted_receipts :: "int \<Rightarrow> string \<Rightarrow> relay_store \<Rightarrow> relay_store" where
  "prune_accepted_receipts now key s =
     (let cutoff = now - receipt_retention_ms;
          room_receipts = sort_key receipt_time (filter (\<lambda>(_, r). mr_room r = key) (acceptedMessageReceipts s));
          s1 = delete_keys receipt_map
                 (map fst (filter (\<lambda>(_, r). stamp_lt (mr_accepted r) cutoff) room_receipts)) s;
          commits = filter (\<lambda>(id, r). mr_type r = Commit \<and> jhas (acceptedMessageReceipts s1) id) room_receipts;
          s2 = delete_keys receipt_map (map fst (excess max_receipts commits)) s1;
          applications = filter (\<lambda>(id, r). mr_type r = Application \<and> jhas (acceptedMessageReceipts s2) id) room_receipts
      in delete_excess (group_by (\<lambda>(_, r). mr_user r) applications) receipt_map s2)"

text \<open>The codec prunes every room at once, by pools (\<open>acceptedReceiptPoolKey\<close>).\<close>

datatype receipt_pool = Commit_pool string | Application_pool string string

definition accepted_receipt_pool_key :: "message_receipt \<Rightarrow> receipt_pool" where
  "accepted_receipt_pool_key r = (case mr_type r of
     Commit \<Rightarrow> Commit_pool (mr_room r) | Application \<Rightarrow> Application_pool (mr_room r) (mr_user r))"

definition prune_accepted_message_receipts :: "int \<Rightarrow> relay_store \<Rightarrow> relay_store" where
  "prune_accepted_message_receipts now s =
     (let s1 = dm_delete_where receipt_map (\<lambda>_ r. stamp_lt (mr_accepted r) (now - receipt_retention_ms)) s;
          pools = group_by (\<lambda>(_, r). accepted_receipt_pool_key r) (acceptedMessageReceipts s1);
          sorted_pools = map (\<lambda>(k, pool). (k, sort_key receipt_time pool)) pools
      in delete_excess sorted_pools receipt_map s1)"

section \<open>pruneExpiredRelayState (store-codec.ts)\<close>

definition is_expired_invite :: "int \<Rightarrow> invite \<Rightarrow> bool" where
  "is_expired_invite now i = (stamp_set (i_expires i) \<and>
     (case i_expires i of None \<Rightarrow> False | Some e \<Rightarrow> stamp_lt e now))"

definition is_expired_attachment_blob :: "int \<Rightarrow> attachment \<Rightarrow> bool" where
  "is_expired_attachment_blob now a = (stamp_set (a_expires a) \<and>
     (case a_expires a of None \<Rightarrow> False | Some e \<Rightarrow> stamp_lt e now))"

definition is_expired_restriction :: "int \<Rightarrow> restriction \<Rightarrow> bool" where
  "is_expired_restriction now r = (stamp_set (re_expires r) \<and>
     (case re_expires r of None \<Rightarrow> False | Some e \<Rightarrow> stamp_le e now))"

definition prune_expired_invites :: "int \<Rightarrow> relay_store \<Rightarrow> relay_store" where
  "prune_expired_invites now s =
     fold (\<lambda>(id, i) s.
        if \<not> is_expired_invite now i then s
        else dm_delete_where response_map (\<lambda>_ r. s_invite r = id)
               (dm_delete_where request_map (\<lambda>_ q. q_invite q = id) (dm_delete invite_map id s)))
       (invites s) s"

definition ack_time :: "string \<times> ack_receipt \<Rightarrow> int" where
  "ack_time e = (case date_parse (ar_acked (snd e)) of None \<Rightarrow> 0 | Some t \<Rightarrow> t)"

text \<open>\<open>capOldest(store.inviteAckReceipts, acknowledgedAt, 4096)\<close>.\<close>

definition cap_oldest_acks :: "nat \<Rightarrow> relay_store \<Rightarrow> relay_store" where
  "cap_oldest_acks maximum s =
     delete_keys ack_map (map fst (excess maximum (sort_key ack_time (inviteAckReceipts s)))) s"

definition drop_to_colon :: "string \<Rightarrow> string" where
  "drop_to_colon key = drop 1 (dropWhile (\<lambda>c. c \<noteq> CHR '':'') key)"

text \<open>\<open>pruneMlsBacklogs\<close>: a room that is gone loses its backlog; writing a shorter backlog back may throw.\<close>

definition prune_mls_backlog_of ::
  "mls_options \<Rightarrow> int \<Rightarrow> string \<times> mls_message list \<Rightarrow> relay_store \<Rightarrow> (store_error, relay_store) outcome" where
  "prune_mls_backlog_of lim now e s =
     (let key = fst e; room = (if CHR '':'' \<in> set key then jget (rooms s) (drop_to_colon key) else None) in
      case room of
        None \<Rightarrow> Done (dm_delete backlog_map key s)
      | Some r \<Rightarrow>
          if stamp_set (r_archived r) \<or> stamp_set (r_deleted r) then Done (dm_delete backlog_map key s)
          else let pruned = prune_mls_backlog lim now (snd e) in
            if pruned \<noteq> [] then dm_set backlog_map key pruned s else Done (dm_delete backlog_map key s))"

definition prune_mls_backlogs :: "mls_options \<Rightarrow> int \<Rightarrow> relay_store \<Rightarrow> (store_error, relay_store) outcome" where
  "prune_mls_backlogs lim now s = for_each (prune_mls_backlog_of lim now) (mlsBacklog s) s"

definition prune_expired_state :: "mls_options \<Rightarrow> int \<Rightarrow> relay_store \<Rightarrow> (store_error, relay_store) outcome" where
  "prune_expired_state lim now s =
     (let s1 = dm_delete_where auth_map (\<lambda>_ a. as_expires a \<le> now) s;
          s2 = dm_delete_where restriction_map (\<lambda>_ r. is_expired_restriction now r) s1;
          s3 = dm_delete_where quota_map (\<lambda>_ r. qr_reset r \<le> now) s2;
          s4 = prune_expired_invites now s3;
          s5 = dm_delete_where ack_map (\<lambda>_ r. stamp_le (ar_expires r) now) s4;
          s6 = cap_oldest_acks 4096 s5;
          s7 = prune_accepted_message_receipts now s6;
          s8 = dm_delete_where attachment_map (\<lambda>_ a. is_expired_attachment_blob now a) s7
      in prune_mls_backlogs lim now s8)"

section \<open>Accounting and bounds\<close>

lemma delete_excess_ok:
  assumes "store_ok s"
  shows "store_ok (delete_excess pools receipt_map s)
     \<and> acceptedMessageReceipts (delete_excess pools receipt_map s) =
       filter (\<lambda>(k, _). \<forall>pool \<in> set (jvalues pools). k \<notin> fst ` set (excess max_receipts pool)) (acceptedMessageReceipts s)"
proof -
  have "store_ok (fold (\<lambda>pool. delete_keys receipt_map (map fst (excess max_receipts pool))) ps s)
      \<and> acceptedMessageReceipts (fold (\<lambda>pool. delete_keys receipt_map (map fst (excess max_receipts pool))) ps s) =
       filter (\<lambda>(k, _). \<forall>pool \<in> set ps. k \<notin> fst ` set (excess max_receipts pool)) (acceptedMessageReceipts s)" for ps
    using assms
  proof (induction ps arbitrary: s)
    case Nil
    then show ?case by (simp add: case_prod_unfold)
  next
    case (Cons p ps)
    note d = receipt_tm.delete_keys_ok [OF Cons.prems, of "map fst (excess max_receipts p)"]
    from d have ok: "store_ok (delete_keys receipt_map (map fst (excess max_receipts p)) s)"
      and get: "acceptedMessageReceipts (delete_keys receipt_map (map fst (excess max_receipts p)) s)
        = filter (\<lambda>(k, _). k \<notin> fst ` set (excess max_receipts p)) (acceptedMessageReceipts s)"
      by (auto simp: receipt_map_def)
    from Cons.IH [OF ok] show ?case
      by (auto simp: get intro!: filter_cong)
  qed
  then show ?thesis by (simp add: delete_excess_def)
qed

lemma prune_accepted_receipts_ok:
  "store_ok s \<Longrightarrow> store_ok (prune_accepted_receipts now key s)"
  by (simp add: prune_accepted_receipts_def Let_def delete_excess_ok receipt_tm.delete_keys_ok)

lemma prune_accepted_message_receipts_ok:
  "store_ok s \<Longrightarrow> store_ok (prune_accepted_message_receipts now s)"
  by (simp add: prune_accepted_message_receipts_def Let_def delete_excess_ok receipt_tm.dm_delete_where_ok)

lemma prune_expired_invites_ok:
  assumes "store_ok s"
  shows "store_ok (prune_expired_invites now s)"
proof -
  have "store_ok (fold (\<lambda>(id, i) s.
        if \<not> is_expired_invite now i then s
        else dm_delete_where response_map (\<lambda>_ r. s_invite r = id)
               (dm_delete_where request_map (\<lambda>_ q. q_invite q = id) (dm_delete invite_map id s))) xs s)"
    if "store_ok s" for xs s
    using that
    by (induction xs arbitrary: s)
       (auto simp: response_tm.dm_delete_where_ok request_tm.dm_delete_where_ok invite_tm.dm_delete_ok)
  with assms show ?thesis by (simp add: prune_expired_invites_def)
qed

lemma prune_mls_backlog_of_ok: "store_ok s \<Longrightarrow> store_ok (state_of (prune_mls_backlog_of lim now e s))"
  by (auto simp: prune_mls_backlog_of_def Let_def backlog_tm.dm_delete_ok backlog_tm.dm_set_ok split: option.split)

lemma prune_expired_state_ok:
  assumes "store_ok s"
  shows "store_ok (state_of (prune_expired_state lim now s))"
proof -
  have "store_ok (state_of (prune_mls_backlogs lim now s))" if "store_ok s" for s
    unfolding prune_mls_backlogs_def by (rule for_each_state_inv) (auto simp: that prune_mls_backlog_of_ok)
  with assms show ?thesis
    by (simp add: prune_expired_state_def Let_def cap_oldest_acks_def auth_tm.dm_delete_where_ok
        restriction_tm.dm_delete_where_ok quota_tm.dm_delete_where_ok ack_tm.dm_delete_where_ok
        attachment_tm.dm_delete_where_ok prune_expired_invites_ok prune_accepted_message_receipts_ok
        ack_tm.delete_keys_ok)
qed

lemma length_drop_excess: "length (filter (\<lambda>x. f x \<notin> f ` set (excess n xs)) xs) \<le> n"
  if "distinct (map f xs)" for f :: "'a \<Rightarrow> 'b"
proof -
  have split: "xs = excess n xs @ drop (length xs - n) xs" by (simp add: excess_def)
  have "filter (\<lambda>x. f x \<notin> f ` set (excess n xs)) xs
      = filter (\<lambda>x. f x \<notin> f ` set (excess n xs)) (excess n xs @ drop (length xs - n) xs)"
    using split by metis
  also have "\<dots> = filter (\<lambda>x. f x \<notin> f ` set (excess n xs)) (drop (length xs - n) xs)"
    by (simp add: filter_empty_conv)
  finally have "length (filter (\<lambda>x. f x \<notin> f ` set (excess n xs)) xs) \<le> length (drop (length xs - n) xs)"
    using length_filter_le by metis
  also have "\<dots> \<le> n" by simp
  finally show ?thesis .
qed

text \<open>
  After the codec's pruning no pool (the Commits of a room, the application messages of one
  sender in a room) holds more than 4096 receipts, and none is older than the retention.
\<close>

lemma receipts_pruned:
  fixes s :: relay_store and now :: int
  assumes ok: "store_ok s"
  defines "s' \<equiv> prune_accepted_message_receipts now s"
  shows "length (filter (\<lambda>(_, r). accepted_receipt_pool_key r = pool) (acceptedMessageReceipts s')) \<le> 4096"
    and "jget (acceptedMessageReceipts s') mid = Some r \<Longrightarrow> \<not> stamp_lt (mr_accepted r) (now - receipt_retention_ms)"
proof -
  define s1 where "s1 = dm_delete_where receipt_map (\<lambda>_ r. stamp_lt (mr_accepted r) (now - receipt_retention_ms)) s"
  define pools where "pools = map (\<lambda>(k, pool). (k, sort_key receipt_time pool))
    (group_by (\<lambda>(_, r). accepted_receipt_pool_key r) (acceptedMessageReceipts s1))"
  have ok1: "store_ok s1" using ok by (simp add: s1_def receipt_tm.dm_delete_where_ok)
  have s': "s' = delete_excess pools receipt_map s1"
    by (simp add: s'_def prune_accepted_message_receipts_def Let_def s1_def [symmetric] pools_def [symmetric])
  have get: "acceptedMessageReceipts s' =
      filter (\<lambda>(k, _). \<forall>p \<in> set (jvalues pools). k \<notin> fst ` set (excess max_receipts p)) (acceptedMessageReceipts s1)"
    using delete_excess_ok [OF ok1, of pools] by (simp add: s')
  let ?in = "\<lambda>(_ :: string, r). accepted_receipt_pool_key r = pool"
  let ?xs = "filter ?in (acceptedMessageReceipts s1)"
  have wf: "jwf (acceptedMessageReceipts s1)" using ok1 by (simp add: store_ok_def store_wf_def)
  show "length (filter ?in (acceptedMessageReceipts s')) \<le> 4096"
  proof (cases "?xs = []")
    case True
    have "filter ?in (acceptedMessageReceipts s') = []"
      using True unfolding get by (auto simp: filter_empty_conv)
    then show ?thesis by simp
  next
    case False
    have "(pool, ?xs) \<in> set (group_by (\<lambda>(_, r). accepted_receipt_pool_key r) (acceptedMessageReceipts s1))"
      using False by (intro jget_mem) (simp add: group_by_get case_prod_unfold)
    then have mem: "sort_key receipt_time ?xs \<in> set (jvalues pools)"
      by (force simp: pools_def jvalues_def)
    let ?keep = "\<lambda>x. fst x \<notin> fst ` set (excess max_receipts (sort_key receipt_time ?xs))"
    have "length (filter ?in (acceptedMessageReceipts s')) \<le> length (filter ?keep ?xs)"
    proof -
      have "filter ?in (acceptedMessageReceipts s') = filter (\<lambda>(k, _). \<forall>p \<in> set (jvalues pools). k \<notin> fst ` set (excess max_receipts p)) ?xs"
        unfolding get by (auto simp: conj_commute intro!: filter_cong)
      also have "\<dots> = filter (\<lambda>(k, _). \<forall>p \<in> set (jvalues pools). k \<notin> fst ` set (excess max_receipts p)) (filter ?keep ?xs)"
        unfolding filter_filter using mem by (intro filter_cong) (force+)
      finally show ?thesis by (simp only: length_filter_le)
    qed
    also have "\<dots> = length (filter ?keep (sort_key receipt_time ?xs))"
      by (simp only: size_mset [symmetric] mset_filter mset_sort)
    also have "\<dots> \<le> max_receipts"
    proof (rule length_drop_excess)
      have "distinct (map fst ?xs)" using wf by (simp add: distinct_map_filter)
      moreover have "mset (map fst (sort_key receipt_time ?xs)) = mset (map fst ?xs)" by (simp only: mset_map mset_sort)
      ultimately show "distinct (map fst (sort_key receipt_time ?xs))"
        using mset_eq_imp_distinct_iff by blast
    qed
    finally show ?thesis by (simp add: max_receipts_def)
  qed
  assume "jget (acceptedMessageReceipts s') mid = Some r"
  then have "(mid, r) \<in> set (acceptedMessageReceipts s1)" using get by (auto dest!: jget_mem)
  moreover have "acceptedMessageReceipts s1 = jwhere (\<lambda>_ r. \<not> stamp_lt (mr_accepted r) (now - receipt_retention_ms)) (acceptedMessageReceipts s)"
    using receipt_tm.dm_delete_where_get [OF ok, of "\<lambda>_ r. stamp_lt (mr_accepted r) (now - receipt_retention_ms)"]
    by (simp add: s1_def receipt_map_def)
  ultimately show "\<not> stamp_lt (mr_accepted r) (now - receipt_retention_ms)"
    by (auto simp: jwhere_def)
qed

end
