(* ===== verification/Store_Rollback.thy ===== *)
theory Store_Rollback
  imports Retention
begin

text \<open>
  When a \<open>set\<close> cannot fail. A handler that rolls back writes old values into the tracked maps
  with the same \<open>set\<close> that may throw; here the ceilings are shown to leave room for them: a
  \<open>set\<close> whose result fits the limits returns. Both ceilings are compared on the abstract side,
  with the multisets of \<open>store_ok\<close>.
\<close>

definition store_limits :: "relay_store \<Rightarrow> int \<times> int \<times> byte_limits" where
  "store_limits s = (ec_max (st_cap s), ec_max_team (st_cap s), bc_limits (st_bytes s))"

definition fits :: "relay_store \<Rightarrow> string option multiset \<Rightarrow> byte_weight multiset \<Rightarrow> bool" where
  "fits s E W \<longleftrightarrow> int (size E) \<le> ec_max (st_cap s)
     \<and> (\<forall>t. t \<noteq> [] \<longrightarrow> int (count E (Some t)) \<le> ec_max_team (st_cap s))
     \<and> (\<forall>l. wsum l W \<le> bl_limit (bc_limits (st_bytes s)) l)"

lemma fits_limits: "store_limits s = store_limits t \<Longrightarrow> fits s E W = fits t E W"
  by (simp add: store_limits_def fits_def)

lemma wsum_union: "wsum l (A + B) = wsum l A + wsum l B"
  by (simp add: wsum_def)

lemma wsum_nonneg: "0 \<le> wsum l A"
  unfolding wsum_def by (induction A) auto

lemma fits_mono:
  assumes "fits s E W" and "E' \<subseteq># E" and "W' \<subseteq># W"
  shows "fits s E' W'"
proof -
  have "wsum l W' \<le> wsum l W" for l
  proof -
    have "wsum l W = wsum l W' + wsum l (W - W')"
      using subset_mset.add_diff_inverse [OF assms(3)] by (metis wsum_union)
    with wsum_nonneg [of l "W - W'"] show ?thesis by linarith
  qed
  moreover have "size E' \<le> size E" using assms(2) by (rule size_mset_mono)
  moreover have "count E' x \<le> count E x" for x using assms(2) by (rule mset_subset_eq_count)
  ultimately show ?thesis using assms(1) unfolding fits_def
    by (meson of_nat_mono order_trans)
qed

lemma store_ok_fits: "store_ok s \<Longrightarrow> fits s (entry_teams s) (entry_weights s)"
  by (auto simp: store_ok_def fits_def ec_counts_def ec_bounded_def bc_counts_def bc_bounded_def)

section \<open>Completeness of the counters\<close>

lemma ec_claim_complete:
  assumes "ec_counts c E" and "int (size E) + 1 \<le> ec_max c"
    and "\<And>j. t = Some j \<Longrightarrow> j \<noteq> [] \<Longrightarrow> int (count E (Some j)) + 1 \<le> ec_max_team c"
  shows "\<exists>c'. ec_claim t c = Done c'"
  using assms by (cases t) (auto simp: ec_claim_def ec_adjust_def ec_counts_def Let_def)

lemma ec_move_complete:
  assumes "ec_counts c E"
    and "\<And>j. t = Some j \<Longrightarrow> j \<noteq> [] \<Longrightarrow> f \<noteq> t \<Longrightarrow> int (count E (Some j)) + 1 \<le> ec_max_team c"
  shows "\<exists>c'. ec_move f t c = Done c'"
proof (cases "f = t")
  case True
  then show ?thesis by (simp add: ec_move_def)
next
  case False
  with assms show ?thesis by (cases t) (auto simp: ec_move_def ec_counts_def Let_def)
qed

lemma bc_replace_complete:
  assumes "p \<noteq> None \<or> n \<noteq> None"
    and "\<And>l. bc_level b l - wsum l (opt_mset p) + wsum l (opt_mset n) \<le> bl_limit (bc_limits b) l"
  shows "\<exists>b'. bc_replace p n b = Done b'"
  using assms(1)
proof (cases rule: bc_replace_cases)
  case (remove w)
  then show ?thesis by simp
next
  case (insert w)
  have "bc_assert (w_resource w) (int (w_bytes w)) (w_team w) (w_room w) b = None"
    unfolding bc_assert_iff
  proof (rule disjI2, intro allI impI)
    fix k assume "w_hits w k"
    with assms(2) [of k] insert show "bc_level b k + int (w_bytes w) \<le> bl_limit (bc_limits b) k" by simp
  qed
  with insert show ?thesis by (simp add: bc_adjust_def)
next
  case (same u w)
  then have h: "hits (w_resource w) (w_team w) (w_room w) = w_hits u" by (simp add: same_scope_def)
  have "bc_assert (w_resource w) (int (w_bytes w) - int (w_bytes u)) (w_team w) (w_room w) b = None"
    unfolding bc_assert_iff
  proof (rule disjI2, intro allI impI)
    fix k assume k: "w_hits w k"
    with assms(2) [of k] same h
    show "bc_level b k + (int (w_bytes w) - int (w_bytes u)) \<le> bl_limit (bc_limits b) k" by simp
  qed
  with same show ?thesis by (simp add: bc_adjust_def)
next
  case (other u w)
  have "bc_assert (w_resource w) (int (w_bytes w)) (w_team w) (w_room w) (w_unapply u b) = None"
    unfolding bc_assert_iff
  proof (rule disjI2, intro allI impI)
    fix k assume k: "w_hits w k"
    with assms(2) [of k] other
    show "bc_level (w_unapply u b) k + int (w_bytes w) \<le> bl_limit (bc_limits (w_unapply u b)) k"
      by (simp split: if_splits)
  qed
  with other show ?thesis by (simp add: bc_adjust_def)
qed

lemma ec_Done_limits:
  "ec_adjust d t c = Done c' \<Longrightarrow> ec_max c' = ec_max c \<and> ec_max_team c' = ec_max_team c"
  "ec_move f t c = Done c' \<Longrightarrow> ec_max c' = ec_max c \<and> ec_max_team c' = ec_max_team c"
  using ec_adjust_limits [of d t c] ec_move_limits [of f t c] by simp_all

lemma bc_adjust_limits [simp]: "bc_limits (state_of (bc_adjust r d t q b)) = bc_limits b"
  by (simp add: bc_adjust_def split: option.splits)

lemma bc_replace_limits [simp]: "bc_limits (state_of (bc_replace p n b)) = bc_limits b"
proof -
  have add: "bc_limits b2 = bc_limits b1" if "bc_add w b1 = Done b2 \<or> bc_add w b1 = Throws e b2" for w b1 b2 e
    using that bc_adjust_limits [of "w_resource w" "int (w_bytes w)" "w_team w" "w_room w" b1]
    by (metis state_of.simps)
  show ?thesis
    by (cases p; cases n) (auto split: outcome.splits dest!: add [OF disjI1] add [OF disjI2])
qed

context tracked_map begin

lemma bytes_replace_limits: "store_limits (state_of (bytes_replace T p n k s)) = store_limits s"
  by (simp add: bytes_replace_def store_limits_def split: option.splits)

lemma put_limits: "store_limits (tr_put T m s) = store_limits s"
  by (simp add: store_limits_def)

lemma dm_set_limits:
  assumes "dm_set T k v s = Done s'"
  shows "store_limits s' = store_limits s"
proof -
  from assms obtain s1 where 1: "bytes_replace T (jget (tr_get T s) k) (Some v) k s = Done s1"
    by (cases "bytes_replace T (jget (tr_get T s) k) (Some v) k s") (auto simp: dm_set_def Let_def)
  then have l1: "store_limits s1 = store_limits s"
    using bytes_replace_limits [of "jget (tr_get T s) k" "Some v" k s] by simp
  define r where "r = (case jget (tr_get T s) k of None \<Rightarrow> ec_claim (tr_team T v k) (st_cap s1)
              | Some u \<Rightarrow> ec_move (tr_team T u k) (tr_team T v k) (st_cap s1))"
  from assms 1 obtain c where r: "r = Done c"
    and s': "s' = log_mutation (tr_entity T) k (tr_put T (jset k v (tr_get T s1)) (s1\<lparr>st_cap := c\<rparr>))"
    by (cases r) (auto simp: dm_set_def Let_def r_def [symmetric] split: outcome.splits)
  have "ec_max c = ec_max (st_cap s1) \<and> ec_max_team c = ec_max_team (st_cap s1)"
    using r by (auto simp: r_def ec_claim_def split: option.splits dest: ec_Done_limits)
  with l1 show ?thesis by (simp add: s' store_limits_def log_mutation_def)
qed

lemma dm_delete_limits: "store_limits (dm_delete T k s) = store_limits s"
  using bytes_replace_limits
  by (auto simp: dm_delete_def dm_release_def Let_def ec_release_def log_mutation_def store_limits_def split: option.splits)

text \<open>A \<open>set\<close> whose result fits the limits returns.\<close>

lemma dm_set_complete:
  assumes ok: "store_ok s"
    and room: "fits s (entry_teams (tr_put T (jset k v (tr_get T s)) s)) (entry_weights (tr_put T (jset k v (tr_get T s)) s))"
  shows "\<exists>s'. dm_set T k v s = Done s'"
proof -
  let ?m = "jset k v (tr_get T s)"
  have wf: "jwf (tr_get T s)" using ok by (simp add: store_ok_def get_wf)
  obtain Q where Q: "entry_weights s = weights_of T (tr_get T s) + Q"
    and Q': "\<And>m. entry_weights (tr_put T m s) = weights_of T m + Q"
    by (rule weights_split [of s]) blast
  obtain W where W: "weights_of T (tr_get T s)
        = weights_of T (case jget (tr_get T s) k of None \<Rightarrow> [] | Some u \<Rightarrow> [(k, u)]) + W"
    and W': "weights_of T ?m = weights_of T [(k, v)] + W"
    by (rule weights_jset [OF wf, of k v])
  have "\<exists>s1. bytes_replace T (jget (tr_get T s) k) (Some v) k s = Done s1"
  proof (cases "tr_weight T")
    case None
    then show ?thesis by (simp add: bytes_replace_def)
  next
    case (Some w)
    have "\<exists>b'. bc_replace (map_option (\<lambda>u. w u k) (jget (tr_get T s) k)) (Some (w v k)) (st_bytes s) = Done b'"
    proof (rule bc_replace_complete)
      fix l
      have "bc_level (st_bytes s) l = wsum l (entry_weights s)"
        using ok by (simp add: store_ok_def bc_counts_def)
      moreover have "wsum l (entry_weights (tr_put T ?m s)) \<le> bl_limit (bc_limits (st_bytes s)) l"
        using room by (simp add: fits_def)
      ultimately show "bc_level (st_bytes s) l - wsum l (opt_mset (map_option (\<lambda>u. w u k) (jget (tr_get T s) k)))
          + wsum l (opt_mset (Some (w v k))) \<le> bl_limit (bc_limits (st_bytes s)) l"
        unfolding Q Q' W W' wsum_union by (simp add: weights_of_def Some split: option.splits if_splits)
    qed simp
    then show ?thesis by (auto simp: bytes_replace_def Some)
  qed
  then obtain s1 where s1: "bytes_replace T (jget (tr_get T s) k) (Some v) k s = Done s1" by blast
  from bytes_replace_shape [of "jget (tr_get T s) k" "Some v" k s] s1 have cap: "st_cap s1 = st_cap s" by auto
  obtain R where R: "entry_teams s = team_mset T s + R"
    and R': "\<And>m. entry_teams (tr_put T m s) = image_mset (\<lambda>(k, u). tr_team T u k) (mset m) + R"
    by (rule entries_split [of s]) blast
  have cnt: "ec_counts (st_cap s) (image_mset (\<lambda>(k, u). tr_team T u k) (mset (tr_get T s)) + R)"
    using ok by (simp add: store_ok_def R team_mset_def)
  have lim: "int (size (entry_teams (tr_put T ?m s))) \<le> ec_max (st_cap s)"
    "\<And>t. t \<noteq> [] \<Longrightarrow> int (count (entry_teams (tr_put T ?m s)) (Some t)) \<le> ec_max_team (st_cap s)"
    using room by (auto simp: fits_def)
  have "\<exists>c. (case jget (tr_get T s) k of None \<Rightarrow> ec_claim (tr_team T v k) (st_cap s)
              | Some u \<Rightarrow> ec_move (tr_team T u k) (tr_team T v k) (st_cap s)) = Done c"
  proof (cases "jget (tr_get T s) k")
    case None
    have "\<exists>c. ec_claim (tr_team T v k) (st_cap s) = Done c"
    proof (rule ec_claim_complete [OF cnt])
      show "int (size (image_mset (\<lambda>(k, u). tr_team T u k) (mset (tr_get T s)) + R)) + 1 \<le> ec_max (st_cap s)"
        using lim(1) by (simp add: R' mset_jset_new [OF None])
      fix j assume "tr_team T v k = Some j" "j \<noteq> []"
      with lim(2) [of j]
      show "int (count (image_mset (\<lambda>(k, u). tr_team T u k) (mset (tr_get T s)) + R) (Some j)) + 1 \<le> ec_max_team (st_cap s)"
        by (simp add: R' mset_jset_new [OF None])
    qed
    with None show ?thesis by simp
  next
    case (Some u)
    from mset_jdel [OF wf Some] have old: "mset (tr_get T s) = add_mset (k, u) (mset (jdel k (tr_get T s)))" .
    with mset_jset_old [OF Some, of v] have new: "mset ?m = add_mset (k, v) (mset (jdel k (tr_get T s)))"
      by (simp add: add_mset_commute)
    have "\<exists>c. ec_move (tr_team T u k) (tr_team T v k) (st_cap s) = Done c"
    proof (rule ec_move_complete [OF cnt])
      fix j assume j: "tr_team T v k = Some j" "j \<noteq> []" "tr_team T u k \<noteq> tr_team T v k"
      with lim(2) [of j]
      show "int (count (image_mset (\<lambda>(k, u). tr_team T u k) (mset (tr_get T s)) + R) (Some j)) + 1 \<le> ec_max_team (st_cap s)"
        by (simp add: R' new old)
    qed
    with Some show ?thesis by simp
  qed
  then obtain c where "(case jget (tr_get T s) k of None \<Rightarrow> ec_claim (tr_team T v k) (st_cap s1)
              | Some u \<Rightarrow> ec_move (tr_team T u k) (tr_team T v k) (st_cap s1)) = Done c"
    unfolding cap by blast
  with s1 show ?thesis by (simp add: dm_set_def)
qed

text \<open>One entry released from the counters; the map itself is not touched.\<close>

lemma dm_release_ok:
  assumes "ec_counts (st_cap s) (add_mset (tr_team T u k) E)" and "ec_bounded (st_cap s)"
    and "bc_counts (st_bytes s) (weights_of T [(k, u)] + W)" and "bc_bounded (st_bytes s)" and "bc_normal (st_bytes s)"
  obtains c b l where "dm_release T k u s = s\<lparr>st_bytes := b, st_cap := c, st_log := l\<rparr>"
    and "ec_counts c E" and "ec_bounded c" and "bc_counts b W" and "bc_bounded b" and "bc_normal b"
    and "store_limits (s\<lparr>st_bytes := b, st_cap := c, st_log := l\<rparr>) = store_limits s"
proof -
  from ec_release_counts [OF assms(1)] obtain c where
    c: "ec_release (tr_team T u k) (st_cap s) = Done c" "ec_counts c E" by blast
  from c(1) have lim: "ec_max c = ec_max (st_cap s) \<and> ec_max_team c = ec_max_team (st_cap s)"
    unfolding ec_release_def by (rule ec_Done_limits)
  have bounded: "ec_bounded c" using ec_adjust_bounded [OF assms(2)] c(1) unfolding ec_release_def by blast
  have "\<exists>b. bytes_replace T (Some u) None k s = Done (s\<lparr>st_bytes := b\<rparr>)
      \<and> bc_counts b W \<and> bc_bounded b \<and> bc_normal b \<and> bc_limits b = bc_limits (st_bytes s)"
  proof (cases "tr_weight T")
    case None
    with assms show ?thesis by (intro exI [of _ "st_bytes s"]) (simp add: bytes_replace_def weights_of_def)
  next
    case (Some w)
    have r: "bc_replace (Some (w u k)) None (st_bytes s) = Done (w_unapply (w u k) (st_bytes s))" by simp
    have "bc_counts (st_bytes s) (opt_mset (Some (w u k)) + W)"
      using assms(3) by (simp add: weights_of_def Some)
    from bc_replace_counts [OF this r assms(4,5)] bc_replace_Done [OF r assms(4,5)] show ?thesis
      by (intro exI [of _ "w_unapply (w u k) (st_bytes s)"]) (simp add: bytes_replace_def Some)
  qed
  then obtain b where b: "bytes_replace T (Some u) None k s = Done (s\<lparr>st_bytes := b\<rparr>)"
    "bc_counts b W" "bc_bounded b" "bc_normal b" "bc_limits b = bc_limits (st_bytes s)" by blast
  show ?thesis
  proof (rule that)
    show "dm_release T k u s = s\<lparr>st_bytes := b, st_cap := c, st_log := st_log s @ [(tr_entity T, k)]\<rparr>"
      by (simp add: dm_release_def Let_def b(1) c(1) log_mutation_def)
  qed (use b c bounded lim in \<open>simp_all add: store_limits_def\<close>)
qed

lemma dm_clear_loop:
  assumes "ec_counts (st_cap s) (image_mset (\<lambda>(k, u). tr_team T u k) (mset m) + entry_teams s)"
    and "ec_bounded (st_cap s)" and "bc_counts (st_bytes s) (weights_of T m + entry_weights s)"
    and "bc_bounded (st_bytes s)" and "bc_normal (st_bytes s)" and "store_wf s"
  obtains c b l where "fold (\<lambda>(k, u). dm_release T k u) m s = s\<lparr>st_bytes := b, st_cap := c, st_log := l\<rparr>"
    and "store_ok (s\<lparr>st_bytes := b, st_cap := c, st_log := l\<rparr>)"
    and "store_limits (s\<lparr>st_bytes := b, st_cap := c, st_log := l\<rparr>) = store_limits s"
  using assms
proof (induction m arbitrary: s thesis)
  case Nil
  have "weights_of T [] = {#}" by (simp add: weights_of_def split: option.splits)
  with Nil(2-) have "store_ok s" by (simp add: store_ok_def)
  then show ?case by (intro Nil(1) [of "st_log s" "st_cap s" "st_bytes s"]) simp_all
next
  case (Cons e m)
  obtain k u where e: "e = (k, u)" by (cases e)
  have w: "weights_of T (e # m) = weights_of T [(k, u)] + weights_of T m"
    by (simp add: weights_of_def e split: option.splits)
  obtain c b l where step: "dm_release T k u s = s\<lparr>st_bytes := b, st_cap := c, st_log := l\<rparr>"
    and ok: "ec_counts c (image_mset (\<lambda>(k, u). tr_team T u k) (mset m) + entry_teams s)" "ec_bounded c"
      "bc_counts b (weights_of T m + entry_weights s)" "bc_bounded b" "bc_normal b"
    and lim: "store_limits (s\<lparr>st_bytes := b, st_cap := c, st_log := l\<rparr>) = store_limits s"
    by (rule dm_release_ok [of s u k "image_mset (\<lambda>(k, u). tr_team T u k) (mset m) + entry_teams s" "weights_of T m + entry_weights s"])
       (use Cons.prems in \<open>simp_all add: e w [unfolded e] add.assoc\<close>)
  let ?s = "s\<lparr>st_bytes := b, st_cap := c, st_log := l\<rparr>"
  obtain c' b' l' where IH: "fold (\<lambda>(k, u). dm_release T k u) m ?s = ?s\<lparr>st_bytes := b', st_cap := c', st_log := l'\<rparr>"
    "store_ok (?s\<lparr>st_bytes := b', st_cap := c', st_log := l'\<rparr>)"
    "store_limits (?s\<lparr>st_bytes := b', st_cap := c', st_log := l'\<rparr>) = store_limits ?s"
    by (rule Cons.IH [of ?s]) (use ok Cons.prems(7) in simp_all)
  have f: "fold (\<lambda>(k, u). dm_release T k u) (e # m) s = s\<lparr>st_bytes := b', st_cap := c', st_log := l'\<rparr>"
    using IH(1) by (simp add: e step)
  show ?case
    by (rule Cons.prems(1) [OF f]) (use IH(2,3) lim in simp_all)
qed

lemma dm_clear_ok:
  assumes ok: "store_ok s"
  obtains c b l where "dm_clear T s = tr_put T [] s\<lparr>st_bytes := b, st_cap := c, st_log := l\<rparr>"
    and "store_ok (dm_clear T s)" and "store_limits (dm_clear T s) = store_limits s"
proof -
  let ?s = "tr_put T [] s"
  obtain R where R: "entry_teams s = team_mset T s + R"
    and R': "\<And>m. entry_teams (tr_put T m s) = image_mset (\<lambda>(k, u). tr_team T u k) (mset m) + R"
    by (rule entries_split [of s]) blast
  obtain Q where Q: "entry_weights s = weights_of T (tr_get T s) + Q"
    and Q': "\<And>m. entry_weights (tr_put T m s) = weights_of T m + Q"
    by (rule weights_split [of s]) blast
  have w0: "weights_of T [] = {#}" by (simp add: weights_of_def split: option.splits)
  obtain c b l where f: "fold (\<lambda>(k, u). dm_release T k u) (tr_get T s) ?s = ?s\<lparr>st_bytes := b, st_cap := c, st_log := l\<rparr>"
    "store_ok (?s\<lparr>st_bytes := b, st_cap := c, st_log := l\<rparr>)"
    "store_limits (?s\<lparr>st_bytes := b, st_cap := c, st_log := l\<rparr>) = store_limits ?s"
    by (rule dm_clear_loop [of ?s "tr_get T s"])
       (use ok in \<open>simp_all add: store_ok_def R R' [of "[]"] Q Q' [of "[]"] w0 team_mset_def put_wf\<close>)
  show ?thesis
  proof (rule that)
    show "dm_clear T s = ?s\<lparr>st_bytes := b, st_cap := c, st_log := l\<rparr>" using f(1) by (simp add: dm_clear_def)
    then show "store_ok (dm_clear T s)" "store_limits (dm_clear T s) = store_limits s"
      using f(2,3) put_limits [of "[]" s] by simp_all
  qed
qed

lemma entries_by_erase:
  assumes "erase T a = erase T b"
  shows "entry_teams (tr_put T m a) = entry_teams (tr_put T m b)"
    and "entry_weights (tr_put T m a) = entry_weights (tr_put T m b)"
proof -
  have "store_data (tr_put T m s) = tr_put T m (erase T s)" for s
    by (simp add: erase_def put_data)
  with assms have "store_data (tr_put T m a) = store_data (tr_put T m b)" by simp
  then show "entry_teams (tr_put T m a) = entry_teams (tr_put T m b)"
    and "entry_weights (tr_put T m a) = entry_weights (tr_put T m b)"
    by (metis store_data_simps(6,7))+
qed

text \<open>Writing a list of new entries one after another: each fits because the whole does.\<close>

lemma entries_prefix:
  assumes "A \<subseteq># mset m" and "mset m' = A"
  shows "entry_teams (tr_put T m' s) \<subseteq># entry_teams (tr_put T m s)"
    and "entry_weights (tr_put T m' s) \<subseteq># entry_weights (tr_put T m s)"
proof -
  obtain R where R: "\<And>m. entry_teams (tr_put T m s) = image_mset (\<lambda>(k, u). tr_team T u k) (mset m) + R"
    by (rule entries_split [of s]) blast
  obtain Q where Q: "\<And>m. entry_weights (tr_put T m s) = weights_of T m + Q"
    by (rule weights_split [of s]) blast
  have sub: "mset m' \<subseteq># mset m" using assms by simp
  then show "entry_teams (tr_put T m' s) \<subseteq># entry_teams (tr_put T m s)"
    unfolding R by (rule subset_mset.add_right_mono [OF image_mset_subseteq_mono])
  have "weights_of T m' \<subseteq># weights_of T m"
    by (auto simp: weights_of_def split: option.split intro: image_mset_subseteq_mono [OF sub])
  then show "entry_weights (tr_put T m' s) \<subseteq># entry_weights (tr_put T m s)"
    unfolding Q by (rule subset_mset.add_right_mono)
qed

lemma restore_all:
  assumes "store_ok s" and "tr_get T s = pre" and "jwf (pre @ xs)"
    and "fits s (entry_teams (tr_put T (pre @ xs) s)) (entry_weights (tr_put T (pre @ xs) s))"
  shows "\<exists>s'. for_each (\<lambda>(k, v). dm_set T k v) xs s = Done s' \<and> store_ok s' \<and> tr_get T s' = pre @ xs
     \<and> erase T s' = erase T s \<and> store_limits s' = store_limits s"
  using assms
proof (induction xs arbitrary: s pre)
  case Nil
  then show ?case by simp
next
  case (Cons x xs)
  obtain k v where x: "x = (k, v)" by (cases x)
  have "jget pre k = None" using Cons.prems(3) by (auto simp: x map_of_eq_None_iff)
  then have set: "jset k v (tr_get T s) = pre @ [x]" by (simp add: Cons.prems(2) jset_new x)
  have "fits s (entry_teams (tr_put T (jset k v (tr_get T s)) s)) (entry_weights (tr_put T (jset k v (tr_get T s)) s))"
    unfolding set by (rule fits_mono [OF Cons.prems(4)]) (rule entries_prefix; simp)+
  from dm_set_complete [OF Cons.prems(1) this] obtain s1 where s1: "dm_set T k v s = Done s1" by blast
  from dm_set_done [OF Cons.prems(1) s1] have ok: "store_ok s1" and get: "tr_get T s1 = pre @ [x]"
    by (auto simp: set)
  have er: "erase T s1 = erase T s" by (rule dm_set_Done_erase [OF s1])
  have lim: "store_limits s1 = store_limits s" by (rule dm_set_limits [OF s1])
  have fit: "fits s1 (entry_teams (tr_put T ((pre @ [x]) @ xs) s1)) (entry_weights (tr_put T ((pre @ [x]) @ xs) s1))"
    using Cons.prems(4) unfolding entries_by_erase [OF er] fits_limits [OF lim] by simp
  from Cons.IH [OF ok get _ fit] Cons.prems(3) er lim s1 show ?case by (auto simp: x)
qed

end

end
