(* ===== verification/Live.thy ===== *)
theory Live
  imports Store_Rollback
begin

text \<open>
  The live half of the relay: the WebSocket sessions and the socket indexes of
  \<open>InMemoryRelayStore\<close> (apps/relay/src/state.ts), the messages of the protocol
  (packages/protocol/src/relay-messages.ts), and the sending and broadcasting of
  apps/relay/src/ws/fanout.ts. What leaves the relay is the list \<open>lv_out\<close>.
\<close>

section \<open>State\<close>

type_synonym socket = nat

text \<open>
  A \<open>ClientSession\<close> object lives as long as its connection: \<open>lv_sessions\<close> holds every session
  object by its socket, and \<open>cs_registered\<close> says that the \<open>sessions\<close> map still holds it.
\<close>

record client_session =
  cs_socket :: socket
  cs_registered :: bool
  cs_auth :: "auth_session option"
  cs_rate :: string
  cs_team :: "string option"
  cs_room :: "string option"
  cs_user :: "string option"
  cs_device :: "string option"
  cs_token :: "string option"
  cs_teams :: "string list"
  cs_workspace :: bool
  cs_name :: "string option"
  cs_avatar :: "string option"

datatype relay_code = Invalid_message | Message_too_large | Not_joined | Not_active_host | Stale_epoch
  | Application_epoch_expired | Membership_removed | Key_package_invalid | Key_package_unavailable
  | Capacity_exceeded

text \<open>\<open>RelayServerMessage\<close>; an error carries its text, code, message id and team.\<close>

datatype server_message =
    Joined string string
  | Team_subscribed string
  | Workspace_subscribed
  | Invite_requested string string
  | Published string
  | Mls_delivery mls_message
  | Presence_update presence bool
  | Room_updated room
  | Team_updated team
  | Error_message string "relay_code option" "string option" "string option"

datatype wire_event = Send socket server_message | Close socket nat

record live =
  lv_store :: relay_store
  lv_sessions :: "(socket, client_session) jmap"
  lv_open :: "socket list"
  lv_rooms :: "(string, socket list) jmap"
  lv_teams :: "(string, socket list) jmap"
  lv_workspace :: "socket list"
  lv_presence :: "(string, (string, presence) jmap) jmap"
  lv_out :: "wire_event list"

text \<open>The configuration and the primitives of \<open>node:crypto\<close> the relay calls.\<close>

record env =
  en_auth :: bool
  en_debug :: bool
  en_mls :: mls_options
  en_user_cap :: nat
  en_device_cap :: nat
  en_sha256 :: "string \<Rightarrow> string"
  en_verify :: "string \<Rightarrow> string \<Rightarrow> string \<Rightarrow> bool"

section \<open>Sets of sockets\<close>

definition set_add :: "'a \<Rightarrow> 'a list \<Rightarrow> 'a list" where
  "set_add x xs = (if List.member xs x then xs else xs @ [x])"

definition set_remove :: "'a \<Rightarrow> 'a list \<Rightarrow> 'a list" where
  "set_remove x xs = filter (\<lambda>y. y \<noteq> x) xs"

text \<open>\<open>map.get(k) ?? new Set()\<close>, and removing a member, dropping the set when it is empty.\<close>

definition index_of :: "('k, 'a list) jmap \<Rightarrow> 'k \<Rightarrow> 'a list" where
  "index_of m k = (case jget m k of None \<Rightarrow> [] | Some xs \<Rightarrow> xs)"

definition index_add :: "'k \<Rightarrow> 'a \<Rightarrow> ('k, 'a list) jmap \<Rightarrow> ('k, 'a list) jmap" where
  "index_add k x m = jset k (set_add x (index_of m k)) m"

definition index_remove :: "'k \<Rightarrow> 'a \<Rightarrow> ('k, 'a list) jmap \<Rightarrow> ('k, 'a list) jmap" where
  "index_remove k x m =
     (case jget m k of
        None \<Rightarrow> m
      | Some xs \<Rightarrow> if set_remove x xs = [] then jdel k m else jset k (set_remove x xs) m)"

lemma set_set_add [simp]: "set (set_add x xs) = insert x (set xs)"
  by (auto simp: set_add_def)

lemma set_set_remove [simp]: "set (set_remove x xs) = set xs - {x}"
  by (auto simp: set_remove_def)

lemma distinct_set_add [simp, intro]: "distinct xs \<Longrightarrow> distinct (set_add x xs)"
  by (auto simp: set_add_def)

lemma index_of_add [simp]: "index_of (index_add k x m) j = (if j = k then set_add x (index_of m k) else index_of m j)"
  by (simp add: index_add_def index_of_def)

lemma index_of_remove [simp]:
  "index_of (index_remove k x m) j = (if j = k then set_remove x (index_of m k) else index_of m j)"
  by (auto simp: index_remove_def index_of_def set_remove_def split: option.splits)

section \<open>Sending (fanout.ts)\<close>

definition send_raw :: "socket \<Rightarrow> server_message \<Rightarrow> live \<Rightarrow> live" where
  "send_raw k m l = (if List.member (lv_open l) k then l\<lparr>lv_out := lv_out l @ [Send k m]\<rparr> else l)"

definition close_socket :: "socket \<Rightarrow> nat \<Rightarrow> live \<Rightarrow> live" where
  "close_socket k code l = l\<lparr>lv_open := set_remove k (lv_open l), lv_out := lv_out l @ [Close k code]\<rparr>"

text \<open>\<open>sessions.get(socket)\<close>.\<close>

definition registered :: "live \<Rightarrow> socket \<Rightarrow> client_session option" where
  "registered l k =
     (case jget (lv_sessions l) k of None \<Rightarrow> None | Some cs \<Rightarrow> if cs_registered cs then Some cs else None)"

definition session_auth :: "live \<Rightarrow> socket \<Rightarrow> auth_session option" where
  "session_auth l k = (case registered l k of None \<Rightarrow> None | Some cs \<Rightarrow> cs_auth cs)"

text \<open>A failed write poisons the relay: \<open>poisonRelayImpl\<close> closes every client.\<close>

definition poison :: "live \<Rightarrow> live" where
  "poison l = fold (\<lambda>k. close_socket k 1012) (lv_open l) l"

text \<open>With authentication on, nothing is sent to a socket whose account session is not live.\<close>

definition may_receive :: "env \<Rightarrow> int \<Rightarrow> socket \<Rightarrow> live \<Rightarrow> bool" where
  "may_receive e now k l \<longleftrightarrow> \<not> en_auth e \<or>
     (case session_auth l k of None \<Rightarrow> False | Some a \<Rightarrow> is_live_account_session (lv_store l) a now)"

definition send :: "env \<Rightarrow> int \<Rightarrow> socket \<Rightarrow> server_message \<Rightarrow> live \<Rightarrow> live" where
  "send e now k m l = (if may_receive e now k l then send_raw k m l else l)"

definition broadcast :: "env \<Rightarrow> int \<Rightarrow> string \<Rightarrow> server_message \<Rightarrow> live \<Rightarrow> live" where
  "broadcast e now key m l = fold (\<lambda>k. send e now k m) (index_of (lv_rooms l) key) l"

definition broadcast_room_updated :: "env \<Rightarrow> int \<Rightarrow> room \<Rightarrow> live \<Rightarrow> live" where
  "broadcast_room_updated e now r l =
     (let sockets = fold set_add (index_of (lv_teams l) (r_team r))
                      (fold set_add (index_of (lv_rooms l) (room_key (r_team r) (r_id r))) [])
      in fold (\<lambda>k. send e now k (Room_updated r)) sockets l)"

text \<open>\<open>teamRecordForUser\<close> (apps/relay/src/http/teams.ts): the record carries the reader's role.\<close>

definition team_record_for_user :: "relay_store \<Rightarrow> team \<Rightarrow> string option \<Rightarrow> team" where
  "team_record_for_user s t u =
     (case u of
        None \<Rightarrow> t
      | Some v \<Rightarrow> if v = [] then t
          else (case get_team_member s (t_id t) v of None \<Rightarrow> t | Some m \<Rightarrow> t\<lparr>t_role := Some (m_role m)\<rparr>))"

definition session_user_id :: "live \<Rightarrow> socket \<Rightarrow> string option" where
  "session_user_id l k =
     (case registered l k of
        None \<Rightarrow> None
      | Some cs \<Rightarrow> (case cs_auth cs of Some a \<Rightarrow> Some (u_id (as_user a)) | None \<Rightarrow> cs_user cs))"

definition broadcast_workspace_updated :: "env \<Rightarrow> int \<Rightarrow> team \<Rightarrow> live \<Rightarrow> live" where
  "broadcast_workspace_updated e now t l =
     fold (\<lambda>k l.
        let u = session_user_id l k in
        if en_auth e \<and> (\<not> truthy u \<or> \<not> has_team_member (lv_store l) (t_id t) (the u)) then l
        else send e now k (Team_updated (team_record_for_user (lv_store l) t u)) l)
       (lv_workspace l) l"

section \<open>Sending changes only the output\<close>

lemma send_raw_frame [simp]:
  "lv_store (send_raw k m l) = lv_store l" "lv_sessions (send_raw k m l) = lv_sessions l"
  "lv_rooms (send_raw k m l) = lv_rooms l" "lv_teams (send_raw k m l) = lv_teams l"
  "lv_workspace (send_raw k m l) = lv_workspace l" "lv_presence (send_raw k m l) = lv_presence l"
  "lv_open (send_raw k m l) = lv_open l"
  by (simp_all add: send_raw_def)

lemma send_frame [simp]:
  "lv_store (send e n k m l) = lv_store l" "lv_sessions (send e n k m l) = lv_sessions l"
  "lv_rooms (send e n k m l) = lv_rooms l" "lv_teams (send e n k m l) = lv_teams l"
  "lv_workspace (send e n k m l) = lv_workspace l" "lv_presence (send e n k m l) = lv_presence l"
  "lv_open (send e n k m l) = lv_open l"
  by (simp_all add: send_def)

lemma close_frame [simp]:
  "lv_store (close_socket k c l) = lv_store l" "lv_sessions (close_socket k c l) = lv_sessions l"
  "lv_rooms (close_socket k c l) = lv_rooms l" "lv_teams (close_socket k c l) = lv_teams l"
  "lv_workspace (close_socket k c l) = lv_workspace l" "lv_presence (close_socket k c l) = lv_presence l"
  by (simp_all add: close_socket_def)

text \<open>A loop of sends keeps whatever one send keeps.\<close>

lemma fold_inv: "(\<And>x l. f (g x l) = f l) \<Longrightarrow> f (fold g xs l) = f l"
  by (induction xs arbitrary: l) auto

lemma poison_frame [simp]:
  "lv_store (poison l) = lv_store l" "lv_sessions (poison l) = lv_sessions l" "lv_rooms (poison l) = lv_rooms l"
  "lv_teams (poison l) = lv_teams l" "lv_workspace (poison l) = lv_workspace l" "lv_presence (poison l) = lv_presence l"
  by (simp_all add: poison_def fold_inv)

lemma poison_closes_all [simp]: "lv_open (poison l) = []"
proof -
  have "set (lv_open (fold (\<lambda>k. close_socket k 1012) ks l)) = set (lv_open l) - set ks" for ks
    by (induction ks arbitrary: l) (auto simp: close_socket_def)
  then show ?thesis by (simp add: poison_def flip: set_empty)
qed

lemma broadcast_frame [simp]:
  "lv_store (broadcast e n key m l) = lv_store l" "lv_sessions (broadcast e n key m l) = lv_sessions l"
  "lv_rooms (broadcast e n key m l) = lv_rooms l" "lv_teams (broadcast e n key m l) = lv_teams l"
  "lv_workspace (broadcast e n key m l) = lv_workspace l" "lv_presence (broadcast e n key m l) = lv_presence l"
  "lv_open (broadcast e n key m l) = lv_open l"
  by (simp_all add: broadcast_def fold_inv)

lemma broadcast_room_frame [simp]:
  "lv_store (broadcast_room_updated e n r l) = lv_store l" "lv_sessions (broadcast_room_updated e n r l) = lv_sessions l"
  "lv_rooms (broadcast_room_updated e n r l) = lv_rooms l" "lv_teams (broadcast_room_updated e n r l) = lv_teams l"
  "lv_workspace (broadcast_room_updated e n r l) = lv_workspace l"
  "lv_presence (broadcast_room_updated e n r l) = lv_presence l" "lv_open (broadcast_room_updated e n r l) = lv_open l"
  by (simp_all add: broadcast_room_updated_def Let_def fold_inv)

lemma broadcast_workspace_frame [simp]:
  "lv_store (broadcast_workspace_updated e n t l) = lv_store l"
  "lv_sessions (broadcast_workspace_updated e n t l) = lv_sessions l"
  "lv_rooms (broadcast_workspace_updated e n t l) = lv_rooms l"
  "lv_teams (broadcast_workspace_updated e n t l) = lv_teams l"
  "lv_workspace (broadcast_workspace_updated e n t l) = lv_workspace l"
  "lv_presence (broadcast_workspace_updated e n t l) = lv_presence l"
  by (simp_all add: broadcast_workspace_updated_def Let_def fold_inv)

text \<open>Every message a broadcast adds goes to an open socket of the index that may receive it.\<close>

lemma registered_cong: "lv_sessions l = lv_sessions l' \<Longrightarrow> registered l k = registered l' k"
  by (simp add: registered_def)

lemma may_receive_cong:
  assumes "lv_store l = lv_store l'" and "lv_sessions l = lv_sessions l'"
  shows "may_receive e n k l = may_receive e n k l'"
  using assms registered_cong [OF assms(2), of k] by (simp add: may_receive_def session_auth_def cong: option.case_cong)

lemma may_receive_send [simp]:
  "may_receive e n k (send e n' j m l) = may_receive e n k l"
  "may_receive e n k (send_raw j m l) = may_receive e n k l"
  by (rule may_receive_cong; simp)+

lemma send_loop_out:
  "lv_out (fold (\<lambda>k. send e n k m) ks l) =
     lv_out l @ map (\<lambda>k. Send k m) (filter (\<lambda>k. k \<in> set (lv_open l) \<and> may_receive e n k l) ks)"
proof (induction ks arbitrary: l)
  case Nil
  then show ?case by simp
next
  case (Cons k ks)
  have "lv_out (send e n k m l) = lv_out l @ (if k \<in> set (lv_open l) \<and> may_receive e n k l then [Send k m] else [])"
    by (simp add: send_def send_raw_def)
  then show ?case by (simp add: Cons.IH)
qed

lemma broadcast_out:
  "lv_out (broadcast e n key m l) =
     lv_out l @ map (\<lambda>k. Send k m)
       (filter (\<lambda>k. k \<in> set (lv_open l) \<and> may_receive e n k l) (index_of (lv_rooms l) key))"
  by (simp add: broadcast_def send_loop_out)

end
