(* ===== verification/Fanout.thy ===== *)
theory Fanout
  imports Live
begin

text \<open>
  Publishing an MLS message (\<open>publishForRoom\<close> in apps/relay/src/ws/fanout.ts): authority, the
  retry rules, the writes to room, backlog and receipts, the save and its rollback, and the
  fan-out. One call of \<open>publish_for_room\<close> is one turn of the room's queue; the queue itself
  runs the turns one after another.
\<close>

datatype save_result = Saved | Stale_conflict | Save_unavailable

datatype publish_error =
    Refused relay_code
  | Store_failed store_error
  | Room_missing
  | Save_failed

text \<open>A publish ends accepted, accepted before (a retry), or failed.\<close>

datatype publish_result = Accepted | Retried | Failed publish_error

section \<open>Digests and retries\<close>

text \<open>The bytes of a text in UTF-8, for code units below U+0100.\<close>

definition utf8_bytes :: "string \<Rightarrow> string" where
  "utf8_bytes s = concat (map (\<lambda>c. let n = of_char c :: nat in
     if n < 128 then [c] else [char_of (192 + n div 64), char_of (128 + n mod 64)]) s)"

definition retry_digest :: "env \<Rightarrow> mls_message \<Rightarrow> string" where
  "retry_digest e m = en_sha256 e (utf8_bytes
     (if mm_type m = Application then mls_text m else mls_text_without_created m))"

definition same_retry :: "mls_message \<Rightarrow> mls_message \<Rightarrow> bool" where
  "same_retry p n =
     (if mm_type p = Application \<or> mm_type n = Application then mls_text p = mls_text n
      else mls_text_without_created p = mls_text_without_created n)"

definition receipt_key :: "string \<Rightarrow> string \<Rightarrow> string" where
  "receipt_key key message_id = key @ [char_of (0::nat)] @ message_id"

section \<open>Authority\<close>

definition accepted_epoch :: "room \<Rightarrow> nat" where
  "accepted_epoch r = (case r_epoch r of None \<Rightarrow> 0 | Some n \<Rightarrow> n)"

definition is_active_host_message :: "room \<Rightarrow> mls_message \<Rightarrow> bool" where
  "is_active_host_message r m \<longleftrightarrow> r_status r = Host_active
     \<and> r_host_user r = Some (mm_user m) \<and> r_host_device r = Some (mm_device m)"

definition transfer_label :: string where
  "transfer_label = ''multaiplayer:host-transfer-authorization:v2'' @ [char_of (0::nat)]"

definition b64_bytes :: "string \<Rightarrow> string" where
  "b64_bytes s = (case b64_decode s of None \<Rightarrow> [] | Some bs \<Rightarrow> bs)"

definition valid_host_transfer_authorization :: "env \<Rightarrow> relay_store \<Rightarrow> room \<Rightarrow> mls_message \<Rightarrow> bool" where
  "valid_host_transfer_authorization e s r m =
     (case (mm_transfer m, get_device s (mm_user m) (mm_device m)) of
        (Some h, Some d) \<Rightarrow>
          if h_room h \<noteq> mm_room m \<or> h_parent h \<noteq> mm_epoch m
             \<or> h_out_user h \<noteq> mm_user m \<or> h_out_device h \<noteq> mm_device m
             \<or> Some (h_next_user h) \<noteq> mm_next_user m \<or> Some (h_next_device h) \<noteq> mm_next_device m
             \<or> r_host_user r \<noteq> Some (h_out_user h) \<or> r_host_device r \<noteq> Some (h_out_device h)
             \<or> get_team_member s (r_team r) (h_next_user h) = None
             \<or> get_device s (h_next_user h) (h_next_device h) = None
             \<or> h_public_key h \<noteq> d_sig_key d
          then False
          else if en_sha256 e (b64_bytes (mm_mls m)) \<noteq> h_commit h then False
          else en_verify e (b64_bytes (d_sig_key d))
                 (transfer_label @ utf8_bytes (stringify (Jobj (transfer_signed_fields h))))
                 (b64_bytes (h_signature h))
      | _ \<Rightarrow> False)"

text \<open>\<open>validatePublishAuthority\<close>: the code of the refusal, if any.\<close>

definition validate_publish_authority :: "env \<Rightarrow> relay_store \<Rightarrow> room \<Rightarrow> mls_message \<Rightarrow> nat \<Rightarrow> relay_code option" where
  "validate_publish_authority e s r m epoch =
     (if mm_type m = Commit \<and> mm_epoch m \<noteq> epoch then Some Stale_epoch
      else if mm_type m = Application \<and> mm_epoch m > epoch then Some Stale_epoch
      else if mm_type m = Application \<and> int epoch - int (mm_epoch m) > 2 then Some Application_epoch_expired
      else if mm_type m = Commit \<and> \<not> is_active_host_message r m then Some Not_active_host
      else if mm_handoff m \<and> \<not> valid_host_transfer_authorization e s r m then Some Not_active_host
      else None)"

definition room_after_commit :: "room \<Rightarrow> mls_message \<Rightarrow> nat \<Rightarrow> room" where
  "room_after_commit r m epoch =
     (if \<not> mm_handoff m then r\<lparr>r_epoch := Some (epoch + 1)\<rparr>
      else r\<lparr>r_epoch := Some (epoch + 1),
             r_host := (case mm_next_user m of None \<Rightarrow> [] | Some u \<Rightarrow> u),
             r_host_user := mm_next_user m, r_host_device := mm_next_device m,
             r_status := Host_active\<rparr>)"

section \<open>The writes and their rollback\<close>

definition receipt_of :: "env \<Rightarrow> int \<Rightarrow> string \<Rightarrow> mls_message \<Rightarrow> message_receipt" where
  "receipt_of e now key m =
     \<lparr>mr_room = key, mr_message = mm_id m, mr_type = mm_type m, mr_user = mm_user m,
      mr_device = mm_device m, mr_parent = mm_epoch m, mr_digest = retry_digest e m, mr_accepted = Iso now\<rparr>"

text \<open>The writes of the \<open>try\<close> block up to the save.\<close>

definition publish_writes :: "env \<Rightarrow> int \<Rightarrow> string \<Rightarrow> mls_message \<Rightarrow> room \<Rightarrow> relay_store \<Rightarrow> (store_error, relay_store) outcome" where
  "publish_writes e now key m r s =
     (let previous = (case jget (mlsBacklog s) key of None \<Rightarrow> [] | Some ms \<Rightarrow> ms);
          backlog = prune_mls_backlog (en_mls e) now (previous @ [m]) in
      seq (if mm_type m = Commit then set_room (room_after_commit r m (accepted_epoch r)) s else Done s) (\<lambda>s1.
      seq (dm_set backlog_map key backlog s1) (\<lambda>s2.
      seq (dm_set receipt_map (receipt_key key (mm_id m)) (receipt_of e now key m) s2) (\<lambda>s3.
      Done (prune_accepted_receipts now key s3)))))"

text \<open>The \<open>catch\<close> block: backlog, room, and every receipt are written back.\<close>

definition publish_rollback :: "string \<Rightarrow> mls_message list option \<Rightarrow> room \<Rightarrow> (string, message_receipt) jmap
    \<Rightarrow> relay_store \<Rightarrow> (store_error, relay_store) outcome" where
  "publish_rollback key stored r receipts s =
     seq (case stored of Some previous \<Rightarrow> dm_set backlog_map key previous s
          | None \<Rightarrow> Done (dm_delete backlog_map key s)) (\<lambda>s1.
     seq (set_room r s1) (\<lambda>s2.
     for_each (\<lambda>(k, v). dm_set receipt_map k v) receipts (dm_clear receipt_map s2)))"

text \<open>
  A save drains the log of mutations whether it succeeds or not. The error a failure reports: a
  stale epoch is a refusal, a rollback that throws reports its own error.
\<close>

definition publish_fail :: "publish_error \<Rightarrow> string \<Rightarrow> mls_message list option \<Rightarrow> room
    \<Rightarrow> (string, message_receipt) jmap \<Rightarrow> relay_store \<Rightarrow> publish_result \<times> relay_store" where
  "publish_fail err key stored r receipts s =
     (case publish_rollback key stored r receipts s of
        Done s' \<Rightarrow> (Failed err, s')
      | Throws x s' \<Rightarrow> (Failed (Store_failed x), s'))"

definition save_error :: "save_result \<Rightarrow> publish_error option" where
  "save_error r = (case r of Saved \<Rightarrow> None | Stale_conflict \<Rightarrow> Some (Refused Stale_epoch)
     | Save_unavailable \<Rightarrow> Some Save_failed)"

definition publish_commit :: "env \<Rightarrow> int \<Rightarrow> save_result \<Rightarrow> string \<Rightarrow> mls_message \<Rightarrow> room \<Rightarrow> relay_store \<Rightarrow> publish_result \<times> relay_store" where
  "publish_commit e now save key m r s =
     (let fail = (\<lambda>err. publish_fail err key (jget (mlsBacklog s) key) r (acceptedMessageReceipts s)) in
      case publish_writes e now key m r s of
        Throws x s1 \<Rightarrow> fail (Store_failed x) s1
      | Done s1 \<Rightarrow>
          let s2 = discard_durable_mutations s1 in
          case save_error save of None \<Rightarrow> (Accepted, s2) | Some err \<Rightarrow> fail err s2)"

text \<open>
  \<open>publishForRoom\<close> on the store, from the authorization test on. \<open>authorized\<close> is
  \<open>remainsAuthorized()\<close> at that moment.
\<close>

definition publish_store :: "env \<Rightarrow> int \<Rightarrow> save_result \<Rightarrow> bool \<Rightarrow> mls_message \<Rightarrow> relay_store \<Rightarrow> publish_result \<times> relay_store" where
  "publish_store e now save authorized m s =
     (let key = room_key (mm_team m) (mm_room m) in
      if \<not> authorized then (Failed (Refused Not_joined), s)
      else if \<not> is_active_room s (mm_team m) (mm_room m) then (Failed (Refused Not_joined), s)
      else
        case jget (acceptedMessageReceipts s) (receipt_key key (mm_id m)) of
          Some rec \<Rightarrow> if mr_digest rec = retry_digest e m then (Retried, s) else (Failed (Refused Invalid_message), s)
        | None \<Rightarrow>
            let previous = (case jget (mlsBacklog s) key of None \<Rightarrow> [] | Some ms \<Rightarrow> ms) in
            case find (\<lambda>p. mm_id p = mm_id m) previous of
              Some p \<Rightarrow> if same_retry p m then (Retried, s) else (Failed (Refused Invalid_message), s)
            | None \<Rightarrow>
                case jget (rooms s) (mm_room m) of
                  None \<Rightarrow> (Failed Room_missing, s)
                | Some r \<Rightarrow>
                    case validate_publish_authority e s r m (accepted_epoch r) of
                      Some code \<Rightarrow> (Failed (Refused code), s)
                    | None \<Rightarrow> publish_commit e now save key m r s)"

definition fan_out :: "env \<Rightarrow> int \<Rightarrow> mls_message \<Rightarrow> live \<Rightarrow> live" where
  "fan_out e now m l =
     (let l1 = broadcast e now (room_key (mm_team m) (mm_room m)) (Mls_delivery m) l in
      if mm_type m = Commit
      then (case jget (rooms (lv_store l1)) (mm_room m) of
              None \<Rightarrow> l1 | Some r \<Rightarrow> broadcast_room_updated e now r l1)
      else l1)"

text \<open>
  The whole turn: the reclaim before it (which saves on its own), the authorization test (which
  may close the socket that asked), the store, the fan-out.
\<close>

definition publish_for_room :: "env \<Rightarrow> int \<Rightarrow> save_result \<Rightarrow> save_result \<Rightarrow> (live \<Rightarrow> bool \<times> live) \<Rightarrow> mls_message \<Rightarrow> live \<Rightarrow> publish_result \<times> live" where
  "publish_for_room e now reclaim_save save authorized m l =
     (case prune_expired_state (en_mls e) now (lv_store l) of
        Throws x s \<Rightarrow> (Failed (Store_failed x), l\<lparr>lv_store := s\<rparr>)
      | Done s0 \<Rightarrow>
          let l0 = l\<lparr>lv_store := discard_durable_mutations s0\<rparr> in
          if reclaim_save \<noteq> Saved then (Failed Save_failed, poison l0)
          else (case authorized l0 of
            (still, l1) \<Rightarrow>
              (case publish_store e now save still m (lv_store l1) of
                 (r, s) \<Rightarrow>
                    let l2 = l1\<lparr>lv_store := s\<rparr> in
                    (r, if r = Accepted then fan_out e now m l2
                        else if r = Failed Save_failed then poison l2 else l2))))"

section \<open>Presence (publishPresence)\<close>

definition verified_presence :: "relay_store \<Rightarrow> presence \<Rightarrow> presence" where
  "verified_presence s p =
     (case get_device s (p_user p) (p_device p) of
        Some d \<Rightarrow> if d_sig_fp d \<noteq> [] then p\<lparr>p_fp := Some (d_sig_fp d)\<rparr> else p
      | None \<Rightarrow> p)"

definition publish_presence :: "env \<Rightarrow> int \<Rightarrow> socket \<Rightarrow> string \<Rightarrow> string \<Rightarrow> presence \<Rightarrow> live \<Rightarrow> live" where
  "publish_presence e now k team room p l =
     (let upd = (\<lambda>cs. cs\<lparr>cs_name := Some (p_display p),
                         cs_avatar := (if truthy (p_avatar p) then p_avatar p else None)\<rparr>);
          sessions = (case jget (lv_sessions l) k of None \<Rightarrow> lv_sessions l | Some cs \<Rightarrow> jset k (upd cs) (lv_sessions l));
          v = verified_presence (lv_store l) p;
          key = room_key team room;
          roster = (case jget (lv_presence l) key of None \<Rightarrow> [] | Some ps \<Rightarrow> ps);
          l1 = l\<lparr>lv_sessions := sessions, lv_presence := jset key (jset (p_device v) v roster) (lv_presence l)\<rparr>
      in broadcast e now key (Presence_update v True) l1)"

end
