(* ===== verification/Fanout_Proofs.thy ===== *)
theory Fanout_Proofs
  imports Fanout
begin

text \<open>
  What publishing guarantees: only the active host advances an epoch, by one, at the epoch the
  relay holds; a failed publish changes nothing; a retry is recognised; the retained backlog and
  the receipts stay within their bounds.
\<close>

section \<open>What the writes change\<close>

lemma delete_excess_erase: "erase receipt_map (delete_excess ps receipt_map s) = erase receipt_map s"
  unfolding delete_excess_def by (rule receipt_tm.erase_fold) (rule receipt_tm.delete_keys_erase)

lemma prune_accepted_receipts_erase: "erase receipt_map (prune_accepted_receipts now key s) = erase receipt_map s"
  by (simp add: prune_accepted_receipts_def Let_def receipt_tm.delete_keys_erase delete_excess_erase)

text \<open>Reading a field through \<open>erase\<close>.\<close>

lemma erase_receipt_fields:
  assumes "erase receipt_map s = erase receipt_map s'"
  shows "rooms s = rooms s'" "mlsBacklog s = mlsBacklog s'" "teams s = teams s'" "teamMembers s = teamMembers s'"
    "devices s = devices s'"
  using arg_cong [OF assms, of rooms] arg_cong [OF assms, of mlsBacklog] arg_cong [OF assms, of teams]
    arg_cong [OF assms, of teamMembers] arg_cong [OF assms, of devices]
  by (simp_all add: erase_def store_data_def map_defs)

lemma erase_backlog_fields:
  assumes "erase backlog_map s = erase backlog_map s'"
  shows "rooms s = rooms s'" "acceptedMessageReceipts s = acceptedMessageReceipts s'" "teams s = teams s'"
    "teamMembers s = teamMembers s'" "devices s = devices s'"
  using arg_cong [OF assms, of rooms] arg_cong [OF assms, of acceptedMessageReceipts] arg_cong [OF assms, of teams]
    arg_cong [OF assms, of teamMembers] arg_cong [OF assms, of devices]
  by (simp_all add: erase_def store_data_def map_defs)

lemma erase_room_fields:
  assumes "erase room_map s = erase room_map s'"
  shows "mlsBacklog s = mlsBacklog s'" "acceptedMessageReceipts s = acceptedMessageReceipts s'" "teams s = teams s'"
    "teamMembers s = teamMembers s'" "devices s = devices s'"
  using arg_cong [OF assms, of mlsBacklog] arg_cong [OF assms, of acceptedMessageReceipts] arg_cong [OF assms, of teams]
    arg_cong [OF assms, of teamMembers] arg_cong [OF assms, of devices]
  by (simp_all add: erase_def store_data_def map_defs)

lemma get_maps [simp]:
  "tr_get room_map = rooms" "tr_get backlog_map = mlsBacklog" "tr_get receipt_map = acceptedMessageReceipts"
  by (simp_all add: map_defs)

lemma set_room_Done:
  assumes "set_room r s = Done s'"
  shows "rooms s' = jset (r_id r) r (rooms s)" "erase room_map s' = erase room_map s"
  using room_tm.dm_set_get [of "r_id r" r s s'] room_tm.dm_set_Done_erase [of "r_id r" r s s'] assms
  by (simp_all add: set_room_def)

abbreviation old_backlog :: "relay_store \<Rightarrow> string \<Rightarrow> mls_message list" where
  "old_backlog s key \<equiv> (case jget (mlsBacklog s) key of None \<Rightarrow> [] | Some ms \<Rightarrow> ms)"

lemma publish_writes_Done:
  assumes "publish_writes e now key m r s = Done s'"
  shows "rooms s' = (if mm_type m = Commit then jset (r_id r) (room_after_commit r m (accepted_epoch r)) (rooms s) else rooms s)"
    and "mlsBacklog s' = jset key (prune_mls_backlog (en_mls e) now (old_backlog s key @ [m])) (mlsBacklog s)"
    and "teams s' = teams s" and "teamMembers s' = teamMembers s" and "devices s' = devices s"
    and "\<exists>s3. s' = prune_accepted_receipts now key s3 \<and> acceptedMessageReceipts s3 =
           jset (receipt_key key (mm_id m)) (receipt_of e now key m) (acceptedMessageReceipts s) \<and> (store_ok s \<longrightarrow> store_ok s3)"
proof -
  from assms obtain s1 s2 s3 where
    1: "(if mm_type m = Commit then set_room (room_after_commit r m (accepted_epoch r)) s else Done s) = Done s1"
    and 2: "dm_set backlog_map key (prune_mls_backlog (en_mls e) now (old_backlog s key @ [m])) s1 = Done s2"
    and 3: "dm_set receipt_map (receipt_key key (mm_id m)) (receipt_of e now key m) s2 = Done s3"
    and s': "s' = prune_accepted_receipts now key s3"
    by (auto simp: publish_writes_def Let_def elim!: seq_DoneE)
  have rid: "r_id (room_after_commit r m n) = r_id r" for n by (simp add: room_after_commit_def)
  have r1: "rooms s1 = (if mm_type m = Commit then jset (r_id r) (room_after_commit r m (accepted_epoch r)) (rooms s) else rooms s)"
    and e1: "erase room_map s1 = erase room_map s"
    using 1 set_room_Done [of _ s s1] rid by (auto split: if_splits)
  note f1 = erase_room_fields [OF e1]
  note g2 = backlog_tm.dm_set_get [OF 2, simplified] and f2 = erase_backlog_fields [OF backlog_tm.dm_set_Done_erase [OF 2]]
  note g3 = receipt_tm.dm_set_get [OF 3, simplified] and f3 = erase_receipt_fields [OF receipt_tm.dm_set_Done_erase [OF 3]]
  note f4 = erase_receipt_fields [OF prune_accepted_receipts_erase [of now key s3]]
  show "rooms s' = (if mm_type m = Commit then jset (r_id r) (room_after_commit r m (accepted_epoch r)) (rooms s) else rooms s)"
    "mlsBacklog s' = jset key (prune_mls_backlog (en_mls e) now (old_backlog s key @ [m])) (mlsBacklog s)"
    "teams s' = teams s" "teamMembers s' = teamMembers s" "devices s' = devices s"
    using r1 f1 g2 f2 f3 f4 by (simp_all add: s')
  have "store_ok s3" if "store_ok s"
  proof -
    have "store_ok s1" using 1 that room_tm.dm_set_done by (auto simp: set_room_def split: if_splits)
    then show ?thesis using backlog_tm.dm_set_done [OF _ 2] receipt_tm.dm_set_done [OF _ 3] by blast
  qed
  then show "\<exists>s3. s' = prune_accepted_receipts now key s3 \<and> acceptedMessageReceipts s3 =
           jset (receipt_key key (mm_id m)) (receipt_of e now key m) (acceptedMessageReceipts s)
           \<and> (store_ok s \<longrightarrow> store_ok s3)"
    using s' g3 f2 f1 by auto
qed

section \<open>Who may advance an epoch\<close>

lemma publish_store_AcceptedE:
  assumes "publish_store e now save authorized m s = (Accepted, s')"
  obtains r s1 where "authorized" and "is_active_room s (mm_team m) (mm_room m)"
    and "jget (acceptedMessageReceipts s) (receipt_key (room_key (mm_team m) (mm_room m)) (mm_id m)) = None"
    and "find (\<lambda>p. mm_id p = mm_id m) (old_backlog s (room_key (mm_team m) (mm_room m))) = None"
    and "jget (rooms s) (mm_room m) = Some r"
    and "validate_publish_authority e s r m (accepted_epoch r) = None"
    and "publish_writes e now (room_key (mm_team m) (mm_room m)) m r s = Done s1"
    and "s' = discard_durable_mutations s1" and "save = Saved"
proof -
  have no: "publish_commit e now save k m r s = (Accepted, s') \<Longrightarrow>
      \<exists>s1. publish_writes e now k m r s = Done s1 \<and> s' = discard_durable_mutations s1 \<and> save = Saved" for k r
    by (auto simp: publish_commit_def Let_def publish_fail_def save_error_def split: outcome.splits save_result.splits)
  show ?thesis
    using assms that
    by (auto simp: publish_store_def Let_def split: if_splits option.splits dest!: no)
qed

lemma validate_None:
  assumes "validate_publish_authority e s r m n = None"
  shows "mm_type m = Commit \<Longrightarrow> mm_epoch m = n \<and> is_active_host_message r m"
    and "mm_type m = Application \<Longrightarrow> mm_epoch m \<le> n \<and> n \<le> mm_epoch m + 2"
    and "mm_handoff m \<Longrightarrow> valid_host_transfer_authorization e s r m"
  using assms by (auto simp: validate_publish_authority_def split: if_splits)

lemma discard_fields [simp]:
  "rooms (discard_durable_mutations s) = rooms s" "mlsBacklog (discard_durable_mutations s) = mlsBacklog s"
  "acceptedMessageReceipts (discard_durable_mutations s) = acceptedMessageReceipts s"
  "teams (discard_durable_mutations s) = teams s" "teamMembers (discard_durable_mutations s) = teamMembers s"
  "devices (discard_durable_mutations s) = devices s"
  by (simp_all add: discard_durable_mutations_def)

text \<open>
  C1: A Commit is accepted only in an active room, from the active host's user and device, at
  exactly the epoch the relay has accepted; accepting it advances that room's epoch by one.
\<close>

theorem commit_advances_epoch_by_active_host:
  assumes "publish_store e now save authorized m s = (Accepted, s')" and "mm_type m = Commit"
  shows "\<exists>r r'. jget (rooms s) (mm_room m) = Some r \<and> is_active_room s (mm_team m) (mm_room m)
     \<and> r_status r = Host_active \<and> r_host_user r = Some (mm_user m) \<and> r_host_device r = Some (mm_device m)
     \<and> mm_epoch m = accepted_epoch r
     \<and> jget (rooms s') (r_id r) = Some r' \<and> accepted_epoch r' = accepted_epoch r + 1"
proof -
  from assms(1) obtain r s1 where r: "jget (rooms s) (mm_room m) = Some r" "is_active_room s (mm_team m) (mm_room m)"
    and v: "validate_publish_authority e s r m (accepted_epoch r) = None"
    and w: "publish_writes e now (room_key (mm_team m) (mm_room m)) m r s = Done s1"
    and s': "s' = discard_durable_mutations s1"
    by (rule publish_store_AcceptedE)
  from validate_None(1) [OF v assms(2)] r publish_writes_Done(1) [OF w] s' assms(2) show ?thesis
    by (auto simp: is_active_host_message_def room_after_commit_def accepted_epoch_def)
qed

text \<open>
  C2: A host handoff is accepted only with an authorization signed under the device key the relay
  holds for the current host, for this Commit, this epoch and the named member's device.
\<close>

theorem handoff_is_signed_by_current_host:
  assumes "publish_store e now save authorized m s = (Accepted, s')" and "mm_handoff m"
  shows "\<exists>r h d. jget (rooms s) (mm_room m) = Some r \<and> mm_transfer m = Some h
     \<and> get_device s (mm_user m) (mm_device m) = Some d
     \<and> r_host_user r = Some (mm_user m) \<and> r_host_device r = Some (mm_device m)
     \<and> h_parent h = mm_epoch m
     \<and> mm_next_user m = Some (h_next_user h) \<and> mm_next_device m = Some (h_next_device h)
     \<and> has_team_member s (r_team r) (h_next_user h)
     \<and> get_device s (h_next_user h) (h_next_device h) \<noteq> None
     \<and> h_commit h = en_sha256 e (b64_bytes (mm_mls m))
     \<and> en_verify e (b64_bytes (d_sig_key d))
         (transfer_label @ utf8_bytes (stringify (Jobj (transfer_signed_fields h)))) (b64_bytes (h_signature h))"
proof -
  from assms(1) obtain r where r: "jget (rooms s) (mm_room m) = Some r"
    and v: "validate_publish_authority e s r m (accepted_epoch r) = None"
    by (rule publish_store_AcceptedE)
  from validate_None(3) [OF v assms(2)] r show ?thesis
    by (auto simp: valid_host_transfer_authorization_def has_team_member_iff split: option.splits if_splits)
qed

text \<open>
  An application message is accepted only from the accepted epoch or the two before it, and
  leaves every room unchanged.
\<close>

theorem application_epoch_window:
  assumes "publish_store e now save authorized m s = (Accepted, s')" and "mm_type m = Application"
  shows "rooms s' = rooms s \<and> (\<exists>r. jget (rooms s) (mm_room m) = Some r
     \<and> mm_epoch m \<le> accepted_epoch r \<and> accepted_epoch r \<le> mm_epoch m + 2)"
proof -
  from assms(1) obtain r s1 where r: "jget (rooms s) (mm_room m) = Some r"
    and v: "validate_publish_authority e s r m (accepted_epoch r) = None"
    and w: "publish_writes e now (room_key (mm_team m) (mm_room m)) m r s = Done s1"
    and s': "s' = discard_durable_mutations s1"
    by (rule publish_store_AcceptedE)
  from validate_None(2) [OF v assms(2)] r publish_writes_Done(1) [OF w] s' assms(2) show ?thesis by simp
qed

section \<open>A failed publish changes nothing\<close>

text \<open>
  The states a publish may be in when it fails: only room, backlog and receipts differ from the
  store it started from.
\<close>

definition mid_publish :: "string \<Rightarrow> room \<Rightarrow> relay_store \<Rightarrow> relay_store \<Rightarrow> bool" where
  "mid_publish key r s t \<longleftrightarrow> store_ok t \<and> store_limits t = store_limits s
     \<and> (\<exists>rc ms. store_data t = store_data s\<lparr>rooms := rc, mlsBacklog := ms, acceptedMessageReceipts := acceptedMessageReceipts t\<rparr>
        \<and> (rc = rooms s \<or> (\<exists>x. rc = jset (r_id r) x (rooms s) \<and> r_team x = r_team r))
        \<and> (ms = mlsBacklog s \<or> (\<exists>b. ms = jset key b (mlsBacklog s))))"

lemma delete_keys_limits: "store_limits (delete_keys receipt_map ks s) = store_limits s"
  unfolding delete_keys_def by (induction ks arbitrary: s) (auto simp: receipt_tm.dm_delete_limits)

lemma delete_excess_limits: "store_limits (delete_excess ps receipt_map s) = store_limits s"
proof -
  have "store_limits (fold (\<lambda>pool. delete_keys receipt_map (map fst (excess max_receipts pool))) qs s) = store_limits s" for qs s
    by (induction qs arbitrary: s) (auto simp: delete_keys_limits)
  then show ?thesis by (simp add: delete_excess_def)
qed

lemma prune_accepted_receipts_limits: "store_limits (prune_accepted_receipts now key s) = store_limits s"
  by (simp add: prune_accepted_receipts_def Let_def delete_excess_limits delete_keys_limits)

lemma receipts_data:
  assumes "erase receipt_map a = erase receipt_map b"
  shows "store_data a = store_data b\<lparr>acceptedMessageReceipts := acceptedMessageReceipts a\<rparr>"
proof -
  have "erase receipt_map a = store_data a\<lparr>acceptedMessageReceipts := []\<rparr>"
    "erase receipt_map b = store_data b\<lparr>acceptedMessageReceipts := []\<rparr>"
    by (simp_all add: erase_def receipt_map_def)
  with assms have "store_data a\<lparr>acceptedMessageReceipts := []\<rparr>\<lparr>acceptedMessageReceipts := acceptedMessageReceipts a\<rparr>
      = store_data b\<lparr>acceptedMessageReceipts := []\<rparr>\<lparr>acceptedMessageReceipts := acceptedMessageReceipts a\<rparr>" by simp
  then show ?thesis by (simp add: store_data_def)
qed

lemma publish_writes_mid:
  assumes ok: "store_ok s"
  shows "mid_publish key r s (state_of (publish_writes e now key m r s))"
proof -
  let ?backlog = "prune_mls_backlog (en_mls e) now (old_backlog s key @ [m])"
  have start: "mid_publish key r s s"
    using ok by (auto simp: mid_publish_def store_data_def intro!: exI [of _ "rooms s"] exI [of _ "mlsBacklog s"])
  have room: "\<exists>rc. store_data s1 = store_data s\<lparr>rooms := rc\<rparr> \<and> store_ok s1 \<and> store_limits s1 = store_limits s
      \<and> (rc = rooms s \<or> (\<exists>x. rc = jset (r_id r) x (rooms s) \<and> r_team x = r_team r))"
    if "(if mm_type m = Commit then set_room (room_after_commit r m (accepted_epoch r)) s else Done s) = Done s1" for s1
  proof (cases "mm_type m = Commit")
    case True
    with that have set: "dm_set room_map (r_id r) (room_after_commit r m (accepted_epoch r)) s = Done s1"
      by (simp add: set_room_def room_after_commit_def split: if_splits)
    have "r_team (room_after_commit r m (accepted_epoch r)) = r_team r" by (simp add: room_after_commit_def)
    with room_tm.dm_set_data [OF set] room_tm.dm_set_done [OF ok set] room_tm.dm_set_limits [OF set] show ?thesis
      by (intro exI [of _ "jset (r_id r) (room_after_commit r m (accepted_epoch r)) (rooms s)"]) (auto simp: room_map_def)
  next
    case False
    with that ok show ?thesis by (intro exI [of _ "rooms s"]) (simp add: store_data_def)
  qed
  show ?thesis
  proof (cases "if mm_type m = Commit then set_room (room_after_commit r m (accepted_epoch r)) s else Done s")
    case (Throws x t)
    then have "set_room (room_after_commit r m (accepted_epoch r)) s = Throws x t" by (auto split: if_splits)
    then have "t = s" using room_tm.dm_set_throws [OF ok] by (simp add: set_room_def)
    with Throws start show ?thesis by (simp add: publish_writes_def Let_def)
  next
    case (Done s1)
    from room [OF Done] obtain rc where s1: "store_data s1 = store_data s\<lparr>rooms := rc\<rparr>" "store_ok s1"
      "store_limits s1 = store_limits s" "rc = rooms s \<or> (\<exists>x. rc = jset (r_id r) x (rooms s) \<and> r_team x = r_team r)" by blast
    have same: "mlsBacklog s1 = mlsBacklog s" "acceptedMessageReceipts s1 = acceptedMessageReceipts s"
      using arg_cong [OF s1(1), of mlsBacklog] arg_cong [OF s1(1), of acceptedMessageReceipts] by (simp_all add: store_data_def)
    have m1: "mid_publish key r s s1"
      using s1 same by (auto simp: mid_publish_def store_data_def intro!: exI [of _ rc] exI [of _ "mlsBacklog s"])
    show ?thesis
    proof (cases "dm_set backlog_map key ?backlog s1")
      case (Throws x t)
      with backlog_tm.dm_set_throws [OF s1(2) Throws] Done m1 show ?thesis by (simp add: publish_writes_def Let_def)
    next
      case Done2: (Done s2)
      have d2: "store_data s2 = store_data s\<lparr>rooms := rc, mlsBacklog := jset key ?backlog (mlsBacklog s)\<rparr>"
        using backlog_tm.dm_set_data [OF Done2] s1(1) same by (simp add: backlog_map_def)
      have ok2: "store_ok s2" "store_limits s2 = store_limits s"
        using backlog_tm.dm_set_done [OF s1(2) Done2] backlog_tm.dm_set_limits [OF Done2] s1(3) by auto
      have mid: "mid_publish key r s t" if "erase receipt_map t = erase receipt_map s2" "store_ok t" "store_limits t = store_limits s2" for t
        using receipts_data [OF that(1)] that(2,3) d2 ok2 s1(4)
        by (auto simp: mid_publish_def intro!: exI [of _ rc] exI [of _ "jset key ?backlog (mlsBacklog s)"])
      show ?thesis
      proof (cases "dm_set receipt_map (receipt_key key (mm_id m)) (receipt_of e now key m) s2")
        case (Throws x t)
        with receipt_tm.dm_set_throws [OF ok2(1) Throws] Done Done2 mid [of s2] ok2 show ?thesis
          by (simp add: publish_writes_def Let_def)
      next
        case Done3: (Done s3)
        have "mid_publish key r s (prune_accepted_receipts now key s3)"
          using receipt_tm.dm_set_done [OF ok2(1) Done3] receipt_tm.dm_set_Done_erase [OF Done3] receipt_tm.dm_set_limits [OF Done3]
          by (intro mid) (simp_all add: prune_accepted_receipts_erase prune_accepted_receipts_ok prune_accepted_receipts_limits)
        with Done Done2 Done3 show ?thesis by (simp add: publish_writes_def Let_def)
      qed
    qed
  qed
qed

text \<open>The entries of a map whose values changed but not the teams they count for.\<close>

lemma jset_same: "jget m k = Some u \<Longrightarrow> jset k u m = m"
  unfolding jset_def by (induction m) (auto split: if_splits)

lemma map_fst_jset_old: "jget m k = Some u \<Longrightarrow> map fst (jset k v m) = map fst m"
  unfolding jset_def by (induction m) (auto split: if_splits)

lemma backlog_teams:
  assumes "map fst m = map fst m'"
  shows "image_mset (\<lambda>(k, u). tr_team backlog_map u k) (mset m) = image_mset (\<lambda>(k, u). tr_team backlog_map u k) (mset m')"
proof -
  have "image_mset (\<lambda>(k, u). tr_team backlog_map u k) (mset xs) = image_mset (\<lambda>k. Some (team_from_room_key k)) (mset (map fst xs))" for xs
    by (simp add: backlog_map_def image_mset.compositionality comp_def case_prod_unfold)
  with assms show ?thesis by metis
qed

lemma room_teams:
  assumes "jget m k = Some x" and "r_team x = r_team r"
  shows "image_mset (\<lambda>(k, u). tr_team room_map u k) (mset (jset k r m)) = image_mset (\<lambda>(k, u). tr_team room_map u k) (mset m)"
proof -
  from mset_jset_old [OF assms(1), of r]
  have "image_mset (\<lambda>(k, u). tr_team room_map u k) (add_mset (k, x) (mset (jset k r m)))
      = image_mset (\<lambda>(k, u). tr_team room_map u k) (add_mset (k, r) (mset m))" by simp
  with assms(2) show ?thesis by (simp add: room_map_def)
qed

lemma limits_of_data:
  "store_data a = store_data b \<Longrightarrow> entry_teams a = entry_teams b \<and> entry_weights a = entry_weights b"
  by (metis store_data_simps(6,7))

text \<open>Writing the old backlog back cannot fail, and restores it.\<close>

lemma rollback_backlog:
  assumes ok: "store_ok s" and mid: "mid_publish key r s t"
  shows "\<exists>t'. (case jget (mlsBacklog s) key of Some previous \<Rightarrow> dm_set backlog_map key previous t
          | None \<Rightarrow> Done (dm_delete backlog_map key t)) = Done t'
      \<and> mid_publish key r s t' \<and> mlsBacklog t' = mlsBacklog s"
proof -
  from mid obtain rc ms where t: "store_ok t" "store_limits t = store_limits s"
    and data: "store_data t = store_data s\<lparr>rooms := rc, mlsBacklog := ms, acceptedMessageReceipts := acceptedMessageReceipts t\<rparr>"
    and rc: "rc = rooms s \<or> (\<exists>x. rc = jset (r_id r) x (rooms s) \<and> r_team x = r_team r)"
    and ms: "ms = mlsBacklog s \<or> (\<exists>b. ms = jset key b (mlsBacklog s))"
    by (auto simp: mid_publish_def)
  have mt: "mlsBacklog t = ms" using arg_cong [OF data, of mlsBacklog] by (simp add: store_data_def)
  have wf: "jwf (mlsBacklog s)" using ok by (simp add: store_ok_def store_wf_def)
  show ?thesis
  proof (cases "jget (mlsBacklog s) key")
    case None
    let ?t = "dm_delete backlog_map key t"
    have old: "jdel key ms = mlsBacklog s" using ms None by (auto simp: jdel_absent jdel_jset_new)
    have d: "store_data ?t = store_data s\<lparr>rooms := rc, mlsBacklog := mlsBacklog s, acceptedMessageReceipts := acceptedMessageReceipts t\<rparr>"
      using backlog_tm.dm_delete_data [of key t] data old mt by (simp add: backlog_map_def)
    have "acceptedMessageReceipts ?t = acceptedMessageReceipts t" "mlsBacklog ?t = mlsBacklog s"
      using arg_cong [OF d, of acceptedMessageReceipts] arg_cong [OF d, of mlsBacklog] by (simp_all add: store_data_def)
    with d rc t None show ?thesis
      by (auto simp: mid_publish_def backlog_tm.dm_delete_ok backlog_tm.dm_delete_limits
          intro!: exI [of _ rc] exI [of _ "mlsBacklog s"])
  next
    case (Some previous)
    have old: "jset key previous ms = mlsBacklog s"
      using ms Some wf by (auto simp: jset_jset_restore jset_same)
    have keys: "map fst (mlsBacklog s) = map fst ms"
      using ms Some by (auto simp: map_fst_jset_old)
    have teams: "entry_teams (tr_put backlog_map (mlsBacklog s) t) = entry_teams t"
    proof -
      obtain R where R: "entry_teams t = team_mset backlog_map t + R"
        and R': "\<And>m. entry_teams (tr_put backlog_map m t) = image_mset (\<lambda>(k, u). tr_team backlog_map u k) (mset m) + R"
        by (rule backlog_tm.entries_split [of t]) blast
      show ?thesis unfolding R R' team_mset_def get_maps mt by (simp only: backlog_teams [OF keys])
    qed
    have weights: "entry_weights (tr_put backlog_map (mlsBacklog s) t) = entry_weights s"
    proof -
      have "attachmentBlobs t = attachmentBlobs s" using arg_cong [OF data, of attachmentBlobs] by (simp add: store_data_def)
      then show ?thesis by (simp add: entry_weights_def weights_of_def map_defs)
    qed
    have "fits t (entry_teams t) (entry_weights s)"
      using store_ok_fits [OF t(1)] store_ok_fits [OF ok] fits_limits [OF t(2)] by (simp add: fits_def)
    with teams weights old mt have "fits t (entry_teams (tr_put backlog_map (jset key previous (tr_get backlog_map t)) t))
        (entry_weights (tr_put backlog_map (jset key previous (tr_get backlog_map t)) t))" by simp
    from backlog_tm.dm_set_complete [OF t(1) this] obtain t' where t': "dm_set backlog_map key previous t = Done t'" by blast
    have d: "store_data t' = store_data s\<lparr>rooms := rc, mlsBacklog := mlsBacklog s, acceptedMessageReceipts := acceptedMessageReceipts t\<rparr>"
      using backlog_tm.dm_set_data [OF t'] data old mt by (simp add: backlog_map_def)
    have f: "acceptedMessageReceipts t' = acceptedMessageReceipts t" "mlsBacklog t' = mlsBacklog s"
      using arg_cong [OF d, of acceptedMessageReceipts] arg_cong [OF d, of mlsBacklog] by (simp_all add: store_data_def)
    have "mid_publish key r s t'"
      unfolding mid_publish_def
      using d f rc t backlog_tm.dm_set_done [OF t(1) t'] backlog_tm.dm_set_limits [OF t']
      by (intro conjI exI [of _ rc] exI [of _ "mlsBacklog s"]) auto
    with t' f Some show ?thesis by simp
  qed
qed

text \<open>So does the old room: it counts for the same team as the new one.\<close>

lemma rollback_room:
  assumes ok: "store_ok s" and mid: "mid_publish key r s t" and ms: "mlsBacklog t = mlsBacklog s"
    and r: "jget (rooms s) (r_id r) = Some r"
  shows "\<exists>t'. set_room r t = Done t' \<and> store_ok t' \<and> store_limits t' = store_limits s
      \<and> erase receipt_map t' = erase receipt_map s"
proof -
  from mid obtain rc ms' where t: "store_ok t" "store_limits t = store_limits s"
    and data: "store_data t = store_data s\<lparr>rooms := rc, mlsBacklog := ms', acceptedMessageReceipts := acceptedMessageReceipts t\<rparr>"
    and rc: "rc = rooms s \<or> (\<exists>x. rc = jset (r_id r) x (rooms s) \<and> r_team x = r_team r)"
    by (auto simp: mid_publish_def)
  have mt: "rooms t = rc" "ms' = mlsBacklog s"
    using arg_cong [OF data, of rooms] arg_cong [OF data, of mlsBacklog] ms by (simp_all add: store_data_def)
  have wf: "jwf (rooms s)" using ok by (simp add: store_ok_def store_wf_def)
  have old: "jset (r_id r) r rc = rooms s" using rc r wf by (auto simp: jset_jset_restore jset_same)
  obtain x where x: "jget rc (r_id r) = Some x" "r_team x = r_team r" using rc r by auto
  have teams: "entry_teams (tr_put room_map (jset (r_id r) r rc) t) = entry_teams t"
  proof -
    obtain R where R: "entry_teams t = team_mset room_map t + R"
      and R': "\<And>m. entry_teams (tr_put room_map m t) = image_mset (\<lambda>(k, u). tr_team room_map u k) (mset m) + R"
      by (rule room_tm.entries_split [of t]) blast
    show ?thesis unfolding R R' team_mset_def get_maps mt by (simp only: room_teams [OF x])
  qed
  have weights: "entry_weights (tr_put room_map m t) = entry_weights t" for m
    by (simp add: entry_weights_def weights_of_def map_defs)
  have "fits t (entry_teams (tr_put room_map (jset (r_id r) r (tr_get room_map t)) t))
      (entry_weights (tr_put room_map (jset (r_id r) r (tr_get room_map t)) t))"
    using store_ok_fits [OF t(1)] by (simp add: teams weights mt)
  from room_tm.dm_set_complete [OF t(1) this] obtain t' where t': "set_room r t = Done t'"
    by (auto simp: set_room_def)
  then have set: "dm_set room_map (r_id r) r t = Done t'" by (simp add: set_room_def)
  have "store_data t' = store_data s\<lparr>acceptedMessageReceipts := acceptedMessageReceipts t\<rparr>"
    using room_tm.dm_set_data [OF set] data old mt by (simp add: room_map_def store_data_def)
  then have "erase receipt_map t' = erase receipt_map s" by (simp add: erase_def receipt_map_def)
  with t' room_tm.dm_set_done [OF t(1) set] room_tm.dm_set_limits [OF set] t show ?thesis by auto
qed

text \<open>The rollback as a whole returns, and gives back the data of the store.\<close>

lemma publish_rollback_restores:
  assumes ok: "store_ok s" and mid: "mid_publish key r s t" and r: "jget (rooms s) (r_id r) = Some r"
  shows "\<exists>t'. publish_rollback key (jget (mlsBacklog s) key) r (acceptedMessageReceipts s) t = Done t'
      \<and> store_ok t' \<and> store_data t' = store_data s"
proof -
  from rollback_backlog [OF ok mid] obtain t1 where
    1: "(case jget (mlsBacklog s) key of Some previous \<Rightarrow> dm_set backlog_map key previous t
          | None \<Rightarrow> Done (dm_delete backlog_map key t)) = Done t1"
    and m1: "mid_publish key r s t1" "mlsBacklog t1 = mlsBacklog s" by blast
  from rollback_room [OF ok m1 r] obtain t2 where 2: "set_room r t1 = Done t2" "store_ok t2"
    "store_limits t2 = store_limits s" "erase receipt_map t2 = erase receipt_map s" by blast
  obtain c b l where clear: "dm_clear receipt_map t2 = tr_put receipt_map [] t2\<lparr>st_bytes := b, st_cap := c, st_log := l\<rparr>"
    and ok3: "store_ok (dm_clear receipt_map t2)" "store_limits (dm_clear receipt_map t2) = store_limits t2"
    by (rule receipt_tm.dm_clear_ok [OF 2(2)])
  let ?t = "dm_clear receipt_map t2"
  have er: "erase receipt_map ?t = erase receipt_map s" using receipt_tm.dm_clear_erase 2(4) by simp
  have empty: "tr_get receipt_map ?t = []" unfolding clear by (simp add: receipt_map_def)
  have self: "tr_put receipt_map (acceptedMessageReceipts s) s = s" by (simp add: receipt_map_def)
  have "fits ?t (entry_teams (tr_put receipt_map ([] @ acceptedMessageReceipts s) ?t))
      (entry_weights (tr_put receipt_map ([] @ acceptedMessageReceipts s) ?t))"
    using store_ok_fits [OF ok] fits_limits [of ?t s] ok3(2) 2(3)
    unfolding receipt_tm.entries_by_erase [OF er] by (simp add: self)
  from receipt_tm.restore_all [OF ok3(1) empty _ this] ok obtain t' where
    t': "for_each (\<lambda>(k, v). dm_set receipt_map k v) (acceptedMessageReceipts s) ?t = Done t'" "store_ok t'"
    "tr_get receipt_map t' = acceptedMessageReceipts s" "erase receipt_map t' = erase receipt_map ?t"
    by (auto simp: store_ok_def store_wf_def)
  have "store_data t' = store_data s"
    by (rule receipt_tm.data_by_erase) (use t'(3,4) er in simp_all)
  with t' 1 2 show ?thesis by (simp add: publish_rollback_def)
qed

definition rooms_keyed :: "relay_store \<Rightarrow> bool" where
  "rooms_keyed s = list_all (\<lambda>(k, r). r_id r = k) (rooms s)"

lemma rooms_keyedD: "rooms_keyed s \<Longrightarrow> jget (rooms s) k = Some r \<Longrightarrow> r_id r = k"
  by (auto simp: rooms_keyed_def list_all_iff dest!: jget_mem)

lemma publish_fail_restores:
  assumes "store_ok s" and "mid_publish key r s t" and "jget (rooms s) (r_id r) = Some r"
    and "publish_fail err key (jget (mlsBacklog s) key) r (acceptedMessageReceipts s) t = (res, s')"
  shows "res = Failed err \<and> store_ok s' \<and> store_data s' = store_data s"
  using publish_rollback_restores [OF assms(1-3)] assms(4) by (auto simp: publish_fail_def)

lemma mid_publish_discard: "mid_publish key r s t \<Longrightarrow> mid_publish key r s (discard_durable_mutations t)"
  by (simp add: mid_publish_def discard_durable_mutations_def store_limits_def) (simp add: store_ok_def)

lemma publish_commit_cases:
  assumes ok: "store_ok s" and r: "jget (rooms s) (r_id r) = Some r"
    and "publish_commit e now save key m r s = (res, s')"
  shows "store_ok s' \<and> (res = Accepted \<or> (\<exists>err. res = Failed err) \<and> store_data s' = store_data s)"
proof -
  note mid = publish_writes_mid [OF ok, of key r e now m]
  show ?thesis
  proof (cases "publish_writes e now key m r s")
    case (Throws x t)
    with assms(3) publish_fail_restores [OF ok _ r, of key t] mid show ?thesis
      by (auto simp: publish_commit_def Let_def)
  next
    case (Done t)
    with mid have m1: "mid_publish key r s (discard_durable_mutations t)" by (simp add: mid_publish_discard)
    then have "store_ok (discard_durable_mutations t)" by (simp add: mid_publish_def)
    with Done assms(3) publish_fail_restores [OF ok m1 r] show ?thesis
      by (auto simp: publish_commit_def Let_def split: option.splits)
  qed
qed

lemma publish_store_outcome:
  assumes "store_ok s" and "rooms_keyed s" and "publish_store e now save authorized m s = (res, s')"
  shows "store_ok s' \<and> (res \<noteq> Accepted \<longrightarrow> store_data s' = store_data s)"
proof -
  have c: "store_ok s' \<and> (res \<noteq> Accepted \<longrightarrow> store_data s' = store_data s)"
    if "jget (rooms s) (mm_room m) = Some r"
      "publish_commit e now save (room_key (mm_team m) (mm_room m)) m r s = (res, s')" for r
    using publish_commit_cases [OF assms(1) _ that(2)] rooms_keyedD [OF assms(2) that(1)] that(1) by auto
  from assms(1,3) show ?thesis
    by (auto simp: publish_store_def Let_def split: if_splits option.splits dest: c)
qed

text \<open>
  C3: A publish that is not accepted leaves every map of the store exactly as it was: refusals and
  retries write nothing, and when a ceiling or the save fails, the rollback returns and restores
  room, backlog and receipts, order included. The accounting stays exact in every case.
\<close>

theorem publish_all_or_nothing:
  assumes "store_ok s" and "rooms_keyed s" and "publish_store e now save authorized m s = (res, s')"
  shows "store_ok s' \<and> (res \<noteq> Accepted \<longrightarrow> store_data s' = store_data s)"
  using assms by (rule publish_store_outcome)

text \<open>
  After an accepted publish the room's backlog ends with a suffix of the old one and the new
  message, holds at most the configured number of messages, and every one is within the limits.
\<close>

theorem accepted_backlog_is_bounded:
  assumes "publish_store e now save authorized m s = (Accepted, s')" and "0 < lim_backlog (en_mls e)"
  shows "\<exists>ms. jget (mlsBacklog s') (room_key (mm_team m) (mm_room m)) = Some ms
     \<and> length ms \<le> lim_backlog (en_mls e)
     \<and> list_all (\<lambda>x. is_mls_message_within_limits x (en_mls e)) ms
     \<and> set ms \<subseteq> insert m (set (old_backlog s (room_key (mm_team m) (mm_room m))))"
proof -
  let ?key = "room_key (mm_team m) (mm_room m)"
  from assms(1) obtain r s1 where w: "publish_writes e now ?key m r s = Done s1"
    and s': "s' = discard_durable_mutations s1"
    by (rule publish_store_AcceptedE)
  let ?ms = "prune_mls_backlog (en_mls e) now (old_backlog s ?key @ [m])"
  have "jget (mlsBacklog s') ?key = Some ?ms" using publish_writes_Done(2) [OF w] by (simp add: s')
  moreover have "set ?ms \<subseteq> insert m (set (old_backlog s ?key))"
    using prune_mls_backlog_mem [of _ "en_mls e" now "old_backlog s ?key @ [m]"] by fastforce
  moreover have "list_all (\<lambda>x. is_mls_message_within_limits x (en_mls e)) ?ms"
    by (auto simp: list_all_iff dest: prune_mls_backlog_mem)
  ultimately show ?thesis using prune_mls_backlog_length [OF assms(2)] by blast
qed

section \<open>Retries\<close>

lemma sort_key_snoc_max:
  assumes "\<And>y. y \<in> set xs \<Longrightarrow> f y \<le> f x"
  shows "sort_key f (xs @ [x]) = sort_key f xs @ [x]"
proof (rule properties_for_sort_key)
  show "mset (sort_key f xs @ [x]) = mset (xs @ [x])" by simp
  show "sorted (map f (sort_key f xs @ [x]))" using assms by (auto simp: sorted_append)
  fix y assume "y \<in> set (sort_key f xs @ [x])"
  show "filter (\<lambda>z. f y = f z) (sort_key f xs @ [x]) = filter (\<lambda>z. f y = f z) (xs @ [x])"
    using sort_key_stable [of f "f y" xs] by (simp add: eq_commute)
qed

lemma last_not_in_excess:
  assumes "distinct (map f (xs @ [x]))" and "0 < n"
  shows "f x \<notin> f ` set (excess n (xs @ [x]))"
proof -
  have "set (excess n (xs @ [x])) \<subseteq> set xs" using assms(2) by (auto simp: excess_def dest: in_set_takeD)
  with assms(1) show ?thesis by auto
qed

text \<open>The receipt just written survives the pruning: it is the newest of its pool.\<close>

lemma new_receipt_kept:
  assumes ok: "store_ok s" and get: "acceptedMessageReceipts s = rs @ [(k, rec)]" and key: "mr_room rec = key"
    and now: "mr_accepted rec = Iso now" and past: "\<And>x. x \<in> set rs \<Longrightarrow> receipt_time x \<le> now"
  shows "jget (acceptedMessageReceipts (prune_accepted_receipts now key s)) k = Some rec"
proof -
  let ?in = "\<lambda>(_ :: string, r). mr_room r = key"
  let ?sorted = "sort_key receipt_time (filter ?in rs)"
  have room: "sort_key receipt_time (filter ?in (acceptedMessageReceipts s)) = ?sorted @ [(k, rec)]"
    using past by (simp add: get key) (rule sort_key_snoc_max, auto simp: receipt_time_def now)
  have wf: "distinct (map fst (rs @ [(k, rec)]))" using ok get by (simp add: store_ok_def store_wf_def)
  then have dist: "distinct (map fst (?sorted @ [(k, rec)]))"
    by (auto simp: distinct_map inj_on_def)
  let ?stale = "map fst (filter (\<lambda>(_, r). stamp_lt (mr_accepted r) (now - receipt_retention_ms)) (?sorted @ [(k, rec)]))"
  define s1 where "s1 = delete_keys receipt_map ?stale s"
  have fresh: "k \<notin> set ?stale" using dist by (auto simp: now receipt_retention_ms_def)
  have del: "store_ok (delete_keys receipt_map ks t) \<and> acceptedMessageReceipts (delete_keys receipt_map ks t)
      = filter (\<lambda>(k, _). k \<notin> set ks) (acceptedMessageReceipts t)" if "store_ok t" for ks t
    using receipt_tm.delete_keys_ok [OF that, of ks] by simp
  have mem1: "store_ok s1" "(k, rec) \<in> set (acceptedMessageReceipts s1)"
    using del [OF ok, of ?stale] fresh by (auto simp: s1_def get)
  have has: "jhas (acceptedMessageReceipts t) k" if "(k, rec) \<in> set (acceptedMessageReceipts t)" for t
    using that by (auto simp: jhas_def weak_map_of_SomeI)
  define commits where "commits = filter (\<lambda>(i, r). mr_type r = Commit \<and> jhas (acceptedMessageReceipts s1) i) (?sorted @ [(k, rec)])"
  have c: "k \<notin> fst ` set (excess max_receipts commits)"
  proof (cases "mr_type rec = Commit")
    case True
    then have "commits = filter (\<lambda>(i, r). mr_type r = Commit \<and> jhas (acceptedMessageReceipts s1) i) ?sorted @ [(k, rec)]"
      using has [OF mem1(2)] by (simp add: commits_def)
    moreover have "distinct (map fst commits)" using dist by (simp only: commits_def distinct_map_filter)
    ultimately show ?thesis using last_not_in_excess [of fst _ "(k, rec)" max_receipts] by (simp add: max_receipts_def)
  next
    case False
    then have "k \<notin> fst ` set commits" using dist by (auto simp: commits_def)
    then show ?thesis by (auto simp: excess_def dest!: in_set_takeD)
  qed
  define s2 where "s2 = delete_keys receipt_map (map fst (excess max_receipts commits)) s1"
  have mem2: "store_ok s2" "(k, rec) \<in> set (acceptedMessageReceipts s2)"
    using del [OF mem1(1), of "map fst (excess max_receipts commits)"] c mem1(2) by (auto simp: s2_def)
  define apps where "apps = filter (\<lambda>(i, r). mr_type r = Application \<and> jhas (acceptedMessageReceipts s2) i) (?sorted @ [(k, rec)])"
  have a: "k \<notin> fst ` set (excess max_receipts pool)" if "pool \<in> set (jvalues (group_by (\<lambda>(_, r). mr_user r) apps))" for pool
  proof -
    from that obtain u where pool: "pool = filter (\<lambda>x. (case x of (_, r) \<Rightarrow> mr_user r) = u) apps"
      by (auto simp: jvalues_def dest: group_by_mem)
    show ?thesis
    proof (cases "mr_type rec = Application \<and> mr_user rec = u")
      case True
      then have "pool = filter (\<lambda>x. (case x of (_, r) \<Rightarrow> mr_user r) = u)
          (filter (\<lambda>(i, r). mr_type r = Application \<and> jhas (acceptedMessageReceipts s2) i) ?sorted) @ [(k, rec)]"
        using has [OF mem2(2)] by (simp add: pool apps_def)
      moreover have "distinct (map fst pool)" using dist by (simp only: pool apps_def distinct_map_filter)
      ultimately show ?thesis using last_not_in_excess [of fst _ "(k, rec)" max_receipts] by (simp add: max_receipts_def)
    next
      case False
      then have "k \<notin> fst ` set pool" using dist by (auto simp: pool apps_def)
      then show ?thesis by (auto simp: excess_def dest!: in_set_takeD)
    qed
  qed
  have "prune_accepted_receipts now key s = delete_excess (group_by (\<lambda>(_, r). mr_user r) apps) receipt_map s2"
    unfolding prune_accepted_receipts_def room Let_def
    by (simp only: s1_def [symmetric] commits_def [symmetric] s2_def [symmetric] apps_def [symmetric])
  with delete_excess_ok [OF mem2(1), of "group_by (\<lambda>(_, r). mr_user r) apps"] mem2(2) a
  have "store_ok (prune_accepted_receipts now key s)" "(k, rec) \<in> set (acceptedMessageReceipts (prune_accepted_receipts now key s))"
    by auto
  then show ?thesis by (simp add: store_ok_def store_wf_def)
qed

lemma publish_keeps_keyed:
  assumes ok: "store_ok s" and keyed: "rooms_keyed s" and p: "publish_store e now save authorized m s = (res, s')"
  shows "rooms_keyed s'"
proof (cases "res = Accepted")
  case True
  with p obtain r s1 where w: "publish_writes e now (room_key (mm_team m) (mm_room m)) m r s = Done s1"
    and s': "s' = discard_durable_mutations s1"
    by (auto elim: publish_store_AcceptedE)
  have "r_id (room_after_commit r m n) = r_id r" for n by (simp add: room_after_commit_def)
  then have "(k, x) \<in> set (rooms s') \<Longrightarrow> r_id x = k" for k x
    using publish_writes_Done(1) [OF w] keyed
      set_jset_sub [of "r_id r" "room_after_commit r m (accepted_epoch r)" "rooms s"]
    by (auto simp: s' rooms_keyed_def list_all_iff split: if_splits)
  then show ?thesis by (auto simp: rooms_keyed_def list_all_iff)
next
  case False
  with publish_store_outcome [OF ok keyed p] have "store_data s' = store_data s" by simp
  from arg_cong [OF this, of rooms] keyed show ?thesis by (simp add: rooms_keyed_def store_data_def)
qed

text \<open>
  C4: Once a message is accepted its id is bound: publishing the id again in that room is a retry
  that changes nothing when the digest is the same (a Commit may carry another creation time), and
  is refused when it differs. The hypothesis on the receipts is that the clock did not go back.
\<close>

theorem accepted_id_is_bound:
  assumes "store_ok s" and "rooms_keyed s" and "publish_store e now save authorized m s = (Accepted, s')"
    and "list_all (\<lambda>x. receipt_time x \<le> now) (acceptedMessageReceipts s)"
    and "mm_team m' = mm_team m" and "mm_room m' = mm_room m" and "mm_id m' = mm_id m"
  shows "publish_store e now' save' True m' s' =
     ((if retry_digest e m' = retry_digest e m then Retried else Failed (Refused Invalid_message)), s')"
proof -
  let ?key = "room_key (mm_team m) (mm_room m)"
  from assms(3) obtain r s1 where act: "is_active_room s (mm_team m) (mm_room m)"
    and none: "jget (acceptedMessageReceipts s) (receipt_key ?key (mm_id m)) = None"
    and r: "jget (rooms s) (mm_room m) = Some r"
    and w: "publish_writes e now ?key m r s = Done s1" and s': "s' = discard_durable_mutations s1"
    by (rule publish_store_AcceptedE)
  have rid: "r_id r = mm_room m" by (rule rooms_keyedD [OF assms(2) r])
  from publish_writes_Done(6) [OF w] none assms(1) obtain s3 where s3: "s1 = prune_accepted_receipts now ?key s3"
    and rs: "acceptedMessageReceipts s3 = acceptedMessageReceipts s @ [(receipt_key ?key (mm_id m), receipt_of e now ?key m)]"
    and ok3: "store_ok s3"
    by (auto simp: jset_new)
  have kept: "jget (acceptedMessageReceipts s') (receipt_key ?key (mm_id m)) = Some (receipt_of e now ?key m)"
    using new_receipt_kept [OF ok3 rs] assms(4) by (auto simp: s' s3 receipt_of_def list_all_iff)
  have "is_active_room s' (mm_team m) (mm_room m)"
    using act publish_writes_Done(1,3) [OF w] r rid
    by (auto simp: s' is_active_room_def is_active_team_def room_after_commit_def)
  with kept assms(5-7) show ?thesis
    by (simp add: publish_store_def Let_def receipt_of_def)
qed

section \<open>Sequences of publishes\<close>

record publish_step =
  ps_now :: int
  ps_save :: save_result
  ps_authorized :: bool
  ps_message :: mls_message

text \<open>The messages accepted by a sequence of turns, and the store after it.\<close>

fun run_publishes :: "env \<Rightarrow> publish_step list \<Rightarrow> relay_store \<Rightarrow> mls_message list \<times> relay_store" where
  "run_publishes e [] s = ([], s)"
| "run_publishes e (p # ps) s =
     (case publish_store e (ps_now p) (ps_save p) (ps_authorized p) (ps_message p) s of
        (res, s1) \<Rightarrow> (case run_publishes e ps s1 of
           (ms, s2) \<Rightarrow> (if res = Accepted then ps_message p # ms else ms, s2)))"

definition room_commits :: "string \<Rightarrow> mls_message list \<Rightarrow> mls_message list" where
  "room_commits rid ms = filter (\<lambda>m. mm_room m = rid \<and> mm_type m = Commit) ms"

lemma publish_step_epoch:
  assumes ok: "store_ok s" and keyed: "rooms_keyed s" and p: "publish_store e now save authorized m s = (res, s')"
    and r: "jget (rooms s) rid = Some r"
  shows "\<exists>r'. jget (rooms s') rid = Some r' \<and>
     (if res = Accepted \<and> mm_room m = rid \<and> mm_type m = Commit
      then mm_epoch m = accepted_epoch r \<and> accepted_epoch r' = accepted_epoch r + 1
      else accepted_epoch r' = accepted_epoch r)"
proof (cases "res = Accepted")
  case True
  with p obtain q s1 where q: "jget (rooms s) (mm_room m) = Some q"
    and v: "validate_publish_authority e s q m (accepted_epoch q) = None"
    and w: "publish_writes e now (room_key (mm_team m) (mm_room m)) m q s = Done s1"
    and s': "s' = discard_durable_mutations s1"
    by (auto elim: publish_store_AcceptedE)
  have "r_id q = mm_room m" by (rule rooms_keyedD [OF keyed q])
  with True q r validate_None(1) [OF v] publish_writes_Done(1) [OF w] show ?thesis
    by (auto simp: s' room_after_commit_def accepted_epoch_def)
next
  case False
  with publish_store_outcome [OF ok keyed p] have "store_data s' = store_data s" by simp
  from arg_cong [OF this, of rooms] False r show ?thesis by (simp add: store_data_def)
qed

lemma run_publishes_epochs:
  assumes "store_ok s" and "rooms_keyed s" and "jget (rooms s) rid = Some r" and "run_publishes e ps s = (ms, s')"
  shows "\<exists>r'. jget (rooms s') rid = Some r'
     \<and> map mm_epoch (room_commits rid ms) = [accepted_epoch r ..< accepted_epoch r']
     \<and> accepted_epoch r \<le> accepted_epoch r'"
  using assms
proof (induction ps arbitrary: s r ms s')
  case Nil
  then show ?case by (simp add: room_commits_def)
next
  case (Cons p ps)
  obtain res s1 where p: "publish_store e (ps_now p) (ps_save p) (ps_authorized p) (ps_message p) s = (res, s1)"
    by fastforce
  obtain ms1 s2 where q: "run_publishes e ps s1 = (ms1, s2)" by fastforce
  from publish_step_epoch [OF Cons.prems(1,2) p Cons.prems(3)] obtain r1 where r1: "jget (rooms s1) rid = Some r1"
    "if res = Accepted \<and> mm_room (ps_message p) = rid \<and> mm_type (ps_message p) = Commit
      then mm_epoch (ps_message p) = accepted_epoch r \<and> accepted_epoch r1 = accepted_epoch r + 1
      else accepted_epoch r1 = accepted_epoch r" by blast
  have "store_ok s1" "rooms_keyed s1"
    using publish_store_outcome [OF Cons.prems(1,2) p] publish_keeps_keyed [OF Cons.prems(1,2) p] by auto
  from Cons.IH [OF this r1(1) q] obtain r' where r': "jget (rooms s2) rid = Some r'"
    "map mm_epoch (room_commits rid ms1) = [accepted_epoch r1 ..< accepted_epoch r']"
    "accepted_epoch r1 \<le> accepted_epoch r'" by blast
  from Cons.prems(4) p q have out: "s' = s2" "ms = (if res = Accepted then ps_message p # ms1 else ms1)" by auto
  show ?case
  proof (cases "res = Accepted \<and> mm_room (ps_message p) = rid \<and> mm_type (ps_message p) = Commit")
    case True
    with out have "room_commits rid ms = ps_message p # room_commits rid ms1" by (simp add: room_commits_def)
    with True r1(2) r' out show ?thesis by (simp add: upt_conv_Cons)
  next
    case False
    with out have "room_commits rid ms = room_commits rid ms1" by (auto simp: room_commits_def)
    with False r1(2) r' out show ?thesis by auto
  qed
qed

text \<open>
  C5: In any sequence of publishes the Commits accepted for a room carry consecutive epochs, one
  each, from the epoch the room had to the one it has at the end: no epoch is skipped, and no two
  Commits are accepted for the same epoch.
\<close>

theorem commits_are_consecutive:
  assumes "store_ok s" and "rooms_keyed s" and "jget (rooms s) rid = Some r" and "run_publishes e ps s = (ms, s')"
  shows "\<exists>r'. jget (rooms s') rid = Some r'
     \<and> map mm_epoch (room_commits rid ms) = [accepted_epoch r ..< accepted_epoch r']"
  using run_publishes_epochs [OF assms] by blast


end
