(* ===== verification/Samples.thy ===== *)
theory Samples
  imports Fanout_Proofs
begin

text \<open>
  Concrete stores and messages on which the properties are evaluated: one team with an owner and
  a member, one active room hosted by the owner's device, and messages for it. The stores are
  built by the model's own operations, so their accounting holds by the library's lemmas.
\<close>

definition sample_limits :: byte_limits where
  "sample_limits = \<lparr>bl_mls_global = 100000, bl_mls_team = 50000, bl_mls_room = 5000,
     bl_att_global = 100000, bl_att_team = 50000\<rparr>"

definition sample_empty :: relay_store where
  "sample_empty = (case create_relay_store 1000 500 sample_limits of
     Some s \<Rightarrow> s | None \<Rightarrow> empty_store (ec_configure 0 0) blank_bytes)"

definition sample_team :: team where
  "sample_team = \<lparr>t_id = ''team'', t_name = ''Team'', t_members = 2, t_role = None, t_archived = None, t_deleted = None\<rparr>"

definition sample_member :: "string \<Rightarrow> team_role \<Rightarrow> team_member" where
  "sample_member u r = \<lparr>m_team = ''team'', m_user = u, m_role = r, m_joined = Iso 0\<rparr>"

definition sample_room :: room where
  "sample_room = \<lparr>r_id = ''room'', r_team = ''team'', r_epoch = Some 3, r_name = ''Room'', r_host = ''ann'',
     r_host_user = Some ''ann'', r_host_device = Some ''ann-device'', r_status = Host_active,
     r_policy = Ask_every_turn, r_archived = None, r_deleted = None\<rparr>"

definition sample_device :: "string \<Rightarrow> string \<Rightarrow> device" where
  "sample_device u d = \<lparr>d_user = u, d_device = d, d_display = u, d_sig_key = ''QUJD'', d_sig_fp = ''fp'',
     d_hpke_key = ''QUJD'', d_hpke_fp = ''fp'', d_registered = Iso 0, d_last_seen = Iso 0\<rparr>"

definition sample_store :: relay_store where
  "sample_store =
     state_of (set_device (sample_device ''bob'' ''bob-device'')
       (state_of (set_device (sample_device ''ann'' ''ann-device'')
         (state_of (set_room sample_room
           (state_of (set_team_members ''team''
               [(''ann'', sample_member ''ann'' Owner), (''bob'', sample_member ''bob'' Member)]
             (state_of (set_team sample_team sample_empty)))))))))"

definition sample_mls :: mls_options where
  "sample_mls = \<lparr>lim_message_bytes = 2000, lim_mls_chars = 2000, lim_envelope_id = 160, lim_device_id = 160,
     lim_user_id = 160, lim_backlog = 10, lim_retention_days = 30\<rparr>"

text \<open>Stand-ins for the hash and the signature check: the identity, and equality with the key.\<close>

definition sample_env :: env where
  "sample_env = \<lparr>en_auth = False, en_debug = False, en_mls = sample_mls, en_user_cap = 5, en_device_cap = 2,
     en_sha256 = (\<lambda>s. s), en_verify = (\<lambda>k t sig. sig = k)\<rparr>"

definition sample_message :: "string \<Rightarrow> mls_type \<Rightarrow> nat \<Rightarrow> mls_message" where
  "sample_message i t n = \<lparr>mm_id = i, mm_team = ''team'', mm_room = ''room'', mm_device = ''ann-device'',
     mm_user = ''ann'', mm_created = Iso 1000, mm_type = t, mm_epoch = n, mm_mls = ''QUJD'',
     mm_handoff = False, mm_next_user = None, mm_next_device = None, mm_transfer = None\<rparr>"

definition sample_handoff :: mls_message where
  "sample_handoff = (sample_message ''handoff'' Commit 3)\<lparr>mm_handoff := True,
     mm_next_user := Some ''bob'', mm_next_device := Some ''bob-device'',
     mm_transfer := Some \<lparr>h_transfer = ''t'', h_room = ''room'', h_commit = ''ABC'', h_parent = 3,
       h_out_user = ''ann'', h_out_device = ''ann-device'', h_next_user = ''bob'', h_next_device = ''bob-device'',
       h_next_leaf = 1, h_signature = ''QUJD'', h_public_key = ''QUJD''\<rparr>\<rparr>"

lemma store_ok_empty:
  assumes "create_relay_store m t l = Some s" and "0 \<le> m" and "0 \<le> t" and "0 \<le> bl_mls_room l" and "0 \<le> bl_att_team l"
  shows "store_ok s"
proof -
  from assms(1) obtain b where b: "bc_new l = Some b" and s: "s = empty_store (ec_configure m t) b"
    by (auto simp: create_relay_store_def split: option.splits)
  from b assms(4,5) have bytes: "bc_counts b {#}" "bc_bounded b" "bc_normal b"
    by (auto simp: bc_new_def bc_counts_def bc_bounded_def bc_normal_def nonzero_def bc_level_def bl_limit_def
        split: if_splits level.splits resource.splits)
  have "entry_teams s = {#}" "entry_weights s = {#}" "store_wf s"
    by (simp_all add: s entry_teams_def team_mset_def map_defs empty_store_def member_teams_def
        entry_weights_def weights_of_def store_wf_def)
  with bytes assms(2,3) show ?thesis
    by (simp add: store_ok_def s empty_store_def ec_counts_configure ec_bounded_configure)
qed

lemma sample_store_ok: "store_ok sample_store"
proof -
  have "store_ok sample_empty"
    by (rule store_ok_empty [of 1000 500 sample_limits])
       (simp_all add: sample_empty_def create_relay_store_def bc_new_def sample_limits_def)
  then show ?thesis
    unfolding sample_store_def set_device_def set_room_def set_team_def
    by (intro device_tm.dm_set_ok room_tm.dm_set_ok set_team_members_ok team_tm.dm_set_ok) simp_all
qed

lemma sample_rooms_keyed: "rooms_keyed sample_store"
  by code_simp

end
