(* ===== verification/Fanout_Witnesses.thy ===== *)
theory Fanout_Witnesses
  imports Samples
begin

text \<open>The properties of publishing, applied to the sample store.\<close>

abbreviation publish_sample :: "mls_message \<Rightarrow> publish_result \<times> relay_store" where
  "publish_sample m \<equiv> publish_store sample_env 2000 Saved True m sample_store"

lemma sample_commit_accepted: "fst (publish_sample (sample_message ''c1'' Commit 3)) = Accepted"
  by code_simp

lemma sample_handoff_accepted: "fst (publish_sample sample_handoff) = Accepted"
  by code_simp

lemma sample_application_accepted: "fst (publish_sample (sample_message ''a1'' Application 2)) = Accepted"
  by code_simp

lemma sample_room_there: "jget (rooms sample_store) ''room'' = Some sample_room"
  by code_simp

lemma accepted_pair: "fst p = Accepted \<Longrightarrow> p = (Accepted, snd p)"
  by (cases p) simp

lemma sample_room_message [simp]: "mm_room (sample_message i t n) = ''room''" "mm_room sample_handoff = ''room''"
  "mm_type (sample_message i t n) = t" "mm_handoff sample_handoff"
  "mm_team (sample_message i t n) = ''team''" "mm_epoch (sample_message i t n) = n" "mm_id (sample_message i t n) = i"
  by (simp_all add: sample_message_def sample_handoff_def)

lemma commit_advances_epoch_by_active_host_witness:
  "\<exists>r r'. jget (rooms sample_store) ''room'' = Some r
     \<and> r_host_user r = Some (mm_user (sample_message ''c1'' Commit 3)) \<and> 3 = accepted_epoch r
     \<and> jget (rooms (snd (publish_sample (sample_message ''c1'' Commit 3)))) (r_id r) = Some r' \<and> accepted_epoch r' = 4"
  using commit_advances_epoch_by_active_host [OF accepted_pair [OF sample_commit_accepted]] by auto

lemma handoff_is_signed_by_current_host_witness:
  "\<exists>r h. jget (rooms sample_store) ''room'' = Some r \<and> mm_transfer sample_handoff = Some h
     \<and> has_team_member sample_store (r_team r) (h_next_user h)"
  using handoff_is_signed_by_current_host [OF accepted_pair [OF sample_handoff_accepted]] by auto

lemma application_epoch_window_witness:
  "rooms (snd (publish_sample (sample_message ''a1'' Application 2))) = rooms sample_store
     \<and> (\<exists>r. jget (rooms sample_store) ''room'' = Some r \<and> 2 \<le> accepted_epoch r \<and> accepted_epoch r \<le> 4)"
  using application_epoch_window [OF accepted_pair [OF sample_application_accepted]] by auto

text \<open>A Commit at an epoch the room has left is refused, and nothing changes.\<close>

lemma publish_all_or_nothing_witness:
  "store_ok (snd (publish_sample (sample_message ''c2'' Commit 2)))
     \<and> fst (publish_sample (sample_message ''c2'' Commit 2)) = Failed (Refused Stale_epoch)
     \<and> store_data (snd (publish_sample (sample_message ''c2'' Commit 2))) = store_data sample_store"
proof -
  have r: "fst (publish_sample (sample_message ''c2'' Commit 2)) = Failed (Refused Stale_epoch)" by code_simp
  obtain res s' where p: "publish_sample (sample_message ''c2'' Commit 2) = (res, s')" by fastforce
  from publish_all_or_nothing [OF sample_store_ok sample_rooms_keyed p] r p show ?thesis by auto
qed

lemma accepted_backlog_is_bounded_witness:
  "\<exists>ms. jget (mlsBacklog (snd (publish_sample (sample_message ''c1'' Commit 3)))) (room_key ''team'' ''room'') = Some ms
     \<and> length ms \<le> 10"
  using accepted_backlog_is_bounded [OF accepted_pair [OF sample_commit_accepted]]
  by (auto simp: sample_env_def sample_mls_def)

lemma accepted_id_is_bound_witness:
  "publish_store sample_env 3000 Saved True (sample_message ''c1'' Commit 3) (snd (publish_sample (sample_message ''c1'' Commit 3)))
     = (Retried, snd (publish_sample (sample_message ''c1'' Commit 3)))"
proof -
  have "list_all (\<lambda>x. receipt_time x \<le> 2000) (acceptedMessageReceipts sample_store)" by code_simp
  from accepted_id_is_bound [OF sample_store_ok sample_rooms_keyed accepted_pair [OF sample_commit_accepted] this,
      of "sample_message ''c1'' Commit 3" 3000 Saved]
  show ?thesis by simp
qed

lemma commits_are_consecutive_witness:
  "\<exists>r'. jget (rooms (snd (run_publishes sample_env
         [\<lparr>ps_now = 2000, ps_save = Saved, ps_authorized = True, ps_message = sample_message ''c1'' Commit 3\<rparr>] sample_store))) ''room''
       = Some r'
     \<and> map mm_epoch (room_commits ''room'' (fst (run_publishes sample_env
         [\<lparr>ps_now = 2000, ps_save = Saved, ps_authorized = True, ps_message = sample_message ''c1'' Commit 3\<rparr>] sample_store)))
       = [3 ..< accepted_epoch r']"
proof -
  have "accepted_epoch sample_room = 3" by code_simp
  with commits_are_consecutive [OF sample_store_ok sample_rooms_keyed sample_room_there
      surjective_pairing [of "run_publishes sample_env
         [\<lparr>ps_now = 2000, ps_save = Saved, ps_authorized = True, ps_message = sample_message ''c1'' Commit 3\<rparr>] sample_store"]]
  show ?thesis by simp
qed


end
