(* ===== verification/Sockets.thy ===== *)
theory Sockets
  imports Fanout
begin

text \<open>
  Which socket listens to what: the room, team and workspace indexes, presence, joining,
  leaving and revoking (apps/relay/src/ws/rooms.ts). An operation that saves takes the result
  of the save as an argument.
\<close>

section \<open>Operations that write to the store and save\<close>

datatype live_error = L_store store_error | L_unavailable

fun lift_error :: "(store_error, 's) outcome \<Rightarrow> (live_error, 's) outcome" where
  "lift_error (Done s) = Done s"
| "lift_error (Throws x s) = Throws (L_store x) s"

definition on_store :: "(relay_store \<Rightarrow> (store_error, relay_store) outcome) \<Rightarrow> live \<Rightarrow> (live_error, live) outcome" where
  "on_store f l = map_state (\<lambda>s. l\<lparr>lv_store := s\<rparr>) (lift_error (f (lv_store l)))"

definition put_store :: "(relay_store \<Rightarrow> relay_store) \<Rightarrow> live \<Rightarrow> live" where
  "put_store f l = l\<lparr>lv_store := f (lv_store l)\<rparr>"

text \<open>
  \<open>scheduleStoreSave\<close> and \<open>saveRelayStore\<close>: the log is drained, and the write succeeds or the
  relay is poisoned, which closes every client.
\<close>

definition save_now :: "bool \<Rightarrow> live \<Rightarrow> (live_error, live) outcome" where
  "save_now ok l =
     (let l1 = put_store discard_durable_mutations l in if ok then Done l1 else Throws L_unavailable (poison l1))"

section \<open>Sessions\<close>

abbreviation session_of :: "live \<Rightarrow> socket \<Rightarrow> client_session option" where
  "session_of l k \<equiv> jget (lv_sessions l) k"

definition upd_session :: "socket \<Rightarrow> (client_session \<Rightarrow> client_session) \<Rightarrow> live \<Rightarrow> live" where
  "upd_session k f l =
     (case session_of l k of None \<Rightarrow> l | Some cs \<Rightarrow> l\<lparr>lv_sessions := jset k (f cs) (lv_sessions l)\<rparr>)"

definition auth_user_id :: "client_session \<Rightarrow> string option" where
  "auth_user_id cs = map_option (\<lambda>a. u_id (as_user a)) (cs_auth cs)"

section \<open>Leaving\<close>

text \<open>The device leaves the roster of the room and the sockets of the room hear of it.\<close>

definition leave_roster :: "env \<Rightarrow> int \<Rightarrow> string \<Rightarrow> string \<Rightarrow> live \<Rightarrow> live" where
  "leave_roster e now key d l =
     (case jget (lv_presence l) key of
        None \<Rightarrow> l
      | Some roster \<Rightarrow>
          (case jget roster d of
             None \<Rightarrow> l
           | Some p \<Rightarrow>
               broadcast e now key (Presence_update p False)
                 (l\<lparr>lv_presence := (if jdel d roster = [] then jdel key (lv_presence l)
                                      else jset key (jdel d roster) (lv_presence l))\<rparr>)))"

definition leave_room :: "env \<Rightarrow> int \<Rightarrow> socket \<Rightarrow> live \<Rightarrow> live" where
  "leave_room e now k l =
     (case session_of l k of
        None \<Rightarrow> l
      | Some cs \<Rightarrow>
          if \<not> truthy (cs_team cs) \<or> \<not> truthy (cs_room cs) then l
          else
            let key = room_key (the (cs_team cs)) (the (cs_room cs));
                l1 = (if truthy (cs_device cs) then leave_roster e now key (the (cs_device cs)) l else l)
            in l1\<lparr>lv_rooms := index_remove key k (lv_rooms l1)\<rparr>)"

definition leave_teams :: "socket \<Rightarrow> live \<Rightarrow> live" where
  "leave_teams k l =
     (case session_of l k of
        None \<Rightarrow> l
      | Some cs \<Rightarrow>
          upd_session k (\<lambda>cs. cs\<lparr>cs_teams := []\<rparr>)
            (l\<lparr>lv_teams := fold (\<lambda>t. index_remove t k) (cs_teams cs) (lv_teams l)\<rparr>))"

definition leave_workspace :: "socket \<Rightarrow> live \<Rightarrow> live" where
  "leave_workspace k l =
     (case session_of l k of
        None \<Rightarrow> l
      | Some cs \<Rightarrow>
          if \<not> cs_workspace cs then l
          else upd_session k (\<lambda>cs. cs\<lparr>cs_workspace := False\<rparr>)
                 (l\<lparr>lv_workspace := set_remove k (lv_workspace l)\<rparr>))"

definition leave_all :: "env \<Rightarrow> int \<Rightarrow> socket \<Rightarrow> live \<Rightarrow> live" where
  "leave_all e now k l = leave_workspace k (leave_teams k (leave_room e now k l))"

section \<open>Joining and subscribing\<close>

definition join_room :: "env \<Rightarrow> int \<Rightarrow> socket \<Rightarrow> string \<Rightarrow> string \<Rightarrow> string \<Rightarrow> string \<Rightarrow> live \<Rightarrow> live" where
  "join_room e now k t r u d l =
     (let l1 = upd_session k (\<lambda>cs. cs\<lparr>cs_team := Some t, cs_room := Some r, cs_user := Some u, cs_device := Some d\<rparr>)
                 (leave_room e now k l)
      in l1\<lparr>lv_rooms := index_add (room_key t r) k (lv_rooms l1)\<rparr>)"

definition subscribe_team :: "socket \<Rightarrow> string \<Rightarrow> live \<Rightarrow> live" where
  "subscribe_team k t l =
     (let l1 = upd_session k (\<lambda>cs. cs\<lparr>cs_teams := set_add t (cs_teams cs)\<rparr>) l
      in l1\<lparr>lv_teams := index_add t k (lv_teams l1)\<rparr>)"

definition subscribe_workspace :: "socket \<Rightarrow> live \<Rightarrow> live" where
  "subscribe_workspace k l =
     (let l1 = upd_session k (\<lambda>cs. cs\<lparr>cs_workspace := True\<rparr>) l
      in l1\<lparr>lv_workspace := set_add k (lv_workspace l1)\<rparr>)"

section \<open>Admission to a room\<close>

text \<open>\<open>addTeamMember\<close> as the live relay runs it: the writes, the save, then the news.\<close>

definition adds_member :: "relay_store \<Rightarrow> string \<Rightarrow> string \<Rightarrow> bool" where
  "adds_member s t u \<longleftrightarrow> u \<noteq> [] \<and> jget (teams s) t \<noteq> None \<and> \<not> has_team_member s t u"

definition add_member_live :: "env \<Rightarrow> int \<Rightarrow> bool \<Rightarrow> string \<Rightarrow> string \<Rightarrow> team_role \<Rightarrow> live \<Rightarrow> (live_error, live) outcome" where
  "add_member_live e now ok t u role l =
     (if \<not> adds_member (lv_store l) t u then Done l
      else seq (on_store (add_team_member now t u role) l) (\<lambda>l1.
           seq (save_now ok l1) (\<lambda>l2.
           Done (case jget (teams (lv_store l2)) t of
                   None \<Rightarrow> l2 | Some team \<Rightarrow> broadcast_workspace_updated e now team l2))))"

definition durable_welcome :: "relay_store \<Rightarrow> invite \<Rightarrow> string \<Rightarrow> string \<Rightarrow> bool" where
  "durable_welcome s i u d \<longleftrightarrow>
     list_ex (\<lambda>r. s_invite r = i_id i \<and> s_user r = u \<and> s_device r = d \<and> Some (s_kp_hash r) = i_kp_hash i
                \<and> s_status r = Approved \<and> truthy (s_welcome r)) (jvalues (inviteResponses s))"

text \<open>An expired invite is deleted on the way; the save of that deletion may fail.\<close>

definition approved_invite_for_admission ::
  "int \<Rightarrow> bool \<Rightarrow> string \<Rightarrow> string \<Rightarrow> string \<Rightarrow> string \<Rightarrow> string \<Rightarrow> live \<Rightarrow> invite option \<times> (live_error, live) outcome" where
  "approved_invite_for_admission now ok iv t r u d l =
     (if \<not> is_active_room (lv_store l) t r then (None, Done l)
      else case jget (invites (lv_store l)) iv of
        None \<Rightarrow> (None, Done l)
      | Some i \<Rightarrow>
          if i_team i \<noteq> t \<or> i_room i \<noteq> r then (None, Done l)
          else if is_expired_invite now i
          then (None, save_now ok (put_store (dm_delete invite_map (i_id i)) l))
          else if i_user i \<noteq> Some u \<or> i_device i \<noteq> Some d then (None, Done l)
          else (if durable_welcome (lv_store l) i u d then Some i else None, Done l))"

text \<open>
  \<open>canJoinRoom\<close>: the answer beside the state. \<open>ok1\<close> is the save of the membership (or of an
  expired invite), \<open>ok2\<close> the save of the consumed invite.
\<close>

definition can_join_room ::
  "env \<Rightarrow> int \<Rightarrow> bool \<Rightarrow> bool \<Rightarrow> socket \<Rightarrow> string \<Rightarrow> string \<Rightarrow> string \<Rightarrow> string \<Rightarrow> string option \<Rightarrow> live
     \<Rightarrow> bool \<times> (live_error, live) outcome" where
  "can_join_room e now ok1 ok2 k t r u d iv l =
     (if \<not> en_auth e then (True, add_member_live e now ok1 t u Member l)
      else if (case session_of l k of None \<Rightarrow> True | Some cs \<Rightarrow> auth_user_id cs \<noteq> Some u) then (False, Done l)
      else if can_access_room (lv_store l) t r u then (True, Done l)
      else
        case (if truthy iv then approved_invite_for_admission now ok1 (the iv) t r u d l else (None, Done l)) of
          (None, res) \<Rightarrow> (False, res)
        | (Some i, res) \<Rightarrow>
            (True,
             seq res (\<lambda>l0.
             seq (add_member_live e now ok1 t u Member l0) (\<lambda>l1.
             case save_now ok2 (put_store (dm_delete invite_map (i_id i)) l1) of
               Done l2 \<Rightarrow> Done l2
             | Throws x l2 \<Rightarrow>
                 (case on_store (dm_set invite_map (i_id i) i) l2 of
                    Done l3 \<Rightarrow> Throws x l3 | Throws y l3 \<Rightarrow> Throws y l3)))))"

definition can_authenticate_join_identity :: "env \<Rightarrow> live \<Rightarrow> socket \<Rightarrow> string \<Rightarrow> bool" where
  "can_authenticate_join_identity e l k u \<longleftrightarrow>
     \<not> en_auth e \<or> (case session_of l k of None \<Rightarrow> False | Some cs \<Rightarrow> auth_user_id cs = Some u)"

definition can_subscribe_team :: "env \<Rightarrow> live \<Rightarrow> socket \<Rightarrow> string \<Rightarrow> string \<Rightarrow> bool" where
  "can_subscribe_team e l k t u \<longleftrightarrow> is_active_team (lv_store l) t \<and>
     (\<not> en_auth e \<or> (case session_of l k of None \<Rightarrow> False
        | Some cs \<Rightarrow> auth_user_id cs = Some u \<and> has_team_member (lv_store l) t u))"

definition can_subscribe_workspace :: "env \<Rightarrow> live \<Rightarrow> socket \<Rightarrow> string \<Rightarrow> bool" where
  "can_subscribe_workspace e l k u \<longleftrightarrow>
     \<not> en_auth e \<or> (case session_of l k of None \<Rightarrow> False | Some cs \<Rightarrow> auth_user_id cs = Some u)"

section \<open>Revocation\<close>

text \<open>A session is the user's when its account or its joined identity is.\<close>

definition session_is_users :: "string \<Rightarrow> client_session \<Rightarrow> bool" where
  "session_is_users u cs \<longleftrightarrow> auth_user_id cs = Some u \<or> cs_user cs = Some u"

definition sockets_registered :: "live \<Rightarrow> socket list" where
  "sockets_registered l = map fst (filter (\<lambda>(_, cs). cs_registered cs) (lv_sessions l))"

definition membership_removed_text :: string where
  "membership_removed_text = ''Your team membership was removed. Rejoin with a fresh invite before continuing.''"

definition revoke_team_member_session :: "env \<Rightarrow> int \<Rightarrow> string \<Rightarrow> string \<Rightarrow> socket \<Rightarrow> live \<Rightarrow> live" where
  "revoke_team_member_session e now t u k l =
     (case session_of l k of
        None \<Rightarrow> l
      | Some cs \<Rightarrow>
          if \<not> session_is_users u cs then l
          else if cs_team cs \<noteq> Some t \<and> \<not> List.member (cs_teams cs) t \<and> \<not> cs_workspace cs then l
          else close_socket k 1008 (leave_all e now k
                 (send e now k (Error_message membership_removed_text (Some Membership_removed) None (Some t)) l)))"

definition revoke_team_member_sessions :: "env \<Rightarrow> int \<Rightarrow> string \<Rightarrow> string \<Rightarrow> live \<Rightarrow> live" where
  "revoke_team_member_sessions e now t u l =
     fold (revoke_team_member_session e now t u) (sockets_registered l) l"

text \<open>
  \<open>revokeUserPresence\<close>: the rosters in turn, each entry of the user with its own offline
  message, and a roster that ends up empty (even one it did not touch) dropped.
\<close>

definition drop_empty_roster :: "string \<Rightarrow> live \<Rightarrow> live" where
  "drop_empty_roster key l =
     (if jget (lv_presence l) key = Some [] then l\<lparr>lv_presence := jdel key (lv_presence l)\<rparr> else l)"

definition revoke_presence_entry :: "env \<Rightarrow> int \<Rightarrow> string \<Rightarrow> string \<Rightarrow> string \<times> presence \<Rightarrow> live \<Rightarrow> live" where
  "revoke_presence_entry e now u key dp l =
     (case dp of (d, p) \<Rightarrow>
        if p_user p \<noteq> u then l
        else broadcast e now key (Presence_update p False)
               (l\<lparr>lv_presence := (case jget (lv_presence l) key of
                    None \<Rightarrow> lv_presence l | Some roster \<Rightarrow> jset key (jdel d roster) (lv_presence l))\<rparr>))"

definition revoke_user_presence :: "env \<Rightarrow> int \<Rightarrow> string \<Rightarrow> live \<Rightarrow> live" where
  "revoke_user_presence e now u l =
     fold (\<lambda>(key, roster) l. drop_empty_roster key (fold (revoke_presence_entry e now u key) roster l))
       (lv_presence l) l"

definition revoke_user_session :: "env \<Rightarrow> int \<Rightarrow> string \<Rightarrow> string \<Rightarrow> socket \<Rightarrow> live \<Rightarrow> live" where
  "revoke_user_session e now u text k l =
     (case session_of l k of
        None \<Rightarrow> l
      | Some cs \<Rightarrow>
          if \<not> session_is_users u cs then l
          else close_socket k 1008 (upd_session k (\<lambda>cs. cs\<lparr>cs_registered := False\<rparr>)
                 (leave_all e now k (send e now k (Error_message text None None None) l))))"

definition revoke_user_sessions :: "env \<Rightarrow> int \<Rightarrow> string \<Rightarrow> string \<Rightarrow> live \<Rightarrow> live" where
  "revoke_user_sessions e now u text l =
     revoke_user_presence e now u (fold (revoke_user_session e now u text) (sockets_registered l) l)"

text \<open>The \<open>close\<close> event of a socket (apps/relay/src/ws/connection.ts).\<close>

definition on_close :: "env \<Rightarrow> int \<Rightarrow> socket \<Rightarrow> live \<Rightarrow> live" where
  "on_close e now k l = upd_session k (\<lambda>cs. cs\<lparr>cs_registered := False\<rparr>) (leave_all e now k l)"

end
