(* ===== verification/Http.thy ===== *)
theory Http
  imports Sockets
begin

text \<open>
  The vocabulary of the HTTP handlers: replies with the error codes of
  packages/protocol/src/http-errors.ts, the mapping of a thrown error to a reply
  (apps/relay/src/http/errors.ts), and the pattern of a save with rollback
  (apps/relay/src/http/durable-mutation.ts). A reply carries its status and its payload or its
  error code; the human-readable text of an error is not part of it. Handlers take the account
  session that \<open>getAuthSession\<close> found, the current time, the results of the saves they make and
  the random tokens they draw as arguments.
\<close>

datatype http_code = H_invalid_request | H_authentication_required | H_account_deletion_blocked
  | H_account_restricted | H_device_auth_required | H_forbidden | H_not_found | H_team_not_found
  | H_team_member_not_found | H_room_not_found | H_invite_not_found | H_invite_expired | H_conflict
  | H_rate_limited | H_quota_exceeded | H_payload_too_large | H_capacity_exceeded
  | H_persistence_unavailable | H_upstream_unavailable | H_relay_shutting_down
  | H_key_package_invalid | H_key_package_unavailable | H_internal_error

datatype 'a reply = Reply nat 'a | Http_error nat http_code

fun is_error :: "'a reply \<Rightarrow> bool" where
  "is_error (Reply _ _) = False"
| "is_error (Http_error _ _) = True"

text \<open>\<open>relayInternalErrorMiddleware\<close>: an error a handler throws.\<close>

definition thrown_reply :: "live_error \<Rightarrow> 'a reply" where
  "thrown_reply x = (case x of
     L_store (Entry_capacity _ _) \<Rightarrow> Http_error 507 H_capacity_exceeded
   | L_store (Byte_capacity _ _ _ _) \<Rightarrow> Http_error 507 H_capacity_exceeded
   | L_store Type_error \<Rightarrow> Http_error 500 H_internal_error
   | L_unavailable \<Rightarrow> Http_error 500 H_internal_error)"

text \<open>\<open>stmt; rest\<close> in a handler: a throw ends it with the reply of the middleware.\<close>

definition handle :: "(live_error, live) outcome \<Rightarrow> (live \<Rightarrow> 'a reply \<times> live) \<Rightarrow> 'a reply \<times> live" where
  "handle r k = (case r of Done l \<Rightarrow> k l | Throws x l \<Rightarrow> (thrown_reply x, l))"

definition is_capacity_error :: "store_error \<Rightarrow> bool" where
  "is_capacity_error x \<longleftrightarrow> x \<noteq> Type_error"

text \<open>
  \<open>persistMutationOrRollback\<close>: the save, and on its failure the rollback; a rollback that
  throws ends the handler with \<open>RelayMutationRollbackError\<close>, which is no capacity error.
\<close>

datatype persist_result = Persisted | Not_persisted | Rollback_failed

definition persist_or_rollback :: "bool \<Rightarrow> (relay_store \<Rightarrow> (store_error, relay_store) outcome) \<Rightarrow> live \<Rightarrow> persist_result \<times> live" where
  "persist_or_rollback ok rollback l =
     (case save_now ok l of
        Done l1 \<Rightarrow> (Persisted, l1)
      | Throws _ l1 \<Rightarrow>
          (case on_store rollback l1 of
             Done l2 \<Rightarrow> (Not_persisted, l2) | Throws _ l2 \<Rightarrow> (Rollback_failed, l2)))"

definition after_persist :: "persist_result \<times> live \<Rightarrow> (live \<Rightarrow> 'a reply \<times> live) \<Rightarrow> 'a reply \<times> live" where
  "after_persist p k = (case p of
     (Persisted, l) \<Rightarrow> k l
   | (Not_persisted, l) \<Rightarrow> (Http_error 503 H_persistence_unavailable, l)
   | (Rollback_failed, l) \<Rightarrow> (Http_error 500 H_internal_error, l))"

text \<open>\<open>allowRead\<close> and \<open>allowMutation\<close> (apps/relay/src/auth/session.ts) refuse alike.\<close>

definition allowed :: "env \<Rightarrow> auth_session option \<Rightarrow> bool" where
  "allowed e session \<longleftrightarrow> \<not> en_auth e \<or> session \<noteq> None"

definition session_user_of :: "auth_session \<Rightarrow> string" where
  "session_user_of a = u_id (as_user a)"

section \<open>Lemmas\<close>

lemma handle_simps [simp]:
  "handle (Done l) k = k l" "handle (Throws x l) k = (thrown_reply x, l)"
  by (simp_all add: handle_def)

lemma after_persist_simps [simp]:
  "after_persist (Persisted, l) k = k l"
  "after_persist (Not_persisted, l) k = (Http_error 503 H_persistence_unavailable, l)"
  "after_persist (Rollback_failed, l) k = (Http_error 500 H_internal_error, l)"
  by (simp_all add: after_persist_def)

lemma on_store_simps:
  "on_store f l = (case f (lv_store l) of Done s \<Rightarrow> Done (l\<lparr>lv_store := s\<rparr>) | Throws x s \<Rightarrow> Throws (L_store x) (l\<lparr>lv_store := s\<rparr>))"
  by (cases "f (lv_store l)") (simp_all add: on_store_def)

lemma put_store_frame [simp]:
  "lv_store (put_store f l) = f (lv_store l)" "lv_sessions (put_store f l) = lv_sessions l"
  "lv_rooms (put_store f l) = lv_rooms l" "lv_teams (put_store f l) = lv_teams l"
  "lv_workspace (put_store f l) = lv_workspace l" "lv_presence (put_store f l) = lv_presence l"
  "lv_open (put_store f l) = lv_open l" "lv_out (put_store f l) = lv_out l"
  by (simp_all add: put_store_def)

lemma save_now_store [simp]: "lv_store (state_of (save_now ok l)) = discard_durable_mutations (lv_store l)"
  by (simp add: save_now_def Let_def)

lemma save_now_cases:
  "save_now ok l = (if ok then Done (put_store discard_durable_mutations l)
     else Throws L_unavailable (poison (put_store discard_durable_mutations l)))"
  by (simp add: save_now_def Let_def)

lemma thrown_reply_error [simp]: "is_error (thrown_reply x)"
  by (auto simp: thrown_reply_def split: live_error.split store_error.split)

text \<open>
  The contract of a save with rollback: nothing is kept unless it was persisted, when the
  rollback succeeds and yields again the data of the store before the mutation.
\<close>

lemma persist_or_rollback_data:
  assumes "persist_or_rollback ok rollback l = (p, l')"
    and "\<And>s'. rollback (discard_durable_mutations (lv_store l)) = s' \<Longrightarrow> is_done s' \<and> store_data (state_of s') = store_data s0"
  shows "p \<noteq> Rollback_failed \<and> (p = Persisted \<longleftrightarrow> ok)
    \<and> (if ok then lv_store l' = discard_durable_mutations (lv_store l) else store_data (lv_store l') = store_data s0)"
  using assms by (auto simp: persist_or_rollback_def save_now_cases on_store_simps split: outcome.splits if_splits)

section \<open>Undoing a set\<close>

lemma discard_ok [simp]: "store_ok (discard_durable_mutations s) = store_ok s"
  by (simp add: store_ok_def discard_durable_mutations_def)

lemma discard_data [simp]: "store_data (discard_durable_mutations s) = store_data s"
  by (simp add: discard_durable_mutations_def)

definition undo_set :: "'v tracked \<Rightarrow> string \<Rightarrow> 'v option \<Rightarrow> relay_store \<Rightarrow> (store_error, relay_store) outcome" where
  "undo_set T k old s = (case old of Some u \<Rightarrow> dm_set T k u s | None \<Rightarrow> Done (dm_delete T k s))"

context tracked_map begin

lemma discard_frame [simp]:
  "tr_get T (discard_durable_mutations s) = tr_get T s" "erase T (discard_durable_mutations s) = erase T s"
  "store_limits (discard_durable_mutations s) = store_limits s"
  by (simp_all add: discard_durable_mutations_def store_limits_def)

text \<open>After a \<open>set\<close> and a drained log, writing the old value again (or deleting) cannot fail.\<close>

lemma undo_set_restores:
  assumes ok: "store_ok s" and set: "dm_set T k v s = Done s1"
  shows "\<exists>s2. undo_set T k (jget (tr_get T s) k) (discard_durable_mutations s1) = Done s2
     \<and> store_ok s2 \<and> store_data s2 = store_data s"
proof -
  let ?s = "discard_durable_mutations s1"
  have ok1: "store_ok ?s" and get1: "tr_get T s1 = jset k v (tr_get T s)"
    using dm_set_done [OF ok set] by simp_all
  have er: "erase T ?s = erase T s" and lim: "store_limits ?s = store_limits s"
    using dm_set_Done_erase [OF set] dm_set_limits [OF set] by simp_all
  have wf: "jwf (tr_get T s)" using ok by (simp add: store_ok_def get_wf)
  show ?thesis
  proof (cases "jget (tr_get T s) k")
    case None
    from dm_delete_ok [OF ok1, of k] have d: "store_ok (dm_delete T k ?s)" "tr_get T (dm_delete T k ?s) = tr_get T s"
      by (simp_all add: get1 jdel_jset_new [OF None])
    with data_by_erase [of "dm_delete T k ?s" s] er show ?thesis
      by (simp add: undo_set_def None dm_delete_erase)
  next
    case (Some u)
    have now: "jset k u (tr_get T s1) = tr_get T s" using jset_jset_restore [OF Some wf] by (simp add: get1)
    then have old_again: "jset k u (tr_get T ?s) = tr_get T s" by simp
    have "fits ?s (entry_teams (tr_put T (tr_get T s) ?s)) (entry_weights (tr_put T (tr_get T s) ?s))"
      using store_ok_fits [OF ok] unfolding entries_by_erase [OF er] fits_limits [OF lim] by (simp add: put_get)
    with dm_set_complete [OF ok1, of k u] obtain s2 where s2: "dm_set T k u ?s = Done s2"
      unfolding old_again by blast
    have ok2: "store_ok s2" "tr_get T s2 = tr_get T s" using dm_set_done [OF ok1 s2] now by simp_all
    with data_by_erase [of s2 s] dm_set_Done_erase [OF s2] er s2 show ?thesis
      by (simp add: undo_set_def Some)
  qed
qed

end

end
