(* ===== verification/Devices.thy ===== *)
theory Devices
  imports Http
begin

text \<open>
  Device identities (apps/relay/src/http/devices.ts) and device sessions
  (apps/relay/src/http/device-auth.ts): registration binds a device id to its public keys, and
  a device session is issued only against a fresh challenge signed under the device's key.
\<close>

section \<open>Configuration\<close>

text \<open>
  The caps of the configuration; from \<open>node:crypto\<close>, whether DER bytes are a P-256 public key
  and whether 65 bytes are an uncompressed P-256 point; the time a text denotes to
  \<open>Date.parse\<close>, and the texts the schema library takes for a datetime.
\<close>

record config =
  cf_env :: env
  cf_spki :: "string \<Rightarrow> bool"
  cf_point :: "string \<Rightarrow> bool"
  cf_key_chars :: nat
  cf_device_cap :: nat
  cf_invite_ttl_days :: nat
  cf_invite_cap :: nat
  cf_stamp :: "string \<Rightarrow> stamp"
  cf_datetime :: "string \<Rightarrow> bool"

section \<open>Challenges (device-auth.ts)\<close>

definition max_challenges :: nat where "max_challenges = 10000"
definition max_device_challenges :: nat where "max_device_challenges = 5"
definition challenge_ms :: int where "challenge_ms = 60000"
definition device_session_ms :: int where "device_session_ms = 15 * 60000"

definition prune_expired :: "int \<Rightarrow> relay_store \<Rightarrow> relay_store" where
  "prune_expired now s =
     s\<lparr>deviceChallenges := jwhere (\<lambda>_ c. \<not> dc_expires c < now) (deviceChallenges s),
       deviceSessions := jwhere (\<lambda>_ d. \<not> ds_expires d < now) (deviceSessions s)\<rparr>"

definition pending_challenge_count :: "relay_store \<Rightarrow> string \<Rightarrow> string \<Rightarrow> nat" where
  "pending_challenge_count s u d =
     length (filter (\<lambda>c. dc_user c = u \<and> dc_device c = d) (jvalues (deviceChallenges s)))"

text \<open>\<open>POST /devices/:deviceId/challenge\<close>; \<open>challenge\<close> is the random challenge drawn.\<close>

definition create_challenge ::
  "env \<Rightarrow> int \<Rightarrow> string \<Rightarrow> auth_session option \<Rightarrow> string \<Rightarrow> relay_store \<Rightarrow> (string \<times> int) reply \<times> relay_store" where
  "create_challenge e now challenge session d s =
     (if \<not> allowed e session then (Http_error 401 H_authentication_required, s)
      else case session of
        None \<Rightarrow> (Http_error 404 H_not_found, s)
      | Some a \<Rightarrow>
          if get_device s (session_user_of a) d = None then (Http_error 404 H_not_found, s)
          else
            let s1 = prune_expired now s in
            if length (deviceChallenges s1) \<ge> max_challenges
               \<or> pending_challenge_count s1 (session_user_of a) d \<ge> max_device_challenges
            then (Http_error 429 H_rate_limited, s1)
            else (Reply 200 (challenge, now + challenge_ms),
                  s1\<lparr>deviceChallenges := jset challenge
                       \<lparr>dc_user = session_user_of a, dc_device = d, dc_expires = now + challenge_ms\<rparr>
                       (deviceChallenges s1)\<rparr>))"

section \<open>Proof of possession\<close>

text \<open>\<open>isCanonicalBase64\<close>, with the exact length and the maximal length when they are given.\<close>

definition is_canonical_base64_of :: "nat option \<Rightarrow> nat option \<Rightarrow> string \<Rightarrow> bool" where
  "is_canonical_base64_of exact maximum v =
     (if v = [] \<or> length v > 512 then False
      else case b64_decode v of
        None \<Rightarrow> False
      | Some bytes \<Rightarrow> b64_encode bytes = v
          \<and> (case exact of None \<Rightarrow> True | Some n \<Rightarrow> length bytes = n)
          \<and> (case maximum of None \<Rightarrow> True | Some n \<Rightarrow> length bytes \<le> n))"

definition uint16_be :: "nat \<Rightarrow> string option" where
  "uint16_be n = (if n < 65536 then Some [char_of (n div 256), char_of (n mod 256)] else None)"

text \<open>\<open>deviceAuthPayload\<close>; writing a length beyond 16 bits throws.\<close>

definition device_auth_payload :: "string \<Rightarrow> string \<Rightarrow> string \<Rightarrow> string option" where
  "device_auth_payload u d challenge =
     (case (uint16_be (length (utf8_bytes u)), uint16_be (length (utf8_bytes d))) of
        (Some ub, Some db) \<Rightarrow>
          Some (''multaiplayer:relay-device-auth:v1'' @ [char_of (0::nat)] @ ub @ utf8_bytes u @ db @ utf8_bytes d @ challenge)
      | _ \<Rightarrow> None)"

definition valid_device_signature :: "env \<Rightarrow> string \<Rightarrow> string \<Rightarrow> string \<Rightarrow> string \<Rightarrow> string \<Rightarrow> bool" where
  "valid_device_signature e key u d challenge signature =
     (if length (b64_bytes challenge) \<noteq> 32 then False
      else case device_auth_payload u d (b64_bytes challenge) of
        None \<Rightarrow> False
      | Some payload \<Rightarrow> en_verify e (b64_bytes key) payload (b64_bytes signature))"

definition valid_pending_challenge :: "int \<Rightarrow> device_challenge option \<Rightarrow> string \<Rightarrow> string \<Rightarrow> bool" where
  "valid_pending_challenge now pending u d =
     (case pending of None \<Rightarrow> False | Some c \<Rightarrow> dc_expires c \<ge> now \<and> dc_user c = u \<and> dc_device c = d)"

text \<open>\<open>issueDeviceSession\<close>: an older session of the same device is replaced.\<close>

definition issue_device_session :: "int \<Rightarrow> string \<Rightarrow> string \<Rightarrow> string \<Rightarrow> relay_store \<Rightarrow> (string \<times> int) reply \<times> relay_store" where
  "issue_device_session now token u d s =
     (let s1 = prune_expired now s;
          kept = jwhere (\<lambda>_ x. \<not> (ds_user x = u \<and> ds_device x = d)) (deviceSessions s1);
          ends = now + device_session_ms
      in (Reply 200 (token, ends),
          s1\<lparr>deviceSessions := jset token \<lparr>ds_token = token, ds_user = u, ds_device = d, ds_expires = ends\<rparr> kept\<rparr>))"

definition create_device_session ::
  "env \<Rightarrow> int \<Rightarrow> string \<Rightarrow> auth_session option \<Rightarrow> string \<Rightarrow> jsv \<Rightarrow> relay_store \<Rightarrow> (string \<times> int) reply \<times> relay_store" where
  "create_device_session e now token session d body s =
     (if \<not> allowed e session then (Http_error 401 H_authentication_required, s)
      else
        let challenge = string_or_empty (field_of body ''challenge'');
            signature = string_or_empty (field_of body ''signature'') in
        if \<not> is_canonical_base64_of (Some 32) (Some 32) challenge \<or> \<not> is_canonical_base64_of None (Some 256) signature
        then (Http_error 403 H_device_auth_required, s)
        else
          let pending = jget (deviceChallenges s) challenge;
              s1 = s\<lparr>deviceChallenges := jdel challenge (deviceChallenges s)\<rparr> in
          case session of
            None \<Rightarrow> (Http_error 403 H_device_auth_required, s1)
          | Some a \<Rightarrow>
              (case get_device s1 (session_user_of a) d of
                 None \<Rightarrow> (Http_error 403 H_device_auth_required, s1)
               | Some device \<Rightarrow>
                   if \<not> valid_pending_challenge now pending (session_user_of a) d
                   then (Http_error 403 H_device_auth_required, s1)
                   else if \<not> valid_device_signature e (d_sig_key device) (session_user_of a) d challenge signature
                   then (Http_error 403 H_device_auth_required, s1)
                   else issue_device_session now token (session_user_of a) d s1))"

text \<open>\<open>hasDeviceSession\<close>: an expired session is dropped when it is presented.\<close>

definition has_device_session :: "int \<Rightarrow> string option \<Rightarrow> string \<Rightarrow> string \<Rightarrow> relay_store \<Rightarrow> bool \<times> relay_store" where
  "has_device_session now token u d s =
     (case token of
        None \<Rightarrow> (False, s)
      | Some t \<Rightarrow>
          let expired = (False, s\<lparr>deviceSessions := jdel t (deviceSessions s)\<rparr>) in
          (case jget (deviceSessions s) t of
             None \<Rightarrow> expired
           | Some x \<Rightarrow> if ds_expires x < now then expired else (ds_user x = u \<and> ds_device x = d, s)))"

section \<open>Registration (devices.ts)\<close>

record device_identity =
  di_user :: string
  di_device :: string
  di_display :: string
  di_sig_key :: string
  di_sig_fp :: string
  di_hpke_key :: string
  di_hpke_fp :: string

definition device_count_for_user :: "relay_store \<Rightarrow> string \<Rightarrow> nat" where
  "device_count_for_user s u = length (filter (\<lambda>d. d_user d = u) (jvalues (devices s)))"

definition valid_p256_spki :: "config \<Rightarrow> string \<Rightarrow> bool" where
  "valid_p256_spki cf v \<longleftrightarrow> is_canonical_base64 v (cf_key_chars cf) \<and> cf_spki cf (b64_bytes v)"

definition valid_p256_hpke_key :: "config \<Rightarrow> string \<Rightarrow> bool" where
  "valid_p256_hpke_key cf v \<longleftrightarrow> is_canonical_base64 v (cf_key_chars cf) \<and>
     (let bytes = b64_bytes v in length bytes = 65 \<and> hd bytes = char_of (4::nat) \<and> cf_point cf bytes)"

text \<open>The hex digest in groups of four, joined by colons.\<close>

fun groups_of_four :: "string \<Rightarrow> string list" where
  "groups_of_four (a # b # c # d # s) = [a, b, c, d] # groups_of_four s"
| "groups_of_four [] = []"
| "groups_of_four s = [s]"

fun join_colon :: "string list \<Rightarrow> string" where
  "join_colon [] = []"
| "join_colon [x] = x"
| "join_colon (x # xs) = x @ '':'' @ join_colon xs"

definition fingerprint_public_key :: "env \<Rightarrow> string \<Rightarrow> string" where
  "fingerprint_public_key e key = ''sha256:'' @ join_colon (groups_of_four (en_sha256 e (b64_bytes key)))"

definition normalized_device_identity_fields :: "config \<Rightarrow> jsv \<Rightarrow> auth_session \<Rightarrow> device_identity option" where
  "normalized_device_identity_fields cf body a =
     (let norm = (\<lambda>k n. normalize_metadata_text (field_of body k) n) in
      case (norm ''deviceId'' max_device_id,
            normalize_metadata_text (J_str (display_name_for_user (as_user a))) max_display_name,
            norm ''signaturePublicKey'' (cf_key_chars cf), norm ''hpkePublicKey'' (cf_key_chars cf),
            norm ''signatureKeyFingerprint'' max_fingerprint, norm ''hpkeKeyFingerprint'' max_fingerprint) of
        (Some d, Some n, Some sk, Some hk, Some sf, Some hf) \<Rightarrow>
          if session_user_of a = [] then None
          else Some \<lparr>di_user = session_user_of a, di_device = d, di_display = n, di_sig_key = sk, di_sig_fp = sf,
                     di_hpke_key = hk, di_hpke_fp = hf\<rparr>
      | _ \<Rightarrow> None)"

definition device_fingerprints_match :: "env \<Rightarrow> device_identity \<Rightarrow> bool" where
  "device_fingerprints_match e i \<longleftrightarrow>
     di_sig_fp i = fingerprint_public_key e (di_sig_key i) \<and> di_hpke_fp i = fingerprint_public_key e (di_hpke_key i)"

text \<open>\<open>normalizeDeviceRegistration\<close>: the identity, or the reply that refuses it.\<close>

definition normalize_device_registration :: "config \<Rightarrow> jsv \<Rightarrow> auth_session \<Rightarrow> (device reply, device_identity) sum" where
  "normalize_device_registration cf body a =
     (case normalize_optional_metadata_text (field_of body ''userId'') max_user_id of
        None \<Rightarrow> Inl (Http_error 400 H_invalid_request)
      | Some requested \<Rightarrow>
          if requested \<noteq> [] \<and> requested \<noteq> session_user_of a then Inl (Http_error 403 H_forbidden)
          else case normalized_device_identity_fields cf body a of
            None \<Rightarrow> Inl (Http_error 400 H_invalid_request)
          | Some i \<Rightarrow>
              if \<not> valid_p256_spki cf (di_sig_key i) \<or> \<not> valid_p256_hpke_key cf (di_hpke_key i)
                 \<or> \<not> device_fingerprints_match (cf_env cf) i
              then Inl (Http_error 400 H_invalid_request) else Inr i)"

text \<open>
  \<open>POST /devices\<close> once the account's turn is held. \<open>ok\<close> is the save. A throw of the rollback
  leaves the handler by the middleware.
\<close>

definition registered_device :: "int \<Rightarrow> device_identity \<Rightarrow> device option \<Rightarrow> device" where
  "registered_device now i existing =
     \<lparr>d_user = di_user i, d_device = di_device i, d_display = di_display i, d_sig_key = di_sig_key i,
      d_sig_fp = di_sig_fp i, d_hpke_key = di_hpke_key i, d_hpke_fp = di_hpke_fp i,
      d_registered = (case existing of None \<Rightarrow> Iso now | Some d \<Rightarrow> d_registered d), d_last_seen = Iso now\<rparr>"

definition undo_device :: "device_identity \<Rightarrow> device option \<Rightarrow> relay_store \<Rightarrow> (store_error, relay_store) outcome" where
  "undo_device i existing s =
     (case existing of Some d \<Rightarrow> set_device d s
      | None \<Rightarrow> Done (dm_delete device_map (device_key (di_user i) (di_device i)) s))"

definition register_device_turn ::
  "config \<Rightarrow> int \<Rightarrow> bool \<Rightarrow> auth_session \<Rightarrow> device_identity \<Rightarrow> live \<Rightarrow> device reply \<times> live" where
  "register_device_turn cf now ok a i l =
     (let s = lv_store l; existing = get_device s (di_user i) (di_device i) in
      if \<not> is_live_account_session s a now then (Http_error 401 H_authentication_required, l)
      else if (case existing of None \<Rightarrow> False | Some d \<Rightarrow> d_sig_key d \<noteq> di_sig_key i \<or> d_hpke_key d \<noteq> di_hpke_key i)
      then (Http_error 409 H_conflict, l)
      else if existing = None \<and> device_count_for_user s (di_user i) \<ge> cf_device_cap cf
      then (Http_error 429 H_quota_exceeded, l)
      else
        let device = registered_device now i existing in
        case on_store (set_device device) l of
          Throws (L_store (Entry_capacity _ _)) l1 \<Rightarrow> (Http_error 507 H_capacity_exceeded, l1)
        | Throws _ l1 \<Rightarrow> (Http_error 503 H_persistence_unavailable, l1)
        | Done l1 \<Rightarrow>
            (case save_now ok l1 of
               Done l2 \<Rightarrow> (Reply (if existing = None then 201 else 200) device, l2)
             | Throws _ l2 \<Rightarrow>
                 handle (on_store (undo_device i existing) l2)
                   (\<lambda>l3. (Http_error 503 H_persistence_unavailable, l3))))"

definition register_device ::
  "config \<Rightarrow> int \<Rightarrow> bool \<Rightarrow> auth_session option \<Rightarrow> jsv \<Rightarrow> live \<Rightarrow> device reply \<times> live" where
  "register_device cf now ok session body l =
     (if \<not> allowed (cf_env cf) session then (Http_error 401 H_authentication_required, l)
      else case session of
        None \<Rightarrow> (Http_error 401 H_authentication_required, l)
      | Some a \<Rightarrow>
          (case normalize_device_registration cf body a of
             Inl refusal \<Rightarrow> (refusal, l) | Inr i \<Rightarrow> register_device_turn cf now ok a i l))"

text \<open>
  \<open>GET /teams/:teamId/devices\<close>, up to the order of the list (\<open>localeCompare\<close> belongs to the
  runtime's locale): the devices of the members.
\<close>

definition team_devices :: "env \<Rightarrow> auth_session option \<Rightarrow> string \<Rightarrow> relay_store \<Rightarrow> device list reply" where
  "team_devices e session t s =
     (case session of
        None \<Rightarrow> Http_error 401 H_authentication_required
      | Some a \<Rightarrow>
          if \<not> jhas (teams s) t then Http_error 404 H_team_not_found
          else if \<not> has_team_member s t (session_user_of a) then Http_error 403 H_forbidden
          else Reply 200 (filter (\<lambda>d. has_team_member s t (d_user d)) (jvalues (devices s))))"

end
