(* ===== verification/Devices_Proofs.thy ===== *)
theory Devices_Proofs
  imports Devices
begin

text \<open>
  A device id never changes its keys, registration is all or nothing, and a device session
  needs a fresh, single-use challenge signed under the registered key.
\<close>

section \<open>Challenges and sessions\<close>

lemma prune_expired_frame [simp]:
  "devices (prune_expired now s) = devices s" "teamMembers (prune_expired now s) = teamMembers s"
  by (simp_all add: prune_expired_def)

lemma length_jwhere: "length (jwhere P m) \<le> length m"
  by (simp add: jwhere_def)

definition challenges_ok :: "relay_store \<Rightarrow> bool" where
  "challenges_ok s \<longleftrightarrow> jwf (deviceChallenges s) \<and> jwf (deviceSessions s)
     \<and> length (deviceChallenges s) \<le> max_challenges
     \<and> (\<forall>u d. pending_challenge_count s u d \<le> max_device_challenges)"

lemma jvalues_jset_count:
  "jwf m \<Longrightarrow> length (filter P (jvalues (jset k v m))) \<le> length (filter P (jvalues m)) + (if P v then 1 else 0)"
  unfolding jvalues_def jset_def by (induction m) (auto simp: not_less_eq_eq)

lemma jvalues_jwhere_count: "length (filter P (jvalues (jwhere Q m))) \<le> length (filter P (jvalues m))"
  unfolding jvalues_def jwhere_def by (induction m) auto

lemma jvalues_jdel_count: "length (filter P (jvalues (jdel k m))) \<le> length (filter P (jvalues m))"
  unfolding jvalues_def jdel_def by (induction m) auto

lemma challenges_ok_shrink:
  assumes "challenges_ok s" and "jwf m" and "jwf n"
    and "\<And>P. length (filter P (jvalues m)) \<le> length (filter P (jvalues (deviceChallenges s)))"
  shows "challenges_ok (s\<lparr>deviceChallenges := m, deviceSessions := n\<rparr>)"
proof -
  have "length m \<le> length (deviceChallenges s)" using assms(4) [of "\<lambda>_. True"] by (simp add: jvalues_def)
  moreover have "pending_challenge_count (s\<lparr>deviceChallenges := m, deviceSessions := n\<rparr>) u d \<le> max_device_challenges" for u d
    using assms(1) assms(4) [of "\<lambda>c. dc_user c = u \<and> dc_device c = d"]
    unfolding challenges_ok_def pending_challenge_count_def by (simp, meson order_trans)
  ultimately show ?thesis using assms(1-3) by (simp add: challenges_ok_def)
qed

lemma challenges_ok_prune: "challenges_ok s \<Longrightarrow> challenges_ok (prune_expired now s)"
  unfolding prune_expired_def
  by (rule challenges_ok_shrink) (auto simp: challenges_ok_def jvalues_jwhere_count)

lemma create_challenge_ok:
  assumes ok: "challenges_ok s"
  shows "challenges_ok (snd (create_challenge e now c session d s))"
proof -
  let ?s = "prune_expired now s"
  have ok': "challenges_ok ?s" by (rule challenges_ok_prune [OF ok])
  have grow: "challenges_ok (?s\<lparr>deviceChallenges := jset c x (deviceChallenges ?s)\<rparr>)"
    if less: "length (deviceChallenges ?s) < max_challenges"
      and few: "pending_challenge_count ?s (dc_user x) (dc_device x) < max_device_challenges" for x
  proof -
    have len: "length (jset c x (deviceChallenges ?s)) \<le> max_challenges"
      using less by (simp add: length_jset)
    have "pending_challenge_count (?s\<lparr>deviceChallenges := jset c x (deviceChallenges ?s)\<rparr>) u v \<le> max_device_challenges" for u v
    proof -
      have "pending_challenge_count (?s\<lparr>deviceChallenges := jset c x (deviceChallenges ?s)\<rparr>) u v
          \<le> pending_challenge_count ?s u v + (if dc_user x = u \<and> dc_device x = v then 1 else 0)"
        using jvalues_jset_count [of "deviceChallenges ?s" "\<lambda>y. dc_user y = u \<and> dc_device y = v" c x] ok'
        by (simp add: pending_challenge_count_def challenges_ok_def)
      also have "\<dots> \<le> max_device_challenges"
        using few ok' by (auto simp: challenges_ok_def)
      finally show ?thesis .
    qed
    with len ok' show ?thesis by (simp add: challenges_ok_def)
  qed
  show ?thesis
    using ok ok' by (auto simp: create_challenge_def Let_def intro!: grow split: option.split)
qed

text \<open>Consuming, expiring or issuing only removes challenges.\<close>

lemma delete_challenge_ok:
  assumes "challenges_ok s"
  shows "challenges_ok (s\<lparr>deviceChallenges := jdel c (deviceChallenges s)\<rparr>)"
  using challenges_ok_shrink [OF assms, of "jdel c (deviceChallenges s)" "deviceSessions s"] assms
  by (simp add: challenges_ok_def jvalues_jdel_count)

lemma set_sessions_ok: "challenges_ok s \<Longrightarrow> jwf m \<Longrightarrow> challenges_ok (s\<lparr>deviceSessions := m\<rparr>)"
  by (simp add: challenges_ok_def pending_challenge_count_def)

lemma issue_device_session_ok:
  assumes "challenges_ok s"
  shows "challenges_ok (snd (issue_device_session now token u d s))"
proof -
  have "jwf (deviceSessions (prune_expired now s))"
    using challenges_ok_prune [OF assms] by (simp add: challenges_ok_def)
  then show ?thesis
    by (simp add: issue_device_session_def Let_def set_sessions_ok challenges_ok_prune [OF assms] jwf_jwhere jwf_jset)
qed

lemma create_device_session_ok:
  assumes "challenges_ok s"
  shows "challenges_ok (snd (create_device_session e now token session d body s))"
  using assms delete_challenge_ok [OF assms] issue_device_session_ok [OF delete_challenge_ok [OF assms]]
  by (simp add: create_device_session_def Let_def split: option.split)

lemma filter_jset_single: "P v \<Longrightarrow> filter P (jvalues m) = [] \<Longrightarrow> filter P (jvalues (jset k v m)) = [v]"
  unfolding jvalues_def jset_def by (induction m) (auto split: if_splits)

definition challenge_of :: "jsv \<Rightarrow> string" where
  "challenge_of body = string_or_empty (field_of body ''challenge'')"

text \<open>
  C8: A device session is issued only to the account that asked for the challenge, for a
  registered device, on an unexpired challenge of that device signed under the device's
  registered key. The challenge is consumed, the new session is the only one of the device, and
  it is recognised until it expires.
\<close>

theorem device_session_needs_proof:
  assumes issued: "create_device_session e now token (Some a) d body s = (Reply st payload, s')"
  shows "\<exists>c device. jget (deviceChallenges s) (challenge_of body) = Some c
      \<and> dc_user c = session_user_of a \<and> dc_device c = d \<and> now \<le> dc_expires c
      \<and> get_device s (session_user_of a) d = Some device
      \<and> valid_device_signature e (d_sig_key device) (session_user_of a) d (challenge_of body)
           (string_or_empty (field_of body ''signature''))
      \<and> jget (deviceChallenges s') (challenge_of body) = None
      \<and> filter (\<lambda>x. ds_user x = session_user_of a \<and> ds_device x = d) (jvalues (deviceSessions s'))
          = [\<lparr>ds_token = token, ds_user = session_user_of a, ds_device = d, ds_expires = now + device_session_ms\<rparr>]
      \<and> (\<forall>t u v. t \<le> now + device_session_ms \<longrightarrow>
            fst (has_device_session t (Some token) u v s') = (u = session_user_of a \<and> v = d))"
proof -
  let ?c = "challenge_of body" and ?sig = "string_or_empty (field_of body ''signature'')" and ?u = "session_user_of a"
  let ?s = "s\<lparr>deviceChallenges := jdel ?c (deviceChallenges s)\<rparr>"
  from issued obtain device where device: "get_device s ?u d = Some device"
    and valid: "valid_pending_challenge now (jget (deviceChallenges s) ?c) ?u d"
    and sig: "valid_device_signature e (d_sig_key device) ?u d ?c ?sig"
    and s': "s' = snd (issue_device_session now token ?u d ?s)"
    by (auto simp: create_device_session_def challenge_of_def Let_def get_device_def split: if_splits option.splits)
  from valid obtain c where c: "jget (deviceChallenges s) ?c = Some c" "dc_user c = ?u" "dc_device c = d" "now \<le> dc_expires c"
    by (auto simp: valid_pending_challenge_def split: option.splits)
  let ?new = "\<lparr>ds_token = token, ds_user = ?u, ds_device = d, ds_expires = now + device_session_ms\<rparr>"
  let ?kept = "jwhere (\<lambda>_ x. \<not> (ds_user x = ?u \<and> ds_device x = d)) (deviceSessions (prune_expired now ?s))"
  have sessions: "deviceSessions s' = jset token ?new ?kept"
    and challenges: "deviceChallenges s' = jwhere (\<lambda>_ c. \<not> dc_expires c < now) (jdel ?c (deviceChallenges s))"
    by (simp_all add: s' issue_device_session_def Let_def prune_expired_def)
  have none: "filter (\<lambda>x. ds_user x = ?u \<and> ds_device x = d) (jvalues ?kept) = []"
    by (auto simp: jvalues_def jwhere_def filter_empty_conv)
  have only: "filter (\<lambda>x. ds_user x = ?u \<and> ds_device x = d) (jvalues (deviceSessions s')) = [?new]"
    unfolding sessions by (rule filter_jset_single [OF _ none]) simp
  have "?c \<notin> fst ` set (deviceChallenges s')"
    unfolding challenges jwhere_def jdel_def by (auto simp: AList.delete_eq)
  then have gone: "jget (deviceChallenges s') ?c = None" by (simp add: map_of_eq_None_iff)
  have "fst (has_device_session t (Some token) u v s') = (u = ?u \<and> v = d)" if "t \<le> now + device_session_ms" for t u v
    using that by (auto simp: has_device_session_def Let_def sessions)
  with c device sig gone only show ?thesis by blast
qed

text \<open>
  A challenge works once: whatever a first request for a device session with well-formed
  proof material returned, a second one with the same challenge is refused.
\<close>

theorem challenge_is_single_use:
  assumes "create_device_session e now token session d body s = (r, s1)" and "r \<noteq> Http_error 401 H_authentication_required"
    and "is_canonical_base64_of None (Some 256) (string_or_empty (field_of body ''signature''))"
    and "challenge_of body' = challenge_of body"
  shows "is_error (fst (create_device_session e' now' token' session' d' body' s1))"
proof -
  let ?c = "challenge_of body"
  have none: "jget (deviceChallenges (snd (issue_device_session now token u d (s\<lparr>deviceChallenges := jdel ?c (deviceChallenges s)\<rparr>)))) ?c = None" for u
    by (simp add: issue_device_session_def Let_def prune_expired_def map_of_eq_None_iff jwhere_def jdel_def)
       (auto simp: AList.delete_eq)
  have gone: "jget (deviceChallenges s1) ?c = None \<or> \<not> is_canonical_base64_of (Some 32) (Some 32) ?c"
  proof -
    have "s1 = snd (create_device_session e now token session d body s)" by (simp add: assms(1))
    moreover have "allowed e session"
      using assms(1,2) by (cases "allowed e session") (simp_all add: create_device_session_def)
    ultimately show ?thesis
      using assms(3) none by (simp add: create_device_session_def Let_def challenge_of_def [symmetric] split: option.split)
  qed
  show ?thesis
  proof (rule ccontr)
    assume "\<not> ?thesis"
    then have "is_canonical_base64_of (Some 32) (Some 32) ?c" "jget (deviceChallenges s1) ?c \<noteq> None"
      using assms(4)
      by (auto simp: create_device_session_def Let_def challenge_of_def [symmetric] valid_pending_challenge_def
          split: if_splits option.splits)
    with gone show False by blast
  qed
qed

section \<open>Registration\<close>

definition keys_of :: "relay_store \<Rightarrow> string \<Rightarrow> string \<Rightarrow> (string \<times> string) option" where
  "keys_of s u d = map_option (\<lambda>x. (d_sig_key x, d_hpke_key x)) (get_device s u d)"

lemma undo_device_is:
  "(\<And>x. existing = Some x \<Longrightarrow> d_user x = di_user i \<and> d_device x = di_device i) \<Longrightarrow>
     undo_device i existing s' = undo_set device_map (device_key (di_user i) (di_device i)) existing s'"
  by (auto simp: undo_device_def undo_set_def set_device_def split: option.split)

lemma get_device_map: "get_device s u d = jget (tr_get device_map s) (device_key u d)"
  by (simp add: get_device_def device_map_def)

lemma devices_by_data: "store_data s = store_data s' \<Longrightarrow> devices s = devices s'"
  by (drule arg_cong [where f = devices]) (simp add: store_data_def)

lemma discard_devices [simp]: "devices (discard_durable_mutations s) = devices s"
  by (simp add: discard_durable_mutations_def)

text \<open>
  C9: Registering a device answers with the device exactly when it was stored and saved. Every
  other answer leaves the data of the store as it was; in no case does a device id that was
  already bound get other keys, and other device ids are not touched.
\<close>

theorem device_keys_are_bound:
  assumes ok: "store_ok (lv_store l)"
    and same: "\<And>x. get_device (lv_store l) (di_user i) (di_device i) = Some x \<Longrightarrow> d_user x = di_user i \<and> d_device x = di_device i"
    and run: "register_device_turn cf now ok1 a i l = (r, l')"
  shows "store_ok (lv_store l')
     \<and> (if is_error r then store_data (lv_store l') = store_data (lv_store l)
        else get_device (lv_store l') (di_user i) (di_device i)
               = Some (registered_device now i (get_device (lv_store l) (di_user i) (di_device i))))
     \<and> (\<forall>keys. keys_of (lv_store l) (di_user i) (di_device i) = Some keys \<longrightarrow>
          keys_of (lv_store l') (di_user i) (di_device i) = Some keys)
     \<and> (\<forall>k. k \<noteq> device_key (di_user i) (di_device i) \<longrightarrow> jget (devices (lv_store l')) k = jget (devices (lv_store l)) k)"
proof -
  let ?s = "lv_store l" and ?k = "device_key (di_user i) (di_device i)"
  let ?old = "get_device ?s (di_user i) (di_device i)"
  let ?new = "registered_device now i ?old"
  have key: "device_key (d_user ?new) (d_device ?new) = ?k" by (simp add: registered_device_def)
  have unchanged: ?thesis if "is_error r" and "store_data (lv_store l') = store_data ?s" and "store_ok (lv_store l')"
  proof -
    from that(2) have "devices (lv_store l') = devices ?s" by (rule devices_by_data)
    with that show ?thesis by (simp add: keys_of_def get_device_def)
  qed
  consider (refused) "is_error r" "l' = l"
    | (accepted) "\<not> (case ?old of None \<Rightarrow> False | Some d \<Rightarrow> d_sig_key d \<noteq> di_sig_key i \<or> d_hpke_key d \<noteq> di_hpke_key i)"
      "(case on_store (set_device ?new) l of
          Throws (L_store (Entry_capacity _ _)) l1 \<Rightarrow> (Http_error 507 H_capacity_exceeded, l1)
        | Throws _ l1 \<Rightarrow> (Http_error 503 H_persistence_unavailable, l1)
        | Done l1 \<Rightarrow>
            (case save_now ok1 l1 of
               Done l2 \<Rightarrow> (Reply (if ?old = None then 201 else 200) ?new, l2)
             | Throws _ l2 \<Rightarrow> handle (on_store (undo_device i ?old) l2)
                   (\<lambda>l3. (Http_error 503 H_persistence_unavailable, l3)))) = (r, l')"
    using run unfolding register_device_turn_def Let_def by (simp split: if_splits) fastforce+
  then show ?thesis
  proof cases
    case refused
    then show ?thesis using ok by (intro unchanged) simp_all
  next
    case accepted
    show ?thesis
    proof (cases "set_device ?new ?s")
      case (Throws x s1)
      then have "s1 = ?s" using device_tm.dm_set_throws [OF ok] by (simp add: set_device_def)
      with accepted(2) Throws have "is_error r \<and> lv_store l' = ?s"
        by (auto simp: on_store_simps split: store_error.splits)
      then show ?thesis using ok by (intro unchanged) simp_all
    next
      case (Done s1)
      then have set: "dm_set device_map ?k ?new ?s = Done s1" unfolding set_device_def key .
      show ?thesis
      proof (cases ok1)
        case True
        with accepted(2) Done have r: "\<not> is_error r" "lv_store l' = discard_durable_mutations s1"
          by (auto simp: on_store_simps save_now_cases)
        from device_tm.dm_set_done [OF ok set] have ok': "store_ok s1" and get: "devices s1 = jset ?k ?new (devices ?s)"
          by (simp_all add: device_map_def)
        from accepted(1) get show ?thesis
          by (auto simp: r ok' get_device_def keys_of_def registered_device_def split: option.splits)
      next
        case False
        from device_tm.undo_set_restores [OF ok set] obtain s2 where
          s2: "undo_set device_map ?k ?old (discard_durable_mutations s1) = Done s2" "store_ok s2" "store_data s2 = store_data ?s"
          by (auto simp: get_device_map)
        have "undo_device i ?old (discard_durable_mutations s1) = Done s2"
          using undo_device_is [of ?old i "discard_durable_mutations s1"] same s2(1) by simp
        with accepted(2) Done False have "is_error r" "lv_store l' = s2"
          by (auto simp: on_store_simps save_now_cases)
        with s2 show ?thesis by (intro unchanged) simp_all
      qed
    qed
  qed
qed

end
