(* ===== verification/Dispatch.thy ===== *)
theory Dispatch
  imports Devices
begin

text \<open>
  One WebSocket connection: admission and quotas (apps/relay/src/ws/connection-admission.ts),
  the checks on a parsed message (ws/connection-validation.ts), its dispatch
  (ws/connection-dispatch.ts), and the errors sent back (ws/connection.ts). The schema parser is
  a library; a message is a \<open>client_message\<close>, the type the schema \<open>RelayClientMessage\<close> of
  packages/protocol/src/relay-messages.ts describes. The text of a publish refusal is left empty.
\<close>

datatype client_message =
    Join string string string string "string option" "string option"
  | Subscribe_team string string string
  | Subscribe_workspace string string
  | Publish mls_message
  | Presence_message presence

section \<open>Validation (connection-validation.ts)\<close>

definition is_bounded_socket_identity :: "string \<Rightarrow> string \<Rightarrow> bool" where
  "is_bounded_socket_identity u d \<longleftrightarrow>
     normalize_metadata_text (J_str u) max_user_id \<noteq> None \<and> normalize_metadata_text (J_str d) max_device_id \<noteq> None"

definition ws_mls_within_limits :: "mls_options \<Rightarrow> mls_message \<Rightarrow> bool" where
  "ws_mls_within_limits lim m \<longleftrightarrow>
     normalize_metadata_text (J_str (mm_id m)) (lim_envelope_id lim) \<noteq> None
     \<and> normalize_metadata_text (J_str (mm_user m)) (lim_user_id lim) \<noteq> None
     \<and> normalize_metadata_text (J_str (mm_device m)) (lim_device_id lim) \<noteq> None
     \<and> is_canonical_base64 (mm_mls m) (lim_mls_chars lim)
     \<and> utf8_length (mls_text m) \<le> lim_message_bytes lim"

definition is_presence_within_limits :: "presence \<Rightarrow> bool" where
  "is_presence_within_limits p \<longleftrightarrow>
     normalize_metadata_text (J_str (p_display p)) max_display_name \<noteq> None
     \<and> (case p_avatar p of None \<Rightarrow> True | Some a \<Rightarrow> normalize_metadata_text (J_str a) max_project_path \<noteq> None)
     \<and> (case p_fp p of None \<Rightarrow> True | Some f \<Rightarrow> normalize_metadata_text (J_str f) max_fingerprint \<noteq> None)"

definition is_presence_for_joined_session :: "client_session \<Rightarrow> presence \<Rightarrow> bool" where
  "is_presence_for_joined_session cs p \<longleftrightarrow>
     cs_team cs = Some (p_team p) \<and> cs_room cs = Some (p_room p)
     \<and> cs_user cs = Some (p_user p) \<and> cs_device cs = Some (p_device p)"

definition identity_text :: string where
  "identity_text = ''WebSocket user and device ids must be bounded strings without control characters.''"

definition presence_limit_text :: string where
  "presence_limit_text = ''Presence display name, avatar URL, and fingerprint must be bounded strings without control characters.''"

definition mls_limit_text :: "mls_options \<Rightarrow> string" where
  "mls_limit_text lim = ''MLS message exceeds relay limits ('' @ nat_digits (lim_message_bytes lim) @ '' bytes max).''"

fun is_text :: "jsv \<Rightarrow> bool" where
  "is_text (J_str _) = True"
| "is_text _ = False"

text \<open>\<open>relayClientMessagePreflightError\<close>: the first error of the untyped message, if any.\<close>

definition socket_identity_preflight_error :: "jsv \<Rightarrow> string option" where
  "socket_identity_preflight_error m =
     (case (field_of m ''userId'', field_of m ''deviceId'') of
        (J_str u, J_str d) \<Rightarrow> if is_bounded_socket_identity u d then None else Some identity_text
      | _ \<Rightarrow> None)"

definition publish_preflight_error :: "mls_options \<Rightarrow> jsv \<Rightarrow> string option" where
  "publish_preflight_error lim m =
     (let v = field_of m ''message'' in
      if is_plain_record v \<and> is_text (field_of v ''id'') \<and> is_text (field_of v ''senderUserId'')
         \<and> is_text (field_of v ''senderDeviceId'') \<and> is_text (field_of v ''mlsMessage'')
         \<and> (normalize_metadata_text (field_of v ''id'') (lim_envelope_id lim) = None
            \<or> normalize_metadata_text (field_of v ''senderUserId'') (lim_user_id lim) = None
            \<or> normalize_metadata_text (field_of v ''senderDeviceId'') (lim_device_id lim) = None
            \<or> str_field (field_of v ''mlsMessage'') = []
            \<or> length (str_field (field_of v ''mlsMessage'')) > lim_mls_chars lim
            \<or> utf8_length (json_text v) > lim_message_bytes lim)
      then Some (mls_limit_text lim) else None)"

definition invalid_optional_text :: "jsv \<Rightarrow> nat \<Rightarrow> bool" where
  "invalid_optional_text v n \<longleftrightarrow> is_text v \<and> normalize_metadata_text v n = None"

definition presence_preflight_error :: "jsv \<Rightarrow> string option" where
  "presence_preflight_error m =
     (if invalid_optional_text (field_of m ''displayName'') max_display_name
         \<or> invalid_optional_text (field_of m ''avatarUrl'') max_project_path
         \<or> invalid_optional_text (field_of m ''publicKeyFingerprint'') max_fingerprint
      then Some presence_limit_text else None)"

definition client_message_preflight_error :: "mls_options \<Rightarrow> jsv \<Rightarrow> string option" where
  "client_message_preflight_error lim m =
     (if \<not> is_plain_record m then None
      else case field_of m ''type'' of
        J_str t \<Rightarrow>
          if List.member [''join'', ''subscribe.team'', ''subscribe.workspace''] t then socket_identity_preflight_error m
          else if t = ''publish'' then publish_preflight_error lim m
          else if t = ''presence'' then presence_preflight_error m
          else None
      | _ \<Rightarrow> None)"

section \<open>Admission (connection-admission.ts)\<close>

definition user_connection_id :: "client_session \<Rightarrow> string" where
  "user_connection_id cs = (case auth_user_id cs of Some u \<Rightarrow> u | None \<Rightarrow> cs_rate cs)"

text \<open>The other registered sessions of the user, and those of the device among them.\<close>

definition other_connections :: "live \<Rightarrow> client_session \<Rightarrow> client_session list" where
  "other_connections l cs =
     filter (\<lambda>x. cs_registered x \<and> cs_socket x \<noteq> cs_socket cs \<and> user_connection_id x = user_connection_id cs)
       (jvalues (lv_sessions l))"

definition same_device_connections :: "live \<Rightarrow> client_session \<Rightarrow> client_session list" where
  "same_device_connections l cs =
     filter (\<lambda>x. truthy (cs_device x) \<and>
                 user_connection_id x @ '':'' @ the (cs_device x) = user_connection_id cs @ '':'' @ the (cs_device cs))
       (other_connections l cs)"

definition quota_text :: "string \<Rightarrow> nat \<Rightarrow> string" where
  "quota_text who cap =
     ''Concurrent WebSocket connection quota exceeded for this '' @ who @ '' ('' @ nat_digits cap @ '' max).''"

definition socket_connection_quota_error :: "env \<Rightarrow> live \<Rightarrow> client_session \<Rightarrow> string option" where
  "socket_connection_quota_error e l cs =
     (if length (other_connections l cs) \<ge> en_user_cap e then Some (quota_text ''user'' (en_user_cap e))
      else if truthy (cs_device cs) \<and> length (same_device_connections l cs) \<ge> en_device_cap e
      then Some (quota_text ''device'' (en_device_cap e))
      else None)"

definition new_session :: "socket \<Rightarrow> auth_session option \<Rightarrow> string \<Rightarrow> client_session" where
  "new_session k auth rate =
     \<lparr>cs_socket = k, cs_registered = True, cs_auth = auth, cs_rate = rate, cs_team = None, cs_room = None,
      cs_user = None, cs_device = None, cs_token = None, cs_teams = [], cs_workspace = False,
      cs_name = None, cs_avatar = None\<rparr>"

definition refuse :: "socket \<Rightarrow> nat \<Rightarrow> string \<Rightarrow> live \<Rightarrow> live" where
  "refuse k code text l = close_socket k code (send_raw k (Error_message text None None None) l)"

text \<open>
  \<open>admitRelayWebSocketConnection\<close> for a socket that has just opened. \<open>ready\<close> and \<open>within_rate\<close>
  are the answers of the lifecycle and of the rate limiter.
\<close>

definition admit :: "env \<Rightarrow> bool \<Rightarrow> bool \<Rightarrow> auth_session option \<Rightarrow> string \<Rightarrow> socket \<Rightarrow> live \<Rightarrow> live" where
  "admit e ready within_rate auth rate k l0 =
     (let l = l0\<lparr>lv_open := set_add k (lv_open l0)\<rparr>; cs = new_session k auth rate in
      if \<not> ready then refuse k 1012 ''Relay is shutting down. Reconnect to another relay instance.'' l
      else if \<not> within_rate
      then refuse k 1008 ''WebSocket connection rate limit exceeded. Slow down before reconnecting.'' l
      else case socket_connection_quota_error e l cs of
        Some text \<Rightarrow> refuse k 1008 text l
      | None \<Rightarrow> l\<lparr>lv_sessions := jset k cs (lv_sessions l)\<rparr>)"

section \<open>Dispatch (connection-dispatch.ts)\<close>

definition is_active_queued :: "live \<Rightarrow> socket \<Rightarrow> bool" where
  "is_active_queued l k \<longleftrightarrow> List.member (lv_open l) k \<and> registered l k \<noteq> None"

definition is_live_client_session :: "env \<Rightarrow> int \<Rightarrow> live \<Rightarrow> client_session \<Rightarrow> bool" where
  "is_live_client_session e now l cs \<longleftrightarrow> \<not> en_auth e \<or>
     (case cs_auth cs of None \<Rightarrow> False | Some a \<Rightarrow> is_live_account_session (lv_store l) a now)"

definition has_live_authentication :: "env \<Rightarrow> int \<Rightarrow> socket \<Rightarrow> live \<Rightarrow> bool \<times> live" where
  "has_live_authentication e now k l =
     (case session_of l k of
        None \<Rightarrow> (False, l)
      | Some cs \<Rightarrow>
          if is_live_client_session e now l cs then (True, l)
          else (False, close_socket k 1008
                  (send_raw k (Error_message ''Authentication session expired.'' (Some Not_joined) None None) l)))"

text \<open>The device-session test of the adapter (apps/relay/src/relay-websocket-adapter.ts).\<close>

definition debug_device_token :: string where
  "debug_device_token = ''debug-device-session-token-000000''"

definition ws_has_device_session :: "env \<Rightarrow> int \<Rightarrow> string \<Rightarrow> string \<Rightarrow> string \<Rightarrow> live \<Rightarrow> bool \<times> live" where
  "ws_has_device_session e now token u d l =
     (if \<not> en_auth e \<or> (en_debug e \<and> token = debug_device_token) then (True, l)
      else case has_device_session now (Some token) u d (lv_store l) of (b, s) \<Rightarrow> (b, l\<lparr>lv_store := s\<rparr>))"

definition send_error :: "env \<Rightarrow> int \<Rightarrow> socket \<Rightarrow> string \<Rightarrow> relay_code option \<Rightarrow> string option \<Rightarrow> live \<Rightarrow> live" where
  "send_error e now k text code message_id l = send e now k (Error_message text code message_id None) l"

definition invite_join_text :: string where
  "invite_join_text = ''Sign in and use a valid invite before joining this room.''"

text \<open>The requests a host that joins its room has not answered yet.\<close>

definition pending_invite_requests :: "relay_store \<Rightarrow> client_session \<Rightarrow> invite_request list" where
  "pending_invite_requests s cs =
     (case (if truthy (cs_room cs) then jget (rooms s) (the (cs_room cs)) else None) of
        None \<Rightarrow> []
      | Some r \<Rightarrow>
          if Some (r_team r) \<noteq> cs_team cs \<or> r_status r \<noteq> Host_active \<or> r_host_user r \<noteq> cs_user cs
             \<or> r_host_device r \<noteq> cs_device cs then []
          else filter (\<lambda>q. \<not> jhas (inviteResponses s) (q_id q) \<and>
                 (case jget (invites s) (q_invite q) of None \<Rightarrow> False
                  | Some i \<Rightarrow> i_room i = r_id r \<and> i_team i = r_team r)) (jvalues (inviteRequests s)))"

definition replay_pending_invite_requests :: "env \<Rightarrow> int \<Rightarrow> socket \<Rightarrow> live \<Rightarrow> live" where
  "replay_pending_invite_requests e now k l =
     (case session_of l k of
        None \<Rightarrow> l
      | Some cs \<Rightarrow> fold (\<lambda>q. send e now k (Invite_requested (q_invite q) (q_id q)))
                     (pending_invite_requests (lv_store l) cs) l)"

text \<open>What a joined socket is sent, the backlog first and \<open>joined\<close> last.\<close>

definition replay_room :: "env \<Rightarrow> int \<Rightarrow> socket \<Rightarrow> string \<Rightarrow> string \<Rightarrow> live \<Rightarrow> live" where
  "replay_room e now k t r l =
     (let key = room_key t r;
          backlog = (case jget (mlsBacklog (lv_store l)) key of None \<Rightarrow> [] | Some ms \<Rightarrow> ms);
          l1 = fold (\<lambda>m. send e now k (Mls_delivery m)) backlog l;
          l2 = replay_pending_invite_requests e now k l1;
          roster = (case jget (lv_presence l2) key of None \<Rightarrow> [] | Some ps \<Rightarrow> jvalues ps);
          l3 = fold (\<lambda>p. send e now k (Presence_update p True)) roster l2
      in send e now k (Joined t r) l3)"

definition enter_room :: "env \<Rightarrow> int \<Rightarrow> socket \<Rightarrow> string \<Rightarrow> string \<Rightarrow> string \<Rightarrow> string \<Rightarrow> string option \<Rightarrow> live \<Rightarrow> live" where
  "enter_room e now k t r u d token l =
     (let l1 = upd_session k (\<lambda>cs. cs\<lparr>cs_user := Some u, cs_device := Some d,
                 cs_token := Some (case token of None \<Rightarrow> ''development-auth-disabled'' | Some x \<Rightarrow> x)\<rparr>) l in
      case session_of l1 k of
        None \<Rightarrow> l1
      | Some cs \<Rightarrow>
          (case socket_connection_quota_error e l1 cs of
             Some text \<Rightarrow> close_socket k 1008 (send e now k (Error_message text None None None) l1)
           | None \<Rightarrow> replay_room e now k t r (join_room e now k t r u d l1)))"

definition dispatch_join ::
  "env \<Rightarrow> int \<Rightarrow> bool \<Rightarrow> bool \<Rightarrow> socket \<Rightarrow> string \<Rightarrow> string \<Rightarrow> string \<Rightarrow> string \<Rightarrow> string option \<Rightarrow> string option
     \<Rightarrow> live \<Rightarrow> (live_error, live) outcome" where
  "dispatch_join e now ok1 ok2 k t r u d iv token l =
     (if \<not> is_bounded_socket_identity u d then Done (send_error e now k identity_text None None l)
      else if truthy iv \<and> normalize_metadata_text (J_str (the iv)) max_envelope_id = None
      then Done (send_error e now k ''Invite id must be a bounded string without control characters.'' None None l)
      else if \<not> is_active_room (lv_store l) t r then Done (send_error e now k ''Room not found'' None None l)
      else if \<not> can_authenticate_join_identity e l k u then Done (send_error e now k invite_join_text None None l)
      else case ws_has_device_session e now (case token of None \<Rightarrow> [] | Some x \<Rightarrow> x) u d l of
        (False, l1) \<Rightarrow> Done (send_error e now k ''A device-authenticated session is required.'' (Some Not_joined) None l1)
      | (True, l1) \<Rightarrow>
          (case can_join_room e now ok1 ok2 k t r u d iv l1 of
             (joined, res) \<Rightarrow> seq res (\<lambda>l2.
               Done (if joined then enter_room e now k t r u d token l2
                     else send_error e now k invite_join_text None None l2))))"

definition dispatch_team_subscription :: "env \<Rightarrow> int \<Rightarrow> socket \<Rightarrow> string \<Rightarrow> string \<Rightarrow> string \<Rightarrow> live \<Rightarrow> live" where
  "dispatch_team_subscription e now k t u d l =
     (if \<not> is_bounded_socket_identity u d then send_error e now k identity_text None None l
      else if \<not> jhas (teams (lv_store l)) t then send_error e now k ''Team not found'' None None l
      else if \<not> can_subscribe_team e l k t u
      then send_error e now k ''Join this team before subscribing to it.'' None None l
      else send e now k (Team_subscribed t) (subscribe_team k t l))"

definition dispatch_workspace_subscription :: "env \<Rightarrow> int \<Rightarrow> socket \<Rightarrow> string \<Rightarrow> string \<Rightarrow> live \<Rightarrow> live" where
  "dispatch_workspace_subscription e now k u d l =
     (if \<not> is_bounded_socket_identity u d then send_error e now k identity_text None None l
      else if \<not> can_subscribe_workspace e l k u
      then send_error e now k ''Sign in before subscribing to the workspace.'' None None l
      else send e now k Workspace_subscribed (subscribe_workspace k l))"

subsection \<open>Publishing\<close>

definition can_publish_mls_message :: "client_session \<Rightarrow> mls_message \<Rightarrow> bool" where
  "can_publish_mls_message cs m \<longleftrightarrow>
     cs_team cs = Some (mm_team m) \<and> cs_room cs = Some (mm_room m)
     \<and> cs_user cs = Some (mm_user m) \<and> cs_device cs = Some (mm_device m)"

definition host_handoff_target_remains_authorized :: "relay_store \<Rightarrow> mls_message \<Rightarrow> bool" where
  "host_handoff_target_remains_authorized s m \<longleftrightarrow> \<not> mm_handoff m \<or>
     (truthy (mm_next_user m) \<and> truthy (mm_next_device m)
      \<and> get_team_member s (mm_team m) (the (mm_next_user m)) \<noteq> None
      \<and> get_device s (the (mm_next_user m)) (the (mm_next_device m)) \<noteq> None)"

text \<open>The identity, device and token a session must have to publish.\<close>

definition has_publish_identity :: "client_session \<Rightarrow> bool" where
  "has_publish_identity cs \<longleftrightarrow> truthy (cs_user cs) \<and> truthy (cs_device cs) \<and> truthy (cs_token cs)"

definition session_has_device :: "env \<Rightarrow> int \<Rightarrow> client_session \<Rightarrow> live \<Rightarrow> bool \<times> live" where
  "session_has_device e now cs l =
     (if has_publish_identity cs
      then ws_has_device_session e now (the (cs_token cs)) (the (cs_user cs)) (the (cs_device cs)) l
      else (False, l))"

definition mls_publish_remains_authorized :: "env \<Rightarrow> int \<Rightarrow> socket \<Rightarrow> mls_message \<Rightarrow> live \<Rightarrow> bool \<times> live" where
  "mls_publish_remains_authorized e now k m l =
     (if \<not> is_active_queued l k then (False, l)
      else case has_live_authentication e now k l of
        (False, l1) \<Rightarrow> (False, l1)
      | (True, l1) \<Rightarrow>
          (case session_of l1 k of
             None \<Rightarrow> (False, l1)
           | Some cs \<Rightarrow>
               (case session_has_device e now cs l1 of
                  (False, l2) \<Rightarrow> (False, l2)
                | (True, l2) \<Rightarrow>
                    (can_access_room (lv_store l2) (mm_team m) (mm_room m) (the (cs_user cs))
                     \<and> host_handoff_target_remains_authorized (lv_store l2) m
                     \<and> can_publish_mls_message cs m, l2))))"

definition publish_error_message :: "publish_error \<Rightarrow> string option \<Rightarrow> server_message" where
  "publish_error_message x message_id =
     (case x of
        Refused code \<Rightarrow> Error_message [] (Some code) message_id None
      | Store_failed (Entry_capacity _ _) \<Rightarrow>
          Error_message ''Relay durable capacity is exhausted.'' (Some Capacity_exceeded) message_id None
      | Store_failed (Byte_capacity _ _ _ _) \<Rightarrow>
          Error_message ''Relay durable capacity is exhausted.'' (Some Capacity_exceeded) message_id None
      | _ \<Rightarrow> Error_message ''Relay request failed.'' None message_id None)"

text \<open>
  \<open>relayWebSocketError\<close> (ws/connection.ts); the errors of the store and of the persistence map to
  the same answers as for a publish.
\<close>

definition as_publish_error :: "live_error \<Rightarrow> publish_error" where
  "as_publish_error x = (case x of L_store s \<Rightarrow> Store_failed s | L_unavailable \<Rightarrow> Save_failed)"

definition dispatch_mls_publish :: "env \<Rightarrow> int \<Rightarrow> save_result \<Rightarrow> save_result \<Rightarrow> socket \<Rightarrow> mls_message \<Rightarrow> live \<Rightarrow> live" where
  "dispatch_mls_publish e now reclaim_save save k m l =
     (case session_of l k of
        None \<Rightarrow> l
      | Some cs \<Rightarrow>
          (case session_has_device e now cs l of
             (False, l1) \<Rightarrow> send_error e now k ''Device session expired.'' (Some Not_joined) (Some (mm_id m)) l1
           | (True, l1) \<Rightarrow>
               if \<not> can_publish_mls_message cs m
               then send_error e now k ''Join the room before publishing with this user and device.'' None (Some (mm_id m)) l1
               else if \<not> ws_mls_within_limits (en_mls e) m
               then send_error e now k (mls_limit_text (en_mls e)) (Some Message_too_large) (Some (mm_id m)) l1
               else
                 (case mls_publish_remains_authorized e now k m l1 of
                    (False, l2) \<Rightarrow>
                      send_error e now k ''Publishing authorization changed.'' (Some Not_joined) (Some (mm_id m)) l2
                  | (True, l2) \<Rightarrow>
                      (case publish_for_room e now reclaim_save save (mls_publish_remains_authorized e now k m) m l2 of
                         (Failed x, l3) \<Rightarrow> send e now k (publish_error_message x (Some (mm_id m))) l3
                       | (_, l3) \<Rightarrow> send e now k (Published (mm_id m)) l3))))"

definition clean_presence :: "presence \<Rightarrow> presence" where
  "clean_presence p = p\<lparr>p_avatar := (if truthy (p_avatar p) then p_avatar p else None),
                       p_fp := (if truthy (p_fp p) then p_fp p else None)\<rparr>"

definition dispatch_presence :: "env \<Rightarrow> int \<Rightarrow> socket \<Rightarrow> presence \<Rightarrow> live \<Rightarrow> live" where
  "dispatch_presence e now k p l =
     (case session_of l k of
        None \<Rightarrow> l
      | Some cs \<Rightarrow>
          if \<not> is_active_room (lv_store l) (p_team p) (p_room p) \<or> \<not> is_presence_for_joined_session cs p
          then send_error e now k ''Join the room before publishing presence with this user and device.'' None None l
          else if \<not> is_presence_within_limits (clean_presence p)
          then send_error e now k presence_limit_text None None l
          else publish_presence e now k (p_team p) (p_room p) (clean_presence p) l)"

text \<open>
  \<open>dispatchRelayClientMessage\<close>, with the handler of thrown errors of ws/connection.ts around it.
\<close>

definition dispatch :: "env \<Rightarrow> int \<Rightarrow> bool \<Rightarrow> bool \<Rightarrow> save_result \<Rightarrow> save_result \<Rightarrow> socket \<Rightarrow> client_message \<Rightarrow> live \<Rightarrow> live" where
  "dispatch e now ok1 ok2 reclaim_save save k m l =
     (if \<not> is_active_queued l k then l
      else case has_live_authentication e now k l of
        (False, l1) \<Rightarrow> l1
      | (True, l1) \<Rightarrow>
          (case m of
             Join t r u d iv token \<Rightarrow>
               (case dispatch_join e now ok1 ok2 k t r u d iv token l1 of
                  Done l2 \<Rightarrow> l2
                | Throws x l2 \<Rightarrow> send e now k (publish_error_message (as_publish_error x) None) l2)
           | Subscribe_team t u d \<Rightarrow> dispatch_team_subscription e now k t u d l1
           | Subscribe_workspace u d \<Rightarrow> dispatch_workspace_subscription e now k u d l1
           | Publish msg \<Rightarrow> dispatch_mls_publish e now reclaim_save save k msg l1
           | Presence_message p \<Rightarrow> dispatch_presence e now k p l1))"

text \<open>A message of a socket: readiness, rate limit and preflight come before the dispatch.\<close>

datatype inbound = Unparsable | Preflight_failed string | Parsed client_message

definition receive :: "env \<Rightarrow> int \<Rightarrow> bool \<Rightarrow> bool \<Rightarrow> bool \<Rightarrow> bool \<Rightarrow> save_result \<Rightarrow> save_result \<Rightarrow> socket \<Rightarrow> inbound \<Rightarrow> live \<Rightarrow> live" where
  "receive e now ready within_rate ok1 ok2 reclaim_save save k m l =
     (if \<not> is_active_queued l k then l
      else if \<not> ready then refuse k 1012 ''Relay is not ready. Restart or reconnect before continuing.'' l
      else if \<not> within_rate
      then send_raw k (Error_message ''Rate limit exceeded. Slow down before sending more room events.'' None None None) l
      else case m of
        Unparsable \<Rightarrow> send e now k (publish_error_message Save_failed None) l
      | Preflight_failed text \<Rightarrow> send_raw k (Error_message text None None None) l
      | Parsed msg \<Rightarrow> dispatch e now ok1 ok2 reclaim_save save k msg l)"

end
