(* ===== verification/Sockets_Proofs.thy ===== *)
theory Sockets_Proofs
  imports Sockets
begin

text \<open>
  The socket indexes agree with the sessions: a socket is in a room's index only when its session
  joined that room, in a team's index exactly when its session subscribed to the team, in the
  workspace index exactly when its session says so. Every operation keeps this, so leaving and
  revoking really remove a socket from everything it listens to.
\<close>

declare map_of_eq_Some_iff [simp del]

section \<open>Frames\<close>

lemma upd_session_frame [simp]:
  "lv_store (upd_session k f l) = lv_store l" "lv_open (upd_session k f l) = lv_open l"
  "lv_rooms (upd_session k f l) = lv_rooms l" "lv_teams (upd_session k f l) = lv_teams l"
  "lv_workspace (upd_session k f l) = lv_workspace l" "lv_presence (upd_session k f l) = lv_presence l"
  "lv_out (upd_session k f l) = lv_out l"
  by (simp_all add: upd_session_def split: option.split)

lemma session_upd [simp]:
  "session_of (upd_session k f l) j = (if j = k then map_option f (session_of l k) else session_of l j)"
  by (simp add: upd_session_def split: option.split)

lemma sessions_upd_keys [simp]: "dom (session_of (upd_session k f l)) = dom (session_of l)"
  by (auto simp: upd_session_def dom_def split: option.splits if_splits)

lemma sessions_upd_jwf [simp]: "jwf (lv_sessions l) \<Longrightarrow> jwf (lv_sessions (upd_session k f l))"
  by (simp add: upd_session_def split: option.split)

lemma leave_roster_frame [simp]:
  "lv_store (leave_roster e n key d l) = lv_store l" "lv_open (leave_roster e n key d l) = lv_open l"
  "lv_sessions (leave_roster e n key d l) = lv_sessions l" "lv_rooms (leave_roster e n key d l) = lv_rooms l"
  "lv_teams (leave_roster e n key d l) = lv_teams l" "lv_workspace (leave_roster e n key d l) = lv_workspace l"
  by (simp_all add: leave_roster_def split: option.split)

lemma leave_room_frame [simp]:
  "lv_store (leave_room e n k l) = lv_store l" "lv_open (leave_room e n k l) = lv_open l"
  "lv_sessions (leave_room e n k l) = lv_sessions l"
  "lv_teams (leave_room e n k l) = lv_teams l" "lv_workspace (leave_room e n k l) = lv_workspace l"
  by (simp_all add: leave_room_def Let_def split: option.split)

lemma leave_teams_frame [simp]:
  "lv_store (leave_teams k l) = lv_store l" "lv_open (leave_teams k l) = lv_open l"
  "lv_rooms (leave_teams k l) = lv_rooms l" "lv_workspace (leave_teams k l) = lv_workspace l"
  "lv_presence (leave_teams k l) = lv_presence l" "lv_out (leave_teams k l) = lv_out l"
  by (simp_all add: leave_teams_def split: option.split)

lemma leave_workspace_frame [simp]:
  "lv_store (leave_workspace k l) = lv_store l" "lv_open (leave_workspace k l) = lv_open l"
  "lv_rooms (leave_workspace k l) = lv_rooms l" "lv_teams (leave_workspace k l) = lv_teams l"
  "lv_presence (leave_workspace k l) = lv_presence l" "lv_out (leave_workspace k l) = lv_out l"
  by (simp_all add: leave_workspace_def split: option.split)

lemma leave_all_frame [simp]:
  "lv_store (leave_all e n k l) = lv_store l" "lv_open (leave_all e n k l) = lv_open l"
  by (simp_all add: leave_all_def)

section \<open>The invariant\<close>

definition joined_key :: "client_session \<Rightarrow> string \<Rightarrow> bool" where
  "joined_key cs key \<longleftrightarrow> truthy (cs_team cs) \<and> truthy (cs_room cs) \<and> key = room_key (the (cs_team cs)) (the (cs_room cs))"

definition indexes_ok :: "live \<Rightarrow> bool" where
  "indexes_ok l \<longleftrightarrow> jwf (lv_sessions l)
   \<and> (\<forall>k key. k \<in> set (index_of (lv_rooms l) key) \<longrightarrow> (\<exists>cs. session_of l k = Some cs \<and> joined_key cs key))
   \<and> (\<forall>k t. k \<in> set (index_of (lv_teams l) t) \<longleftrightarrow> (\<exists>cs. session_of l k = Some cs \<and> t \<in> set (cs_teams cs)))
   \<and> (\<forall>k. k \<in> set (lv_workspace l) \<longleftrightarrow> (\<exists>cs. session_of l k = Some cs \<and> cs_workspace cs))"

definition listens :: "live \<Rightarrow> socket \<Rightarrow> bool" where
  "listens l k \<longleftrightarrow> (\<exists>key. k \<in> set (index_of (lv_rooms l) key))
     \<or> (\<exists>t. k \<in> set (index_of (lv_teams l) t)) \<or> k \<in> set (lv_workspace l)"

lemma indexes_ok_cong:
  assumes "lv_rooms l = lv_rooms l'" and "lv_teams l = lv_teams l'" and "lv_workspace l = lv_workspace l'"
    and "lv_sessions l = lv_sessions l'"
  shows "indexes_ok l = indexes_ok l'"
  using assms by (simp add: indexes_ok_def)

lemma index_of_fold_remove [simp]:
  "set (index_of (fold (\<lambda>t. index_remove t k) ts m) j) = set (index_of m j) - (if j \<in> set ts then {k} else {})"
  by (induction ts arbitrary: m) auto

lemma joined_key_upd [simp]:
  "joined_key (cs\<lparr>cs_teams := ts\<rparr>) key = joined_key cs key"
  "joined_key (cs\<lparr>cs_workspace := b\<rparr>) key = joined_key cs key"
  "joined_key (cs\<lparr>cs_registered := b\<rparr>) key = joined_key cs key"
  by (simp_all add: joined_key_def)

lemma indexes_okI:
  assumes "jwf (lv_sessions l)"
    and "\<And>k key. k \<in> set (index_of (lv_rooms l) key) \<Longrightarrow> \<exists>cs. session_of l k = Some cs \<and> joined_key cs key"
    and "\<And>k t. k \<in> set (index_of (lv_teams l) t) \<longleftrightarrow> (\<exists>cs. session_of l k = Some cs \<and> t \<in> set (cs_teams cs))"
    and "\<And>k. k \<in> set (lv_workspace l) \<longleftrightarrow> (\<exists>cs. session_of l k = Some cs \<and> cs_workspace cs)"
  shows "indexes_ok l"
  using assms by (simp add: indexes_ok_def)

lemma indexes_jwf: "indexes_ok l \<Longrightarrow> jwf (lv_sessions l)"
  by (simp add: indexes_ok_def)

lemma rooms_joined:
  "indexes_ok l \<Longrightarrow> k \<in> set (index_of (lv_rooms l) key) \<Longrightarrow> \<exists>cs. session_of l k = Some cs \<and> joined_key cs key"
  by (simp add: indexes_ok_def)

lemma teams_subscribed:
  "indexes_ok l \<Longrightarrow> k \<in> set (index_of (lv_teams l) t) \<longleftrightarrow> (\<exists>cs. session_of l k = Some cs \<and> t \<in> set (cs_teams cs))"
  by (simp add: indexes_ok_def)

lemma workspace_subscribed:
  "indexes_ok l \<Longrightarrow> k \<in> set (lv_workspace l) \<longleftrightarrow> (\<exists>cs. session_of l k = Some cs \<and> cs_workspace cs)"
  by (simp add: indexes_ok_def)

lemma leave_room_rooms:
  assumes "indexes_ok l"
  shows "set (index_of (lv_rooms (leave_room e n k l)) key) = set (index_of (lv_rooms l) key) - {k}"
proof (cases "session_of l k")
  case None
  with rooms_joined [OF assms, of k key] show ?thesis by (auto simp: leave_room_def)
next
  case (Some cs)
  have member: "k \<in> set (index_of (lv_rooms l) key) \<Longrightarrow> joined_key cs key"
    using rooms_joined [OF assms, of k key] Some by auto
  show ?thesis
  proof (cases "truthy (cs_team cs) \<and> truthy (cs_room cs)")
    case True
    with Some have "set (index_of (lv_rooms (leave_room e n k l)) key) =
        set (index_of (lv_rooms l) key) - (if key = room_key (the (cs_team cs)) (the (cs_room cs)) then {k} else {})"
      by (simp add: leave_room_def Let_def)
    with member show ?thesis by (auto simp: joined_key_def split: if_splits)
  next
    case False
    with Some have "leave_room e n k l = l" by (auto simp: leave_room_def)
    with member False show ?thesis by (auto simp: joined_key_def)
  qed
qed

lemma leave_room_ok: "indexes_ok l \<Longrightarrow> indexes_ok (leave_room e n k l)"
  using leave_room_rooms [of l e n k] by (simp add: indexes_ok_def)

lemma leave_teams_ok:
  assumes "indexes_ok l"
  shows "indexes_ok (leave_teams k l)"
proof (cases "session_of l k")
  case None
  with assms show ?thesis by (simp add: leave_teams_def)
next
  case (Some cs)
  show ?thesis
  proof (rule indexes_okI)
    show "jwf (lv_sessions (leave_teams k l))"
      using indexes_jwf [OF assms] Some by (simp add: leave_teams_def)
  next
    fix j key assume "j \<in> set (index_of (lv_rooms (leave_teams k l)) key)"
    with rooms_joined [OF assms, of j key] Some show "\<exists>cs. session_of (leave_teams k l) j = Some cs \<and> joined_key cs key"
      by (auto simp: leave_teams_def)
  next
    fix j t show "j \<in> set (index_of (lv_teams (leave_teams k l)) t) \<longleftrightarrow>
        (\<exists>cs. session_of (leave_teams k l) j = Some cs \<and> t \<in> set (cs_teams cs))"
      using teams_subscribed [OF assms, of j t] Some by (auto simp: leave_teams_def)
  next
    fix j show "j \<in> set (lv_workspace (leave_teams k l)) \<longleftrightarrow>
        (\<exists>cs. session_of (leave_teams k l) j = Some cs \<and> cs_workspace cs)"
      using workspace_subscribed [OF assms, of j] Some by (auto simp: leave_teams_def)
  qed
qed

lemma leave_workspace_ok:
  assumes "indexes_ok l"
  shows "indexes_ok (leave_workspace k l)"
proof (cases "\<exists>cs. session_of l k = Some cs \<and> cs_workspace cs")
  case False
  then have "leave_workspace k l = l" by (auto simp: leave_workspace_def split: option.split)
  with assms show ?thesis by simp
next
  case True
  then obtain cs where Some: "session_of l k = Some cs" "cs_workspace cs" by blast
  show ?thesis
  proof (rule indexes_okI)
    show "jwf (lv_sessions (leave_workspace k l))"
      using indexes_jwf [OF assms] Some by (simp add: leave_workspace_def)
  next
    fix j key assume "j \<in> set (index_of (lv_rooms (leave_workspace k l)) key)"
    with rooms_joined [OF assms, of j key] Some show "\<exists>cs. session_of (leave_workspace k l) j = Some cs \<and> joined_key cs key"
      by (auto simp: leave_workspace_def)
  next
    fix j t show "j \<in> set (index_of (lv_teams (leave_workspace k l)) t) \<longleftrightarrow>
        (\<exists>cs. session_of (leave_workspace k l) j = Some cs \<and> t \<in> set (cs_teams cs))"
      using teams_subscribed [OF assms, of j t] Some by (auto simp: leave_workspace_def)
  next
    fix j show "j \<in> set (lv_workspace (leave_workspace k l)) \<longleftrightarrow>
        (\<exists>cs. session_of (leave_workspace k l) j = Some cs \<and> cs_workspace cs)"
      using workspace_subscribed [OF assms, of j] Some by (auto simp: leave_workspace_def)
  qed
qed

lemma leave_all_ok: "indexes_ok l \<Longrightarrow> indexes_ok (leave_all e n k l)"
  by (simp add: leave_all_def leave_room_ok leave_teams_ok leave_workspace_ok)

lemma leave_all_session:
  "session_of (leave_all e n k l) j =
     (if j = k then map_option (\<lambda>cs. cs\<lparr>cs_teams := [], cs_workspace := False\<rparr>) (session_of l k) else session_of l j)"
  by (auto simp: leave_all_def leave_workspace_def leave_teams_def split: option.splits)

text \<open>After leaving, a socket listens to nothing; nobody else is affected.\<close>

lemma leave_all_listens:
  assumes "indexes_ok l"
  shows "listens (leave_all e n k l) j \<longleftrightarrow> j \<noteq> k \<and> listens l j"
proof -
  have ok: "indexes_ok (leave_all e n k l)" by (rule leave_all_ok [OF assms])
  have rooms: "set (index_of (lv_rooms (leave_all e n k l)) key) = set (index_of (lv_rooms l) key) - {k}" for key
    using leave_room_rooms [OF assms] by (simp add: leave_all_def)
  have teams: "j \<in> set (index_of (lv_teams (leave_all e n k l)) t) \<longleftrightarrow> j \<noteq> k \<and> j \<in> set (index_of (lv_teams l) t)" for t
    using assms ok by (auto simp: indexes_ok_def leave_all_session)
  have ws: "j \<in> set (lv_workspace (leave_all e n k l)) \<longleftrightarrow> j \<noteq> k \<and> j \<in> set (lv_workspace l)"
    using assms ok by (auto simp: indexes_ok_def leave_all_session)
  show ?thesis by (auto simp: listens_def rooms teams ws)
qed

lemma join_room_ok:
  assumes "indexes_ok l" and "session_of l k = Some cs" and "t \<noteq> []" and "r \<noteq> []"
  shows "indexes_ok (join_room e n k t r u d l)" (is "indexes_ok ?l")
proof -
  have session: "session_of ?l j = (if j = k then Some (cs\<lparr>cs_team := Some t, cs_room := Some r, cs_user := Some u,
      cs_device := Some d\<rparr>) else session_of l j)" for j
    using assms(2) by (simp add: join_room_def Let_def)
  have rooms: "set (index_of (lv_rooms ?l) key) = (if key = room_key t r then {k} else {}) \<union> (set (index_of (lv_rooms l) key) - {k})" for key
    using leave_room_rooms [OF assms(1)] by (auto simp: join_room_def Let_def)
  have rest: "lv_teams ?l = lv_teams l" "lv_workspace ?l = lv_workspace l"
    by (simp_all add: join_room_def Let_def)
  show ?thesis
  proof (rule indexes_okI)
    show "jwf (lv_sessions ?l)" using indexes_jwf [OF assms(1)] by (simp add: join_room_def Let_def)
  next
    fix j key assume "j \<in> set (index_of (lv_rooms ?l) key)"
    with rooms_joined [OF assms(1), of j key] show "\<exists>cs. session_of ?l j = Some cs \<and> joined_key cs key"
      by (auto simp: session rooms joined_key_def assms(3,4) split: if_splits)
  next
    fix j t' show "j \<in> set (index_of (lv_teams ?l) t') \<longleftrightarrow> (\<exists>cs. session_of ?l j = Some cs \<and> t' \<in> set (cs_teams cs))"
      using teams_subscribed [OF assms(1), of j t'] by (auto simp: session rest assms(2))
  next
    fix j show "j \<in> set (lv_workspace ?l) \<longleftrightarrow> (\<exists>cs. session_of ?l j = Some cs \<and> cs_workspace cs)"
      using workspace_subscribed [OF assms(1), of j] by (auto simp: session rest assms(2))
  qed
qed

lemma subscribe_team_ok:
  assumes "indexes_ok l" and "session_of l k = Some cs"
  shows "indexes_ok (subscribe_team k t l)" (is "indexes_ok ?l")
proof (rule indexes_okI)
  have session: "session_of ?l j = (if j = k then Some (cs\<lparr>cs_teams := set_add t (cs_teams cs)\<rparr>) else session_of l j)" for j
    using assms(2) by (simp add: subscribe_team_def Let_def)
  have rest: "lv_rooms ?l = lv_rooms l" "lv_workspace ?l = lv_workspace l"
    "set (index_of (lv_teams ?l) t') = (if t' = t then insert k (set (index_of (lv_teams l) t)) else set (index_of (lv_teams l) t'))" for t'
    by (simp_all add: subscribe_team_def Let_def)
  show "jwf (lv_sessions ?l)" using indexes_jwf [OF assms(1)] by (simp add: subscribe_team_def Let_def)
  {
    fix j key assume "j \<in> set (index_of (lv_rooms ?l) key)"
    with rooms_joined [OF assms(1), of j key] show "\<exists>cs. session_of ?l j = Some cs \<and> joined_key cs key"
      by (auto simp: session rest assms(2))
  next
    fix j t' show "j \<in> set (index_of (lv_teams ?l) t') \<longleftrightarrow> (\<exists>cs. session_of ?l j = Some cs \<and> t' \<in> set (cs_teams cs))"
      using teams_subscribed [OF assms(1), of j t'] by (auto simp: session rest assms(2))
  next
    fix j show "j \<in> set (lv_workspace ?l) \<longleftrightarrow> (\<exists>cs. session_of ?l j = Some cs \<and> cs_workspace cs)"
      using workspace_subscribed [OF assms(1), of j] by (auto simp: session rest assms(2))
  }
qed

lemma subscribe_workspace_ok:
  assumes "indexes_ok l" and "session_of l k = Some cs"
  shows "indexes_ok (subscribe_workspace k l)" (is "indexes_ok ?l")
proof (rule indexes_okI)
  have session: "session_of ?l j = (if j = k then Some (cs\<lparr>cs_workspace := True\<rparr>) else session_of l j)" for j
    using assms(2) by (simp add: subscribe_workspace_def Let_def)
  have rest: "lv_rooms ?l = lv_rooms l" "lv_teams ?l = lv_teams l" "set (lv_workspace ?l) = insert k (set (lv_workspace l))"
    by (simp_all add: subscribe_workspace_def Let_def)
  show "jwf (lv_sessions ?l)" using indexes_jwf [OF assms(1)] by (simp add: subscribe_workspace_def Let_def)
  {
    fix j key assume "j \<in> set (index_of (lv_rooms ?l) key)"
    with rooms_joined [OF assms(1), of j key] show "\<exists>cs. session_of ?l j = Some cs \<and> joined_key cs key"
      by (auto simp: session rest assms(2))
  next
    fix j t' show "j \<in> set (index_of (lv_teams ?l) t') \<longleftrightarrow> (\<exists>cs. session_of ?l j = Some cs \<and> t' \<in> set (cs_teams cs))"
      using teams_subscribed [OF assms(1), of j t'] by (auto simp: session rest assms(2))
  next
    fix j show "j \<in> set (lv_workspace ?l) \<longleftrightarrow> (\<exists>cs. session_of ?l j = Some cs \<and> cs_workspace cs)"
      using workspace_subscribed [OF assms(1), of j] by (auto simp: session rest assms(2))
  }
qed

text \<open>An update that keeps what the indexes rest on.\<close>

lemma upd_session_ok:
  assumes ok: "indexes_ok l"
    and keep: "\<And>cs. cs_team (f cs) = cs_team cs \<and> cs_room (f cs) = cs_room cs \<and> cs_teams (f cs) = cs_teams cs
              \<and> cs_workspace (f cs) = cs_workspace cs"
  shows "indexes_ok (upd_session k f l)"
proof -
  have "joined_key (f cs) key = joined_key cs key" for cs key by (simp add: joined_key_def keep)
  then have "(\<exists>cs. session_of (upd_session k f l) j = Some cs \<and> P cs) = (\<exists>cs. session_of l j = Some cs \<and> P cs)"
    if "\<And>cs. P (f cs) = P cs" for j P
    using that by auto
  then show ?thesis using ok keep by (simp add: indexes_ok_def joined_key_def)
qed

lemma send_ok: "indexes_ok (send e n k m l) = indexes_ok l"
  by (rule indexes_ok_cong) simp_all

lemma close_ok: "indexes_ok (close_socket k c l) = indexes_ok l"
  by (rule indexes_ok_cong) simp_all

lemma listens_cong:
  assumes "lv_rooms l = lv_rooms l'" and "lv_teams l = lv_teams l'" and "lv_workspace l = lv_workspace l'"
  shows "listens l k = listens l' k"
  using assms by (simp add: listens_def)

section \<open>Revocation reaches every socket it aims at\<close>

text \<open>
  The contract of a revocation step: it touches one socket, and when the socket's session is hit
  the socket ends up closed and listening to nothing.
\<close>

definition hit_by :: "(client_session \<Rightarrow> bool) \<Rightarrow> live \<Rightarrow> socket \<Rightarrow> bool" where
  "hit_by P l k \<longleftrightarrow> (\<exists>cs. session_of l k = Some cs \<and> P cs)"

locale socket_revocation =
  fixes revoke :: "socket \<Rightarrow> live \<Rightarrow> live" and hits :: "client_session \<Rightarrow> bool"
  assumes keeps: "indexes_ok l \<Longrightarrow> indexes_ok (revoke k l)"
    and silences: "indexes_ok l \<Longrightarrow> listens (revoke k l) j \<longleftrightarrow> listens l j \<and> \<not> (j = k \<and> hit_by hits l k)"
    and others: "j \<noteq> k \<Longrightarrow> session_of (revoke k l) j = session_of l j"
    and closes: "set (lv_open (revoke k l)) = set (lv_open l) - (if hit_by hits l k then {k} else {})"
begin

lemma hit_other: "j \<noteq> k \<Longrightarrow> hit_by hits (revoke k l) j = hit_by hits l j"
  by (simp add: hit_by_def others)

lemma loop_ok: "indexes_ok l \<Longrightarrow> indexes_ok (fold revoke ks l)"
  by (induction ks arbitrary: l) (simp_all add: keeps)

lemma loop_session: "j \<notin> set ks \<Longrightarrow> session_of (fold revoke ks l) j = session_of l j"
  by (induction ks arbitrary: l) (auto simp: others)

lemma loop_listens:
  assumes "indexes_ok l" and "distinct ks"
  shows "listens (fold revoke ks l) j \<longleftrightarrow> listens l j \<and> \<not> (j \<in> set ks \<and> hit_by hits l j)"
  using assms
proof (induction ks arbitrary: l)
  case Nil
  then show ?case by simp
next
  case (Cons k ks)
  have "listens (fold revoke ks (revoke k l)) j \<longleftrightarrow>
      listens (revoke k l) j \<and> \<not> (j \<in> set ks \<and> hit_by hits (revoke k l) j)"
    using Cons.prems by (intro Cons.IH) (simp_all add: keeps)
  with Cons.prems silences [of l k j] hit_other [of j k l] show ?case by (cases "j = k") auto
qed

lemma loop_open:
  assumes "distinct ks"
  shows "j \<in> set (lv_open (fold revoke ks l)) \<longleftrightarrow> j \<in> set (lv_open l) \<and> \<not> (j \<in> set ks \<and> hit_by hits l j)"
  using assms
proof (induction ks arbitrary: l)
  case Nil
  then show ?case by simp
next
  case (Cons k ks)
  have "j \<in> set (lv_open (fold revoke ks (revoke k l))) \<longleftrightarrow>
      j \<in> set (lv_open (revoke k l)) \<and> \<not> (j \<in> set ks \<and> hit_by hits (revoke k l) j)"
    using Cons.prems by (intro Cons.IH) simp
  with Cons.prems closes [of k l] hit_other [of j k l] show ?case by (cases "j = k") auto
qed

end

lemma revoke_user_session_ok: "indexes_ok l \<Longrightarrow> indexes_ok (revoke_user_session e n u text k l)"
  by (auto simp: revoke_user_session_def close_ok send_ok intro!: upd_session_ok leave_all_ok split: option.split)

lemma leave_after_send_listens:
  "indexes_ok l \<Longrightarrow> listens (leave_all e n k (send e n k m l)) j \<longleftrightarrow> j \<noteq> k \<and> listens l j"
  using leave_all_listens [of "send e n k m l" e n k j] listens_cong [of "send e n k m l" l]
  by (simp add: send_ok)

lemma close_upd_listens [simp]:
  "listens (close_socket k c l) j = listens l j" "listens (upd_session k f l) j = listens l j"
  by (rule listens_cong; simp)+

interpretation user_rv: socket_revocation "revoke_user_session e n u text" "session_is_users u"
proof
  fix l k j
  show "indexes_ok l \<Longrightarrow> indexes_ok (revoke_user_session e n u text k l)"
    by (rule revoke_user_session_ok)
  show "listens (revoke_user_session e n u text k l) j \<longleftrightarrow> listens l j \<and> \<not> (j = k \<and> hit_by (session_is_users u) l k)"
    if "indexes_ok l"
    using leave_after_send_listens [OF that] by (auto simp: revoke_user_session_def hit_by_def split: option.split)
  show "j \<noteq> k \<Longrightarrow> session_of (revoke_user_session e n u text k l) j = session_of l j"
    by (auto simp: revoke_user_session_def leave_all_session split: option.split)
  show "set (lv_open (revoke_user_session e n u text k l)) =
      set (lv_open l) - (if hit_by (session_is_users u) l k then {k} else {})"
    by (auto simp: revoke_user_session_def close_socket_def hit_by_def split: option.split)
qed

definition hit_by_removal :: "string \<Rightarrow> string \<Rightarrow> client_session \<Rightarrow> bool" where
  "hit_by_removal t u cs \<longleftrightarrow> session_is_users u cs \<and> (cs_team cs = Some t \<or> t \<in> set (cs_teams cs) \<or> cs_workspace cs)"

interpretation member_rv: socket_revocation "revoke_team_member_session e n t u" "hit_by_removal t u"
proof
  fix l k j
  show "indexes_ok l \<Longrightarrow> indexes_ok (revoke_team_member_session e n t u k l)"
    by (auto simp: revoke_team_member_session_def close_ok send_ok intro!: leave_all_ok split: option.split)
  show "listens (revoke_team_member_session e n t u k l) j \<longleftrightarrow> listens l j \<and> \<not> (j = k \<and> hit_by (hit_by_removal t u) l k)"
    if "indexes_ok l"
    using leave_after_send_listens [OF that]
    by (auto simp: revoke_team_member_session_def hit_by_def hit_by_removal_def split: option.split)
  show "j \<noteq> k \<Longrightarrow> session_of (revoke_team_member_session e n t u k l) j = session_of l j"
    by (auto simp: revoke_team_member_session_def leave_all_session split: option.split)
  show "set (lv_open (revoke_team_member_session e n t u k l)) =
      set (lv_open l) - (if hit_by (hit_by_removal t u) l k then {k} else {})"
    by (auto simp: revoke_team_member_session_def close_socket_def hit_by_def hit_by_removal_def split: option.split)
qed

lemma presence_entry_frame [simp]:
  "lv_store (revoke_presence_entry e n u key p l) = lv_store l"
  "lv_sessions (revoke_presence_entry e n u key p l) = lv_sessions l"
  "lv_rooms (revoke_presence_entry e n u key p l) = lv_rooms l"
  "lv_teams (revoke_presence_entry e n u key p l) = lv_teams l"
  "lv_workspace (revoke_presence_entry e n u key p l) = lv_workspace l"
  "lv_open (revoke_presence_entry e n u key p l) = lv_open l"
  by (simp_all add: revoke_presence_entry_def split: prod.split)

lemma drop_roster_frame [simp]:
  "lv_store (drop_empty_roster key l) = lv_store l"
  "lv_sessions (drop_empty_roster key l) = lv_sessions l"
  "lv_rooms (drop_empty_roster key l) = lv_rooms l"
  "lv_teams (drop_empty_roster key l) = lv_teams l"
  "lv_workspace (drop_empty_roster key l) = lv_workspace l"
  "lv_open (drop_empty_roster key l) = lv_open l"
  by (simp_all add: drop_empty_roster_def)

lemma presence_roster_frame [simp]:
  "lv_store (fold (revoke_presence_entry e n u key) roster l) = lv_store l"
  "lv_sessions (fold (revoke_presence_entry e n u key) roster l) = lv_sessions l"
  "lv_rooms (fold (revoke_presence_entry e n u key) roster l) = lv_rooms l"
  "lv_teams (fold (revoke_presence_entry e n u key) roster l) = lv_teams l"
  "lv_workspace (fold (revoke_presence_entry e n u key) roster l) = lv_workspace l"
  "lv_open (fold (revoke_presence_entry e n u key) roster l) = lv_open l"
  by (rule fold_inv; simp)+

lemma revoke_presence_frame [simp]:
  "lv_store (revoke_user_presence e n u l) = lv_store l"
  "lv_sessions (revoke_user_presence e n u l) = lv_sessions l"
  "lv_rooms (revoke_user_presence e n u l) = lv_rooms l"
  "lv_teams (revoke_user_presence e n u l) = lv_teams l"
  "lv_workspace (revoke_user_presence e n u l) = lv_workspace l"
  "lv_open (revoke_user_presence e n u l) = lv_open l"
  unfolding revoke_user_presence_def by (rule fold_inv; simp split: prod.split)+

text \<open>Registration: only a revoked user's sockets lose it.\<close>

lemma sockets_registered_iff:
  assumes "jwf (lv_sessions l)"
  shows "k \<in> set (sockets_registered l) \<longleftrightarrow> registered l k \<noteq> None"
proof -
  have "k \<in> set (sockets_registered l) \<longleftrightarrow> (\<exists>cs. (k, cs) \<in> set (lv_sessions l) \<and> cs_registered cs)"
    by (force simp: sockets_registered_def)
  also have "\<dots> \<longleftrightarrow> (\<exists>cs. session_of l k = Some cs \<and> cs_registered cs)"
    using assms by (simp add: map_of_eq_Some_iff)
  finally show ?thesis by (auto simp: registered_def split: option.split)
qed

lemma registered_session: "registered l k = Some cs \<Longrightarrow> session_of l k = Some cs"
  by (simp add: registered_def split: option.splits if_splits)

lemma sockets_registered_distinct: "jwf (lv_sessions l) \<Longrightarrow> distinct (sockets_registered l)"
  by (simp add: sockets_registered_def distinct_map_filter)

lemma revoke_user_session_registered:
  "registered (revoke_user_session e n u text k l) j =
     (if j = k \<and> hit_by (session_is_users u) l k then None else registered l j)"
  by (auto simp: registered_def revoke_user_session_def leave_all_session hit_by_def split: option.split)

lemma revoke_loop_registered:
  assumes "distinct ks"
  shows "registered (fold (revoke_user_session e n u text) ks l) j =
     (if j \<in> set ks \<and> hit_by (session_is_users u) l j then None else registered l j)"
  using assms
proof (induction ks arbitrary: l)
  case Nil
  then show ?case by simp
next
  case (Cons k ks)
  then have IH: "registered (fold (revoke_user_session e n u text) ks (revoke_user_session e n u text k l)) j =
     (if j \<in> set ks \<and> hit_by (session_is_users u) (revoke_user_session e n u text k l) j then None
      else registered (revoke_user_session e n u text k l) j)" by simp
  with Cons.prems user_rv.hit_other [of j k u e n "text" l] show ?case
    by (cases "j = k") (auto simp: revoke_user_session_registered)
qed

text \<open>
  Revoking a user (a restriction or an account deletion) unregisters, closes and silences
  every socket that was signed in as the user or had joined a room as the user; the sockets of
  other users keep their registration, and the indexes stay consistent.
\<close>

theorem revoked_user_hears_nothing:
  assumes "indexes_ok l" and "registered l k = Some cs"
  shows "indexes_ok (revoke_user_sessions e now u text l)
    \<and> (if session_is_users u cs
        then registered (revoke_user_sessions e now u text l) k = None
           \<and> k \<notin> set (lv_open (revoke_user_sessions e now u text l))
           \<and> \<not> listens (revoke_user_sessions e now u text l) k
        else registered (revoke_user_sessions e now u text l) k = Some cs
           \<and> (k \<in> set (lv_open (revoke_user_sessions e now u text l)) \<longleftrightarrow> k \<in> set (lv_open l))
           \<and> (listens (revoke_user_sessions e now u text l) k \<longleftrightarrow> listens l k))"
proof -
  let ?m = "fold (revoke_user_session e now u text) (sockets_registered l) l"
  have frame: "indexes_ok (revoke_user_presence e now u ?m) = indexes_ok ?m"
    "listens (revoke_user_presence e now u ?m) k = listens ?m k"
    "registered (revoke_user_presence e now u ?m) k = registered ?m k"
    by (rule indexes_ok_cong, simp_all) (rule listens_cong, simp_all, rule registered_cong, simp)
  have d: "distinct (sockets_registered l)" and k: "k \<in> set (sockets_registered l)"
    using indexes_jwf [OF assms(1)] sockets_registered_distinct sockets_registered_iff assms(2) by auto
  have hit: "hit_by (session_is_users u) l k = session_is_users u cs"
    using registered_session [OF assms(2)] by (simp add: hit_by_def)
  show ?thesis
    using user_rv.loop_ok [OF assms(1)] user_rv.loop_listens [OF assms(1) d] user_rv.loop_open [OF d] k assms(2)
    by (simp add: revoke_user_sessions_def frame hit revoke_loop_registered [OF d])
qed

text \<open>
  C7: Removing a member from a team closes and silences every registered socket of the user
  that had joined a room of the team, subscribed to it, or subscribed to the workspace; no other
  socket is touched.
\<close>

theorem removed_member_hears_nothing:
  assumes "indexes_ok l" and "registered l k = Some cs"
  shows "indexes_ok (revoke_team_member_sessions e now t u l)
    \<and> (if hit_by_removal t u cs
        then k \<notin> set (lv_open (revoke_team_member_sessions e now t u l))
           \<and> \<not> listens (revoke_team_member_sessions e now t u l) k
        else (k \<in> set (lv_open (revoke_team_member_sessions e now t u l)) \<longleftrightarrow> k \<in> set (lv_open l))
           \<and> (listens (revoke_team_member_sessions e now t u l) k \<longleftrightarrow> listens l k))"
proof -
  have d: "distinct (sockets_registered l)" and k: "k \<in> set (sockets_registered l)"
    using indexes_jwf [OF assms(1)] sockets_registered_distinct sockets_registered_iff assms(2) by auto
  have hit: "hit_by (hit_by_removal t u) l k = hit_by_removal t u cs"
    using registered_session [OF assms(2)] by (simp add: hit_by_def)
  show ?thesis
    using member_rv.loop_ok [OF assms(1)] member_rv.loop_listens [OF assms(1) d] member_rv.loop_open [OF d] k
    by (simp add: revoke_team_member_sessions_def hit)
qed

end
