(* ===== verification/Dispatch_Proofs.thy ===== *)
theory Dispatch_Proofs
  imports Dispatch Sockets_Proofs
begin

text \<open>
  Every event of the live relay keeps the socket indexes consistent, and the checks of the
  dispatcher hold: a room is joined only by its members (or by the approved requester of an
  invite) on an authenticated device, and a message is published only by its sender.
\<close>

section \<open>What the indexes rest on\<close>

definition frame_of :: "live \<Rightarrow> (string, socket list) jmap \<times> (string, socket list) jmap \<times> socket list \<times> (socket, client_session) jmap" where
  "frame_of l = (lv_rooms l, lv_teams l, lv_workspace l, lv_sessions l)"

named_theorems frames \<open>operations that leave indexes and sessions alone\<close>

lemma indexes_ok_frame: "frame_of l = frame_of l' \<Longrightarrow> indexes_ok l \<Longrightarrow> indexes_ok l'"
  using indexes_ok_cong [of l l'] by (simp add: frame_of_def)

lemma session_of_frame: "frame_of l = frame_of l' \<Longrightarrow> session_of l k = session_of l' k"
  by (simp add: frame_of_def)

lemma frame_send [frames, simp]:
  "frame_of (send e n k m l) = frame_of l" "frame_of (send_raw k m l) = frame_of l"
  "frame_of (close_socket k c l) = frame_of l" "frame_of (poison l) = frame_of l"
  "frame_of (refuse k c text l) = frame_of l" "frame_of (l\<lparr>lv_store := s\<rparr>) = frame_of l"
  "frame_of (l\<lparr>lv_open := ks\<rparr>) = frame_of l"
  "frame_of (put_store f l) = frame_of l" "frame_of (send_error e n k text co i l) = frame_of l"
  "frame_of (broadcast e n key m l) = frame_of l" "frame_of (broadcast_room_updated e n r l) = frame_of l"
  "frame_of (broadcast_workspace_updated e n t l) = frame_of l"
  by (simp_all add: frame_of_def refuse_def send_error_def)

lemma frame_fold [frames]: "(\<And>x l. frame_of (g x l) = frame_of l) \<Longrightarrow> frame_of (fold g xs l) = frame_of l"
  by (rule fold_inv)

lemma frame_save [frames, simp]: "frame_of (state_of (save_now ok l)) = frame_of l"
  by (simp add: save_now_cases)

lemma frame_on_store [frames, simp]: "frame_of (state_of (on_store f l)) = frame_of l"
  by (simp add: on_store_def)

lemma frame_seq:
  assumes "frame_of (state_of r) = F" and "\<And>l. frame_of l = F \<Longrightarrow> frame_of (state_of (k l)) = F"
  shows "frame_of (state_of (seq r k)) = F"
  using assms by (cases r) auto

lemma frame_add_member [frames, simp]: "frame_of (state_of (add_member_live e n ok t u role l)) = frame_of l"
  unfolding add_member_live_def
  by (auto intro!: frame_seq split: option.split)

lemma frame_approved: "frame_of (state_of (snd (approved_invite_for_admission n ok i t r u d l))) = frame_of l"
  by (simp add: approved_invite_for_admission_def split: option.split)

lemma frame_can_join [frames]: "frame_of (state_of (snd (can_join_room e n ok1 ok2 k t r u d iv l))) = frame_of l"
proof -
  let ?a = "if truthy iv then approved_invite_for_admission n ok1 (the iv) t r u d l else (None, Done l)"
  have a: "frame_of (state_of (snd ?a)) = frame_of l" by (simp add: frame_approved)
  have last: "frame_of (state_of (case save_now ok2 l1 of
       Done l2 \<Rightarrow> Done l2
     | Throws x l2 \<Rightarrow> (case on_store f l2 of Done l3 \<Rightarrow> Throws x l3 | Throws y l3 \<Rightarrow> Throws y l3))) = frame_of l1" for l1 f
    using frame_save [of ok2 l1] frame_on_store [of f]
    by (cases "save_now ok2 l1") (auto simp: on_store_simps split: outcome.split)
  show ?thesis
  proof (cases ?a)
    case (Pair o_inv res)
    with a have res: "frame_of (state_of res) = frame_of l" by simp
    show ?thesis
      using res by (auto simp: can_join_room_def Pair last intro!: frame_seq split: option.split)
  qed
qed

lemma frame_ws_device [frames, simp]: "frame_of (snd (ws_has_device_session e n tok u d l)) = frame_of l"
  by (simp add: ws_has_device_session_def split: prod.split)

lemma frame_live_auth [frames, simp]: "frame_of (snd (has_live_authentication e n k l)) = frame_of l"
  by (simp add: has_live_authentication_def split: option.split)

lemma frame_session_has_device [frames, simp]: "frame_of (snd (session_has_device e n cs l)) = frame_of l"
  by (simp add: session_has_device_def)

lemma frame_remains [frames, simp]: "frame_of (snd (mls_publish_remains_authorized e n k m l)) = frame_of l"
proof -
  obtain b l1 where 1: "has_live_authentication e n k l = (b, l1)" by fastforce
  with frame_live_auth [of e n k l] have f1: "frame_of l1 = frame_of l" by simp
  show ?thesis
  proof (cases "b \<and> is_active_queued l k \<and> session_of l1 k \<noteq> None")
    case False
    then show ?thesis using f1 by (auto simp: mls_publish_remains_authorized_def 1 split: bool.split option.split)
  next
    case True
    then obtain cs where cs: "session_of l1 k = Some cs" by auto
    obtain c l2 where 2: "session_has_device e n cs l1 = (c, l2)" by fastforce
    with frame_session_has_device [of e n cs l1] f1 have "frame_of l2 = frame_of l" by simp
    then show ?thesis using True by (auto simp: mls_publish_remains_authorized_def 1 2 cs split: bool.split)
  qed
qed

lemma frame_fan_out [frames, simp]: "frame_of (fan_out e n m l) = frame_of l"
  by (simp add: fan_out_def Let_def split: option.split)

lemma frame_publish_for_room [frames]:
  assumes "\<And>l. frame_of (snd (authorized l)) = frame_of l"
  shows "frame_of (snd (publish_for_room e n rs sv authorized m l)) = frame_of l"
proof (cases "prune_expired_state (en_mls e) n (lv_store l)")
  case (Throws x s)
  then show ?thesis by (simp add: publish_for_room_def)
next
  case (Done s0)
  let ?l0 = "l\<lparr>lv_store := discard_durable_mutations s0\<rparr>"
  obtain b l1 where 1: "authorized ?l0 = (b, l1)" by fastforce
  with assms [of ?l0] have "frame_of l1 = frame_of l" by simp
  then show ?thesis using Done by (auto simp: publish_for_room_def Let_def 1 split: prod.split)
qed

lemma frame_dispatch_publish [frames]: "frame_of (dispatch_mls_publish e n rs sv k m l) = frame_of l"
proof (cases "session_of l k")
  case None
  then show ?thesis by (simp add: dispatch_mls_publish_def)
next
  case (Some cs)
  obtain b l1 where 1: "session_has_device e n cs l = (b, l1)" by fastforce
  with frame_session_has_device [of e n cs l] have f1: "frame_of l1 = frame_of l" by simp
  obtain c l2 where 2: "mls_publish_remains_authorized e n k m l1 = (c, l2)" by fastforce
  with frame_remains [of e n k m l1] f1 have f2: "frame_of l2 = frame_of l" by simp
  obtain r l3 where 3: "publish_for_room e n rs sv (mls_publish_remains_authorized e n k m) m l2 = (r, l3)" by fastforce
  with frame_publish_for_room [of "mls_publish_remains_authorized e n k m" e n rs sv m l2, OF frame_remains] f2 have f3: "frame_of l3 = frame_of l" by simp
  show ?thesis
    using f1 f2 f3 by (simp add: dispatch_mls_publish_def Some 1 2 3 split: bool.split publish_result.split)
qed

section \<open>Every event keeps the indexes consistent\<close>

lemma enter_room_ok:
  assumes "indexes_ok l" and "t \<noteq> []" and "r \<noteq> []"
  shows "indexes_ok (enter_room e n k t r u d tok l)"
proof -
  let ?l = "upd_session k (\<lambda>cs. cs\<lparr>cs_user := Some u, cs_device := Some d,
                 cs_token := Some (case tok of None \<Rightarrow> ''development-auth-disabled'' | Some x \<Rightarrow> x)\<rparr>) l"
  have ok: "indexes_ok ?l" by (rule upd_session_ok [OF assms(1)]) simp
  have replay: "frame_of (replay_room e n k t r l') = frame_of l'" for l'
    by (simp add: replay_room_def Let_def replay_pending_invite_requests_def frames split: option.split)
  have "indexes_ok (join_room e n k t r u d ?l)" if "session_of ?l k = Some cs" for cs
    by (rule join_room_ok [OF ok that assms(2,3)])
  then show ?thesis
    using ok indexes_ok_frame [OF replay [symmetric]]
    by (auto simp: enter_room_def Let_def close_ok send_ok simp del: session_upd split: option.split)
qed

fun message_ok :: "client_message \<Rightarrow> bool" where
  "message_ok (Join t r _ _ _ _) = (t \<noteq> [] \<and> r \<noteq> [])"
| "message_ok _ = True"

lemma dispatch_join_ok:
  assumes "indexes_ok l" and "t \<noteq> []" and "r \<noteq> []"
  shows "indexes_ok (state_of (dispatch_join e n ok1 ok2 k t r u d iv tok l))"
proof -
  obtain b l1 where 1: "ws_has_device_session e n (case tok of None \<Rightarrow> [] | Some x \<Rightarrow> x) u d l = (b, l1)" by fastforce
  with frame_ws_device [of e n _ u d l] have f1: "frame_of l1 = frame_of l" by (metis snd_conv)
  obtain joined res where 2: "can_join_room e n ok1 ok2 k t r u d iv l1 = (joined, res)" by fastforce
  with frame_can_join [of e n ok1 ok2 k t r u d iv l1] f1 have f2: "frame_of (state_of res) = frame_of l" by simp
  have keep: "indexes_ok l'" if "frame_of l' = frame_of l" for l'
    using indexes_ok_frame [of l l'] that assms(1) by simp
  show ?thesis
    using f1 f2 assms(2,3)
    by (cases res) (auto simp: dispatch_join_def 1 2 intro!: enter_room_ok intro: keep split: bool.split)
qed

lemma dispatch_presence_ok: "indexes_ok l \<Longrightarrow> indexes_ok (dispatch_presence e n k p l)"
proof -
  assume ok: "indexes_ok l"
  have up: "indexes_ok (publish_presence e n k t r q l)" for t r q
  proof -
    let ?f = "\<lambda>cs. cs\<lparr>cs_name := Some (p_display q), cs_avatar := (if truthy (p_avatar q) then p_avatar q else None)\<rparr>"
    have "indexes_ok (upd_session k ?f l)" by (rule upd_session_ok [OF ok]) simp
    moreover have "frame_of (publish_presence e n k t r q l) = frame_of (upd_session k ?f l)"
      by (simp add: publish_presence_def Let_def upd_session_def frame_of_def split: option.split)
    ultimately show ?thesis using indexes_ok_frame [of "upd_session k ?f l"] by simp
  qed
  then show ?thesis
    using ok indexes_ok_frame [of l] by (auto simp: dispatch_presence_def split: option.split)
qed

lemma dispatch_ok:
  assumes ok: "indexes_ok l" and "message_ok m"
  shows "indexes_ok (dispatch e n ok1 ok2 rs sv k m l)"
proof -
  obtain b l1 where 1: "has_live_authentication e n k l = (b, l1)" by fastforce
  with frame_live_auth [of e n k l] have f1: "frame_of l1 = frame_of l" by simp
  have ok1: "indexes_ok l1" using indexes_ok_frame [OF f1 [symmetric] ok] .
  show ?thesis
  proof (cases "b \<and> is_active_queued l k")
    case False
    then show ?thesis using ok ok1 by (auto simp: dispatch_def 1 split: bool.split)
  next
    case True
    then have "registered l k \<noteq> None" by (simp add: is_active_queued_def)
    then obtain cs where "session_of l k = Some cs" by (auto dest: registered_session)
    then have cs: "session_of l1 k = Some cs" using session_of_frame [OF f1] by simp
    have err: "indexes_ok (send_error e n k t c i l1)" for t c i
      using indexes_ok_frame [OF _ ok1] by simp
    show ?thesis
    proof (cases m)
      case (Join t r u d iv tok)
      with assms(2) dispatch_join_ok [OF ok1, of t r e n ok1 ok2 k u d iv tok] True show ?thesis
        by (cases "dispatch_join e n ok1 ok2 k t r u d iv tok l1") (simp_all add: dispatch_def 1 send_ok)
    next
      case (Subscribe_team t u d)
      with True show ?thesis
        by (simp add: dispatch_def 1 dispatch_team_subscription_def err send_ok subscribe_team_ok [OF ok1 cs])
    next
      case (Subscribe_workspace u d)
      with True show ?thesis
        by (simp add: dispatch_def 1 dispatch_workspace_subscription_def err send_ok subscribe_workspace_ok [OF ok1 cs])
    next
      case (Publish msg)
      with True indexes_ok_frame [OF frame_dispatch_publish [symmetric] ok1] show ?thesis by (simp add: dispatch_def 1)
    next
      case (Presence_message p)
      with True show ?thesis by (simp add: dispatch_def 1 dispatch_presence_ok [OF ok1])
    qed
  qed
qed

text \<open>
  The events of the live relay: a connection, a message, a socket that closes, and the two
  revocations. A new connection comes on a socket that had none before.
\<close>

inductive relay_event :: "env \<Rightarrow> live \<Rightarrow> live \<Rightarrow> bool" for e where
  connect: "session_of l k = None \<Longrightarrow> relay_event e l (admit e ready rate auth client k l)"
| message: "(\<And>msg. m = Parsed msg \<Longrightarrow> message_ok msg) \<Longrightarrow>
    relay_event e l (receive e now ready rate ok1 ok2 reclaim_save save k m l)"
| closed: "relay_event e l (on_close e now k l)"
| revoke_user: "relay_event e l (revoke_user_sessions e now u reason l)"
| remove_member: "relay_event e l (revoke_team_member_sessions e now t u l)"

lemma receive_ok:
  assumes "indexes_ok l" and "\<And>msg. m = Parsed msg \<Longrightarrow> message_ok msg"
  shows "indexes_ok (receive e n ready rate ok1 ok2 rs sv k m l)"
  using assms indexes_ok_frame [of l]
  by (auto simp: receive_def intro!: dispatch_ok split: inbound.split)

lemma admit_ok:
  assumes ok: "indexes_ok l" and new: "session_of l k = None"
  shows "indexes_ok (admit e ready rate auth client k l)"
proof -
  let ?l = "l\<lparr>lv_open := set_add k (lv_open l)\<rparr>"
  have keep: "indexes_ok (refuse k c why ?l)" for c why
    using indexes_ok_frame [of l] ok by simp
  have "indexes_ok (?l\<lparr>lv_sessions := jset k (new_session k auth client) (lv_sessions ?l)\<rparr>)" (is "indexes_ok ?m")
  proof (rule indexes_okI)
    show "jwf (lv_sessions ?m)" using indexes_jwf [OF ok] by simp
  next
    fix j key assume "j \<in> set (index_of (lv_rooms ?m) key)"
    with rooms_joined [OF ok, of j key] new show "\<exists>cs. session_of ?m j = Some cs \<and> joined_key cs key" by auto
  next
    fix j t show "j \<in> set (index_of (lv_teams ?m) t) \<longleftrightarrow> (\<exists>cs. session_of ?m j = Some cs \<and> t \<in> set (cs_teams cs))"
      using teams_subscribed [OF ok, of j t] new by (auto simp: new_session_def)
  next
    fix j show "j \<in> set (lv_workspace ?m) \<longleftrightarrow> (\<exists>cs. session_of ?m j = Some cs \<and> cs_workspace cs)"
      using workspace_subscribed [OF ok, of j] new by (auto simp: new_session_def)
  qed
  then show ?thesis using keep by (simp add: admit_def Let_def split: option.split)
qed

lemma relay_event_ok:
  assumes "relay_event e l l'" and ok: "indexes_ok l"
  shows "indexes_ok l'"
  using assms(1)
proof cases
  case (connect k ready rate auth client)
  then show ?thesis using admit_ok [OF ok] by simp
next
  case (message m now ready rate ok1 ok2 reclaim_save save k)
  then show ?thesis using receive_ok [OF ok] by simp
next
  case (closed now k)
  then show ?thesis by (auto simp: on_close_def intro!: upd_session_ok leave_all_ok ok)
next
  case (revoke_user now u reason)
  have "indexes_ok (revoke_user_presence e now u l1) = indexes_ok l1" for l1
    by (rule indexes_ok_cong) simp_all
  then show ?thesis using user_rv.loop_ok [OF ok] by (simp add: revoke_user revoke_user_sessions_def)
next
  case (remove_member now t u)
  then show ?thesis using member_rv.loop_ok [OF ok] by (simp add: revoke_team_member_sessions_def)
qed

definition fresh_live :: "relay_store \<Rightarrow> live" where
  "fresh_live s = \<lparr>lv_store = s, lv_sessions = [], lv_open = [], lv_rooms = [], lv_teams = [],
     lv_workspace = [], lv_presence = [], lv_out = []\<rparr>"

lemma fresh_indexes_ok: "indexes_ok (fresh_live s)"
  by (simp add: indexes_ok_def fresh_live_def index_of_def)


section \<open>Joining takes membership and a device\<close>

lemma set_team_members_map:
  "set_team_members t ms s = Done s' \<Longrightarrow> teamMembers s' = jset t ms (teamMembers s) \<and> teams s' = teams s"
  by (auto simp: set_team_members_def Let_def log_mutation_def split: outcome.splits)

lemma dm_set_team_members: "dm_set team_map k v s = Done s' \<Longrightarrow> teamMembers s' = teamMembers s"
  using team_tm.dm_set_shape [of k v s s'] by (auto simp: team_map_def)

lemma member_set_members:
  "member_set t u m s = Done s' \<Longrightarrow>
     members_of s' t = map_option (jset u m) (members_of s t) \<and> teams s' = teams s"
  by (auto simp: member_set_def members_of_def log_mutation_def split: option.splits outcome.splits)

lemma add_team_member_adds:
  assumes "add_team_member now t u role s = Done s'" and "u \<noteq> []" and "jget (teams s) t \<noteq> None"
  shows "has_team_member s' t u"
proof (cases "has_team_member s t u")
  case True
  with assms show ?thesis by (auto simp: add_team_member_def)
next
  case False
  from assms(3) obtain team where team: "jget (teams s) t = Some team" by auto
  let ?m = "\<lparr>m_team = t, m_user = u, m_role = role, m_joined = Iso now\<rparr>"
  from assms(1,2) team False obtain s1 ms s2 where 1: "member_set t u ?m s = Done s1"
    and ms: "ms = (case members_of s1 t of None \<Rightarrow> [(u, ?m)] | Some live \<Rightarrow> live)"
    and 2: "set_team_members t ms s1 = Done s2" and 3: "set_team (team\<lparr>t_members := length ms\<rparr>) s2 = Done s'"
    by (auto simp: add_team_member_def Let_def elim!: seq_DoneE)
  have "jget ms u \<noteq> None"
    using member_set_members [OF 1] by (cases "members_of s t") (auto simp: ms)
  moreover have "members_of s' t = Some ms"
    using set_team_members_map [OF 2] dm_set_team_members [of _ _ s2 s'] 3 by (simp add: members_of_def set_team_def)
  ultimately show ?thesis by (simp add: has_team_member_def jhas_def)
qed

lemma invite_delete_members [simp]: "teamMembers (dm_delete invite_map k s) = teamMembers s"
  using invite_tm.dm_delete_shape [of k s] by (auto simp: invite_map_def)

lemma has_member_cong: "teamMembers s = teamMembers s' \<Longrightarrow> has_team_member s t u = has_team_member s' t u"
  by (simp add: has_team_member_def members_of_def)

lemma save_now_DoneE: "save_now ok l = Done l' \<Longrightarrow> ok \<and> l' = put_store discard_durable_mutations l"
  by (auto simp: save_now_cases split: if_splits)

lemma discard_maps [simp]:
  "teamMembers (discard_durable_mutations s) = teamMembers s" "teams (discard_durable_mutations s) = teams s"
  "rooms (discard_durable_mutations s) = rooms s"
  by (simp_all add: discard_durable_mutations_def)

lemma add_member_live_adds:
  assumes "add_member_live e now ok t u role l = Done l'" and "u \<noteq> []" and "jget (teams (lv_store l)) t \<noteq> None"
  shows "has_team_member (lv_store l') t u"
proof (cases "adds_member (lv_store l) t u")
  case False
  with assms show ?thesis by (auto simp: add_member_live_def adds_member_def)
next
  case True
  with assms(1) obtain l1 l2 where 1: "on_store (add_team_member now t u role) l = Done l1"
    and 2: "save_now ok l1 = Done l2"
    and l': "lv_store l' = lv_store l2"
    by (auto simp: add_member_live_def elim!: seq_DoneE split: option.split)
  from 1 have "add_team_member now t u role (lv_store l) = Done (lv_store l1)"
    by (auto simp: on_store_simps split: outcome.splits)
  with add_team_member_adds [OF _ assms(2,3)] have "has_team_member (lv_store l1) t u" .
  then show ?thesis
    using save_now_DoneE [OF 2] l' has_member_cong [of "lv_store l'" "lv_store l1" t u] by simp
qed

lemma is_active_team_there: "is_active_room s t r \<Longrightarrow> jget (teams s) t \<noteq> None"
  by (auto simp: is_active_room_def is_active_team_def split: option.splits)

text \<open>A room is opened to the account only as a member, who may have been added on an invite.\<close>

lemma can_join_member:
  assumes "can_join_room e now ok1 ok2 k t r u d iv l = (True, Done l')" and auth: "en_auth e" and u: "u \<noteq> []"
    and active: "is_active_room (lv_store l) t r"
  shows "has_team_member (lv_store l') t u"
proof -
  let ?a = "if truthy iv then approved_invite_for_admission now ok1 (the iv) t r u d l else (None, Done l)"
  show ?thesis
  proof (cases "can_access_room (lv_store l) t r u")
    case True
    with assms(1) auth show ?thesis
      by (auto simp: can_join_room_def can_access_room_def split: option.splits if_splits)
  next
    case False
    obtain o_inv res where a: "?a = (o_inv, res)" by fastforce
    from assms(1) auth False a obtain i where i: "o_inv = Some i"
      by (auto simp: can_join_room_def split: option.splits if_splits)
    with a have res: "res = Done l"
      by (auto simp: approved_invite_for_admission_def split: option.splits if_splits)
    from assms(1) auth False a i res obtain l1 l2 where 1: "add_member_live e now ok1 t u Member l = Done l1"
      and 2: "save_now ok2 (put_store (dm_delete invite_map (i_id i)) l1) = Done l2" and l': "l' = l2"
      by (auto simp: can_join_room_def elim!: seq_DoneE split: option.splits if_splits outcome.splits)
    have "has_team_member (lv_store l1) t u"
      by (rule add_member_live_adds [OF 1 u is_active_team_there [OF active]])
    then show ?thesis
      using save_now_DoneE [OF 2] l' has_member_cong [of "lv_store l'" "lv_store l1" t u] by simp
  qed
qed

lemma bounded_identity_nonempty: "is_bounded_socket_identity u d \<Longrightarrow> u \<noteq> []"
  by (auto simp: is_bounded_socket_identity_def normalize_metadata_text_def string_or_empty_def js_trim_def Let_def)

lemma enter_room_store: "lv_store (enter_room e n k t r u d tok l) = lv_store l"
proof -
  have "lv_store (replay_room e n k t r l') = lv_store l'" for l'
    by (simp add: replay_room_def Let_def replay_pending_invite_requests_def fold_inv split: option.split)
  moreover have "lv_store (join_room e n k t r u d l') = lv_store l'" for l'
    by (simp add: join_room_def Let_def)
  ultimately show ?thesis by (simp add: enter_room_def Let_def split: option.split)
qed

lemma has_device_session_true: "fst (has_device_session now tok u d s) \<Longrightarrow> snd (has_device_session now tok u d s) = s"
  by (auto simp: has_device_session_def Let_def split: option.splits if_splits)

lemma dispatch_join_joins:
  assumes run: "dispatch_join e now ok1 ok2 k t r u d iv token l = Done l'" and moved: "frame_of l' \<noteq> frame_of l"
  shows "is_bounded_socket_identity u d \<and> is_active_room (lv_store l) t r \<and> can_authenticate_join_identity e l k u
    \<and> (\<exists>l1 l2. ws_has_device_session e now (case token of None \<Rightarrow> [] | Some x \<Rightarrow> x) u d l = (True, l1)
          \<and> can_join_room e now ok1 ok2 k t r u d iv l1 = (True, Done l2)
          \<and> l' = enter_room e now k t r u d token l2)"
proof -
  let ?tok = "case token of None \<Rightarrow> [] | Some x \<Rightarrow> x"
  obtain b l1 where 1: "ws_has_device_session e now ?tok u d l = (b, l1)" by fastforce
  with frame_ws_device [of e now ?tok u d l] have f1: "frame_of l1 = frame_of l" by simp
  obtain j res where 2: "can_join_room e now ok1 ok2 k t r u d iv l1 = (j, res)" by fastforce
  with frame_can_join [of e now ok1 ok2 k t r u d iv l1] f1 have f2: "frame_of (state_of res) = frame_of l" by simp
  have checks: "is_bounded_socket_identity u d" "is_active_room (lv_store l) t r" "can_authenticate_join_identity e l k u"
      "\<not> (truthy iv \<and> normalize_metadata_text (J_str (the iv)) max_envelope_id = None)"
    using run moved by (auto simp: dispatch_join_def split: if_splits)
  have b using run moved f1 checks by (cases b) (auto simp: dispatch_join_def 1)
  with run checks have "seq res (\<lambda>l2. Done (if j then enter_room e now k t r u d token l2
      else send_error e now k invite_join_text None None l2)) = Done l'"
    by (simp add: dispatch_join_def 1 2)
  then obtain l2 where res: "res = Done l2"
    and l': "l' = (if j then enter_room e now k t r u d token l2 else send_error e now k invite_join_text None None l2)"
    by (cases res) auto
  have j using l' moved f2 res by (cases j) auto
  with l' res 1 2 checks \<open>b\<close> show ?thesis by auto
qed

text \<open>
  C11: With authentication on, a join message puts a socket into a room's index only when its
  account session is the user the message names, the device session presented is the user's
  and the device's, the room is active, and the user is afterwards a member of the room's team.
\<close>

theorem join_requires_membership_and_device:
  assumes auth: "en_auth e" and not_debug: "\<not> en_debug e"
    and out: "k \<notin> set (index_of (lv_rooms l) (room_key t r))"
    and run: "dispatch_join e now ok1 ok2 k t r u d iv token l = Done l'"
    and joined: "k \<in> set (index_of (lv_rooms l') (room_key t r))"
  shows "\<exists>cs. session_of l k = Some cs \<and> auth_user_id cs = Some u
     \<and> fst (has_device_session now (Some (case token of None \<Rightarrow> [] | Some x \<Rightarrow> x)) u d (lv_store l))
     \<and> is_active_room (lv_store l) t r \<and> has_team_member (lv_store l') t u"
proof -
  let ?tok = "case token of None \<Rightarrow> [] | Some x \<Rightarrow> x"
  have stay: "frame_of l' \<noteq> frame_of l" using out joined by (auto simp: frame_of_def)
  from dispatch_join_joins [OF run stay] obtain l1 l2 where
      checks: "is_bounded_socket_identity u d" "is_active_room (lv_store l) t r" "can_authenticate_join_identity e l k u"
      and 1: "ws_has_device_session e now ?tok u d l = (True, l1)"
      and 2: "can_join_room e now ok1 ok2 k t r u d iv l1 = (True, Done l2)"
      and l': "l' = enter_room e now k t r u d token l2"
    by blast
  from 1 auth not_debug have dev: "fst (has_device_session now (Some ?tok) u d (lv_store l))"
    and l1: "lv_store l1 = snd (has_device_session now (Some ?tok) u d (lv_store l))"
    by (auto simp: ws_has_device_session_def split: prod.splits)
  have same: "lv_store l1 = lv_store l"
    using l1 has_device_session_true [OF dev] by simp
  have "has_team_member (lv_store l2) t u"
    using can_join_member [OF 2 auth bounded_identity_nonempty [OF checks(1)]] checks(2) same by simp
  then have "has_team_member (lv_store l') t u" by (simp add: l' enter_room_store)
  moreover obtain cs where "session_of l k = Some cs" "auth_user_id cs = Some u"
    using checks(3) auth by (auto simp: can_authenticate_join_identity_def split: option.splits)
  ultimately show ?thesis using dev checks(2) by (intro exI conjI)
qed

section \<open>Publishing takes a live session\<close>

lemma remains_authorized_facts:
  assumes "mls_publish_remains_authorized e now k m l = (True, l')" and "en_auth e" and "\<not> en_debug e"
  shows "\<exists>cs a. session_of l k = Some cs \<and> cs_registered cs \<and> k \<in> set (lv_open l) \<and> cs_auth cs = Some a
     \<and> is_live_account_session (lv_store l) a now \<and> can_publish_mls_message cs m
     \<and> fst (has_device_session now (cs_token cs) (mm_user m) (mm_device m) (lv_store l))
     \<and> can_access_room (lv_store l) (mm_team m) (mm_room m) (mm_user m)
     \<and> host_handoff_target_remains_authorized (lv_store l) m \<and> l' = l"
proof -
  from assms(1) have active: "is_active_queued l k" by (auto simp: mls_publish_remains_authorized_def split: if_splits)
  then obtain cs where cs: "session_of l k = Some cs" "cs_registered cs" and opened: "k \<in> set (lv_open l)"
    by (auto simp: is_active_queued_def registered_def split: option.splits if_splits)
  have live: "is_live_client_session e now l cs"
    using assms(1) active cs by (auto simp: mls_publish_remains_authorized_def has_live_authentication_def split: if_splits)
  then have auth: "has_live_authentication e now k l = (True, l)" by (simp add: has_live_authentication_def cs)
  obtain b l2 where dev: "session_has_device e now cs l = (b, l2)" by fastforce
  have b: b and rest: "can_access_room (lv_store l2) (mm_team m) (mm_room m) (the (cs_user cs))"
      "host_handoff_target_remains_authorized (lv_store l2) m" "can_publish_mls_message cs m" "l' = l2"
    using assms(1) active by (cases b; simp add: mls_publish_remains_authorized_def auth cs dev)+
  have ident: "has_publish_identity cs" using dev b by (auto simp: session_has_device_def split: if_splits)
  then obtain tok where tok: "cs_token cs = Some tok" by (cases "cs_token cs") (auto simp: has_publish_identity_def)
  have ids: "cs_user cs = Some (mm_user m)" "cs_device cs = Some (mm_device m)"
    using rest(3) by (auto simp: can_publish_mls_message_def)
  obtain s where h: "has_device_session now (Some tok) (mm_user m) (mm_device m) (lv_store l) = (b, s)" "l2 = l\<lparr>lv_store := s\<rparr>"
    using dev ident assms(2,3) by (auto simp: session_has_device_def ws_has_device_session_def tok ids split: prod.splits)
  with b has_device_session_true [of now "Some tok" "mm_user m" "mm_device m" "lv_store l"] have "l2 = l" by simp
  moreover obtain a where "cs_auth cs = Some a" "is_live_account_session (lv_store l) a now"
    using live assms(2) by (auto simp: is_live_client_session_def split: option.splits)
  ultimately show ?thesis using cs opened rest ids h b tok by auto
qed

text \<open>
  C12: With authentication on, a message is accepted only while the connection that sent it is
  open, registered and signed in with a live account session, on a valid device session of the
  user and device the message names, and that user is a member of the room's team. All this is
  tested in the room's turn, on the store the message is accepted into.
\<close>

theorem accepted_publish_is_authorized:
  assumes auth: "en_auth e" "\<not> en_debug e"
    and run: "publish_for_room e now rs sv (mls_publish_remains_authorized e now k m) m l = (Accepted, l')"
  shows "\<exists>s cs a. prune_expired_state (en_mls e) now (lv_store l) = Done s
     \<and> session_of l k = Some cs \<and> cs_registered cs \<and> k \<in> set (lv_open l)
     \<and> cs_auth cs = Some a \<and> is_live_account_session s a now
     \<and> cs_user cs = Some (mm_user m) \<and> cs_device cs = Some (mm_device m)
     \<and> fst (has_device_session now (cs_token cs) (mm_user m) (mm_device m) s)
     \<and> has_team_member s (mm_team m) (mm_user m) \<and> is_active_room s (mm_team m) (mm_room m)"
proof -
  from run obtain s where s: "prune_expired_state (en_mls e) now (lv_store l) = Done s"
    by (auto simp: publish_for_room_def split: outcome.splits)
  let ?l = "l\<lparr>lv_store := discard_durable_mutations s\<rparr>"
  obtain b l1 where 1: "mls_publish_remains_authorized e now k m ?l = (b, l1)" by fastforce
  obtain r s1 where 2: "publish_store e now sv b m (lv_store l1) = (r, s1)" by fastforce
  from run s have "rs = Saved" and r: "r = Accepted"
    by (auto simp: publish_for_room_def Let_def 1 2 split: if_splits)
  with 2 have b: b by (auto simp: publish_store_def Let_def split: if_splits)
  from remains_authorized_facts [of e now k m ?l l1] 1 b auth obtain cs a where
    "session_of l k = Some cs" "cs_registered cs" "k \<in> set (lv_open l)" "cs_auth cs = Some a"
    and live: "is_live_account_session (discard_durable_mutations s) a now" "can_publish_mls_message cs m"
      "fst (has_device_session now (cs_token cs) (mm_user m) (mm_device m) (discard_durable_mutations s))"
      "can_access_room (discard_durable_mutations s) (mm_team m) (mm_room m) (mm_user m)"
    by auto
  moreover have "is_live_account_session s a now"
    using live(1) by (simp add: is_live_account_session_def is_account_restricted_def discard_durable_mutations_def)
  moreover have "fst (has_device_session now (cs_token cs) (mm_user m) (mm_device m) s)"
    using live(3) by (auto simp: has_device_session_def Let_def discard_durable_mutations_def split: option.splits if_splits)
  moreover have "has_team_member s (mm_team m) (mm_user m)" "is_active_room s (mm_team m) (mm_room m)"
    using live(4) has_member_cong [of "discard_durable_mutations s" s] is_active_room_cong [of "discard_durable_mutations s" s]
    by (simp_all add: can_access_room_def)
  ultimately show ?thesis using s live(2) by (auto simp: can_publish_mls_message_def)
qed

end
