(* ===== verification/Live_Witnesses.thy ===== *)
theory Live_Witnesses
  imports Samples Devices_Proofs Dispatch_Proofs
begin

text \<open>
  The properties of sockets, device sessions and dispatch, applied to the sample store with
  authentication on: Ann's account session, her device session, and one connection.
\<close>

definition live_env :: env where
  "live_env = sample_env\<lparr>en_auth := True\<rparr>"

definition sample_auth :: "string \<Rightarrow> auth_session" where
  "sample_auth u = \<lparr>as_hash = u, as_user = \<lparr>u_id = u, u_login = u, u_name = None, u_avatar = None\<rparr>, as_expires = 100000\<rparr>"

definition sample_challenge :: string where
  "sample_challenge = b64_encode (replicate 32 (CHR ''A''))"

definition auth_store :: relay_store where
  "auth_store =
     (let s = state_of (dm_set auth_map ''ann'' (sample_auth ''ann'') sample_store) in
      s\<lparr>deviceChallenges := [(sample_challenge, \<lparr>dc_user = ''ann'', dc_device = ''ann-device'', dc_expires = 60000\<rparr>)],
        deviceSessions := [(''tok'', \<lparr>ds_token = ''tok'', ds_user = ''ann'', ds_device = ''ann-device'', ds_expires = 90000\<rparr>)]\<rparr>)"

definition sample_config :: config where
  "sample_config = \<lparr>cf_env = live_env, cf_spki = (\<lambda>_. True), cf_point = (\<lambda>_. True), cf_key_chars = 1000, cf_device_cap = 5,
     cf_invite_ttl_days = 7, cf_invite_cap = 20, cf_stamp = (\<lambda>s. Other_stamp s None), cf_datetime = (\<lambda>_. True)\<rparr>"

definition proof_body :: jsv where
  "proof_body = J_obj [(''challenge'', J_str sample_challenge), (''signature'', J_str ''QUJD'')]"

definition ann_session :: client_session where
  "ann_session = (new_session 1 (Some (sample_auth ''ann'')) ''client'')\<lparr>cs_team := Some ''team'', cs_room := Some ''room'',
     cs_user := Some ''ann'', cs_device := Some ''ann-device'', cs_token := Some ''tok''\<rparr>"

text \<open>Ann's socket 1 before and after she joined the room.\<close>

definition connected_live :: live where
  "connected_live = (fresh_live auth_store)\<lparr>lv_open := [1],
     lv_sessions := [(1, new_session 1 (Some (sample_auth ''ann'')) ''client'')]\<rparr>"

definition joined_live :: live where
  "joined_live = (fresh_live auth_store)\<lparr>lv_open := [1], lv_sessions := [(1, ann_session)],
     lv_rooms := [(''team:room'', [1])]\<rparr>"

lemma store_ok_transient [simp]:
  "store_ok (s\<lparr>deviceChallenges := c\<rparr>) = store_ok s" "store_ok (s\<lparr>deviceSessions := d\<rparr>) = store_ok s"
  by (simp_all add: store_ok_def entry_teams_def entry_weights_def store_wf_def member_teams_def team_mset_def map_defs)

lemma auth_store_ok: "store_ok auth_store"
  by (simp add: auth_store_def auth_tm.dm_set_ok sample_store_ok)

lemma fresh_session_registered: "registered joined_live 1 = Some ann_session"
  by code_simp

lemma joined_indexes: "indexes_ok joined_live"
proof (rule indexes_okI)
  have k: "joined_key ann_session ''team:room''" by code_simp
  fix j key assume "j \<in> set (index_of (lv_rooms joined_live) key)"
  with k show "\<exists>cs. session_of joined_live j = Some cs \<and> joined_key cs key"
    by (auto simp: joined_live_def index_of_def split: if_splits)
qed (auto simp: joined_live_def fresh_live_def index_of_def ann_session_def new_session_def)

lemma revoked_user_hears_nothing_witness:
  "registered (revoke_user_sessions live_env 5 ''ann'' ''gone'' joined_live) 1 = None
     \<and> \<not> listens (revoke_user_sessions live_env 5 ''ann'' ''gone'' joined_live) 1"
proof -
  have "session_is_users ''ann'' ann_session" by code_simp
  with revoked_user_hears_nothing [OF joined_indexes fresh_session_registered, of live_env 5 "''ann''" "''gone''"]
  show ?thesis by simp
qed

lemma removed_member_hears_nothing_witness:
  "1 \<notin> set (lv_open (revoke_team_member_sessions live_env 5 ''team'' ''ann'' joined_live))
     \<and> \<not> listens (revoke_team_member_sessions live_env 5 ''team'' ''ann'' joined_live) 1"
proof -
  have "hit_by_removal ''team'' ''ann'' ann_session" by code_simp
  with removed_member_hears_nothing [OF joined_indexes fresh_session_registered, of live_env 5 "''team''" "''ann''"]
  show ?thesis by simp
qed

lemma sample_body: "challenge_of proof_body = sample_challenge" "string_or_empty (field_of proof_body ''challenge'') = sample_challenge"
    "string_or_empty (field_of proof_body ''signature'') = ''QUJD''"
  by (simp_all add: challenge_of_def proof_body_def field_of_def string_or_empty_def)

lemma sample_challenge_bytes: "b64_decode sample_challenge = Some (replicate 32 (CHR ''A''))"
  by (simp only: sample_challenge_def b64_roundtrip)

lemma sample_canonical: "is_canonical_base64_of (Some 32) (Some 32) sample_challenge" "is_canonical_base64_of None (Some 256) ''QUJD''"
proof -
  have "length sample_challenge = 44" by code_simp
  moreover have "b64_encode (replicate 32 (CHR ''A'')) = sample_challenge" by (simp only: sample_challenge_def)
  ultimately show "is_canonical_base64_of (Some 32) (Some 32) sample_challenge"
    unfolding is_canonical_base64_of_def sample_challenge_bytes by auto
  show "is_canonical_base64_of None (Some 256) ''QUJD''" by code_simp
qed

lemma sample_payload: "\<exists>p. device_auth_payload ''ann'' ''ann-device'' c = Some p"
proof -
  have "length (utf8_bytes ''ann'') = 3" "length (utf8_bytes ''ann-device'') = 10" by code_simp+
  then show ?thesis by (simp add: device_auth_payload_def uint16_be_def)
qed

lemma sample_signature: "valid_device_signature live_env ''QUJD'' ''ann'' ''ann-device'' sample_challenge ''QUJD''"
proof -
  obtain p where "device_auth_payload ''ann'' ''ann-device'' (replicate 32 (CHR ''A'')) = Some p" using sample_payload by blast
  then show ?thesis
    by (simp add: valid_device_signature_def b64_bytes_def sample_challenge_bytes live_env_def sample_env_def)
qed

lemma sample_session_issued:
  "create_device_session live_env 5 ''new'' (Some (sample_auth ''ann'')) ''ann-device'' proof_body auth_store
     = (Reply 200 (''new'', 900005), snd (create_device_session live_env 5 ''new'' (Some (sample_auth ''ann'')) ''ann-device'' proof_body auth_store))"
proof -
  have "fst (create_device_session live_env 5 ''new'' (Some (sample_auth ''ann'')) ''ann-device'' proof_body auth_store)
      = Reply 200 (''new'', 900005)" (is "fst ?r = _")
  proof -
    have d: "get_device (auth_store\<lparr>deviceChallenges := jdel sample_challenge (deviceChallenges auth_store)\<rparr>) ''ann'' ''ann-device''
        = Some (sample_device ''ann'' ''ann-device'')" by code_simp
    have p: "valid_pending_challenge 5 (jget (deviceChallenges auth_store) sample_challenge) ''ann'' ''ann-device''" by code_simp
    have u: "session_user_of (sample_auth ''ann'') = ''ann''" by code_simp
    have k: "d_sig_key (sample_device ''ann'' ''ann-device'') = ''QUJD''" by code_simp
    show ?thesis
      using sample_canonical sample_signature
      by (simp add: create_device_session_def sample_body u d k p Let_def allowed_def issue_device_session_def device_session_ms_def)
  qed
  then show ?thesis by (metis prod.collapse)
qed

lemma device_session_needs_proof_witness:
  "\<exists>device. get_device auth_store ''ann'' ''ann-device'' = Some device
     \<and> jget (deviceChallenges (snd (create_device_session live_env 5 ''new'' (Some (sample_auth ''ann'')) ''ann-device''
          proof_body auth_store))) (challenge_of proof_body) = None"
proof -
  have u: "session_user_of (sample_auth ''ann'') = ''ann''" by (simp add: session_user_of_def sample_auth_def)
  show ?thesis using device_session_needs_proof [OF sample_session_issued] unfolding u by blast
qed

lemma challenge_is_single_use_witness:
  "is_error (fst (create_device_session live_env 6 ''other'' (Some (sample_auth ''ann'')) ''ann-device'' proof_body
      (snd (create_device_session live_env 5 ''new'' (Some (sample_auth ''ann'')) ''ann-device'' proof_body auth_store))))"
proof -
  have "is_canonical_base64_of None (Some 256) (string_or_empty (field_of proof_body ''signature''))" by code_simp
  from challenge_is_single_use [OF sample_session_issued _ this refl] show ?thesis by simp
qed

definition ann_identity :: device_identity where
  "ann_identity = \<lparr>di_user = ''ann'', di_device = ''ann-device'', di_display = ''ann'', di_sig_key = ''QUJD'',
     di_sig_fp = ''fp'', di_hpke_key = ''QUJD'', di_hpke_fp = ''fp''\<rparr>"

lemma device_keys_are_bound_witness:
  "keys_of (lv_store (snd (register_device_turn sample_config 5 True (sample_auth ''ann'') ann_identity connected_live)))
     ''ann'' ''ann-device'' = Some (''QUJD'', ''QUJD'')"
proof -
  have i: "di_user ann_identity = ''ann''" "di_device ann_identity = ''ann-device''" by (simp_all add: ann_identity_def)
  have s: "lv_store connected_live = auth_store" by (simp add: connected_live_def fresh_live_def)
  have k: "keys_of auth_store ''ann'' ''ann-device'' = Some (''QUJD'', ''QUJD'')" by code_simp
  have g: "get_device auth_store ''ann'' ''ann-device'' = Some (sample_device ''ann'' ''ann-device'')" by code_simp
  have same: "d_user x = di_user ann_identity \<and> d_device x = di_device ann_identity"
    if "get_device (lv_store connected_live) (di_user ann_identity) (di_device ann_identity) = Some x" for x
    using that by (simp add: i s g sample_device_def split: if_splits) (auto simp: sample_device_def)
  have ok: "store_ok (lv_store connected_live)" by (simp add: s auth_store_ok)
  from device_keys_are_bound [OF ok same surjective_pairing] k show ?thesis by (simp add: i s)
qed


abbreviation ann_joins :: "(live_error, live) outcome" where
  "ann_joins \<equiv> dispatch_join live_env 5 True True 1 ''team'' ''room'' ''ann'' ''ann-device'' None (Some ''tok'') connected_live"

lemma ann_joins_done: "is_done ann_joins"
  by code_simp

lemma ann_joins_room: "List.member (index_of (lv_rooms (state_of ann_joins)) (room_key ''team'' ''room'')) 1"
  by code_simp

lemma join_requires_membership_and_device_witness:
  "has_team_member (lv_store (state_of ann_joins)) ''team'' ''ann''
     \<and> fst (has_device_session 5 (Some ''tok'') ''ann'' ''ann-device'' (lv_store connected_live))"
proof -
  have fin: "ann_joins = Done (state_of ann_joins)" using ann_joins_done by (cases ann_joins) simp_all
  have e: "en_auth live_env" "\<not> en_debug live_env" by (simp_all add: live_env_def sample_env_def)
  have out: "1 \<notin> set (index_of (lv_rooms connected_live) (room_key ''team'' ''room''))"
    by (simp add: connected_live_def fresh_live_def index_of_def)
  show ?thesis
    using join_requires_membership_and_device [OF e out fin] ann_joins_room by auto
qed

abbreviation ann_commits :: "publish_result \<times> live" where
  "ann_commits \<equiv> publish_for_room live_env 2000 Saved Saved
     (mls_publish_remains_authorized live_env 2000 1 (sample_message ''c1'' Commit 3)) (sample_message ''c1'' Commit 3) joined_live"

lemma ann_commit_accepted: "fst ann_commits = Accepted"
  by code_simp

lemma accepted_publish_is_authorized_witness:
  "\<exists>s. prune_expired_state (en_mls live_env) 2000 (lv_store joined_live) = Done s
     \<and> is_live_account_session s (sample_auth ''ann'') 2000 \<and> has_team_member s ''team'' ''ann''"
proof -
  have e: "en_auth live_env" "\<not> en_debug live_env" by (simp_all add: live_env_def sample_env_def)
  have run: "ann_commits = (Accepted, snd ann_commits)" using ann_commit_accepted by (metis prod.collapse)
  have cs: "session_of joined_live 1 = Some ann_session" and a: "cs_auth ann_session = Some (sample_auth ''ann'')"
    by (simp_all add: joined_live_def ann_session_def new_session_def)
  have m: "mm_team (sample_message ''c1'' Commit 3) = ''team''" "mm_user (sample_message ''c1'' Commit 3) = ''ann''"
    by (simp_all add: sample_message_def)
  show ?thesis using accepted_publish_is_authorized [OF e run] cs a unfolding m by auto
qed

end
