(* ===== verification/Invites.thy ===== *)
theory Invites
  imports Devices
begin

text \<open>
  Invites: creation, lookup and revocation (apps/relay/src/http/invites.ts), the directed request
  of an invitee, the host's response, and its acknowledgement, which admits the member
  (http/invite-delivery.ts and http/invite-ack-transaction.ts).
\<close>

section \<open>Creating, reading and revoking invites (invites.ts)\<close>

definition live_invites_of :: "relay_store \<Rightarrow> string \<Rightarrow> int \<Rightarrow> invite list" where
  "live_invites_of s u now =
     filter (\<lambda>i. i_creator i = Some u \<and> (\<not> stamp_set (i_expires i) \<or> stamp_gt (the (i_expires i)) now)) (jvalues (invites s))"

definition new_invite :: "config \<Rightarrow> int \<Rightarrow> string \<Rightarrow> auth_session option \<Rightarrow> string \<Rightarrow> string \<Rightarrow> invite" where
  "new_invite cf now ident session t r =
     \<lparr>i_id = ''invite_'' @ ident, i_team = t, i_room = r, i_creator = map_option session_user_of session,
      i_user = None, i_device = None, i_kp_hash = None, i_created = Iso now,
      i_expires = Some (Iso (now + int (cf_invite_ttl_days cf) * 86400000))\<rparr>"

text \<open>\<open>POST /invites\<close>; \<open>ident\<close> is the random part of the id.\<close>

definition create_invite ::
  "config \<Rightarrow> int \<Rightarrow> bool \<Rightarrow> string \<Rightarrow> auth_session option \<Rightarrow> jsv \<Rightarrow> live \<Rightarrow> invite reply \<times> live" where
  "create_invite cf now ok ident session body l =
     (if \<not> allowed (cf_env cf) session then (Http_error 401 H_authentication_required, l)
      else
        let s = lv_store l; t = string_or_empty (field_of body ''teamId''); r = string_or_empty (field_of body ''roomId'') in
        case jget (teams s) t of
          None \<Rightarrow> (Http_error 404 H_team_not_found, l)
        | Some team \<Rightarrow>
            if stamp_set (t_deleted team) then (Http_error 404 H_team_not_found, l)
            else (case jget (rooms s) r of
              None \<Rightarrow> (Http_error 404 H_room_not_found, l)
            | Some room \<Rightarrow>
                if stamp_set (r_deleted room) \<or> r_team room \<noteq> t then (Http_error 404 H_room_not_found, l)
                else if \<not> is_active_room s t r then (Http_error 409 H_conflict, l)
                else if (case session of None \<Rightarrow> False | Some a \<Rightarrow> \<not> can_access_room s t r (session_user_of a))
                then (Http_error 403 H_forbidden, l)
                else if (case session of None \<Rightarrow> False
                         | Some a \<Rightarrow> length (live_invites_of s (session_user_of a) now) \<ge> cf_invite_cap cf)
                then (Http_error 429 H_quota_exceeded, l)
                else
                  let i = new_invite cf now ident session t r in
                  handle (on_store (dm_set invite_map (i_id i) i) l) (\<lambda>l1.
                    after_persist (persist_or_rollback ok (\<lambda>s. Done (dm_delete invite_map (i_id i) s)) l1)
                      (\<lambda>l2. (Reply 201 i, l2)))))"

definition delete_invite_artifacts :: "string \<Rightarrow> relay_store \<Rightarrow> relay_store" where
  "delete_invite_artifacts i s =
     dm_delete_where ack_map (\<lambda>_ a. ar_invite a = i)
       (dm_delete_where response_map (\<lambda>_ r. s_invite r = i)
         (dm_delete_where request_map (\<lambda>_ q. q_invite q = i) s))"

definition delete_invite_fully :: "string \<Rightarrow> relay_store \<Rightarrow> relay_store" where
  "delete_invite_fully i s = delete_invite_artifacts i (dm_delete invite_map i s)"

text \<open>The public identity of a device that an invite lookup shows.\<close>

record public_device =
  pd_user :: string
  pd_device :: string
  pd_sig_key :: string
  pd_sig_fp :: string
  pd_hpke_key :: string
  pd_hpke_fp :: string

definition public_device_of :: "device \<Rightarrow> public_device" where
  "public_device_of d = \<lparr>pd_user = d_user d, pd_device = d_device d, pd_sig_key = d_sig_key d, pd_sig_fp = d_sig_fp d,
     pd_hpke_key = d_hpke_key d, pd_hpke_fp = d_hpke_fp d\<rparr>"

definition host_device_of :: "relay_store \<Rightarrow> room \<Rightarrow> public_device option" where
  "host_device_of s r =
     (if truthy (r_host_user r) \<and> truthy (r_host_device r)
      then map_option public_device_of (get_device s (the (r_host_user r)) (the (r_host_device r))) else None)"

definition read_invite ::
  "int \<Rightarrow> bool \<Rightarrow> string \<Rightarrow> live \<Rightarrow> (invite \<times> team \<times> room \<times> public_device option) reply \<times> live" where
  "read_invite now ok ident l =
     (case jget (invites (lv_store l)) ident of
        None \<Rightarrow> (Http_error 404 H_invite_not_found, l)
      | Some i \<Rightarrow>
          let gone = (\<lambda>st code. handle (save_now ok (put_store (delete_invite_fully (i_id i)) l))
                        (\<lambda>l1. (Http_error st code, l1))) in
          if is_expired_invite now i then gone 410 H_invite_expired
          else (case (jget (teams (lv_store l)) (i_team i), jget (rooms (lv_store l)) (i_room i)) of
            (Some team, Some room) \<Rightarrow>
              if stamp_set (t_deleted team) \<or> stamp_set (r_deleted room) \<or> r_team room \<noteq> t_id team
              then gone 404 H_invite_not_found
              else if \<not> is_active_room (lv_store l) (i_team i) (i_room i) then (Http_error 409 H_conflict, l)
              else (Reply 200 (i\<lparr>i_creator := None\<rparr>, team, room, host_device_of (lv_store l) room), l)
          | _ \<Rightarrow> gone 404 H_invite_not_found))"

text \<open>\<open>DELETE /teams/:teamId/rooms/:roomId/invites\<close>: the number of revoked invites.\<close>

definition delete_room_invites :: "string \<Rightarrow> string \<Rightarrow> relay_store \<Rightarrow> relay_store" where
  "delete_room_invites t r s =
     fold (\<lambda>(ident, i) s. if i_team i = t \<and> i_room i = r then delete_invite_fully ident s else s) (invites s) s"

definition revoke_invites ::
  "env \<Rightarrow> bool \<Rightarrow> auth_session option \<Rightarrow> string \<Rightarrow> string \<Rightarrow> live \<Rightarrow> nat reply \<times> live" where
  "revoke_invites e ok session t r l =
     (if \<not> allowed e session then (Http_error 401 H_authentication_required, l)
      else case jget (rooms (lv_store l)) r of
        None \<Rightarrow> (Http_error 404 H_room_not_found, l)
      | Some room \<Rightarrow>
          if r_team room \<noteq> t then (Http_error 404 H_room_not_found, l)
          else if (case session of None \<Rightarrow> False | Some a \<Rightarrow> r_host_user room \<noteq> Some (session_user_of a))
          then (Http_error 403 H_forbidden, l)
          else
            let revoked = length (filter (\<lambda>i. i_team i = t \<and> i_room i = r) (jvalues (invites (lv_store l))));
                l1 = put_store (delete_room_invites t r) l in
            if revoked > 0 then handle (save_now ok l1) (\<lambda>l2. (Reply 200 revoked, l2)) else (Reply 200 revoked, l1))"

section \<open>Requests (invite-delivery.ts)\<close>

definition max_opaque_chars :: nat where "max_opaque_chars = 1400000"

definition date_of :: "config \<Rightarrow> string \<Rightarrow> int option" where
  "date_of cf t = date_parse (cf_stamp cf t)"

definition invite_is_expired :: "int \<Rightarrow> invite \<Rightarrow> bool" where
  "invite_is_expired now i \<longleftrightarrow> stamp_set (i_expires i) \<and> stamp_le (the (i_expires i)) now"

definition is_same_invite_request :: "invite_request \<Rightarrow> invite_request \<Rightarrow> bool" where
  "is_same_invite_request q n \<longleftrightarrow> q_invite q = q_invite n \<and> q_user q = q_user n \<and> q_device q = q_device n
     \<and> q_kp_id q = q_kp_id n \<and> q_kp_hash q = q_kp_hash n \<and> q_sealed q = q_sealed n"

definition invite_has_pending_decision :: "relay_store \<Rightarrow> invite \<Rightarrow> bool" where
  "invite_has_pending_decision s i \<longleftrightarrow>
     list_ex (\<lambda>r. s_invite r = i_id i) (jvalues (inviteResponses s))
     \<or> i_user i \<noteq> None \<or> i_device i \<noteq> None \<or> i_kp_hash i \<noteq> None"

definition pending_invite_conflict :: "relay_store \<Rightarrow> invite \<Rightarrow> bool" where
  "pending_invite_conflict s i \<longleftrightarrow>
     list_ex (\<lambda>q. q_invite q = i_id i) (jvalues (inviteRequests s)) \<or> invite_has_pending_decision s i"

definition is_valid_directed_invite_request ::
  "key_package option \<Rightarrow> request_binding option \<Rightarrow> invite \<Rightarrow> room option \<Rightarrow> string \<Rightarrow> string \<Rightarrow> string \<Rightarrow> string \<Rightarrow> bool" where
  "is_valid_directed_invite_request kp directed i room request_id u d kp_hash =
     (case (kp, directed) of
        (Some k, Some b) \<Rightarrow>
          k_user k = u \<and> k_device k = d \<and> k_hash k = kp_hash
          \<and> rb_invite b = i_id i \<and> rb_team b = i_team i \<and> rb_room b = i_room i
          \<and> rb_epoch b = (case room of None \<Rightarrow> 0 | Some r \<Rightarrow> accepted_epoch r)
          \<and> rb_kp_hash b = kp_hash \<and> rb_request b = request_id \<and> rb_user b = u \<and> rb_device b = d
          \<and> Some (rb_host_user b) = (case room of None \<Rightarrow> None | Some r \<Rightarrow> r_host_user r)
          \<and> Some (rb_host_device b) = (case room of None \<Rightarrow> None | Some r \<Rightarrow> r_host_device r)
          \<and> Some (rb_expires b) = map_option stamp_text (i_expires i)
      | _ \<Rightarrow> False)"

text \<open>\<open>notifyInviteRequested\<close> (apps/relay/src/relay-route-adapter.ts): the sockets of the active host.\<close>

definition notify_invite_requested :: "env \<Rightarrow> int \<Rightarrow> string \<Rightarrow> string \<Rightarrow> live \<Rightarrow> live" where
  "notify_invite_requested e now invite_id request_id l =
     (case (case jget (invites (lv_store l)) invite_id of None \<Rightarrow> None | Some i \<Rightarrow> jget (rooms (lv_store l)) (i_room i)) of
        None \<Rightarrow> l
      | Some r \<Rightarrow>
          if \<not> truthy (r_host_user r) \<or> \<not> truthy (r_host_device r) then l
          else fold (\<lambda>cs. send e now (cs_socket cs) (Invite_requested invite_id request_id))
                 (filter (\<lambda>cs. cs_registered cs \<and> cs_room cs = Some (r_id r) \<and> cs_user cs = r_host_user r
                            \<and> cs_device cs = r_host_device r) (jvalues (lv_sessions l))) l)"

text \<open>
  \<open>saveInviteRequestAtomically\<close>. The save is made by a synchronous call that throws on failure,
  before the promise whose failure would delete the request exists: the request stays.
\<close>

definition save_invite_request :: "bool \<Rightarrow> invite_request \<Rightarrow> live \<Rightarrow> (live_error, live) outcome" where
  "save_invite_request ok q l = seq (on_store (dm_set request_map (q_id q) q) l) (save_now ok)"

definition new_invite_request ::
  "int \<Rightarrow> string \<Rightarrow> invite \<Rightarrow> string \<Rightarrow> string \<Rightarrow> string \<Rightarrow> string \<Rightarrow> string \<Rightarrow> invite_request" where
  "new_invite_request now request_id i u d kp_id kp_hash sealed =
     \<lparr>q_id = request_id, q_invite = i_id i, q_user = u, q_device = d, q_kp_id = kp_id, q_kp_hash = kp_hash,
      q_sealed = sealed, q_created = Iso now\<rparr>"

definition device_of :: "int \<Rightarrow> string option \<Rightarrow> string \<Rightarrow> string \<Rightarrow> live \<Rightarrow> bool \<times> live" where
  "device_of now token u d l = (case has_device_session now token u d (lv_store l) of (b, s) \<Rightarrow> (b, l\<lparr>lv_store := s\<rparr>))"

text \<open>
  \<open>POST /invites/:inviteId/requests\<close>. \<open>pending\<close> is the outcome of a save of the same request
  that is still in flight.
\<close>

definition submit_invite_request ::
  "config \<Rightarrow> int \<Rightarrow> bool \<Rightarrow> bool option \<Rightarrow> auth_session option \<Rightarrow> string option \<Rightarrow> string \<Rightarrow> jsv \<Rightarrow> live
     \<Rightarrow> (string \<times> string) reply \<times> live" where
  "submit_invite_request cf now ok pending session token invite_id body l =
     (let e = cf_env cf; norm = (\<lambda>k n. normalize_metadata_text (field_of body k) n);
          kp_hash = string_or_empty (field_of body ''keyPackageHash'');
          sealed = string_or_empty (field_of body ''sealedRequest'') in
      if \<not> allowed e session then (Http_error 401 H_authentication_required, l)
      else case session of
        None \<Rightarrow> (Http_error 401 H_authentication_required, l)
      | Some a \<Rightarrow>
          if body = J_undefined \<or> body = J_null then (Http_error 500 H_internal_error, l)
          else if \<not> has_exact_keys body [''requestId'', ''requesterDeviceId'', ''keyPackageId'', ''keyPackageHash'', ''sealedRequest'']
          then (Http_error 400 H_invalid_request, l)
          else (case (norm ''requestId'' max_envelope_id, norm ''requesterDeviceId'' max_device_id,
                      norm ''keyPackageId'' max_envelope_id) of
            (Some request_id, Some d, Some kp_id) \<Rightarrow>
              (case device_of now token (session_user_of a) d l of
                 (False, l1) \<Rightarrow> (Http_error 403 H_device_auth_required, l1)
               | (True, l1) \<Rightarrow>
                   (case jget (invites (lv_store l)) invite_id of
                      None \<Rightarrow> (Http_error 404 H_invite_not_found, l1)
                    | Some i \<Rightarrow>
                        if invite_is_expired now i then (Http_error 410 H_invite_expired, l1)
                        else if \<not> is_active_invite_target (lv_store l1) (Some i) then (Http_error 409 H_conflict, l1)
                        else
                          let q = new_invite_request now request_id i (session_user_of a) d kp_id kp_hash sealed in
                          (case jget (inviteRequests (lv_store l1)) request_id of
                             Some existing \<Rightarrow>
                               if \<not> is_same_invite_request existing q then (Http_error 409 H_conflict, l1)
                               else if pending = Some False then (Http_error 503 H_persistence_unavailable, l1)
                               else (Reply 200 (q_id existing, ''pending''), l1)
                           | None \<Rightarrow>
                               if pending_invite_conflict (lv_store l1) i then (Http_error 409 H_conflict, l1)
                               else if \<not> is_valid_directed_invite_request (jget (keyPackages (lv_store l1)) kp_id)
                                         (parse_strict_directed_invite_request (date_of cf) (J_str sealed) max_opaque_chars)
                                         i (jget (rooms (lv_store l1)) (i_room i)) request_id (session_user_of a) d kp_hash
                               then (Http_error 400 H_invalid_request, l1)
                               else handle (save_invite_request ok q l1) (\<lambda>l2.
                                 (Reply 201 (request_id, ''pending''),
                                  notify_invite_requested e now (i_id i) request_id l2)))))
          | _ \<Rightarrow> (Http_error 400 H_invalid_request, l)))"

definition requester_device_of :: "relay_store \<Rightarrow> invite_request \<Rightarrow> (string \<times> string \<times> string \<times> string) option" where
  "requester_device_of s q =
     map_option (\<lambda>d. (d_user d, d_device d, d_sig_key d, d_sig_fp d)) (get_device s (q_user q) (q_device q))"

definition list_invite_requests ::
  "env \<Rightarrow> int \<Rightarrow> auth_session option \<Rightarrow> string option \<Rightarrow> string \<Rightarrow> string \<Rightarrow> live
     \<Rightarrow> (invite_request \<times> (string \<times> string \<times> string \<times> string) option) list reply \<times> live" where
  "list_invite_requests e now session token invite_id host_device l =
     (if \<not> allowed e session then (Http_error 401 H_authentication_required, l)
      else case (session, jget (invites (lv_store l)) invite_id) of
        (Some a, Some i) \<Rightarrow>
          (case jget (rooms (lv_store l)) (i_room i) of
             None \<Rightarrow> (Http_error 403 H_forbidden, l)
           | Some r \<Rightarrow>
               if \<not> is_active_invite_target (lv_store l) (Some i) \<or> r_host_user r \<noteq> Some (session_user_of a)
                  \<or> r_host_device r \<noteq> Some host_device
               then (Http_error 403 H_forbidden, l)
               else (case device_of now token (session_user_of a) host_device l of
                 (False, l1) \<Rightarrow> (Http_error 403 H_device_auth_required, l1)
               | (True, l1) \<Rightarrow>
                   if invite_is_expired now i then (Http_error 410 H_invite_expired, l1)
                   else (Reply 200 (map (\<lambda>q. (q, requester_device_of (lv_store l1) q))
                          (filter (\<lambda>q. q_invite q = i_id i) (jvalues (inviteRequests (lv_store l1))))), l1)))
      | _ \<Rightarrow> (Http_error 403 H_forbidden, l))"

end
