(* ===== verification/Invite_Responses.thy ===== *)
theory Invite_Responses
  imports Invites
begin

text \<open>
  The host's response to an invite request and its acknowledgement
  (apps/relay/src/http/invite-delivery.ts and http/invite-ack-transaction.ts). The response is
  checked against the schema \<open>InviteResponseRecord\<close> of
  packages/protocol/src/room-team-records.ts and against the request it answers; the
  acknowledgement admits the requester as a member and consumes invite and response.
\<close>

section \<open>The schema of a response\<close>

definition text_between :: "nat \<Rightarrow> nat \<Rightarrow> jsv \<Rightarrow> bool" where
  "text_between lo hi v = (case v of J_str s \<Rightarrow> lo \<le> length s \<and> length s \<le> hi | _ \<Rightarrow> False)"

definition hash_field :: "jsv \<Rightarrow> bool" where
  "hash_field v = (case v of J_str s \<Rightarrow> is_hash_text s | _ \<Rightarrow> False)"

definition datetime_field :: "config \<Rightarrow> jsv \<Rightarrow> bool" where
  "datetime_field cf v = (case v of J_str s \<Rightarrow> cf_datetime cf s | _ \<Rightarrow> False)"

fun decision_of :: "jsv \<Rightarrow> decision option" where
  "decision_of (J_str s) = (if s = ''approved'' then Some Approved else if s = ''denied'' then Some Denied else None)"
| "decision_of _ = None"

definition is_nat_number :: "jsv \<Rightarrow> bool" where
  "is_nat_number v = (case v of J_num i \<Rightarrow> 0 \<le> i \<and> i \<le> max_safe_integer | _ \<Rightarrow> False)"

definition response_binding_keys :: "string list" where
  "response_binding_keys = [''version'', ''phase'', ''inviteId'', ''teamId'', ''roomId'', ''keyEpoch'', ''keyPackageHash'',
     ''requestId'', ''requestNonce'', ''requesterUserId'', ''requesterDeviceId'', ''hostUserId'', ''hostDeviceId'',
     ''expiresAt'', ''status'', ''decidedAt'']"

definition parse_response_binding :: "config \<Rightarrow> jsv \<Rightarrow> response_binding option" where
  "parse_response_binding cf v =
     (let f = field_of v; t = (\<lambda>k. str_field (f k)) in
      if has_exact_keys v response_binding_keys
         \<and> f ''version'' = J_num 3 \<and> f ''phase'' = J_str ''response''
         \<and> text_between 1 max_envelope_id (f ''inviteId'') \<and> bounded_relay_id (f ''teamId'') \<and> bounded_relay_id (f ''roomId'')
         \<and> is_nat_number (f ''keyEpoch'') \<and> hash_field (f ''keyPackageHash'')
         \<and> text_between 1 max_envelope_id (f ''requestId'') \<and> text_between 1 max_envelope_id (f ''requestNonce'')
         \<and> text_between 1 max_user_id (f ''requesterUserId'') \<and> text_between 8 max_device_id (f ''requesterDeviceId'')
         \<and> text_between 1 max_user_id (f ''hostUserId'') \<and> text_between 8 max_device_id (f ''hostDeviceId'')
         \<and> datetime_field cf (f ''expiresAt'') \<and> datetime_field cf (f ''decidedAt'')
      then map_option (\<lambda>d.
         \<lparr>b_invite = t ''inviteId'', b_team = t ''teamId'', b_room = t ''roomId'', b_epoch = nat_field (f ''keyEpoch''),
          b_kp_hash = t ''keyPackageHash'', b_request = t ''requestId'', b_nonce = t ''requestNonce'',
          b_user = t ''requesterUserId'', b_device = t ''requesterDeviceId'', b_host_user = t ''hostUserId'',
          b_host_device = t ''hostDeviceId'', b_expires = cf_stamp cf (t ''expiresAt''), b_status = d,
          b_decided = cf_stamp cf (t ''decidedAt'')\<rparr>) (decision_of (f ''status''))
      else None)"

text \<open>The candidate record of the handler, as far as the schema accepts it.\<close>

definition parse_invite_response ::
  "config \<Rightarrow> int \<Rightarrow> invite_request \<Rightarrow> jsv \<Rightarrow> jsv \<Rightarrow> jsv \<Rightarrow> string option \<Rightarrow> invite_response option" where
  "parse_invite_response cf now q status binding mac welcome =
     (if text_between 1 max_envelope_id (J_str (q_id q)) \<and> text_between 1 max_envelope_id (J_str (q_invite q))
         \<and> text_between 1 max_user_id (J_str (q_user q)) \<and> text_between 8 max_device_id (J_str (q_device q))
         \<and> is_hash_text (q_kp_hash q)
         \<and> (case mac of J_str m \<Rightarrow> b64_decode m \<noteq> None | _ \<Rightarrow> False)
         \<and> welcome \<noteq> Some []
      then (case (decision_of status, parse_response_binding cf binding) of
              (Some d, Some b) \<Rightarrow>
                if (d = Approved) \<noteq> (welcome \<noteq> None) then None
                else Some \<lparr>s_request = q_id q, s_invite = q_invite q, s_user = q_user q, s_device = q_device q,
                           s_kp_hash = q_kp_hash q, s_status = d, s_binding = b, s_mac = str_field mac,
                           s_welcome = welcome, s_created = Iso now\<rparr>
            | _ \<Rightarrow> None)
      else None)"

section \<open>Publishing a response\<close>

definition invite_response_welcome :: "jsv \<Rightarrow> string option" where
  "invite_response_welcome body = (case field_of body ''welcome'' of J_str w \<Rightarrow> Some w | _ \<Rightarrow> None)"

definition invite_response_keys :: "jsv \<Rightarrow> string list" where
  "invite_response_keys status =
     [''hostDeviceId'', ''requestId'', ''status'', ''responseBinding'', ''responseMac'']
     @ (if status = J_str ''approved'' then [''welcome''] else [])"

definition is_active_invite_host :: "auth_session option \<Rightarrow> room option \<Rightarrow> string \<Rightarrow> bool \<Rightarrow> bool" where
  "is_active_invite_host session room host_device target_active =
     (target_active \<and> (case (session, room) of
        (Some a, Some r) \<Rightarrow> r_host_user r = Some (session_user_of a) \<and> r_host_device r = Some host_device
      | _ \<Rightarrow> False))"

definition decision_text :: "decision \<Rightarrow> string" where
  "decision_text d = (case d of Approved \<Rightarrow> ''approved'' | Denied \<Rightarrow> ''denied'')"

text \<open>\<open>JSON.stringify\<close> of a stored binding, in the order of the schema.\<close>

definition response_binding_text :: "response_binding \<Rightarrow> string" where
  "response_binding_text b = stringify (Jobj
     [(''version'', Jint 3), (''phase'', Jstr ''response''), (''inviteId'', Jstr (b_invite b)), (''teamId'', Jstr (b_team b)),
      (''roomId'', Jstr (b_room b)), (''keyEpoch'', Jint (int (b_epoch b))), (''keyPackageHash'', Jstr (b_kp_hash b)),
      (''requestId'', Jstr (b_request b)), (''requestNonce'', Jstr (b_nonce b)), (''requesterUserId'', Jstr (b_user b)),
      (''requesterDeviceId'', Jstr (b_device b)), (''hostUserId'', Jstr (b_host_user b)),
      (''hostDeviceId'', Jstr (b_host_device b)), (''expiresAt'', Jstr (stamp_text (b_expires b))),
      (''status'', Jstr (decision_text (b_status b))), (''decidedAt'', Jstr (stamp_text (b_decided b)))])"

definition is_same_invite_response :: "invite_response \<Rightarrow> string \<Rightarrow> jsv \<Rightarrow> jsv \<Rightarrow> jsv \<Rightarrow> string option \<Rightarrow> bool" where
  "is_same_invite_response r invite_id status mac binding welcome \<longleftrightarrow>
     s_invite r = invite_id \<and> J_str (decision_text (s_status r)) = status \<and> J_str (s_mac r) = mac
     \<and> response_binding_text (s_binding r) = json_text binding \<and> s_welcome r = welcome"

definition is_approved_invite_request :: "invite \<Rightarrow> invite_request \<Rightarrow> bool" where
  "is_approved_invite_request i q \<longleftrightarrow>
     i_user i = Some (q_user q) \<and> i_device i = Some (q_device q) \<and> i_kp_hash i = Some (q_kp_hash q)"

definition invite_response_precondition_error :: "invite \<Rightarrow> invite_request option \<Rightarrow> jsv \<Rightarrow> string option \<Rightarrow> (nat \<times> http_code) option" where
  "invite_response_precondition_error i request status welcome =
     (case request of
        None \<Rightarrow> Some (400, H_invalid_request)
      | Some q \<Rightarrow>
          if q_invite q \<noteq> i_id i then Some (400, H_invalid_request)
          else if status = J_str ''approved'' \<and> \<not> is_approved_invite_request i q then Some (409, H_conflict)
          else if status = J_str ''approved''
                  \<and> (\<not> truthy welcome \<or> \<not> is_canonical_base64 (the welcome) max_opaque_chars)
          then Some (400, H_invalid_request)
          else if status = J_str ''denied'' \<and> welcome \<noteq> None then Some (400, H_invalid_request)
          else None)"

definition invite_response_binding_matches ::
  "config \<Rightarrow> invite_response \<Rightarrow> invite \<Rightarrow> invite_request \<Rightarrow> string \<Rightarrow> room \<Rightarrow> bool" where
  "invite_response_binding_matches cf r i q host_user room =
     (case parse_strict_directed_invite_request (date_of cf) (J_str (q_sealed q)) max_opaque_chars of
        None \<Rightarrow> False
      | Some directed \<Rightarrow>
          let b = s_binding r in
          b_epoch b = rb_epoch directed \<and> b_nonce b = rb_nonce directed \<and> stamp_text (b_expires b) = rb_expires directed
          \<and> b_invite b = i_id i \<and> b_team b = i_team i \<and> b_room b = i_room i \<and> b_request b = q_id q
          \<and> b_kp_hash b = q_kp_hash q \<and> b_user b = q_user q \<and> b_device b = q_device q
          \<and> b_host_user b = host_user \<and> Some (b_host_device b) = r_host_device room \<and> b_status b = s_status r)"

definition valid_invite_response_record ::
  "config \<Rightarrow> int \<Rightarrow> jsv \<Rightarrow> string option \<Rightarrow> invite \<Rightarrow> invite_request \<Rightarrow> string \<Rightarrow> room \<Rightarrow> invite_response option" where
  "valid_invite_response_record cf now body welcome i q host_user room =
     (case parse_invite_response cf now q (field_of body ''status'') (field_of body ''responseBinding'')
             (field_of body ''responseMac'') welcome of
        None \<Rightarrow> None
      | Some r \<Rightarrow>
          if is_canonical_base64 (s_mac r) 128 \<and> invite_response_binding_matches cf r i q host_user room
          then Some r else None)"

definition membership_commit_accepted_for_welcome :: "invite_response \<Rightarrow> room \<Rightarrow> bool" where
  "membership_commit_accepted_for_welcome r room \<longleftrightarrow>
     s_status r \<noteq> Approved \<or> r_epoch room = Some (b_epoch (s_binding r) + 1)"

text \<open>\<open>prepareInviteResponse\<close>: the context to go on with, or the reply that ends the request.\<close>

definition prepare_invite_response ::
  "config \<Rightarrow> int \<Rightarrow> string \<Rightarrow> jsv \<Rightarrow> auth_session option \<Rightarrow> string option \<Rightarrow> live
     \<Rightarrow> ((string \<times> string) reply, invite \<times> room \<times> invite_request \<times> string) sum \<times> live" where
  "prepare_invite_response cf now invite_id body session token l =
     (let s = lv_store l; invite = jget (invites s) invite_id;
          room = (case invite of None \<Rightarrow> None | Some i \<Rightarrow> jget (rooms s) (i_room i));
          request_id = string_or_empty (field_of body ''requestId''); request = jget (inviteRequests s) request_id;
          status = field_of body ''status''; welcome = invite_response_welcome body in
      if \<not> has_exact_keys body (invite_response_keys status) then (Inl (Http_error 400 H_invalid_request), l)
      else if \<not> is_active_invite_host session room (string_or_empty (field_of body ''hostDeviceId'')) (is_active_invite_target s invite)
      then (Inl (Http_error 403 H_forbidden), l)
      else case (session, room, invite) of
        (Some a, Some r, Some i) \<Rightarrow>
          (case device_of now token (session_user_of a) (the (r_host_device r)) l of
             (False, l1) \<Rightarrow> (Inl (Http_error 403 H_device_auth_required), l1)
           | (True, l1) \<Rightarrow>
               if invite_is_expired now i then (Inl (Http_error 410 H_invite_expired), l1)
               else (case jget (inviteResponses (lv_store l1)) request_id of
                 Some existing \<Rightarrow>
                   if is_same_invite_response existing (i_id i) status (field_of body ''responseMac'')
                        (field_of body ''responseBinding'') welcome
                   then (Inl (Reply 200 (s_request existing, ''ready'')), l1) else (Inl (Http_error 409 H_conflict), l1)
               | None \<Rightarrow>
                   (case invite_response_precondition_error i request status welcome of
                      Some (st, code) \<Rightarrow> (Inl (Http_error st code), l1)
                    | None \<Rightarrow> (Inr (i, r, the request, session_user_of a), l1))))
      | _ \<Rightarrow> (Inl (Http_error 403 H_forbidden), l))"

text \<open>\<open>saveInviteResponseAtomically\<close>: the response replaces its request.\<close>

definition save_invite_response :: "bool \<Rightarrow> invite_request \<Rightarrow> invite_response \<Rightarrow> live \<Rightarrow> (live_error, persist_result \<times> live) outcome" where
  "save_invite_response ok q r l =
     (case on_store (dm_set response_map (s_request r) r) (put_store (dm_delete request_map (q_id q)) l) of
        Throws x l1 \<Rightarrow> Throws x (Rollback_failed, l1)
      | Done l1 \<Rightarrow> Done (persist_or_rollback ok
          (\<lambda>s. dm_set request_map (q_id q) q (dm_delete response_map (s_request r) s)) l1))"

definition publish_invite_response ::
  "config \<Rightarrow> int \<Rightarrow> bool \<Rightarrow> auth_session option \<Rightarrow> string option \<Rightarrow> string \<Rightarrow> jsv \<Rightarrow> live \<Rightarrow> (string \<times> string) reply \<times> live" where
  "publish_invite_response cf now ok session token invite_id body l =
     (if \<not> allowed (cf_env cf) session then (Http_error 401 H_authentication_required, l)
      else if body = J_undefined \<or> body = J_null then (Http_error 500 H_internal_error, l)
      else case prepare_invite_response cf now invite_id body session token l of
        (Inl reply, l1) \<Rightarrow> (reply, l1)
      | (Inr (i, room, q, host_user), l1) \<Rightarrow>
          (case valid_invite_response_record cf now body (invite_response_welcome body) i q host_user room of
             None \<Rightarrow> (Http_error 400 H_invalid_request, l1)
           | Some r \<Rightarrow>
               if \<not> membership_commit_accepted_for_welcome r room then (Http_error 409 H_conflict, l1)
               else (case save_invite_response ok q r l1 of
                 Throws x (_, l2) \<Rightarrow> (thrown_reply x, l2)
               | Done res \<Rightarrow> after_persist res (\<lambda>l2. (Reply 201 (s_request r, ''ready''), l2)))))"

definition read_invite_response ::
  "env \<Rightarrow> int \<Rightarrow> auth_session option \<Rightarrow> string option \<Rightarrow> string \<Rightarrow> string \<Rightarrow> string \<Rightarrow> live
     \<Rightarrow> (decision \<times> response_binding \<times> string \<times> string option) reply \<times> live" where
  "read_invite_response e now session token invite_id request_id device_id l =
     (if \<not> allowed e session then (Http_error 401 H_authentication_required, l)
      else case (session, jget (inviteResponses (lv_store l)) request_id) of
        (Some a, Some r) \<Rightarrow>
          (case device_of now token (session_user_of a) (s_device r) l of
             (False, l1) \<Rightarrow> (Http_error 403 H_device_auth_required, l1)
           | (True, l1) \<Rightarrow>
               (case jget (invites (lv_store l)) (s_invite r) of
                  None \<Rightarrow> (Http_error 404 H_not_found, l1)
                | Some i \<Rightarrow>
                    if invite_is_expired now i \<or> \<not> is_active_invite_target (lv_store l1) (Some i)
                       \<or> s_invite r \<noteq> invite_id \<or> s_user r \<noteq> session_user_of a \<or> s_device r \<noteq> device_id
                    then (Http_error 404 H_not_found, l1)
                    else (Reply 200 (s_status r, s_binding r, s_mac r, if truthy (s_welcome r) then s_welcome r else None), l1)))
      | _ \<Rightarrow> (Http_error 404 H_not_found, l))"

section \<open>Acknowledging (invite-ack-transaction.ts)\<close>

definition invite_response_remains_authorized :: "invite option \<Rightarrow> invite_response \<Rightarrow> bool" where
  "invite_response_remains_authorized invite r =
     (case invite of
        None \<Rightarrow> False
      | Some i \<Rightarrow>
          let b = s_binding r in
          i_team i = b_team b \<and> i_room i = b_room b \<and> b_invite b = s_invite r \<and> b_request b = s_request r
          \<and> b_user b = s_user r \<and> b_device b = s_device r \<and> b_kp_hash b = s_kp_hash r \<and> b_status b = s_status r
          \<and> (s_status r \<noteq> Approved \<or>
              (i_user i = Some (s_user r) \<and> i_device i = Some (s_device r) \<and> i_kp_hash i = Some (s_kp_hash r))))"

definition ack_receipt_of :: "int \<Rightarrow> invite_response \<Rightarrow> string \<Rightarrow> ack_receipt" where
  "ack_receipt_of now r t =
     \<lparr>ar_invite = s_invite r, ar_request = s_request r, ar_team = t, ar_user = s_user r, ar_device = s_device r,
      ar_kp_hash = s_kp_hash r, ar_status = s_status r, ar_acked = Iso now, ar_expires = Iso (now + 30 * 86400000)\<rparr>"

text \<open>\<open>pruneInviteAckReceipts\<close>: the expired ones, then the oldest beyond 4096.\<close>

definition prune_invite_ack_receipts :: "int \<Rightarrow> relay_store \<Rightarrow> relay_store" where
  "prune_invite_ack_receipts now s =
     (let ordered = sort_key ack_time (inviteAckReceipts s);
          expired = map fst (filter (\<lambda>(_, a). stamp_le (ar_expires a) now) ordered);
          s1 = delete_keys ack_map expired s;
          retained = filter (\<lambda>(k, _). jhas (inviteAckReceipts s1) k) ordered
      in delete_keys ack_map (map fst (excess 4096 retained)) s1)"

definition admitted_members :: "int \<Rightarrow> invite_response \<Rightarrow> string \<Rightarrow> (string, team_member) jmap \<Rightarrow> (string, team_member) jmap" where
  "admitted_members now r t ms =
     (if jhas ms (s_user r) then ms
      else jset (s_user r) \<lparr>m_team = t, m_user = s_user r, m_role = Member, m_joined = Iso now\<rparr> ms)"

text \<open>The writes of \<open>ackInviteResponseAtomically\<close> before its save.\<close>

definition ack_writes :: "int \<Rightarrow> team \<Rightarrow> invite_response \<Rightarrow> relay_store \<Rightarrow> (store_error, relay_store) outcome" where
  "ack_writes now team r s =
     (let previous = (case members_of s (t_id team) of None \<Rightarrow> [] | Some ms \<Rightarrow> ms);
          ms = admitted_members now r (t_id team) previous in
      seq (if s_status r = Approved
           then seq (set_team_members (t_id team) ms s) (set_team (team\<lparr>t_members := length ms\<rparr>))
           else Done s) (\<lambda>s1.
      let s2 = dm_delete response_map (s_request r) (dm_delete invite_map (s_invite r) s1) in
      seq (dm_set ack_map (s_request r) (ack_receipt_of now r (t_id team)) s2) (\<lambda>s3.
      Done (prune_invite_ack_receipts now s3))))"

definition ack_rollback ::
  "invite_response \<Rightarrow> team \<Rightarrow> (string, team_member) jmap \<Rightarrow> invite option \<Rightarrow> (string, ack_receipt) jmap
     \<Rightarrow> relay_store \<Rightarrow> (store_error, relay_store) outcome" where
  "ack_rollback r team previous invite receipts s =
     seq (dm_set response_map (s_request r) r s) (\<lambda>s1.
     seq (set_team_members (t_id team) previous s1) (\<lambda>s2.
     seq (set_team team s2) (\<lambda>s3.
     seq (case invite of None \<Rightarrow> Done s3 | Some i \<Rightarrow> dm_set invite_map (i_id i) i s3) (\<lambda>s4.
     for_each (\<lambda>(k, v). dm_set ack_map k v) receipts (dm_clear ack_map s4)))))"

datatype ack_result = Ack_ok | Missing_team | Inactive_target | Ack_expired | Ack_revoked | Ack_not_saved

definition ack_invite_response ::
  "int \<Rightarrow> bool \<Rightarrow> invite_response \<Rightarrow> live \<Rightarrow> (live_error, ack_result option \<times> live) outcome" where
  "ack_invite_response now ok r l =
     (let s = lv_store l; b = s_binding r; invite = jget (invites s) (s_invite r) in
      case jget (teams s) (b_team b) of
        None \<Rightarrow> Done (Some Missing_team, l)
      | Some team \<Rightarrow>
          if \<not> is_active_room s (b_team b) (b_room b) then Done (Some Inactive_target, l)
          else if (case invite of None \<Rightarrow> False | Some i \<Rightarrow> invite_is_expired now i) then Done (Some Ack_expired, l)
          else if \<not> invite_response_remains_authorized invite r then Done (Some Ack_revoked, l)
          else
            let previous = (case members_of s (t_id team) of None \<Rightarrow> [] | Some ms \<Rightarrow> ms) in
            (case on_store (ack_writes now team r) l of
               Throws x l1 \<Rightarrow> Throws x (None, l1)
             | Done l1 \<Rightarrow>
                 (case persist_or_rollback ok (ack_rollback r team previous invite (inviteAckReceipts s)) l1 of
                    (Persisted, l2) \<Rightarrow> Done (Some Ack_ok, l2)
                  | (Not_persisted, l2) \<Rightarrow> Done (Some Ack_not_saved, l2)
                  | (Rollback_failed, l2) \<Rightarrow> Done (None, l2))))"

definition is_exact_invite_ack_receipt :: "relay_store \<Rightarrow> int \<Rightarrow> string \<Rightarrow> string \<Rightarrow> string \<Rightarrow> string \<Rightarrow> bool" where
  "is_exact_invite_ack_receipt s now invite_id request_id u d =
     (case jget (inviteAckReceipts s) request_id of
        None \<Rightarrow> False
      | Some a \<Rightarrow> ar_invite a = invite_id \<and> ar_user a = u \<and> ar_device a = d
          \<and> (ar_status a = Denied \<or> has_team_member s (ar_team a) u) \<and> stamp_gt (ar_expires a) now)"

definition ack_reply :: "ack_result option \<Rightarrow> unit reply" where
  "ack_reply x = (case x of
     Some Ack_ok \<Rightarrow> Reply 204 ()
   | Some Ack_expired \<Rightarrow> Http_error 410 H_invite_expired
   | Some Missing_team \<Rightarrow> Http_error 404 H_invite_not_found
   | Some Ack_revoked \<Rightarrow> Http_error 409 H_conflict
   | Some Inactive_target \<Rightarrow> Http_error 409 H_conflict
   | Some Ack_not_saved \<Rightarrow> Http_error 503 H_persistence_unavailable
   | None \<Rightarrow> Http_error 500 H_internal_error)"

text \<open>\<open>POST /invites/:inviteId/response/:requestId/ack\<close>.\<close>

definition acknowledge_invite ::
  "env \<Rightarrow> int \<Rightarrow> bool \<Rightarrow> auth_session option \<Rightarrow> string option \<Rightarrow> string \<Rightarrow> string \<Rightarrow> jsv \<Rightarrow> live \<Rightarrow> unit reply \<times> live" where
  "acknowledge_invite e now ok session token invite_id request_id body l =
     (let d = string_or_empty (field_of body ''requesterDeviceId'') in
      if \<not> allowed e session then (Http_error 401 H_authentication_required, l)
      else if \<not> has_exact_keys body [''requesterDeviceId''] then (Http_error 400 H_invalid_request, l)
      else case session of
        None \<Rightarrow> (Http_error 404 H_invite_not_found, l)
      | Some a \<Rightarrow>
          (case jget (inviteResponses (lv_store l)) request_id of
             None \<Rightarrow>
               if is_exact_invite_ack_receipt (lv_store l) now invite_id request_id (session_user_of a) d
               then (case device_of now token (session_user_of a) d l of
                       (True, l1) \<Rightarrow> (Reply 204 (), l1) | (False, l1) \<Rightarrow> (Http_error 404 H_invite_not_found, l1))
               else (Http_error 404 H_invite_not_found, l)
           | Some r \<Rightarrow>
               if s_invite r \<noteq> invite_id \<or> s_user r \<noteq> session_user_of a \<or> s_device r \<noteq> d
               then (Http_error 404 H_invite_not_found, l)
               else (case device_of now token (session_user_of a) (s_device r) l of
                 (False, l1) \<Rightarrow> (Http_error 404 H_invite_not_found, l1)
               | (True, l1) \<Rightarrow>
                   (case ack_invite_response now ok r l1 of
                      Throws x (_, l2) \<Rightarrow> (thrown_reply x, l2)
                    | Done (res, l2) \<Rightarrow> (ack_reply res, l2)))))"

end
