(* ===== verification/Key_Packages.thy ===== *)
theory Key_Packages
  imports Invite_Responses
begin

text \<open>
  KeyPackages (apps/relay/src/http/key-packages.ts, key-package-upload-transaction.ts and
  key-package-consumption-transaction.ts): uploading a validated batch, and consuming one for an
  invite request. The validator is an external program: its answer is a parameter. A handler that
  awaits takes what the relay does meanwhile as an argument (\<open>meanwhile\<close>), so that its later checks
  run on a store that may have changed.
\<close>

definition max_batch :: nat where "max_batch = 20"
definition max_live_per_device :: nat where "max_live_per_device = 50"
definition max_encoded_chars :: nat where "max_encoded_chars = 32768"

section \<open>The validation budget of an account\<close>

text \<open>
  A token bucket per account. Tokens refill at \<open>capacity / windowMs\<close> per millisecond; they are
  counted in units of \<open>1 / windowMs\<close>, which makes the arithmetic exact.
\<close>

record bucket =
  bu_tokens :: int
  bu_updated :: int
  bu_seen :: int

record budget =
  bg_accounts :: "(string, bucket) jmap"
  bg_next :: int

datatype budget_answer = Budget_allowed | Retry_after int

definition prune_budget :: "int \<Rightarrow> int \<Rightarrow> budget \<Rightarrow> budget" where
  "prune_budget window now b =
     (if now < bg_next b then b
      else
        let kept = jwhere (\<lambda>_ r. \<not> bu_seen r + window * 2 \<le> now) (bg_accounts b) in
        \<lparr>bg_accounts = kept,
         bg_next = (if kept = [] then now + window * 2 else Min (set (map (\<lambda>r. bu_seen r + window * 2) (jvalues kept))))\<rparr>)"

definition refilled :: "int \<Rightarrow> int \<Rightarrow> int \<Rightarrow> bucket option \<Rightarrow> int" where
  "refilled capacity window now previous =
     (case previous of
        None \<Rightarrow> capacity * window
      | Some r \<Rightarrow> min (capacity * window) (bu_tokens r + max 0 (now - bu_updated r) * capacity))"

definition ceil_div :: "int \<Rightarrow> int \<Rightarrow> int" where
  "ceil_div a b = - ((- a) div b)"

definition consume_budget :: "int \<Rightarrow> int \<Rightarrow> int \<Rightarrow> string \<Rightarrow> int \<Rightarrow> budget \<Rightarrow> budget_answer \<times> budget" where
  "consume_budget capacity window now u cost b =
     (let b1 = prune_budget window now b;
          tokens = refilled capacity window now (jget (bg_accounts b1) u);
          ok = tokens \<ge> cost * window;
          left = (if ok then tokens - cost * window else tokens)
      in (if ok then Budget_allowed else Retry_after (ceil_div (cost * window - tokens) (capacity * 1000)),
          b1\<lparr>bg_accounts := jset u \<lparr>bu_tokens = left, bu_updated = now, bu_seen = now\<rparr> (bg_accounts b1)\<rparr>))"

section \<open>Validating an upload\<close>

text \<open>\<open>KeyPackageUpload\<close> of packages/protocol/src/relay-messages.ts.\<close>

record upload =
  up_id :: string
  up_package :: string
  up_hash :: string

record validated =
  va_identity :: string
  va_user :: string
  va_device :: string
  va_suite :: int
  va_sig_key :: string
  va_sig_fp :: string

text \<open>The answers of a validator: busy, or the credential it read from the package, if any.\<close>

datatype validator_answer = Busy | Answered "validated option"

definition pinned_ciphersuite :: int where "pinned_ciphersuite = 2"

definition parse_upload :: "jsv \<Rightarrow> upload option" where
  "parse_upload v =
     (if is_plain_record v \<and> text_between 1 max_envelope_id (field_of v ''id'')
         \<and> (case field_of v ''keyPackage'' of J_str t \<Rightarrow> t \<noteq> [] | _ \<Rightarrow> False)
         \<and> hash_field (field_of v ''keyPackageHash'') \<and> field_of v ''ciphersuite'' = J_num pinned_ciphersuite
      then Some \<lparr>up_id = str_field (field_of v ''id''), up_package = str_field (field_of v ''keyPackage''),
                 up_hash = str_field (field_of v ''keyPackageHash'')\<rparr>
      else None)"

definition hash_key_package :: "env \<Rightarrow> string \<Rightarrow> string" where
  "hash_key_package e encoded = ''sha256:'' @ en_sha256 e (b64_bytes encoded)"

definition validated_uploader_matches :: "validated option \<Rightarrow> string \<Rightarrow> string \<Rightarrow> device \<Rightarrow> bool" where
  "validated_uploader_matches v u d dev =
     (case v of
        None \<Rightarrow> False
      | Some x \<Rightarrow> va_user x = u \<and> va_device x = d \<and> va_suite x = pinned_ciphersuite
          \<and> va_sig_key x = d_sig_key dev \<and> va_sig_fp x = d_sig_fp dev)"

definition validated_record :: "upload \<Rightarrow> string \<Rightarrow> string \<Rightarrow> string \<Rightarrow> int \<Rightarrow> key_package" where
  "validated_record p u d identity now =
     \<lparr>k_id = up_id p, k_package = up_package p, k_hash = up_hash p, k_user = u, k_device = d,
      k_identity = identity, k_created = Iso now\<rparr>"

text \<open>\<open>validateUploadedKeyPackage\<close>: the reply that refuses the batch, or the record.\<close>

definition validate_uploaded_key_package ::
  "env \<Rightarrow> (upload \<Rightarrow> device \<Rightarrow> validator_answer) \<Rightarrow> int \<Rightarrow> string \<Rightarrow> string \<Rightarrow> relay_store \<Rightarrow> upload list \<Rightarrow> jsv
     \<Rightarrow> (nat \<times> http_code, upload \<times> key_package) sum" where
  "validate_uploaded_key_package e validator now u d s seen candidate =
     (case parse_upload candidate of
        None \<Rightarrow> Inl (400, H_key_package_invalid)
      | Some p \<Rightarrow>
          if length (up_package p) > max_encoded_chars \<or> List.member (map up_id seen) (up_id p)
             \<or> List.member (map up_hash seen) (up_hash p)
          then Inl (400, H_key_package_invalid)
          else if \<not> is_canonical_base64 (up_package p) max_encoded_chars then Inl (400, H_key_package_invalid)
          else if up_hash p \<noteq> hash_key_package e (up_package p) then Inl (400, H_key_package_invalid)
          else if jhas (keyPackages s) (up_id p) then Inl (409, H_conflict)
          else if list_ex (\<lambda>k. k_hash k = up_hash p) (jvalues (keyPackages s)) then Inl (409, H_conflict)
          else if jhas (consumedKeyPackages s) (up_hash p) then Inl (409, H_conflict)
          else (case get_device s u d of
            None \<Rightarrow> Inl (400, H_key_package_invalid)
          | Some dev \<Rightarrow>
              (case validator p dev of
                 Busy \<Rightarrow> Inl (503, H_upstream_unavailable)
               | Answered v \<Rightarrow>
                   if \<not> validated_uploader_matches v u d dev then Inl (400, H_key_package_invalid)
                   else Inr (p, validated_record p u d (va_identity (the v)) now))))"

text \<open>\<open>validateKeyPackageBatch\<close>; \<open>meanwhile\<close> is what happens while the validator runs.\<close>

fun validate_key_package_batch ::
  "env \<Rightarrow> (upload \<Rightarrow> device \<Rightarrow> validator_answer) \<Rightarrow> int \<Rightarrow> string \<Rightarrow> string \<Rightarrow> (live \<Rightarrow> live) \<Rightarrow> upload list \<Rightarrow> jsv list \<Rightarrow> live
     \<Rightarrow> (nat \<times> http_code, key_package list) sum \<times> live" where
  "validate_key_package_batch e validator now u d meanwhile seen [] l = (Inr [], l)"
| "validate_key_package_batch e validator now u d meanwhile seen (c # cs) l =
     (case validate_uploaded_key_package e validator now u d (lv_store l) seen c of
        Inl x \<Rightarrow> (Inl x, l)
      | Inr (p, k) \<Rightarrow>
          (case validate_key_package_batch e validator now u d meanwhile (p # seen) cs (meanwhile l) of
             (Inl x, l1) \<Rightarrow> (Inl x, l1)
           | (Inr ks, l1) \<Rightarrow> (Inr (k # ks), l1)))"

section \<open>Committing an upload\<close>

definition account_package_count :: "relay_store \<Rightarrow> string \<Rightarrow> nat" where
  "account_package_count s u = length (filter (\<lambda>k. k_user k = u) (jvalues (keyPackages s)))"

datatype upload_result = Upload_accepted nat | Account_quota nat | Device_quota | Upload_conflict
  | Upload_already_consumed | Upload_authorization_changed | Upload_not_saved

definition set_key_package :: "key_package \<Rightarrow> relay_store \<Rightarrow> (store_error, relay_store) outcome" where
  "set_key_package k s = dm_set key_package_map (k_id k) k s"

definition rollback_contribution :: "key_package list \<Rightarrow> relay_store \<Rightarrow> relay_store" where
  "rollback_contribution ks s =
     fold (\<lambda>k s. if jget (keyPackages s) (k_id k) = Some k then dm_delete key_package_map (k_id k) s else s) ks s"

text \<open>
  \<open>commitValidatedKeyPackages\<close> in the account's turn. \<open>authorized\<close> is the answer of
  \<open>authorizationRemainsValid\<close> with the state it leaves.
\<close>

definition commit_validated_key_packages ::
  "bool \<Rightarrow> string \<Rightarrow> string \<Rightarrow> key_package list \<Rightarrow> nat \<Rightarrow> (live \<Rightarrow> bool \<times> live) \<Rightarrow> live
     \<Rightarrow> (live_error, upload_result \<times> live) outcome" where
  "commit_validated_key_packages ok u d accepted account_limit authorized l0 =
     (case authorized l0 of
        (False, l) \<Rightarrow> Done (Upload_authorization_changed, l)
      | (True, l) \<Rightarrow>
          let s = lv_store l in
          if length (key_packages_for_device s u d) + length accepted > max_live_per_device then Done (Device_quota, l)
          else if account_package_count s u + length accepted > account_limit
          then Done (Account_quota (account_package_count s u), l)
          else if list_ex (\<lambda>k. jhas (consumedKeyPackages s) (k_hash k)) accepted then Done (Upload_already_consumed, l)
          else if list_ex (\<lambda>k. jhas (keyPackages s) (k_id k) \<or> List.member (map k_hash (jvalues (keyPackages s))) (k_hash k)) accepted
          then Done (Upload_conflict, l)
          else if get_device s u d = None then Done (Upload_authorization_changed, l)
          else (case on_store (for_each set_key_package accepted) l of
            Throws x l1 \<Rightarrow> Throws x (Upload_not_saved, put_store (rollback_contribution accepted) l1)
          | Done l1 \<Rightarrow>
              (case save_now ok l1 of
                 Throws _ l2 \<Rightarrow> Done (Upload_not_saved, put_store (rollback_contribution accepted) l2)
               | Done l2 \<Rightarrow> Done (Upload_accepted (length (key_packages_for_device (lv_store l2) u d)), l2))))"

definition upload_reply :: "upload_result \<Rightarrow> nat reply" where
  "upload_reply r = (case r of
     Upload_accepted n \<Rightarrow> Reply 201 n
   | Device_quota \<Rightarrow> Http_error 409 H_conflict
   | Upload_conflict \<Rightarrow> Http_error 409 H_conflict
   | Upload_already_consumed \<Rightarrow> Http_error 409 H_conflict
   | Upload_authorization_changed \<Rightarrow> Http_error 403 H_device_auth_required
   | Upload_not_saved \<Rightarrow> Http_error 503 H_persistence_unavailable
   | Account_quota _ \<Rightarrow> Http_error 429 H_quota_exceeded)"

text \<open>\<open>isLiveAccountSession(...) && hasDeviceSession(...)\<close>.\<close>

definition live_device_authority :: "int \<Rightarrow> auth_session \<Rightarrow> string option \<Rightarrow> string \<Rightarrow> live \<Rightarrow> bool \<times> live" where
  "live_device_authority now a token d l =
     (if \<not> is_live_account_session (lv_store l) a now then (False, l)
      else device_of now token (session_user_of a) d l)"

text \<open>
  \<open>POST /devices/:deviceId/key-packages\<close>. \<open>batch\<close> is \<open>req.body?.keyPackages\<close> when it is an array.
  The quota of the account and the budget are checked before the batch is validated, and the
  quotas again in the account's turn.
\<close>

record key_package_config =
  kc_env :: env
  kc_account_cap :: nat
  kc_validation_cap :: int
  kc_validation_window :: int

definition upload_key_packages ::
  "key_package_config \<Rightarrow> (upload \<Rightarrow> device \<Rightarrow> validator_answer) \<Rightarrow> int \<Rightarrow> bool \<Rightarrow> (live \<Rightarrow> live) \<Rightarrow> auth_session option
     \<Rightarrow> string option \<Rightarrow> string \<Rightarrow> jsv list option \<Rightarrow> budget \<Rightarrow> live \<Rightarrow> nat reply \<times> budget \<times> live" where
  "upload_key_packages kc validator now ok meanwhile session token d batch b l =
     (if \<not> allowed (kc_env kc) session then (Http_error 401 H_authentication_required, b, l)
      else case session of
        None \<Rightarrow> (Http_error 401 H_authentication_required, b, l)
      | Some a \<Rightarrow>
          let u = session_user_of a in
          (case device_of now token u d l of
             (False, l1) \<Rightarrow> (Http_error 403 H_device_auth_required, b, l1)
           | (True, l1) \<Rightarrow>
               if get_device (lv_store l1) u d = None then (Http_error 403 H_device_auth_required, b, l1)
               else (case batch of
                 None \<Rightarrow> (Http_error 400 H_invalid_request, b, l1)
               | Some cs \<Rightarrow>
                   if length cs < 1 \<or> length cs > max_batch then (Http_error 400 H_invalid_request, b, l1)
                   else if length (key_packages_for_device (lv_store l1) u d) + length cs > max_live_per_device
                   then (Http_error 409 H_conflict, b, l1)
                   else if account_package_count (lv_store l1) u + length cs > kc_account_cap kc
                   then (Http_error 429 H_quota_exceeded, b, l1)
                   else (case consume_budget (kc_validation_cap kc) (kc_validation_window kc) now u (int (length cs)) b of
                     (Retry_after _, b1) \<Rightarrow> (Http_error 429 H_rate_limited, b1, l1)
                   | (Budget_allowed, b1) \<Rightarrow>
                       (case validate_key_package_batch (kc_env kc) validator now u d meanwhile [] cs l1 of
                          (Inl (st, code), l2) \<Rightarrow> (Http_error st code, b1, l2)
                        | (Inr ks, l2) \<Rightarrow>
                            (case commit_validated_key_packages ok u d ks (kc_account_cap kc)
                                    (live_device_authority now a token d) (meanwhile l2) of
                               Throws x (_, l3) \<Rightarrow> (thrown_reply x, b1, l3)
                             | Done (r, l3) \<Rightarrow> (upload_reply r, b1, l3)))))))"

definition count_key_packages :: "env \<Rightarrow> auth_session option \<Rightarrow> string \<Rightarrow> relay_store \<Rightarrow> nat reply" where
  "count_key_packages e session d s =
     (case session of
        None \<Rightarrow> Http_error 401 H_authentication_required
      | Some a \<Rightarrow>
          if get_device s (session_user_of a) d = None then Http_error 404 H_not_found
          else Reply 200 (length (key_packages_for_device s (session_user_of a) d)))"

section \<open>Consuming a KeyPackage for an invite\<close>

record consumption =
  co_team :: string
  co_room :: string
  co_host_user :: string
  co_host_device :: string
  co_invite :: string
  co_user :: string
  co_device :: string
  co_kp_id :: string
  co_kp_hash :: string

datatype consumption_result = Consumed key_package | Already_consumed | Authorization_changed
  | Requester_authorization_changed | Invite_mismatch | Consumption_invite_expired | Request_mismatch
  | Key_package_gone | Key_package_mismatch | Consumption_not_saved

definition is_active_room_host :: "room \<Rightarrow> string \<Rightarrow> string \<Rightarrow> bool" where
  "is_active_room_host r u d \<longleftrightarrow> r_status r = Host_active \<and> r_host_user r = Some u \<and> r_host_device r = Some d"

definition host_authorization_failure :: "consumption \<Rightarrow> relay_store \<Rightarrow> consumption_result option" where
  "host_authorization_failure req s =
     (case jget (rooms s) (co_room req) of
        None \<Rightarrow> Some Authorization_changed
      | Some r \<Rightarrow>
          if r_team r = co_team req \<and> is_active_room s (co_team req) (co_room req)
             \<and> is_active_room_host r (co_host_user req) (co_host_device req)
          then None else Some Authorization_changed)"

definition find_matching_invite_request :: "relay_store \<Rightarrow> string \<Rightarrow> consumption \<Rightarrow> invite_request option" where
  "find_matching_invite_request s i req =
     find (\<lambda>q. q_invite q = i \<and> q_user q = co_user req \<and> q_device q = co_device req
             \<and> q_kp_id q = co_kp_id req \<and> q_kp_hash q = co_kp_hash req) (jvalues (inviteRequests s))"

definition validate_consumption_invite :: "int \<Rightarrow> consumption \<Rightarrow> relay_store \<Rightarrow> (consumption_result, invite) sum" where
  "validate_consumption_invite now req s =
     (case jget (invites s) (co_invite req) of
        None \<Rightarrow> Inl Invite_mismatch
      | Some i \<Rightarrow>
          if i_room i \<noteq> co_room req \<or> i_team i \<noteq> co_team req then Inl Invite_mismatch
          else if invite_is_expired now i then Inl Consumption_invite_expired
          else if find_matching_invite_request s (i_id i) req = None then Inl Request_mismatch
          else Inr i)"

definition validate_available_key_package :: "consumption \<Rightarrow> invite \<Rightarrow> relay_store \<Rightarrow> (consumption_result, key_package) sum" where
  "validate_available_key_package req i s =
     (case jget (keyPackages s) (co_kp_id req) of
        None \<Rightarrow>
          if i_user i = Some (co_user req) \<and> i_device i = Some (co_device req) \<and> i_kp_hash i = Some (co_kp_hash req)
          then Inl Already_consumed else Inl Key_package_gone
      | Some k \<Rightarrow>
          if k_user k \<noteq> co_user req \<or> k_device k \<noteq> co_device req \<or> k_hash k \<noteq> co_kp_hash req then Inl Key_package_mismatch
          else if jhas (consumedKeyPackages s) (k_hash k) then Inl Key_package_gone
          else Inr k)"

definition consumed_record :: "int \<Rightarrow> consumption \<Rightarrow> key_package \<Rightarrow> consumed_key_package" where
  "consumed_record now req k = \<lparr>ck_hash = k_hash k, ck_team = Some (co_team req), ck_user = Some (k_user k),
     ck_device = Some (k_device k), ck_at = Iso now\<rparr>"

definition approved_invite :: "invite \<Rightarrow> key_package \<Rightarrow> invite" where
  "approved_invite i k = i\<lparr>i_user := Some (k_user k), i_device := Some (k_device k), i_kp_hash := Some (k_hash k)\<rparr>"

definition set_invite :: "invite \<Rightarrow> relay_store \<Rightarrow> (store_error, relay_store) outcome" where
  "set_invite i s = dm_set invite_map (i_id i) i s"

text \<open>\<open>rollbackKeyPackageConsumption\<close>: the consumed marker, the package, the invite.\<close>

definition rollback_key_package_consumption ::
  "invite \<Rightarrow> key_package \<Rightarrow> consumed_key_package \<Rightarrow> relay_store \<Rightarrow> (store_error, relay_store) outcome" where
  "rollback_key_package_consumption i k c s =
     (let s1 = (if jget (consumedKeyPackages s) (ck_hash c) = Some c then dm_delete consumed_map (ck_hash c) s else s) in
      seq (if jhas (keyPackages s1) (k_id k) then Done s1 else set_key_package k s1) (\<lambda>s2.
      case jget (invites s2) (i_id i) of
        None \<Rightarrow> Done s2
      | Some j \<Rightarrow> if i_kp_hash j = Some (k_hash k) then set_invite i s2 else Done s2))"

definition stage_key_package_consumption ::
  "invite \<Rightarrow> key_package \<Rightarrow> consumed_key_package \<Rightarrow> relay_store \<Rightarrow> (store_error, relay_store) outcome" where
  "stage_key_package_consumption i k c s =
     (case seq (dm_set consumed_map (ck_hash c) c (dm_delete key_package_map (k_id k) s)) (set_invite (approved_invite i k)) of
        Done s1 \<Rightarrow> Done s1
      | Throws x s1 \<Rightarrow>
          (case rollback_key_package_consumption i k c s1 of
             Done s2 \<Rightarrow> Throws x s2 | Throws y s2 \<Rightarrow> Throws y s2))"

text \<open>\<open>consumeKeyPackageForInvite\<close>, in the turns of the host and of the requester.\<close>

definition consume_key_package_for_invite ::
  "int \<Rightarrow> bool \<Rightarrow> consumption \<Rightarrow> (live \<Rightarrow> bool \<times> live) \<Rightarrow> live \<Rightarrow> (live_error, consumption_result option \<times> live) outcome" where
  "consume_key_package_for_invite now ok req authorized l0 =
     (case authorized l0 of
        (False, l) \<Rightarrow> Done (Some Authorization_changed, l)
      | (True, l) \<Rightarrow>
          if get_device (lv_store l) (co_user req) (co_device req) = None then Done (Some Requester_authorization_changed, l)
          else (case host_authorization_failure req (lv_store l) of
            Some f \<Rightarrow> Done (Some f, l)
          | None \<Rightarrow>
              (case validate_consumption_invite now req (lv_store l) of
                 Inl f \<Rightarrow> Done (Some f, l)
               | Inr i \<Rightarrow>
                   (case validate_available_key_package req i (lv_store l) of
                      Inl f \<Rightarrow> Done (Some f, l)
                    | Inr k \<Rightarrow>
                        let c = consumed_record now req k in
                        (case on_store (stage_key_package_consumption i k c) l of
                           Throws x l1 \<Rightarrow> Throws x (None, l1)
                         | Done l1 \<Rightarrow>
                             (case persist_or_rollback ok (rollback_key_package_consumption i k c) l1 of
                                (Persisted, l2) \<Rightarrow> Done (Some (Consumed k), l2)
                              | (Not_persisted, l2) \<Rightarrow> Done (Some Consumption_not_saved, l2)
                              | (Rollback_failed, l2) \<Rightarrow> Done (None, l2)))))))"

text \<open>The reply carries the package, or nothing when it had been consumed for the same request.\<close>

definition consumption_reply :: "consumption_result option \<Rightarrow> key_package option reply" where
  "consumption_reply r = (case r of
     None \<Rightarrow> Http_error 500 H_internal_error
   | Some x \<Rightarrow> (case x of
       Consumed k \<Rightarrow> Reply 200 (Some k)
     | Already_consumed \<Rightarrow> Reply 200 None
     | Authorization_changed \<Rightarrow> Http_error 403 H_forbidden
     | Requester_authorization_changed \<Rightarrow> Http_error 409 H_conflict
     | Invite_mismatch \<Rightarrow> Http_error 403 H_forbidden
     | Consumption_invite_expired \<Rightarrow> Http_error 410 H_invite_expired
     | Key_package_gone \<Rightarrow> Http_error 404 H_key_package_unavailable
     | Consumption_not_saved \<Rightarrow> Http_error 503 H_persistence_unavailable
     | Request_mismatch \<Rightarrow> Http_error 409 H_conflict
     | Key_package_mismatch \<Rightarrow> Http_error 409 H_conflict))"

text \<open>\<open>POST /rooms/:roomId/key-packages/:userId/:deviceId/consume\<close>.\<close>

definition consume_key_package ::
  "env \<Rightarrow> int \<Rightarrow> bool \<Rightarrow> (live \<Rightarrow> live) \<Rightarrow> auth_session option \<Rightarrow> string option \<Rightarrow> string \<Rightarrow> string \<Rightarrow> string \<Rightarrow> jsv \<Rightarrow> live
     \<Rightarrow> key_package option reply \<times> live" where
  "consume_key_package e now ok meanwhile session token room_id user_id device_id body l =
     (if \<not> allowed e session then (Http_error 401 H_authentication_required, l)
      else case session of
        None \<Rightarrow> (Http_error 401 H_authentication_required, l)
      | Some a \<Rightarrow>
          let d = string_or_empty (field_of body ''hostDeviceId'') in
          (case device_of now token (session_user_of a) d l of
             (False, l1) \<Rightarrow> (Http_error 403 H_device_auth_required, l1)
           | (True, l1) \<Rightarrow>
               (case jget (rooms (lv_store l)) room_id of
                  None \<Rightarrow> (Http_error 404 H_room_not_found, l1)
                | Some r \<Rightarrow>
                    if \<not> is_active_room_host r (session_user_of a) d then (Http_error 403 H_forbidden, l1)
                    else
                      let req = \<lparr>co_team = r_team r, co_room = r_id r, co_host_user = session_user_of a, co_host_device = d,
                               co_invite = string_or_empty (field_of body ''inviteId''), co_user = user_id, co_device = device_id,
                               co_kp_id = string_or_empty (field_of body ''keyPackageId''),
                               co_kp_hash = string_or_empty (field_of body ''keyPackageHash'')\<rparr> in
                      (case consume_key_package_for_invite now ok req (live_device_authority now a token d) (meanwhile l1) of
                         Throws x (_, l2) \<Rightarrow> (thrown_reply x, l2)
                       | Done (res, l2) \<Rightarrow> (consumption_reply res, l2)))))"

end
