(* ===== verification/Store_Effects.thy ===== *)
theory Store_Effects
  imports Store_Rollback
begin

text \<open>
  What every operation of the store does to its data: one equation per operation, between
  \<open>store_data\<close> before and after, stated once for a tracked map and spelled out for the maps of
  the store. The component proofs use them as rewrite rules (\<open>effects\<close>) and never look at the
  counters.
\<close>

named_theorems effects \<open>the data of the store after an operation\<close>

context tracked_map begin

lemma dm_delete_where_data:
  "store_ok s \<Longrightarrow> store_data (dm_delete_where T P s) = tr_put T (jwhere (\<lambda>k u. \<not> P k u) (tr_get T s)) (store_data s)"
  using data_by_erase [of "dm_delete_where T P s" "tr_put T (jwhere (\<lambda>k u. \<not> P k u) (tr_get T s)) s"]
  by (simp add: dm_delete_where_erase dm_delete_where_get put_data)

lemma delete_keys_data:
  "store_ok s \<Longrightarrow> store_data (delete_keys T ks s) = tr_put T (filter (\<lambda>(k, _). k \<notin> set ks) (tr_get T s)) (store_data s)"
  using data_by_erase [of "delete_keys T ks s" "tr_put T (filter (\<lambda>(k, _). k \<notin> set ks) (tr_get T s)) s"]
  by (simp add: delete_keys_erase delete_keys_ok put_data)

lemma dm_clear_data: "store_ok s \<Longrightarrow> store_data (dm_clear T s) = tr_put T [] (store_data s)"
  by (rule dm_clear_ok [of s]) (auto simp: put_data)

end

lemmas map_data [effects] =
  auth_tm.dm_set_data auth_tm.dm_delete_data auth_tm.dm_delete_where_data auth_tm.dm_set_throws_data
  restriction_tm.dm_set_data restriction_tm.dm_delete_data restriction_tm.dm_set_throws_data
  quota_tm.dm_set_data quota_tm.dm_delete_data quota_tm.dm_delete_where_data quota_tm.dm_set_throws_data
  team_tm.dm_set_data team_tm.dm_delete_data team_tm.dm_set_throws_data
  room_tm.dm_set_data room_tm.dm_delete_data room_tm.dm_delete_where_data room_tm.dm_set_throws_data
  invite_tm.dm_set_data invite_tm.dm_delete_data invite_tm.dm_delete_where_data invite_tm.dm_set_throws_data
  request_tm.dm_set_data request_tm.dm_delete_data request_tm.dm_delete_where_data request_tm.dm_set_throws_data
  response_tm.dm_set_data response_tm.dm_delete_data response_tm.dm_delete_where_data response_tm.dm_set_throws_data
  ack_tm.dm_set_data ack_tm.dm_delete_data ack_tm.dm_delete_where_data ack_tm.delete_keys_data ack_tm.dm_clear_data
  ack_tm.dm_set_throws_data
  receipt_tm.dm_set_data receipt_tm.dm_delete_data receipt_tm.dm_delete_where_data receipt_tm.delete_keys_data
  device_tm.dm_set_data device_tm.dm_delete_data device_tm.dm_delete_where_data device_tm.dm_set_throws_data
  key_package_tm.dm_set_data key_package_tm.dm_delete_data key_package_tm.dm_delete_where_data key_package_tm.dm_set_throws_data
  consumed_tm.dm_set_data consumed_tm.dm_delete_data consumed_tm.dm_delete_where_data consumed_tm.dm_set_throws_data
  attachment_tm.dm_set_data attachment_tm.dm_delete_data attachment_tm.dm_delete_where_data attachment_tm.dm_set_throws_data
  backlog_tm.dm_set_data backlog_tm.dm_delete_data backlog_tm.dm_delete_where_data backlog_tm.dm_set_throws_data

lemma map_fields [simp]:
  "tr_get auth_map s = authSessions s" "tr_put auth_map x1 s = s\<lparr>authSessions := x1\<rparr>"
  "tr_get restriction_map s = accountRestrictions s" "tr_put restriction_map x2 s = s\<lparr>accountRestrictions := x2\<rparr>"
  "tr_get quota_map s = accountQuotaRecords s" "tr_put quota_map x3 s = s\<lparr>accountQuotaRecords := x3\<rparr>"
  "tr_get team_map s = teams s" "tr_put team_map x4 s = s\<lparr>teams := x4\<rparr>"
  "tr_get room_map s = rooms s" "tr_put room_map x5 s = s\<lparr>rooms := x5\<rparr>"
  "tr_get invite_map s = invites s" "tr_put invite_map x6 s = s\<lparr>invites := x6\<rparr>"
  "tr_get request_map s = inviteRequests s" "tr_put request_map x7 s = s\<lparr>inviteRequests := x7\<rparr>"
  "tr_get response_map s = inviteResponses s" "tr_put response_map x8 s = s\<lparr>inviteResponses := x8\<rparr>"
  "tr_get ack_map s = inviteAckReceipts s" "tr_put ack_map x9 s = s\<lparr>inviteAckReceipts := x9\<rparr>"
  "tr_get receipt_map s = acceptedMessageReceipts s" "tr_put receipt_map x10 s = s\<lparr>acceptedMessageReceipts := x10\<rparr>"
  "tr_get device_map s = devices s" "tr_put device_map x11 s = s\<lparr>devices := x11\<rparr>"
  "tr_get key_package_map s = keyPackages s" "tr_put key_package_map x12 s = s\<lparr>keyPackages := x12\<rparr>"
  "tr_get consumed_map s = consumedKeyPackages s" "tr_put consumed_map x13 s = s\<lparr>consumedKeyPackages := x13\<rparr>"
  "tr_get attachment_map s = attachmentBlobs s" "tr_put attachment_map x14 s = s\<lparr>attachmentBlobs := x14\<rparr>"
  "tr_get backlog_map s = mlsBacklog s" "tr_put backlog_map x15 s = s\<lparr>mlsBacklog := x15\<rparr>"
  by (simp_all add: map_defs)

lemma data_fields [simp]:
  "authSessions (store_data s) = authSessions s" "accountRestrictions (store_data s) = accountRestrictions s"
  "accountQuotaRecords (store_data s) = accountQuotaRecords s" "teams (store_data s) = teams s"
  "rooms (store_data s) = rooms s" "invites (store_data s) = invites s"
  "inviteRequests (store_data s) = inviteRequests s" "inviteResponses (store_data s) = inviteResponses s"
  "inviteAckReceipts (store_data s) = inviteAckReceipts s"
  "acceptedMessageReceipts (store_data s) = acceptedMessageReceipts s" "devices (store_data s) = devices s"
  "keyPackages (store_data s) = keyPackages s" "consumedKeyPackages (store_data s) = consumedKeyPackages s"
  "attachmentBlobs (store_data s) = attachmentBlobs s" "mlsBacklog (store_data s) = mlsBacklog s"
  "teamMembers (store_data s) = teamMembers s" "deviceChallenges (store_data s) = deviceChallenges s"
  "deviceSessions (store_data s) = deviceSessions s"
  by (simp_all add: store_data_def)

text \<open>The fields of two stores with related data.\<close>

lemma fields_by_data:
  assumes "store_data s = d"
  shows "authSessions s = authSessions d" "accountRestrictions s = accountRestrictions d"
    "accountQuotaRecords s = accountQuotaRecords d" "teams s = teams d" "rooms s = rooms d" "invites s = invites d"
    "inviteRequests s = inviteRequests d" "inviteResponses s = inviteResponses d"
    "inviteAckReceipts s = inviteAckReceipts d" "acceptedMessageReceipts s = acceptedMessageReceipts d"
    "devices s = devices d" "keyPackages s = keyPackages d" "consumedKeyPackages s = consumedKeyPackages d"
    "attachmentBlobs s = attachmentBlobs d" "mlsBacklog s = mlsBacklog d" "teamMembers s = teamMembers d"
    "deviceChallenges s = deviceChallenges d" "deviceSessions s = deviceSessions d"
  by (simp_all flip: assms)

section \<open>Membership\<close>

lemma set_team_members_data [effects]:
  "set_team_members t ms s = Done s' \<Longrightarrow> store_data s' = (store_data s)\<lparr>teamMembers := jset t ms (teamMembers s)\<rparr>"
  by (auto simp: set_team_members_def Let_def store_data_def log_mutation_def split: outcome.splits)

lemma set_team_members_throws_data:
  "set_team_members t ms s = Throws x s' \<Longrightarrow> store_data s' = store_data s"
  by (auto simp: set_team_members_def Let_def split: outcome.splits)

lemma member_set_data [effects]:
  "member_set t u m s = Done s' \<Longrightarrow> members_of s t = Some ms \<Longrightarrow>
     store_data s' = (store_data s)\<lparr>teamMembers := jset t (jset u m ms) (teamMembers s)\<rparr>"
  by (auto simp: member_set_def Let_def store_data_def log_mutation_def split: outcome.splits)

lemma delete_team_members_data [effects]:
  "store_data (delete_team_members t s) = (store_data s)\<lparr>teamMembers := jdel t (teamMembers s)\<rparr>"
  by (auto simp: delete_team_members_def members_of_def store_data_def log_mutation_def jdel_absent split: option.splits)

text \<open>Adding a member writes the member and the count of the team's record, and nothing else.\<close>

definition with_member :: "relay_store \<Rightarrow> string \<Rightarrow> string \<Rightarrow> team_member \<Rightarrow> (string, team_member) jmap" where
  "with_member s t u m = jset u m (case members_of s t of None \<Rightarrow> [] | Some ms \<Rightarrow> ms)"

lemma jset_twice [simp]: "jset k v (jset k u m) = jset k v m"
  unfolding jset_def by (induction m) auto

lemma add_team_member_data:
  assumes "add_team_member now t u role s = Done s'" and "u \<noteq> []" and "jget (teams s) t = Some team"
    and "\<not> has_team_member s t u"
  shows "store_data s' = (store_data s)\<lparr>
       teamMembers := jset t (with_member s t u \<lparr>m_team = t, m_user = u, m_role = role, m_joined = Iso now\<rparr>) (teamMembers s),
       teams := jset (t_id team) (team\<lparr>t_members := length (with_member s t u \<lparr>m_team = t, m_user = u, m_role = role, m_joined = Iso now\<rparr>)\<rparr>) (teams s)\<rparr>"
proof -
  let ?m = "\<lparr>m_team = t, m_user = u, m_role = role, m_joined = Iso now\<rparr>"
  from assms obtain s1 where 1: "member_set t u ?m s = Done s1"
    and 2: "seq (set_team_members t (case members_of s1 t of None \<Rightarrow> [(u, ?m)] | Some live \<Rightarrow> live) s1)
        (set_team (team\<lparr>t_members := length (case members_of s1 t of None \<Rightarrow> [(u, ?m)] | Some live \<Rightarrow> live)\<rparr>)) = Done s'"
    by (auto simp: add_team_member_def Let_def elim: seq_DoneE)
  from 2 obtain s2 where 3: "set_team_members t (case members_of s1 t of None \<Rightarrow> [(u, ?m)] | Some live \<Rightarrow> live) s1 = Done s2"
    and 4: "set_team (team\<lparr>t_members := length (case members_of s1 t of None \<Rightarrow> [(u, ?m)] | Some live \<Rightarrow> live)\<rparr>) s2 = Done s'"
    by (rule seq_DoneE)
  show ?thesis
  proof (cases "members_of s t")
    case None
    then have s1: "s1 = s" using 1 by (simp add: member_set_def)
    from set_team_members_data [OF 3] None s1
    have d2: "store_data s2 = (store_data s)\<lparr>teamMembers := jset t [(u, ?m)] (teamMembers s)\<rparr>" by simp
    from team_tm.dm_set_data [OF 4 [unfolded set_team_def]] d2 fields_by_data(4) [OF d2] None s1
    show ?thesis by (simp add: with_member_def jset_def)
  next
    case (Some ms)
    from member_set_data [OF 1 Some] have d1: "store_data s1 = (store_data s)\<lparr>teamMembers := jset t (jset u ?m ms) (teamMembers s)\<rparr>" .
    then have m1: "members_of s1 t = Some (jset u ?m ms)" by (simp add: members_of_def fields_by_data(16) [OF d1])
    from set_team_members_data [OF 3] m1 d1 fields_by_data(16) [OF d1]
    have d2: "store_data s2 = store_data s1" by simp
    from team_tm.dm_set_data [OF 4 [unfolded set_team_def]] d2 d1 fields_by_data(4) [OF d2] fields_by_data(4) [OF d1] m1 Some
    show ?thesis by (simp add: with_member_def)
  qed
qed


section \<open>Frames on every outcome\<close>

text \<open>A field that the map does not overlap is untouched, whether the operation throws or not.\<close>

context tracked_map begin

lemma field_frame:
  assumes "\<And>s. f (store_data s) = f s" and "\<And>m s. f (tr_put T m s) = f s"
  shows "f (state_of (dm_set T k v s)) = f s" and "f (dm_delete T k s) = f s"
    and "f (delete_keys T ks s) = f s" and "f (dm_delete_where T P s) = f s" and "f (dm_clear T s) = f s"
proof -
  have er: "f (erase T s) = f s" for s by (simp add: erase_def assms)
  show "f (state_of (dm_set T k v s)) = f s" using dm_set_erase [of k v s] er by metis
  show "f (dm_delete T k s) = f s" using dm_delete_erase [of k s] er by metis
  show "f (delete_keys T ks s) = f s" using delete_keys_erase [of ks s] er by metis
  show "f (dm_delete_where T P s) = f s" using dm_delete_where_erase [of P s] er by metis
  show "f (dm_clear T s) = f s" using dm_clear_erase [of s] er by metis
qed

end

lemmas members_frame [simp] =
  team_tm.field_frame [of teamMembers, simplified] room_tm.field_frame [of teamMembers, simplified]
  invite_tm.field_frame [of teamMembers, simplified] request_tm.field_frame [of teamMembers, simplified]
  response_tm.field_frame [of teamMembers, simplified] ack_tm.field_frame [of teamMembers, simplified]
  key_package_tm.field_frame [of teamMembers, simplified] consumed_tm.field_frame [of teamMembers, simplified]

lemma members_set_team_members:
  "teamMembers (state_of (set_team_members t ms s)) = teamMembers s
     \<or> teamMembers (state_of (set_team_members t ms s)) = jset t ms (teamMembers s)"
  by (auto simp: set_team_members_def Let_def log_mutation_def split: outcome.splits)

end
