(* ===== verification/Invite_Proofs.thy ===== *)
theory Invite_Proofs
  imports Invite_Responses Store_Effects Fanout_Proofs
begin

text \<open>
  What the invite protocol guarantees: only the requester a host approved becomes a member, on
  its own device and against a live invite; an acknowledged invite is consumed and the
  acknowledgement can be repeated; a response is bound to the request it answers; a user's live
  invites stay within the quota; revoking leaves nothing behind.
\<close>

section \<open>Frames\<close>

lemma device_of_frame:
  "device_of now token u d l = (b, l') \<Longrightarrow> \<exists>ds. l' = l\<lparr>lv_store := (lv_store l)\<lparr>deviceSessions := ds\<rparr>\<rparr>
     \<and> b = fst (has_device_session now token u d (lv_store l))"
proof -
  assume a: "device_of now token u d l = (b, l')"
  obtain c s where h: "has_device_session now token u d (lv_store l) = (c, s)" by fastforce
  then have "\<exists>ds. s = (lv_store l)\<lparr>deviceSessions := ds\<rparr>"
    by (auto simp: has_device_session_def Let_def split: option.splits if_splits) (metis relay_store.surjective relay_store.update_convs(21))+
  with a h show ?thesis by (auto simp: device_of_def)
qed

lemma store_ok_sessions [simp]: "store_ok (s\<lparr>deviceSessions := d\<rparr>) = store_ok s"
  by (simp add: store_ok_def entry_teams_def entry_weights_def store_wf_def team_mset_def map_defs)

lemma has_team_member_cong: "teamMembers s = teamMembers s' \<Longrightarrow> has_team_member s t u = has_team_member s' t u"
  by (simp add: has_team_member_def members_of_def)

section \<open>Who is admitted by an acknowledgement\<close>

text \<open>The members of a store are among those of another, up to one admitted user.\<close>

definition admits_at_most :: "relay_store \<Rightarrow> string \<Rightarrow> string option \<Rightarrow> relay_store \<Rightarrow> bool" where
  "admits_at_most s0 t u s \<longleftrightarrow>
     (\<forall>t' u'. has_team_member s t' u' \<longrightarrow> has_team_member s0 t' u' \<or> t' = t \<and> Some u' = u)"

lemma admits_cong: "teamMembers s = teamMembers s' \<Longrightarrow> admits_at_most s0 t u s = admits_at_most s0 t u s'"
  by (simp add: admits_at_most_def has_team_member_cong [of s s'])

lemma admits_frame [simp]:
  "admits_at_most s0 t u (state_of (dm_set response_map k v1 s)) = admits_at_most s0 t u s"
  "admits_at_most s0 t u (state_of (dm_set invite_map k v2 s)) = admits_at_most s0 t u s"
  "admits_at_most s0 t u (state_of (dm_set ack_map k v3 s)) = admits_at_most s0 t u s"
  "admits_at_most s0 t u (state_of (set_team team s)) = admits_at_most s0 t u s"
  "admits_at_most s0 t u (dm_delete response_map k s) = admits_at_most s0 t u s"
  "admits_at_most s0 t u (dm_delete invite_map k s) = admits_at_most s0 t u s"
  "admits_at_most s0 t u (delete_keys ack_map ks s) = admits_at_most s0 t u s"
  "admits_at_most s0 t u (discard_durable_mutations s) = admits_at_most s0 t u s"
  by (rule admits_cong; simp add: set_team_def discard_durable_mutations_def)+

lemma admits_set_members:
  assumes "admits_at_most s0 t u s" and "\<And>u'. jhas ms u' \<Longrightarrow> has_team_member s0 t u' \<or> Some u' = u"
  shows "admits_at_most s0 t u (state_of (set_team_members t ms s))"
proof -
  have "has_team_member x t' u' \<Longrightarrow> has_team_member s t' u' \<or> t' = t \<and> jhas ms u'"
    if "teamMembers x = teamMembers s \<or> teamMembers x = jset t ms (teamMembers s)" for x t' u'
    using that by (auto simp: has_team_member_def members_of_def split: option.splits if_splits)
  from this [OF members_set_team_members] assms show ?thesis unfolding admits_at_most_def by blast
qed

lemma admits_clear [simp]: "admits_at_most s0 t u (dm_clear ack_map s) = admits_at_most s0 t u s"
  by (rule admits_cong) simp

lemma admits_refl [simp]: "admits_at_most s t u s"
  by (simp add: admits_at_most_def)

definition admitted_user :: "invite_response \<Rightarrow> string option" where
  "admitted_user r = (if s_status r = Approved then Some (s_user r) else None)"

lemma ack_writes_admits: "admits_at_most s (t_id team) (admitted_user r) (state_of (ack_writes now team r s))"
proof -
  let ?P = "admits_at_most s (t_id team) (admitted_user r)"
  let ?ms = "admitted_members now r (t_id team) (case members_of s (t_id team) of None \<Rightarrow> [] | Some ms \<Rightarrow> ms)"
  have ms: "jhas ?ms u \<Longrightarrow> s_status r = Approved \<Longrightarrow> has_team_member s (t_id team) u \<or> Some u = admitted_user r" for u
    by (auto simp: admitted_members_def has_team_member_def jhas_def admitted_user_def split: if_splits option.splits)
  have "?P (state_of (if s_status r = Approved
           then seq (set_team_members (t_id team) ?ms s) (set_team (team\<lparr>t_members := length ?ms\<rparr>)) else Done s))"
    using ms by (auto intro!: seq_state_inv [where P = ?P] admits_set_members)
  then show ?thesis
    unfolding ack_writes_def Let_def
    by (rule seq_state_inv [where P = ?P])
       (auto intro!: seq_state_inv [where P = ?P] simp: prune_invite_ack_receipts_def Let_def)
qed

lemma ack_rollback_admits:
  assumes "admits_at_most s0 t u s" and "t_id team = t"
    and prev: "previous = (case members_of s0 t of None \<Rightarrow> [] | Some ms \<Rightarrow> ms)"
  shows "admits_at_most s0 t u (state_of (ack_rollback r team previous invite receipts s))"
proof -
  let ?P = "admits_at_most s0 t u"
  have set: "?P x \<Longrightarrow> ?P (state_of (set_team_members t previous x))" for x
    by (rule admits_set_members) (auto simp: prev has_team_member_def jhas_def split: option.splits)
  have loop: "?P x \<Longrightarrow> ?P (state_of (for_each (\<lambda>(k, v). dm_set ack_map k v) receipts x))" for x
    by (rule for_each_state_inv) auto
  have inv: "?P x \<Longrightarrow> ?P (state_of (case invite of None \<Rightarrow> Done x | Some i \<Rightarrow> dm_set invite_map (i_id i) i x))" for x
    by (simp split: option.split)
  show ?thesis
    unfolding ack_rollback_def assms(2) using assms(1)
    by (intro seq_state_inv [where P = ?P]) (auto intro: set inv loop)
qed

lemma persist_state_inv:
  assumes "P (discard_durable_mutations (lv_store l))"
    and "\<And>s. P s \<Longrightarrow> P (state_of (rollback s))"
  shows "P (lv_store (snd (persist_or_rollback ok rollback l)))"
proof -
  let ?s = "discard_durable_mutations (lv_store l)"
  have "P (state_of (rollback ?s))" using assms by blast
  then show ?thesis
    using assms(1) by (auto simp: persist_or_rollback_def save_now_cases on_store_simps split: outcome.split)
qed

text \<open>The acknowledgement that is authorized, and everything it can leave behind.\<close>

definition ack_authorized :: "relay_store \<Rightarrow> int \<Rightarrow> invite_response \<Rightarrow> team \<Rightarrow> invite \<Rightarrow> bool" where
  "ack_authorized s now r team i \<longleftrightarrow>
     jget (teams s) (b_team (s_binding r)) = Some team \<and> jget (invites s) (s_invite r) = Some i
     \<and> is_active_room s (b_team (s_binding r)) (b_room (s_binding r))
     \<and> \<not> invite_is_expired now i \<and> invite_response_remains_authorized (Some i) r"

lemma ack_refused:
  assumes "\<nexists>team i. ack_authorized (lv_store l) now r team i"
  shows "\<exists>x. ack_invite_response now ok r l = Done (Some x, l) \<and> x \<noteq> Ack_ok"
  using assms
  by (auto simp: ack_invite_response_def ack_authorized_def invite_response_remains_authorized_def Let_def split: option.splits if_splits)

lemma ack_authorized_run:
  assumes "ack_authorized (lv_store l) now r team i"
  shows "ack_invite_response now ok r l =
     (case on_store (ack_writes now team r) l of
        Throws x l1 \<Rightarrow> Throws x (None, l1)
      | Done l1 \<Rightarrow>
          (case persist_or_rollback ok (ack_rollback r team
               (case members_of (lv_store l) (t_id team) of None \<Rightarrow> [] | Some ms \<Rightarrow> ms) (Some i) (inviteAckReceipts (lv_store l))) l1 of
             (Persisted, l2) \<Rightarrow> Done (Some Ack_ok, l2)
           | (Not_persisted, l2) \<Rightarrow> Done (Some Ack_not_saved, l2)
           | (Rollback_failed, l2) \<Rightarrow> Done (None, l2)))"
proof -
  from assms have there: "jget (invites (lv_store l)) (s_invite r) = Some i" by (simp add: ack_authorized_def)
  from assms show ?thesis unfolding ack_invite_response_def Let_def there by (simp add: ack_authorized_def)
qed

lemma ack_admits:
  assumes "ack_authorized (lv_store l) now r team i"
  shows "admits_at_most (lv_store l) (t_id team) (admitted_user r) (lv_store (snd (state_of (ack_invite_response now ok r l))))"
proof (cases "ack_writes now team r (lv_store l)")
  case (Throws x s)
  with ack_writes_admits [of "lv_store l" team r now] show ?thesis
    by (simp add: ack_authorized_run [OF assms] on_store_simps)
next
  case (Done s)
  let ?l = "l\<lparr>lv_store := s\<rparr>" and ?prev = "case members_of (lv_store l) (t_id team) of None \<Rightarrow> [] | Some ms \<Rightarrow> ms"
  let ?p = "persist_or_rollback ok (ack_rollback r team ?prev (Some i) (inviteAckReceipts (lv_store l))) ?l"
  have "admits_at_most (lv_store l) (t_id team) (admitted_user r) (lv_store (snd ?p))"
  proof (rule persist_state_inv)
    show "admits_at_most (lv_store l) (t_id team) (admitted_user r) (discard_durable_mutations (lv_store ?l))"
      using ack_writes_admits [of "lv_store l" team r now] Done by simp
  qed (rule ack_rollback_admits, simp_all)
  moreover obtain q l2 where p: "?p = (q, l2)" by (cases ?p)
  moreover have "on_store (ack_writes now team r) l = Done ?l" by (simp add: on_store_simps Done)
  ultimately show ?thesis unfolding ack_authorized_run [OF assms] by (cases q) simp_all
qed

text \<open>The handler apart from the transaction: it can only drop an expired device session.\<close>

definition same_but_sessions :: "live \<Rightarrow> live \<Rightarrow> bool" where
  "same_but_sessions l l' \<longleftrightarrow> (\<exists>ds. l' = l\<lparr>lv_store := (lv_store l)\<lparr>deviceSessions := ds\<rparr>\<rparr>)"

lemma same_refl [simp]: "same_but_sessions l l"
  unfolding same_but_sessions_def by (rule exI [of _ "deviceSessions (lv_store l)"]) simp

lemma device_of_same: "device_of now token u d l = (b, l') \<Longrightarrow> same_but_sessions l l'"
  unfolding same_but_sessions_def by (blast dest: device_of_frame)

lemma same_members: "same_but_sessions l l' \<Longrightarrow> has_team_member (lv_store l') t u = has_team_member (lv_store l) t u"
  by (auto simp: same_but_sessions_def has_team_member_def members_of_def)

lemma acknowledge_without_response:
  assumes "session = None \<or> jget (inviteResponses (lv_store l)) request_id = None"
  shows "same_but_sessions l (snd (acknowledge_invite e now ok session token invite_id request_id body l))"
proof (cases session)
  case None
  then show ?thesis by (simp add: acknowledge_invite_def Let_def)
next
  case (Some a)
  let ?d = "string_or_empty (field_of body ''requesterDeviceId'')"
  obtain b l1 where d: "device_of now token (session_user_of a) ?d l = (b, l1)" by fastforce
  from device_of_same [OF d] assms Some show ?thesis
    by (cases b) (simp_all add: acknowledge_invite_def Let_def d)
qed

lemma acknowledge_with_response:
  assumes a: "session = Some a" and r: "jget (inviteResponses (lv_store l)) request_id = Some r"
    and d: "device_of now token (session_user_of a) (s_device r) l = (b, l1)"
  shows "acknowledge_invite e now ok session token invite_id request_id body l =
     (if \<not> has_exact_keys body [''requesterDeviceId''] then (Http_error 400 H_invalid_request, l)
      else if s_invite r \<noteq> invite_id \<or> s_user r \<noteq> session_user_of a \<or> s_device r \<noteq> string_or_empty (field_of body ''requesterDeviceId'')
      then (Http_error 404 H_invite_not_found, l)
      else if \<not> b then (Http_error 404 H_invite_not_found, l1)
      else (case ack_invite_response now ok r l1 of
              Throws x (_, l2) \<Rightarrow> (thrown_reply x, l2) | Done (res, l2) \<Rightarrow> (ack_reply res, l2)))"
  unfolding acknowledge_invite_def Let_def a r option.case d by (cases b) (simp_all add: allowed_def)

text \<open>
  C14: Acknowledging an invite makes nobody a member but the requester itself: whatever the reply,
  a member that was not one before is the signed-in user of the request, on a valid session of the
  device the response names, holding an approved response to an invite that is live, that belongs
  to the team and that a host approved for exactly this user, device and key package.
\<close>

theorem ack_admits_only_the_approved:
  assumes run: "acknowledge_invite e now ok session token invite_id request_id body l = (rep, l')"
    and new: "has_team_member (lv_store l') t u" "\<not> has_team_member (lv_store l) t u"
  shows "\<exists>a r i team. session = Some a \<and> session_user_of a = u
     \<and> jget (inviteResponses (lv_store l)) request_id = Some r \<and> s_status r = Approved \<and> s_user r = u
     \<and> fst (has_device_session now token u (s_device r) (lv_store l))
     \<and> jget (invites (lv_store l)) invite_id = Some i \<and> \<not> invite_is_expired now i
     \<and> is_active_room (lv_store l) (i_team i) (i_room i)
     \<and> jget (teams (lv_store l)) (i_team i) = Some team \<and> t_id team = t
     \<and> i_user i = Some u \<and> i_device i = Some (s_device r) \<and> i_kp_hash i = Some (s_kp_hash r)"
proof -
  have l': "l' = snd (acknowledge_invite e now ok session token invite_id request_id body l)" using run by simp
  have moved: "\<not> same_but_sessions l l'" using same_members [of l l' t u] new by auto
  with acknowledge_without_response [of session l request_id] l'
  have "session \<noteq> None \<and> jget (inviteResponses (lv_store l)) request_id \<noteq> None" by metis
  then obtain a r where a: "session = Some a" and r: "jget (inviteResponses (lv_store l)) request_id = Some r" by auto
  obtain b l1 where d: "device_of now token (session_user_of a) (s_device r) l = (b, l1)" by fastforce
  from device_of_frame [OF d] obtain ds where l1: "l1 = l\<lparr>lv_store := (lv_store l)\<lparr>deviceSessions := ds\<rparr>\<rparr>"
    and b: "b = fst (has_device_session now token (session_user_of a) (s_device r) (lv_store l))" by blast
  note ack = acknowledge_with_response [OF a r d, of e ok invite_id body]
  have refused: "s_invite r = invite_id \<and> s_user r = session_user_of a \<and> b
      \<and> l' = snd (state_of (ack_invite_response now ok r l1))"
  proof -
    let ?R = "ack_invite_response now ok r l1"
    have "l' \<in> {l, l1} \<or> s_invite r = invite_id \<and> s_user r = session_user_of a \<and> b \<and> l' = snd (state_of ?R)"
      unfolding l' ack by (cases ?R) (simp_all add: case_prod_beta)
    with moved device_of_same [OF d] show ?thesis by auto
  qed
  then have ids: "s_invite r = invite_id" "s_user r = session_user_of a" b
    and l2: "l' = snd (state_of (ack_invite_response now ok r l1))" by simp_all
  have "\<exists>team i. ack_authorized (lv_store l1) now r team i"
  proof (rule ccontr)
    assume "\<not> ?thesis"
    from ack_refused [OF this, of ok] l2 have "l' = l1" by auto
    with moved device_of_same [OF d] show False by simp
  qed
  then obtain team i where auth: "ack_authorized (lv_store l1) now r team i" by blast
  have "admits_at_most (lv_store l1) (t_id team) (admitted_user r) (lv_store l')"
    unfolding l2 by (rule ack_admits [OF auth])
  then have t: "t = t_id team" and adm: "admitted_user r = Some u"
    using new same_members [OF device_of_same [OF d]] unfolding admits_at_most_def by metis+
  have there: "is_active_room (lv_store l1) x y = is_active_room (lv_store l) x y" "teams (lv_store l1) = teams (lv_store l)"
    "invites (lv_store l1) = invites (lv_store l)" for x y
    by (rule is_active_room_cong) (simp_all add: l1)
  show ?thesis
    using auth a r t adm ids b
    by (auto simp: ack_authorized_def admitted_user_def invite_response_remains_authorized_def there Let_def split: if_splits)
qed

section \<open>What an acknowledgement leaves\<close>

lemma prune_acks:
  assumes ok: "store_ok s" and get: "inviteAckReceipts s = xs @ [(k, a)]"
    and past: "\<And>x. x \<in> set xs \<Longrightarrow> ack_time x \<le> ack_time (k, a)" and live: "\<not> stamp_le (ar_expires a) now"
  shows "store_ok (prune_invite_ack_receipts now s) \<and> jget (inviteAckReceipts (prune_invite_ack_receipts now s)) k = Some a
     \<and> length (inviteAckReceipts (prune_invite_ack_receipts now s)) \<le> 4096"
proof -
  let ?ordered = "sort_key ack_time (inviteAckReceipts s)"
  have ord: "?ordered = sort_key ack_time xs @ [(k, a)]" using past by (simp add: get sort_key_snoc_max)
  have wf: "jwf (inviteAckReceipts s)" using ok by (simp add: store_ok_def store_wf_def)
  define s1 where "s1 = delete_keys ack_map (map fst (filter (\<lambda>(_, r). stamp_le (ar_expires r) now) ?ordered)) s"
  define kept where "kept = filter (\<lambda>(k, _). jhas (inviteAckReceipts s1) k) ?ordered"
  have s': "prune_invite_ack_receipts now s = delete_keys ack_map (map fst (excess 4096 kept)) s1"
    by (simp add: prune_invite_ack_receipts_def Let_def s1_def kept_def)
  have dist: "distinct (map fst ?ordered)" using wf by (simp add: distinct_map inj_on_def)
  have d1: "store_ok s1" and g1: "inviteAckReceipts s1 =
      filter (\<lambda>(k, _). k \<notin> set (map fst (filter (\<lambda>(_, r). stamp_le (ar_expires r) now) ?ordered))) (inviteAckReceipts s)"
    using ack_tm.delete_keys_ok [OF ok] unfolding s1_def by simp_all
  have k1: "(k, a) \<in> set (inviteAckReceipts s1)"
    using wf live unfolding g1 ord get by (auto simp: rev_image_eqI)
  then have "jhas (inviteAckReceipts s1) k" by (auto simp: jhas_def weak_map_of_SomeI)
  then have kept: "kept = filter (\<lambda>(k, _). jhas (inviteAckReceipts s1) k) (sort_key ack_time xs) @ [(k, a)]"
    by (simp add: kept_def ord)
  have dk: "distinct (map fst kept)" using dist by (simp only: kept_def distinct_map_filter)
  have out: "k \<notin> fst ` set (excess 4096 kept)"
    using last_not_in_excess [of fst _ "(k, a)" 4096] dk unfolding kept by simp
  from ack_tm.delete_keys_ok [OF d1] have ok': "store_ok (prune_invite_ack_receipts now s)"
    and g': "inviteAckReceipts (prune_invite_ack_receipts now s) = filter (\<lambda>x. fst x \<notin> fst ` set (excess 4096 kept)) (inviteAckReceipts s1)"
    unfolding s' by (simp_all add: case_prod_unfold)
  have in': "(k, a) \<in> set (inviteAckReceipts (prune_invite_ack_receipts now s))" using k1 out unfolding g' by auto
  have "jwf (inviteAckReceipts (prune_invite_ack_receipts now s))" using ok' by (simp add: store_ok_def store_wf_def)
  from map_of_is_SomeI [OF this in'] have jg: "jget (inviteAckReceipts (prune_invite_ack_receipts now s)) k = Some a" .
  have wf1: "jwf (inviteAckReceipts s1)" using d1 by (simp add: store_ok_def store_wf_def)
  have same: "set kept = set (inviteAckReceipts s1)"
    unfolding kept_def g1 by (auto simp: jhas_def map_of_eq_None_iff image_iff)
  have "length (inviteAckReceipts (prune_invite_ack_receipts now s))
      = card (set (filter (\<lambda>x. fst x \<notin> fst ` set (excess 4096 kept)) (inviteAckReceipts s1)))"
    unfolding g' using wf1 by (subst distinct_card) (auto simp: distinct_map case_prod_beta)
  also have "\<dots> = card (set (filter (\<lambda>x. fst x \<notin> fst ` set (excess 4096 kept)) kept))" by (simp add: same)
  also have "\<dots> \<le> length (filter (\<lambda>x. fst x \<notin> fst ` set (excess 4096 kept)) kept)" by (rule card_length)
  also have "\<dots> \<le> 4096" by (rule length_drop_excess [OF dk])
  finally show ?thesis using ok' jg by simp
qed

text \<open>The store after the writes of an authorized acknowledgement.\<close>

lemma ack_writes_data:
  assumes ok: "store_ok s" and run: "ack_writes now team r s = Done s'"
    and fresh: "jget (inviteAckReceipts s) (s_request r) = None"
    and past: "\<And>x. x \<in> set (inviteAckReceipts s) \<Longrightarrow> ack_time x \<le> now"
  shows "store_ok s' \<and> jget (invites s') (s_invite r) = None \<and> jget (inviteResponses s') (s_request r) = None
     \<and> (s_status r = Approved \<longrightarrow> has_team_member s' (t_id team) (s_user r))
     \<and> jget (inviteAckReceipts s') (s_request r) = Some (ack_receipt_of now r (t_id team))
     \<and> length (inviteAckReceipts s') \<le> 4096"
proof -
  let ?prev = "case members_of s (t_id team) of None \<Rightarrow> [] | Some ms \<Rightarrow> ms"
  let ?ms = "admitted_members now r (t_id team) ?prev"
  let ?rec = "ack_receipt_of now r (t_id team)"
  from run obtain s1 where 1: "(if s_status r = Approved
           then seq (set_team_members (t_id team) ?ms s) (set_team (team\<lparr>t_members := length ?ms\<rparr>)) else Done s) = Done s1"
    and 2: "seq (dm_set ack_map (s_request r) ?rec (dm_delete response_map (s_request r) (dm_delete invite_map (s_invite r) s1)))
        (\<lambda>s3. Done (prune_invite_ack_receipts now s3)) = Done s'"
    unfolding ack_writes_def Let_def by (rule seq_DoneE)
  let ?s2 = "dm_delete response_map (s_request r) (dm_delete invite_map (s_invite r) s1)"
  from 2 obtain s3 where 3: "dm_set ack_map (s_request r) ?rec ?s2 = Done s3" and s': "s' = prune_invite_ack_receipts now s3"
    by (auto elim: seq_DoneE)
  have wfp: "jwf ?prev" using ok by (auto simp: store_ok_def dest: members_of_wf split: option.split)
  have ok1: "store_ok s1 \<and> invites s1 = invites s \<and> inviteResponses s1 = inviteResponses s
      \<and> inviteAckReceipts s1 = inviteAckReceipts s \<and> (s_status r = Approved \<longrightarrow> members_of s1 (t_id team) = Some ?ms)"
  proof (cases "s_status r = Approved")
    case True
    with 1 obtain t1 where t1: "set_team_members (t_id team) ?ms s = Done t1" and t2: "set_team (team\<lparr>t_members := length ?ms\<rparr>) t1 = Done s1"
      by (auto elim: seq_DoneE)
    have okt: "store_ok t1" using set_team_members_ok [OF ok, of ?ms "t_id team"] wfp t1 by (auto simp: admitted_members_def)
    have "store_ok s1" using team_tm.dm_set_done [OF okt] t2 by (auto simp: set_team_def)
    moreover note f = fields_by_data [OF set_team_members_data [OF t1]] fields_by_data [OF team_tm.dm_set_data [OF t2 [unfolded set_team_def]]]
    ultimately show ?thesis by (simp add: f members_of_def)
  qed (use 1 ok in simp)
  have ok2: "store_ok ?s2" using ok1 by (simp add: invite_tm.dm_delete_ok response_tm.dm_delete_ok)
  have ok3: "store_ok s3" using ack_tm.dm_set_done [OF ok2 3] by simp
  note d3 = fields_by_data [OF ack_tm.dm_set_data [OF 3]]
  note d2 = fields_by_data [OF response_tm.dm_delete_data] fields_by_data [OF invite_tm.dm_delete_data]
  have acks: "inviteAckReceipts s3 = inviteAckReceipts s @ [(s_request r, ?rec)]"
    using fresh ok1 by (simp add: d3 d2 jset_new)
  have p: "store_ok s' \<and> jget (inviteAckReceipts s') (s_request r) = Some ?rec \<and> length (inviteAckReceipts s') \<le> 4096"
    unfolding s' by (rule prune_acks [OF ok3 acks]) (use past in \<open>auto simp: ack_time_def ack_receipt_of_def\<close>)
  have keep: "f s' = f s3" if "\<And>s. f (store_data s) = f s" "\<And>m s. f (tr_put ack_map m s) = f s" for f :: "relay_store \<Rightarrow> 'a"
    unfolding s' prune_invite_ack_receipts_def Let_def using ack_tm.field_frame(3) [of f, OF that] by simp
  show ?thesis
    using p ok1 keep [of invites] keep [of inviteResponses] keep [of teamMembers]
    by (auto simp: d3 d2 has_team_member_def members_of_def jhas_def admitted_members_def)
qed

lemma ack_reply_ok: "ack_reply x = Reply 204 () \<longleftrightarrow> x = Some Ack_ok"
  by (cases x; (simp add: ack_reply_def; fail)?) (rename_tac y, case_tac y, simp_all add: ack_reply_def)

lemma thrown_not_reply: "thrown_reply x \<noteq> Reply st v"
  using thrown_reply_error [of x] by (metis is_error.simps(1))

lemma ack_persisted:
  assumes "ack_invite_response now ok r l = Done (Some Ack_ok, l')"
  shows "\<exists>team i s. ack_authorized (lv_store l) now r team i \<and> ack_writes now team r (lv_store l) = Done s
     \<and> lv_store l' = discard_durable_mutations s"
proof -
  from assms ack_refused [of l now r ok] obtain team i where auth: "ack_authorized (lv_store l) now r team i"
    by (metis outcome.inject(1) option.inject prod.inject)
  show ?thesis
  proof (cases "ack_writes now team r (lv_store l)")
    case (Throws x s)
    then show ?thesis using assms by (simp add: ack_authorized_run [OF auth] on_store_simps)
  next
    case (Done s)
    let ?rb = "ack_rollback r team (case members_of (lv_store l) (t_id team) of None \<Rightarrow> [] | Some ms \<Rightarrow> ms) (Some i) (inviteAckReceipts (lv_store l))"
    have on: "on_store (ack_writes now team r) l = Done (l\<lparr>lv_store := s\<rparr>)" by (simp add: on_store_simps Done)
    obtain p l2 where p: "persist_or_rollback ok ?rb (l\<lparr>lv_store := s\<rparr>) = (p, l2)" by fastforce
    have "p = Persisted" "l2 = l'"
      using assms unfolding ack_authorized_run [OF auth] on by (cases p; simp add: p)+
    moreover have "lv_store l2 = discard_durable_mutations s" if "p = Persisted"
      using p that by (auto simp: persist_or_rollback_def save_now_cases split: if_splits outcome.splits)
    ultimately show ?thesis using auth Done by auto
  qed
qed

text \<open>
  C15: An acknowledgement that answers 204 to a stored response consumes the invite and the
  response, admits the requester when it was approved, keeps at most 4096 receipts, its own among
  them; and until that receipt expires the same request is answered 204 again, changing nothing
  but an expired device session.
\<close>

theorem acknowledged_invite_is_consumed:
  assumes ok: "store_ok (lv_store l)" and there: "jget (inviteResponses (lv_store l)) request_id = Some r" "s_request r = request_id"
    and fresh: "jget (inviteAckReceipts (lv_store l)) request_id = None"
    and past: "\<And>x. x \<in> set (inviteAckReceipts (lv_store l)) \<Longrightarrow> ack_time x \<le> now"
    and run: "acknowledge_invite e now saved (Some a) token invite_id request_id body l = (Reply 204 (), l')"
  shows "jget (invites (lv_store l')) invite_id = None \<and> jget (inviteResponses (lv_store l')) request_id = None
     \<and> (s_status r = Approved \<longrightarrow> (\<exists>team. jget (teams (lv_store l)) (b_team (s_binding r)) = Some team
          \<and> has_team_member (lv_store l') (t_id team) (session_user_of a)))
     \<and> length (inviteAckReceipts (lv_store l')) \<le> 4096
     \<and> (\<forall>t token'. t < now + 30 * 86400000 \<longrightarrow>
          fst (has_device_session t token' (session_user_of a) (s_device r) (lv_store l')) \<longrightarrow>
          (\<exists>ds. acknowledge_invite e t saved' (Some a) token' invite_id request_id body l'
             = (Reply 204 (), l'\<lparr>lv_store := (lv_store l')\<lparr>deviceSessions := ds\<rparr>\<rparr>)))"
proof -
  obtain b l1 where d: "device_of now token (session_user_of a) (s_device r) l = (b, l1)" by fastforce
  from device_of_frame [OF d] obtain ds where l1: "l1 = l\<lparr>lv_store := (lv_store l)\<lparr>deviceSessions := ds\<rparr>\<rparr>" by blast
  note ack = acknowledge_with_response [OF refl there(1) d, of e saved invite_id body]
  have ids: "has_exact_keys body [''requesterDeviceId'']" "s_invite r = invite_id" "s_user r = session_user_of a"
      "s_device r = string_or_empty (field_of body ''requesterDeviceId'')"
    and res: "ack_invite_response now saved r l1 = Done (Some Ack_ok, l')"
    using run unfolding ack
    by (auto simp: ack_reply_ok thrown_not_reply thrown_not_reply [symmetric] split: if_splits outcome.splits prod.splits)
  from ack_persisted [OF res] obtain team i s where auth: "ack_authorized (lv_store l1) now r team i"
    and w: "ack_writes now team r (lv_store l1) = Done s" and l': "lv_store l' = discard_durable_mutations s" by blast
  have w': "store_ok s \<and> jget (invites s) (s_invite r) = None \<and> jget (inviteResponses s) (s_request r) = None
     \<and> (s_status r = Approved \<longrightarrow> has_team_member s (t_id team) (s_user r))
     \<and> jget (inviteAckReceipts s) (s_request r) = Some (ack_receipt_of now r (t_id team)) \<and> length (inviteAckReceipts s) \<le> 4096"
    by (rule ack_writes_data [OF _ w]) (use ok fresh past there(2) in \<open>auto simp: l1\<close>)
  have f: "invites (lv_store l') = invites s" "inviteResponses (lv_store l') = inviteResponses s"
    "inviteAckReceipts (lv_store l') = inviteAckReceipts s" "teamMembers (lv_store l') = teamMembers s"
    by (simp_all add: l' discard_durable_mutations_def)
  have m: "has_team_member (lv_store l') t u = has_team_member s t u" for t u by (rule has_team_member_cong) (rule f)
  have exact: "is_exact_invite_ack_receipt (lv_store l') t invite_id request_id (session_user_of a) (s_device r)"
    if "t < now + 30 * 86400000" for t
    using w' that ids there(2) decision.exhaust
    by (cases "s_status r") (auto simp: is_exact_invite_ack_receipt_def f m ack_receipt_of_def)
  have again: "\<exists>ds. acknowledge_invite e t saved' (Some a) token' invite_id request_id body l'
             = (Reply 204 (), l'\<lparr>lv_store := (lv_store l')\<lparr>deviceSessions := ds\<rparr>\<rparr>)"
    if "t < now + 30 * 86400000" "fst (has_device_session t token' (session_user_of a) (s_device r) (lv_store l'))" for t token'
  proof -
    obtain c l2 where c: "device_of t token' (session_user_of a) (s_device r) l' = (c, l2)" by fastforce
    from device_of_frame [OF c] that(2) obtain ds where c': c and l2: "l2 = l'\<lparr>lv_store := (lv_store l')\<lparr>deviceSessions := ds\<rparr>\<rparr>"
      by blast
    have "acknowledge_invite e t saved' (Some a) token' invite_id request_id body l' = (Reply 204 (), l2)"
      unfolding acknowledge_invite_def Let_def
      using exact [OF that(1)] w' there(2) ids(1) c c' by (simp add: f allowed_def ids(4) [symmetric])
    then show ?thesis using l2 by blast
  qed
  have "jget (teams (lv_store l)) (b_team (s_binding r)) = Some team" using auth by (simp add: ack_authorized_def l1)
  with again w' ids there(2) show ?thesis by (auto simp: f m)
qed

section \<open>Responses\<close>

lemma prepared_response:
  assumes "prepare_invite_response cf now invite_id body session token l = (Inr (i, room, q, host), l1)"
  shows "\<exists>a. session = Some a \<and> host = session_user_of a \<and> jget (invites (lv_store l)) invite_id = Some i
     \<and> jget (rooms (lv_store l)) (i_room i) = Some room \<and> is_active_invite_target (lv_store l) (Some i)
     \<and> r_host_user room = Some host \<and> r_host_device room \<noteq> None
     \<and> fst (has_device_session now token host (the (r_host_device room)) (lv_store l))
     \<and> \<not> invite_is_expired now i
     \<and> jget (inviteRequests (lv_store l)) (string_or_empty (field_of body ''requestId'')) = Some q
     \<and> invite_response_precondition_error i (Some q) (field_of body ''status'') (invite_response_welcome body) = None
     \<and> same_but_sessions l l1"
proof -
  let ?inv = "jget (invites (lv_store l)) invite_id"
  let ?room = "case ?inv of None \<Rightarrow> None | Some i \<Rightarrow> jget (rooms (lv_store l)) (i_room i)"
  let ?hd = "string_or_empty (field_of body ''hostDeviceId'')" and ?rid = "string_or_empty (field_of body ''requestId'')"
  have host: "is_active_invite_host session ?room ?hd (is_active_invite_target (lv_store l) ?inv)"
    using assms by (auto simp: prepare_invite_response_def Let_def split: if_splits)
  then obtain a r j where a: "session = Some a" and j: "?inv = Some j" and r: "jget (rooms (lv_store l)) (i_room j) = Some r"
    and h: "r_host_user r = Some (session_user_of a)" "r_host_device r = Some ?hd" "is_active_invite_target (lv_store l) (Some j)"
    by (auto simp: is_active_invite_host_def split: option.splits)
  obtain b l2 where d: "device_of now token (session_user_of a) (the (r_host_device r)) l = (b, l2)" by fastforce
  from device_of_frame [OF d] have b: "b = fst (has_device_session now token (session_user_of a) (the (r_host_device r)) (lv_store l))"
    by blast
  have run: "(if \<not> has_exact_keys body (invite_response_keys (field_of body ''status'')) then (Inl (Http_error 400 H_invalid_request), l)
      else if \<not> b then (Inl (Http_error 403 H_device_auth_required), l2)
      else if invite_is_expired now j then (Inl (Http_error 410 H_invite_expired), l2)
      else (case jget (inviteResponses (lv_store l2)) ?rid of
          Some existing \<Rightarrow>
            if is_same_invite_response existing (i_id j) (field_of body ''status'') (field_of body ''responseMac'')
                 (field_of body ''responseBinding'') (invite_response_welcome body)
            then (Inl (Reply 200 (s_request existing, ''ready'')), l2) else (Inl (Http_error 409 H_conflict), l2)
        | None \<Rightarrow>
            (case invite_response_precondition_error j (jget (inviteRequests (lv_store l)) ?rid) (field_of body ''status'')
                    (invite_response_welcome body) of
               Some (st, code) \<Rightarrow> (Inl (Http_error st code), l2)
             | None \<Rightarrow> (Inr (j, r, the (jget (inviteRequests (lv_store l)) ?rid), session_user_of a), l2))))
      = (Inr (i, room, q, host), l1)"
    using assms host unfolding prepare_invite_response_def Let_def a j option.case r prod.case d
    by (cases "has_exact_keys body (invite_response_keys (field_of body ''status''))"; cases b) simp_all
  then have b' : b and e: "\<not> invite_is_expired now j" by (auto split: if_splits)
  from run b' e have p: "invite_response_precondition_error j (jget (inviteRequests (lv_store l)) ?rid) (field_of body ''status'')
      (invite_response_welcome body) = None"
    and q: "(j, r, the (jget (inviteRequests (lv_store l)) ?rid), session_user_of a) = (i, room, q, host)" "l2 = l1"
    by (auto split: if_splits option.splits)
  from p have "jget (inviteRequests (lv_store l)) ?rid \<noteq> None"
    by (auto simp: invite_response_precondition_error_def split: option.splits)
  then obtain q' where "jget (inviteRequests (lv_store l)) ?rid = Some q'" by auto
  with p q a j r h b b' e device_of_same [OF d] show ?thesis by auto
qed

lemma parsed_response_fields:
  assumes "parse_invite_response cf now q status binding mac welcome = Some r"
  shows "s_request r = q_id q \<and> s_invite r = q_invite q \<and> s_user r = q_user q \<and> s_device r = q_device q
     \<and> s_kp_hash r = q_kp_hash q \<and> decision_of status = Some (s_status r) \<and> s_welcome r = welcome
     \<and> (s_status r = Approved \<longleftrightarrow> welcome \<noteq> None)"
  using assms by (auto simp: parse_invite_response_def split: if_splits option.splits)

lemma decision_approved: "decision_of v = Some Approved \<longleftrightarrow> v = J_str ''approved''"
  by (cases v) auto

text \<open>
  C16: A response is published only by the active host on its own device, for a request to a live
  invite, and it repeats the request's identities, nonce, key epoch and expiry. An approval is
  published only for the requester the invite was approved for and only after the Commit that adds
  it: the room's accepted epoch is the one after the epoch of the request. The response takes the
  place of the request, or, when the save fails, the relay answers with an error.
\<close>

theorem published_response_is_bound:
  assumes run: "publish_invite_response cf now saved session token invite_id body l = (Reply 201 p, l')"
  shows "\<exists>a i room q r directed. session = Some a \<and> jget (invites (lv_store l)) invite_id = Some i
     \<and> jget (rooms (lv_store l)) (i_room i) = Some room \<and> is_active_invite_target (lv_store l) (Some i)
     \<and> \<not> invite_is_expired now i \<and> r_host_user room = Some (session_user_of a)
     \<and> fst (has_device_session now token (session_user_of a) (the (r_host_device room)) (lv_store l))
     \<and> q_invite q = i_id i \<and> jget (inviteRequests (lv_store l)) (string_or_empty (field_of body ''requestId'')) = Some q
     \<and> parse_strict_directed_invite_request (date_of cf) (J_str (q_sealed q)) max_opaque_chars = Some directed
     \<and> b_nonce (s_binding r) = rb_nonce directed \<and> b_epoch (s_binding r) = rb_epoch directed
     \<and> b_user (s_binding r) = q_user q \<and> b_device (s_binding r) = q_device q \<and> b_kp_hash (s_binding r) = q_kp_hash q
     \<and> b_team (s_binding r) = i_team i \<and> b_room (s_binding r) = i_room i \<and> b_status (s_binding r) = s_status r
     \<and> (s_status r = Approved \<longrightarrow> i_user i = Some (q_user q) \<and> i_device i = Some (q_device q)
          \<and> i_kp_hash i = Some (q_kp_hash q) \<and> r_epoch room = Some (rb_epoch directed + 1) \<and> s_welcome r \<noteq> None)
     \<and> jget (inviteResponses (lv_store l')) (q_id q) = Some r \<and> jget (inviteRequests (lv_store l')) (q_id q) = None"
proof -
  obtain x l1 where prep: "prepare_invite_response cf now invite_id body session token l = (x, l1)" by fastforce
  from run prep obtain i room q host where x: "x = Inr (i, room, q, host)"
    and run1: "(case valid_invite_response_record cf now body (invite_response_welcome body) i q host room of
             None \<Rightarrow> (Http_error 400 H_invalid_request, l1)
           | Some r \<Rightarrow>
               if \<not> membership_commit_accepted_for_welcome r room then (Http_error 409 H_conflict, l1)
               else (case save_invite_response saved q r l1 of
                 Throws x (_, l2) \<Rightarrow> (thrown_reply x, l2)
               | Done res \<Rightarrow> after_persist res (\<lambda>l2. (Reply 201 (s_request r, ''ready''), l2)))) = (Reply 201 p, l')"
  proof (cases x)
    case (Inl y)
    have "y \<noteq> Reply 201 p" using prep Inl
      by (auto simp: prepare_invite_response_def Let_def split: if_splits option.splits prod.splits bool.splits)
    with run prep Inl show ?thesis by (auto simp: publish_invite_response_def split: if_splits)
  next
    case (Inr y)
    obtain i room q host where "y = (i, room, q, host)" by (cases y) auto
    with run prep Inr that show ?thesis by (auto simp: publish_invite_response_def split: if_splits)
  qed
  from prepared_response [OF prep [unfolded x]] obtain a where a: "session = Some a" "host = session_user_of a"
    and f: "jget (invites (lv_store l)) invite_id = Some i"
    "jget (rooms (lv_store l)) (i_room i) = Some room" "is_active_invite_target (lv_store l) (Some i)"
    "r_host_user room = Some host" "fst (has_device_session now token host (the (r_host_device room)) (lv_store l))"
    "\<not> invite_is_expired now i" "jget (inviteRequests (lv_store l)) (string_or_empty (field_of body ''requestId'')) = Some q"
    and pre: "invite_response_precondition_error i (Some q) (field_of body ''status'') (invite_response_welcome body) = None"
    and same: "same_but_sessions l l1" by blast
  from run1 obtain r where v: "valid_invite_response_record cf now body (invite_response_welcome body) i q host room = Some r"
    and c: "membership_commit_accepted_for_welcome r room"
    and s: "(case save_invite_response saved q r l1 of
                 Throws x (_, l2) \<Rightarrow> (thrown_reply x, l2)
               | Done res \<Rightarrow> after_persist res (\<lambda>l2. (Reply 201 (s_request r, ''ready''), l2))) = (Reply 201 p, l')"
    by (auto split: option.splits if_splits)
  from v obtain directed where r: "parse_invite_response cf now q (field_of body ''status'') (field_of body ''responseBinding'')
             (field_of body ''responseMac'') (invite_response_welcome body) = Some r"
    and m: "invite_response_binding_matches cf r i q host room"
    and dir: "parse_strict_directed_invite_request (date_of cf) (J_str (q_sealed q)) max_opaque_chars = Some directed"
    by (auto simp: valid_invite_response_record_def invite_response_binding_matches_def split: option.splits if_splits)
  note pf = parsed_response_fields [OF r]
  have qi: "q_invite q = i_id i" and appr: "field_of body ''status'' = J_str ''approved'' \<Longrightarrow> is_approved_invite_request i q"
    using pre by (auto simp: invite_response_precondition_error_def split: if_splits)
  have st: "s_status r = Approved \<Longrightarrow> field_of body ''status'' = J_str ''approved''"
    using pf decision_approved by metis
  let ?l = "put_store (dm_delete request_map (q_id q)) l1"
  from s obtain s1 where set: "dm_set response_map (s_request r) r (lv_store ?l) = Done s1"
    and lv: "lv_store l' = discard_durable_mutations s1"
    by (auto simp: save_invite_response_def on_store_simps thrown_not_reply persist_or_rollback_def save_now_cases
        split: outcome.splits if_splits)
  note d = fields_by_data [OF response_tm.dm_set_data [OF set]]
  have st': "inviteResponses (lv_store l') = inviteResponses s1" "inviteRequests (lv_store l') = inviteRequests s1"
    by (simp_all add: lv discard_durable_mutations_def)
  have rq: "inviteRequests (dm_delete request_map (q_id q) (lv_store l1)) = jdel (q_id q) (inviteRequests (lv_store l1))"
    using fields_by_data(7) [OF request_tm.dm_delete_data] by simp
  have "jget (inviteResponses (lv_store l')) (q_id q) = Some r" "jget (inviteRequests (lv_store l')) (q_id q) = None"
    using pf by (simp_all add: st' d rq)
  with a f qi dir m pf appr st c show ?thesis
    by (intro exI [of _ a] exI [of _ i] exI [of _ room] exI [of _ q] exI [of _ r] exI [of _ directed])
      (auto simp: invite_response_binding_matches_def Let_def is_approved_invite_request_def
        membership_commit_accepted_for_welcome_def)
qed

section \<open>Creating and revoking\<close>

lemma length_filter_jset: "length (filter P (jvalues (jset k v m))) \<le> Suc (length (filter P (jvalues m)))"
  unfolding jset_def jvalues_def by (induction m) auto

text \<open>
  Creating an invite answers with the invite exactly when it was stored and saved: then the
  creator is a member of the active room's team and holds at most as many live invites as the
  configuration allows. Every other answer leaves the data of the store as it was.
\<close>

theorem created_invites_stay_within_quota:
  assumes fresh: "jget (invites (lv_store l)) (''invite_'' @ ident) = None"
    and run: "create_invite cf now saved ident (Some a) body l = (rep, l')"
  shows "if is_error rep then store_data (lv_store l') = store_data (lv_store l)
     else saved \<and> (\<exists>i. rep = Reply 201 i \<and> jget (invites (lv_store l')) (i_id i) = Some i \<and> i_creator i = Some (session_user_of a)
        \<and> can_access_room (lv_store l) (i_team i) (i_room i) (session_user_of a))
        \<and> length (live_invites_of (lv_store l') (session_user_of a) now) \<le> cf_invite_cap cf"
proof -
  let ?t = "string_or_empty (field_of body ''teamId'')" and ?r = "string_or_empty (field_of body ''roomId'')"
  let ?i = "new_invite cf now ident (Some a) ?t ?r" and ?u = "session_user_of a"
  let ?put = "\<lambda>l1. after_persist (persist_or_rollback saved (\<lambda>s. Done (dm_delete invite_map (i_id ?i) s)) l1) (\<lambda>l2. (Reply 201 ?i, l2))"
  have paths: "is_error rep \<and> l' = l
     \<or> can_access_room (lv_store l) ?t ?r ?u \<and> length (live_invites_of (lv_store l) ?u now) < cf_invite_cap cf
       \<and> handle (on_store (dm_set invite_map (i_id ?i) ?i) l) ?put = (rep, l')"
    using run unfolding create_invite_def Let_def by (auto split: if_splits option.splits)
  show ?thesis
  proof (cases "is_error rep \<and> l' = l")
    case False
    with paths have acc: "can_access_room (lv_store l) ?t ?r ?u" and cap: "length (live_invites_of (lv_store l) ?u now) < cf_invite_cap cf"
      and h: "handle (on_store (dm_set invite_map (i_id ?i) ?i) l) ?put = (rep, l')" by auto
    have id: "i_id ?i = ''invite_'' @ ident" by (simp add: new_invite_def)
    show ?thesis
    proof (cases "dm_set invite_map (i_id ?i) ?i (lv_store l)")
      case (Throws x s)
      with h invite_tm.dm_set_throws_data [OF Throws] show ?thesis by (auto simp: on_store_simps)
    next
      case (Done s)
      note d = invite_tm.dm_set_data [OF Done]
      have undone: "store_data (dm_delete invite_map (i_id ?i) (discard_durable_mutations s)) = store_data (lv_store l)"
        using fresh by (simp add: invite_tm.dm_delete_data d fields_by_data [OF d] discard_durable_mutations_def id jdel_jset_new)
      have inv: "invites (lv_store l') = jset (i_id ?i) ?i (invites (lv_store l))" "rep = Reply 201 ?i" if saved
        using h that by (auto simp: on_store_simps Done persist_or_rollback_def save_now_cases fields_by_data [OF d]
            discard_durable_mutations_def)
      have err: "is_error rep" "store_data (lv_store l') = store_data (lv_store l)" if "\<not> saved"
        using h that undone by (auto simp: on_store_simps Done persist_or_rollback_def save_now_cases)
      have quota: "length (live_invites_of (lv_store l') ?u now) \<le> cf_invite_cap cf" if saved
        using cap length_filter_jset [of _ "i_id ?i" ?i "invites (lv_store l)"]
        unfolding live_invites_of_def inv(1) [OF that] by (meson Suc_leI le_trans)
      show ?thesis
      proof (cases saved)
        case True
        have "i_creator ?i = Some ?u" "i_team ?i = ?t" "i_room ?i = ?r" by (simp_all add: new_invite_def)
        with acc inv [OF True] quota [OF True] True show ?thesis by simp
      qed (use err in simp)
    qed
  qed simp
qed

lemma delete_fully:
  assumes "store_ok s"
  shows "store_ok (delete_invite_fully i s)
     \<and> store_data (delete_invite_fully i s) = (store_data s)\<lparr>invites := jdel i (invites s),
        inviteRequests := jwhere (\<lambda>_ q. q_invite q \<noteq> i) (inviteRequests s),
        inviteResponses := jwhere (\<lambda>_ r. s_invite r \<noteq> i) (inviteResponses s),
        inviteAckReceipts := jwhere (\<lambda>_ a. ar_invite a \<noteq> i) (inviteAckReceipts s)\<rparr>"
proof -
  let ?s1 = "dm_delete invite_map i s"
  let ?s2 = "dm_delete_where request_map (\<lambda>_ q. q_invite q = i) ?s1"
  let ?s3 = "dm_delete_where response_map (\<lambda>_ r. s_invite r = i) ?s2"
  have ok: "store_ok ?s1" "store_ok ?s2" "store_ok ?s3"
    using assms by (simp_all add: invite_tm.dm_delete_ok request_tm.dm_delete_where_ok response_tm.dm_delete_where_ok)
  note d1 = invite_tm.dm_delete_data [of i s] and d2 = request_tm.dm_delete_where_data [OF ok(1), of "\<lambda>_ q. q_invite q = i"]
    and d3 = response_tm.dm_delete_where_data [OF ok(2), of "\<lambda>_ r. s_invite r = i"]
    and d4 = ack_tm.dm_delete_where_data [OF ok(3), of "\<lambda>_ a. ar_invite a = i"]
  have f: "inviteRequests ?s1 = inviteRequests s" "inviteResponses ?s2 = inviteResponses s" "inviteAckReceipts ?s3 = inviteAckReceipts s"
    by (simp_all add: fields_by_data [OF d1] fields_by_data [OF d2] fields_by_data [OF d3])
  show ?thesis
    unfolding delete_invite_fully_def delete_invite_artifacts_def d4
    using ok(3) by (simp add: ack_tm.dm_delete_where_ok d3 d2 d1 f)
qed

lemma jwhere_jwhere: "jwhere P (jwhere Q m) = jwhere (\<lambda>k v. Q k v \<and> P k v) m"
  by (auto simp: jwhere_def intro!: filter_cong)

lemma jdel_jwhere: "jdel k m = jwhere (\<lambda>j _. j \<noteq> k) m"
  by (auto simp: jdel_def jwhere_def AList.delete_eq intro!: filter_cong)

lemma jwhere_True [simp]: "jwhere (\<lambda>_ _. True) m = m"
  by (simp add: jwhere_def case_prod_unfold)

lemma delete_room_invites_loop:
  fixes s :: relay_store and t r :: string
  assumes "store_ok s"
  defines "f \<equiv> \<lambda>(ident, i) s. if i_team i = t \<and> i_room i = r then delete_invite_fully ident s else s"
    and "gone \<equiv> \<lambda>xs ident. \<exists>i. (ident, i) \<in> set xs \<and> i_team i = t \<and> i_room i = r"
  shows "store_ok (fold f xs s) \<and> store_data (fold f xs s) = (store_data s)\<lparr>
     invites := jwhere (\<lambda>k _. \<not> gone xs k) (invites s),
     inviteRequests := jwhere (\<lambda>_ q. \<not> gone xs (q_invite q)) (inviteRequests s),
     inviteResponses := jwhere (\<lambda>_ r. \<not> gone xs (s_invite r)) (inviteResponses s),
     inviteAckReceipts := jwhere (\<lambda>_ a. \<not> gone xs (ar_invite a)) (inviteAckReceipts s)\<rparr>"
  using assms(1)
proof (induction xs arbitrary: s)
  case Nil
  from Nil show ?case by (simp add: gone_def store_data_def)
next
  case (Cons x xs)
  obtain k i where x: "x = (k, i)" by (cases x)
  show ?case
  proof (cases "i_team i = t \<and> i_room i = r")
    case False
    then have "gone (x # xs) = gone xs" "f x = (\<lambda>s. s)" by (auto simp: gone_def x f_def)
    with Cons show ?thesis by simp
  next
    case True
    then have g: "gone (x # xs) = (\<lambda>j. j = k \<or> gone xs j)" by (auto simp: gone_def x fun_eq_iff)
    from delete_fully [OF Cons.prems, of k] have ok: "store_ok (delete_invite_fully k s)"
      and d: "store_data (delete_invite_fully k s) = (store_data s)\<lparr>invites := jdel k (invites s),
        inviteRequests := jwhere (\<lambda>_ q. q_invite q \<noteq> k) (inviteRequests s),
        inviteResponses := jwhere (\<lambda>_ r. s_invite r \<noteq> k) (inviteResponses s),
        inviteAckReceipts := jwhere (\<lambda>_ a. ar_invite a \<noteq> k) (inviteAckReceipts s)\<rparr>" by auto
    have "fold f (x # xs) s = fold f xs (delete_invite_fully k s)" using True by (simp add: f_def x)
    with Cons.IH [OF ok] show ?thesis
      by (simp add: d fields_by_data [OF d] g jwhere_jwhere jdel_jwhere)
  qed
qed

text \<open>
  Only the room's host revokes its invites, and when the relay answers with the count, no
  invite of the room and no request, response or receipt of a revoked invite is left; everything
  else is as it was.
\<close>

theorem revoked_invites_leave_nothing:
  assumes ok: "store_ok (lv_store l)" and run: "revoke_invites e saved (Some a) t r l = (Reply st n, l')"
  defines "gone \<equiv> \<lambda>ident. \<exists>i. (ident, i) \<in> set (invites (lv_store l)) \<and> i_team i = t \<and> i_room i = r"
  shows "(\<exists>room. jget (rooms (lv_store l)) r = Some room \<and> r_team room = t \<and> r_host_user room = Some (session_user_of a))
     \<and> store_ok (lv_store l') \<and> store_data (lv_store l') = (store_data (lv_store l))\<lparr>
        invites := jwhere (\<lambda>k _. \<not> gone k) (invites (lv_store l)),
        inviteRequests := jwhere (\<lambda>_ q. \<not> gone (q_invite q)) (inviteRequests (lv_store l)),
        inviteResponses := jwhere (\<lambda>_ x. \<not> gone (s_invite x)) (inviteResponses (lv_store l)),
        inviteAckReceipts := jwhere (\<lambda>_ x. \<not> gone (ar_invite x)) (inviteAckReceipts (lv_store l))\<rparr>"
proof -
  have store: "lv_store l' = delete_room_invites t r (lv_store l)
      \<or> lv_store l' = discard_durable_mutations (delete_room_invites t r (lv_store l))"
    and host: "\<exists>room. jget (rooms (lv_store l)) r = Some room \<and> r_team room = t \<and> r_host_user room = Some (session_user_of a)"
    using run by (auto simp: revoke_invites_def Let_def save_now_cases thrown_not_reply split: if_splits option.splits)
  from delete_room_invites_loop [OF ok, of t r "invites (lv_store l)"] host store
  show ?thesis unfolding delete_room_invites_def gone_def by (elim disjE) (simp_all add: case_prod_unfold)
qed

text \<open>
  When the save of a new request fails, the relay answers with an error but the request stays in
  its memory: the rollback of \<open>saveInviteRequestAtomically\<close> waits for a promise that a synchronous
  throw never creates.
\<close>

lemma failed_request_save_keeps_request:
  assumes "dm_set request_map (q_id q) q (lv_store l) = Done s"
  shows "\<exists>l'. save_invite_request False q l = Throws L_unavailable l' \<and> jget (inviteRequests (lv_store l')) (q_id q) = Some q"
  using fields_by_data(7) [OF request_tm.dm_set_data [OF assms]]
  by (simp add: save_invite_request_def on_store_simps assms save_now_cases discard_durable_mutations_def)

end
