(* ===== verification/Key_Package_Proofs.thy ===== *)
theory Key_Package_Proofs
  imports Key_Packages Invite_Proofs
begin

text \<open>
  KeyPackages are used at most once: the hash of a live package is unique and never among the
  consumed ones, whatever uploads and consumptions succeed or fail. A consumption is made only for
  the requester of a live invite by the active host, and the validation budget of an account obeys
  its rate.
\<close>

section \<open>Each package is live once or consumed\<close>

definition packages_ok :: "relay_store \<Rightarrow> bool" where
  "packages_ok s \<longleftrightarrow> (\<forall>(i, k) \<in> set (keyPackages s). k_id k = i \<and> \<not> jhas (consumedKeyPackages s) (k_hash k))
     \<and> jwf (keyPackages s) \<and> inj_on (\<lambda>(i, k). k_hash k) (set (keyPackages s))"

lemma packages_ok_cong:
  "keyPackages s = keyPackages s' \<Longrightarrow> consumedKeyPackages s = consumedKeyPackages s' \<Longrightarrow> packages_ok s = packages_ok s'"
  by (simp add: packages_ok_def)

lemma packages_ok_subset:
  assumes "packages_ok s" and "set (keyPackages s') \<subseteq> set (keyPackages s)" and "jwf (keyPackages s')"
    and "\<And>i k. (i, k) \<in> set (keyPackages s') \<Longrightarrow> jhas (consumedKeyPackages s') (k_hash k) \<Longrightarrow> jhas (consumedKeyPackages s) (k_hash k)"
  shows "packages_ok s'"
  using assms unfolding packages_ok_def by (blast intro: inj_on_subset)

lemma packages_ok_insert:
  assumes "packages_ok s" and "keyPackages s' = jset (k_id k) k (keyPackages s)" and "jget (keyPackages s) (k_id k) = None"
    and "consumedKeyPackages s' = consumedKeyPackages s" and "\<not> jhas (consumedKeyPackages s) (k_hash k)"
    and new: "k_hash k \<notin> k_hash ` set (jvalues (keyPackages s))"
  shows "packages_ok s'"
proof -
  have ne: "k_hash x \<noteq> k_hash k \<and> k_hash k \<noteq> k_hash x" if "(i, x) \<in> set (keyPackages s)" for i x
  proof -
    have "x \<in> set (jvalues (keyPackages s))" using that by (force simp: jvalues_def)
    with new show ?thesis by (metis imageI)
  qed
  have "set (keyPackages s') = insert (k_id k, k) (set (keyPackages s))" "jwf (keyPackages s')"
    using assms(1,2,3) by (simp_all add: jset_new packages_ok_def map_of_eq_None_iff)
  with assms(1-5) ne show ?thesis unfolding packages_ok_def by (auto simp: inj_on_def)
qed

lemma packages_frame [simp]:
  "packages_ok (discard_durable_mutations s) = packages_ok s" "packages_ok (s\<lparr>deviceSessions := d\<rparr>) = packages_ok s"
  "packages_ok (state_of (dm_set invite_map k i s)) = packages_ok s"
  by (rule packages_ok_cong; simp add: discard_durable_mutations_def invite_tm.field_frame [of keyPackages, simplified]
      invite_tm.field_frame [of consumedKeyPackages, simplified])+

lemma packages_delete:
  assumes "packages_ok s"
  shows "packages_ok (dm_delete key_package_map k s)"
proof -
  note d = fields_by_data [OF key_package_tm.dm_delete_data [of k s]]
  show ?thesis
    by (rule packages_ok_subset [OF assms])
      (use assms in \<open>auto simp: d set_jdel packages_ok_def\<close>)
qed

section \<open>Uploads\<close>

lemma rollback_contribution_ok: "packages_ok s \<Longrightarrow> packages_ok (rollback_contribution ks s)"
  unfolding rollback_contribution_def by (induction ks arbitrary: s) (auto simp: packages_delete)

text \<open>The records of a batch that passed the checks of the commit.\<close>

definition fresh_batch :: "key_package list \<Rightarrow> relay_store \<Rightarrow> bool" where
  "fresh_batch ks s \<longleftrightarrow> distinct (map k_id ks) \<and> distinct (map k_hash ks)
     \<and> (\<forall>k \<in> set ks. jget (keyPackages s) (k_id k) = None \<and> \<not> jhas (consumedKeyPackages s) (k_hash k)
          \<and> k_hash k \<notin> k_hash ` set (jvalues (keyPackages s)))"

lemma set_batch:
  assumes "packages_ok s" and "fresh_batch ks s"
  shows "packages_ok (state_of (for_each set_key_package ks s))"
  using assms
proof (induction ks arbitrary: s)
  case Nil
  then show ?case by simp
next
  case (Cons k ks)
  show ?case
  proof (cases "set_key_package k s")
    case (Throws x s1)
    from key_package_tm.dm_set_throws_data [OF Throws [unfolded set_key_package_def]]
    have "packages_ok s1 = packages_ok s" by (intro packages_ok_cong) (auto dest: fields_by_data(12,13))
    with Throws Cons.prems show ?thesis by simp
  next
    case (Done s1)
    note d = fields_by_data [OF key_package_tm.dm_set_data [OF Done [unfolded set_key_package_def]]]
    have f: "jget (keyPackages s) (k_id k) = None" "\<not> jhas (consumedKeyPackages s) (k_hash k)"
      "k_hash k \<notin> k_hash ` set (jvalues (keyPackages s))" using Cons.prems(2) by (auto simp: fresh_batch_def)
    have "packages_ok s1"
      by (rule packages_ok_insert [OF Cons.prems(1), of _ k]) (use f in \<open>simp_all add: d\<close>)
    moreover have "fresh_batch ks s1"
      using Cons.prems(2) f by (auto simp: fresh_batch_def d jvalues_def jset_new) (metis imageI)+
    ultimately show ?thesis using Cons.IH Done by simp
  qed
qed

lemma validated_batch:
  assumes "validate_key_package_batch e validator now u d meanwhile seen cs l = (Inr ks, l')"
  shows "distinct (map k_id ks) \<and> distinct (map k_hash ks) \<and> length ks = length cs
     \<and> (\<forall>k \<in> set ks. k_user k = u \<and> k_device k = d \<and> k_hash k = hash_key_package e (k_package k)
          \<and> k_id k \<notin> up_id ` set seen \<and> k_hash k \<notin> up_hash ` set seen)"
  using assms
proof (induction e validator now u d meanwhile seen cs l arbitrary: ks l' rule: validate_key_package_batch.induct)
  case 1
  then show ?case by simp
next
  case (2 e validator now u d meanwhile seen c cs l)
  from "2.prems" obtain p k ks' l1 where v: "validate_uploaded_key_package e validator now u d (lv_store l) seen c = Inr (p, k)"
    and rest: "validate_key_package_batch e validator now u d meanwhile (p # seen) cs (meanwhile l) = (Inr ks', l1)" and ks: "ks = k # ks'"
    by (auto split: sum.splits prod.splits)
  from v have p: "up_id p \<notin> up_id ` set seen" "up_hash p \<notin> up_hash ` set seen" "up_hash p = hash_key_package e (up_package p)"
    and k: "k = validated_record p u d (k_identity k) now"
    by (auto simp: validate_uploaded_key_package_def validated_record_def split: option.splits if_splits validator_answer.splits)
  have f: "k_id k = up_id p" "k_hash k = up_hash p" "k_user k = u" "k_device k = d" "k_package k = up_package p"
    by (subst k, simp add: validated_record_def)+
  from p(3) have h: "k_hash k = hash_key_package e (k_package k)" by (simp only: f)
  from "2.IH" [OF v refl rest] p(1,2) h show ?case by (auto simp: ks) (auto simp: f)
qed

lemma commit_keeps_packages:
  assumes "\<And>x. packages_ok (lv_store x) \<Longrightarrow> packages_ok (lv_store (snd (authorized x)))"
    and "packages_ok (lv_store l)" and "distinct (map k_id ks)" and "distinct (map k_hash ks)"
  shows "packages_ok (lv_store (snd (state_of (commit_validated_key_packages ok u d ks limit authorized l))))"
proof -
  obtain b l0 where a: "authorized l = (b, l0)" by fastforce
  with assms(1) [OF assms(2)] have ok0: "packages_ok (lv_store l0)" by simp
  let ?s = "lv_store l0"
  show ?thesis
  proof (cases "b \<and> \<not> list_ex (\<lambda>k. jhas (consumedKeyPackages ?s) (k_hash k)) ks
      \<and> \<not> list_ex (\<lambda>k. jhas (keyPackages ?s) (k_id k) \<or> List.member (map k_hash (jvalues (keyPackages ?s))) (k_hash k)) ks")
    case False
    then show ?thesis using ok0 by (auto simp: commit_validated_key_packages_def a Let_def split: bool.split)
  next
    case True
    then have "fresh_batch ks ?s" using assms(3,4) by (auto simp: fresh_batch_def list_ex_iff jhas_def)
    from set_batch [OF ok0 this] have set: "packages_ok (state_of (for_each set_key_package ks ?s))" .
    have on: "packages_ok (lv_store (state_of (on_store (for_each set_key_package ks) l0)))"
      using set by (cases "for_each set_key_package ks ?s") (simp_all add: on_store_simps)
    then show ?thesis using ok0 True
      by (auto simp: commit_validated_key_packages_def a Let_def save_now_cases rollback_contribution_ok split: outcome.split)
  qed
qed

section \<open>Consumption\<close>

lemma device_of_packages: "packages_ok (lv_store l) \<Longrightarrow> packages_ok (lv_store (snd (device_of now token u d l)))"
proof -
  assume ok: "packages_ok (lv_store l)"
  obtain b l' where d: "device_of now token u d l = (b, l')" by fastforce
  from device_of_frame [OF d] ok d show ?thesis by auto
qed

lemma live_device_packages: "packages_ok (lv_store l) \<Longrightarrow> packages_ok (lv_store (snd (live_device_authority now a token d l)))"
  by (simp add: live_device_authority_def device_of_packages)

text \<open>The states between staging a consumption and its end: the package is not live, and nothing else has its hash.\<close>

definition staged :: "key_package \<Rightarrow> consumed_key_package \<Rightarrow> relay_store \<Rightarrow> bool" where
  "staged k c s \<longleftrightarrow> packages_ok s \<and> ck_hash c = k_hash k \<and> (\<forall>(i, x) \<in> set (keyPackages s). k_hash x \<noteq> k_hash k)
     \<and> jget (consumedKeyPackages s) (k_hash k) \<in> {None, Some c} \<and> jget (keyPackages s) (k_id k) = None"

lemma staged_cong:
  "keyPackages s = keyPackages s' \<Longrightarrow> consumedKeyPackages s = consumedKeyPackages s' \<Longrightarrow> staged k c s = staged k c s'"
  by (simp add: staged_def packages_ok_def)

lemma staged_frame [simp]:
  "staged k c (discard_durable_mutations s) = staged k c s"
  "staged k c (state_of (set_invite i s)) = staged k c s"
  by (rule staged_cong; simp add: discard_durable_mutations_def set_invite_def invite_tm.field_frame [of keyPackages, simplified]
      invite_tm.field_frame [of consumedKeyPackages, simplified])+

lemma staged_start:
  assumes ok: "packages_ok s" and there: "jget (keyPackages s) (k_id k) = Some k" and ck: "ck_hash c = k_hash k"
  shows "staged k c (dm_delete key_package_map (k_id k) s)"
proof -
  note d = fields_by_data [OF key_package_tm.dm_delete_data [of "k_id k" s]]
  from there have mem: "(k_id k, k) \<in> set (keyPackages s)" by (rule jget_mem)
  then have "\<not> jhas (consumedKeyPackages s) (k_hash k)" using ok by (auto simp: packages_ok_def)
  moreover have "k_hash x \<noteq> k_hash k" if "(i, x) \<in> set (keyPackages s)" "i \<noteq> k_id k" for i x
    using ok mem that by (auto simp: packages_ok_def inj_on_def)
  ultimately show ?thesis
    using packages_delete [OF ok, of "k_id k"] ck by (auto simp: staged_def d set_jdel jhas_def)
qed

lemma staged_consumed:
  assumes "staged k c s" and "h = k_hash k"
  shows "staged k c (state_of (dm_set consumed_map h c s))"
proof (cases "dm_set consumed_map h c s")
  case (Throws x s1)
  from consumed_tm.dm_set_throws_data [OF Throws] have "staged k c s1 = staged k c s"
    by (intro staged_cong) (auto dest: fields_by_data(12,13))
  with assms Throws show ?thesis by simp
next
  case (Done s1)
  note d = fields_by_data [OF consumed_tm.dm_set_data [OF Done]]
  from assms have ok: "packages_ok s" and other: "\<And>i x. (i, x) \<in> set (keyPackages s) \<Longrightarrow> k_hash x \<noteq> k_hash k"
    by (auto simp: staged_def)
  have "packages_ok s1"
  proof (rule packages_ok_subset [OF ok])
    show "jwf (keyPackages s1)" using ok by (simp add: d packages_ok_def)
    fix i x assume "(i, x) \<in> set (keyPackages s1)" "jhas (consumedKeyPackages s1) (k_hash x)"
    with other show "jhas (consumedKeyPackages s) (k_hash x)" by (auto simp: d assms(2) jhas_def)
  qed (simp add: d)
  with assms Done show ?thesis by (simp add: staged_def d)
qed

text \<open>Undoing a consumption.\<close>

lemma rollback_keeps_packages:
  assumes "staged k c s"
  shows "packages_ok (state_of (rollback_key_package_consumption i k c s))"
proof -
  from assms have ok: "packages_ok s" and ck: "ck_hash c = k_hash k"
    and other: "\<And>i x. (i, x) \<in> set (keyPackages s) \<Longrightarrow> k_hash x \<noteq> k_hash k"
    and mine: "jget (consumedKeyPackages s) (k_hash k) \<in> {None, Some c}" and absent: "jget (keyPackages s) (k_id k) = None"
    by (auto simp: staged_def)
  let ?s1 = "if jget (consumedKeyPackages s) (ck_hash c) = Some c then dm_delete consumed_map (ck_hash c) s else s"
  note d1 = fields_by_data [OF consumed_tm.dm_delete_data [of "k_hash k" s]]
    fields_by_data [OF consumed_tm.dm_delete_data [of "ck_hash c" s]]
  have kp1: "keyPackages ?s1 = keyPackages s" by (simp add: d1 ck)
  have c1: "\<not> jhas (consumedKeyPackages ?s1) (k_hash k)" using mine by (auto simp: d1 ck jhas_def)
  have ok1: "packages_ok ?s1"
    by (rule packages_ok_subset [OF ok]) (use ok in \<open>auto simp: d1 jhas_def packages_ok_def split: if_splits\<close>)
  have set: "packages_ok (state_of (if jhas (keyPackages ?s1) (k_id k) then Done ?s1 else set_key_package k ?s1))"
  proof (cases "set_key_package k ?s1")
    case (Throws x s2)
    from key_package_tm.dm_set_throws_data [OF Throws [unfolded set_key_package_def]]
    have "packages_ok s2 = packages_ok ?s1" by (intro packages_ok_cong) (auto dest: fields_by_data(12,13))
    with Throws ok1 show ?thesis by simp
  next
    case (Done s2)
    note d = fields_by_data [OF key_package_tm.dm_set_data [OF Done [unfolded set_key_package_def]]]
    have "k_hash k \<notin> k_hash ` set (jvalues (keyPackages ?s1))" using other by (force simp: kp1 jvalues_def)
    with absent have "packages_ok s2"
      by (intro packages_ok_insert [OF ok1, of _ k]) (simp_all add: d c1 kp1)
    with Done ok1 show ?thesis by simp
  qed
  have inv: "packages_ok (state_of (case jget (invites s2) (i_id i) of None \<Rightarrow> Done s2
      | Some j \<Rightarrow> if i_kp_hash j = Some (k_hash k) then set_invite i s2 else Done s2))" if "packages_ok s2" for s2
    using that by (simp add: set_invite_def split: option.split)
  show ?thesis
    unfolding rollback_key_package_consumption_def Let_def
    by (rule seq_state_inv [where P = packages_ok]) (use set inv in auto)
qed

lemma stage_keeps_packages:
  assumes ok: "packages_ok s" and there: "jget (keyPackages s) (k_id k) = Some k" and ck: "ck_hash c = k_hash k"
  shows "packages_ok (state_of (stage_key_package_consumption i k c s))"
    and "stage_key_package_consumption i k c s = Done s' \<Longrightarrow> staged k c s'"
proof -
  let ?w = "seq (dm_set consumed_map (ck_hash c) c (dm_delete key_package_map (k_id k) s)) (set_invite (approved_invite i k))"
  have w: "staged k c (state_of ?w)"
    by (rule seq_state_inv [where P = "staged k c"])
      (use staged_consumed [OF staged_start [OF ok there ck], of "ck_hash c"] ck in simp_all)
  show "packages_ok (state_of (stage_key_package_consumption i k c s))"
  proof (cases ?w)
    case (Done s1)
    with w show ?thesis by (simp add: stage_key_package_consumption_def staged_def)
  next
    case (Throws x s1)
    with w rollback_keeps_packages [of k c s1 i] show ?thesis
      by (cases "rollback_key_package_consumption i k c s1") (simp_all add: stage_key_package_consumption_def)
  qed
  show "stage_key_package_consumption i k c s = Done s' \<Longrightarrow> staged k c s'"
    using w by (auto simp: stage_key_package_consumption_def split: outcome.splits)
qed

lemma available_package:
  assumes "validate_available_key_package req i s = Inr k" and "packages_ok s"
  shows "jget (keyPackages s) (k_id k) = Some k \<and> k_user k = co_user req \<and> k_device k = co_device req \<and> k_hash k = co_kp_hash req
     \<and> k_id k = co_kp_id req"
  using assms by (auto simp: validate_available_key_package_def packages_ok_def split: option.splits if_splits dest!: jget_mem)

lemma consume_keeps_packages:
  assumes auth: "\<And>x. packages_ok (lv_store x) \<Longrightarrow> packages_ok (lv_store (snd (authorized x)))" and ok: "packages_ok (lv_store l)"
  shows "packages_ok (lv_store (snd (state_of (consume_key_package_for_invite now saved req authorized l))))"
proof -
  obtain b l0 where a: "authorized l = (b, l0)" by fastforce
  with auth [OF ok] have ok0: "packages_ok (lv_store l0)" by simp
  show ?thesis
  proof (cases "b \<and> get_device (lv_store l0) (co_user req) (co_device req) \<noteq> None \<and> host_authorization_failure req (lv_store l0) = None
      \<and> (\<exists>i k. validate_consumption_invite now req (lv_store l0) = Inr i \<and> validate_available_key_package req i (lv_store l0) = Inr k)")
    case False
    then show ?thesis using ok0
      by (auto simp: consume_key_package_for_invite_def a split: bool.split option.split sum.split)
  next
    case True
    then obtain i k where steps: b "get_device (lv_store l0) (co_user req) (co_device req) \<noteq> None"
      "host_authorization_failure req (lv_store l0) = None"
      "validate_consumption_invite now req (lv_store l0) = Inr i" and k: "validate_available_key_package req i (lv_store l0) = Inr k"
      by blast
    let ?c = "consumed_record now req k"
    have ck: "ck_hash ?c = k_hash k" by (simp add: consumed_record_def)
    note st = stage_keeps_packages [OF ok0 _ ck] available_package [OF k ok0]
    show ?thesis
    proof (cases "stage_key_package_consumption i k ?c (lv_store l0)")
      case (Throws x s)
      with st show ?thesis
        using steps k by (auto simp: consume_key_package_for_invite_def a Let_def on_store_simps dest: st(1)) (metis state_of.simps(2) st)
    next
      case (Done s)
      with st have sg: "staged k ?c s" by blast
      obtain p l2 where p: "persist_or_rollback saved (rollback_key_package_consumption i k ?c) (l0\<lparr>lv_store := s\<rparr>) = (p, l2)" by fastforce
      let ?rb = "rollback_key_package_consumption i k ?c (discard_durable_mutations s)"
      have rb: "packages_ok (state_of ?rb)" by (rule rollback_keeps_packages) (simp add: sg)
      have kept: "packages_ok s" using sg by (simp add: staged_def)
      have "packages_ok (lv_store l2)"
        using p rb kept by (cases saved; cases ?rb) (auto simp: persist_or_rollback_def save_now_cases on_store_simps)
      then show ?thesis
        using steps k Done p ok0 by (cases p) (simp_all add: consume_key_package_for_invite_def a Let_def on_store_simps)
    qed
  qed
qed

section \<open>The handlers\<close>

lemma validate_batch_keeps:
  assumes "\<And>x. packages_ok (lv_store x) \<Longrightarrow> packages_ok (lv_store (meanwhile x))" and "packages_ok (lv_store l)"
  shows "packages_ok (lv_store (snd (validate_key_package_batch e validator now u d meanwhile seen cs l)))"
  using assms
proof (induction cs arbitrary: l seen)
  case Nil
  then show ?case by simp
next
  case (Cons c cs)
  show ?case
  proof (cases "validate_uploaded_key_package e validator now u d (lv_store l) seen c")
    case (Inl x)
    with Cons.prems show ?thesis by simp
  next
    case (Inr y)
    obtain p k where y: "y = (p, k)" by fastforce
    obtain r l1 where v: "validate_key_package_batch e validator now u d meanwhile (p # seen) cs (meanwhile l) = (r, l1)" by fastforce
    with Cons.IH [OF Cons.prems(1) Cons.prems(1) [OF Cons.prems(2)], of "p # seen"] have "packages_ok (lv_store l1)" by simp
    then show ?thesis by (cases r) (simp_all add: Inr y v)
  qed
qed

lemma upload_keeps_packages:
  assumes mw: "\<And>x. packages_ok (lv_store x) \<Longrightarrow> packages_ok (lv_store (meanwhile x))" and ok: "packages_ok (lv_store l)"
  shows "packages_ok (lv_store (snd (snd (upload_key_packages kc validator now saved meanwhile session token d batch b l))))"
proof (cases session)
  case None
  then show ?thesis using ok by (simp add: upload_key_packages_def)
next
  case (Some a)
  let ?u = "session_user_of a"
  obtain c l1 where dev: "device_of now token ?u d l = (c, l1)" by fastforce
  with device_of_packages [OF ok, of now token ?u d] have ok1: "packages_ok (lv_store l1)" by simp
  show ?thesis
  proof (cases "c \<and> batch \<noteq> None")
    case False
    then show ?thesis using ok ok1
      by (auto simp: upload_key_packages_def Some dev Let_def split: bool.split)
  next
    case True
    then obtain cs where b: "batch = Some cs" and c: c by auto
    obtain ans b1 where bud: "consume_budget (kc_validation_cap kc) (kc_validation_window kc) now ?u (int (length cs)) b = (ans, b1)" by fastforce
    obtain v l2 where val: "validate_key_package_batch (kc_env kc) validator now ?u d meanwhile [] cs l1 = (v, l2)" by fastforce
    moreover have "packages_ok (lv_store (snd (validate_key_package_batch (kc_env kc) validator now ?u d meanwhile [] cs l1)))"
      by (rule validate_batch_keeps) (use mw ok1 in auto)
    ultimately have ok2: "packages_ok (lv_store l2)" by simp
    let ?commit = "\<lambda>ks. commit_validated_key_packages saved ?u d ks (kc_account_cap kc) (live_device_authority now a token d) (meanwhile l2)"
    have ok3: "packages_ok (lv_store (snd (state_of (?commit ks))))" if "v = Inr ks" for ks
      using validated_batch [OF val [unfolded that]] mw [OF ok2]
      by (intro commit_keeps_packages live_device_packages) auto
    show ?thesis
    proof (cases v)
      case (Inl x)
      then show ?thesis using ok ok1 ok2
        by (cases ans) (simp_all add: upload_key_packages_def Some dev b c Let_def bud val case_prod_beta)
    next
      case (Inr ks)
      with ok3 [OF Inr] show ?thesis using ok ok1
        by (cases ans; cases "?commit ks") (auto simp: upload_key_packages_def Some dev b c Let_def bud val case_prod_beta)
    qed
  qed
qed

lemma consumption_keeps_packages:
  assumes mw: "\<And>x. packages_ok (lv_store x) \<Longrightarrow> packages_ok (lv_store (meanwhile x))" and ok: "packages_ok (lv_store l)"
  shows "packages_ok (lv_store (snd (consume_key_package e now saved meanwhile session token r u d body l)))"
proof (cases session)
  case None
  then show ?thesis using ok by (simp add: consume_key_package_def)
next
  case (Some a)
  let ?hd = "string_or_empty (field_of body ''hostDeviceId'')"
  obtain c l1 where dev: "device_of now token (session_user_of a) ?hd l = (c, l1)" by fastforce
  with device_of_packages [OF ok, of now token "session_user_of a" ?hd] have ok1: "packages_ok (lv_store l1)" by simp
  show ?thesis
  proof (cases "c \<and> jget (rooms (lv_store l)) r \<noteq> None")
    case False
    then show ?thesis using ok ok1 by (auto simp: consume_key_package_def Some dev Let_def split: bool.split)
  next
    case True
    then obtain room where c: c and room: "jget (rooms (lv_store l)) r = Some room" by auto
    let ?req = "\<lparr>co_team = r_team room, co_room = r_id room, co_host_user = session_user_of a, co_host_device = ?hd,
                 co_invite = string_or_empty (field_of body ''inviteId''), co_user = u, co_device = d,
                 co_kp_id = string_or_empty (field_of body ''keyPackageId''),
                 co_kp_hash = string_or_empty (field_of body ''keyPackageHash'')\<rparr>"
    let ?run = "consume_key_package_for_invite now saved ?req (live_device_authority now a token ?hd) (meanwhile l1)"
    have ok2: "packages_ok (lv_store (snd (state_of ?run)))"
      using mw [OF ok1] by (intro consume_keeps_packages live_device_packages) auto
    then show ?thesis using ok ok1
      by (cases ?run) (auto simp: consume_key_package_def Some dev c room Let_def case_prod_beta)
  qed
qed

text \<open>
  C17: However uploads and consumptions of KeyPackages succeed, fail or are undone, and whatever
  the relay does between their steps that keeps it so, every live package is stored under its id,
  no two live packages have the same hash, and no live package has a hash that was consumed.
\<close>

theorem key_packages_are_one_shot:
  assumes "packages_ok (lv_store l)"
    and "\<And>x. packages_ok (lv_store x) \<Longrightarrow> packages_ok (lv_store (meanwhile x))"
  shows "packages_ok (lv_store (snd (snd (upload_key_packages kc validator now saved meanwhile session token d batch b l))))
     \<and> packages_ok (lv_store (snd (consume_key_package e now saved meanwhile session token r u d body l)))"
  using upload_keeps_packages [of meanwhile l] consumption_keeps_packages [of meanwhile l] assms by blast

lemma consumed_package:
  assumes "consume_key_package_for_invite now saved req authorized l = Done (Some (Consumed k), l')"
  shows "\<exists>l0 i room. authorized l = (True, l0) \<and> get_device (lv_store l0) (co_user req) (co_device req) \<noteq> None
     \<and> jget (rooms (lv_store l0)) (co_room req) = Some room \<and> is_active_room (lv_store l0) (co_team req) (co_room req)
     \<and> is_active_room_host room (co_host_user req) (co_host_device req)
     \<and> jget (invites (lv_store l0)) (co_invite req) = Some i \<and> i_room i = co_room req \<and> i_team i = co_team req
     \<and> \<not> invite_is_expired now i \<and> find_matching_invite_request (lv_store l0) (i_id i) req \<noteq> None
     \<and> validate_available_key_package req i (lv_store l0) = Inr k
     \<and> (\<exists>s. stage_key_package_consumption i k (consumed_record now req k) (lv_store l0) = Done s
           \<and> lv_store l' = discard_durable_mutations s)"
proof -
  obtain b l0 where a: "authorized l = (b, l0)" by fastforce
  have no_fail: "validate_available_key_package req i s \<noteq> Inl (Consumed k)" "validate_consumption_invite now req s \<noteq> Inl (Consumed k)"
      "host_authorization_failure req s \<noteq> Some (Consumed k)" for i s
    by (auto simp: validate_available_key_package_def validate_consumption_invite_def host_authorization_failure_def split: option.splits)
  have 1: b "get_device (lv_store l0) (co_user req) (co_device req) \<noteq> None" "host_authorization_failure req (lv_store l0) = None"
    using assms no_fail by (auto simp: consume_key_package_for_invite_def a split: bool.splits if_splits option.splits)
  then obtain i where i: "validate_consumption_invite now req (lv_store l0) = Inr i"
    using assms no_fail by (auto simp: consume_key_package_for_invite_def a split: sum.splits)
  with 1 obtain k0 where k: "validate_available_key_package req i (lv_store l0) = Inr k0"
    using assms no_fail by (auto simp: consume_key_package_for_invite_def a split: sum.splits)
  obtain s where s: "stage_key_package_consumption i k0 (consumed_record now req k0) (lv_store l0) = Done s"
    using assms 1 by (cases "stage_key_package_consumption i k0 (consumed_record now req k0) (lv_store l0)")
      (auto simp: consume_key_package_for_invite_def a i k Let_def on_store_simps)
  have "k0 = k \<and> lv_store l' = discard_durable_mutations s"
    using assms 1 s by (auto simp: consume_key_package_for_invite_def a i k Let_def on_store_simps persist_or_rollback_def save_now_cases
        split: if_splits outcome.splits)
  with 1 i k s a show ?thesis
    by (auto simp: host_authorization_failure_def validate_consumption_invite_def split: option.splits if_splits)
qed

lemma staged_invite:
  assumes "stage_key_package_consumption i k c s = Done s'"
  shows "jget (invites s') (i_id i) = Some (approved_invite i k) \<and> jhas (consumedKeyPackages s') (ck_hash c)
     \<and> jget (keyPackages s') (k_id k) = None"
proof -
  let ?s1 = "dm_delete key_package_map (k_id k) s"
  from assms have "seq (dm_set consumed_map (ck_hash c) c ?s1) (set_invite (approved_invite i k)) = Done s'"
    by (auto simp: stage_key_package_consumption_def split: outcome.splits)
  then obtain s2 where 2: "dm_set consumed_map (ck_hash c) c ?s1 = Done s2" and 3: "dm_set invite_map (i_id i) (approved_invite i k) s2 = Done s'"
    by (auto simp: set_invite_def approved_invite_def elim: seq_DoneE)
  note d1 = fields_by_data [OF key_package_tm.dm_delete_data [of "k_id k" s]]
    and d2 = fields_by_data [OF consumed_tm.dm_set_data [OF 2]] and d3 = fields_by_data [OF invite_tm.dm_set_data [OF 3]]
  show ?thesis by (simp add: d3 d2 d1 jhas_def)
qed

text \<open>
  C18: A KeyPackage is handed out only to the active host of an active room, on its own device, for
  an unexpired invite of that room with a matching request, and only the requester's own package
  that is live and not consumed. Handing it out approves the invite for exactly that user, device
  and package, and the package is gone and its hash consumed. All this is tested on the store the
  package is taken from, after the account turns were awaited.
\<close>

theorem consumption_is_made_by_the_host:
  assumes run: "consume_key_package e now saved meanwhile session token r u d body l = (Reply 200 (Some k), l')"
    and ok: "packages_ok (lv_store l)"
    and mw: "\<And>x. packages_ok (lv_store x) \<Longrightarrow> packages_ok (lv_store (meanwhile x))"
  shows "\<exists>a s0 room i hd. session = Some a \<and> hd = string_or_empty (field_of body ''hostDeviceId'')
     \<and> s0 = lv_store (snd (live_device_authority now a token hd (meanwhile (snd (device_of now token (session_user_of a) hd l)))))
     \<and> jget (rooms s0) (i_room i) = Some room \<and> is_active_room s0 (i_team i) (i_room i)
     \<and> is_active_room_host room (session_user_of a) hd \<and> get_device s0 u d \<noteq> None
     \<and> jget (invites s0) (string_or_empty (field_of body ''inviteId'')) = Some i \<and> \<not> invite_is_expired now i
     \<and> (\<exists>q \<in> set (jvalues (inviteRequests s0)). q_invite q = i_id i \<and> q_user q = u \<and> q_device q = d \<and> q_kp_hash q = k_hash k)
     \<and> jget (keyPackages s0) (k_id k) = Some k \<and> k_user k = u \<and> k_device k = d \<and> \<not> jhas (consumedKeyPackages s0) (k_hash k)
     \<and> jget (invites (lv_store l')) (i_id i) = Some (approved_invite i k)
     \<and> jget (keyPackages (lv_store l')) (k_id k) = None \<and> jhas (consumedKeyPackages (lv_store l')) (k_hash k)"
proof -
  from run obtain a where a: "session = Some a" by (auto simp: consume_key_package_def split: if_splits option.splits)
  let ?hd = "string_or_empty (field_of body ''hostDeviceId'')"
  obtain c l1 where dev: "device_of now token (session_user_of a) ?hd l = (c, l1)" by fastforce
  with run have c: c by (auto simp: consume_key_package_def a Let_def split: if_splits bool.splits)
  obtain room where room: "jget (rooms (lv_store l)) r = Some room"
    using run by (auto simp: consume_key_package_def a dev c Let_def split: if_splits option.splits)
  let ?req = "\<lparr>co_team = r_team room, co_room = r_id room, co_host_user = session_user_of a, co_host_device = ?hd,
               co_invite = string_or_empty (field_of body ''inviteId''), co_user = u, co_device = d,
               co_kp_id = string_or_empty (field_of body ''keyPackageId''),
               co_kp_hash = string_or_empty (field_of body ''keyPackageHash'')\<rparr>"
  let ?run = "consume_key_package_for_invite now saved ?req (live_device_authority now a token ?hd) (meanwhile l1)"
  have res: "?run = Done (Some (Consumed k), l')"
    using run by (cases ?run) (auto simp: consume_key_package_def a dev c room Let_def thrown_not_reply consumption_reply_def
        split: if_splits option.splits consumption_result.splits prod.splits)
  from consumed_package [OF res] obtain l0 i rm s where l0: "live_device_authority now a token ?hd (meanwhile l1) = (True, l0)"
    and f: "get_device (lv_store l0) u d \<noteq> None" "jget (rooms (lv_store l0)) (r_id room) = Some rm"
      "is_active_room (lv_store l0) (r_team room) (r_id room)" "is_active_room_host rm (session_user_of a) ?hd"
      "jget (invites (lv_store l0)) (string_or_empty (field_of body ''inviteId'')) = Some i" "i_room i = r_id room" "i_team i = r_team room"
      "\<not> invite_is_expired now i" "find_matching_invite_request (lv_store l0) (i_id i) ?req \<noteq> None"
    and v: "validate_available_key_package ?req i (lv_store l0) = Inr k"
    and s: "stage_key_package_consumption i k (consumed_record now ?req k) (lv_store l0) = Done s"
    and l': "lv_store l' = discard_durable_mutations s" by auto
  have ok1: "packages_ok (lv_store l1)" using device_of_packages [OF ok, of now token "session_user_of a" ?hd] dev by simp
  have ok0: "packages_ok (lv_store l0)" using live_device_packages [OF mw [OF ok1], of now a token ?hd] l0 by simp
  from available_package [OF v ok0]
  have k: "jget (keyPackages (lv_store l0)) (k_id k) = Some k" "k_user k = u" "k_device k = d"
    "k_hash k = string_or_empty (field_of body ''keyPackageHash'')" by auto
  have new: "\<not> jhas (consumedKeyPackages (lv_store l0)) (k_hash k)"
    using ok0 jget_mem [OF k(1)] by (auto simp: packages_ok_def)
  have q: "\<exists>q \<in> set (jvalues (inviteRequests (lv_store l0))). q_invite q = i_id i \<and> q_user q = u \<and> q_device q = d \<and> q_kp_hash q = k_hash k"
    using f(9) unfolding find_matching_invite_request_def find_None_iff by (auto simp: k(4))
  have after: "jget (invites (lv_store l')) (i_id i) = Some (approved_invite i k)"
    "jget (keyPackages (lv_store l')) (k_id k) = None" "jhas (consumedKeyPackages (lv_store l')) (k_hash k)"
    using staged_invite [OF s] by (simp_all add: l' discard_durable_mutations_def consumed_record_def)
  show ?thesis
    by (intro exI [of _ a] exI [of _ "lv_store l0"] exI [of _ rm] exI [of _ i] exI [of _ ?hd])
      (use a l0 dev f k new q after in simp)
qed

section \<open>Bounds of an upload\<close>

lemma set_batch_appends:
  assumes "for_each set_key_package ks s = Done s'" and "distinct (map k_id ks)" and "\<And>k. k \<in> set ks \<Longrightarrow> jget (keyPackages s) (k_id k) = None"
  shows "keyPackages s' = keyPackages s @ map (\<lambda>k. (k_id k, k)) ks"
  using assms
proof (induction ks arbitrary: s)
  case Nil
  then show ?case by simp
next
  case (Cons k ks)
  from Cons.prems(1) obtain s1 where 1: "set_key_package k s = Done s1" and 2: "for_each set_key_package ks s1 = Done s'"
    by (auto elim: seq_DoneE)
  have kp: "keyPackages s1 = keyPackages s @ [(k_id k, k)]"
    using fields_by_data [OF key_package_tm.dm_set_data [OF 1 [unfolded set_key_package_def]]] Cons.prems(3) [of k]
    by (simp add: jset_new)
  have "jget (keyPackages s1) (k_id x) = None" if "x \<in> set ks" for x
    using Cons.prems(2) Cons.prems(3) [of x] that by (auto simp: kp map_of_eq_None_iff) (metis imageI)
  from Cons.IH [OF 2 _ this] Cons.prems(2) show ?case by (simp add: kp)
qed

lemma rollback_removes:
  assumes "keyPackages t = pre @ map (\<lambda>k. (k_id k, k)) ks" and "distinct (map k_id ks)"
    and "\<And>k. k \<in> set ks \<Longrightarrow> jget pre (k_id k) = None"
  shows "keyPackages (rollback_contribution ks t) = pre"
  using assms
proof (induction ks arbitrary: t)
  case Nil
  then show ?case by (simp add: rollback_contribution_def)
next
  case (Cons k ks)
  let ?t = "dm_delete key_package_map (k_id k) t"
  have get: "jget (keyPackages t) (k_id k) = Some k" using Cons.prems by (simp add: map_add_def)
  have "filter (\<lambda>(i, _). i \<noteq> k_id k) pre = pre"
    using Cons.prems(3) [of k] by (auto simp: filter_id_conv map_of_eq_None_iff image_iff)
  moreover have "filter (\<lambda>(i, _). i \<noteq> k_id k) (map (\<lambda>k. (k_id k, k)) ks) = map (\<lambda>k. (k_id k, k)) ks"
    using Cons.prems(2) by (auto simp: filter_id_conv image_iff)
  moreover have "keyPackages ?t = filter (\<lambda>(i, _). i \<noteq> k_id k) (keyPackages t)"
    using fields_by_data(12) [OF key_package_tm.dm_delete_data [of "k_id k" t]]
    by (auto simp: jdel_def AList.delete_eq intro!: filter_cong)
  ultimately have "keyPackages ?t = pre @ map (\<lambda>k. (k_id k, k)) ks" using Cons.prems(1) by simp
  from Cons.IH [OF this] Cons.prems(2,3) get show ?case by (simp add: rollback_contribution_def)
qed


section \<open>The validation budget\<close>

text \<open>The cost the budget allows to one account over a sequence of requests (time, account, cost).\<close>

fun spent :: "int \<Rightarrow> int \<Rightarrow> string \<Rightarrow> (int \<times> string \<times> int) list \<Rightarrow> budget \<Rightarrow> int" where
  "spent capacity window u [] b = 0"
| "spent capacity window u ((t, v, c) # calls) b =
     (case consume_budget capacity window t v c b of
        (answer, b') \<Rightarrow> (if v = u \<and> answer = Budget_allowed then c else 0) + spent capacity window u calls b')"

definition tokens_at :: "int \<Rightarrow> int \<Rightarrow> string \<Rightarrow> int \<Rightarrow> budget \<Rightarrow> int" where
  "tokens_at capacity window u t b = refilled capacity window t (jget (bg_accounts b) u)"

definition buckets_ok :: "int \<Rightarrow> budget \<Rightarrow> bool" where
  "buckets_ok t b \<longleftrightarrow> jwf (bg_accounts b)
     \<and> (\<forall>u r. jget (bg_accounts b) u = Some r \<longrightarrow> 0 \<le> bu_tokens r \<and> bu_updated r = bu_seen r \<and> bu_seen r \<le> t)"

text \<open>A pruned bucket would have been full: pruning is invisible.\<close>

lemma prune_budget_invisible:
  assumes "0 < capacity" and "0 < window" and ok: "buckets_ok t b" and "t \<le> t'"
  shows "buckets_ok t' (prune_budget window t' b) \<and> tokens_at capacity window u t' (prune_budget window t' b) = tokens_at capacity window u t' b"
proof (cases "t' < bg_next b")
  case True
  with assms show ?thesis by (force simp: prune_budget_def buckets_ok_def)
next
  case False
  have wf: "jwf (bg_accounts b)" using ok by (simp add: buckets_ok_def)
  have get: "jget (bg_accounts (prune_budget window t' b)) v
      = (case jget (bg_accounts b) v of None \<Rightarrow> None | Some r \<Rightarrow> if bu_seen r + window * 2 \<le> t' then None else Some r)" for v
    using False by (auto simp: prune_budget_def Let_def jget_jwhere [OF wf] split: option.splits)
  have "jwf (bg_accounts (prune_budget window t' b))" using False wf by (simp add: prune_budget_def Let_def jwf_jwhere)
  with ok assms(4) have 1: "buckets_ok t' (prune_budget window t' b)"
    by (force simp: buckets_ok_def get split: option.splits if_splits)
  have "capacity * window \<le> bu_tokens r + max 0 (t' - bu_updated r) * capacity"
    if r: "jget (bg_accounts b) u = Some r" and old: "bu_seen r + window * 2 \<le> t'" for r
  proof -
    have p: "0 \<le> bu_tokens r" "bu_updated r = bu_seen r" using ok r by (auto simp: buckets_ok_def)
    have "window \<le> max 0 (t' - bu_updated r)" using old p(2) assms(2) by simp
    then have "window * capacity \<le> max 0 (t' - bu_updated r) * capacity" using assms(1) by (intro mult_right_mono) auto
    with p(1) show ?thesis by (simp add: mult.commute)
  qed
  then have "tokens_at capacity window u t' (prune_budget window t' b) = tokens_at capacity window u t' b"
    by (auto simp: tokens_at_def refilled_def get split: option.splits)
  with 1 show ?thesis by simp
qed

lemma tokens_grow:
  assumes "0 < capacity" and ok: "buckets_ok t b" and "t \<le> t'"
  shows "tokens_at capacity window u t' b \<le> tokens_at capacity window u t b + (t' - t) * capacity"
    and "tokens_at capacity window u t b \<le> capacity * window"
proof -
  have "max 0 (t' - bu_updated r) * capacity = max 0 (t - bu_updated r) * capacity + (t' - t) * capacity"
    if "jget (bg_accounts b) u = Some r" for r
  proof -
    have "bu_updated r = bu_seen r" "bu_seen r \<le> t" using ok that unfolding buckets_ok_def by blast+
    then have "max 0 (t' - bu_updated r) = t' - bu_updated r" "max 0 (t - bu_updated r) = t - bu_updated r"
      using assms(3) by simp_all
    then show ?thesis by (simp add: algebra_simps)
  qed
  moreover have "0 \<le> (t' - t) * capacity" using assms by simp
  ultimately show "tokens_at capacity window u t' b \<le> tokens_at capacity window u t b + (t' - t) * capacity"
    by (auto simp: tokens_at_def refilled_def split: option.splits)
  show "tokens_at capacity window u t b \<le> capacity * window" by (auto simp: tokens_at_def refilled_def split: option.splits)
qed

lemma consume_step:
  assumes "0 < capacity" "0 < window" and ok: "buckets_ok t b" and le: "t \<le> t'" and c: "0 \<le> c"
    and run: "consume_budget capacity window t' v c b = (answer, b')"
  shows "buckets_ok t' b' \<and> (if v = u \<and> answer = Budget_allowed then c else 0) * window + tokens_at capacity window u t' b'
      \<le> tokens_at capacity window u t b + (t' - t) * capacity"
proof -
  let ?b = "prune_budget window t' b"
  let ?tok = "refilled capacity window t' (jget (bg_accounts ?b) v)"
  note pr = prune_budget_invisible [OF assms(1,2) ok le, of u]
  have ok1: "buckets_ok t' ?b" and same: "tokens_at capacity window u t' ?b = tokens_at capacity window u t' b" using pr by auto
  have grow: "tokens_at capacity window u t' b \<le> tokens_at capacity window u t b + (t' - t) * capacity"
    by (rule tokens_grow(1) [OF assms(1) ok le])
  have tok0: "0 \<le> ?tok" using ok1 assms(1,2) by (auto simp: refilled_def buckets_ok_def split: option.split)
  have tokc: "?tok \<le> capacity * window" using tokens_grow(2) [OF assms(1) ok1 order_refl, of window v] by (simp add: tokens_at_def)
  define left where "left = (if c * window \<le> ?tok then ?tok - c * window else ?tok)"
  have left0: "0 \<le> left" "left \<le> ?tok" using tok0 c assms(2) by (auto simp: left_def)
  have b': "b' = ?b\<lparr>bg_accounts := jset v \<lparr>bu_tokens = left, bu_updated = t', bu_seen = t'\<rparr> (bg_accounts ?b)\<rparr>"
    and ans: "answer = Budget_allowed \<longleftrightarrow> c * window \<le> ?tok"
    using run by (auto simp: consume_budget_def Let_def left_def split: if_splits)
  have ok': "buckets_ok t' b'" using ok1 left0 by (auto simp: b' buckets_ok_def)
  have tokens': "tokens_at capacity window u t' b' = (if v = u then left else tokens_at capacity window u t' ?b)"
    using left0(2) tokc by (simp add: tokens_at_def b' refilled_def)
  have "(if v = u \<and> answer = Budget_allowed then c else 0) * window + tokens_at capacity window u t' b' \<le> tokens_at capacity window u t' ?b"
    using tokens' ans by (auto simp: left_def tokens_at_def)
  with ok' same grow show ?thesis by linarith
qed

text \<open>
  Whatever the requests, an account is never allowed to have more packages validated than
  one full budget plus what the rate refills over the time the requests span: in units of one
  window, capacity times (window plus duration). That idle buckets are forgotten does not change this.
\<close>

theorem validation_budget_is_respected:
  assumes pos: "0 < capacity" "0 < window"
    and order: "sorted (map fst calls)" and cost: "list_all (\<lambda>(_, _, c). 0 \<le> c) calls"
    and span: "list_all (\<lambda>(t, _, _). first \<le> t \<and> t \<le> last_time) calls" and dur: "first \<le> last_time"
  shows "spent capacity window u calls \<lparr>bg_accounts = [], bg_next = start\<rparr> * window \<le> capacity * (window + (last_time - first))"
proof -
  have gen: "spent capacity window u calls b * window \<le> tokens_at capacity window u t b + (last_time - t) * capacity"
    if "buckets_ok t b" "t \<le> last_time" "list_all (\<lambda>(x, _, c). t \<le> x \<and> x \<le> last_time \<and> 0 \<le> c) calls" "sorted (map fst calls)" for t b
    using that
  proof (induction calls arbitrary: t b)
    case Nil
    have "0 \<le> tokens_at capacity window u t b"
      using Nil.prems(1) pos by (auto simp: tokens_at_def refilled_def buckets_ok_def split: option.split)
    with Nil pos show ?case by simp
  next
    case (Cons x calls)
    obtain t' v c where x: "x = (t', v, c)" by (cases x) auto
    obtain ans b' where run: "consume_budget capacity window t' v c b = (ans, b')" by fastforce
    have le: "t \<le> t'" "t' \<le> last_time" "0 \<le> c" using Cons.prems(3) by (auto simp: x)
    note st = consume_step [OF pos Cons.prems(1) le(1,3) run, of u]
    have all: "list_all (\<lambda>(y, _, c). t' \<le> y \<and> y \<le> last_time \<and> 0 \<le> c) calls"
      using Cons.prems(3,4) by (auto simp: x list_all_iff)
    have "spent capacity window u calls b' * window \<le> tokens_at capacity window u t' b' + (last_time - t') * capacity"
      using Cons.IH [OF _ le(2) all] st Cons.prems(4) by (simp add: x)
    with st show ?case by (simp add: x run algebra_simps split: if_splits)
  qed
  have "buckets_ok first \<lparr>bg_accounts = [], bg_next = start\<rparr>" by (simp add: buckets_ok_def)
  moreover have "list_all (\<lambda>(x, _, c). first \<le> x \<and> x \<le> last_time \<and> 0 \<le> c) calls"
    using cost span by (auto simp: list_all_iff)
  ultimately show ?thesis
    using gen [of first "\<lparr>bg_accounts = [], bg_next = start\<rparr>"] dur order by (simp add: tokens_at_def refilled_def algebra_simps)
qed

end
