(* ===== verification/Directed_Invite_Proofs.thy ===== *)
theory Directed_Invite_Proofs
  imports Directed_Invite
begin

text \<open>
  Parsing undoes \<open>JSON.stringify\<close>, so the strict parser of directed invite requests accepts
  exactly the canonical texts of strict envelopes.
\<close>

section \<open>String literals\<close>

lemma hex_value_digit: "d < 16 \<Longrightarrow> hex_value (hex_digit d) = Some d"
proof -
  assume "d < 16"
  then consider "d < 10" | "10 \<le> d" "d < 16" by linarith
  then show ?thesis by cases (simp_all add: hex_value_def hex_digit_def Let_def)
qed

lemma string_rest_plain:
  assumes "(of_char c :: nat) \<noteq> 34" "\<not> (of_char c :: nat) < 32" "(of_char c :: nat) \<noteq> 92"
  shows "json_string_rest (c # t) = cons_char c (json_string_rest t)"
  using assms by (simp add: json_string_rest.simps [of "c # t"])

lemma string_rest_escape:
  assumes "simple_escape e = Some x" "e \<noteq> CHR ''u''"
  shows "json_string_rest (char_of (92::nat) # e # t) = cons_char x (json_string_rest t)"
  using assms by (simp add: json_string_rest.simps [of "char_of (92::nat) # e # t"])

lemma string_rest_unicode:
  assumes "n < 32"
  shows "json_string_rest (char_of (92::nat) # CHR ''u'' # CHR ''0'' # CHR ''0'' # hex_digit (n div 16) # hex_digit (n mod 16) # t)
     = cons_char (char_of n) (json_string_rest t)"
proof -
  have "hex_value CHR ''0'' = Some 0" by (simp add: hex_value_def Let_def)
  then have "unicode_escape [CHR ''0'', CHR ''0'', hex_digit (n div 16), hex_digit (n mod 16)] = Some (char_of n)"
    using assms by (simp add: unicode_escape_def hex_value_digit div_mult_mod_eq)
  then show ?thesis by (subst json_string_rest.simps) (simp add: cons_char_def)
qed

lemma string_rest_char: "json_string_rest (json_char c @ t) = cons_char c (json_string_rest t)"
proof -
  define n where "n = (of_char c :: nat)"
  have c: "c = char_of n" by (simp add: n_def)
  consider (plain) "35 \<le> n \<and> n \<noteq> 92 \<or> 32 \<le> n \<and> n < 34" | (quote) "n = 34" | (backslash) "n = 92"
    | (short) "n \<in> {8, 9, 10, 12, 13}" | (unicode) "n < 32" "n \<notin> {8, 9, 10, 12, 13}"
    by fastforce
  then show ?thesis
  proof cases
    case plain
    then have "json_char c = [c]" by (auto simp: json_char_def Let_def n_def)
    with plain show ?thesis by (auto simp: n_def intro!: string_rest_plain)
  next
    case quote
    have code: "c = char_of (34::nat)" using c unfolding quote .
    then have eq: "json_char c = [char_of (92::nat), c]" by (simp add: json_char_def Let_def)
    have "simple_escape c = Some c" "c \<noteq> CHR ''u''" using quote by (auto simp: simple_escape_def n_def)
    from string_rest_escape [OF this, of t] show ?thesis unfolding eq by simp
  next
    case backslash
    have code: "c = char_of (92::nat)" using c unfolding backslash .
    then have eq: "json_char c = [char_of (92::nat), c]" by (simp add: json_char_def Let_def)
    have "simple_escape c = Some c" "c \<noteq> CHR ''u''" using backslash by (auto simp: simple_escape_def n_def)
    from string_rest_escape [OF this, of t] show ?thesis unfolding eq by simp
  next
    case short
    then show ?thesis
      by (auto simp: json_char_def Let_def n_def [symmetric] c simple_escape_def
          intro!: string_rest_escape)
  next
    case unicode
    then have "json_char c = char_of (92::nat) # ''u00'' @ [hex_digit (n div 16), hex_digit (n mod 16)]"
      by (simp add: json_char_def Let_def n_def [symmetric])
    with unicode show ?thesis using string_rest_unicode [of n t] by (simp add: c)
  qed
qed

lemma string_rest_quote: "json_string_rest (concat (map json_char s) @ char_of (34::nat) # r) = Some (s, r)"
proof (induction s)
  case Nil
  show ?case by (simp add: json_string_rest.simps [of "char_of (34::nat) # r"])
next
  case (Cons c s)
  then show ?case by (simp add: string_rest_char cons_char_def)
qed

section \<open>Numbers\<close>

definition ends :: "string \<Rightarrow> bool" where
  "ends r \<longleftrightarrow> (case r of [] \<Rightarrow> True | c # _ \<Rightarrow> \<not> is_digit c \<and> c \<noteq> CHR ''.'' \<and> c \<noteq> CHR ''e'' \<and> c \<noteq> CHR ''E'')"

lemma ends_simps [simp]: "ends []" "ends (CHR '','' # r)" "ends (CHR '']'' # r)" "ends (CHR ''}'' # r)"
  by (simp_all add: ends_def is_digit_def Let_def)

lemma digit_char_code: "d < 10 \<Longrightarrow> (of_char (digit_char d) :: nat) = 48 + d"
  by (simp add: digit_char_def)

lemma nat_digits_digits: "list_all is_digit (nat_digits n) \<and> nat_digits n \<noteq> []"
proof (induction n rule: nat_digits.induct)
  case (1 n)
  have d: "is_digit (digit_char (n mod 10))" by (simp add: is_digit_def Let_def digit_char_code)
  show ?case
  proof (cases "n < 10")
    case True
    with d show ?thesis by (simp add: nat_digits.simps)
  next
    case False
    then show ?thesis using 1 d by (simp add: nat_digits.simps [of n])
  qed
qed

lemma digits_value_digits: "digits_value (nat_digits n) = n"
proof (induction n rule: nat_digits.induct)
  case (1 n)
  then show ?case by (subst nat_digits.simps) (simp add: digits_value_def digit_char_code)
qed

lemma nat_digits_lead: "0 < n \<Longrightarrow> hd (nat_digits n) \<noteq> CHR ''0''"
proof (induction n rule: nat_digits.induct)
  case (1 n)
  show ?case
  proof (cases "n < 10")
    case True
    have "hd (nat_digits n) = digit_char n" using True by (simp add: nat_digits.simps)
    moreover have "(of_char (digit_char n) :: nat) = 48 + n" using True by (rule digit_char_code)
    ultimately show ?thesis using 1(2) by auto
  next
    case False
    have "nat_digits (n div 10) \<noteq> []" using nat_digits_digits by blast
    with 1(1) [OF False] False show ?thesis by (simp add: nat_digits.simps [of n])
  qed
qed

lemma digits_split:
  assumes "ends r"
  shows "takeWhile is_digit (nat_digits n @ r) = nat_digits n" "dropWhile is_digit (nat_digits n @ r) = r"
proof -
  have "takeWhile is_digit r = []" "dropWhile is_digit r = r" using assms by (auto simp: ends_def split: list.splits)
  then show "takeWhile is_digit (nat_digits n @ r) = nat_digits n" "dropWhile is_digit (nat_digits n @ r) = r"
    using nat_digits_digits [of n] by (simp_all add: takeWhile_append dropWhile_append list_all_iff)
qed

lemma json_number_run:
  assumes sign: "(case s of [] \<Rightarrow> (False, s) | c # t \<Rightarrow> if c = CHR ''-'' then (True, t) else (False, s)) = (neg, s1)"
    and ds: "takeWhile is_digit s1 = ds" "dropWhile is_digit s1 = r" "ds \<noteq> []" "hd ds = CHR ''0'' \<Longrightarrow> length ds \<le> 1"
    and r: "ends r" and i: "i = (if neg then - int (digits_value ds) else int (digits_value ds))" "\<bar>i\<bar> \<le> max_safe_integer"
  shows "json_number s = Some (J_num i, r)"
proof -
  have lead: "(ds = [] \<or> (hd ds = CHR ''0'' \<and> length ds > 1)) = False" using ds(3,4) by auto
  show ?thesis
  proof (cases r)
    case Nil
    then show ?thesis using i unfolding json_number_def sign Let_def prod.case ds(1,2) lead if_False Nil list.case by simp
  next
    case (Cons c t)
    then have "c \<noteq> CHR ''.''" "c \<noteq> CHR ''e''" "c \<noteq> CHR ''E''" using r by (simp_all add: ends_def)
    then show ?thesis using i unfolding json_number_def sign Let_def prod.case ds(1,2) lead if_False Cons list.case by simp
  qed
qed

lemma json_number_digits:
  assumes "ends r" and "\<bar>i\<bar> \<le> max_safe_integer"
  shows "json_number (int_digits i @ r) = Some (J_num i, r)"
proof -
  let ?ds = "nat_digits (nat \<bar>i\<bar>)"
  have ne: "?ds \<noteq> []" and d: "is_digit (hd ?ds)" using nat_digits_digits [of "nat \<bar>i\<bar>"] by (auto simp: list_all_iff)
  have lead: "length ?ds \<le> 1" if "hd ?ds = CHR ''0''" using that nat_digits_lead [of "nat \<bar>i\<bar>"]
    by (cases "i = 0") (simp_all add: nat_digits.simps)
  have "hd ?ds \<noteq> CHR ''-''" using d by (auto simp: is_digit_def)
  then obtain c t where ds: "?ds = c # t" "c \<noteq> CHR ''-''" using ne by (cases ?ds) auto
  have sign: "(case int_digits i @ r of [] \<Rightarrow> (False, int_digits i @ r)
      | c # t \<Rightarrow> if c = CHR ''-'' then (True, t) else (False, int_digits i @ r)) = (i < 0, ?ds @ r)"
    using ds by (auto simp: int_digits_def)
  show ?thesis
    by (rule json_number_run [OF sign digits_split [OF assms(1)] ne lead assms(1) _ assms(2)]) (simp_all add: digits_value_digits)
qed

section \<open>Values\<close>

text \<open>The values \<open>JSON.stringify\<close> prints and \<open>JSON.parse\<close> reads back: distinct keys, safe integers.\<close>

fun json_ok :: "jsv \<Rightarrow> bool" where
  "json_ok J_undefined = False"
| "json_ok J_null = True"
| "json_ok (J_bool b) = True"
| "json_ok (J_num i) = (\<bar>i\<bar> \<le> max_safe_integer)"
| "json_ok (J_frac s) = False"
| "json_ok (J_str s) = True"
| "json_ok (J_arr xs) = list_all json_ok xs"
| "json_ok (J_obj fs) = (distinct (map fst fs) \<and> list_all (\<lambda>(k, v). json_ok v) fs)"

text \<open>A printed value starts with a character that tells its kind.\<close>

definition reads :: "jsv \<Rightarrow> bool" where
  "reads v \<longleftrightarrow> (\<forall>n r. length (json_text v) \<le> n \<longrightarrow> ends r \<longrightarrow> json_value (Suc n) (json_text v @ r) = Some (v, r))"

lemma readsD: "reads v \<Longrightarrow> length (json_text v) < n \<Longrightarrow> ends r \<Longrightarrow> json_value n (json_text v @ r) = Some (v, r)"
  by (cases n) (simp_all add: reads_def)

lemma skip_space_Cons: "\<not> is_json_space c \<Longrightarrow> skip_space (c # t) = c # t"
  by (simp add: skip_space_def)

lemma space_simps [simp]: "\<not> is_json_space CHR '']''" "\<not> is_json_space CHR '',''" "\<not> is_json_space CHR ''}''"
  "\<not> is_json_space CHR '':''" "\<not> is_json_space (char_of (34::nat))" "\<not> is_json_space CHR ''{''" "\<not> is_json_space CHR ''[''"
  by (simp_all add: is_json_space_def)

lemma quote_simps [simp]: "char_of (34::nat) \<noteq> CHR ''{''" "char_of (34::nat) \<noteq> CHR ''[''" "char_of (34::nat) \<noteq> CHR '']''"
  "char_of (34::nat) \<noteq> CHR ''}''"
  by (simp_all add: char_of_def)

lemma reads_elements:
  assumes "list_all reads xs" and "xs \<noteq> []" and "Suc (length (join_comma (map json_text xs))) < n"
  shows "json_elements n (join_comma (map json_text xs) @ CHR '']'' # r) = Some (xs, r)"
  using assms
proof (induction xs arbitrary: n)
  case Nil
  then show ?case by simp
next
  case step: (Cons x xs)
  obtain m where n: "n = Suc m" using step.prems(3) by (cases n) auto
  show ?case
  proof (cases xs)
    case Nil
    have "json_value m (json_text x @ CHR '']'' # r) = Some (x, CHR '']'' # r)"
      using step.prems by (intro readsD) (simp_all add: Nil n)
    then show ?thesis by (simp add: n Nil skip_space_Cons)
  next
    case (Cons y ys)
    let ?t = "join_comma (map json_text xs) @ CHR '']'' # r"
    have "json_value m (json_text x @ CHR '','' # ?t) = Some (x, CHR '','' # ?t)"
      using step.prems by (intro readsD) (simp_all add: n Cons)
    moreover have "json_elements m ?t = Some (xs, r)"
      by (rule step.IH) (use step.prems in \<open>simp_all add: n Cons\<close>)
    ultimately show ?thesis by (simp add: n Cons skip_space_Cons)
  qed
qed

abbreviation member_text :: "string \<times> jsv \<Rightarrow> string" where
  "member_text \<equiv> \<lambda>(k, v). json_quote k @ '':'' @ json_text v"

lemma reads_members:
  assumes "list_all (\<lambda>(_, v). reads v) fs" and "fs \<noteq> []" and "Suc (length (join_comma (map member_text fs))) < n"
    and "distinct (map fst (acc @ fs))"
  shows "json_members n acc (join_comma (map member_text fs) @ CHR ''}'' # r) = Some (acc @ fs, r)"
  using assms
proof (induction fs arbitrary: n acc)
  case Nil
  then show ?case by simp
next
  case step: (Cons p fs)
  obtain k v where p: "p = (k, v)" by (cases p)
  obtain m where n: "n = Suc m" using step.prems(3) by (cases n) auto
  have new: "jset k v acc = acc @ [(k, v)]" by (rule jset_new) (use step.prems(4) in \<open>auto simp: p map_of_eq_None_iff\<close>)
  have key: "json_quote k @ t = char_of (34::nat) # (concat (map json_char k) @ char_of (34::nat) # t)" for t
    by (simp add: json_quote_def)
  show ?case
  proof (cases fs)
    case Nil
    have "json_value m (json_text v @ CHR ''}'' # r) = Some (v, CHR ''}'' # r)"
      using step.prems by (intro readsD) (simp_all add: Nil n p)
    then show ?thesis by (simp add: n p Nil key skip_space_Cons string_rest_quote new)
  next
    case (Cons q fs')
    let ?t = "join_comma (map member_text fs) @ CHR ''}'' # r"
    have "json_value m (json_text v @ CHR '','' # ?t) = Some (v, CHR '','' # ?t)"
      using step.prems by (intro readsD) (simp_all add: n p Cons)
    moreover have "json_members m (acc @ [(k, v)]) ?t = Some ((acc @ [(k, v)]) @ fs, r)"
      by (rule step.IH) (use step.prems in \<open>simp_all add: n p Cons\<close>)
    moreover have "join_comma (map member_text (p # fs)) = json_quote k @ '':'' @ json_text v @ '','' @ join_comma (map member_text fs)"
      by (simp add: p Cons)
    ultimately show ?thesis by (simp add: n key skip_space_Cons string_rest_quote new p)
  qed
qed

lemma int_digits_start: "\<exists>c t. int_digits i = c # t \<and> (is_digit c \<or> c = CHR ''-'')"
proof -
  obtain c t where "nat_digits (nat \<bar>i\<bar>) = c # t" "is_digit c"
    using nat_digits_digits [of "nat \<bar>i\<bar>"] by (cases "nat_digits (nat \<bar>i\<bar>)") auto
  then show ?thesis by (auto simp: int_digits_def)
qed

lemma reads_number: "\<bar>i\<bar> \<le> max_safe_integer \<Longrightarrow> reads (J_num i)"
proof (unfold reads_def, intro allI impI)
  fix n r assume i: "\<bar>i\<bar> \<le> max_safe_integer" and r: "ends r"
  obtain c t where ct: "int_digits i = c # t" and c: "is_digit c \<or> c = CHR ''-''" using int_digits_start by blast
  have "(of_char c :: nat) = 45 \<or> 48 \<le> (of_char c :: nat) \<and> (of_char c :: nat) \<le> 57" using c by (auto simp: is_digit_def Let_def)
  then have no: "\<not> is_json_space c" "c \<noteq> CHR ''{''" "c \<noteq> CHR ''[''" "(of_char c :: nat) \<noteq> 34" "c \<noteq> CHR ''t''" "c \<noteq> CHR ''f''" "c \<noteq> CHR ''n''"
    by (auto simp: is_json_space_def)
  have "json_value (Suc n) (c # (t @ r)) = json_number (c # (t @ r))"
    using no by (simp add: skip_space_Cons starts_def)
  then show "json_value (Suc n) (json_text (J_num i) @ r) = Some (J_num i, r)"
    using json_number_digits [OF r i] by (simp add: ct)
qed

lemma first_element: "json_ok x \<Longrightarrow> \<exists>c t. json_text x = c # t \<and> \<not> is_json_space c \<and> c \<noteq> CHR '']''"
proof (cases x)
  case (J_num i)
  obtain c t where "int_digits i = c # t" "is_digit c \<or> c = CHR ''-''" using int_digits_start by blast
  moreover from this have "\<not> is_json_space c" "c \<noteq> CHR '']''" by (auto simp: is_digit_def is_json_space_def Let_def)
  ultimately show ?thesis using J_num by simp
qed (auto simp: json_quote_def is_json_space_def)

lemma json_ok_reads: "json_ok v \<Longrightarrow> reads v"
proof (induction v rule: json_text.induct)
  case 1
  then show ?case by simp
next
  case 2
  show ?case by (simp add: reads_def skip_space_Cons starts_def is_json_space_def)
next
  case (3 b)
  show ?case by (cases b) (simp_all add: reads_def skip_space_Cons starts_def is_json_space_def)
next
  case (4 i)
  then show ?case by (simp add: reads_number)
next
  case (5 s)
  then show ?case by simp
next
  case (6 s)
  show ?case by (simp add: reads_def json_quote_def skip_space_Cons string_rest_quote)
next
  case (7 xs)
  have all: "list_all reads xs" using 7 by (simp add: list_all_iff)
  show ?case
  proof (cases xs)
    case Nil
    show ?thesis by (simp add: Nil reads_def skip_space_Cons)
  next
    case (Cons y ys)
    obtain c t where y: "json_text y = c # t" "\<not> is_json_space c" "c \<noteq> CHR '']''" using first_element [of y] 7(2) by (auto simp: Cons)
    have start: "\<exists>u. join_comma (map json_text xs) = c # u" using y(1) by (cases ys) (simp_all add: Cons)
    show ?thesis
    proof (unfold reads_def, intro allI impI)
      fix n r assume "length (json_text (J_arr xs)) \<le> n"
      then have "json_elements n (join_comma (map json_text xs) @ CHR '']'' # r) = Some (xs, r)"
        using all Cons by (intro reads_elements) auto
      then show "json_value (Suc n) (json_text (J_arr xs) @ r) = Some (J_arr xs, r)"
        using start y(2,3) by (auto simp: skip_space_Cons)
    qed
  qed
next
  case (8 fs)
  have all: "list_all (\<lambda>(_, v). reads v) fs" using 8 by (fastforce simp: list_all_iff)
  show ?case
  proof (cases fs)
    case Nil
    show ?thesis by (simp add: Nil reads_def skip_space_Cons)
  next
    case (Cons p gs)
    have start: "\<exists>u. join_comma (map member_text fs) = char_of (34::nat) # u"
      by (cases p; cases gs) (simp_all add: Cons json_quote_def)
    show ?thesis
    proof (unfold reads_def, intro allI impI)
      fix n r assume "length (json_text (J_obj fs)) \<le> n"
      then have "json_members n [] (join_comma (map member_text fs) @ CHR ''}'' # r) = Some ([] @ fs, r)"
        using all Cons 8(2) by (intro reads_members) auto
      then show "json_value (Suc n) (json_text (J_obj fs) @ r) = Some (J_obj fs, r)"
        using start by (auto simp: skip_space_Cons)
    qed
  qed
qed

lemma json_parse_text: "json_ok v \<Longrightarrow> json_parse (json_text v) = Some v"
  using readsD [OF json_ok_reads, of v "Suc (length (json_text v))" "[]"] by (simp add: json_parse_def skip_space_def)

section \<open>Strict envelopes\<close>

lemma json_ok_record:
  assumes "same_keys v ks" and "distinct ks" and "\<And>k. k \<in> set ks \<Longrightarrow> json_ok (field_of v k)"
  shows "json_ok v"
proof -
  obtain fs where v: "v = J_obj fs" and ks: "map fst fs = ks" using assms(1) by (auto simp: same_keys_def split: jsv.splits)
  have "json_ok x" if "(k, x) \<in> set fs" for k x
  proof -
    have "field_of v k = x" using that assms(2) by (simp add: field_of_def v ks flip: ks)
    moreover have "k \<in> set ks" using that by (force simp flip: ks)
    ultimately show ?thesis using assms(3) by metis
  qed
  with assms(2) show ?thesis by (auto simp: v ks list_all_iff)
qed

lemma json_ok_shapes:
  "bounded_text v n \<Longrightarrow> json_ok v" "bounded_relay_id v \<Longrightarrow> json_ok v" "is_safe_nat v \<Longrightarrow> json_ok v"
  by (cases v; simp add: bounded_text_def bounded_relay_id_def is_safe_nat_def)+

lemma json_ok_bytes:
  assumes "byte_array v lo hi"
  shows "json_ok v"
proof -
  have byte: "json_ok x" if "case x of J_num i \<Rightarrow> 0 \<le> i \<and> i \<le> 255 | _ \<Rightarrow> False" for x
    using that by (cases x) (simp_all add: max_safe_integer_def)
  show ?thesis
  proof (cases v)
    case (J_arr xs)
    have "list_all json_ok xs" using assms unfolding byte_array_def J_arr by (auto simp: list_all_iff intro: byte)
    then show ?thesis by (simp add: J_arr)
  qed (use assms in \<open>simp_all add: byte_array_def\<close>)
qed

lemma json_ok_string_test: "(case v of J_str h \<Rightarrow> P h | _ \<Rightarrow> False) \<Longrightarrow> json_ok v"
  by (cases v) simp_all

lemma strict_binding_fields:
  assumes s: "is_strict_invite_binding date_of b"
  shows "list_all (\<lambda>k. json_ok (field_of b k)) directed_invite_binding_keys"
proof -
  note s' = s [unfolded is_strict_invite_binding_def valid_invite_cryptographic_binding_def valid_invite_participants_def]
  have "json_ok (field_of b ''inviteId'')" "json_ok (field_of b ''requestId'')" "json_ok (field_of b ''requesterUserId'')"
    "json_ok (field_of b ''requesterDeviceId'')" "json_ok (field_of b ''hostUserId'')" "json_ok (field_of b ''hostDeviceId'')"
    using s' by (blast intro: json_ok_shapes(1))+
  moreover have "json_ok (field_of b ''teamId'')" "json_ok (field_of b ''roomId'')" using s' by (blast intro: json_ok_shapes(2))+
  moreover have "json_ok (field_of b ''keyEpoch'')" using s' by (blast intro: json_ok_shapes(3))
  moreover have "json_ok (field_of b ''keyPackageHash'')" "json_ok (field_of b ''requestNonce'')" "json_ok (field_of b ''expiresAt'')"
    using s' by (blast intro: json_ok_string_test)+
  moreover have "field_of b ''version'' = J_num 3" "field_of b ''phase'' = J_str ''request''" "field_of b ''status'' = J_null"
    "field_of b ''decidedAt'' = J_null"
    using s' by blast+
  ultimately show ?thesis by (simp add: directed_invite_binding_keys_def max_safe_integer_def)
qed

lemma strict_binding_ok:
  assumes s: "is_strict_invite_binding date_of b"
  shows "json_ok b"
proof (rule json_ok_record)
  show "same_keys b directed_invite_binding_keys" using s by (simp add: is_strict_invite_binding_def)
  show "distinct directed_invite_binding_keys" by (simp add: directed_invite_binding_keys_def)
  show "json_ok (field_of b k)" if "k \<in> set directed_invite_binding_keys" for k
    using strict_binding_fields [OF s] that by (simp add: list_all_iff)
qed

lemma strict_sealed_ok:
  assumes s: "strict_hpke_sealed_object v"
  shows "json_ok v"
proof -
  have "json_ok (field_of v ''encapsulated_key'')" "json_ok (field_of v ''ciphertext'')"
    using s unfolding strict_hpke_sealed_object_def by (blast intro: json_ok_bytes)+
  moreover have "same_keys v [''version'', ''kem_id'', ''kdf_id'', ''aead_id'', ''encapsulated_key'', ''ciphertext'']"
    "field_of v ''version'' = J_num 1" "field_of v ''kem_id'' = J_num 16" "field_of v ''kdf_id'' = J_num 1"
    "field_of v ''aead_id'' = J_num 1"
    using s unfolding strict_hpke_sealed_object_def by blast+
  ultimately show ?thesis
    by (elim json_ok_record) (auto simp: max_safe_integer_def)
qed

lemma strict_envelope_ok:
  assumes "is_strict_invite_envelope p" and "is_strict_invite_binding date_of (field_of p ''binding'')"
    and "strict_hpke_sealed_object (field_of p ''sealedPayload'')"
  shows "json_ok p"
proof (rule json_ok_record)
  show "same_keys p [''version'', ''binding'', ''sealedPayload'']" "distinct [''version'', ''binding'', ''sealedPayload'']"
    using assms(1) by (simp_all add: is_strict_invite_envelope_def)
  have "field_of p ''version'' = J_num 3" using assms(1) by (simp add: is_strict_invite_envelope_def)
  then show "json_ok (field_of p k)" if "k \<in> set [''version'', ''binding'', ''sealedPayload'']" for k
    using that strict_binding_ok [OF assms(2)] strict_sealed_ok [OF assms(3)] by (auto simp: max_safe_integer_def)
qed

lemma strict_request_accepted:
  assumes "is_strict_invite_envelope p" and "is_strict_invite_binding date_of (field_of p ''binding'')"
    and "strict_hpke_sealed_object (field_of p ''sealedPayload'')"
    and "2 \<le> length (json_text p)" and "length (json_text p) \<le> n" and "\<not> has_control (json_text p)"
  shows "parse_strict_directed_invite_request date_of (J_str (json_text p)) n = Some (binding_of (field_of p ''binding''))"
  using assms strict_envelope_ok [OF assms(1-3)] by (simp add: parse_strict_directed_invite_request_def json_parse_text)

text \<open>
  C13: The strict parser of directed requests accepts a text exactly when it is the canonical JSON
  text of an envelope of the one allowed shape, within the length limit and free of control
  characters, and it returns the binding of that envelope. In particular whatever a client may
  vary in a JSON text (white space, escapes, number forms, the order or repetition of keys) makes
  the text unacceptable, and no canonical envelope is refused.
\<close>

theorem strict_request_is_canonical:
  "parse_strict_directed_invite_request date_of (J_str s) n = Some b \<longleftrightarrow>
     (\<exists>p. s = json_text p \<and> 2 \<le> length s \<and> length s \<le> n \<and> \<not> has_control s
        \<and> is_strict_invite_envelope p \<and> is_strict_invite_binding date_of (field_of p ''binding'')
        \<and> strict_hpke_sealed_object (field_of p ''sealedPayload'') \<and> b = binding_of (field_of p ''binding''))"
    (is "?parsed \<longleftrightarrow> ?canonical")
proof
  assume ?parsed
  then show ?canonical by (auto simp: parse_strict_directed_invite_request_def not_less split: if_splits option.splits)
next
  assume ?canonical
  then show ?parsed using strict_request_accepted [of _ date_of n] by blast
qed

end
