(* ===== verification/Flow_Samples.thy ===== *)
theory Flow_Samples
  imports Live_Witnesses Key_Package_Proofs Directed_Invite_Proofs
begin

text \<open>
  The sample store for invites and KeyPackages: Cid, who is no member, asks to join Ann's room
  with a KeyPackage of his device; Ann's device consumes the package, publishes the response and
  Cid acknowledges it.
\<close>

definition flow_env :: env where
  "flow_env = live_env\<lparr>en_sha256 := (\<lambda>_. replicate 64 CHR ''0'')\<rparr>"

definition flow_config :: config where
  "flow_config = sample_config\<lparr>cf_env := flow_env, cf_stamp := (\<lambda>t. Other_stamp t (Some 50000))\<rparr>"

definition cid_hash :: string where
  "cid_hash = ''sha256:'' @ replicate 64 CHR ''0''"

definition cid_binding :: "jsv" where
  "cid_binding = J_obj [(''version'', J_num 3), (''phase'', J_str ''request''), (''inviteId'', J_str ''invite_1''),
     (''teamId'', J_str ''team''), (''roomId'', J_str ''room''), (''keyEpoch'', J_num 2), (''keyPackageHash'', J_str cid_hash),
     (''requestId'', J_str ''request''), (''requestNonce'', J_str ''nonce-0123456789''), (''requesterUserId'', J_str ''cid''),
     (''requesterDeviceId'', J_str ''cid-device''), (''hostUserId'', J_str ''ann''), (''hostDeviceId'', J_str ''ann-device''),
     (''expiresAt'', J_str ''later''), (''status'', J_null), (''decidedAt'', J_null)]"

definition cid_envelope :: jsv where
  "cid_envelope = J_obj [(''version'', J_num 3), (''binding'', cid_binding),
     (''sealedPayload'', J_obj [(''version'', J_num 1), (''kem_id'', J_num 16), (''kdf_id'', J_num 1), (''aead_id'', J_num 1),
        (''encapsulated_key'', J_arr (replicate 65 (J_num 4))), (''ciphertext'', J_arr (replicate 16 (J_num 7)))])]"

lemma cid_parse: "parse_strict_directed_invite_request (date_of flow_config) (J_str (json_text cid_envelope)) max_opaque_chars
   = Some (binding_of cid_binding)"
proof -
  have "field_of cid_envelope ''binding'' = cid_binding" by (simp add: field_of_def cid_envelope_def)
  moreover have "is_strict_invite_envelope cid_envelope" by code_simp
  moreover have "is_strict_invite_binding (date_of flow_config) cid_binding" by code_simp
  moreover have "strict_hpke_sealed_object (field_of cid_envelope ''sealedPayload'')"
    by (simp add: strict_hpke_sealed_object_def cid_envelope_def field_of_def same_keys_def byte_array_def list_all_iff)
  moreover have "\<not> has_control (json_text cid_envelope)" by code_simp
  moreover have "2 \<le> length (json_text cid_envelope) \<and> length (json_text cid_envelope) \<le> 1000" by code_simp
  ultimately show ?thesis using strict_request_accepted [of cid_envelope "date_of flow_config" max_opaque_chars]
    by (simp add: max_opaque_chars_def)
qed

definition cid_device :: device where
  "cid_device = sample_device ''cid'' ''cid-device''"

definition cid_package :: key_package where
  "cid_package = \<lparr>k_id = ''package'', k_package = ''QUJD'', k_hash = cid_hash, k_user = ''cid'', k_device = ''cid-device'',
     k_identity = ''cid:cid-device'', k_created = Iso 1\<rparr>"

definition room_invite :: invite where
  "room_invite = \<lparr>i_id = ''invite_1'', i_team = ''team'', i_room = ''room'', i_creator = Some ''ann'', i_user = None, i_device = None,
     i_kp_hash = None, i_created = Iso 1, i_expires = Some (Other_stamp ''later'' (Some 50000))\<rparr>"

definition cid_request :: "string \<Rightarrow> invite_request" where
  "cid_request sealed = \<lparr>q_id = ''request'', q_invite = ''invite_1'', q_user = ''cid'', q_device = ''cid-device'', q_kp_id = ''package'',
     q_kp_hash = cid_hash, q_sealed = sealed, q_created = Iso 2\<rparr>"

definition cid_response_binding :: response_binding where
  "cid_response_binding = \<lparr>b_invite = ''invite_1'', b_team = ''team'', b_room = ''room'', b_epoch = 2, b_kp_hash = cid_hash,
     b_request = ''request'', b_nonce = ''nonce-0123456789'', b_user = ''cid'', b_device = ''cid-device'', b_host_user = ''ann'',
     b_host_device = ''ann-device'', b_expires = Other_stamp ''later'' (Some 50000), b_status = Approved,
     b_decided = Other_stamp ''now'' (Some 50000)\<rparr>"

definition cid_response :: invite_response where
  "cid_response = \<lparr>s_request = ''request'', s_invite = ''invite_1'', s_user = ''cid'', s_device = ''cid-device'', s_kp_hash = cid_hash,
     s_status = Approved, s_binding = cid_response_binding, s_mac = ''QUJD'', s_welcome = Some ''QUJD'', s_created = Iso 5\<rparr>"

text \<open>The store when the request has come in, when the package is consumed, and when the response is out.\<close>

definition asking_store :: "string \<Rightarrow> relay_store" where
  "asking_store sealed =
     (state_of (dm_set request_map ''request'' (cid_request sealed)
        (state_of (dm_set key_package_map ''package'' cid_package
        (state_of (dm_set invite_map ''invite_1'' room_invite
        (state_of (set_device cid_device
        (state_of (dm_set auth_map ''cid'' (sample_auth ''cid'')
        (state_of (dm_set auth_map ''ann'' (sample_auth ''ann'') sample_store))))))))))))
      \<lparr>deviceSessions := [(''tok'', \<lparr>ds_token = ''tok'', ds_user = ''ann'', ds_device = ''ann-device'', ds_expires = 90000\<rparr>),
        (''tok2'', \<lparr>ds_token = ''tok2'', ds_user = ''cid'', ds_device = ''cid-device'', ds_expires = 90000\<rparr>)]\<rparr>"

definition approved_store :: "string \<Rightarrow> relay_store" where
  "approved_store sealed = state_of (set_invite (approved_invite room_invite cid_package) (dm_delete key_package_map ''package'' (asking_store sealed)))"

definition response_store :: "string \<Rightarrow> relay_store" where
  "response_store sealed = state_of (dm_set response_map ''request'' cid_response (dm_delete request_map ''request'' (approved_store sealed)))"

lemma asking_ok: "store_ok (asking_store sealed)"
  by (simp add: asking_store_def Let_def set_device_def request_tm.dm_set_ok key_package_tm.dm_set_ok invite_tm.dm_set_ok
      device_tm.dm_set_ok auth_tm.dm_set_ok sample_store_ok)

lemma response_ok: "store_ok (response_store sealed)"
  by (simp add: response_store_def approved_store_def set_invite_def request_tm.dm_delete_ok key_package_tm.dm_delete_ok
      invite_tm.dm_set_ok response_tm.dm_set_ok asking_ok)

end
