(* ===== verification/Invite_Witnesses.thy ===== *)
theory Invite_Witnesses
  imports Flow_Samples
begin

text \<open>The properties of invites, applied to the sample store.\<close>

definition ack_body :: jsv where "ack_body = J_obj [(''requesterDeviceId'', J_str ''cid-device'')]"

abbreviation cid_acknowledges :: "string \<Rightarrow> unit reply \<times> live" where
  "cid_acknowledges sealed \<equiv> acknowledge_invite flow_env 10 True (Some (sample_auth ''cid'')) (Some ''tok2'') ''invite_1'' ''request'' ack_body
     (fresh_live (response_store sealed))"

lemma cid_admitted: "has_team_member (lv_store (snd (cid_acknowledges sealed))) ''team'' ''cid''"
  by code_simp

lemma cid_answered: "fst (cid_acknowledges sealed) = Reply 204 ()"
  by code_simp

lemma response_store_facts:
  "\<not> has_team_member (response_store sealed) ''team'' ''cid''" "jget (inviteResponses (response_store sealed)) ''request'' = Some cid_response"
  "inviteAckReceipts (response_store sealed) = []"
  by code_simp+

lemma ack_admits_only_the_approved_witness:
  "\<exists>i. jget (invites (response_store [])) ''invite_1'' = Some i \<and> i_user i = Some ''cid'' \<and> i_kp_hash i = Some (s_kp_hash cid_response)"
proof -
  have run: "cid_acknowledges [] = (Reply 204 (), snd (cid_acknowledges []))" using cid_answered by (metis prod.collapse)
  have "\<not> has_team_member (lv_store (fresh_live (response_store []))) ''team'' ''cid''"
    using response_store_facts(1) by (simp add: fresh_live_def)
  from ack_admits_only_the_approved [OF run cid_admitted this] show ?thesis
    using response_store_facts(2) by (auto simp: fresh_live_def)
qed

lemma acknowledged_invite_is_consumed_witness:
  "jget (invites (lv_store (snd (cid_acknowledges [])))) ''invite_1'' = None
     \<and> length (inviteAckReceipts (lv_store (snd (cid_acknowledges [])))) \<le> 4096"
proof -
  have run: "cid_acknowledges [] = (Reply 204 (), snd (cid_acknowledges []))" using cid_answered by (metis prod.collapse)
  have s: "lv_store (fresh_live x) = x" for x by (simp add: fresh_live_def)
  have "s_request cid_response = ''request''" by (simp add: cid_response_def)
  from acknowledged_invite_is_consumed [OF _ _ this _ _ run, of True] show ?thesis
    by (simp add: s response_ok response_store_facts)
qed

section \<open>Creating and revoking\<close>

abbreviation ann_invites :: "invite reply \<times> live" where
  "ann_invites \<equiv> create_invite sample_config 5 True ''new'' (Some (sample_auth ''ann''))
     (J_obj [(''teamId'', J_str ''team''), (''roomId'', J_str ''room'')]) (fresh_live (asking_store []))"

lemma created_invites_stay_within_quota_witness:
  "length (live_invites_of (lv_store (snd ann_invites)) ''ann'' 5) \<le> 20"
proof -
  have ok: "\<not> is_error (fst ann_invites)" by code_simp
  have "jget (invites (lv_store (fresh_live (asking_store [])))) (''invite_'' @ ''new'') = None" by code_simp
  moreover have "session_user_of (sample_auth ''ann'') = ''ann''" "cf_invite_cap sample_config = 20"
    by (simp_all add: session_user_of_def sample_auth_def sample_config_def)
  ultimately show ?thesis using created_invites_stay_within_quota [OF _ prod.collapse [symmetric]] ok by metis
qed

abbreviation ann_revokes :: "nat reply \<times> live" where
  "ann_revokes \<equiv> revoke_invites flow_env True (Some (sample_auth ''ann'')) ''team'' ''room'' (fresh_live (asking_store []))"

lemma revoked_invites_leave_nothing_witness:
  "store_ok (lv_store (snd ann_revokes)) \<and> jget (invites (lv_store (snd ann_revokes))) ''invite_1'' = None"
proof -
  have run: "ann_revokes = (Reply 200 1, snd ann_revokes)"
  proof -
    have "fst ann_revokes = Reply 200 1" by code_simp
    then show ?thesis by (metis prod.collapse)
  qed
  have s: "lv_store (fresh_live x) = x" for x by (simp add: fresh_live_def)
  have i: "invites (asking_store []) = [(''invite_1'', room_invite)]" by code_simp
  have r: "i_team room_invite = ''team''" "i_room room_invite = ''room''" by (simp_all add: room_invite_def)
  from revoked_invites_leave_nothing [OF _ run] have
    d: "store_data (lv_store (snd ann_revokes)) = (store_data (asking_store []))\<lparr>invites := [],
      inviteRequests := jwhere (\<lambda>_ q. \<not> q_invite q = ''invite_1'') (inviteRequests (asking_store [])),
      inviteResponses := jwhere (\<lambda>_ x. \<not> s_invite x = ''invite_1'') (inviteResponses (asking_store [])),
      inviteAckReceipts := jwhere (\<lambda>_ x. \<not> ar_invite x = ''invite_1'') (inviteAckReceipts (asking_store []))\<rparr>"
    and ok: "store_ok (lv_store (snd ann_revokes))"
    by (simp_all add: s asking_ok i r jwhere_def)
  have "invites (lv_store (snd ann_revokes)) = invites (store_data (lv_store (snd ann_revokes)))" by (simp add: store_data_def)
  also have "... = []" unfolding d by simp
  finally show ?thesis using ok by simp
qed

section \<open>Publishing the response\<close>

definition response_body :: jsv where
  "response_body = J_obj [(''hostDeviceId'', J_str ''ann-device''), (''requestId'', J_str ''request''), (''status'', J_str ''approved''),
     (''responseBinding'', J_obj [(''version'', J_num 3), (''phase'', J_str ''response''), (''inviteId'', J_str ''invite_1''),
        (''teamId'', J_str ''team''), (''roomId'', J_str ''room''), (''keyEpoch'', J_num 2), (''keyPackageHash'', J_str cid_hash),
        (''requestId'', J_str ''request''), (''requestNonce'', J_str ''nonce-0123456789''), (''requesterUserId'', J_str ''cid''),
        (''requesterDeviceId'', J_str ''cid-device''), (''hostUserId'', J_str ''ann''), (''hostDeviceId'', J_str ''ann-device''),
        (''expiresAt'', J_str ''later''), (''status'', J_str ''approved''), (''decidedAt'', J_str ''now'')]),
     (''responseMac'', J_str ''QUJD''), (''welcome'', J_str ''QUJD'')]"

lemma response_body_fields [simp]:
  "field_of response_body ''status'' = J_str ''approved''" "field_of response_body ''requestId'' = J_str ''request''"
  "field_of response_body ''hostDeviceId'' = J_str ''ann-device''" "field_of response_body ''responseMac'' = J_str ''QUJD''"
  "invite_response_welcome response_body = Some ''QUJD''"
  by (simp_all add: response_body_def field_of_def invite_response_welcome_def)

abbreviation joined_invite :: invite where
  "joined_invite \<equiv> approved_invite room_invite cid_package"

lemma approved_store_facts:
  "jget (invites (approved_store sealed)) ''invite_1'' = Some joined_invite"
  "jget (rooms (approved_store sealed)) ''room'' = Some sample_room"
  "jget (inviteRequests (approved_store sealed)) ''request'' = Some (cid_request sealed)"
  "jget (inviteResponses (approved_store sealed)) ''request'' = None"
  "jget (deviceSessions (approved_store sealed)) ''tok''
     = Some \<lparr>ds_token = ''tok'', ds_user = ''ann'', ds_device = ''ann-device'', ds_expires = 90000\<rparr>"
  by code_simp+

lemma response_prepared:
  "prepare_invite_response flow_config 10 ''invite_1'' response_body (Some (sample_auth ''ann'')) (Some ''tok'') (fresh_live (approved_store sealed))
     = (Inr (joined_invite, sample_room, cid_request sealed, ''ann''), fresh_live (approved_store sealed))"
proof -
  have s: "lv_store (fresh_live x) = x" "(fresh_live x)\<lparr>lv_store := x\<rparr> = fresh_live x" for x by (simp_all add: fresh_live_def)
  have k: "has_exact_keys response_body (invite_response_keys (J_str ''approved''))" by code_simp
  have h: "is_active_invite_host (Some (sample_auth ''ann'')) (Some sample_room) ''ann-device''
      (is_active_invite_target (approved_store sealed) (Some joined_invite))" by code_simp
  have d: "device_of 10 (Some ''tok'') ''ann'' ''ann-device'' (fresh_live (approved_store sealed)) = (True, fresh_live (approved_store sealed))"
    by (simp add: device_of_def has_device_session_def s approved_store_facts)
  have e: "\<not> invite_is_expired 10 joined_invite" by code_simp
  have a: "is_approved_invite_request joined_invite (cid_request sealed) \<and> q_invite (cid_request sealed) = i_id joined_invite
      \<and> i_room joined_invite = ''room'' \<and> r_host_device sample_room = Some ''ann-device'' \<and> session_user_of (sample_auth ''ann'') = ''ann''"
    by code_simp
  have "is_canonical_base64 ''QUJD'' 128" by code_simp
  then have b: "is_canonical_base64 ''QUJD'' max_opaque_chars" by (simp add: is_canonical_base64_def max_opaque_chars_def)
  have p: "invite_response_precondition_error joined_invite (Some (cid_request sealed)) (J_str ''approved'') (Some ''QUJD'') = None"
    using a b by (simp add: invite_response_precondition_error_def)
  show ?thesis
    using k h a e by (simp add: prepare_invite_response_def s approved_store_facts d p string_or_empty_def Let_def)
qed

lemma response_parsed:
  "parse_invite_response flow_config 10 (cid_request sealed) (J_str ''approved'') (field_of response_body ''responseBinding'') (J_str ''QUJD'') (Some ''QUJD'')
     = Some (cid_response\<lparr>s_created := Iso 10\<rparr>)"
  by code_simp

lemma response_matches:
  "valid_invite_response_record flow_config 10 response_body (Some ''QUJD'') joined_invite (cid_request (json_text cid_envelope)) ''ann'' sample_room
     = Some (cid_response\<lparr>s_created := Iso 10\<rparr>)"
proof -
  have "is_canonical_base64 (s_mac (cid_response\<lparr>s_created := Iso 10\<rparr>)) 128" by code_simp
  moreover have "q_sealed (cid_request (json_text cid_envelope)) = json_text cid_envelope" by (simp add: cid_request_def)
  then have "invite_response_binding_matches flow_config (cid_response\<lparr>s_created := Iso 10\<rparr>) joined_invite
      (cid_request (json_text cid_envelope)) ''ann'' sample_room"
    by (simp add: invite_response_binding_matches_def cid_parse binding_of_def cid_binding_def field_of_def cid_response_def
        cid_response_binding_def cid_request_def approved_invite_def room_invite_def sample_room_def)
  ultimately show ?thesis by (simp add: valid_invite_response_record_def response_parsed)
qed

abbreviation ann_responds :: "(string \<times> string) reply \<times> live" where
  "ann_responds \<equiv> publish_invite_response flow_config 10 True (Some (sample_auth ''ann'')) (Some ''tok'') ''invite_1'' response_body
     (fresh_live (approved_store (json_text cid_envelope)))"

lemma ann_published: "\<exists>p l'. ann_responds = (Reply 201 p, l')"
proof -
  let ?r = "cid_response\<lparr>s_created := Iso 10\<rparr>" and ?q = "cid_request (json_text cid_envelope)"
  have saved: "is_done (save_invite_response True (cid_request sealed) ?r (fresh_live (approved_store sealed)))
     \<and> fst (state_of (save_invite_response True (cid_request sealed) ?r (fresh_live (approved_store sealed)))) = Persisted" for sealed
    by code_simp
  obtain l2 where "save_invite_response True ?q ?r (fresh_live (approved_store (json_text cid_envelope))) = Done (Persisted, l2)"
    using saved [of "json_text cid_envelope"]
    by (cases "save_invite_response True ?q ?r (fresh_live (approved_store (json_text cid_envelope)))") (auto simp: prod_eq_iff)
  moreover have "membership_commit_accepted_for_welcome ?r sample_room" by code_simp
  moreover have "response_body \<noteq> J_undefined" "response_body \<noteq> J_null" by (simp_all add: response_body_def)
  moreover have "allowed (cf_env flow_config) (Some (sample_auth ''ann''))" by code_simp
  ultimately show ?thesis
    by (simp add: publish_invite_response_def response_prepared response_matches after_persist_def)
qed

lemma published_response_is_bound_witness:
  "\<exists>l' r. jget (inviteResponses (lv_store l')) ''request'' = Some r \<and> b_nonce (s_binding r) = rb_nonce (binding_of cid_binding)
     \<and> snd ann_responds = l'"
proof -
  obtain p l' where run: "ann_responds = (Reply 201 p, l')" using ann_published by blast
  have s: "lv_store (fresh_live x) = x" for x by (simp add: fresh_live_def)
  have q: "q_sealed (cid_request x) = x" "q_id (cid_request x) = ''request''" for x by (simp_all add: cid_request_def)
  have b: "string_or_empty (field_of response_body ''requestId'') = ''request''" by (simp add: string_or_empty_def)
  from published_response_is_bound [OF run] obtain r where "jget (inviteResponses (lv_store l')) ''request'' = Some r"
    "b_nonce (s_binding r) = rb_nonce (binding_of cid_binding)"
    unfolding b s approved_store_facts by (auto simp: q cid_parse)
  then show ?thesis by (auto simp: run)
qed

end
