(* ===== verification/Key_Package_Witnesses.thy ===== *)
theory Key_Package_Witnesses
  imports Flow_Samples
begin

text \<open>The properties of KeyPackages, applied to the sample store.\<close>

lemma live_store [simp]: "lv_store (fresh_live s) = s"
  by (simp add: fresh_live_def)

lemma asking_packages: "keyPackages (asking_store sealed) = [(''package'', cid_package)]" "consumedKeyPackages (asking_store sealed) = []"
  by code_simp+

lemma asking_packages_ok: "packages_ok (asking_store sealed)"
  by (simp add: packages_ok_def asking_packages cid_package_def jhas_def)

definition consume_body :: jsv where
  "consume_body = J_obj [(''hostDeviceId'', J_str ''ann-device''), (''inviteId'', J_str ''invite_1''),
     (''keyPackageId'', J_str ''package''), (''keyPackageHash'', J_str cid_hash)]"

abbreviation ann_consumes :: "key_package option reply \<times> live" where
  "ann_consumes \<equiv> consume_key_package flow_env 10 True (\<lambda>l. l) (Some (sample_auth ''ann'')) (Some ''tok'') ''room'' ''cid'' ''cid-device''
     consume_body (fresh_live (asking_store []))"

lemma key_packages_are_one_shot_witness:
  "packages_ok (lv_store (snd ann_consumes))"
  using key_packages_are_one_shot [of "fresh_live (asking_store [])" "\<lambda>l. l"] by (simp add: asking_packages_ok)

lemma consumption_is_made_by_the_host_witness:
  "\<exists>i. jget (invites (lv_store (snd ann_consumes))) (i_id i) = Some (approved_invite i cid_package)
     \<and> jget (keyPackages (lv_store (snd ann_consumes))) ''package'' = None"
proof -
  have "fst ann_consumes = Reply 200 (Some cid_package)" by code_simp
  then have run: "ann_consumes = (Reply 200 (Some cid_package), snd ann_consumes)" by (metis prod.collapse)
  have "k_id cid_package = ''package''" by (simp add: cid_package_def)
  with consumption_is_made_by_the_host [OF run] show ?thesis by (auto simp: asking_packages_ok)
qed

text \<open>Cid uploads a second package.\<close>

definition second_hash :: string where
  "second_hash = ''sha256:'' @ replicate 64 CHR ''1''"

definition second_candidate :: jsv where
  "second_candidate = J_obj [(''id'', J_str ''second''), (''keyPackage'', J_str ''QUJD''), (''keyPackageHash'', J_str second_hash),
     (''ciphersuite'', J_num 2)]"

definition second_env :: env where
  "second_env = flow_env\<lparr>en_sha256 := (\<lambda>_. replicate 64 CHR ''1'')\<rparr>"

definition honest_validator :: "upload \<Rightarrow> device \<Rightarrow> validator_answer" where
  "honest_validator p d = Answered (Some \<lparr>va_identity = ''cid:cid-device'', va_user = d_user d, va_device = d_device d,
     va_suite = 2, va_sig_key = d_sig_key d, va_sig_fp = d_sig_fp d\<rparr>)"

definition second_package :: key_package where
  "second_package = cid_package\<lparr>k_id := ''second'', k_hash := second_hash, k_created := Iso 10\<rparr>"

lemma second_validated:
  "validate_key_package_batch second_env honest_validator 10 ''cid'' ''cid-device'' (\<lambda>l. l) [] [second_candidate] (fresh_live (asking_store []))
     = (Inr [second_package], fresh_live (asking_store []))"
proof -
  have p: "parse_upload second_candidate = Some \<lparr>up_id = ''second'', up_package = ''QUJD'', up_hash = second_hash\<rparr>" by code_simp
  have "is_canonical_base64 ''QUJD'' 128" by code_simp
  then have b: "is_canonical_base64 ''QUJD'' max_encoded_chars" by (simp add: is_canonical_base64_def max_encoded_chars_def)
  have h: "second_hash = hash_key_package second_env ''QUJD''" by code_simp
  have d: "get_device (asking_store []) ''cid'' ''cid-device'' = Some cid_device" by code_simp
  have v: "validated_uploader_matches (Some \<lparr>va_identity = ''cid:cid-device'', va_user = d_user cid_device, va_device = d_device cid_device,
     va_suite = 2, va_sig_key = d_sig_key cid_device, va_sig_fp = d_sig_fp cid_device\<rparr>) ''cid'' ''cid-device'' cid_device" by code_simp
  have "cid_hash \<noteq> second_hash" by (simp add: cid_hash_def second_hash_def numeral_eq_Suc)
  then show ?thesis
    using b h v
    by (simp add: validate_uploaded_key_package_def p d honest_validator_def asking_packages jvalues_def jhas_def max_encoded_chars_def
        cid_package_def validated_record_def second_package_def)
qed


lemma validation_budget_is_respected_witness:
  "spent 10 1000 ''ann'' [(0, ''ann'', 8), (100, ''bob'', 3), (500, ''ann'', 7)] \<lparr>bg_accounts = [], bg_next = 0\<rparr> * 1000 \<le> 10 * (1000 + 500)"
  using validation_budget_is_respected [of 10 1000 "[(0, ''ann'', 8), (100, ''bob'', 3), (500, ''ann'', 7)]" 0 500 "''ann''" 0] by simp

end
