(* ===== verification/Database.thy ===== *)
theory Database
  imports Retention "HOL-Library.List_Lexorder" "HOL-Library.Char_ord"
begin

text \<open>
  What the relay stores in SQLite: the encoding of logged mutations
  (apps/relay/src/store-mutations.ts), the tables and the statements on them
  (sqlite-state-repository.ts, sqlite-persistence.ts, sqlite-schema.ts).

  A table with a text primary key is a map; a statement is the standard meaning of its SQL text. A
  \<open>data_json\<close> column is the record it is the text of. The columns \<open>savedAt\<close> and \<open>created_at\<close>, which
  the relay writes and never reads back, are left out.
\<close>

section \<open>Stored values (store-mutations.ts)\<close>

datatype stored = V_auth auth_session | V_restriction restriction | V_quota quota_record | V_team team
  | V_room room | V_invite invite | V_request invite_request | V_response invite_response
  | V_ack ack_receipt | V_receipt message_receipt | V_device device | V_key_package key_package
  | V_consumed consumed_key_package | V_attachment attachment | V_members string "team_member list"
  | V_backlog string "mls_message list"

datatype stored_op = Row_delete | Row_upsert stored

type_synonym stored_mutation = "(entity \<times> string) \<times> stored_op"

definition is_auth_session_id_hash :: "string \<Rightarrow> bool" where
  "is_auth_session_id_hash s \<longleftrightarrow>
     length s = 64 \<and> list_all (\<lambda>c. let n = of_char c :: nat in (48 \<le> n \<and> n \<le> 57) \<or> (97 \<le> n \<and> n \<le> 102)) s"

definition stored_auth_session_value :: "int \<Rightarrow> string \<Rightarrow> relay_store \<Rightarrow> auth_session option" where
  "stored_auth_session_value now key s =
     (case jget (authSessions s) key of
        None \<Rightarrow> None
      | Some a \<Rightarrow>
          if as_expires a \<le> now then None
          else if \<not> is_auth_session_id_hash key \<or> \<not> is_auth_session_id_hash (as_hash a) \<or> as_hash a \<noteq> key then None
          else Some a)"

definition live_invite_value :: "int \<Rightarrow> invite option \<Rightarrow> invite option" where
  "live_invite_value now i = (case i of None \<Rightarrow> None | Some x \<Rightarrow> if is_expired_invite now x then None else Some x)"

definition live_attachment_value :: "int \<Rightarrow> attachment option \<Rightarrow> attachment option" where
  "live_attachment_value now a = (case a of None \<Rightarrow> None | Some x \<Rightarrow> if is_expired_attachment_blob now x then None else Some x)"

definition stored_backlog_value :: "mls_options \<Rightarrow> int \<Rightarrow> mls_message list option \<Rightarrow> mls_message list option" where
  "stored_backlog_value lim now ms =
     (let retained = prune_mls_backlog lim now (case ms of None \<Rightarrow> [] | Some x \<Rightarrow> x)
      in if retained \<noteq> [] then Some retained else None)"

text \<open>The key of a receipt is \<open>room NUL message\<close> in memory and the JSON array of both in the table.\<close>

definition accepted_receipt_storage_key :: "string \<Rightarrow> string" where
  "accepted_receipt_storage_key key =
     (if char_of (0::nat) \<in> set key
      then stringify (Jlist [Jstr (takeWhile (\<lambda>c. c \<noteq> char_of (0::nat)) key),
                             Jstr (drop 1 (dropWhile (\<lambda>c. c \<noteq> char_of (0::nat)) key))])
      else key)"

definition persisted_key :: "entity \<Rightarrow> string \<Rightarrow> string" where
  "persisted_key e key = (if e = E_acceptedMessageReceipts then accepted_receipt_storage_key key else key)"

definition stored_value :: "mls_options \<Rightarrow> int \<Rightarrow> relay_store \<Rightarrow> entity \<Rightarrow> string \<Rightarrow> stored option" where
  "stored_value lim now s e key = (case e of
     E_authSessions \<Rightarrow> map_option V_auth (stored_auth_session_value now key s)
   | E_accountRestrictions \<Rightarrow> map_option V_restriction (jget (accountRestrictions s) key)
   | E_accountQuotaRecords \<Rightarrow> map_option V_quota (jget (accountQuotaRecords s) key)
   | E_teams \<Rightarrow> map_option V_team (jget (teams s) key)
   | E_rooms \<Rightarrow> map_option V_room (jget (rooms s) key)
   | E_invites \<Rightarrow> map_option V_invite (live_invite_value now (jget (invites s) key))
   | E_inviteRequests \<Rightarrow> map_option V_request (jget (inviteRequests s) key)
   | E_inviteResponses \<Rightarrow> map_option V_response (jget (inviteResponses s) key)
   | E_inviteAckReceipts \<Rightarrow> map_option V_ack (jget (inviteAckReceipts s) key)
   | E_acceptedMessageReceipts \<Rightarrow> map_option V_receipt (jget (acceptedMessageReceipts s) key)
   | E_devices \<Rightarrow> map_option V_device (jget (devices s) key)
   | E_keyPackages \<Rightarrow> map_option V_key_package (jget (keyPackages s) key)
   | E_consumedKeyPackages \<Rightarrow> map_option V_consumed (jget (consumedKeyPackages s) key)
   | E_attachmentBlobs \<Rightarrow> map_option V_attachment (live_attachment_value now (jget (attachmentBlobs s) key))
   | E_teamMembers \<Rightarrow> map_option (\<lambda>ms. V_members key (jvalues ms)) (jget (teamMembers s) key)
   | E_mlsBacklog \<Rightarrow> map_option (V_backlog key) (stored_backlog_value lim now (jget (mlsBacklog s) key)))"

definition encode_mutation :: "mls_options \<Rightarrow> int \<Rightarrow> relay_store \<Rightarrow> entity \<times> string \<Rightarrow> stored_mutation" where
  "encode_mutation lim now s m =
     ((fst m, persisted_key (fst m) (snd m)),
      (case stored_value lim now s (fst m) (snd m) of None \<Rightarrow> Row_delete | Some v \<Rightarrow> Row_upsert v))"

text \<open>The last mutation of each key, at the place of its first one, as \<open>Map.set\<close> leaves it.\<close>

definition latest :: "('k \<times> 'v) list \<Rightarrow> ('k, 'v) jmap" where
  "latest xs = fold (\<lambda>(k, v) m. jset k v m) xs []"

definition drain_stored_mutations :: "mls_options \<Rightarrow> int \<Rightarrow> relay_store \<Rightarrow> stored_mutation list \<times> relay_store" where
  "drain_stored_mutations lim now s =
     (map (encode_mutation lim now s) (jvalues (latest (map (\<lambda>m. (m, m)) (st_log s)))), s\<lparr>st_log := []\<rparr>)"

section \<open>Tables (sqlite-schema.ts)\<close>

text \<open>A message row: room and message id are its key, then its place in the room and the message.\<close>

type_synonym message_row = "(string \<times> string) \<times> (nat \<times> mls_message)"

abbreviation row_room :: "message_row \<Rightarrow> string" where "row_room x \<equiv> fst (fst x)"
abbreviation row_id :: "message_row \<Rightarrow> string" where "row_id x \<equiv> snd (fst x)"
abbreviation row_order :: "message_row \<Rightarrow> nat" where "row_order x \<equiv> fst (snd x)"
abbreviation row_message :: "message_row \<Rightarrow> mls_message" where "row_message x \<equiv> snd (snd x)"

record database =
  db_versioned :: bool
  db_rows :: "entity \<Rightarrow> (string, stored) jmap"
  db_messages :: "message_row list"
  db_epochs :: "(string, nat) jmap"

definition empty_database :: database where
  "empty_database = \<lparr>db_versioned = False, db_rows = (\<lambda>_. []), db_messages = [], db_epochs = []\<rparr>"

section \<open>Writing (sqlite-state-repository.ts)\<close>

definition put_row :: "entity \<Rightarrow> string \<Rightarrow> stored \<Rightarrow> database \<Rightarrow> database" where
  "put_row e k v d = d\<lparr>db_rows := (db_rows d)(e := jset k v (db_rows d e))\<rparr>"

definition delete_row :: "entity \<Rightarrow> string \<Rightarrow> database \<Rightarrow> database" where
  "delete_row e k d = d\<lparr>db_rows := (db_rows d)(e := jdel k (db_rows d e))\<rparr>"

text \<open>\<open>saveMlsBacklogRowsInTransaction\<close>: the sort order is the index.\<close>

definition save_mls_backlog_rows :: "string \<Rightarrow> mls_message list \<Rightarrow> database \<Rightarrow> database" where
  "save_mls_backlog_rows key ms d =
     (if ms = [] then d\<lparr>db_messages := jwhere (\<lambda>(r, _) _. r \<noteq> key) (db_messages d)\<rparr>
      else
        let kept = jwhere (\<lambda>(r, i) _. r \<noteq> key \<or> List.member (map mm_id ms) i) (db_messages d) in
        d\<lparr>db_messages := fold (\<lambda>(n, m) rows. jset (key, mm_id m) (n, m) rows) (enumerate 0 ms) kept\<rparr>)"

text \<open>\<open>appendMlsBacklogRow\<close>.\<close>

definition append_mls_backlog_row :: "string \<Rightarrow> mls_message \<Rightarrow> string list \<Rightarrow> database \<Rightarrow> database" where
  "append_mls_backlog_row key m pruned d =
     (let rows = fold (\<lambda>i rows. jdel (key, i) rows) pruned (db_messages d);
          orders = map row_order (filter (\<lambda>x. row_room x = key) rows);
          next_order = (if orders = [] then 0 else Max (set orders) + 1) in
      d\<lparr>db_messages := (if jhas rows (key, mm_id m) then rows else jset (key, mm_id m) (next_order, m) rows)\<rparr>)"

text \<open>\<open>roomStorageKey\<close> of the row to be deleted.\<close>

definition room_storage_key :: "string \<Rightarrow> database \<Rightarrow> string option" where
  "room_storage_key room_id d =
     (case jget (db_rows d E_rooms) room_id of Some (V_room r) \<Rightarrow> Some (room_key (r_team r) room_id) | _ \<Rightarrow> None)"

definition apply_mutation :: "stored_mutation \<Rightarrow> database \<Rightarrow> database" where
  "apply_mutation c d = (case c of ((e, k), op) \<Rightarrow>
     if e = E_mlsBacklog then
       save_mls_backlog_rows k (case op of Row_upsert (V_backlog _ ms) \<Rightarrow> ms | _ \<Rightarrow> []) d
     else (case op of
       Row_delete \<Rightarrow>
         let epoch_key = (if e = E_rooms then room_storage_key k d else None); d1 = delete_row e k d in
         (case epoch_key of None \<Rightarrow> d1 | Some r \<Rightarrow> d1\<lparr>db_epochs := jdel r (db_epochs d1)\<rparr>)
     | Row_upsert v \<Rightarrow>
         let d1 = put_row e k v d in
         (case v of
            V_room r \<Rightarrow> if e = E_rooms
              then d1\<lparr>db_epochs := jset (room_key (r_team r) k) (case r_epoch r of None \<Rightarrow> 0 | Some n \<Rightarrow> n) (db_epochs d1)\<rparr>
              else d1
          | _ \<Rightarrow> d1)))"

definition apply_stored_mutations :: "entity list \<Rightarrow> stored_mutation list \<Rightarrow> database \<Rightarrow> database" where
  "apply_stored_mutations skipped changes d =
     fold (\<lambda>c d. if List.member skipped (fst (fst c)) then d else apply_mutation c d) changes (d\<lparr>db_versioned := True\<rparr>)"

section \<open>Units of work (sqlite-persistence.ts)\<close>

text \<open>
  Each write is one transaction: \<open>fault\<close> says that SQLite fails it, and then nothing is written.
\<close>

datatype db_error = Stale_epoch | Db_fault

definition transaction :: "bool \<Rightarrow> database \<Rightarrow> database \<Rightarrow> (db_error, database) outcome" where
  "transaction fault d' d = (if fault then Throws Db_fault d else Done d')"

definition db_save_changes :: "bool \<Rightarrow> stored_mutation list \<Rightarrow> database \<Rightarrow> (db_error, database) outcome" where
  "db_save_changes fault changes d =
     (if changes = [] then Done d else transaction fault (apply_stored_mutations [] changes d) d)"

definition db_save_mls_backlog :: "bool \<Rightarrow> string \<Rightarrow> mls_message list \<Rightarrow> database \<Rightarrow> (db_error, database) outcome" where
  "db_save_mls_backlog fault key ms d = transaction fault (save_mls_backlog_rows key ms d) d"

definition db_save_key_packages :: "bool \<Rightarrow> stored_mutation list \<Rightarrow> database \<Rightarrow> (db_error, database) outcome" where
  "db_save_key_packages fault changes d = transaction fault (apply_stored_mutations [] changes d) d"

definition db_save_mls_message ::
  "bool \<Rightarrow> string \<Rightarrow> mls_message \<Rightarrow> string list \<Rightarrow> stored_mutation list \<Rightarrow> database \<Rightarrow> (db_error, database) outcome" where
  "db_save_mls_message fault key m pruned changes d =
     transaction fault (apply_stored_mutations [E_mlsBacklog] changes (append_mls_backlog_row key m pruned d)) d"

text \<open>A Commit advances the room's epoch by a compare-and-swap; a stale one rolls the transaction back.\<close>

definition db_save_mls_commit ::
  "bool \<Rightarrow> string \<Rightarrow> mls_message \<Rightarrow> string list \<Rightarrow> stored_mutation list \<Rightarrow> database \<Rightarrow> (db_error, database) outcome" where
  "db_save_mls_commit fault key m pruned changes d =
     (let epochs = (if jhas (db_epochs d) key then db_epochs d else jset key (mm_epoch m) (db_epochs d)) in
      if fault then Throws Db_fault d
      else if jget epochs key \<noteq> Some (mm_epoch m) then Throws Stale_epoch d
      else Done (apply_stored_mutations [E_mlsBacklog] changes
             (append_mls_backlog_row key m pruned (d\<lparr>db_epochs := jset key (mm_epoch m + 1) epochs\<rparr>))))"

section \<open>Loading (sqlite-state-repository.ts)\<close>

definition storage_key_for_row :: "entity \<Rightarrow> stored \<Rightarrow> string option" where
  "storage_key_for_row e v = (case e of
     E_authSessions \<Rightarrow> (case v of V_auth a \<Rightarrow> Some (as_hash a) | _ \<Rightarrow> None)
   | E_accountRestrictions \<Rightarrow> (case v of V_restriction r \<Rightarrow> Some (re_user r) | _ \<Rightarrow> None)
   | E_accountQuotaRecords \<Rightarrow> (case v of V_quota q \<Rightarrow> Some (qr_key q) | _ \<Rightarrow> None)
   | E_teams \<Rightarrow> (case v of V_team t \<Rightarrow> Some (t_id t) | _ \<Rightarrow> None)
   | E_rooms \<Rightarrow> (case v of V_room r \<Rightarrow> Some (r_id r) | _ \<Rightarrow> None)
   | E_invites \<Rightarrow> (case v of V_invite i \<Rightarrow> Some (i_id i) | _ \<Rightarrow> None)
   | E_inviteRequests \<Rightarrow> (case v of V_request q \<Rightarrow> Some (q_id q) | _ \<Rightarrow> None)
   | E_inviteResponses \<Rightarrow> (case v of V_response r \<Rightarrow> Some (s_request r) | _ \<Rightarrow> None)
   | E_inviteAckReceipts \<Rightarrow> (case v of V_ack a \<Rightarrow> Some (ar_request a) | _ \<Rightarrow> None)
   | E_acceptedMessageReceipts \<Rightarrow> (case v of V_receipt r \<Rightarrow> (if mr_room r \<noteq> [] \<and> mr_message r \<noteq> []
       then Some (stringify (Jlist [Jstr (mr_room r), Jstr (mr_message r)])) else None) | _ \<Rightarrow> None)
   | E_devices \<Rightarrow> (case v of V_device d \<Rightarrow> (if d_user d \<noteq> [] \<and> d_device d \<noteq> [] then Some (device_key (d_user d) (d_device d)) else None) | _ \<Rightarrow> None)
   | E_keyPackages \<Rightarrow> (case v of V_key_package k \<Rightarrow> Some (k_id k) | _ \<Rightarrow> None)
   | E_consumedKeyPackages \<Rightarrow> (case v of V_consumed c \<Rightarrow> Some (ck_hash c) | _ \<Rightarrow> None)
   | E_attachmentBlobs \<Rightarrow> (case v of V_attachment a \<Rightarrow> Some (a_id a) | _ \<Rightarrow> None)
   | E_teamMembers \<Rightarrow> (case v of V_members t _ \<Rightarrow> Some t | _ \<Rightarrow> None)
   | E_mlsBacklog \<Rightarrow> None)"

text \<open>\<open>stringField\<close> takes no empty text as a key.\<close>

definition row_identity :: "entity \<Rightarrow> stored \<Rightarrow> string option" where
  "row_identity e v = (case storage_key_for_row e v of None \<Rightarrow> None | Some k \<Rightarrow> if k = [] then None else Some k)"

text \<open>\<open>loadJsonRows\<close>: the values in key order, or an error when a row is not the one its key names.\<close>

definition load_json_rows :: "entity \<Rightarrow> database \<Rightarrow> stored list option" where
  "load_json_rows e d =
     (if list_all (\<lambda>(k, v). row_identity e v = Some k) (db_rows d e)
      then Some (jvalues (sort_key fst (db_rows d e))) else None)"

text \<open>\<open>loadMlsBacklogRows\<close>: ordered by room, sort order and message id, grouped by room.\<close>

definition ordered_messages :: "database \<Rightarrow> message_row list" where
  "ordered_messages d = sort_key row_room (sort_key row_order (sort_key row_id (db_messages d)))"

definition message_row_ok :: "message_row \<Rightarrow> bool" where
  "message_row_ok x \<longleftrightarrow> mm_id (row_message x) = row_id x \<and> room_key (mm_team (row_message x)) (mm_room (row_message x)) = row_room x"

definition load_mls_backlog_rows :: "database \<Rightarrow> (string, mls_message list) jmap option" where
  "load_mls_backlog_rows d =
     (if list_all message_row_ok (db_messages d)
      then Some (map (\<lambda>(r, xs). (r, map row_message xs)) (group_by row_room (ordered_messages d)))
      else None)"

datatype loaded = Nothing_stored | Unreadable | Loaded "entity \<Rightarrow> stored list" "(string, mls_message list) jmap"

definition json_entities :: "entity list" where
  "json_entities = [E_teams, E_rooms, E_invites, E_devices, E_keyPackages, E_consumedKeyPackages, E_inviteRequests,
     E_inviteResponses, E_inviteAckReceipts, E_acceptedMessageReceipts, E_teamMembers, E_authSessions,
     E_accountRestrictions, E_accountQuotaRecords, E_attachmentBlobs]"

definition contains_durable_state :: "database \<Rightarrow> bool" where
  "contains_durable_state d \<longleftrightarrow>
     list_ex (\<lambda>e. db_rows d e \<noteq> []) json_entities \<or> db_messages d \<noteq> [] \<or> db_epochs d \<noteq> [] \<or> db_versioned d"

definition load_normalized_state :: "database \<Rightarrow> loaded" where
  "load_normalized_state d =
     (if \<not> db_versioned d then (if contains_durable_state d then Unreadable else Nothing_stored)
      else if list_all (\<lambda>e. load_json_rows e d \<noteq> None) json_entities
      then (case load_mls_backlog_rows d of
              None \<Rightarrow> Unreadable
            | Some ms \<Rightarrow> Loaded (\<lambda>e. case load_json_rows e d of None \<Rightarrow> [] | Some vs \<Rightarrow> vs) ms)
      else Unreadable)"

section \<open>The state as a whole (store-codec.ts)\<close>

text \<open>\<open>toStoredRelayState\<close>: what the memory would store of each entity at one moment.\<close>

definition stored_auth_sessions :: "int \<Rightarrow> (string, auth_session) jmap \<Rightarrow> auth_session list" where
  "stored_auth_sessions now m =
     map snd (filter (\<lambda>(k, a). \<not> as_expires a \<le> now \<and> is_auth_session_id_hash k \<and> is_auth_session_id_hash (as_hash a) \<and> as_hash a = k) m)"

definition to_stored_rows :: "int \<Rightarrow> relay_store \<Rightarrow> entity \<Rightarrow> stored list" where
  "to_stored_rows now s e = (case e of
     E_teams \<Rightarrow> map V_team (jvalues (teams s))
   | E_rooms \<Rightarrow> map V_room (jvalues (rooms s))
   | E_invites \<Rightarrow> map V_invite (filter (\<lambda>i. \<not> is_expired_invite now i) (jvalues (invites s)))
   | E_devices \<Rightarrow> map V_device (jvalues (devices s))
   | E_keyPackages \<Rightarrow> map V_key_package (jvalues (keyPackages s))
   | E_consumedKeyPackages \<Rightarrow> map V_consumed (jvalues (consumedKeyPackages s))
   | E_inviteRequests \<Rightarrow> map V_request (jvalues (inviteRequests s))
   | E_inviteResponses \<Rightarrow> map V_response (jvalues (inviteResponses s))
   | E_inviteAckReceipts \<Rightarrow> map V_ack (jvalues (inviteAckReceipts s))
   | E_acceptedMessageReceipts \<Rightarrow> map V_receipt (jvalues (acceptedMessageReceipts s))
   | E_teamMembers \<Rightarrow> map (\<lambda>(t, ms). V_members t (jvalues ms)) (teamMembers s)
   | E_authSessions \<Rightarrow> map V_auth (stored_auth_sessions now (authSessions s))
   | E_accountRestrictions \<Rightarrow> map V_restriction (filter (\<lambda>r. \<not> is_expired_restriction now r) (jvalues (accountRestrictions s)))
   | E_accountQuotaRecords \<Rightarrow> map V_quota (filter (\<lambda>q. qr_reset q > now) (jvalues (accountQuotaRecords s)))
   | E_attachmentBlobs \<Rightarrow> map V_attachment (filter (\<lambda>a. \<not> is_expired_attachment_blob now a) (jvalues (attachmentBlobs s)))
   | E_mlsBacklog \<Rightarrow> [])"

definition to_stored_backlog :: "mls_options \<Rightarrow> int \<Rightarrow> relay_store \<Rightarrow> (string, mls_message list) jmap" where
  "to_stored_backlog lim now s =
     filter (\<lambda>(_, ms). ms \<noteq> []) (map (\<lambda>(k, ms). (k, prune_mls_backlog lim now ms)) (mlsBacklog s))"

end
