(* ===== verification/Persistence.thy ===== *)
theory Persistence
  imports Database
begin

text \<open>
  The persistence coordinator (apps/relay/src/store-persistence.ts): it drains the mutation log of
  the store into batches, hands them to SQLite, keeps a batch pending until its transaction has
  returned, and refuses every later write once an unexpected failure has poisoned it.
\<close>

record coordinator =
  co_store :: relay_store
  co_pending :: "stored_mutation list"
  co_healthy :: bool
  co_db :: database

datatype persistence_error = Persistence_unavailable | Stale_epoch_conflict | Store_failure store_error

definition ensure_healthy :: "coordinator \<Rightarrow> (persistence_error, coordinator) outcome" where
  "ensure_healthy c = (if co_healthy c then Done c else Throws Persistence_unavailable c)"

text \<open>\<open>persistenceWrite\<close>: a stale epoch is passed on, any other failure poisons.\<close>

definition persistence_write ::
  "(database \<Rightarrow> (db_error, database) outcome) \<Rightarrow> coordinator \<Rightarrow> (persistence_error, coordinator) outcome" where
  "persistence_write run c =
     seq (ensure_healthy c) (\<lambda>c.
       case run (co_db c) of
         Done d \<Rightarrow> Done (c\<lparr>co_db := d\<rparr>)
       | Throws Stale_epoch d \<Rightarrow> Throws Stale_epoch_conflict (c\<lparr>co_db := d\<rparr>)
       | Throws Db_fault d \<Rightarrow> Throws Persistence_unavailable (c\<lparr>co_db := d, co_healthy := False\<rparr>))"

definition collect_pending_changes :: "mls_options \<Rightarrow> int \<Rightarrow> coordinator \<Rightarrow> coordinator" where
  "collect_pending_changes lim now c =
     (case drain_stored_mutations lim now (co_store c) of
        (drained, s) \<Rightarrow> c\<lparr>co_store := s, co_pending := latest (co_pending c @ drained)\<rparr>)"

definition acknowledge_batch :: "coordinator \<Rightarrow> coordinator" where
  "acknowledge_batch c = c\<lparr>co_pending := []\<rparr>"

definition save_pending_changes :: "mls_options \<Rightarrow> int \<Rightarrow> bool \<Rightarrow> coordinator \<Rightarrow> (persistence_error, coordinator) outcome" where
  "save_pending_changes lim now fault c =
     seq (ensure_healthy c) (\<lambda>c.
       let c1 = collect_pending_changes lim now c in
       if co_pending c1 = [] then Done c1
       else seq (persistence_write (db_save_changes fault (co_pending c1)) c1) (\<lambda>c2. Done (acknowledge_batch c2)))"

definition save_mls_backlog ::
  "mls_options \<Rightarrow> int \<Rightarrow> bool \<Rightarrow> bool \<Rightarrow> string \<Rightarrow> mls_message list \<Rightarrow> coordinator \<Rightarrow> (persistence_error, coordinator) outcome" where
  "save_mls_backlog lim now fault fault' key ms c =
     seq (persistence_write (db_save_mls_backlog fault key ms) c) (save_pending_changes lim now fault')"

text \<open>The writes that hand the batch over together with another statement.\<close>

definition save_with_batch ::
  "(stored_mutation list \<Rightarrow> database \<Rightarrow> (db_error, database) outcome) \<Rightarrow> mls_options \<Rightarrow> int \<Rightarrow> coordinator
     \<Rightarrow> (persistence_error, coordinator) outcome" where
  "save_with_batch run lim now c =
     (let c1 = collect_pending_changes lim now c in
      seq (persistence_write (run (co_pending c1)) c1) (\<lambda>c2. Done (acknowledge_batch c2)))"

definition save_key_packages :: "mls_options \<Rightarrow> int \<Rightarrow> bool \<Rightarrow> coordinator \<Rightarrow> (persistence_error, coordinator) outcome" where
  "save_key_packages lim now fault = save_with_batch (db_save_key_packages fault) lim now"

definition save_mls_message ::
  "mls_options \<Rightarrow> int \<Rightarrow> bool \<Rightarrow> string \<Rightarrow> mls_message \<Rightarrow> string list \<Rightarrow> coordinator \<Rightarrow> (persistence_error, coordinator) outcome" where
  "save_mls_message lim now fault key m pruned = save_with_batch (db_save_mls_message fault key m pruned) lim now"

definition save_mls_commit ::
  "mls_options \<Rightarrow> int \<Rightarrow> bool \<Rightarrow> string \<Rightarrow> mls_message \<Rightarrow> string list \<Rightarrow> coordinator \<Rightarrow> (persistence_error, coordinator) outcome" where
  "save_mls_commit lim now fault key m pruned = save_with_batch (db_save_mls_commit fault key m pruned) lim now"

text \<open>\<open>reclaimDurableCapacity\<close> and \<open>flushRelayStore\<close>.\<close>

definition flush_relay_store :: "mls_options \<Rightarrow> int \<Rightarrow> bool \<Rightarrow> coordinator \<Rightarrow> (persistence_error, coordinator) outcome" where
  "flush_relay_store lim now fault c =
     (case prune_expired_state lim now (co_store c) of
        Throws e s \<Rightarrow> Throws (Store_failure e) (c\<lparr>co_store := s\<rparr>)
      | Done s \<Rightarrow> save_pending_changes lim now fault (c\<lparr>co_store := s\<rparr>))"

end
