(* ===== verification/Persistence_Log.thy ===== *)
theory Persistence_Log
  imports Persistence Store_Effects
begin

text \<open>
  The mutation log is complete: whatever an operation of the store changes in a durable map is
  logged under the entity and key it changed. The proof is made once for every map, in a locale
  that extends \<open>tracked_map\<close> with the place of the map among the stored values.
\<close>

text \<open>The value of an entry, expired or not; \<open>stored_value\<close> is its live part.\<close>

definition entry_value :: "relay_store \<Rightarrow> entity \<Rightarrow> string \<Rightarrow> stored option" where
  "entry_value s e key = (case e of
     E_authSessions \<Rightarrow> (case jget (authSessions s) key of None \<Rightarrow> None
       | Some a \<Rightarrow> if is_auth_session_id_hash key \<and> is_auth_session_id_hash (as_hash a) \<and> as_hash a = key then Some (V_auth a) else None)
   | E_accountRestrictions \<Rightarrow> map_option V_restriction (jget (accountRestrictions s) key)
   | E_accountQuotaRecords \<Rightarrow> map_option V_quota (jget (accountQuotaRecords s) key)
   | E_teams \<Rightarrow> map_option V_team (jget (teams s) key)
   | E_rooms \<Rightarrow> map_option V_room (jget (rooms s) key)
   | E_invites \<Rightarrow> map_option V_invite (jget (invites s) key)
   | E_inviteRequests \<Rightarrow> map_option V_request (jget (inviteRequests s) key)
   | E_inviteResponses \<Rightarrow> map_option V_response (jget (inviteResponses s) key)
   | E_inviteAckReceipts \<Rightarrow> map_option V_ack (jget (inviteAckReceipts s) key)
   | E_acceptedMessageReceipts \<Rightarrow> map_option V_receipt (jget (acceptedMessageReceipts s) key)
   | E_devices \<Rightarrow> map_option V_device (jget (devices s) key)
   | E_keyPackages \<Rightarrow> map_option V_key_package (jget (keyPackages s) key)
   | E_consumedKeyPackages \<Rightarrow> map_option V_consumed (jget (consumedKeyPackages s) key)
   | E_attachmentBlobs \<Rightarrow> map_option V_attachment (jget (attachmentBlobs s) key)
   | E_teamMembers \<Rightarrow> map_option (\<lambda>ms. V_members key (jvalues ms)) (jget (teamMembers s) key)
   | E_mlsBacklog \<Rightarrow> map_option (V_backlog key) (jget (mlsBacklog s) key))"

definition live_value :: "int \<Rightarrow> stored \<Rightarrow> bool" where
  "live_value now v = (case v of V_auth a \<Rightarrow> as_expires a > now | V_invite i \<Rightarrow> \<not> is_expired_invite now i
     | V_attachment a \<Rightarrow> \<not> is_expired_attachment_blob now a | _ \<Rightarrow> True)"

lemma stored_value_entry:
  assumes "e \<noteq> E_mlsBacklog"
  shows "stored_value lim now s e k = (case entry_value s e k of None \<Rightarrow> None | Some v \<Rightarrow> if live_value now v then Some v else None)"
  using assms
  by (cases e) (auto simp: stored_value_def entry_value_def live_value_def stored_auth_session_value_def live_invite_value_def
      live_attachment_value_def split: option.splits)

lemma live_value_before: "live_value now v \<Longrightarrow> t \<le> now \<Longrightarrow> live_value t v"
  by (auto simp: live_value_def is_expired_invite_def is_expired_attachment_blob_def stamp_lt_def split: stored.splits option.splits)

definition logged :: "relay_store \<Rightarrow> relay_store \<Rightarrow> bool" where
  "logged s s' \<longleftrightarrow> (\<exists>l. st_log s' = st_log s @ l \<and> (\<forall>e k. entry_value s' e k \<noteq> entry_value s e k \<longrightarrow> (e, k) \<in> set l))"

lemma logged_refl [simp, intro]: "logged s s"
  by (auto simp: logged_def)

lemma logged_trans: "logged s t \<Longrightarrow> logged t u \<Longrightarrow> logged s u"
  unfolding logged_def by (metis (no_types, opaque_lifting) UnCI append_assoc set_append)

lemma logged_fold: "(\<And>x s. logged s (f x s)) \<Longrightarrow> logged s (fold f xs s)"
  by (induction xs arbitrary: s) (auto intro: logged_trans)

lemma logged_for_each: "(\<And>x s. logged s (state_of (f x s))) \<Longrightarrow> logged s (state_of (for_each f xs s))"
  by (rule for_each_state_inv [where P = "logged s"]) (auto intro: logged_trans)

lemma entry_value_frame [simp]:
  "entry_value (s\<lparr>st_cap := c\<rparr>) = entry_value s" "entry_value (s\<lparr>st_bytes := b\<rparr>) = entry_value s"
  "entry_value (s\<lparr>st_log := l\<rparr>) = entry_value s"
  by (simp_all add: entry_value_def fun_eq_iff split: entity.split)

lemma entry_value_data: "entry_value (store_data s) = entry_value s"
  by (simp add: store_data_def)

text \<open>What identifies the stored values of a map.\<close>

locale stored_map = tracked_map T for T :: "'v tracked" +
  assumes other_entities: "e \<noteq> tr_entity T \<Longrightarrow> entry_value (tr_put T m s) e k = entry_value s e k"
    and own_entity: "jget m k = jget (tr_get T s) k \<Longrightarrow> entry_value (tr_put T m s) (tr_entity T) k = entry_value s (tr_entity T) k"
begin

lemma put_log [simp]: "st_log (tr_put T m s) = st_log s"
proof -
  have "st_log (tr_put T m (s\<lparr>st_log := st_log s\<rparr>)) = st_log s" unfolding put_set_log by simp
  then show ?thesis by simp
qed

lemma put_logged:
  assumes "\<And>j. j \<noteq> k \<Longrightarrow> jget m j = jget (tr_get T s) j" and "entry_value s' = entry_value (tr_put T m s)"
    and "st_log s' = st_log s @ [(tr_entity T, k)]"
  shows "logged s s'"
  using assms other_entities own_entity unfolding logged_def by (metis list.set_intros(1))

lemma dm_set_log: "dm_set T k v s = Done s' \<Longrightarrow> st_log s' = st_log s @ [(tr_entity T, k)]"
  using bytes_replace_shape [of "jget (tr_get T s) k" "Some v" k s]
  by (auto simp: dm_set_def Let_def log_mutation_def split: outcome.splits elim!: seq_DoneE)

lemma dm_set_logged: "logged s (state_of (dm_set T k v s))"
proof (cases "dm_set T k v s")
  case (Done s')
  have "entry_value s' = entry_value (tr_put T (jset k v (tr_get T s)) s)"
    using dm_set_data [OF Done] by (metis entry_value_data put_data)
  with dm_set_log [OF Done] show ?thesis
    by (intro put_logged [where k = k and m = "jset k v (tr_get T s)"]) (simp_all add: Done)
next
  case (Throws x s')
  from dm_set_throws_shape [OF Throws] show ?thesis by (auto simp: Throws logged_def)
qed

lemma dm_release_log: "st_log (dm_release T k u s) = st_log s @ [(tr_entity T, k)] \<and> entry_value (dm_release T k u s) = entry_value s"
proof -
  obtain b where "state_of (bytes_replace T (Some u) None k s) = s\<lparr>st_bytes := b\<rparr>" using bytes_replace_shape by blast
  then show ?thesis by (simp add: dm_release_def Let_def log_mutation_def)
qed

lemma dm_delete_logged: "logged s (dm_delete T k s)"
proof (cases "jget (tr_get T s) k")
  case None
  then show ?thesis by (simp add: dm_delete_def)
next
  case (Some u)
  show ?thesis
    using dm_release_log [of k u "tr_put T (jdel k (tr_get T s)) s"]
    by (intro put_logged [where k = k and m = "jdel k (tr_get T s)"]) (simp_all add: dm_delete_def Some)
qed

lemma dm_clear_logged: "logged s (dm_clear T s)"
proof -
  have released: "st_log (fold (\<lambda>(k, u). dm_release T k u) xs t) = st_log t @ map (\<lambda>(k, _). (tr_entity T, k)) xs
     \<and> entry_value (fold (\<lambda>(k, u). dm_release T k u) xs t) = entry_value t" for xs :: "(string \<times> 'v) list" and t
    by (induction xs arbitrary: t) (auto simp: dm_release_log)
  have same: "entry_value (tr_put T [] s) e k = entry_value s e k" if "(e, k) \<notin> set (map (\<lambda>(k, _). (tr_entity T, k)) (tr_get T s))" for e k
  proof (cases "e = tr_entity T")
    case True
    then have "jget (tr_get T s) k = None" using that by (force simp: map_of_eq_None_iff)
    with True own_entity [of "[]" k s] show ?thesis by simp
  qed (simp add: other_entities)
  show ?thesis
    unfolding logged_def dm_clear_def using released [of "tr_get T s" "tr_put T [] s"] same by auto
qed

lemma dm_delete_where_logged: "logged s (dm_delete_where T P s)"
  unfolding dm_delete_where_def by (rule logged_fold) (auto simp: dm_delete_logged)

lemma delete_keys_logged: "logged s (delete_keys T ks s)"
  unfolding delete_keys_def by (rule logged_fold) (rule dm_delete_logged)

end

lemmas stored_defs = map_defs entry_value_def

interpretation auth_sm: stored_map auth_map
  by unfold_locales (auto simp: stored_defs split: entity.split)
interpretation restriction_sm: stored_map restriction_map
  by unfold_locales (auto simp: stored_defs split: entity.split)
interpretation quota_sm: stored_map quota_map
  by unfold_locales (auto simp: stored_defs split: entity.split)
interpretation team_sm: stored_map team_map
  by unfold_locales (auto simp: stored_defs split: entity.split)
interpretation room_sm: stored_map room_map
  by unfold_locales (auto simp: stored_defs split: entity.split)
interpretation invite_sm: stored_map invite_map
  by unfold_locales (auto simp: stored_defs split: entity.split)
interpretation request_sm: stored_map request_map
  by unfold_locales (auto simp: stored_defs split: entity.split)
interpretation response_sm: stored_map response_map
  by unfold_locales (auto simp: stored_defs split: entity.split)
interpretation ack_sm: stored_map ack_map
  by unfold_locales (auto simp: stored_defs split: entity.split)
interpretation receipt_sm: stored_map receipt_map
  by unfold_locales (auto simp: stored_defs split: entity.split)
interpretation device_sm: stored_map device_map
  by unfold_locales (auto simp: stored_defs split: entity.split)
interpretation key_package_sm: stored_map key_package_map
  by unfold_locales (auto simp: stored_defs split: entity.split)
interpretation consumed_sm: stored_map consumed_map
  by unfold_locales (auto simp: stored_defs split: entity.split)
interpretation attachment_sm: stored_map attachment_map
  by unfold_locales (auto simp: stored_defs split: entity.split)
interpretation backlog_sm: stored_map backlog_map
  by unfold_locales (auto simp: stored_defs split: entity.split)

section \<open>Membership\<close>

lemma members_logged:
  assumes "\<And>t'. t' \<noteq> t \<Longrightarrow> jget ms t' = jget (teamMembers s) t'" and "entry_value s' = entry_value (s\<lparr>teamMembers := ms\<rparr>)"
    and "st_log s' = st_log s @ [(E_teamMembers, t)]"
  shows "logged s s'"
proof -
  have "entry_value (s\<lparr>teamMembers := ms\<rparr>) e k = entry_value s e k" if "(e, k) \<noteq> (E_teamMembers, t)" for e k
    using that assms(1) [of k] by (cases e) (auto simp: entry_value_def)
  with assms(2,3) show ?thesis unfolding logged_def by (metis list.set_intros(1))
qed

lemma entry_value_members [simp]:
  "entry_value (s\<lparr>st_cap := c, teamMembers := ms\<rparr>) = entry_value (s\<lparr>teamMembers := ms\<rparr>)"
  by (simp add: entry_value_def fun_eq_iff split: entity.split)

lemma set_team_members_logged: "logged s (state_of (set_team_members t ms s))"
  by (auto simp: set_team_members_def Let_def log_mutation_def logged_def [of s "s\<lparr>st_cap := _\<rparr>"]
      intro!: members_logged [of t "jset t ms (teamMembers s)"] split: outcome.split)

lemma delete_team_members_logged: "logged s (delete_team_members t s)"
  by (auto simp: delete_team_members_def log_mutation_def intro!: members_logged [of t "jdel t (teamMembers s)"] split: option.split)

lemma member_set_logged: "logged s (state_of (member_set t u r s))"
  by (auto simp: member_set_def Let_def log_mutation_def logged_def [of s "s\<lparr>st_cap := _\<rparr>"]
      intro!: members_logged [of t "jset t _ (teamMembers s)"] split: outcome.split option.split)

end
