(* ===== verification/Persistence_Proofs.thy ===== *)
theory Persistence_Proofs
  imports Persistence_Log Directed_Invite_Proofs
begin

text \<open>
  The database follows the memory: between saves every entry is logged, pending, or stored as it
  is, and after a save that returned the tables hold exactly the live entries of the store.
\<close>

section \<open>Keys\<close>

abbreviation nul :: char where "nul \<equiv> char_of (0::nat)"

definition wf_key :: "entity \<Rightarrow> string \<Rightarrow> bool" where
  "wf_key e k \<longleftrightarrow> e \<noteq> E_mlsBacklog \<and> (e = E_acceptedMessageReceipts \<longrightarrow> nul \<in> set k)"

definition keys_ok :: "(entity \<times> string) list \<Rightarrow> bool" where
  "keys_ok l \<longleftrightarrow> (\<forall>k. (E_acceptedMessageReceipts, k) \<in> set l \<longrightarrow> nul \<in> set k)"

lemma two_texts:
  assumes "stringify (Jlist [Jstr a, Jstr b]) = stringify (Jlist [Jstr a', Jstr b'])"
  shows "a = a' \<and> b = b'"
proof -
  have one: "a = a' \<and> t = t'" if "json_quote a @ t = json_quote a' @ t'" for a a' t t'
  proof -
    have "concat (map json_char a) @ char_of (34::nat) # t = concat (map json_char a') @ char_of (34::nat) # t'"
      using that by (simp add: json_quote_def)
    from arg_cong [OF this, of json_string_rest] show ?thesis unfolding string_rest_quote by simp
  qed
  from assms have "json_quote a @ '','' @ json_quote b @ '']'' = json_quote a' @ '','' @ json_quote b' @ '']''" by simp
  from one [OF this] have "a = a'" "json_quote b @ '']'' = json_quote b' @ '']''" by simp_all
  with one [OF this(2)] show ?thesis by blast
qed

lemma split_at_nul: "nul \<in> set k \<Longrightarrow> k = takeWhile (\<lambda>c. c \<noteq> nul) k @ nul # drop 1 (dropWhile (\<lambda>c. c \<noteq> nul) k)"
  by (induction k) auto

lemma persisted_key_inj:
  assumes "wf_key e k" and "wf_key e k'" and "persisted_key e k = persisted_key e k'"
  shows "k = k'"
proof (cases "e = E_acceptedMessageReceipts")
  case True
  with assms have n: "nul \<in> set k" "nul \<in> set k'" by (simp_all add: wf_key_def)
  let ?hd = "takeWhile (\<lambda>c. c \<noteq> nul)" and ?tl = "\<lambda>k. drop 1 (dropWhile (\<lambda>c. c \<noteq> nul) k)"
  have "stringify (Jlist [Jstr (?hd k), Jstr (?tl k)]) = stringify (Jlist [Jstr (?hd k'), Jstr (?tl k')])"
    using assms(3) n by (simp only: True persisted_key_def accepted_receipt_storage_key_def if_True simp_thms)
  from two_texts [OF this] have "?hd k @ nul # ?tl k = ?hd k' @ nul # ?tl k'" by simp
  then show ?thesis using split_at_nul [OF n(1)] split_at_nul [OF n(2)] by simp
qed (use assms in \<open>simp add: persisted_key_def\<close>)

section \<open>Batches\<close>

fun op_value :: "stored_op \<Rightarrow> stored option" where
  "op_value Row_delete = None"
| "op_value (Row_upsert v) = Some v"

lemma fold_jset_get: "jget (fold (\<lambda>(k, v) m. jset k v m) xs m) k = (case map_of (rev xs) k of None \<Rightarrow> jget m k | Some v \<Rightarrow> Some v)"
  by (induction xs arbitrary: m) (auto split: option.splits simp: map_add_def)

lemma latest_get: "jget (latest xs) k = map_of (rev xs) k"
  by (simp add: latest_def fold_jset_get split: option.split)

lemma latest_wf [simp]: "jwf (latest xs)"
proof -
  have "jwf m \<Longrightarrow> jwf (fold (\<lambda>(k, v) m. jset k v m) xs m)" for m by (induction xs arbitrary: m) auto
  then show ?thesis by (simp add: latest_def)
qed

lemma latest_diagonal: "set (jvalues (latest (map (\<lambda>m. (m, m)) l))) = set l"
proof -
  have get: "jget (latest (map (\<lambda>m. (m, m)) l)) k = (if k \<in> set l then Some k else None)" for k
  proof -
    have "map_of (map (\<lambda>m. (m, m)) xs) k = (if k \<in> set xs then Some k else None)" for xs by (induction xs) auto
    from this [of "rev l"] show ?thesis by (simp add: latest_get rev_map)
  qed
  have "x \<in> set l \<longleftrightarrow> (\<exists>k. jget (latest (map (\<lambda>m. (m, m)) l)) k = Some x)" for x by (auto simp: get)
  then show ?thesis by (auto simp: jvalues_def image_iff) (metis latest_wf map_of_eq_Some_iff snd_conv)+
qed

lemma map_of_agreeing:
  assumes "(k, v) \<in> set xs" and "\<And>u. (k, u) \<in> set xs \<Longrightarrow> u = v"
  shows "map_of xs k = Some v"
proof -
  obtain u where u: "map_of xs k = Some u" using assms(1) by (metis map_of_eq_None_iff fst_conv image_eqI not_None_eq)
  with assms(2) show ?thesis using map_of_SomeD by fastforce
qed

lemma drained_get:
  assumes "drain_stored_mutations lim now s = (ds, s')" and "keys_ok (st_log s)" and "wf_key e k"
  shows "map_of (rev ds) (e, persisted_key e k)
     = (if (e, k) \<in> set (st_log s) then Some (case stored_value lim now s e k of None \<Rightarrow> Row_delete | Some v \<Rightarrow> Row_upsert v) else None)"
proof -
  have ds: "set ds = encode_mutation lim now s ` set (st_log s)" using assms(1) by (auto simp: drain_stored_mutations_def latest_diagonal)
  have key: "(e, j) \<in> set (st_log s) \<Longrightarrow> persisted_key e j = persisted_key e k \<Longrightarrow> j = k" for j
    using persisted_key_inj [OF _ assms(3)] assms(2,3) by (auto simp: keys_ok_def wf_key_def)
  show ?thesis
  proof (cases "(e, k) \<in> set (st_log s)")
    case True
    let ?op = "case stored_value lim now s e k of None \<Rightarrow> Row_delete | Some v \<Rightarrow> Row_upsert v"
    have "((e, persisted_key e k), ?op) \<in> set (rev ds)" using True by (force simp: ds encode_mutation_def)
    moreover have "u = ?op" if u: "((e, persisted_key e k), u) \<in> set (rev ds)" for u
    proof -
      from u obtain j where "(e, j) \<in> set (st_log s)" "((e, persisted_key e k), u) = encode_mutation lim now s (e, j)"
        by (auto simp: ds encode_mutation_def)
      with key show ?thesis by (auto simp: encode_mutation_def)
    qed
    ultimately have "map_of (rev ds) (e, persisted_key e k) = Some ?op" by (rule map_of_agreeing)
    with True show ?thesis by simp
  next
    case False
    then show ?thesis using key by (auto simp: map_of_eq_None_iff ds encode_mutation_def)
  qed
qed

section \<open>Rows\<close>

lemma backlog_rows_frame [simp]:
  "db_rows (save_mls_backlog_rows key ms d) = db_rows d" "db_epochs (save_mls_backlog_rows key ms d) = db_epochs d"
  "db_rows (append_mls_backlog_row key m pruned d) = db_rows d"
  by (simp_all add: save_mls_backlog_rows_def append_mls_backlog_row_def Let_def)

lemma apply_mutation_row:
  assumes "e \<noteq> E_mlsBacklog"
  shows "jget (db_rows (apply_mutation ((e', k'), op) d) e) k = (if (e', k') = (e, k) then op_value op else jget (db_rows d e) k)"
  using assms
  by (cases op; cases "e' = E_mlsBacklog")
    (auto simp: apply_mutation_def Let_def delete_row_def put_row_def split: option.split stored.split)

lemma apply_all_rows:
  assumes "e \<noteq> E_mlsBacklog" and "\<not> List.member skipped e" and "jwf changes"
  shows "jget (db_rows (apply_stored_mutations skipped changes d) e) k
     = (case jget changes (e, k) of None \<Rightarrow> jget (db_rows d e) k | Some op \<Rightarrow> op_value op)"
proof -
  have "jget (db_rows (fold (\<lambda>c d. if List.member skipped (fst (fst c)) then d else apply_mutation c d) changes d) e) k
     = (case jget changes (e, k) of None \<Rightarrow> jget (db_rows d e) k | Some op \<Rightarrow> op_value op)" for d
    using assms(3)
  proof (induction changes arbitrary: d)
    case Nil
    then show ?case by simp
  next
    case (Cons c changes)
    obtain e' k' op where c: "c = ((e', k'), op)" by (cases c) auto
    have "jget changes (e, k) = None" if "(e', k') = (e, k)" using Cons.prems that by (auto simp: c map_of_eq_None_iff)
    with Cons show ?case using assms(1,2)
      by (cases "jget changes (e, k)") (auto simp: c apply_mutation_row)
  qed
  from this [of "d\<lparr>db_versioned := True\<rparr>"] show ?thesis by (simp add: apply_stored_mutations_def split: option.splits)
qed

text \<open>Every unit of work that takes a batch writes exactly the batch to the tables, or nothing.\<close>

definition batch_writer :: "(stored_mutation list \<Rightarrow> database \<Rightarrow> (db_error, database) outcome) \<Rightarrow> bool" where
  "batch_writer run \<longleftrightarrow> (\<forall>changes d. case run changes d of
       Throws x d' \<Rightarrow> d' = d
     | Done d' \<Rightarrow> \<forall>e k. e \<noteq> E_mlsBacklog \<longrightarrow> jwf changes \<longrightarrow> jget (db_rows d' e) k
          = (case jget changes (e, k) of None \<Rightarrow> jget (db_rows d e) k | Some op \<Rightarrow> op_value op))"

lemma batch_writers:
  "batch_writer (db_save_changes fault)" "batch_writer (db_save_key_packages fault)"
  "batch_writer (db_save_mls_message fault key m pruned)" "batch_writer (db_save_mls_commit fault key m pruned)"
proof -
  show "batch_writer (db_save_changes fault)"
    by (simp add: batch_writer_def db_save_changes_def transaction_def apply_all_rows)
  show "batch_writer (db_save_key_packages fault)"
    by (simp add: batch_writer_def db_save_key_packages_def transaction_def apply_all_rows)
  show "batch_writer (db_save_mls_message fault key m pruned)"
    by (simp add: batch_writer_def db_save_mls_message_def transaction_def apply_all_rows split: option.split)
  show "batch_writer (db_save_mls_commit fault key m pruned)"
    by (simp add: batch_writer_def db_save_mls_commit_def Let_def apply_all_rows split: option.split)
qed

section \<open>The database follows the memory\<close>

text \<open>A stored value covers an entry: it is the entry, and it is there when the entry is live.\<close>

definition covers :: "int \<Rightarrow> relay_store \<Rightarrow> entity \<Rightarrow> string \<Rightarrow> stored option \<Rightarrow> bool" where
  "covers now s e k r \<longleftrightarrow> (\<forall>v. entry_value s e k = Some v \<and> live_value now v \<longrightarrow> r = Some v)
     \<and> (\<forall>v. r = Some v \<longrightarrow> entry_value s e k = Some v)"

lemma covers_later: "covers t s e k r \<Longrightarrow> t \<le> now \<Longrightarrow> covers now s e k r"
  unfolding covers_def using live_value_before by blast

lemma covers_log [simp]: "covers now (s\<lparr>st_log := l\<rparr>) = covers now s"
  by (simp add: covers_def fun_eq_iff)

lemma covers_value: "e \<noteq> E_mlsBacklog \<Longrightarrow> covers now s e k (stored_value lim now s e k)"
  by (simp add: covers_def stored_value_entry split: option.split)

definition row_or_pending :: "coordinator \<Rightarrow> entity \<Rightarrow> string \<Rightarrow> stored option" where
  "row_or_pending c e k = (case jget (co_pending c) (e, k) of None \<Rightarrow> jget (db_rows (co_db c) e) k | Some op \<Rightarrow> op_value op)"

definition tracks :: "int \<Rightarrow> coordinator \<Rightarrow> bool" where
  "tracks now c \<longleftrightarrow> jwf (co_pending c) \<and> keys_ok (st_log (co_store c))
     \<and> (\<forall>e k. wf_key e k \<longrightarrow> (e, k) \<notin> set (st_log (co_store c)) \<longrightarrow>
          covers now (co_store c) e k (row_or_pending c e (persisted_key e k)))"

lemma row_or_pending_frame [simp]:
  "row_or_pending (c\<lparr>co_store := s\<rparr>) = row_or_pending c" "row_or_pending (c\<lparr>co_healthy := h\<rparr>) = row_or_pending c"
  by (simp_all add: row_or_pending_def fun_eq_iff split: option.split)

lemma tracks_later: "tracks t c \<Longrightarrow> t \<le> now \<Longrightarrow> tracks now c"
  unfolding tracks_def by (meson covers_later)

lemma tracks_mutate:
  assumes "tracks now c" and "logged (co_store c) s" and "keys_ok (st_log s)"
  shows "tracks now (c\<lparr>co_store := s\<rparr>)"
proof -
  obtain l where l: "st_log s = st_log (co_store c) @ l" and same: "\<And>e k. (e, k) \<notin> set l \<Longrightarrow> entry_value s e k = entry_value (co_store c) e k"
    using assms(2) unfolding logged_def by blast
  have "covers now s e k r = covers now (co_store c) e k r" if "(e, k) \<notin> set l" for e k r
    by (simp add: covers_def same [OF that])
  then show ?thesis using assms(1,3) by (simp add: tracks_def l)
qed

lemma collect_store:
  "co_store (collect_pending_changes lim now c) = (co_store c)\<lparr>st_log := []\<rparr>"
  "co_healthy (collect_pending_changes lim now c) = co_healthy c" "co_db (collect_pending_changes lim now c) = co_db c"
  by (simp_all add: collect_pending_changes_def drain_stored_mutations_def)

lemma tracks_collect:
  assumes "tracks now c"
  shows "tracks now (collect_pending_changes lim now c)"
proof -
  let ?c = "collect_pending_changes lim now c" and ?s = "co_store c"
  obtain ds s' where ds: "drain_stored_mutations lim now ?s = (ds, s')" by fastforce
  have pend: "jget (co_pending ?c) (e, persisted_key e k)
      = (if (e, k) \<in> set (st_log ?s) then Some (case stored_value lim now ?s e k of None \<Rightarrow> Row_delete | Some v \<Rightarrow> Row_upsert v)
         else jget (co_pending c) (e, persisted_key e k))" if "wf_key e k" for e k
  proof -
    have old: "map_of (rev (co_pending c)) = jget (co_pending c)"
      using assms by (subst map_of_inject_set) (auto simp: tracks_def simp flip: rev_map)
    have "keys_ok (st_log ?s)" using assms by (simp add: tracks_def)
    from drained_get [OF ds this that] show ?thesis
      by (simp add: collect_pending_changes_def ds latest_get map_add_def old)
  qed
  have "covers now ?s e k (row_or_pending ?c e (persisted_key e k))" if wf: "wf_key e k" for e k
  proof (cases "(e, k) \<in> set (st_log ?s)")
    case True
    have "row_or_pending ?c e (persisted_key e k) = stored_value lim now ?s e k"
      by (simp add: row_or_pending_def pend [OF wf] True split: option.split)
    then show ?thesis using wf by (simp add: covers_value wf_key_def)
  next
    case False
    have "row_or_pending ?c e (persisted_key e k) = row_or_pending c e (persisted_key e k)"
      by (simp add: row_or_pending_def pend [OF wf] False collect_store split: option.split)
    then show ?thesis using assms wf False by (simp add: tracks_def)
  qed
  moreover have "jwf (co_pending ?c)" by (simp add: collect_pending_changes_def ds)
  ultimately show ?thesis
    by (simp add: tracks_def collect_store keys_ok_def)
qed

lemma persistence_write_cases:
  assumes "batch_writer run"
  shows "(\<exists>d. persistence_write (run b) c = Done (c\<lparr>co_db := d\<rparr>) \<and> co_healthy c \<and> run b (co_db c) = Done d)
     \<or> (\<exists>x h. persistence_write (run b) c = Throws x (c\<lparr>co_healthy := h\<rparr>))"
proof (cases "co_healthy c")
  case False
  then have "persistence_write (run b) c = Throws Persistence_unavailable (c\<lparr>co_healthy := co_healthy c\<rparr>)"
    by (simp add: persistence_write_def ensure_healthy_def)
  then show ?thesis by blast
next
  case True
  show ?thesis
  proof (cases "run b (co_db c)")
    case (Done d)
    with True show ?thesis by (simp add: persistence_write_def ensure_healthy_def)
  next
    case (Throws x d)
    have "d = co_db c" using assms [unfolded batch_writer_def, THEN spec, THEN spec, of b "co_db c"] by (simp add: Throws)
    with True Throws have "persistence_write (run b) c
        = (case x of Stale_epoch \<Rightarrow> Throws Stale_epoch_conflict (c\<lparr>co_healthy := co_healthy c\<rparr>)
           | Db_fault \<Rightarrow> Throws Persistence_unavailable (c\<lparr>co_healthy := False\<rparr>))"
      by (simp add: persistence_write_def ensure_healthy_def split: db_error.split)
    moreover have "c = c\<lparr>co_healthy := co_healthy c\<rparr>" by simp
    ultimately show ?thesis by (cases x) (metis db_error.case(1), metis db_error.case(2))
  qed
qed

lemma tracks_healthy [simp]: "tracks now (c\<lparr>co_healthy := h\<rparr>) = tracks now c"
  by (simp add: tracks_def)

lemma written_batch:
  assumes "tracks now c" and "batch_writer run" and "run (co_pending c) (co_db c) = Done d"
  shows "tracks now (acknowledge_batch (c\<lparr>co_db := d\<rparr>))"
proof -
  have "jget (db_rows d e) k = row_or_pending c e k" if "e \<noteq> E_mlsBacklog" for e k
  proof -
    have "jwf (co_pending c)" using assms(1) by (simp add: tracks_def)
    with assms(2) [unfolded batch_writer_def, THEN spec, THEN spec, of "co_pending c" "co_db c"] assms(3) that
    show ?thesis by (simp add: row_or_pending_def)
  qed
  then have "row_or_pending (acknowledge_batch (c\<lparr>co_db := d\<rparr>)) e k = row_or_pending c e k" if "e \<noteq> E_mlsBacklog" for e k
    using that by (simp add: row_or_pending_def [of "c\<lparr>co_db := d, co_pending := []\<rparr>"] acknowledge_batch_def)
  then show ?thesis
    using assms(1) by (simp add: tracks_def wf_key_def) (simp add: acknowledge_batch_def)
qed

lemma tracks_save_with_batch:
  assumes "tracks now c" and "batch_writer run"
  shows "tracks now (state_of (save_with_batch run lim now c))"
  using persistence_write_cases [OF assms(2), of "co_pending (collect_pending_changes lim now c)" "collect_pending_changes lim now c"]
    written_batch [OF tracks_collect [OF assms(1)] assms(2)] tracks_collect [OF assms(1)]
  by (auto simp: save_with_batch_def Let_def collect_store)

lemma tracks_save_pending:
  assumes "tracks now c"
  shows "tracks now (state_of (save_pending_changes lim now fault c))"
  using persistence_write_cases [OF batch_writers(1), of fault "co_pending (collect_pending_changes lim now c)" "collect_pending_changes lim now c"]
    written_batch [OF tracks_collect [OF assms(1)] batch_writers(1)] tracks_collect [OF assms(1)] assms
  by (cases "co_healthy c") (auto simp: save_pending_changes_def ensure_healthy_def Let_def collect_store)

section \<open>Runs\<close>

text \<open>
  Everything that happens to a coordinator: the relay changes the store by logged operations, and
  saves in one of the ways of store-persistence.ts, with or without a failure of SQLite. The
  number is the time.
\<close>

inductive persisting :: "mls_options \<Rightarrow> int \<Rightarrow> coordinator \<Rightarrow> bool" for lim where
  start: "create_relay_store m t l = Some s \<Longrightarrow>
    persisting lim now \<lparr>co_store = s, co_pending = [], co_healthy = True, co_db = empty_database\<rparr>"
| mutate: "persisting lim now c \<Longrightarrow> logged (co_store c) s \<Longrightarrow> keys_ok (st_log s) \<Longrightarrow> persisting lim now (c\<lparr>co_store := s\<rparr>)"
| wait: "persisting lim now c \<Longrightarrow> now \<le> later \<Longrightarrow> persisting lim later c"
| save: "persisting lim now c \<Longrightarrow> persisting lim now (state_of (save_pending_changes lim now fault c))"
| backlog: "persisting lim now c \<Longrightarrow> persisting lim now (state_of (save_mls_backlog lim now fault fault' key ms c))"
| key_packages: "persisting lim now c \<Longrightarrow> persisting lim now (state_of (save_key_packages lim now fault c))"
| message: "persisting lim now c \<Longrightarrow> persisting lim now (state_of (save_mls_message lim now fault key m pruned c))"
| commit: "persisting lim now c \<Longrightarrow> persisting lim now (state_of (save_mls_commit lim now fault key m pruned c))"

lemma backlog_write_frame:
  fixes fault key ms c
  defines "c' \<equiv> state_of (persistence_write (db_save_mls_backlog fault key ms) c)"
  shows "co_store c' = co_store c" "co_pending c' = co_pending c" "db_rows (co_db c') = db_rows (co_db c)"
  by (simp_all add: c'_def persistence_write_def ensure_healthy_def db_save_mls_backlog_def transaction_def)

lemma tracks_rows:
  assumes "tracks now c" and "co_store c' = co_store c" "co_pending c' = co_pending c" "db_rows (co_db c') = db_rows (co_db c)"
  shows "tracks now c'"
proof -
  have "row_or_pending c' = row_or_pending c" by (simp add: row_or_pending_def fun_eq_iff assms(3,4) split: option.split)
  with assms show ?thesis by (simp add: tracks_def)
qed

lemma persisting_tracks: "persisting lim now c \<Longrightarrow> tracks now c"
proof (induction rule: persisting.induct)
  case (start m t l s now)
  then have "entry_value s e k = None" "st_log s = []" for e k
    by (auto simp: create_relay_store_def empty_store_def entry_value_def split: option.splits entity.split)
  then show ?case by (simp add: tracks_def keys_ok_def covers_def row_or_pending_def empty_database_def)
next
  case (wait now c later)
  then show ?case by (blast intro: tracks_later)
next
  case (backlog now c fault fault' key ms)
  have "tracks now (state_of (persistence_write (db_save_mls_backlog fault key ms) c))"
    by (rule tracks_rows [OF backlog.IH backlog_write_frame])
  then show ?case
    unfolding save_mls_backlog_def by (rule seq_state_inv) (auto intro: tracks_save_pending)
qed (auto simp: save_key_packages_def save_mls_message_def save_mls_commit_def
    intro: tracks_mutate tracks_save_pending tracks_save_with_batch batch_writers)

lemma save_pending_Done:
  assumes "save_pending_changes lim now fault c = Done c'"
  shows "co_pending c' = []" "co_store c' = (co_store c)\<lparr>st_log := []\<rparr>"
  using assms persistence_write_cases [OF batch_writers(1), of fault "co_pending (collect_pending_changes lim now c)" "collect_pending_changes lim now c"]
  by (auto simp: save_pending_changes_def ensure_healthy_def Let_def collect_store acknowledge_batch_def split: if_splits)


text \<open>
  A coordinator that was poisoned by an unexpected failure never writes again: every save
  throws and the database stays as it was.
\<close>

theorem poisoned_coordinator_writes_nothing:
  assumes "\<not> co_healthy c"
  shows "(\<forall>fault. \<exists>c'. save_pending_changes lim now fault c = Throws Persistence_unavailable c' \<and> co_db c' = co_db c \<and> \<not> co_healthy c')
    \<and> (\<forall>fault fault' key ms. \<exists>c'. save_mls_backlog lim now fault fault' key ms c = Throws Persistence_unavailable c'
         \<and> co_db c' = co_db c \<and> \<not> co_healthy c')
    \<and> (\<forall>run. \<exists>c'. save_with_batch run lim now c = Throws Persistence_unavailable c' \<and> co_db c' = co_db c \<and> \<not> co_healthy c')"
  using assms by (auto simp: save_pending_changes_def save_mls_backlog_def save_with_batch_def persistence_write_def ensure_healthy_def
      Let_def collect_store)

lemma latest_id: "jwf xs \<Longrightarrow> latest xs = xs"
proof -
  have "fold (\<lambda>(k, v) m. jset k v m) xs m = m @ xs" if "jwf (m @ xs)" for m
    using that
  proof (induction xs arbitrary: m)
    case Nil
    then show ?case by simp
  next
    case (Cons p xs)
    obtain k v where p: "p = (k, v)" by (cases p)
    have "jset k v m = m @ [(k, v)]" by (rule jset_new) (use Cons.prems in \<open>auto simp: p map_of_eq_None_iff\<close>)
    with Cons p show ?case by simp
  qed
  from this [of "[]"] show "jwf xs \<Longrightarrow> latest xs = xs" by (simp add: latest_def)
qed

text \<open>
  A Commit against another epoch than the stored one is refused without poisoning: the
  database stays as it was, and the batch stays pending, so that the next save writes it.
\<close>

theorem stale_commit_keeps_the_batch:
  assumes "co_healthy c" and "jget (db_epochs (co_db c)) key = Some n" and "n \<noteq> mm_epoch m"
  shows "\<exists>c'. save_mls_commit lim now False key m pruned c = Throws Stale_epoch_conflict c' \<and> co_db c' = co_db c \<and> co_healthy c'
    \<and> co_pending c' = co_pending (collect_pending_changes lim now c)
    \<and> (\<exists>c''. save_pending_changes lim later False c' = Done c'' \<and> co_pending c'' = []
         \<and> (co_pending c' \<noteq> [] \<longrightarrow> co_db c'' = apply_stored_mutations [] (co_pending c') (co_db c)))"
proof -
  let ?c = "collect_pending_changes lim now c" and ?d = "collect_pending_changes lim later (collect_pending_changes lim now c)"
  have run: "save_mls_commit lim now False key m pruned c = Throws Stale_epoch_conflict ?c"
    using assms by (simp add: save_mls_commit_def save_with_batch_def persistence_write_def ensure_healthy_def collect_store
        db_save_mls_commit_def jhas_def Let_def)
  have same: "co_pending ?d = co_pending ?c" if "jwf (co_pending ?c)"
    using that latest_id [OF that] by (simp add: collect_pending_changes_def [of lim later] drain_stored_mutations_def
        collect_store latest_def [of "[]"] jvalues_def)
  have wf: "jwf (co_pending ?c)" by (simp add: collect_pending_changes_def drain_stored_mutations_def)
  have next_save: "save_pending_changes lim later False ?c = Done (if co_pending ?c = [] then ?d
      else acknowledge_batch (?d\<lparr>co_db := apply_stored_mutations [] (co_pending ?c) (co_db c)\<rparr>))"
    using assms(1) same [OF wf]
    by (simp add: save_pending_changes_def ensure_healthy_def collect_store Let_def persistence_write_def db_save_changes_def transaction_def)
  show ?thesis
    using run next_save assms(1) same [OF wf] by (auto simp: collect_store acknowledge_batch_def)
qed

text \<open>
  A batch that is handed over with a message skips every change of a backlog, those of other rooms
  included, and is acknowledged nevertheless: rows of messages that retention removed from another
  room stay in the database until that room's backlog is logged again.
\<close>

lemma message_save_drops_other_backlogs:
  assumes "save_mls_message lim now fault key m pruned c = Done c'"
  shows "st_log (co_store c') = [] \<and> co_pending c' = []
    \<and> filter (\<lambda>x. row_room x \<noteq> key) (db_messages (co_db c')) = filter (\<lambda>x. row_room x \<noteq> key) (db_messages (co_db c))"
proof -
  have skipped: "db_messages (apply_stored_mutations [E_mlsBacklog] changes d) = db_messages d" for changes d
  proof -
    have "db_messages (fold (\<lambda>c d. if List.member [E_mlsBacklog] (fst (fst c)) then d else apply_mutation c d) changes d) = db_messages d" for d
      by (induction changes arbitrary: d)
        (auto simp: apply_mutation_def Let_def put_row_def delete_row_def split: stored_op.split option.split stored.split)
    then show ?thesis by (simp add: apply_stored_mutations_def)
  qed
  have del: "filter (\<lambda>x. row_room x \<noteq> key) (fold (\<lambda>i rows. jdel (key, i) rows) is rows) = filter (\<lambda>x. row_room x \<noteq> key) rows" for "is" rows
    by (induction "is" arbitrary: rows) (auto simp: jdel_def AList.delete_eq intro!: filter_cong)
  have "filter (\<lambda>x. row_room x \<noteq> key) (jset (key, i) v rows) = filter (\<lambda>x. row_room x \<noteq> key) rows" for i v rows
    unfolding jset_def by (induction rows) auto
  then have "filter (\<lambda>x. row_room x \<noteq> key) (db_messages (append_mls_backlog_row key m pruned d)) = filter (\<lambda>x. row_room x \<noteq> key) (db_messages d)" for d
    by (simp add: append_mls_backlog_row_def Let_def del)
  with assms show ?thesis
    by (cases "co_healthy c"; cases fault)
      (auto simp: save_mls_message_def save_with_batch_def persistence_write_def ensure_healthy_def collect_store Let_def
        db_save_mls_message_def transaction_def acknowledge_batch_def skipped)
qed

section \<open>Reloading\<close>

text \<open>The tables keep their keys unique, and the rows of receipts come from keys of receipts.\<close>

definition table_keys_ok :: "entity \<Rightarrow> string list \<Rightarrow> bool" where
  "table_keys_ok e ks \<longleftrightarrow> (\<forall>k' \<in> set ks. e \<noteq> E_mlsBacklog \<longrightarrow> (\<exists>k. wf_key e k \<and> k' = persisted_key e k))"

definition tables_ok :: "database \<Rightarrow> bool" where
  "tables_ok d \<longleftrightarrow> (\<forall>e. jwf (db_rows d e) \<and> table_keys_ok e (jkeys (db_rows d e)))"

definition changes_ok :: "stored_mutation list \<Rightarrow> bool" where
  "changes_ok changes \<longleftrightarrow> (\<forall>((e, k'), _) \<in> set changes. table_keys_ok e [k'])"

lemma jkeys_jset: "set (jkeys (jset k v m)) = insert k (set (jkeys m))"
  by (simp add: jkeys_def jset_def dom_update)

lemma jkeys_jdel: "set (jkeys (jdel k m)) = set (jkeys m) - {k}"
  by (auto simp: jkeys_def jdel_def AList.delete_eq)

lemma apply_mutation_tables:
  assumes "tables_ok d" and "changes_ok [((e, k'), op)]"
  shows "tables_ok (apply_mutation ((e, k'), op) d)"
proof -
  have "db_rows (apply_mutation ((e, k'), op) d) = db_rows d \<or> e \<noteq> E_mlsBacklog
     \<and> (\<exists>v. db_rows (apply_mutation ((e, k'), op) d) = (db_rows d)(e := jset k' v (db_rows d e))
        \<or> db_rows (apply_mutation ((e, k'), op) d) = (db_rows d)(e := jdel k' (db_rows d e)))"
    by (cases op) (auto simp: apply_mutation_def Let_def put_row_def delete_row_def split: option.split stored.split)
  with assms show ?thesis
    by (fastforce simp: tables_ok_def changes_ok_def table_keys_ok_def jkeys_jset jkeys_jdel)
qed

lemma apply_all_tables:
  assumes "tables_ok d" and "changes_ok changes"
  shows "tables_ok (apply_stored_mutations skipped changes d)"
proof -
  have "tables_ok (fold (\<lambda>c d. if List.member skipped (fst (fst c)) then d else apply_mutation c d) changes d)" if "tables_ok d" for d
    using that assms(2)
  proof (induction changes arbitrary: d)
    case Nil
    then show ?case by simp
  next
    case (Cons c changes)
    obtain e k' op where c: "c = ((e, k'), op)" by (cases c) auto
    have "changes_ok changes" "changes_ok [((e, k'), op)]" using Cons.prems(2) by (auto simp: changes_ok_def c)
    with Cons apply_mutation_tables show ?case by (auto simp: c)
  qed
  moreover have "tables_ok (d\<lparr>db_versioned := True\<rparr>)" using assms(1) by (simp add: tables_ok_def)
  ultimately show ?thesis by (simp add: apply_stored_mutations_def)
qed

definition storage_ok :: "coordinator \<Rightarrow> bool" where
  "storage_ok c \<longleftrightarrow> tables_ok (co_db c) \<and> changes_ok (co_pending c) \<and> keys_ok (st_log (co_store c))"

lemma latest_set: "set (latest xs) \<subseteq> set xs"
proof
  fix p assume "p \<in> set (latest xs)"
  then have "jget (latest xs) (fst p) = Some (snd p)" by (simp add: map_of_is_SomeI)
  then show "p \<in> set xs" by (auto simp: latest_get dest!: map_of_SomeD)
qed

lemma collect_storage: "storage_ok c \<Longrightarrow> storage_ok (collect_pending_changes lim now c)"
proof -
  assume ok: "storage_ok c"
  obtain ds s' where ds: "drain_stored_mutations lim now (co_store c) = (ds, s')" by fastforce
  have set_ds: "set ds = encode_mutation lim now (co_store c) ` set (st_log (co_store c))"
    using ds by (auto simp: drain_stored_mutations_def latest_diagonal)
  have "table_keys_ok e [persisted_key e k]" if "(e, k) \<in> set (st_log (co_store c))" for e k
  proof -
    have "e \<noteq> E_mlsBacklog \<Longrightarrow> wf_key e k" using ok that by (auto simp: storage_ok_def keys_ok_def wf_key_def)
    then show ?thesis by (auto simp: table_keys_ok_def)
  qed
  then have "changes_ok ds" by (auto simp: changes_ok_def set_ds encode_mutation_def)
  then have "changes_ok (latest (co_pending c @ ds))"
    using ok latest_set [of "co_pending c @ ds"] unfolding storage_ok_def changes_ok_def by fastforce
  then show ?thesis using ok by (simp add: storage_ok_def collect_store keys_ok_def) (simp add: collect_pending_changes_def ds)
qed

text \<open>Each unit of work keeps the tables well-formed.\<close>

definition table_writer :: "(stored_mutation list \<Rightarrow> database \<Rightarrow> (db_error, database) outcome) \<Rightarrow> bool" where
  "table_writer run \<longleftrightarrow> (\<forall>changes d. tables_ok d \<longrightarrow> changes_ok changes \<longrightarrow> tables_ok (state_of (run changes d)))"

lemma table_writers:
  "table_writer (db_save_changes fault)" "table_writer (db_save_key_packages fault)"
  "table_writer (db_save_mls_message fault key m pruned)" "table_writer (db_save_mls_commit fault key m pruned)"
proof -
  have frame: "db_rows d' = db_rows d \<Longrightarrow> tables_ok d' = tables_ok d" for d d' by (simp add: tables_ok_def)
  have append: "tables_ok (append_mls_backlog_row key m pruned d) = tables_ok d" "tables_ok (d\<lparr>db_epochs := ep\<rparr>) = tables_ok d" for d ep
    by (rule frame; simp)+
  show "table_writer (db_save_changes fault)" "table_writer (db_save_key_packages fault)"
    "table_writer (db_save_mls_message fault key m pruned)" "table_writer (db_save_mls_commit fault key m pruned)"
    by (simp_all add: table_writer_def db_save_changes_def db_save_key_packages_def db_save_mls_message_def db_save_mls_commit_def
        transaction_def Let_def apply_all_tables append)
qed

lemma write_storage:
  assumes "storage_ok c" and "table_writer run"
  shows "storage_ok (state_of (seq (persistence_write (run (co_pending c)) c) (\<lambda>c2. Done (acknowledge_batch c2))))"
proof -
  have "tables_ok (state_of (run (co_pending c) (co_db c)))" using assms by (simp add: table_writer_def storage_ok_def)
  with assms(1) show ?thesis
    by (cases "run (co_pending c) (co_db c)")
      (auto simp: persistence_write_def ensure_healthy_def storage_ok_def acknowledge_batch_def changes_ok_def split: db_error.split)
qed

lemma save_storage:
  assumes "storage_ok c"
  shows "storage_ok (state_of (save_pending_changes lim now fault c))"
    and "table_writer run \<Longrightarrow> storage_ok (state_of (save_with_batch run lim now c))"
  using write_storage [OF collect_storage [OF assms]] collect_storage [OF assms] assms table_writers(1)
  by (simp_all add: save_pending_changes_def save_with_batch_def ensure_healthy_def Let_def)

lemma persisting_storage: "persisting lim now c \<Longrightarrow> storage_ok c"
proof (induction rule: persisting.induct)
  case (start m t l s now)
  then show ?case
    by (auto simp: create_relay_store_def empty_store_def storage_ok_def tables_ok_def changes_ok_def keys_ok_def table_keys_ok_def
        empty_database_def jkeys_def split: option.splits)
next
  case (backlog now c fault fault' key ms)
  have "storage_ok (state_of (persistence_write (db_save_mls_backlog fault key ms) c))"
    using backlog.IH backlog_write_frame [of fault key ms c] by (simp add: storage_ok_def tables_ok_def)
  then show ?case
    unfolding save_mls_backlog_def by (rule seq_state_inv) (auto intro: save_storage)
next
  case (mutate now c s)
  then show ?case by (simp add: storage_ok_def)
qed (auto simp: save_key_packages_def save_mls_message_def save_mls_commit_def intro: save_storage table_writers)

text \<open>An entry is stored under the key that its own fields name.\<close>

definition identified :: "relay_store \<Rightarrow> entity \<Rightarrow> bool" where
  "identified s e \<longleftrightarrow> (\<forall>k v. entry_value s e k = Some v \<longrightarrow> wf_key e k \<and> row_identity e v = Some (persisted_key e k))"

definition live_row :: "int \<Rightarrow> stored \<Rightarrow> bool" where
  "live_row now v \<longleftrightarrow> live_value now v
     \<and> (case v of V_restriction r \<Rightarrow> \<not> is_expired_restriction now r | V_quota q \<Rightarrow> qr_reset q > now | _ \<Rightarrow> True)"

lemma jvalues_get: "jwf m \<Longrightarrow> x \<in> set (jvalues m) \<longleftrightarrow> (\<exists>k. jget m k = Some x)"
  by (force simp: jvalues_def image_iff)

lemma entry_auth:
  "entry_value s E_authSessions k = Some v \<longleftrightarrow> (\<exists>a. v = V_auth a \<and> jget (authSessions s) k = Some a
     \<and> is_auth_session_id_hash k \<and> is_auth_session_id_hash (as_hash a) \<and> as_hash a = k)"
  by (cases "jget (authSessions s) k") (auto simp: entry_value_def)

lemma entry_members:
  "entry_value s E_teamMembers k = Some v \<longleftrightarrow> (\<exists>ms. v = V_members k (jvalues ms) \<and> jget (teamMembers s) k = Some ms)"
  by (auto simp: entry_value_def)

lemma stored_rows_entries:
  assumes wf: "store_wf s" and e: "e \<noteq> E_mlsBacklog"
  shows "v \<in> set (to_stored_rows now s e) \<longleftrightarrow> (\<exists>k. entry_value s e k = Some v \<and> live_row now v)"
proof -
  consider "e = E_authSessions" | "e = E_teamMembers" | "e \<noteq> E_authSessions" "e \<noteq> E_teamMembers" by blast
  then show ?thesis
  proof cases
    case 1
    have "jwf (authSessions s)" using wf by (simp add: store_wf_def)
    then show ?thesis unfolding 1 entry_auth
      by (auto simp: to_stored_rows_def live_row_def live_value_def stored_auth_sessions_def image_iff not_le)
  next
    case 2
    have "jwf (teamMembers s)" using wf by (simp add: store_wf_def)
    then show ?thesis unfolding 2 entry_members
      by (auto simp: to_stored_rows_def live_row_def live_value_def image_iff) force+
  next
    case 3
  have "jwf (accountRestrictions s)" "jwf (accountQuotaRecords s)" "jwf (teams s)" "jwf (rooms s)" "jwf (invites s)"
    "jwf (inviteRequests s)" "jwf (inviteResponses s)" "jwf (inviteAckReceipts s)" "jwf (acceptedMessageReceipts s)"
    "jwf (devices s)" "jwf (keyPackages s)" "jwf (consumedKeyPackages s)" "jwf (attachmentBlobs s)"
    using wf by (simp_all add: store_wf_def)
    then show ?thesis using 3 e
      by (cases e) (auto simp: to_stored_rows_def entry_value_def live_row_def live_value_def jvalues_get image_iff)
  qed
qed

lemma distinct_row_values:
  assumes "jwf m" and "\<And>k v. (k, v) \<in> set m \<Longrightarrow> row_identity e v = Some k"
  shows "distinct (jvalues m)"
proof -
  have "distinct m" using assms(1) by (simp add: distinct_map)
  moreover have "inj_on snd (set m)"
  proof (rule inj_onI)
    fix x y assume "x \<in> set m" "y \<in> set m" "snd x = snd y"
    then show "x = y" using assms(2) by (metis option.inject prod.collapse)
  qed
  ultimately show ?thesis by (simp add: jvalues_def distinct_map)
qed

text \<open>
  What the relay loads after a restart is what it had in memory at the save: for every entity
  but the MLS backlog the rows load without an error, and without the expired ones they are
  exactly the records that toStoredRelayState would have written as a whole.
\<close>

lemma loaded_rows:
  assumes run: "persisting lim now c" and saved: "save_pending_changes lim now fault c = Done c'"
    and wf: "store_wf (co_store c)" and keys: "identified (co_store c) e" and e: "e \<noteq> E_mlsBacklog"
  shows "\<exists>vs. load_json_rows e (co_db c') = Some vs \<and> distinct vs
     \<and> (\<forall>v \<in> set vs. \<exists>k. entry_value (co_store c) e k = Some v)
     \<and> set (filter (live_row now) vs) = set (to_stored_rows now (co_store c) e)"
proof -
  let ?rows = "db_rows (co_db c') e"
  have store: "entry_value (co_store c') = entry_value (co_store c)" using save_pending_Done(2) [OF saved] by simp
  have "tracks now c'" using tracks_save_pending [OF persisting_tracks [OF run], of lim fault] by (simp add: saved)
  then have cov: "covers now (co_store c) e k (jget ?rows (persisted_key e k))" if "wf_key e k" for k
    using save_pending_Done [OF saved] that by (simp add: tracks_def row_or_pending_def)
  have "storage_ok c'" using save_storage(1) [OF persisting_storage [OF run], of lim now fault] by (simp add: saved)
  then have jwf: "jwf ?rows" and known: "table_keys_ok e (jkeys ?rows)" by (simp_all add: storage_ok_def tables_ok_def)
  have row: "\<exists>k. wf_key e k \<and> k' = persisted_key e k \<and> entry_value (co_store c) e k = Some v" if "(k', v) \<in> set ?rows" for k' v
  proof -
    have "k' \<in> set (jkeys ?rows)" using that by (force simp: jkeys_def)
    then obtain k where "wf_key e k" "k' = persisted_key e k" using known e unfolding table_keys_ok_def by blast
    moreover have "jget ?rows k' = Some v" using that jwf by simp
    ultimately show ?thesis using cov unfolding covers_def by blast
  qed
  have loads: "load_json_rows e (co_db c') = Some (jvalues (sort_key fst ?rows))"
    using row keys by (fastforce simp: load_json_rows_def list_all_iff identified_def)
  have "v \<in> set (filter (live_row now) (jvalues (sort_key fst ?rows))) \<longleftrightarrow> (\<exists>k. entry_value (co_store c) e k = Some v \<and> live_row now v)" for v
  proof
    assume "v \<in> set (filter (live_row now) (jvalues (sort_key fst ?rows)))"
    then show "\<exists>k. entry_value (co_store c) e k = Some v \<and> live_row now v" using row by (fastforce simp: jvalues_def)
  next
    assume "\<exists>k. entry_value (co_store c) e k = Some v \<and> live_row now v"
    then obtain k where k: "entry_value (co_store c) e k = Some v" "live_row now v" by blast
    moreover have "wf_key e k" using k keys unfolding identified_def by blast
    ultimately have "jget ?rows (persisted_key e k) = Some v" using cov unfolding covers_def live_row_def by blast
    with k(2) show "v \<in> set (filter (live_row now) (jvalues (sort_key fst ?rows)))"
      by (auto simp: jvalues_def image_iff dest!: map_of_SomeD) (metis snd_conv)
  qed
  then have "set (filter (live_row now) (jvalues (sort_key fst ?rows))) = set (to_stored_rows now (co_store c) e)"
    using stored_rows_entries [OF wf e] by blast
  moreover have "distinct (jvalues (sort_key fst ?rows))"
  proof (rule distinct_row_values [where e = e])
    have "mset (map fst (sort_key fst ?rows)) = mset (map fst ?rows)" by simp
    from mset_eq_imp_distinct_iff [OF this] jwf show "jwf (sort_key fst ?rows)" by simp
    show "row_identity e v = Some k" if "(k, v) \<in> set (sort_key fst ?rows)" for k v
      using row [of k v] that keys by (auto simp: identified_def)
  qed
  moreover have "\<exists>k. entry_value (co_store c) e k = Some v" if "v \<in> set (jvalues (sort_key fst ?rows))" for v
    using that row by (fastforce simp: jvalues_def)
  ultimately show ?thesis using loads by blast
qed

end
