(* ===== verification/Database_Proofs.thy ===== *)
theory Database_Proofs
  imports Database
begin

text \<open>
  The message rows of a room load as the list that was saved: the sort order column keeps the
  order, appending adds at the end, and no write touches another room.
\<close>

definition room_rows :: "string \<Rightarrow> database \<Rightarrow> message_row list" where
  "room_rows key d = filter (\<lambda>x. row_room x = key) (db_messages d)"

definition room_messages :: "string \<Rightarrow> database \<Rightarrow> mls_message list" where
  "room_messages key d = map row_message (sort_key row_order (sort_key row_id (room_rows key d)))"

lemma ordered_room: "filter (\<lambda>x. row_room x = key) (ordered_messages d) = sort_key row_order (sort_key row_id (room_rows key d))"
proof -
  have "filter (\<lambda>x. row_room x = key) (sort_key row_room xs) = filter (\<lambda>x. row_room x = key) xs" for xs
    by (rule sort_key_stable)
  from this [of "sort_key row_order (sort_key row_id (db_messages d))"] show ?thesis
    unfolding ordered_messages_def room_rows_def by (rule trans) (simp only: filter_sort)
qed

lemma loaded_room:
  assumes "load_mls_backlog_rows d = Some ms"
  shows "jget ms key = (if room_messages key d = [] then None else Some (room_messages key d))"
proof -
  have "ms = map (\<lambda>(r, xs). (r, map row_message xs)) (group_by row_room (ordered_messages d))"
    using assms by (simp add: load_mls_backlog_rows_def split: if_splits)
  then show ?thesis by (simp add: map_of_map group_by_get ordered_room room_messages_def)
qed

section \<open>Saving a whole backlog\<close>

definition saved_rows :: "string \<Rightarrow> mls_message list \<Rightarrow> message_row list" where
  "saved_rows key ms = map (\<lambda>p. ((key, mm_id (snd p)), p)) (enumerate 0 ms)"

lemma fold_upserts:
  "jget (fold (\<lambda>(n, m) rows. jset (key, mm_id m) (n, m) rows) xs rows) k
     = (case map_of (rev (map (\<lambda>p. ((key, mm_id (snd p)), p)) xs)) k of None \<Rightarrow> jget rows k | Some v \<Rightarrow> Some v)"
  by (induction xs arbitrary: rows) (auto split: option.splits simp: map_add_def)

lemma fold_upserts_wf: "jwf rows \<Longrightarrow> jwf (fold (\<lambda>(n, m) rows. jset (key, mm_id m) (n, m) rows) xs rows)"
  by (induction xs arbitrary: rows) auto

lemma saved_rows_keys: "map fst (saved_rows key ms) = map (\<lambda>m. (key, mm_id m)) ms"
proof -
  have "map fst (saved_rows key ms) = map (\<lambda>m. (key, mm_id m)) (map snd (enumerate 0 ms))" unfolding saved_rows_def map_map o_def by simp
  then show ?thesis by (simp only: map_snd_enumerate)
qed

lemma save_backlog_set:
  assumes wf: "jwf (db_messages d)" and ids: "distinct (map mm_id ms)"
  shows "jwf (db_messages (save_mls_backlog_rows key ms d))
    \<and> set (db_messages (save_mls_backlog_rows key ms d)) = set (saved_rows key ms) \<union> {x \<in> set (db_messages d). row_room x \<noteq> key}"
proof (cases "ms = []")
  case True
  then show ?thesis using wf by (auto simp: save_mls_backlog_rows_def saved_rows_def jwf_jwhere) (auto simp: jwhere_def)
next
  case False
  let ?P = "\<lambda>(r, i) (_ :: nat \<times> mls_message). r \<noteq> key \<or> List.member (map mm_id ms) i"
  let ?kept = "jwhere ?P (db_messages d)"
  let ?new = "fold (\<lambda>(n, m) rows. jset (key, mm_id m) (n, m) rows) (enumerate 0 ms) ?kept"
  have dist: "jwf (saved_rows key ms)" unfolding saved_rows_keys using ids by (simp add: distinct_map inj_on_def)
  have rev: "map_of (rev (saved_rows key ms)) = map_of (saved_rows key ms)"
    using dist by (subst map_of_inject_set) (auto simp flip: rev_map)
  have get: "jget ?new k = (case map_of (saved_rows key ms) k of None \<Rightarrow> jget ?kept k | Some v \<Rightarrow> Some v)" for k
    unfolding fold_upserts saved_rows_def [symmetric] rev ..
  have dom: "map_of (saved_rows key ms) (r, i) = None \<longleftrightarrow> r \<noteq> key \<or> i \<notin> mm_id ` set ms" for r i
  proof -
    have "fst ` set (saved_rows key ms) = (\<lambda>m. (key, mm_id m)) ` set ms" unfolding set_map [symmetric] saved_rows_keys ..
    then show ?thesis by (auto simp: map_of_eq_None_iff)
  qed
  have wf': "jwf ?new" by (rule fold_upserts_wf) (rule jwf_jwhere [OF wf])
  have kept_get: "jget ?kept (r, i) = (if r \<noteq> key \<or> i \<in> mm_id ` set ms then jget (db_messages d) (r, i) else None)" for r i
    using wf by (simp add: jget_jwhere split: option.split)
  have one: "((r, i), v) \<in> set ?new \<longleftrightarrow> ((r, i), v) \<in> set (saved_rows key ms) \<or> ((r, i), v) \<in> set (db_messages d) \<and> r \<noteq> key" for r i v
  proof -
    have "((r, i), v) \<in> set ?new \<longleftrightarrow> jget ?new (r, i) = Some v" using wf' by simp
    also have "\<dots> \<longleftrightarrow> map_of (saved_rows key ms) (r, i) = Some v \<or> r \<noteq> key \<and> jget (db_messages d) (r, i) = Some v"
      using dom [of r i] unfolding get kept_get by (auto split: option.split)
    also have "\<dots> \<longleftrightarrow> ((r, i), v) \<in> set (saved_rows key ms) \<or> ((r, i), v) \<in> set (db_messages d) \<and> r \<noteq> key"
      unfolding map_of_eq_Some_iff [OF dist] map_of_eq_Some_iff [OF wf] by blast
    finally show ?thesis .
  qed
  have "set ?new = set (saved_rows key ms) \<union> {x \<in> set (db_messages d). row_room x \<noteq> key}"
  proof (rule set_eqI)
    fix x show "x \<in> set ?new \<longleftrightarrow> x \<in> set (saved_rows key ms) \<union> {x \<in> set (db_messages d). row_room x \<noteq> key}"
      using one [of "row_room x" "row_id x" "snd x"] by simp
  qed
  with wf' False show ?thesis by (simp add: save_mls_backlog_rows_def)
qed

lemma sort_orders_unique:
  assumes "set xs = set ys" and "distinct xs" and "distinct (map row_order ys)" and "sorted (map row_order ys)"
  shows "sort_key row_order (sort_key row_id xs) = ys"
proof -
  let ?zs = "sort_key row_order (sort_key row_id xs)"
  have dz: "distinct ?zs" and sz: "set ?zs = set ys" using assms(1,2) by simp_all
  have inj: "inj_on row_order (set ys)" using assms(3) by (simp add: distinct_map)
  have "distinct (map row_order ?zs)" using dz inj sz by (simp add: distinct_map)
  moreover have "sorted (map row_order ?zs)" by (rule sorted_sort_key)
  ultimately show ?thesis
    using assms(3,4) inj sz by (intro map_sorted_distinct_set_unique [of row_order]) auto
qed

lemma distinct_rows: "jwf (db_messages d) \<Longrightarrow> distinct (room_rows key d)"
  by (auto simp: room_rows_def distinct_map)

lemma saved_room:
  assumes "jwf (db_messages d)" and "distinct (map mm_id ms)"
  shows "room_messages key (save_mls_backlog_rows key ms d) = ms"
proof -
  note save = save_backlog_set [OF assms, of key]
  let ?rows = "room_rows key (save_mls_backlog_rows key ms d)"
  have "set ?rows = set (saved_rows key ms)"
    unfolding room_rows_def using save by (auto simp: saved_rows_def)
  moreover have "distinct ?rows" using save distinct_rows by blast
  moreover have orders: "map row_order (saved_rows key ms) = [0..<length ms]"
  proof -
    have "map row_order (saved_rows key ms) = map fst (enumerate 0 ms)" unfolding saved_rows_def map_map o_def by simp
    then show ?thesis by simp
  qed
  ultimately have "sort_key row_order (sort_key row_id ?rows) = saved_rows key ms"
    by (intro sort_orders_unique) (simp_all only: orders sorted_upt distinct_upt)
  moreover have "map row_message (saved_rows key ms) = map snd (enumerate 0 ms)"
    unfolding saved_rows_def map_map o_def by simp
  ultimately show ?thesis by (simp add: room_messages_def)
qed

section \<open>Appending\<close>

lemma sort_append_last:
  assumes "\<And>y. y \<in> set xs \<Longrightarrow> row_order y < row_order x"
  shows "sort_key row_order (sort_key row_id (xs @ [x])) = sort_key row_order (sort_key row_id xs) @ [x]"
proof (rule properties_for_sort_key)
  let ?ys = "sort_key row_order (sort_key row_id xs) @ [x]"
  show "mset ?ys = mset (sort_key row_id (xs @ [x]))" by simp
  show "sorted (map row_order ?ys)"
    using assms by (auto simp: sorted_append sorted_sort_key intro: less_imp_le)
  fix k assume "k \<in> set ?ys"
  show "filter (\<lambda>y. row_order k = row_order y) ?ys = filter (\<lambda>y. row_order k = row_order y) (sort_key row_id (xs @ [x]))"
  proof (cases "row_order k = row_order x")
    case True
    have "filter (\<lambda>y. row_order k = row_order y) xs = []" using assms unfolding True filter_empty_conv by (metis less_irrefl)
    then show ?thesis using True by (simp add: filter_sort)
  next
    case False
    then show ?thesis using sort_key_stable [of row_order "row_order k" "sort_key row_id xs"] by (simp add: filter_sort eq_commute)
  qed
qed

lemma deletes_filter: "fold (\<lambda>i rows. jdel (key, i) rows) pruned rows = filter (\<lambda>x. \<not> (row_room x = key \<and> row_id x \<in> set pruned)) rows"
proof (induction pruned arbitrary: rows)
  case Nil
  then show ?case by simp
next
  case (Cons i pruned)
  then show ?case by (auto simp: jdel_def AList.delete_eq intro!: filter_cong)
qed

lemma filter_jset_other: "\<not> P k \<Longrightarrow> filter (\<lambda>x. P (fst x)) (jset k v m) = filter (\<lambda>x. P (fst x)) m"
  unfolding jset_def by (induction m) auto

definition kept_rows :: "string \<Rightarrow> string list \<Rightarrow> message_row list \<Rightarrow> message_row list" where
  "kept_rows key pruned rows = filter (\<lambda>x. \<not> (row_room x = key \<and> row_id x \<in> set pruned)) rows"

definition next_order :: "nat list \<Rightarrow> nat" where
  "next_order orders = (if orders = [] then 0 else Max (set orders) + 1)"

lemma next_order_less: "n \<in> set orders \<Longrightarrow> n < next_order orders"
  by (auto simp: next_order_def less_Suc_eq_le)

lemma append_shape:
  "db_messages (append_mls_backlog_row key m pruned d)
     = (let rows = kept_rows key pruned (db_messages d) in if jhas rows (key, mm_id m) then rows
        else jset (key, mm_id m) (next_order (map row_order (filter (\<lambda>x. row_room x = key) rows)), m) rows)"
  unfolding append_mls_backlog_row_def Let_def deletes_filter kept_rows_def next_order_def by simp

lemma room_rows_other:
  assumes "r \<noteq> key"
  shows "room_rows r (save_mls_backlog_rows key ms d) = room_rows r d" "room_rows r (append_mls_backlog_row key m pruned d) = room_rows r d"
proof -
  have upserts: "filter (\<lambda>x. row_room x = r) (fold (\<lambda>(n, m) rows. jset (key, mm_id m) (n, m) rows) xs rows) = filter (\<lambda>x. row_room x = r) rows" for xs rows
    by (induction xs arbitrary: rows) (auto simp: filter_jset_other [of "\<lambda>k. fst k = r"] assms [symmetric])
  show "room_rows r (save_mls_backlog_rows key ms d) = room_rows r d"
    using assms by (auto simp: room_rows_def save_mls_backlog_rows_def upserts jwhere_def intro!: filter_cong)
  show "room_rows r (append_mls_backlog_row key m pruned d) = room_rows r d"
  proof -
    have "filter (\<lambda>x. row_room x = r) (kept_rows key pruned rows) = filter (\<lambda>x. row_room x = r) rows" for rows
      using assms by (auto simp: kept_rows_def intro: filter_cong)
    then show ?thesis
      unfolding room_rows_def append_shape Let_def by (simp add: filter_jset_other [of "\<lambda>k. fst k = r"] assms [symmetric])
  qed
qed

lemma appended_room:
  assumes wf: "jwf (db_messages d)" and rows: "list_all message_row_ok (db_messages d)"
  shows "room_messages key (append_mls_backlog_row key m pruned d)
     = (let kept = filter (\<lambda>x. mm_id x \<notin> set pruned) (room_messages key d) in
        if mm_id m \<in> mm_id ` set kept then kept else kept @ [m])"
proof -
  let ?rows = "kept_rows key pruned (db_messages d)"
  let ?mine = "filter (\<lambda>x. row_id x \<notin> set pruned) (room_rows key d)"
  let ?orders = "map row_order (filter (\<lambda>x. row_room x = key) ?rows)"
  let ?next = "next_order ?orders"
  have mine: "filter (\<lambda>x. row_room x = key) ?rows = ?mine" by (auto simp: room_rows_def kept_rows_def intro: filter_cong)
  have id: "mm_id (row_message x) = row_id x" if "x \<in> set (db_messages d)" for x
    using rows that by (simp add: list_all_iff message_row_ok_def)
  have kept: "map row_message (sort_key row_order (sort_key row_id ?mine)) = filter (\<lambda>x. mm_id x \<notin> set pruned) (room_messages key d)"
  proof -
    have "filter (\<lambda>x. row_id x \<notin> set pruned) xs = filter (\<lambda>x. mm_id (row_message x) \<notin> set pruned) xs" if "set xs \<subseteq> set (db_messages d)" for xs
      using that id by (intro filter_cong) auto
    from this [of "sort_key row_order (sort_key row_id (room_rows key d))"] have
      "filter (\<lambda>x. row_id x \<notin> set pruned) (sort_key row_order (sort_key row_id (room_rows key d)))
       = filter (\<lambda>x. mm_id (row_message x) \<notin> set pruned) (sort_key row_order (sort_key row_id (room_rows key d)))"
      by (auto simp: room_rows_def)
    then have "sort_key row_order (sort_key row_id ?mine) = filter (\<lambda>x. mm_id (row_message x) \<notin> set pruned) (sort_key row_order (sort_key row_id (room_rows key d)))"
      by (simp only: filter_sort)
    then show ?thesis by (simp only: room_messages_def filter_map o_def)
  qed
  have ids: "mm_id ` set (filter (\<lambda>x. mm_id x \<notin> set pruned) (room_messages key d)) = row_id ` set ?mine"
  proof -
    have "mm_id (row_message x) = row_id x" if "x \<in> set ?mine" for x using that id by (simp add: room_rows_def)
    then have "(\<lambda>x. mm_id (row_message x)) ` set ?mine = row_id ` set ?mine" by (rule image_cong [OF refl])
    then show ?thesis unfolding kept [symmetric] by (simp add: image_image)
  qed
  have "jwf ?rows" using wf by (simp add: kept_rows_def distinct_map_filter)
  then have has: "jhas ?rows (key, mm_id m) \<longleftrightarrow> mm_id m \<in> row_id ` set ?mine"
    by (auto simp: jhas_def map_of_eq_None_iff room_rows_def image_iff kept_rows_def)
  show ?thesis
  proof (cases "mm_id m \<in> row_id ` set ?mine")
    case True
    then have "room_rows key (append_mls_backlog_row key m pruned d) = ?mine"
      unfolding room_rows_def [of key "append_mls_backlog_row key m pruned d"] append_shape Let_def using has mine by simp
    then show ?thesis using True ids kept by (simp add: room_messages_def [of key "append_mls_backlog_row key m pruned d"])
  next
    case False
    with has have none: "jget ?rows (key, mm_id m) = None" unfolding jhas_def by blast
    have "room_rows key (append_mls_backlog_row key m pruned d) = ?mine @ [((key, mm_id m), ?next, m)]"
      unfolding room_rows_def [of key "append_mls_backlog_row key m pruned d"] append_shape Let_def
      using False has mine by (simp add: jset_new [OF none])
    moreover have "row_order y < ?next" if "y \<in> set ?mine" for y
    proof -
      have "row_order y \<in> set ?orders" using that by (simp add: mine)
      then show ?thesis by (rule next_order_less)
    qed
    then have "sort_key row_order (sort_key row_id (?mine @ [((key, mm_id m), ?next, m)]))
      = sort_key row_order (sort_key row_id ?mine) @ [((key, mm_id m), ?next, m)]"
      by (intro sort_append_last) simp
    ultimately have "room_messages key (append_mls_backlog_row key m pruned d) = map row_message (sort_key row_order (sort_key row_id ?mine)) @ [m]"
      by (simp only: room_messages_def [of key "append_mls_backlog_row key m pruned d"] map_append list.map snd_conv)
    then show ?thesis using False ids kept by simp
  qed
qed

text \<open>
  C21: Saving a backlog of messages with distinct ids and loading the database gives back the list
  in its order. Appending a message, with the ids of the pruned ones, loads as the old list without
  those, followed by the message unless the room still has one of its id. Neither touches what
  loads for any other room.
\<close>

theorem backlog_rows_round_trip:
  assumes wf: "jwf (db_messages d)" and before: "load_mls_backlog_rows d = Some old"
    and ids: "distinct (map mm_id ms)" and rooms: "\<forall>x \<in> set (m # ms). room_key (mm_team x) (mm_room x) = key"
  shows "\<exists>all all'. load_mls_backlog_rows (save_mls_backlog_rows key ms d) = Some all
    \<and> load_mls_backlog_rows (append_mls_backlog_row key m pruned d) = Some all'
    \<and> jget all key = (if ms = [] then None else Some ms)
    \<and> (let kept = filter (\<lambda>x. mm_id x \<notin> set pruned) (case jget old key of None \<Rightarrow> [] | Some xs \<Rightarrow> xs) in
        jget all' key = Some (if mm_id m \<in> mm_id ` set kept then kept else kept @ [m]))
    \<and> (\<forall>r. r \<noteq> key \<longrightarrow> jget all r = jget old r \<and> jget all' r = jget old r)"
proof -
  let ?s = "save_mls_backlog_rows key ms d" and ?a = "append_mls_backlog_row key m pruned d"
  have rows: "list_all message_row_ok (db_messages d)" using before by (simp add: load_mls_backlog_rows_def split: if_splits)
  have "list_all message_row_ok (db_messages ?s)"
    using save_backlog_set [OF wf ids, of key] rows rooms by (auto simp: list_all_iff saved_rows_def message_row_ok_def in_set_enumerate_eq)
  then obtain all where all: "load_mls_backlog_rows ?s = Some all" by (simp add: load_mls_backlog_rows_def)
  have "list_all message_row_ok (db_messages ?a)"
    using rows rooms set_jset_sub
    by (fastforce simp: append_shape Let_def kept_rows_def list_all_iff message_row_ok_def)
  then obtain all' where all': "load_mls_backlog_rows ?a = Some all'" by (simp add: load_mls_backlog_rows_def)
  have old: "(case jget old key of None \<Rightarrow> [] | Some xs \<Rightarrow> xs) = room_messages key d" using loaded_room [OF before, of key] by simp
  have "jget all key = (if ms = [] then None else Some ms)" using loaded_room [OF all, of key] saved_room [OF wf ids, of key] by simp
  moreover have "(let kept = filter (\<lambda>x. mm_id x \<notin> set pruned) (room_messages key d) in
        jget all' key = Some (if mm_id m \<in> mm_id ` set kept then kept else kept @ [m]))"
  proof -
    define kept where "kept = filter (\<lambda>x. mm_id x \<notin> set pruned) (room_messages key d)"
    have "(if mm_id m \<in> mm_id ` set kept then kept else kept @ [m]) \<noteq> []" by auto
    then show ?thesis
      unfolding loaded_room [OF all', of key] appended_room [OF wf rows, of key m pruned] kept_def [symmetric] Let_def by (simp only: if_False)
  qed
  moreover have "jget all r = jget old r \<and> jget all' r = jget old r" if "r \<noteq> key" for r
    using loaded_room [OF all, of r] loaded_room [OF all', of r] loaded_room [OF before, of r] room_rows_other [OF that]
    by (simp add: room_messages_def)
  ultimately show ?thesis using all all' unfolding old by blast
qed

end
