(* ===== verification/Persistence_Witnesses.thy ===== *)
theory Persistence_Witnesses
  imports Persistence_Proofs Database_Proofs Samples
begin

text \<open>
  The properties of the persistence coordinator and of the tables, applied to the sample store: a
  relay that starts empty, enters the sample team, and saves.
\<close>

definition sample_coordinator :: coordinator where
  "sample_coordinator = \<lparr>co_store = sample_store, co_pending = [], co_healthy = True, co_db = empty_database\<rparr>"

lemma sample_store_logged: "logged sample_empty sample_store"
  unfolding sample_store_def set_device_def set_room_def set_team_def
  by (intro device_sm.dm_set_logged [THEN [2] logged_trans] room_sm.dm_set_logged [THEN [2] logged_trans]
      set_team_members_logged [THEN [2] logged_trans] team_sm.dm_set_logged)

lemma sample_log: "st_log sample_store = [(E_teams, ''team''), (E_teamMembers, ''team''), (E_rooms, ''room''),
    (E_devices, device_key ''ann'' ''ann-device''), (E_devices, device_key ''bob'' ''bob-device'')]"
  by code_simp

lemma sample_persisting: "persisting sample_mls 0 sample_coordinator"
proof -
  have "create_relay_store 1000 500 sample_limits = Some sample_empty"
    by (simp add: sample_empty_def create_relay_store_def bc_new_def sample_limits_def)
  from persisting.mutate [OF persisting.start [OF this] _ , of sample_store sample_mls 0]
  show ?thesis using sample_store_logged by (simp add: sample_coordinator_def sample_log keys_ok_def)
qed

lemma healthy_save: "co_healthy c \<Longrightarrow> \<exists>c'. save_pending_changes lim now False c = Done c'"
  by (auto simp: save_pending_changes_def ensure_healthy_def persistence_write_def db_save_changes_def transaction_def collect_store Let_def)

lemma sample_saved: "\<exists>c'. save_pending_changes sample_mls 0 False sample_coordinator = Done c'"
  by (rule healthy_save) (simp add: sample_coordinator_def)

lemma sample_entries: "jget (teams sample_store) ''team'' = Some sample_team" "jvalues (rooms sample_store) = [sample_room]"
  "jget (rooms sample_store) ''room'' = Some sample_room"
  "jkeys (rooms sample_store) = [''room'']"
  by code_simp+


lemma poisoned_coordinator_writes_nothing_witness:
  "\<exists>c'. save_pending_changes sample_mls 0 False (sample_coordinator\<lparr>co_healthy := False\<rparr>) = Throws Persistence_unavailable c'
     \<and> co_db c' = empty_database"
  using poisoned_coordinator_writes_nothing [of "sample_coordinator\<lparr>co_healthy := False\<rparr>" sample_mls 0]
  by (auto simp: sample_coordinator_def)

text \<open>The stored epoch of the room is behind the Commit.\<close>

lemma stale_commit_keeps_the_batch_witness:
  "\<exists>c'. save_mls_commit sample_mls 0 False ''team:room'' (sample_message ''c'' Commit 3) []
       (sample_coordinator\<lparr>co_db := empty_database\<lparr>db_epochs := [(''team:room'', 2)]\<rparr>\<rparr>) = Throws Stale_epoch_conflict c'
     \<and> db_epochs (co_db c') = [(''team:room'', 2)]"
proof -
  let ?c = "sample_coordinator\<lparr>co_db := empty_database\<lparr>db_epochs := [(''team:room'', 2)]\<rparr>\<rparr>"
  have "co_healthy ?c" "jget (db_epochs (co_db ?c)) ''team:room'' = Some 2" "2 \<noteq> mm_epoch (sample_message ''c'' Commit 3)"
    by (simp_all add: sample_coordinator_def sample_message_def)
  from stale_commit_keeps_the_batch [OF this, of sample_mls 0 "[]" 0] show ?thesis by auto
qed

lemma backlog_rows_round_trip_witness:
  "\<exists>all. load_mls_backlog_rows (save_mls_backlog_rows ''team:room'' [sample_message ''b'' Application 3, sample_message ''a'' Application 3]
       empty_database) = Some all
     \<and> jget all ''team:room'' = Some [sample_message ''b'' Application 3, sample_message ''a'' Application 3]"
proof -
  let ?ms = "[sample_message ''b'' Application 3, sample_message ''a'' Application 3]"
  have "jwf (db_messages empty_database)" "load_mls_backlog_rows empty_database = Some []" "distinct (map mm_id ?ms)"
    "\<forall>x \<in> set (sample_message ''b'' Application 3 # ?ms). room_key (mm_team x) (mm_room x) = ''team:room''"
    by (simp_all add: empty_database_def load_mls_backlog_rows_def ordered_messages_def group_by_def sample_message_def room_key_def)
  from backlog_rows_round_trip [OF this, of "[]"] show ?thesis by auto
qed

end
