(* ===== verification/Teams.thy ===== *)
theory Teams
  imports Http
begin

text \<open>
  Teams (apps/relay/src/http/teams.ts): listing, the roles of members, the transfer of ownership,
  the removal of members, archiving and deleting a team, and creating one within the daily quota.

  A handler that waits for an account turn (\<open>acquireAccountMutationTurns\<close>) takes what the relay
  does meanwhile as an argument. \<open>tc_collate\<close> is the collation key of the runtime's locale, whose
  order is the one of \<open>localeCompare\<close>.
\<close>

record team_config =
  tc_env :: env
  tc_teams_per_user :: int
  tc_collate :: "string \<Rightarrow> nat"

section \<open>Reading\<close>

definition list_team_members :: "team_config \<Rightarrow> string \<Rightarrow> relay_store \<Rightarrow> team_member list" where
  "list_team_members tc t s =
     sort_key (\<lambda>m. team_role_rank (m_role m))
       (sort_key (\<lambda>m. tc_collate tc (m_user m))
         (case members_of s t of None \<Rightarrow> [] | Some ms \<Rightarrow> jvalues ms))"

text \<open>\<open>GET /teams\<close>: the teams and the rooms the reader may see.\<close>

definition list_teams :: "env \<Rightarrow> auth_session option \<Rightarrow> relay_store \<Rightarrow> (team list \<times> room list) reply" where
  "list_teams e session s =
     (if \<not> allowed e session then Http_error 401 H_authentication_required
      else
        let user = map_option session_user_of session;
            visible = (case user of Some u \<Rightarrow> team_ids_for_member s u | None \<Rightarrow> map t_id (jvalues (teams s)));
            shown = filter (\<lambda>t. List.member visible (t_id t) \<and> \<not> stamp_set (t_deleted t)) (jvalues (teams s))
        in Reply 200
          (map (\<lambda>t. team_record_for_user s t user) shown,
           filter (\<lambda>r. List.member visible (r_team r) \<and> \<not> stamp_set (r_deleted r)
             \<and> \<not> (case jget (teams s) (r_team r) of None \<Rightarrow> False | Some t \<Rightarrow> stamp_set (t_deleted t))) (jvalues (rooms s))))"

text \<open>\<open>GET /teams/:teamId/members\<close>.\<close>

definition read_team_members :: "team_config \<Rightarrow> auth_session option \<Rightarrow> string \<Rightarrow> relay_store \<Rightarrow> team_member list reply" where
  "read_team_members tc session t s =
     (if \<not> allowed (tc_env tc) session then Http_error 401 H_authentication_required
      else if \<not> jhas (teams s) t then Http_error 404 H_team_not_found
      else if (case session of None \<Rightarrow> False | Some a \<Rightarrow> \<not> has_team_member s t (session_user_of a)) then Http_error 403 H_forbidden
      else Reply 200 (list_team_members tc t s))"

section \<open>Roles\<close>

definition parse_requested_team_role :: "jsv \<Rightarrow> team_role option" where
  "parse_requested_team_role v =
     (if v = J_str ''owner'' then Some Owner else if v = J_str ''admin'' then Some Admin
      else if v = J_str ''member'' then Some Member else None)"

text \<open>The role a request is made with; without authentication it is the owner's.\<close>

definition requester_role :: "relay_store \<Rightarrow> string \<Rightarrow> auth_session option \<Rightarrow> team_role option" where
  "requester_role s t session =
     (case session of None \<Rightarrow> Some Owner | Some a \<Rightarrow> map_option m_role (get_team_member s t (session_user_of a)))"

text \<open>\<open>PATCH /teams/:teamId/members/:userId\<close>: the live member map is written, then saved.\<close>

definition set_member_role ::
  "team_config \<Rightarrow> bool \<Rightarrow> auth_session option \<Rightarrow> string \<Rightarrow> string \<Rightarrow> jsv \<Rightarrow> live
     \<Rightarrow> (team_member \<times> team_member list) reply \<times> live" where
  "set_member_role tc ok session t u body l =
     (if \<not> allowed (tc_env tc) session then (Http_error 401 H_authentication_required, l)
      else
        let s = lv_store l; role = parse_requested_team_role (field_of body ''role'') in
        if \<not> jhas (teams s) t then (Http_error 404 H_team_not_found, l)
        else case role of
          None \<Rightarrow> (Http_error 400 H_invalid_request, l)
        | Some new_role \<Rightarrow>
            if new_role = Owner then (Http_error 400 H_invalid_request, l)
            else (case get_team_member s t u of
              None \<Rightarrow> (Http_error 404 H_team_member_not_found, l)
            | Some target \<Rightarrow>
                if \<not> can_set_team_member_role (requester_role s t session) (m_role target) new_role
                then (Http_error 403 H_forbidden, l)
                else
                  let updated = target\<lparr>m_role := new_role\<rparr> in
                  handle (on_store (member_set t u updated) l) (\<lambda>l1.
                  handle (save_now ok l1) (\<lambda>l2.
                    (Reply 200 (updated, list_team_members tc t (lv_store l2)), l2)))))"

section \<open>Transferring ownership\<close>

text \<open>The loop of \<open>transferTeamOwnership\<close> on the live member map.\<close>

definition transfer_members :: "string \<Rightarrow> string \<Rightarrow> relay_store \<Rightarrow> (store_error, relay_store) outcome" where
  "transfer_members t u s =
     (case members_of s t of
        None \<Rightarrow> Done s
      | Some ms \<Rightarrow>
          for_each (\<lambda>(v, m) s. if v = u \<or> m_role m = Owner then member_set t v (transferred u v m) s else Done s) ms s)"

text \<open>The save, and the previous members again when it fails.\<close>

definition persist_transfer ::
  "team_config \<Rightarrow> int \<Rightarrow> bool \<Rightarrow> string \<Rightarrow> string \<Rightarrow> (string, team_member) jmap \<Rightarrow> live
     \<Rightarrow> (team_member option \<times> team_member list) reply \<times> live" where
  "persist_transfer tc now ok t u ms l =
     (case save_now ok l of
        Throws _ l1 \<Rightarrow>
          handle (on_store (set_team_members t ms) l1) (\<lambda>l2. (Http_error 503 H_persistence_unavailable, l2))
      | Done l1 \<Rightarrow>
          let l2 = (case jget (teams (lv_store l1)) t of
              None \<Rightarrow> l1 | Some team \<Rightarrow> broadcast_workspace_updated (tc_env tc) now team l1)
          in (Reply 200 (get_team_member (lv_store l2) t u, list_team_members tc t (lv_store l2)), l2))"

definition transfer_owner_turn ::
  "team_config \<Rightarrow> int \<Rightarrow> bool \<Rightarrow> auth_session option \<Rightarrow> string \<Rightarrow> string \<Rightarrow> live
     \<Rightarrow> (team_member option \<times> team_member list) reply \<times> live" where
  "transfer_owner_turn tc now ok session t u l =
     (let s = lv_store l in
      if (case session of None \<Rightarrow> False | Some a \<Rightarrow> \<not> is_live_account_session s a now)
      then (Http_error 401 H_authentication_required, l)
      else if \<not> jhas (teams s) t then (Http_error 404 H_team_not_found, l)
      else case (members_of s t, get_team_member s t u) of
        (Some ms, Some target) \<Rightarrow>
          if requester_role s t session \<noteq> Some Owner then (Http_error 403 H_forbidden, l)
          else if (case session of None \<Rightarrow> False | Some a \<Rightarrow> session_user_of a \<noteq> [] \<and> session_user_of a = u)
          then (Http_error 400 H_invalid_request, l)
          else
            handle (on_store (transfer_members t u) l) (persist_transfer tc now ok t u ms)
      | _ \<Rightarrow> (Http_error 404 H_team_member_not_found, l))"

text \<open>\<open>POST /teams/:teamId/members/:userId/transfer-owner\<close>.\<close>

definition transfer_owner ::
  "team_config \<Rightarrow> int \<Rightarrow> bool \<Rightarrow> (live \<Rightarrow> live) \<Rightarrow> auth_session option \<Rightarrow> string \<Rightarrow> string \<Rightarrow> live
     \<Rightarrow> (team_member option \<times> team_member list) reply \<times> live" where
  "transfer_owner tc now ok meanwhile session t u l =
     (if \<not> allowed (tc_env tc) session then (Http_error 401 H_authentication_required, l)
      else transfer_owner_turn tc now ok session t u (if session = None then l else meanwhile l))"

section \<open>Removing a member\<close>

text \<open>\<open>revokeTeamInvites\<close> saves when it revoked an invite.\<close>

definition revoke_team_invites :: "bool \<Rightarrow> string \<Rightarrow> live \<Rightarrow> (live_error, live) outcome" where
  "revoke_team_invites ok t l =
     (case revoke_team_invite_artifacts t (lv_store l) of
        (revoked, s) \<Rightarrow> (let l1 = l\<lparr>lv_store := s\<rparr> in if revoked then save_now ok l1 else Done l1))"

record invite_artifacts =
  ia_invites :: "(string, invite) jmap"
  ia_requests :: "(string, invite_request) jmap"
  ia_responses :: "(string, invite_response) jmap"
  ia_receipts :: "(string, ack_receipt) jmap"

definition snapshot_team_invite_artifacts :: "string \<Rightarrow> relay_store \<Rightarrow> invite_artifacts" where
  "snapshot_team_invite_artifacts t s =
     (let kept = jwhere (\<lambda>_ i. i_team i = t) (invites s) in
      \<lparr>ia_invites = kept,
       ia_requests = jwhere (\<lambda>_ q. List.member (jkeys kept) (q_invite q)) (inviteRequests s),
       ia_responses = jwhere (\<lambda>_ r. List.member (jkeys kept) (s_invite r)) (inviteResponses s),
       ia_receipts = jwhere (\<lambda>_ a. List.member (jkeys kept) (ar_invite a)) (inviteAckReceipts s)\<rparr>)"

definition restore_team_invite_artifacts :: "invite_artifacts \<Rightarrow> relay_store \<Rightarrow> (store_error, relay_store) outcome" where
  "restore_team_invite_artifacts x s =
     seq (for_each (\<lambda>(k, v). dm_set invite_map k v) (ia_invites x) s) (\<lambda>s1.
     seq (for_each (\<lambda>(k, v). dm_set request_map k v) (ia_requests x) s1) (\<lambda>s2.
     seq (for_each (\<lambda>(k, v). dm_set response_map k v) (ia_responses x) s2) (\<lambda>s3.
     for_each (\<lambda>(k, v). dm_set ack_map k v) (ia_receipts x) s3)))"

definition deleted_rooms_hosted_by :: "relay_store \<Rightarrow> string \<Rightarrow> string \<Rightarrow> room list" where
  "deleted_rooms_hosted_by s t u =
     filter (\<lambda>r. r_team r = t \<and> stamp_set (r_deleted r) \<and> r_host_user r = Some u) (jvalues (rooms s))"

definition scrubbed_room :: "room \<Rightarrow> room" where
  "scrubbed_room r = r\<lparr>r_host_user := None, r_host_device := None, r_host := ''Former member'', r_status := Host_offline\<rparr>"

definition scrub_deleted_room_host_identity :: "room list \<Rightarrow> relay_store \<Rightarrow> (store_error, relay_store) outcome" where
  "scrub_deleted_room_host_identity rs = for_each (\<lambda>r. set_room (scrubbed_room r)) rs"

text \<open>The writes of the \<open>try\<close> block and the rollback of the \<open>catch\<close> block.\<close>

definition remove_writes ::
  "bool \<Rightarrow> bool \<Rightarrow> string \<Rightarrow> string \<Rightarrow> (string, team_member) jmap \<Rightarrow> team \<Rightarrow> room list \<Rightarrow> live \<Rightarrow> (live_error, live) outcome" where
  "remove_writes ok1 ok2 t u ms team scrubbed l =
     seq (on_store (scrub_deleted_room_host_identity scrubbed) l) (\<lambda>l1.
     seq (on_store (set_team_members t (jdel u ms)) l1) (\<lambda>l2.
     seq (on_store (set_team (team\<lparr>t_members := length (jdel u ms)\<rparr>)) l2) (\<lambda>l3.
     seq (revoke_team_invites ok1 t l3) (save_now ok2))))"

definition remove_rollback ::
  "string \<Rightarrow> (string, team_member) jmap \<Rightarrow> team \<Rightarrow> room list \<Rightarrow> invite_artifacts \<Rightarrow> relay_store \<Rightarrow> (store_error, relay_store) outcome" where
  "remove_rollback t ms team scrubbed artifacts s =
     seq (set_team_members t ms s) (\<lambda>s1.
     seq (set_team team s1) (\<lambda>s2.
     seq (for_each set_room scrubbed s2) (restore_team_invite_artifacts artifacts)))"

definition answer_removal ::
  "team_config \<Rightarrow> int \<Rightarrow> string \<Rightarrow> string \<Rightarrow> (string, team_member) jmap \<Rightarrow> team \<Rightarrow> room list \<Rightarrow> invite_artifacts
     \<Rightarrow> (live_error, live) outcome \<Rightarrow> team_member list reply \<times> live" where
  "answer_removal tc now t u ms team scrubbed artifacts res =
     (case res of
        Throws _ l1 \<Rightarrow>
          handle (on_store (remove_rollback t ms team scrubbed artifacts) l1)
            (\<lambda>l2. (Http_error 503 H_persistence_unavailable, l2))
      | Done l1 \<Rightarrow>
          let l2 = revoke_team_member_sessions (tc_env tc) now t u l1;
              l3 = (case jget (teams (lv_store l2)) t of
                  None \<Rightarrow> l2 | Some team' \<Rightarrow> broadcast_workspace_updated (tc_env tc) now team' l2)
          in (Reply 200 (list_team_members tc t (lv_store l3)), l3))"

definition remove_member_turn ::
  "team_config \<Rightarrow> int \<Rightarrow> bool \<Rightarrow> bool \<Rightarrow> auth_session option \<Rightarrow> string \<Rightarrow> string \<Rightarrow> live \<Rightarrow> team_member list reply \<times> live" where
  "remove_member_turn tc now ok1 ok2 session t u l =
     (let s = lv_store l in
      if \<not> jhas (teams s) t then (Http_error 404 H_team_not_found, l)
      else case (members_of s t, get_team_member s t u) of
        (Some ms, Some target) \<Rightarrow>
          if \<not> can_remove_team_member (requester_role s t session) (m_role target) then (Http_error 403 H_forbidden, l)
          else if list_ex (\<lambda>r. r_team r = t \<and> \<not> stamp_set (r_deleted r) \<and> r_host_user r = Some u) (jvalues (rooms s))
          then (Http_error 409 H_conflict, l)
          else (case jget (teams s) t of
            None \<Rightarrow> (Http_error 404 H_team_not_found, l)
          | Some team \<Rightarrow>
              let scrubbed = deleted_rooms_hosted_by s t u in
              answer_removal tc now t u ms team scrubbed (snapshot_team_invite_artifacts t s)
                (remove_writes ok1 ok2 t u ms team scrubbed l))
      | _ \<Rightarrow> (Http_error 404 H_team_member_not_found, l))"

text \<open>\<open>DELETE /teams/:teamId/members/:userId\<close>.\<close>

definition remove_member ::
  "team_config \<Rightarrow> int \<Rightarrow> bool \<Rightarrow> bool \<Rightarrow> (live \<Rightarrow> live) \<Rightarrow> auth_session option \<Rightarrow> string \<Rightarrow> string \<Rightarrow> live
     \<Rightarrow> team_member list reply \<times> live" where
  "remove_member tc now ok1 ok2 meanwhile session t u l =
     (if \<not> allowed (tc_env tc) session then (Http_error 401 H_authentication_required, l)
      else
        let l1 = meanwhile l in
        if (case session of None \<Rightarrow> False | Some a \<Rightarrow> \<not> is_live_account_session (lv_store l1) a now)
        then (Http_error 401 H_authentication_required, l1)
        else remove_member_turn tc now ok1 ok2 session t u l1)"

section \<open>Archiving, restoring and deleting a team\<close>

datatype lifecycle_action = Archive | Restore | Delete

definition team_lifecycle_action :: "string \<Rightarrow> lifecycle_action option" where
  "team_lifecycle_action a =
     (if a = ''archive'' then Some Archive else if a = ''restore'' then Some Restore
      else if a = ''delete'' then Some Delete else None)"

definition team_lifecycle_allowed :: "lifecycle_action \<Rightarrow> team_role option \<Rightarrow> bool" where
  "team_lifecycle_allowed a role =
     (if a = Delete then role = Some Owner else role = Some Owner \<or> role = Some Admin)"

definition team_after_lifecycle_action :: "team \<Rightarrow> lifecycle_action \<Rightarrow> int \<Rightarrow> team" where
  "team_after_lifecycle_action t a now = (case a of
     Restore \<Rightarrow> t\<lparr>t_archived := None\<rparr>
   | Archive \<Rightarrow> t\<lparr>t_archived := Some (case t_archived t of None \<Rightarrow> Iso now | Some x \<Rightarrow> x)\<rparr>
   | Delete \<Rightarrow> t\<lparr>t_archived := None, t_deleted := Some (Iso now)\<rparr>)"

definition room_after_team_lifecycle_action :: "room \<Rightarrow> lifecycle_action \<Rightarrow> int \<Rightarrow> room" where
  "room_after_team_lifecycle_action r a now = (case a of
     Restore \<Rightarrow> r\<lparr>r_archived := None\<rparr>
   | Archive \<Rightarrow> r\<lparr>r_archived := Some (case r_archived r of None \<Rightarrow> Iso now | Some x \<Rightarrow> x)\<rparr>
   | Delete \<Rightarrow> r\<lparr>r_archived := None, r_deleted := Some (Iso now)\<rparr>)"

text \<open>\<open>PATCH /teams/:teamId/lifecycle\<close>.\<close>

definition change_team_lifecycle ::
  "env \<Rightarrow> int \<Rightarrow> bool \<Rightarrow> bool \<Rightarrow> auth_session option \<Rightarrow> string \<Rightarrow> string \<Rightarrow> live \<Rightarrow> (team \<times> room list) reply \<times> live" where
  "change_team_lifecycle e now ok1 ok2 session t action l =
     (if \<not> allowed e session then (Http_error 401 H_authentication_required, l)
      else
        let s = lv_store l; role = requester_role s t session in
        case jget (teams s) t of
          None \<Rightarrow> (Http_error 404 H_team_not_found, l)
        | Some team \<Rightarrow>
            if stamp_set (t_deleted team) then (Http_error 404 H_team_not_found, l)
            else if session \<noteq> None \<and> role = None then (Http_error 403 H_forbidden, l)
            else (case team_lifecycle_action action of
              None \<Rightarrow> (Http_error 400 H_invalid_request, l)
            | Some a \<Rightarrow>
                if \<not> team_lifecycle_allowed a role then (Http_error 403 H_forbidden, l)
                else
                  let updated = team_after_lifecycle_action team a now in
                  handle (on_store (set_team updated) l) (\<lambda>l1.
                    let updated_rooms = map (\<lambda>r. room_after_team_lifecycle_action r a now)
                          (filter (\<lambda>r. r_team r = t \<and> \<not> stamp_set (r_deleted r)) (jvalues (rooms (lv_store l1)))) in
                    handle (on_store (for_each set_room updated_rooms) l1) (\<lambda>l2.
                    handle (if a = Delete then revoke_team_invites ok1 t l2 else Done l2) (\<lambda>l3.
                    handle (save_now ok2 l3) (\<lambda>l4.
                      let l5 = fold (broadcast_room_updated e now) updated_rooms (broadcast_workspace_updated e now updated l4)
                      in (Reply 200 (team_record_for_user (lv_store l5) updated (map_option session_user_of session), updated_rooms), l5)))))))"

section \<open>Creating a team\<close>

definition new_team :: "string \<Rightarrow> string \<Rightarrow> auth_session option \<Rightarrow> team" where
  "new_team ident name session =
     \<lparr>t_id = ''team_'' @ ident, t_name = name, t_members = (if session = None then 0 else 1), t_role = None,
      t_archived = None, t_deleted = None\<rparr>"

text \<open>The writes of the \<open>try\<close> block: a signed-in user becomes the owner.\<close>

definition create_team_writes :: "int \<Rightarrow> team \<Rightarrow> auth_session option \<Rightarrow> relay_store \<Rightarrow> (store_error, relay_store) outcome" where
  "create_team_writes now team session s =
     seq (set_team team s) (\<lambda>s1.
       case session of
         None \<Rightarrow> Done s1
       | Some a \<Rightarrow> set_team_members (t_id team)
           [(session_user_of a, \<lparr>m_team = t_id team, m_user = session_user_of a, m_role = Owner, m_joined = Iso now\<rparr>)] s1)"

definition undo_create_team :: "string \<Rightarrow> quota_reservation option \<Rightarrow> relay_store \<Rightarrow> (store_error, relay_store) outcome" where
  "undo_create_team t reservation s =
     (let s1 = delete_team_members t (dm_delete team_map t s) in
      case reservation of None \<Rightarrow> Done s1 | Some v \<Rightarrow> rollback_durable_quota v s1)"

definition answer_creation ::
  "team_config \<Rightarrow> int \<Rightarrow> team \<Rightarrow> auth_session option \<Rightarrow> quota_reservation option \<Rightarrow> (live_error, live) outcome
     \<Rightarrow> team reply \<times> live" where
  "answer_creation tc now team session held res =
     (case res of
        Throws x l2 \<Rightarrow>
          handle (on_store (undo_create_team (t_id team) held) l2) (\<lambda>l3.
            ((case x of L_store (Entry_capacity _ _) \<Rightarrow> Http_error 507 H_capacity_exceeded
              | _ \<Rightarrow> Http_error 503 H_persistence_unavailable), l3))
      | Done l2 \<Rightarrow>
          let l3 = broadcast_workspace_updated (tc_env tc) now team l2;
              kept = (case jget (teams (lv_store l3)) (t_id team) of None \<Rightarrow> team | Some x \<Rightarrow> x)
          in (Reply 201 (team_record_for_user (lv_store l3) kept (map_option session_user_of session)), l3))"

definition create_team_turn ::
  "team_config \<Rightarrow> int \<Rightarrow> bool \<Rightarrow> string \<Rightarrow> auth_session option \<Rightarrow> string \<Rightarrow> live \<Rightarrow> team reply \<times> live" where
  "create_team_turn tc now ok ident session name l =
     (if (case session of None \<Rightarrow> False | Some a \<Rightarrow> \<not> is_live_account_session (lv_store l) a now)
      then (Http_error 401 H_authentication_required, l)
      else
        let (reservation, reserved) = (case session of
            None \<Rightarrow> (None, Done l)
          | Some a \<Rightarrow>
              (case reserve_durable_quota Daily_team_creations (session_user_of a) 1 (tc_teams_per_user tc)
                      (next_utc_midnight now) now (lv_store l) of
                 (decision, res) \<Rightarrow> (Some decision, map_state (\<lambda>s. l\<lparr>lv_store := s\<rparr>) (lift_error res)))) in
        handle reserved (\<lambda>l1.
          if (case reservation of Some (Quota_denied _ _) \<Rightarrow> True | _ \<Rightarrow> False) then (Http_error 429 H_quota_exceeded, l1)
          else
            let team = new_team ident name session;
                held = (case reservation of Some (Quota_allowed v) \<Rightarrow> Some v | _ \<Rightarrow> None) in
            answer_creation tc now team session held (seq (on_store (create_team_writes now team session) l1) (save_now ok))))"

text \<open>
  \<open>POST /teams\<close>: the account turn and the quota turn are awaited in this order, and the session
  is checked after each.
\<close>

definition create_team ::
  "team_config \<Rightarrow> int \<Rightarrow> bool \<Rightarrow> (live \<Rightarrow> live) \<Rightarrow> (live \<Rightarrow> live) \<Rightarrow> string \<Rightarrow> auth_session option \<Rightarrow> jsv \<Rightarrow> live
     \<Rightarrow> team reply \<times> live" where
  "create_team tc now ok account_turn quota_turn ident session body l =
     (if \<not> allowed (tc_env tc) session then (Http_error 401 H_authentication_required, l)
      else case normalize_metadata_text (field_of body ''name'') max_team_name of
        None \<Rightarrow> (Http_error 400 H_invalid_request, l)
      | Some name \<Rightarrow>
          if name = [] then (Http_error 400 H_invalid_request, l)
          else
            let l1 = (if session = None then l else account_turn l) in
            if (case session of None \<Rightarrow> False | Some a \<Rightarrow> \<not> is_live_account_session (lv_store l1) a now)
            then (Http_error 401 H_authentication_required, l1)
            else create_team_turn tc now ok ident session name (quota_turn l1))"

end
