(* ===== verification/Rooms.thy ===== *)
theory Rooms
  imports Teams Devices
begin

text \<open>
  Rooms: creation within the daily and the total quota (apps/relay/src/http/room-create-route.ts and
  room-validation.ts), the bootstrap of the first host (room-host-route.ts), archiving, restoring and
  deleting (room-lifecycle-route.ts), and the settings (room-settings-route.ts).
\<close>

record room_config =
  rc_env :: env
  rc_rooms_per_user :: int
  rc_total_rooms :: nat

definition encrypted_config_fields :: "string list" where
  "encrypted_config_fields = [''projectPath'', ''codexModel'', ''codexModelPolicy'', ''codexReasoningEffort'',
     ''codexReasoningEffortPolicy'', ''codexRawReasoningEnabled'', ''codexSpeed'', ''codexServiceTierPolicy'', ''codexSandboxLevel'']"

definition has_config_field :: "jsv \<Rightarrow> bool" where
  "has_config_field body = (case body of J_obj fs \<Rightarrow> list_ex (\<lambda>f. map_of fs f \<noteq> None) encrypted_config_fields | _ \<Rightarrow> False)"

definition approval_policy_of :: "string \<Rightarrow> approval_policy option" where
  "approval_policy_of s = (if s = ''ask_every_turn'' then Some Ask_every_turn else if s = ''never_host'' then Some Never_host else None)"

definition team_closed :: "relay_store \<Rightarrow> string \<Rightarrow> bool" where
  "team_closed s t = (case jget (teams s) t of None \<Rightarrow> False | Some x \<Rightarrow> stamp_set (t_archived x) \<or> stamp_set (t_deleted x))"

section \<open>Creating a room\<close>

text \<open>The refusals of \<open>allowRoomCreation\<close>, \<open>allowTotalRoomQuota\<close> and \<open>allowQueuedRoomCreation\<close>.\<close>

definition room_creation_refused :: "auth_session option \<Rightarrow> string \<Rightarrow> relay_store \<Rightarrow> (nat \<times> http_code) option" where
  "room_creation_refused session t s =
     (if \<not> jhas (teams s) t then Some (404, H_team_not_found)
      else if team_closed s t then Some (409, H_conflict)
      else if (case session of None \<Rightarrow> False | Some a \<Rightarrow> \<not> has_team_member s t (session_user_of a)) then Some (403, H_forbidden)
      else None)"

definition total_rooms :: "relay_store \<Rightarrow> string list \<Rightarrow> nat" where
  "total_rooms s ts = length (filter (\<lambda>r. List.member ts (r_team r) \<and> \<not> stamp_set (r_deleted r)) (jvalues (rooms s)))"

definition queued_room_refused :: "room_config \<Rightarrow> int \<Rightarrow> auth_session option \<Rightarrow> string \<Rightarrow> relay_store \<Rightarrow> (nat \<times> http_code) option" where
  "queued_room_refused rc now session t s =
     (if (case session of None \<Rightarrow> False | Some a \<Rightarrow> \<not> is_live_account_session s a now) then Some (401, H_authentication_required)
      else case room_creation_refused session t s of
        Some e \<Rightarrow> Some e
      | None \<Rightarrow> (case session of
            None \<Rightarrow> None
          | Some a \<Rightarrow> if total_rooms s (team_ids_for_member s (session_user_of a)) < rc_total_rooms rc then None
                      else Some (429, H_quota_exceeded)))"

text \<open>\<open>parseRoomCreationInput\<close>: the name and the policy, or nothing for an invalid body.\<close>

definition parse_room_creation_input :: "jsv \<Rightarrow> (string \<times> approval_policy) option" where
  "parse_room_creation_input body =
     (if has_config_field body then None
      else case normalize_metadata_text (field_of body ''name'') max_room_name of
        None \<Rightarrow> None
      | Some name \<Rightarrow>
          (case approval_policy_of (if field_of body ''approvalPolicy'' = J_undefined then ''ask_every_turn''
                else js_string (field_of body ''approvalPolicy'')) of
             None \<Rightarrow> None | Some p \<Rightarrow> Some (name, p)))"

definition new_room :: "string \<Rightarrow> string \<Rightarrow> auth_session option \<Rightarrow> string \<times> approval_policy \<Rightarrow> room" where
  "new_room ident t session input =
     \<lparr>r_id = ''room_'' @ ident, r_team = t, r_epoch = None, r_name = fst input,
      r_host = (case session of
          None \<Rightarrow> ''No host''
        | Some a \<Rightarrow> (case normalize_metadata_text (J_str (display_name_for_user (as_user a))) max_host_name of
              None \<Rightarrow> ''Reserved host'' | Some n \<Rightarrow> n)),
      r_host_user = map_option session_user_of session, r_host_device = None, r_status = Host_offline,
      r_policy = snd input, r_archived = None, r_deleted = None\<rparr>"

text \<open>The \<open>catch\<close> block: the room and the reservation are taken back.\<close>

definition rollback_room_creation :: "room option \<Rightarrow> quota_reservation option \<Rightarrow> relay_store \<Rightarrow> (store_error, relay_store) outcome" where
  "rollback_room_creation r reservation s =
     (let s1 = (case r of None \<Rightarrow> s | Some x \<Rightarrow> dm_delete room_map (r_id x) s) in
      case reservation of None \<Rightarrow> Done s1 | Some v \<Rightarrow> rollback_durable_quota v s1)"

definition fail_room_creation :: "live_error \<Rightarrow> room option \<Rightarrow> quota_reservation option \<Rightarrow> live \<Rightarrow> room reply \<times> live" where
  "fail_room_creation x r reservation l =
     handle (on_store (rollback_room_creation r reservation) l) (\<lambda>l1.
       ((case x of L_store (Entry_capacity _ _) \<Rightarrow> Http_error 507 H_capacity_exceeded
         | _ \<Rightarrow> Http_error 503 H_persistence_unavailable), l1))"

definition store_new_room :: "room_config \<Rightarrow> int \<Rightarrow> bool \<Rightarrow> room \<Rightarrow> quota_reservation option \<Rightarrow> live \<Rightarrow> room reply \<times> live" where
  "store_new_room rc now ok r reservation l =
     (case seq (on_store (set_room r) l) (save_now ok) of
        Throws x l1 \<Rightarrow> fail_room_creation x (Some r) reservation l1
      | Done l1 \<Rightarrow> (Reply 201 r, broadcast_room_updated (rc_env rc) now r l1))"

definition create_room_turn ::
  "room_config \<Rightarrow> int \<Rightarrow> bool \<Rightarrow> string \<Rightarrow> auth_session option \<Rightarrow> string \<Rightarrow> string \<times> approval_policy \<Rightarrow> live \<Rightarrow> room reply \<times> live" where
  "create_room_turn rc now ok ident session t input l =
     (case queued_room_refused rc now session t (lv_store l) of
        Some (st, code) \<Rightarrow> (Http_error st code, l)
      | None \<Rightarrow>
          (case session of
             None \<Rightarrow> store_new_room rc now ok (new_room ident t session input) None l
           | Some a \<Rightarrow>
               (case reserve_durable_quota Daily_room_creations (session_user_of a) 1 (rc_rooms_per_user rc)
                       (next_utc_midnight now) now (lv_store l) of
                  (Quota_denied _ _, _) \<Rightarrow> (Http_error 429 H_quota_exceeded, l)
                | (Quota_allowed v, Throws x s) \<Rightarrow> fail_room_creation (L_store x) None None (l\<lparr>lv_store := s\<rparr>)
                | (Quota_allowed v, Done s) \<Rightarrow>
                    store_new_room rc now ok (new_room ident t session input) (Some v) (l\<lparr>lv_store := s\<rparr>))))"

text \<open>
  \<open>POST /rooms\<close>: every admission check runs again after the account turn and after the quota turn.
\<close>

definition create_room ::
  "room_config \<Rightarrow> int \<Rightarrow> bool \<Rightarrow> (live \<Rightarrow> live) \<Rightarrow> (live \<Rightarrow> live) \<Rightarrow> string \<Rightarrow> auth_session option \<Rightarrow> jsv \<Rightarrow> live
     \<Rightarrow> room reply \<times> live" where
  "create_room rc now ok account_turn quota_turn ident session body l =
     (if \<not> allowed (rc_env rc) session then (Http_error 401 H_authentication_required, l)
      else
        let t = string_or_empty (field_of body ''teamId'') in
        case room_creation_refused session t (lv_store l) of
          Some (st, code) \<Rightarrow> (Http_error st code, l)
        | None \<Rightarrow>
            (case parse_room_creation_input body of
               None \<Rightarrow> (Http_error 400 H_invalid_request, l)
             | Some input \<Rightarrow>
                 let l1 = (if session = None then l else account_turn l) in
                 (case queued_room_refused rc now session t (lv_store l1) of
                    Some (st, code) \<Rightarrow> (Http_error st code, l1)
                  | None \<Rightarrow> create_room_turn rc now ok ident session t input (quota_turn l1))))"

section \<open>The first host\<close>

text \<open>
  \<open>isInitialHostBootstrap\<close>: the reserved user of a room without an epoch, from a device with a
  session. Presenting an expired device session drops it.
\<close>

definition is_initial_host_bootstrap ::
  "int \<Rightarrow> string option \<Rightarrow> auth_session option \<Rightarrow> jsv \<Rightarrow> room \<Rightarrow> string option \<Rightarrow> string option \<Rightarrow> string option
     \<Rightarrow> relay_store \<Rightarrow> bool \<times> relay_store" where
  "is_initial_host_bootstrap now token session body r host host_user host_device s =
     (case (session, host_device) of
        (Some a, Some d) \<Rightarrow>
          if \<not> has_exact_keys body [''host'', ''hostUserId'', ''hostDeviceId'', ''hostStatus''] then (False, s)
          else if r_status r \<noteq> Host_offline \<or> r_epoch r \<noteq> None then (False, s)
          else if r_host_user r \<noteq> Some (session_user_of a) \<or> host_user \<noteq> Some (session_user_of a) then (False, s)
          else if host \<noteq> Some (r_host r) then (False, s)
          else has_device_session now token (session_user_of a) d s
      | _ \<Rightarrow> (False, s))"

definition finish_bootstrap :: "env \<Rightarrow> int \<Rightarrow> bool \<Rightarrow> room \<Rightarrow> string option \<Rightarrow> bool \<times> relay_store \<Rightarrow> live \<Rightarrow> room reply \<times> live" where
  "finish_bootstrap e now ok r host_device initial l =
     (let l1 = l\<lparr>lv_store := snd initial\<rparr>;
          updated = r\<lparr>r_host_device := host_device, r_status := Host_active, r_epoch := Some 0\<rparr> in
      if \<not> fst initial then (Http_error 409 H_conflict, l1)
      else handle (on_store (set_room updated) l1) (\<lambda>l2.
           handle (save_now ok l2) (\<lambda>l3.
             (Reply 200 updated, broadcast_room_updated e now updated l3))))"

text \<open>\<open>PATCH /rooms/:roomId/host\<close>; \<open>token\<close> is the header \<open>x-device-session\<close>.\<close>

definition bootstrap_room_host ::
  "env \<Rightarrow> int \<Rightarrow> bool \<Rightarrow> auth_session option \<Rightarrow> string option \<Rightarrow> string \<Rightarrow> jsv \<Rightarrow> live \<Rightarrow> room reply \<times> live" where
  "bootstrap_room_host e now ok session token rid body l =
     (let s = lv_store l;
          host = normalize_metadata_text (field_of body ''host'') max_host_name;
          host_user = normalize_metadata_text (field_of body ''hostUserId'') max_user_id;
          host_device = normalize_metadata_text (field_of body ''hostDeviceId'') max_device_id in
      if \<not> allowed e session then (Http_error 401 H_authentication_required, l)
      else case jget (rooms s) rid of
        None \<Rightarrow> (Http_error 404 H_room_not_found, l)
      | Some r \<Rightarrow>
          if stamp_set (r_archived r) \<or> stamp_set (r_deleted r) \<or> team_closed s (r_team r) then (Http_error 409 H_conflict, l)
          else if (case session of None \<Rightarrow> False | Some a \<Rightarrow> \<not> can_access_room s (r_team r) (r_id r) (session_user_of a))
          then (Http_error 403 H_forbidden, l)
          else if host = None \<or> host_user = None \<or> (field_of body ''hostDeviceId'' \<noteq> J_undefined \<and> host_device = None)
          then (Http_error 400 H_invalid_request, l)
          else if field_of body ''hostStatus'' \<noteq> J_str ''active'' then (Http_error 400 H_invalid_request, l)
          else finish_bootstrap e now ok r host_device
                 (is_initial_host_bootstrap now token session body r host host_user host_device s) l)"

section \<open>Archiving, restoring and deleting\<close>

definition can_manage_room_lifecycle :: "team_role option \<Rightarrow> room \<Rightarrow> requester \<Rightarrow> bool" where
  "can_manage_room_lifecycle role r who =
     (if role = Some Owner \<or> role = Some Admin then True else r_status r = Host_active \<and> is_room_host r who)"

definition revoke_deleted_room_invites :: "room \<Rightarrow> relay_store \<Rightarrow> relay_store" where
  "revoke_deleted_room_invites r s = (if stamp_set (r_deleted r) then snd (revoke_room_invites (r_team r) (r_id r) s) else s)"

text \<open>\<open>PATCH /rooms/:roomId/lifecycle\<close>.\<close>

definition change_room_lifecycle ::
  "env \<Rightarrow> int \<Rightarrow> bool \<Rightarrow> auth_session option \<Rightarrow> string \<Rightarrow> jsv \<Rightarrow> live \<Rightarrow> room reply \<times> live" where
  "change_room_lifecycle e now ok session rid body l =
     (if \<not> allowed e session then (Http_error 401 H_authentication_required, l)
      else
        let s = lv_store l; who = requester_from_request (map_option as_user session) body in
        case jget (rooms s) rid of
          None \<Rightarrow> (Http_error 404 H_room_not_found, l)
        | Some r \<Rightarrow>
            if stamp_set (r_deleted r) \<or> (case jget (teams s) (r_team r) of None \<Rightarrow> False | Some t \<Rightarrow> stamp_set (t_deleted t))
            then (Http_error 404 H_room_not_found, l)
            else if (case session of None \<Rightarrow> False | Some a \<Rightarrow> \<not> has_team_member s (r_team r) (session_user_of a))
            then (Http_error 403 H_forbidden, l)
            else (case team_lifecycle_action (string_or_empty (field_of body ''action'')) of
              None \<Rightarrow> (Http_error 400 H_invalid_request, l)
            | Some a \<Rightarrow>
                if \<not> can_manage_room_lifecycle (requester_role s (r_team r) session) r who then (Http_error 403 H_forbidden, l)
                else if a = Restore \<and> (case jget (teams s) (r_team r) of None \<Rightarrow> False | Some t \<Rightarrow> stamp_set (t_archived t))
                then (Http_error 409 H_conflict, l)
                else
                  let updated = room_after_team_lifecycle_action r a now in
                  handle (on_store (set_room updated) l) (\<lambda>l1.
                  handle (save_now ok (put_store (revoke_deleted_room_invites updated) l1)) (\<lambda>l2.
                    (Reply 200 updated, broadcast_room_updated e now updated l2)))))"

section \<open>Settings\<close>

text \<open>\<open>normalizeRoomSettingsInput\<close> and \<open>roomSettingsInputError\<close>: the changes, or nothing for an invalid body.\<close>

definition room_settings_input :: "jsv \<Rightarrow> (string option \<times> approval_policy option) option" where
  "room_settings_input body =
     (let name = (if field_of body ''name'' = J_undefined then None
                  else normalize_metadata_text (field_of body ''name'') max_room_name);
          policy_text = (if field_of body ''approvalPolicy'' = J_undefined then None
                  else Some (js_string (field_of body ''approvalPolicy''))) in
      if field_of body ''name'' \<noteq> J_undefined \<and> name = None then None
      else case policy_text of
        None \<Rightarrow> Some (name, None)
      | Some p \<Rightarrow> (case approval_policy_of p of None \<Rightarrow> None | Some q \<Rightarrow> Some (name, Some q)))"

text \<open>\<open>PATCH /rooms/:roomId/settings\<close>.\<close>

definition change_room_settings ::
  "env \<Rightarrow> int \<Rightarrow> bool \<Rightarrow> auth_session option \<Rightarrow> string \<Rightarrow> jsv \<Rightarrow> live \<Rightarrow> room reply \<times> live" where
  "change_room_settings e now ok session rid body l =
     (if \<not> allowed e session then (Http_error 401 H_authentication_required, l)
      else if has_config_field body then (Http_error 400 H_invalid_request, l)
      else
        let s = lv_store l; who = requester_from_request (map_option as_user session) body in
        case jget (rooms s) rid of
          None \<Rightarrow> (Http_error 404 H_room_not_found, l)
        | Some r \<Rightarrow>
            if stamp_set (r_archived r) \<or> stamp_set (r_deleted r) \<or> team_closed s (r_team r) then (Http_error 409 H_conflict, l)
            else if (case session of None \<Rightarrow> False | Some a \<Rightarrow> \<not> can_access_room s (r_team r) (r_id r) (session_user_of a))
            then (Http_error 403 H_forbidden, l)
            else if r_status r = Host_active \<and> \<not> is_room_host r who then (Http_error 403 H_forbidden, l)
            else (case room_settings_input body of
              None \<Rightarrow> (Http_error 400 H_invalid_request, l)
            | Some (name, policy) \<Rightarrow>
                let updated = r\<lparr>r_name := (case name of None \<Rightarrow> r_name r | Some n \<Rightarrow> n),
                                r_policy := (case policy of None \<Rightarrow> r_policy r | Some p \<Rightarrow> p)\<rparr> in
                handle (on_store (set_room updated) l) (\<lambda>l1.
                handle (save_now ok l1) (\<lambda>l2.
                  (Reply 200 updated, broadcast_room_updated e now updated l2)))))"

end
