(* ===== verification/Team_Proofs.thy ===== *)
theory Team_Proofs
  imports Teams Dispatch_Proofs Fanout_Proofs Store_Effects
begin

text \<open>
  The properties of teams: over any run of the team operations every team keeps exactly one owner,
  and a removed member leaves nothing behind.
\<close>

section \<open>One owner\<close>

definition sole_owner :: "(string, team_member) jmap \<Rightarrow> string \<Rightarrow> bool" where
  "sole_owner ms o1 \<longleftrightarrow> (\<exists>m. jget ms o1 = Some m) \<and> (\<forall>u m. jget ms u = Some m \<longrightarrow> (m_role m = Owner \<longleftrightarrow> u = o1))"

definition one_owner :: "(string, team_member) jmap \<Rightarrow> bool" where
  "one_owner ms \<longleftrightarrow> jwf ms \<and> (\<exists>o1. sole_owner ms o1)"

definition owned :: "relay_store \<Rightarrow> bool" where
  "owned s \<longleftrightarrow> (\<forall>t. jhas (teams s) t \<longrightarrow> members_of s t \<noteq> None) \<and> (\<forall>t ms. members_of s t = Some ms \<longrightarrow> one_owner ms)
     \<and> (\<forall>t team. jget (teams s) t = Some team \<longrightarrow> t_id team = t)"

lemma one_owner_owners: "one_owner ms \<Longrightarrow> length (owners ms) = 1"
proof -
  assume "one_owner ms"
  then obtain o1 where wf: "jwf ms" and sole: "sole_owner ms o1" by (auto simp: one_owner_def)
  have "set (owners ms) = {o1}"
  proof -
    have "u \<in> set (owners ms) \<longleftrightarrow> (\<exists>m. jget ms u = Some m \<and> m_role m = Owner)" for u
      using wf by (force simp: owners_def image_iff)
    then show ?thesis using sole by (auto simp: sole_owner_def)
  qed
  moreover have "distinct (owners ms)" using wf by (simp add: owners_def distinct_map_filter)
  ultimately show ?thesis by (metis card.empty card_insert_disjoint distinct_card empty_iff finite.emptyI One_nat_def)
qed

lemma owned_cong: "teams s = teams s' \<Longrightarrow> teamMembers s = teamMembers s' \<Longrightarrow> owned s = owned s'"
  by (simp add: owned_def members_of_def)

lemma owned_members:
  assumes "owned s" and "one_owner ms"
  shows "owned (state_of (set_team_members t ms s))"
  using assms by (auto simp: set_team_members_def Let_def log_mutation_def owned_def members_of_def split: outcome.splits)

lemma set_team_maps:
  shows "set_team team s = Done s' \<Longrightarrow> teams s' = jset (t_id team) team (teams s) \<and> teamMembers s' = teamMembers s"
    and "set_team team s = Throws x s' \<Longrightarrow> teams s' = teams s \<and> teamMembers s' = teamMembers s"
  using fields_by_data [OF team_tm.dm_set_data [of "t_id team" team s s']] fields_by_data [OF team_tm.dm_set_throws_data [of "t_id team" team s x s']]
  by (simp_all add: set_team_def)

lemma owned_set_team:
  assumes "owned s" and "members_of s (t_id team) \<noteq> None"
  shows "owned (state_of (set_team team s))"
proof (cases "set_team team s")
  case (Done s')
  then have "store_data s' = (store_data s)\<lparr>teams := jset (t_id team) team (teams s)\<rparr>"
    by (auto simp: set_team_def dest: team_tm.dm_set_data)
  from fields_by_data [OF this] assms show ?thesis by (auto simp: Done owned_def members_of_def jhas_def split: if_splits)
next
  case (Throws x s')
  then have "store_data s' = store_data s" by (auto simp: set_team_def dest: team_tm.dm_set_throws_data)
  from fields_by_data [OF this] assms show ?thesis by (simp add: Throws owned_def members_of_def)
qed

lemma owned_member_set:
  assumes "owned s" and "\<And>ms. members_of s t = Some ms \<Longrightarrow> one_owner (jset u m ms)"
  shows "owned (state_of (member_set t u m s))"
  using assms by (auto simp: member_set_def Let_def log_mutation_def owned_def members_of_def split: outcome.splits option.splits if_splits)

lemma one_owner_set_plain:
  assumes "one_owner ms" and "m_role m \<noteq> Owner" and "\<And>old. jget ms u = Some old \<Longrightarrow> m_role old \<noteq> Owner"
  shows "one_owner (jset u m ms)"
  using assms unfolding one_owner_def sole_owner_def by (auto split: if_splits) metis+

lemma one_owner_del:
  assumes "one_owner ms" and "jget ms u = Some old" and "m_role old \<noteq> Owner"
  shows "one_owner (jdel u ms)"
proof -
  obtain o1 where wf: "jwf ms" and sole: "sole_owner ms o1" using assms(1) by (auto simp: one_owner_def)
  have "u \<noteq> o1" using sole assms(2,3) by (auto simp: sole_owner_def)
  with sole have "sole_owner (jdel u ms) o1" by (auto simp: sole_owner_def)
  with wf show ?thesis by (auto simp: one_owner_def)
qed

lemma one_owner_transfer:
  assumes "jwf ms" and "jget ms u \<noteq> None"
  shows "one_owner (transfer_team_ownership ms u)"
proof -
  have role: "m_role (transferred u v m) = Owner \<longleftrightarrow> v = u" for v m by (auto simp: transferred_def)
  have "sole_owner (transfer_team_ownership ms u) u"
    unfolding sole_owner_def transfer_get using assms(2) by (auto simp: role simp del: map_of_eq_Some_iff)
  with assms(1) show ?thesis by (auto simp: one_owner_def)
qed

section \<open>The operations keep it\<close>

lemma owned_add_member:
  assumes "owned s" and "role \<noteq> Owner"
  shows "owned (state_of (add_team_member now t u role s))"
proof -
  let ?m = "\<lparr>m_team = t, m_user = u, m_role = role, m_joined = Iso now\<rparr>"
  have good: "one_owner (jset u ?m ms)" if "members_of s t = Some ms" "\<not> has_team_member s t u" for ms
    using that assms by (intro one_owner_set_plain) (auto simp: owned_def has_team_member_def jhas_def)
  have step: "owned (state_of (seq (member_set t u ?m s) (\<lambda>s1.
      let ms = (case members_of s1 t of None \<Rightarrow> [(u, ?m)] | Some live \<Rightarrow> live) in
      seq (set_team_members t ms s1) (\<lambda>s2. set_team (team\<lparr>t_members := length ms\<rparr>) s2))))"
    if "jget (teams s) t = Some team" "\<not> has_team_member s t u" for team
  proof -
    have tid: "t_id team = t" using assms(1) that(1) by (simp add: owned_def)
    have known: "members_of s t \<noteq> None" using assms(1) that(1) by (auto simp: owned_def jhas_def)
    have keep: "members_of (state_of (member_set t u ?m s)) t \<noteq> None"
      using known by (auto simp: member_set_def Let_def log_mutation_def members_of_def split: outcome.splits)
    show ?thesis
    proof (rule seq_state_inv [where P = "\<lambda>s. owned s \<and> members_of s t \<noteq> None", THEN conjunct1])
      show "owned (state_of (member_set t u ?m s)) \<and> members_of (state_of (member_set t u ?m s)) t \<noteq> None"
        using owned_member_set [OF assms(1) good [OF _ that(2)]] keep by blast
    next
      fix s1 assume s1: "owned s1 \<and> members_of s1 t \<noteq> None"
      then obtain ms where ms: "members_of s1 t = Some ms" and one: "one_owner ms" by (auto simp: owned_def)
      show "owned (state_of (let ms = (case members_of s1 t of None \<Rightarrow> [(u, ?m)] | Some live \<Rightarrow> live) in
          seq (set_team_members t ms s1) (set_team (team\<lparr>t_members := length ms\<rparr>)))) \<and>
        members_of (state_of (let ms = (case members_of s1 t of None \<Rightarrow> [(u, ?m)] | Some live \<Rightarrow> live) in
          seq (set_team_members t ms s1) (set_team (team\<lparr>t_members := length ms\<rparr>)))) t \<noteq> None"
        unfolding Let_def ms option.case
      proof (rule seq_state_inv [where P = "\<lambda>s. owned s \<and> members_of s t \<noteq> None"])
        show "owned (state_of (set_team_members t ms s1)) \<and> members_of (state_of (set_team_members t ms s1)) t \<noteq> None"
          using owned_members [of s1 ms t] one s1 members_set_team_members [of t ms s1] by (auto simp: members_of_def)
      next
        fix s2 assume s2: "owned s2 \<and> members_of s2 t \<noteq> None"
        then show "owned (state_of (set_team (team\<lparr>t_members := length ms\<rparr>) s2))
            \<and> members_of (state_of (set_team (team\<lparr>t_members := length ms\<rparr>) s2)) t \<noteq> None"
          using owned_set_team [of s2 "team\<lparr>t_members := length ms\<rparr>"] tid by (simp add: set_team_def members_of_def)
      qed
    qed
  qed
  show ?thesis using step assms(1) by (auto simp: add_team_member_def Let_def split: option.split)
qed

text \<open>The transfer loop replaces the whole member map, and no step of it can fail.\<close>

lemma member_set_present:
  assumes "members_of s t = Some ms" and "jget ms u \<noteq> None"
  shows "member_set t u m s = Done (log_mutation E_teamMembers t (s\<lparr>teamMembers := jset t (jset u m ms) (teamMembers s)\<rparr>))"
  using assms by (simp add: member_set_def jhas_def ec_move_def)

lemma jset_middle:
  assumes "jwf (pre @ (v, m) # post)"
  shows "jset v n (pre @ (v, m) # post) = pre @ (v, n) # post"
  using assms unfolding jset_def by (induction pre) auto

lemma transfer_loop:
  assumes "members_of s t = Some (pre @ xs)" and "jwf (pre @ xs)"
  shows "\<exists>s'. for_each (\<lambda>(v, m) s. if v = u \<or> m_role m = Owner then member_set t v (transferred u v m) s else Done s) xs s = Done s'
     \<and> teamMembers s' = jset t (pre @ transfer_team_ownership xs u) (teamMembers s) \<and> teams s' = teams s"
  using assms
proof (induction xs arbitrary: pre s)
  case Nil
  then show ?case by (simp add: transfer_team_ownership_def members_of_def jset_same)
next
  case (Cons p xs)
  obtain v m where p: "p = (v, m)" by (cases p)
  let ?f = "\<lambda>(v, m) s. if v = u \<or> m_role m = Owner then member_set t v (transferred u v m) s else Done s"
  have shape: "transfer_team_ownership (p # xs) u = (v, transferred u v m) # transfer_team_ownership xs u"
    by (simp add: transfer_team_ownership_def p)
  have wf: "jwf ((pre @ [(v, transferred u v m)]) @ xs)" using Cons.prems(2) by (auto simp: p)
  show ?case
  proof (cases "v = u \<or> m_role m = Owner")
    case True
    let ?s = "log_mutation E_teamMembers t (s\<lparr>teamMembers := jset t (pre @ (v, transferred u v m) # xs) (teamMembers s)\<rparr>)"
    have step: "?f p s = Done ?s"
      using True Cons.prems jset_middle [of pre v m xs] member_set_present [OF Cons.prems(1), of v "transferred u v m"]
      by (force simp: p)
    have mem: "members_of ?s t = Some ((pre @ [(v, transferred u v m)]) @ xs)" by (simp add: log_mutation_def members_of_def)
    from Cons.IH [OF mem wf] show ?thesis by (simp add: step shape) (simp add: log_mutation_def)
  next
    case False
    then have same: "transferred u v m = m" by (simp add: transferred_def)
    have mem: "members_of s t = Some ((pre @ [(v, m)]) @ xs)" using Cons.prems(1) by (simp add: p)
    from Cons.IH [OF mem] wf same have "\<exists>s'. for_each ?f xs s = Done s'
       \<and> teamMembers s' = jset t ((pre @ [(v, m)]) @ transfer_team_ownership xs u) (teamMembers s) \<and> teams s' = teams s" by simp
    moreover have "?f p s = Done s" using False by (simp add: p)
    ultimately show ?thesis by (simp add: shape same)
  qed
qed

lemma transfer_members_done:
  assumes "members_of s t = Some ms" and "jwf ms"
  shows "\<exists>s'. transfer_members t u s = Done s' \<and> teamMembers s' = jset t (transfer_team_ownership ms u) (teamMembers s) \<and> teams s' = teams s"
  using transfer_loop [of s t "[]" ms u] assms by (simp add: transfer_members_def)

section \<open>Frames\<close>

lemma owned_frames [simp]:
  "owned (discard_durable_mutations s) = owned s" "owned (dm_delete invite_map k s) = owned s"
  by (rule owned_cong; simp add: discard_durable_mutations_def invite_tm.field_frame [of teams, simplified])+

lemma owned_revoke [simp]: "owned (snd (revoke_invite_artifacts_where f s)) = owned s"
  by (rule owned_cong) (simp_all add: revoke_invite_artifacts_where_def Let_def invite_tm.field_frame [of teams, simplified]
      request_tm.field_frame [of teams, simplified] response_tm.field_frame [of teams, simplified] ack_tm.field_frame [of teams, simplified])

lemma owned_set_room [simp]: "owned (state_of (set_room r s)) = owned s"
  by (rule owned_cong) (simp_all add: set_room_def room_tm.field_frame [of teams, simplified])

lemma owned_rooms_loop: "owned s \<Longrightarrow> owned (state_of (for_each set_room rs s))"
  by (rule for_each_state_inv) auto

lemma owned_restore_invites:
  assumes "owned s"
  shows "owned (state_of (restore_team_invite_artifacts x s))"
proof -
  have frame: "owned (state_of (dm_set invite_map k v s)) = owned s" "owned (state_of (dm_set request_map k q s)) = owned s"
    "owned (state_of (dm_set response_map k r s)) = owned s" "owned (state_of (dm_set ack_map k a s)) = owned s" for k v q r a s
    by (rule owned_cong; simp add: invite_tm.field_frame [of teams, simplified] request_tm.field_frame [of teams, simplified]
        response_tm.field_frame [of teams, simplified] ack_tm.field_frame [of teams, simplified])+
  show ?thesis
    unfolding restore_team_invite_artifacts_def
    by (intro seq_state_inv [where P = owned] for_each_state_inv [where P = owned]) (auto simp: frame assms)
qed

lemma restore_members: "teamMembers (state_of (restore_team_invite_artifacts x s)) = teamMembers s"
  unfolding restore_team_invite_artifacts_def
  by (intro seq_state_inv [where P = "\<lambda>s'. teamMembers s' = teamMembers s"] for_each_state_inv [where P = "\<lambda>s'. teamMembers s' = teamMembers s"])
    auto

lemma on_store_state [simp]: "lv_store (state_of (on_store f l)) = state_of (f (lv_store l))"
  by (simp add: on_store_simps split: outcome.split)

lemma handle_store_inv:
  assumes "P (lv_store (state_of r))" and "\<And>l1. r = Done l1 \<Longrightarrow> P (lv_store l1) \<Longrightarrow> P (lv_store (snd (k l1)))"
  shows "P (lv_store (snd (handle r k)))"
  using assms by (cases r) auto

lemma revoke_team_member_store [simp]: "lv_store (revoke_team_member_sessions e now t u l) = lv_store l"
  unfolding revoke_team_member_sessions_def
  by (rule fold_inv) (simp add: revoke_team_member_session_def Let_def split: option.split)

lemma revoke_invites_store:
  "lv_store (state_of (revoke_team_invites ok t l)) = snd (revoke_team_invite_artifacts t (lv_store l))
     \<or> lv_store (state_of (revoke_team_invites ok t l)) = discard_durable_mutations (snd (revoke_team_invite_artifacts t (lv_store l)))"
  by (simp add: revoke_team_invites_def Let_def case_prod_unfold)

lemma owned_revoke_team_invites: "owned (lv_store l) \<Longrightarrow> owned (lv_store (state_of (revoke_team_invites ok t l)))"
  using revoke_invites_store [of ok t l] by (auto simp: revoke_team_invite_artifacts_def)

section \<open>The handlers keep it\<close>

lemma session_allowed: "en_auth e \<Longrightarrow> allowed e session \<Longrightarrow> \<exists>a. session = Some a"
  by (auto simp: allowed_def)

lemma set_member_role_owned:
  assumes "owned (lv_store l)"
  shows "owned (lv_store (snd (set_member_role tc ok session t u body l)))"
proof -
  have keep: "owned (state_of (member_set t u (target\<lparr>m_role := new_role\<rparr>) (lv_store l)))"
    if "get_team_member (lv_store l) t u = Some target" "can_set_team_member_role r (m_role target) new_role" for target r new_role
    using that assms
    by (intro owned_member_set one_owner_set_plain)
      (auto simp: can_set_team_member_role_def owned_def get_team_member_def split: if_splits)
  show ?thesis
    unfolding set_member_role_def Let_def
    using assms keep by (auto split: option.split intro!: handle_store_inv [where P = owned])
qed

lemma transfer_owner_turn_owned:
  assumes own: "owned (lv_store l)"
  shows "owned (lv_store (snd (transfer_owner_turn tc now ok session t u l)))"
proof -
  have persist: "owned (lv_store (snd (persist_transfer tc now ok t u ms l1)))" if "owned (lv_store l1)" "one_owner ms" for l1 ms
    using that by (auto simp: persist_transfer_def save_now_cases Let_def intro!: handle_store_inv [where P = owned] owned_members split: option.split)
  have "owned (lv_store (snd (handle (on_store (transfer_members t u) l) (persist_transfer tc now ok t u ms))))"
    if ms: "members_of (lv_store l) t = Some ms" and target: "jget ms u \<noteq> None" for ms
  proof (rule handle_store_inv [where P = owned])
    have one: "one_owner ms" using own ms by (simp add: owned_def)
    obtain s' where s': "transfer_members t u (lv_store l) = Done s'" "teams s' = teams (lv_store l)"
        "teamMembers s' = jset t (transfer_team_ownership ms u) (teamMembers (lv_store l))"
      using transfer_members_done [OF ms] one by (auto simp: one_owner_def)
    have new: "one_owner (transfer_team_ownership ms u)" using one target by (intro one_owner_transfer) (auto simp: one_owner_def)
    show "owned (lv_store (state_of (on_store (transfer_members t u) l)))"
      using own new s' by (simp add: owned_def members_of_def)
    show "owned (lv_store (snd (persist_transfer tc now ok t u ms l1)))" if "owned (lv_store l1)" for l1
      using persist that one by blast
  qed
  then show ?thesis
    unfolding transfer_owner_turn_def Let_def
    using own by (auto simp: get_team_member_def split: option.split)
qed

lemma remove_member_turn_owned:
  assumes own: "owned (lv_store l)"
  shows "owned (lv_store (snd (remove_member_turn tc now ok1 ok2 session t u l)))"
proof -
  have writes: "owned (lv_store (state_of (remove_writes ok1 ok2 t u ms team rs l)))"
    and undo: "owned s \<Longrightarrow> members_of s t \<noteq> None \<Longrightarrow> owned (state_of (remove_rollback t ms team rs x s))"
    and kept: "members_of (lv_store (state_of (remove_writes ok1 ok2 t u ms team rs l))) t \<noteq> None"
    if ms: "members_of (lv_store l) t = Some ms" and target: "jget ms u = Some target" "m_role target \<noteq> Owner"
      and team: "jget (teams (lv_store l)) t = Some team" for ms target team rs x s
  proof -
    have one: "one_owner ms" and del: "one_owner (jdel u ms)" and tid: "t_id team = t"
      using own ms team one_owner_del [OF _ target] by (auto simp: owned_def)
    define P where "P s \<longleftrightarrow> owned s \<and> members_of s t \<noteq> None" for s
    have rooms: "P s \<Longrightarrow> P (state_of (set_room r s))" for r s by (simp add: P_def members_of_def set_room_def) (simp flip: set_room_def)
    have members: "one_owner n \<Longrightarrow> P s \<Longrightarrow> P (state_of (set_team_members t n s))" for n s
      using owned_members [of s n t] members_set_team_members [of t n s] by (auto simp: P_def members_of_def)
    have teams: "P s \<Longrightarrow> P (state_of (set_team (team\<lparr>t_members := n\<rparr>) s))" for n s
      using owned_set_team [of s "team\<lparr>t_members := n\<rparr>"] tid by (simp add: P_def members_of_def set_team_def)
    have teams': "P s \<Longrightarrow> P (state_of (set_team team s))" for s
      using owned_set_team [of s team] tid by (simp add: P_def members_of_def set_team_def)
    have invites: "P (lv_store l) \<Longrightarrow> P (lv_store (state_of (revoke_team_invites ok1 t l)))" for l
      using owned_revoke_team_invites [of l ok1 t] revoke_invites_store [of ok1 t l]
      by (auto simp: P_def members_of_def revoke_team_invite_artifacts_def revoke_invite_artifacts_where_def Let_def discard_durable_mutations_def)
    have save: "P (lv_store l) \<Longrightarrow> P (lv_store (state_of (save_now ok l)))" for ok l
      by (simp add: P_def members_of_def discard_durable_mutations_def) (simp add: owned_def members_of_def)
    have "P (lv_store (state_of (remove_writes ok1 ok2 t u ms team rs l)))"
      unfolding remove_writes_def
    proof (intro seq_state_inv [where P = "\<lambda>l. P (lv_store l)"] save invites)
      show "P (lv_store (state_of (on_store (scrub_deleted_room_host_identity rs) l)))"
        unfolding scrub_deleted_room_host_identity_def on_store_state
      proof (rule for_each_state_inv [where P = P])
        show "P (lv_store l)" using own ms by (simp add: P_def)
      qed (rule rooms)
    qed (simp_all add: members del teams)
    then show "owned (lv_store (state_of (remove_writes ok1 ok2 t u ms team rs l)))"
      and "members_of (lv_store (state_of (remove_writes ok1 ok2 t u ms team rs l))) t \<noteq> None" by (simp_all add: P_def)
    assume s: "owned s" "members_of s t \<noteq> None"
    have restore: "P s \<Longrightarrow> P (state_of (restore_team_invite_artifacts x s))" for s
      by (simp add: P_def owned_restore_invites members_of_def restore_members)
    have "P (state_of (remove_rollback t ms team rs x s))"
      unfolding remove_rollback_def
      by (intro seq_state_inv [where P = P] for_each_state_inv [where P = P])
        (use s one in \<open>auto simp: P_def [of s] intro: members teams' rooms restore\<close>)
    then show "owned (state_of (remove_rollback t ms team rs x s))" by (simp add: P_def)
  qed
  have "owned (lv_store (snd (answer_removal tc now t u ms team rs x (remove_writes ok1 ok2 t u ms team rs l))))"
    if "members_of (lv_store l) t = Some ms" "jget ms u = Some target" "m_role target \<noteq> Owner" "jget (teams (lv_store l)) t = Some team"
    for ms target team rs x
    using writes [OF that, of rs] kept [OF that, of rs] undo [OF that, of _ rs x]
    by (cases "remove_writes ok1 ok2 t u ms team rs l")
      (auto simp: answer_removal_def Let_def intro!: handle_store_inv [where P = owned] split: option.split)
  then show ?thesis
    unfolding remove_member_turn_def Let_def
    using own by (auto simp: get_team_member_def can_remove_team_member_def split: option.split)
qed

lemma lifecycle_ids [simp]: "t_id (team_after_lifecycle_action t a now) = t_id t"
  by (simp add: team_after_lifecycle_action_def split: lifecycle_action.split)

lemma change_team_lifecycle_owned:
  assumes own: "owned (lv_store l)"
  shows "owned (lv_store (snd (change_team_lifecycle e now ok1 ok2 session t action l)))"
proof -
  have team: "owned (state_of (set_team (team_after_lifecycle_action team a now) (lv_store l)))"
    if "jget (teams (lv_store l)) t = Some team" for team a
    using own that by (intro owned_set_team) (auto simp: owned_def jhas_def)
  have loop: "fold (broadcast_room_updated e now) rs x = y \<Longrightarrow> lv_store y = lv_store x" for rs x y
    by (auto simp: fold_inv)
  show ?thesis
    unfolding change_team_lifecycle_def Let_def
    using own team
    by (auto split: option.split simp: loop [OF refl]
        intro!: handle_store_inv [where P = owned] owned_rooms_loop owned_revoke_team_invites)
qed

lemma create_team_turn_owned:
  assumes own: "owned (lv_store l)" and session: "session \<noteq> None"
    and fresh: "jget (teams (lv_store l)) (''team_'' @ ident) = None" "members_of (lv_store l) (''team_'' @ ident) = None"
  shows "owned (lv_store (snd (create_team_turn tc now ok ident session name l)))"
proof -
  obtain a where a: "session = Some a" using session by blast
  let ?team = "new_team ident name session"
  let ?P = "\<lambda>s. owned s \<and> jget (teams s) (t_id ?team) = None \<and> members_of s (t_id ?team) = None"
  have id: "t_id ?team = ''team_'' @ ident" by (simp add: new_team_def)
  have quota: "?P (state_of (dm_set quota_map k q s)) = ?P s" "?P (dm_delete quota_map k s) = ?P s" for k q s
  proof -
    have frames: "teams (state_of (dm_set quota_map k q s)) = teams s" "teams (dm_delete quota_map k s) = teams s"
      "teamMembers (state_of (dm_set quota_map k q s)) = teamMembers s" "teamMembers (dm_delete quota_map k s) = teamMembers s"
      by (simp_all add: quota_tm.field_frame [of teams, simplified] quota_tm.field_frame [of teamMembers, simplified])
    then show "?P (state_of (dm_set quota_map k q s)) = ?P s" "?P (dm_delete quota_map k s) = ?P s"
      by (simp_all add: owned_def members_of_def)
  qed
  have reserve: "?P s \<Longrightarrow> ?P (state_of (snd (reserve_durable_quota q u n lim r now s)))" for q u n lim r now s
    using quota(1) by (simp add: reserve_durable_quota_def Let_def)
  let ?Q = "\<lambda>s0 s. \<forall>t. t \<noteq> t_id ?team \<longrightarrow> jget (teams s) t = jget (teams s0) t \<and> members_of s t = members_of s0 t"
  have away: "?Q s0 (state_of (create_team_writes now ?team session s0))" for s0
    unfolding create_team_writes_def
  proof (rule seq_state_inv [where P = "?Q s0"])
    show "?Q s0 (state_of (set_team ?team s0))"
      using set_team_maps [of ?team s0] by (cases "set_team ?team s0") (auto simp: members_of_def)
    show "?Q s0 s1 \<Longrightarrow> ?Q s0 (state_of (case session of None \<Rightarrow> Done s1 | Some a \<Rightarrow> set_team_members (t_id ?team)
          [(session_user_of a, \<lparr>m_team = t_id ?team, m_user = session_user_of a, m_role = Owner, m_joined = Iso now\<rparr>)] s1))" for s1
      by (auto simp: set_team_members_def Let_def log_mutation_def members_of_def split: option.split outcome.split)
  qed
  have undone: "owned (lv_store (snd (handle (on_store (undo_create_team (t_id ?team) held) l1) k)))"
    if p: "?P s0" and q: "?Q s0 (lv_store l1)" and k: "\<And>l. snd (k l) = l" for s0 l1 held and k :: "live \<Rightarrow> team reply \<times> live"
  proof (rule handle_store_inv [where P = owned])
    let ?s = "delete_team_members (t_id ?team) (dm_delete team_map (t_id ?team) (lv_store l1))"
    have d: "store_data ?s = (store_data (lv_store l1))\<lparr>teams := jdel (t_id ?team) (teams (lv_store l1)),
        teamMembers := jdel (t_id ?team) (teamMembers (lv_store l1))\<rparr>"
      by (simp add: delete_team_members_data team_tm.dm_delete_data)
    have "?P ?s"
      using p q fields_by_data(4,16) [OF d] by (auto simp: owned_def members_of_def jhas_def)
    then have "?P (state_of (undo_create_team (t_id ?team) held (lv_store l1)))"
      using quota by (auto simp: undo_create_team_def Let_def rollback_durable_quota_def split: option.split)
    then show "owned (lv_store (state_of (on_store (undo_create_team (t_id ?team) held) l1)))" by simp
  qed (simp add: k)
  have answer: "owned (lv_store (snd (answer_creation tc now ?team session held
      (seq (on_store (create_team_writes now ?team session) l1) (save_now ok)))))" if p: "?P (lv_store l1)" for l1 held
  proof (cases "create_team_writes now ?team session (lv_store l1)")
    case (Throws x s)
    then show ?thesis
      using undone [OF p, of "l1\<lparr>lv_store := s\<rparr>"] away [of "lv_store l1"] by (simp add: answer_creation_def on_store_simps)
  next
    case (Done s)
    let ?ms = "[(session_user_of a, \<lparr>m_team = t_id ?team, m_user = session_user_of a, m_role = Owner, m_joined = Iso now\<rparr>)]"
    obtain s1 where 1: "set_team ?team (lv_store l1) = Done s1" and 2: "set_team_members (t_id ?team) ?ms s1 = Done s"
      using Done by (auto simp: create_team_writes_def a elim: seq_DoneE)
    have "one_owner ?ms" by (auto simp: one_owner_def sole_owner_def)
    then have own': "owned s"
      using p set_team_maps(1) [OF 1] fields_by_data(4,16) [OF set_team_members_data [OF 2]]
      by (auto simp: owned_def members_of_def jhas_def split: if_splits)
    have q: "?Q (lv_store l1) (discard_durable_mutations s)" using away [of "lv_store l1"] by (simp add: Done discard_durable_mutations_def members_of_def)
    show ?thesis
      using Done own' undone [OF p, of "poison (l1\<lparr>lv_store := discard_durable_mutations s\<rparr>)"] q
      by (simp add: answer_creation_def on_store_simps save_now_cases Let_def put_store_def)
  qed
  obtain d res where res: "reserve_durable_quota Daily_team_creations (session_user_of a) 1 (tc_teams_per_user tc)
      (next_utc_midnight now) now (lv_store l) = (d, res)" by fastforce
  have p: "?P (lv_store l)" using own fresh by (simp add: id)
  then have kept: "?P (state_of res)" using reserve [OF p] res by (metis snd_conv)
  show ?thesis
    using p kept res answer by (cases res)
      (auto simp: create_team_turn_def a Let_def split: quota_decision.split)
qed

section \<open>Runs\<close>

text \<open>
  What may happen to teams while authentication is required: the operations on them, the joins and
  acknowledgements that add a member, and anything that touches neither the teams nor their members.
  A waiting handler lets other steps run first. A new team has an id that is not in use.
\<close>

inductive team_run :: "team_config \<Rightarrow> live \<Rightarrow> bool" for tc where
  start: "create_relay_store m t b = Some s \<Longrightarrow> team_run tc (fresh_live s)"
| elsewhere: "team_run tc l \<Longrightarrow> teams (lv_store l') = teams (lv_store l) \<Longrightarrow> teamMembers (lv_store l') = teamMembers (lv_store l)
    \<Longrightarrow> team_run tc l'"
| joined: "team_run tc l \<Longrightarrow> team_run tc (state_of (add_member_live (tc_env tc) now ok t u Member l))"
| role: "team_run tc l \<Longrightarrow> team_run tc (snd (set_member_role tc ok session t u body l))"
| owner: "team_run tc l \<Longrightarrow> team_run tc (wait l) \<Longrightarrow> team_run tc (snd (transfer_owner tc now ok wait session t u l))"
| removal: "team_run tc l \<Longrightarrow> team_run tc (wait l) \<Longrightarrow> team_run tc (snd (remove_member tc now ok1 ok2 wait session t u l))"
| lifecycle: "team_run tc l \<Longrightarrow> team_run tc (snd (change_team_lifecycle (tc_env tc) now ok1 ok2 session t action l))"
| creation: "team_run tc l \<Longrightarrow> team_run tc (wait l) \<Longrightarrow> team_run tc (wait' (wait l))
    \<Longrightarrow> jget (teams (lv_store (wait' (wait l)))) (''team_'' @ ident) = None
    \<Longrightarrow> members_of (lv_store (wait' (wait l))) (''team_'' @ ident) = None
    \<Longrightarrow> team_run tc (snd (create_team tc now ok wait wait' ident session body l))"

lemma add_member_live_owned:
  assumes "owned (lv_store l)"
  shows "owned (lv_store (state_of (add_member_live e now ok t u Member l)))"
  unfolding add_member_live_def
  using assms owned_add_member [OF assms, of Member now t u]
  by (auto intro!: seq_state_inv [where P = "\<lambda>l. owned (lv_store l)"] split: option.split)

lemma team_run_owned:
  assumes "team_run tc l" and auth: "en_auth (tc_env tc)"
  shows "owned (lv_store l)"
  using assms(1)
proof induction
  case (start m t b s)
  then show ?case by (auto simp: create_relay_store_def empty_store_def owned_def members_of_def jhas_def fresh_live_def split: option.splits)
next
  case (elsewhere l l')
  then show ?case using owned_cong by metis
next
  case (owner l "wait" now ok session t u)
  then show ?case by (simp add: transfer_owner_def transfer_owner_turn_owned)
next
  case (removal l "wait" now ok1 ok2 session t u)
  then show ?case by (simp add: remove_member_def Let_def remove_member_turn_owned)
next
  case (creation l "wait" wait' ident now ok session body)
  show ?case
  proof (cases session)
    case None
    then show ?thesis using creation.IH auth by (simp add: create_team_def allowed_def)
  next
    case (Some a)
    then have "session \<noteq> None" by simp
    from create_team_turn_owned [OF creation.IH(3) this creation.hyps(4,5)] show ?thesis
      using creation.IH Some by (auto simp: create_team_def Let_def split: option.split)
  qed
qed (auto intro: add_member_live_owned set_member_role_owned change_team_lifecycle_owned)


section \<open>A removed member\<close>

lemma scrub_rooms:
  assumes "scrub_deleted_room_host_identity rs s = Done s'"
  shows "store_data s' = (store_data s)\<lparr>rooms := fold (\<lambda>r. jset (r_id r) (scrubbed_room r)) rs (rooms s)\<rparr>"
  using assms
proof (induction rs arbitrary: s)
  case Nil
  then show ?case by (simp add: scrub_deleted_room_host_identity_def store_data_def)
next
  case (Cons r rs)
  then obtain s1 where 1: "set_room (scrubbed_room r) s = Done s1" and 2: "scrub_deleted_room_host_identity rs s1 = Done s'"
    by (auto simp: scrub_deleted_room_host_identity_def elim: seq_DoneE)
  have d: "store_data s1 = (store_data s)\<lparr>rooms := jset (r_id r) (scrubbed_room r) (rooms s)\<rparr>"
    using room_tm.dm_set_data [OF 1 [unfolded set_room_def]] by (simp add: scrubbed_room_def)
  from Cons.IH [OF 2] d fields_by_data(5) [OF d] show ?case by simp
qed

lemma scrubbed_get:
  assumes "jget (fold (\<lambda>r. jset (r_id r) (scrubbed_room r)) rs m) k = Some x"
  shows "r_host_user x = None \<or> jget m k = Some x \<and> k \<notin> r_id ` set rs"
  using assms
proof (induction rs arbitrary: m)
  case Nil
  then show ?case by simp
next
  case (Cons r rs)
  from Cons.IH [of "jset (r_id r) (scrubbed_room r) m"] Cons.prems
  have "r_host_user x = None \<or> jget (jset (r_id r) (scrubbed_room r) m) k = Some x \<and> k \<notin> r_id ` set rs" by simp
  then show ?case by (cases "k = r_id r") (auto simp: scrubbed_room_def)
qed

lemma fold_jset_wf: "jwf m \<Longrightarrow> jwf (fold (\<lambda>r. jset (f r) (g r)) rs m)"
  by (induction rs arbitrary: m) auto

lemma on_store_DoneD: "on_store f l = Done l1 \<Longrightarrow> f (lv_store l) = Done (lv_store l1)"
  by (auto simp: on_store_simps split: outcome.splits)

lemma removed_writes:
  assumes run: "remove_writes ok1 ok2 t u ms team rs l = Done l1" and ok: "store_ok (lv_store l)" and wf: "jwf ms"
  shows "teamMembers (lv_store l1) = jset t (jdel u ms) (teamMembers (lv_store l))
    \<and> teams (lv_store l1) = jset (t_id team) (team\<lparr>t_members := length (jdel u ms)\<rparr>) (teams (lv_store l))
    \<and> rooms (lv_store l1) = fold (\<lambda>r. jset (r_id r) (scrubbed_room r)) rs (rooms (lv_store l))
    \<and> invites (lv_store l1) = jwhere (\<lambda>_ i. i_team i \<noteq> t) (invites (lv_store l))"
proof -
  from run obtain a where 1: "on_store (scrub_deleted_room_host_identity rs) l = Done a"
    and run1: "seq (on_store (set_team_members t (jdel u ms)) a) (\<lambda>l2.
     seq (on_store (set_team (team\<lparr>t_members := length (jdel u ms)\<rparr>)) l2) (\<lambda>l3.
     seq (revoke_team_invites ok1 t l3) (save_now ok2))) = Done l1"
    unfolding remove_writes_def by (rule seq_DoneE)
  from run1 obtain b where 2: "on_store (set_team_members t (jdel u ms)) a = Done b"
    and run2: "seq (on_store (set_team (team\<lparr>t_members := length (jdel u ms)\<rparr>)) b) (\<lambda>l3.
     seq (revoke_team_invites ok1 t l3) (save_now ok2)) = Done l1" by (rule seq_DoneE)
  from run2 obtain c where 3: "on_store (set_team (team\<lparr>t_members := length (jdel u ms)\<rparr>)) b = Done c"
    and run3: "seq (revoke_team_invites ok1 t c) (save_now ok2) = Done l1" by (rule seq_DoneE)
  from run3 obtain d where 4: "revoke_team_invites ok1 t c = Done d" and 5: "save_now ok2 d = Done l1" by (rule seq_DoneE)
  note s1 = on_store_DoneD [OF 1] and s2 = on_store_DoneD [OF 2] and s3 = on_store_DoneD [OF 3, unfolded set_team_def]
  note d1 = fields_by_data(4,5,6,16) [OF scrub_rooms [OF s1]]
  note d2 = fields_by_data(4,5,6,16) [OF set_team_members_data [OF s2]]
  note d3 = fields_by_data(4,5,6,16) [OF team_tm.dm_set_data [OF s3]]
  have oka: "store_ok (lv_store a)"
    using for_each_state_inv [of rs store_ok "\<lambda>r. set_room (scrubbed_room r)" "lv_store l"] ok s1
    by (simp add: scrub_deleted_room_host_identity_def set_room_def room_tm.dm_set_ok)
  have "store_ok (lv_store b)" using set_team_members_ok [OF oka, of "jdel u ms" t] wf s2 by simp
  then have okc: "store_ok (lv_store c)"
    using team_tm.dm_set_ok [of "lv_store b" "t_id (team\<lparr>t_members := length (jdel u ms)\<rparr>)" "team\<lparr>t_members := length (jdel u ms)\<rparr>"] s3 by simp
  have s4: "store_data (lv_store d) = store_data (snd (revoke_team_invite_artifacts t (lv_store c)))"
    using revoke_invites_store [of ok1 t c] 4 by auto
  have s5: "store_data (lv_store l1) = store_data (lv_store d)" using 5 by (simp add: save_now_cases split: if_splits) auto
  have invites: "invites (snd (revoke_team_invite_artifacts t s)) = jwhere (\<lambda>_ i. i_team i \<noteq> t) (invites s)"
    and "teams (snd (revoke_team_invite_artifacts t s)) = teams s" "rooms (snd (revoke_team_invite_artifacts t s)) = rooms s"
      "teamMembers (snd (revoke_team_invite_artifacts t s)) = teamMembers s" if "store_ok s" for s
    unfolding revoke_team_invite_artifacts_def revoke_invite_artifacts_where_def Let_def snd_conv
    using invite_tm.dm_delete_where_get [OF that, of "\<lambda>_ i. i_team i = t"]
    by (simp_all add: invite_tm.field_frame [of teams, simplified] request_tm.field_frame [of teams, simplified]
      response_tm.field_frame [of teams, simplified] ack_tm.field_frame [of teams, simplified]
      invite_tm.field_frame [of rooms, simplified] request_tm.field_frame [of rooms, simplified]
      response_tm.field_frame [of rooms, simplified] ack_tm.field_frame [of rooms, simplified]
      request_tm.field_frame [of invites, simplified]
      response_tm.field_frame [of invites, simplified] ack_tm.field_frame [of invites, simplified])
  from this [OF okc] fields_by_data(4,5,6,16) [OF s4] fields_by_data(4,5,6,16) [OF s5] d1 d2 d3
  show ?thesis by simp
qed

lemma handle_refused [simp]: "handle r (Pair (Http_error st code)) = (Reply n x, l) \<longleftrightarrow> False"
proof -
  have "thrown_reply e \<noteq> (Reply n x :: 'a reply)" for e by (metis is_error.simps(1) thrown_reply_error)
  then show ?thesis by (cases r) auto
qed

lemma remove_turn_reply:
  assumes "remove_member_turn tc now ok1 ok2 session t u l = (Reply 200 shown, l')"
  obtains ms target team l1 where "members_of (lv_store l) t = Some ms" "jget ms u = Some target"
    "can_remove_team_member (requester_role (lv_store l) t session) (m_role target)"
    "\<not> list_ex (\<lambda>r. r_team r = t \<and> \<not> stamp_set (r_deleted r) \<and> r_host_user r = Some u) (jvalues (rooms (lv_store l)))"
    "jget (teams (lv_store l)) t = Some team"
    "remove_writes ok1 ok2 t u ms team (deleted_rooms_hosted_by (lv_store l) t u) l = Done l1" "lv_store l' = lv_store l1"
proof -
  have "remove_member_turn tc now ok1 ok2 session t u l = (Reply 200 shown, l') \<Longrightarrow> thesis"
    unfolding remove_member_turn_def Let_def get_team_member_def
    by (auto split: option.splits if_splits outcome.splits simp: answer_removal_def Let_def intro!: that)
  then show thesis using assms by blast
qed

text \<open>
  C31: A removal that succeeds was asked for by the owner, or by an admin and for a plain member,
  and never takes the owner. Afterwards the user is no member and every other member is as before;
  the team counts one member less; no room of the team, a deleted one included, names the user as
  its host; and no invite to the team is left.
\<close>

theorem removed_member_leaves_nothing:
  assumes ok: "store_ok (lv_store l)" and keyed: "rooms_keyed (lv_store l)"
    and members: "members_of (lv_store l) t = Some ms" and team: "jget (teams (lv_store l)) t = Some team" "t_id team = t"
    and run: "remove_member_turn tc now ok1 ok2 session t u l = (Reply 200 shown, l')"
  shows "(\<exists>target. jget ms u = Some target \<and> m_role target \<noteq> Owner \<and> (requester_role (lv_store l) t session = Some Owner
        \<or> requester_role (lv_store l) t session = Some Admin \<and> m_role target = Member))
    \<and> (\<forall>v. get_team_member (lv_store l') t v = (if v = u then None else get_team_member (lv_store l) t v))
    \<and> jget (teams (lv_store l')) t = Some (team\<lparr>t_members := length ms - 1\<rparr>)
    \<and> (\<forall>k r. jget (rooms (lv_store l')) k = Some r \<and> r_team r = t \<longrightarrow> r_host_user r \<noteq> Some u)
    \<and> (\<forall>i \<in> set (jvalues (invites (lv_store l'))). i_team i \<noteq> t)"
proof -
  let ?s = "lv_store l" and ?rs = "deleted_rooms_hosted_by (lv_store l) t u"
  from run obtain target l1 where target: "jget ms u = Some target"
    and allowed: "can_remove_team_member (requester_role ?s t session) (m_role target)"
    and hosting: "\<not> list_ex (\<lambda>r. r_team r = t \<and> \<not> stamp_set (r_deleted r) \<and> r_host_user r = Some u) (jvalues (rooms ?s))"
    and writes: "remove_writes ok1 ok2 t u ms team ?rs l = Done l1" and l': "lv_store l' = lv_store l1"
    using members team(1) by (elim remove_turn_reply) auto
  have wf: "jwf ms" "jwf (rooms ?s)" using ok members members_of_wf by (auto simp: store_ok_def store_wf_def)
  note after = removed_writes [OF writes ok wf(1), folded l']
  have "length ms = Suc (length (jdel u ms))"
    using mset_jdel [OF wf(1) target] by (metis size_add_mset size_mset)
  then have len: "length (jdel u ms) = length ms - 1" by simp
  have host: "r_host_user r \<noteq> Some u" if r: "jget (rooms (lv_store l')) k = Some r" "r_team r = t" for k r
  proof
    assume h: "r_host_user r = Some u"
    with scrubbed_get [of ?rs "rooms ?s" k r] r after have old: "jget (rooms ?s) k = Some r" "k \<notin> r_id ` set ?rs" by auto
    then have "r \<in> set (jvalues (rooms ?s))" "r_id r = k"
      using rooms_keyedD [OF keyed] by (force simp: jvalues_def dest: jget_mem)+
    with h r(2) hosting old(2) show False by (fastforce simp: deleted_rooms_hosted_by_def list_ex_iff)
  qed
  show ?thesis
    using target allowed members after team len host
    by (auto simp: can_remove_team_member_def get_team_member_def members_of_def jwhere_def jvalues_def split: if_splits)
qed

end
