(* ===== verification/Room_Proofs.thy ===== *)
theory Room_Proofs
  imports Rooms Team_Proofs Key_Package_Proofs
begin

text \<open>
  The properties of rooms: every room of a reachable store is well-typed, an active one with its
  host, device and epoch; the first host is bootstrapped by the reserved user alone; and creation
  respects both quotas.
\<close>

section \<open>Well-typed rooms\<close>

text \<open>
  What the schema of a room asks for and the relay's checks establish: a bounded printable name, a
  host text, and for an active room a host user, a host device and an accepted epoch.
\<close>

definition room_typed :: "room \<Rightarrow> bool" where
  "room_typed r \<longleftrightarrow> r_name r \<noteq> [] \<and> length (r_name r) \<le> max_room_name \<and> \<not> has_control (r_name r) \<and> r_host r \<noteq> []
     \<and> (r_status r = Host_active \<longrightarrow> truthy (r_host_user r) \<and> truthy (r_host_device r) \<and> r_epoch r \<noteq> None)"

definition rooms_typed :: "relay_store \<Rightarrow> bool" where
  "rooms_typed s \<longleftrightarrow> (\<forall>(k, r) \<in> set (rooms s). r_id r = k \<and> room_typed r)"

text \<open>The identities a message names are not empty (the schema of the message).\<close>

definition next_host_named :: "mls_message \<Rightarrow> bool" where
  "next_host_named m \<longleftrightarrow> (\<forall>u. mm_next_user m = Some u \<longrightarrow> u \<noteq> []) \<and> (\<forall>d. mm_next_device m = Some d \<longrightarrow> d \<noteq> [])"

lemma rooms_typed_cong: "rooms s = rooms s' \<Longrightarrow> rooms_typed s = rooms_typed s'"
  by (simp add: rooms_typed_def)

lemma typed_get: "rooms_typed s \<Longrightarrow> jget (rooms s) k = Some r \<Longrightarrow> r_id r = k \<and> room_typed r"
  by (fastforce simp: rooms_typed_def dest: map_of_SomeD)

lemma typed_set_room:
  assumes "rooms_typed s" and "room_typed r"
  shows "rooms_typed (state_of (set_room r s))"
proof (cases "set_room r s")
  case (Done s')
  from fields_by_data(5) [OF room_tm.dm_set_data [OF Done [unfolded set_room_def]]] assms
  show ?thesis using set_jset_sub [of "r_id r" r "rooms s"] by (fastforce simp: Done rooms_typed_def)
next
  case (Throws x s')
  from fields_by_data(5) [OF room_tm.dm_set_throws_data [OF Throws [unfolded set_room_def]]] assms
  show ?thesis by (auto simp: Throws rooms_typed_def)
qed

lemma typed_rooms_loop: "rooms_typed s \<Longrightarrow> list_all room_typed rs \<Longrightarrow> rooms_typed (state_of (for_each set_room rs s))"
  by (rule for_each_state_inv) (auto simp: list_all_iff intro: typed_set_room)

lemma typed_stored: "rooms_typed s \<Longrightarrow> r \<in> set (jvalues (rooms s)) \<Longrightarrow> room_typed r"
  by (fastforce simp: rooms_typed_def jvalues_def)

lemma metadata_text: "normalize_metadata_text v n = Some t \<Longrightarrow> t \<noteq> [] \<and> length t \<le> n \<and> \<not> has_control t"
  by (auto simp: normalize_metadata_text_def Let_def split: if_splits)

text \<open>Maps other than the rooms keep the rooms.\<close>

lemmas room_frames [simp] =
  team_tm.field_frame [of rooms, simplified] invite_tm.field_frame [of rooms, simplified]
  request_tm.field_frame [of rooms, simplified] response_tm.field_frame [of rooms, simplified]
  ack_tm.field_frame [of rooms, simplified] backlog_tm.field_frame [of rooms, simplified]
  receipt_tm.field_frame [of rooms, simplified] quota_tm.field_frame [of rooms, simplified]

lemma typed_frames [simp]:
  "rooms_typed (discard_durable_mutations s) = rooms_typed s"
  "rooms_typed (state_of (set_team_members t ms s)) = rooms_typed s" "rooms_typed (state_of (set_team x s)) = rooms_typed s"
  "rooms_typed (delete_team_members t s) = rooms_typed s" "rooms_typed (s\<lparr>deviceSessions := ds\<rparr>) = rooms_typed s"
  "rooms_typed (snd (revoke_invite_artifacts_where f s)) = rooms_typed s"
  "rooms_typed (state_of (dm_set quota_map k q s)) = rooms_typed s" "rooms_typed (dm_delete quota_map k s) = rooms_typed s"
proof -
  have "rooms (state_of (set_team_members t ms s)) = rooms s"
    by (auto simp: set_team_members_def Let_def log_mutation_def split: outcome.split)
  moreover have "rooms (delete_team_members t s) = rooms s"
    by (auto simp: delete_team_members_def log_mutation_def split: option.split)
  ultimately show "rooms_typed (discard_durable_mutations s) = rooms_typed s"
    "rooms_typed (state_of (set_team_members t ms s)) = rooms_typed s" "rooms_typed (state_of (set_team x s)) = rooms_typed s"
    "rooms_typed (delete_team_members t s) = rooms_typed s" "rooms_typed (s\<lparr>deviceSessions := ds\<rparr>) = rooms_typed s"
    "rooms_typed (snd (revoke_invite_artifacts_where f s)) = rooms_typed s"
      "rooms_typed (state_of (dm_set quota_map k q s)) = rooms_typed s" "rooms_typed (dm_delete quota_map k s) = rooms_typed s"
    by (simp_all add: rooms_typed_def discard_durable_mutations_def set_team_def revoke_invite_artifacts_where_def Let_def)
qed

lemma typed_delete: "rooms_typed s \<Longrightarrow> rooms_typed (dm_delete room_map k s)"
  using fields_by_data(5) [OF room_tm.dm_delete_data [of k s]] by (auto simp: rooms_typed_def set_jdel)

section \<open>The operations keep it\<close>

lemma typed_new_room:
  assumes "parse_room_creation_input body = Some input"
  shows "room_typed (new_room ident t session input)"
proof -
  have "normalize_metadata_text (field_of body ''name'') max_room_name = Some (fst input)"
    using assms by (auto simp: parse_room_creation_input_def split: if_splits option.splits)
  from metadata_text [OF this] show ?thesis
    by (auto simp: room_typed_def new_room_def dest: metadata_text split: option.split)
qed

lemma typed_rollback_quota: "rooms_typed s \<Longrightarrow> rooms_typed (state_of (rollback_durable_quota v s))"
  by (simp add: rollback_durable_quota_def split: option.split)

lemma typed_fail_creation:
  assumes "rooms_typed (lv_store l)"
  shows "rooms_typed (lv_store (snd (fail_room_creation x r v l)))"
  unfolding fail_room_creation_def
  using assms by (auto intro!: handle_store_inv [where P = rooms_typed] typed_delete typed_rollback_quota
      simp: rollback_room_creation_def Let_def split: option.split)

lemma typed_store_new_room:
  assumes "rooms_typed (lv_store l)" and "room_typed r"
  shows "rooms_typed (lv_store (snd (store_new_room rc now ok r v l)))"
proof -
  let ?run = "seq (on_store (set_room r) l) (save_now ok)"
  have "rooms_typed (lv_store (state_of ?run))"
    by (rule seq_state_inv [where P = "\<lambda>l. rooms_typed (lv_store l)"]) (use assms in \<open>auto intro: typed_set_room\<close>)
  then show ?thesis by (cases ?run) (auto simp: store_new_room_def intro: typed_fail_creation)
qed

lemma typed_create_room_turn:
  assumes typed: "rooms_typed (lv_store l)" and input: "parse_room_creation_input body = Some input"
  shows "rooms_typed (lv_store (snd (create_room_turn rc now ok ident session t input l)))"
proof -
  have kept: "rooms_typed (state_of res)" if "reserve_durable_quota q u n lim r now (lv_store l) = (d, res)" for q u n lim r d res
    using typed that by (auto simp: reserve_durable_quota_def Let_def split: if_splits)
  show ?thesis
    unfolding create_room_turn_def
    using typed typed_new_room [OF input]
    by (auto split: option.split prod.split quota_decision.split outcome.split dest!: kept
        intro!: typed_store_new_room typed_fail_creation)
qed

lemma typed_create_room:
  assumes "rooms_typed (lv_store l)" and "rooms_typed (lv_store (account_turn l))"
    and "rooms_typed (lv_store (quota_turn l))" and "rooms_typed (lv_store (quota_turn (account_turn l)))"
  shows "rooms_typed (lv_store (snd (create_room rc now ok account_turn quota_turn ident session body l)))"
proof (cases "parse_room_creation_input body")
  case None
  then show ?thesis using assms by (simp add: create_room_def Let_def split: option.split)
next
  case (Some input)
  show ?thesis
    unfolding create_room_def Let_def Some option.case
    by (cases session) (simp_all add: assms typed_create_room_turn [OF _ Some] split: option.split)
qed

lemma bootstrap_store:
  "rooms (snd (is_initial_host_bootstrap now token session body r host hu dv s)) = rooms s"
  by (auto simp: is_initial_host_bootstrap_def has_device_session_def Let_def split: option.split)

lemma typed_finish_bootstrap:
  assumes typed: "rooms_typed (lv_store l)" and r: "jget (rooms (lv_store l)) rid = Some r"
    and hu: "hu = normalize_metadata_text (field_of body ''hostUserId'') n"
    and dev: "dv = normalize_metadata_text (field_of body ''hostDeviceId'') n'"
  shows "rooms_typed (lv_store (snd (finish_bootstrap e now ok r dv (is_initial_host_bootstrap now token session body r host hu dv (lv_store l)) l)))"
proof -
  let ?i = "is_initial_host_bootstrap now token session body r host hu dv (lv_store l)"
  let ?updated = "r\<lparr>r_host_device := dv, r_status := Host_active, r_epoch := Some 0\<rparr>"
  have kept: "rooms_typed (snd ?i)" using typed rooms_typed_cong [OF bootstrap_store] by blast
  have "room_typed r" using typed_get [OF typed r] by simp
  then have updated: "room_typed ?updated" if "fst ?i"
    using that hu dev metadata_text
    by (auto simp: is_initial_host_bootstrap_def room_typed_def split: option.splits if_splits)
  show ?thesis
    unfolding finish_bootstrap_def Let_def
    using kept updated by (auto intro!: handle_store_inv [where P = rooms_typed] typed_set_room)
qed

lemma typed_bootstrap:
  assumes "rooms_typed (lv_store l)"
  shows "rooms_typed (lv_store (snd (bootstrap_room_host e now ok session token rid body l)))"
  unfolding bootstrap_room_host_def Let_def
  using assms by (simp add: typed_finish_bootstrap [OF assms _ refl refl] split: option.split)

lemma typed_room_lifecycle:
  assumes "rooms_typed (lv_store l)"
  shows "rooms_typed (lv_store (snd (change_room_lifecycle e now ok session rid body l)))"
proof -
  have "room_typed (room_after_team_lifecycle_action r a now)" if "jget (rooms (lv_store l)) rid = Some r" for r a
    using typed_get [OF assms that] by (auto simp: room_typed_def room_after_team_lifecycle_action_def split: lifecycle_action.split)
  then show ?thesis
    unfolding change_room_lifecycle_def Let_def
    using assms by (auto split: option.split simp: revoke_deleted_room_invites_def revoke_room_invites_def
        intro!: handle_store_inv [where P = rooms_typed] typed_set_room)
qed

lemma typed_policy [simp]: "room_typed (r\<lparr>r_policy := p\<rparr>) = room_typed r"
  by (simp add: room_typed_def)

lemma settings_name:
  assumes "room_settings_input body = Some (Some n, policy)" and "room_typed r"
  shows "room_typed (r\<lparr>r_name := n\<rparr>)" "room_typed (r\<lparr>r_name := n, r_policy := p\<rparr>)"
  using assms metadata_text [of "field_of body ''name''" max_room_name n]
  by (auto simp: room_settings_input_def room_typed_def Let_def split: if_splits option.splits)

lemma typed_room_settings:
  assumes "rooms_typed (lv_store l)"
  shows "rooms_typed (lv_store (snd (change_room_settings e now ok session rid body l)))"
proof -
  have "room_typed r" if "jget (rooms (lv_store l)) rid = Some r" for r using typed_get [OF assms that] by simp
  then show ?thesis
    unfolding change_room_settings_def Let_def
    using assms by (auto split: option.split intro!: handle_store_inv [where P = rooms_typed] typed_set_room settings_name)
qed

lemma set_team_rooms: "on_store (set_team x) l = Done l1 \<Longrightarrow> rooms (lv_store l1) = rooms (lv_store l)"
  using on_store_state [of "set_team x" l] by (simp add: set_team_def)

lemma typed_team_lifecycle:
  assumes typed: "rooms_typed (lv_store l)"
  shows "rooms_typed (lv_store (snd (change_team_lifecycle e now ok1 ok2 session t action l)))"
proof -
  have frame: "rooms (state_of (set_team x s)) = rooms s" for x s by (simp add: set_team_def)
  have updated: "list_all room_typed (map (\<lambda>r. room_after_team_lifecycle_action r a now) (filter f (jvalues (rooms s))))"
    if "rooms s = rooms (lv_store l)" for a f s
    using typed_stored [OF typed] that
    by (auto simp: list_all_iff room_typed_def room_after_team_lifecycle_action_def split: lifecycle_action.split)
  have loop: "lv_store (fold (broadcast_room_updated e now) rs x) = lv_store x" for rs x by (rule fold_inv) simp
  have revoked: "rooms_typed (lv_store (state_of (revoke_team_invites ok1 t l1)))" if "rooms_typed (lv_store l1)" for l1
    using that revoke_invites_store [of ok1 t l1] by (auto simp: revoke_team_invite_artifacts_def)
  show ?thesis
    unfolding change_team_lifecycle_def Let_def
    using typed by (auto split: option.split simp: loop
        intro!: handle_store_inv [where P = rooms_typed] typed_rooms_loop updated set_team_rooms revoked)
qed

lemma typed_remove_member:
  assumes typed: "rooms_typed (lv_store l)"
  shows "rooms_typed (lv_store (snd (remove_member_turn tc now ok1 ok2 session t u l)))"
proof -
  let ?rs = "deleted_rooms_hosted_by (lv_store l) t u"
  have old: "list_all room_typed ?rs" using typed_stored [OF typed] by (auto simp: deleted_rooms_hosted_by_def list_all_iff)
  then have scrub: "rooms_typed (state_of (scrub_deleted_room_host_identity ?rs (lv_store l)))"
    unfolding scrub_deleted_room_host_identity_def
    by (intro for_each_state_inv [where P = rooms_typed] typed_set_room typed)
      (auto simp: list_all_iff room_typed_def scrubbed_room_def)
  have revoked: "rooms_typed (lv_store (state_of (revoke_team_invites ok1 t l1)))" if "rooms_typed (lv_store l1)" for l1
    using that revoke_invites_store [of ok1 t l1] by (auto simp: revoke_team_invite_artifacts_def)
  have writes: "rooms_typed (lv_store (state_of (remove_writes ok1 ok2 t u ms team ?rs l)))" for ms team
    unfolding remove_writes_def
    by (intro seq_state_inv [where P = "\<lambda>l. rooms_typed (lv_store l)"]) (use scrub revoked in auto)
  have restored: "rooms_typed (state_of (restore_team_invite_artifacts x s)) = rooms_typed s" for x s
    unfolding restore_team_invite_artifacts_def
    by (intro rooms_typed_cong seq_state_inv [where P = "\<lambda>t. rooms t = rooms s"] for_each_state_inv [where P = "\<lambda>t. rooms t = rooms s"]) auto
  have undo: "rooms_typed s \<Longrightarrow> rooms_typed (state_of (remove_rollback t ms team ?rs x s))" for ms team x s
    unfolding remove_rollback_def
    by (intro seq_state_inv [where P = rooms_typed]) (use old in \<open>auto simp: restored intro: typed_rooms_loop\<close>)
  have "rooms_typed (lv_store (snd (answer_removal tc now t u ms team ?rs x (remove_writes ok1 ok2 t u ms team ?rs l))))" for ms team x
    using writes [of ms team] undo
    by (cases "remove_writes ok1 ok2 t u ms team ?rs l")
      (auto simp: answer_removal_def Let_def intro!: handle_store_inv [where P = rooms_typed] split: option.split)
  then show ?thesis
    unfolding remove_member_turn_def Let_def using typed by (auto split: option.split)
qed

section \<open>Publishing\<close>

lemma typed_after_commit:
  assumes r: "room_typed r" and valid: "validate_publish_authority e s r m (accepted_epoch r) = None"
    and commit: "mm_type m = Commit" and named: "next_host_named m"
  shows "room_typed (room_after_commit r m (accepted_epoch r))"
proof (cases "mm_handoff m")
  case False
  then show ?thesis using r by (simp add: room_after_commit_def room_typed_def)
next
  case True
  from validate_None(3) [OF valid True] obtain u d where "mm_next_user m = Some u" "mm_next_device m = Some d"
    by (auto simp: valid_host_transfer_authorization_def split: option.splits if_splits
        dest: sym [where t = "mm_next_user m"] sym [where t = "mm_next_device m"])
  with named r True show ?thesis by (simp add: room_after_commit_def room_typed_def next_host_named_def)
qed

text \<open>The maps a publication writes beside the rooms.\<close>

lemma typed_publish_frames [simp]:
  "rooms_typed (state_of (dm_set backlog_map k ms s)) = rooms_typed s" "rooms_typed (dm_delete backlog_map k s) = rooms_typed s"
  "rooms_typed (state_of (dm_set receipt_map k' v s)) = rooms_typed s" "rooms_typed (dm_clear receipt_map s) = rooms_typed s"
  "rooms_typed (prune_accepted_receipts now k s) = rooms_typed s"
  using erase_receipt_fields(1) [OF prune_accepted_receipts_erase, of now k s] by (simp_all add: rooms_typed_def)

lemma typed_publish_writes:
  assumes typed: "rooms_typed s" and commit: "mm_type m = Commit \<Longrightarrow> room_typed (room_after_commit r m (accepted_epoch r))"
  shows "rooms_typed (state_of (publish_writes e now key m r s))"
  unfolding publish_writes_def Let_def
proof (rule seq_state_inv [where P = rooms_typed])
  show "rooms_typed (state_of (if mm_type m = Commit then set_room (room_after_commit r m (accepted_epoch r)) s else Done s))"
    using typed commit typed_set_room by simp
qed (intro seq_state_inv [where P = rooms_typed], simp_all)

lemma typed_publish_rollback:
  assumes "rooms_typed s" and "room_typed r"
  shows "rooms_typed (state_of (publish_rollback key stored r receipts s))"
  unfolding publish_rollback_def
proof (rule seq_state_inv [where P = rooms_typed])
  show "rooms_typed (state_of (case stored of None \<Rightarrow> Done (dm_delete backlog_map key s) | Some p \<Rightarrow> dm_set backlog_map key p s))"
    using assms by (simp split: option.split)
  show "rooms_typed (state_of (seq (set_room r s1)
      (\<lambda>s2. for_each (\<lambda>(k, v). dm_set receipt_map k v) receipts (dm_clear receipt_map s2))))" if "rooms_typed s1" for s1
    by (rule seq_state_inv [where P = rooms_typed], rule typed_set_room [OF that assms(2)],
        rule for_each_state_inv [where P = rooms_typed]) (auto split: prod.split)
qed

lemma typed_publish_commit:
  assumes "rooms_typed s" and "room_typed r" and "mm_type m = Commit \<Longrightarrow> room_typed (room_after_commit r m (accepted_epoch r))"
  shows "rooms_typed (snd (publish_commit e now save key m r s))"
proof -
  have failed: "rooms_typed (snd (publish_fail err key stored r receipts s1))" if "rooms_typed s1" for err stored receipts s1
    using typed_publish_rollback [OF that assms(2), of key stored receipts]
    by (cases "publish_rollback key stored r receipts s1") (simp_all add: publish_fail_def)
  show ?thesis
    using typed_publish_writes [OF assms(1,3), of e now key] failed
    by (cases "publish_writes e now key m r s") (simp_all add: publish_commit_def Let_def split: option.split)
qed

lemma typed_publish:
  assumes typed: "rooms_typed s" and named: "next_host_named m"
  shows "rooms_typed (snd (publish_store e now save authorized m s))"
proof -
  have "rooms_typed (snd (publish_commit e now save key m r s))"
    if "jget (rooms s) (mm_room m) = Some r" and "validate_publish_authority e s r m (accepted_epoch r) = None" for r key
  proof -
    have "room_typed r" using typed_get [OF typed that(1)] by simp
    then show ?thesis using typed_publish_commit [OF typed] typed_after_commit [OF _ that(2)] named by blast
  qed
  then show ?thesis
    unfolding publish_store_def Let_def
    using typed by (auto split: option.split)
qed

section \<open>Runs\<close>

text \<open>
  What may happen to the rooms: the operations on them, the operations of a team that touch them, the
  messages published into them, and anything that leaves them alone. The turns a handler waits for
  lead to a reachable state again.
\<close>

inductive room_run :: "room_config \<Rightarrow> team_config \<Rightarrow> live \<Rightarrow> bool" for rc tc where
  start: "create_relay_store m t b = Some s \<Longrightarrow> room_run rc tc (fresh_live s)"
| elsewhere: "room_run rc tc l \<Longrightarrow> rooms (lv_store l') = rooms (lv_store l) \<Longrightarrow> room_run rc tc l'"
| creation: "room_run rc tc l \<Longrightarrow> room_run rc tc (account_turn l) \<Longrightarrow> room_run rc tc (quota_turn l)
    \<Longrightarrow> room_run rc tc (quota_turn (account_turn l))
    \<Longrightarrow> room_run rc tc (snd (create_room rc now ok account_turn quota_turn ident session body l))"
| bootstrap: "room_run rc tc l \<Longrightarrow> room_run rc tc (snd (bootstrap_room_host (rc_env rc) now ok session token rid body l))"
| lifecycle: "room_run rc tc l \<Longrightarrow> room_run rc tc (snd (change_room_lifecycle (rc_env rc) now ok session rid body l))"
| settings: "room_run rc tc l \<Longrightarrow> room_run rc tc (snd (change_room_settings (rc_env rc) now ok session rid body l))"
| team_lifecycle: "room_run rc tc l \<Longrightarrow> room_run rc tc (snd (change_team_lifecycle (tc_env tc) now ok1 ok2 session t action l))"
| removal: "room_run rc tc l \<Longrightarrow> room_run rc tc (wait l)
    \<Longrightarrow> room_run rc tc (snd (remove_member tc now ok1 ok2 wait session t u l))"
| publication: "room_run rc tc l \<Longrightarrow> next_host_named m
    \<Longrightarrow> lv_store l' = snd (publish_store (rc_env rc) now save authorized m (lv_store l)) \<Longrightarrow> room_run rc tc l'"

lemma room_run_typed: "room_run rc tc l \<Longrightarrow> rooms_typed (lv_store l)"
proof (induction rule: room_run.induct)
  case (start m t b s)
  then show ?case by (auto simp: create_relay_store_def empty_store_def rooms_typed_def fresh_live_def split: option.splits)
next
  case (elsewhere l l')
  then show ?case using rooms_typed_cong by blast
next
  case (removal l "wait" now ok1 ok2 session t u)
  then show ?case by (simp add: remove_member_def Let_def typed_remove_member)
qed (auto intro: typed_create_room typed_bootstrap typed_room_lifecycle typed_room_settings typed_team_lifecycle typed_publish)


section \<open>Who becomes the host\<close>

lemma set_room_rooms:
  "rooms (state_of (set_room r s)) = rooms s \<or> rooms (state_of (set_room r s)) = jset (r_id r) r (rooms s)"
proof (cases "set_room r s")
  case (Done s')
  from fields_by_data(5) [OF room_tm.dm_set_data [OF Done [unfolded set_room_def]]] show ?thesis by (simp add: Done)
next
  case (Throws x s')
  from fields_by_data(5) [OF room_tm.dm_set_throws_data [OF Throws [unfolded set_room_def]]] show ?thesis by (simp add: Throws)
qed

lemma handled_rooms:
  assumes "\<And>l1. rooms (lv_store (snd (f l1))) = rooms (lv_store l1)"
  shows "rooms (lv_store (snd (handle (on_store (set_room r) l) f))) = rooms (lv_store l)
    \<or> rooms (lv_store (snd (handle (on_store (set_room r) l) f))) = jset (r_id r) r (rooms (lv_store l))"
  using set_room_rooms [of r "lv_store l"] assms
  by (cases "set_room r (lv_store l)") (auto simp: on_store_def handle_def)

lemma saved_rooms [simp]:
  "rooms (lv_store (snd (handle (save_now ok (put_store f l)) (\<lambda>l1. (Reply c u, broadcast_room_updated e now u l1))))) = rooms (f (lv_store l))"
  "rooms (lv_store (snd (handle (save_now ok l) (\<lambda>l1. (Reply c u, broadcast_room_updated e now u l1))))) = rooms (lv_store l)"
  by (simp_all add: save_now_cases handle_def put_store_def discard_durable_mutations_def)

lemma finish_bootstrap_rooms:
  assumes kept: "rooms (snd initial) = rooms (lv_store l)"
    and changed: "jget (rooms (lv_store (snd (finish_bootstrap e now ok r d initial l)))) k \<noteq> jget (rooms (lv_store l)) k"
  shows "fst initial \<and> k = r_id r \<and> jget (rooms (lv_store (snd (finish_bootstrap e now ok r d initial l)))) k
    = Some (r\<lparr>r_host_device := d, r_status := Host_active, r_epoch := Some 0\<rparr>)"
proof -
  let ?u = "r\<lparr>r_host_device := d, r_status := Host_active, r_epoch := Some 0\<rparr>" and ?l = "l\<lparr>lv_store := snd initial\<rparr>"
  note shape = handled_rooms [of "\<lambda>l2. handle (save_now ok l2) (\<lambda>l3. (Reply 200 ?u, broadcast_room_updated e now ?u l3))" ?u ?l]
  show ?thesis
    using changed shape kept by (auto simp: finish_bootstrap_def Let_def split: if_splits)
qed

lemma initial_host:
  assumes "fst (is_initial_host_bootstrap now token session body r host hu dv s)"
  obtains a d t x where "session = Some a" "dv = Some d" "r_status r = Host_offline" "r_epoch r = None"
    "r_host_user r = Some (session_user_of a)" "token = Some t" "jget (deviceSessions s) t = Some x"
    "ds_user x = session_user_of a" "ds_device x = d" "now \<le> ds_expires x"
proof -
  obtain a d where a: "session = Some a" "dv = Some d"
    using assms by (cases session; cases dv) (simp_all add: is_initial_host_bootstrap_def)
  with assms have "r_status r = Host_offline" "r_epoch r = None" "r_host_user r = Some (session_user_of a)"
    and device: "fst (has_device_session now token (session_user_of a) d s)"
    by (simp_all add: is_initial_host_bootstrap_def split: if_splits)
  moreover from device obtain t x where "token = Some t" "jget (deviceSessions s) t = Some x"
    "ds_user x = session_user_of a" "ds_device x = d" "now \<le> ds_expires x"
    by (auto simp: has_device_session_def Let_def split: option.splits if_splits)
  ultimately show ?thesis using a that by blast
qed

lemma bootstrap_room_host_cases:
  fixes body :: jsv
  defines "host \<equiv> normalize_metadata_text (field_of body ''host'') max_host_name"
    and "hu \<equiv> normalize_metadata_text (field_of body ''hostUserId'') max_user_id"
    and "dv \<equiv> normalize_metadata_text (field_of body ''hostDeviceId'') max_device_id"
  shows "snd (bootstrap_room_host e now ok session token rid body l) = l
    \<or> (\<exists>r. jget (rooms (lv_store l)) rid = Some r
        \<and> (\<forall>a. session = Some a \<longrightarrow> can_access_room (lv_store l) (r_team r) (r_id r) (session_user_of a))
        \<and> snd (bootstrap_room_host e now ok session token rid body l)
          = snd (finish_bootstrap e now ok r dv (is_initial_host_bootstrap now token session body r host hu dv (lv_store l)) l))"
proof (cases "jget (rooms (lv_store l)) rid")
  case None
  then show ?thesis by (simp add: bootstrap_room_host_def Let_def)
next
  case (Some r)
  then show ?thesis
    unfolding bootstrap_room_host_def Let_def host_def [symmetric] hu_def [symmetric] dv_def [symmetric]
    by (cases session) simp_all
qed

text \<open>
  C33: A room gets its first host only by a bootstrap: the caller is the reserved user of an offline
  room without an epoch, may access the room, and holds a live device session for the very device
  that becomes the host; nothing but the host device, the status and the epoch of that room changes.
\<close>

theorem only_reserved_user_becomes_host:
  assumes "rooms_keyed (lv_store l)"
    and run: "bootstrap_room_host e now ok session token rid body l = (reply, l')"
    and changed: "jget (rooms (lv_store l')) k \<noteq> jget (rooms (lv_store l)) k"
  shows "\<exists>a r d t x. session = Some a \<and> k = rid \<and> jget (rooms (lv_store l)) rid = Some r \<and> r_status r = Host_offline \<and> r_epoch r = None
    \<and> r_host_user r = Some (session_user_of a) \<and> can_access_room (lv_store l) (r_team r) rid (session_user_of a)
    \<and> token = Some t \<and> jget (deviceSessions (lv_store l)) t = Some x
    \<and> ds_user x = session_user_of a \<and> ds_device x = d \<and> now \<le> ds_expires x
    \<and> jget (rooms (lv_store l')) rid = Some (r\<lparr>r_host_device := Some d, r_status := Host_active, r_epoch := Some 0\<rparr>)"
proof -
  let ?norm = "\<lambda>f. normalize_metadata_text (field_of body f)"
  let ?dv = "?norm ''hostDeviceId'' max_device_id"
  let ?initial = "\<lambda>r. is_initial_host_bootstrap now token session body r (?norm ''host'' max_host_name)
    (?norm ''hostUserId'' max_user_id) ?dv (lv_store l)"
  have "snd (bootstrap_room_host e now ok session token rid body l) = l'" using run by simp
  with bootstrap_room_host_cases [of e now ok session token rid body l] changed obtain r where
    r: "jget (rooms (lv_store l)) rid = Some r"
    and access: "\<forall>a. session = Some a \<longrightarrow> can_access_room (lv_store l) (r_team r) (r_id r) (session_user_of a)"
    and l': "l' = snd (finish_bootstrap e now ok r ?dv (?initial r) l)"
    by metis
  note keyed = rooms_keyedD [OF assms(1) r]
  from finish_bootstrap_rooms [OF bootstrap_store changed [unfolded l']]
  have initial: "fst (?initial r)" and k: "k = rid"
    and final: "jget (rooms (lv_store l')) rid = Some (r\<lparr>r_host_device := ?dv, r_status := Host_active, r_epoch := Some 0\<rparr>)"
    using keyed by (auto simp: l')
  from initial show ?thesis by (rule initial_host) (use k final r access keyed in simp)
qed

section \<open>What the other routes leave alone\<close>

text \<open>The fields that decide who may publish into a room and at which epoch.\<close>

definition room_authority :: "room \<Rightarrow> string \<times> nat option \<times> string option \<times> string option \<times> host_status" where
  "room_authority r = (r_team r, r_epoch r, r_host_user r, r_host_device r, r_status r)"

definition authorities :: "relay_store \<Rightarrow> string \<Rightarrow> (string \<times> nat option \<times> string option \<times> string option \<times> host_status) option" where
  "authorities s k = map_option room_authority (jget (rooms s) k)"

lemma authorities_handled:
  assumes "\<And>l1. rooms (lv_store (snd (f l1))) = rooms (lv_store l1)"
    and "jget (rooms (lv_store l)) (r_id r) = Some old" and "room_authority r = room_authority old"
  shows "authorities (lv_store (snd (handle (on_store (set_room r) l) f))) = authorities (lv_store l)"
proof -
  have "authorities s' = authorities s" if "rooms s' = rooms s \<or> rooms s' = jset (r_id r) r (rooms s)" "jget (rooms s) (r_id r) = Some old" for s s'
    using that assms(3) by (auto simp: authorities_def fun_eq_iff)
  from this [OF handled_rooms [OF assms(1)] assms(2)] show ?thesis .
qed

lemma revoke_deleted_rooms [simp]: "rooms (revoke_deleted_room_invites r s) = rooms s"
  by (simp add: revoke_deleted_room_invites_def revoke_room_invites_def revoke_invite_artifacts_where_def Let_def)

lemma lifecycle_authority:
  "room_authority (room_after_team_lifecycle_action r a now) = room_authority r" "r_id (room_after_team_lifecycle_action r a now) = r_id r"
  by (simp_all add: room_authority_def room_after_team_lifecycle_action_def split: lifecycle_action.split)

text \<open>
  Archiving, restoring, deleting and configuring a room never change its host, its host device,
  its status or its epoch, whatever the caller's role and whatever fails.
\<close>

theorem lifecycle_and_settings_keep_authority:
  assumes "rooms_keyed (lv_store l)"
  shows "authorities (lv_store (snd (change_room_lifecycle e now ok session rid body l))) = authorities (lv_store l)
    \<and> authorities (lv_store (snd (change_room_settings e now ok session rid body l))) = authorities (lv_store l)"
proof (cases "jget (rooms (lv_store l)) rid")
  case None
  then show ?thesis by (simp add: change_room_lifecycle_def change_room_settings_def Let_def)
next
  case (Some r)
  note keyed = rooms_keyedD [OF assms Some]
  have kept: "authorities (lv_store (snd (handle (on_store (set_room u) l) f))) = authorities (lv_store l)"
    if "\<And>l1. rooms (lv_store (snd (f l1))) = rooms (lv_store l1)" "r_id u = r_id r" "room_authority u = room_authority r" for u f
    by (rule authorities_handled [OF that(1) _ that(3)]) (use Some keyed that in simp_all)
  have settings: "authorities (lv_store (snd (change_room_settings e now ok session rid body l))) = authorities (lv_store l)"
    unfolding change_room_settings_def Let_def
    by (simp add: Some kept room_authority_def split: option.split)
  have "authorities (lv_store (snd (change_room_lifecycle e now ok session rid body l))) = authorities (lv_store l)"
    unfolding change_room_lifecycle_def Let_def
    by (simp add: Some kept lifecycle_authority split: option.split)
  with settings show ?thesis by simp
qed

section \<open>The quotas of a creation\<close>

lemma room_count_jset: "length (filter P (jvalues (jset k v m))) \<le> Suc (length (filter P (jvalues m)))"
  unfolding jvalues_def jset_def by (induction m) auto

lemma total_rooms_set:
  assumes "rooms s' = rooms s \<or> rooms s' = jset k r (rooms s)"
  shows "total_rooms s' ts \<le> Suc (total_rooms s ts)"
  using assms room_count_jset [of _ k r "rooms s"] by (auto simp: total_rooms_def)

lemma fail_creation_refused: "fail_room_creation x r v l \<noteq> (Reply st y, l')"
proof -
  have "thrown_reply e \<noteq> (Reply st y :: room reply)" for e by (metis is_error.simps(1) thrown_reply_error)
  then show ?thesis by (auto simp: fail_room_creation_def handle_def split: outcome.split live_error.split store_error.split)
qed

lemma store_new_room_created:
  assumes "store_new_room rc now ok r v l = (Reply st x, l')"
  obtains s where "set_room r (lv_store l) = Done s" and "lv_store l' = discard_durable_mutations s" and "x = r"
  using assms fail_creation_refused
  by (cases "set_room r (lv_store l)"; cases ok) (auto simp: store_new_room_def on_store_def save_now_cases put_store_def)

lemma create_room_turn_created:
  assumes "create_room_turn rc now ok ident (Some a) t input l = (Reply st r, l')"
  obtains v s1 s2 where "queued_room_refused rc now (Some a) t (lv_store l) = None"
    and "reserve_durable_quota Daily_room_creations (session_user_of a) 1 (rc_rooms_per_user rc) (next_utc_midnight now) now (lv_store l)
      = (Quota_allowed v, Done s1)"
    and "set_room r s1 = Done s2" and "lv_store l' = discard_durable_mutations s2"
proof -
  have admitted: "queued_room_refused rc now (Some a) t (lv_store l) = None"
    using assms by (auto simp: create_room_turn_def split: option.splits)
  obtain d res where reserve: "reserve_durable_quota Daily_room_creations (session_user_of a) 1 (rc_rooms_per_user rc)
      (next_utc_midnight now) now (lv_store l) = (d, res)" by fastforce
  obtain v where d: "d = Quota_allowed v" using assms by (cases d) (simp_all add: create_room_turn_def admitted reserve)
  obtain s1 where res: "res = Done s1"
    using assms fail_creation_refused by (cases res) (auto simp: create_room_turn_def admitted reserve d)
  from assms have "store_new_room rc now ok (new_room ident t (Some a) input) (Some v) (l\<lparr>lv_store := s1\<rparr>) = (Reply st r, l')"
    by (simp add: create_room_turn_def admitted reserve d res)
  then show ?thesis by (rule store_new_room_created) (use that admitted reserve d res in auto)
qed

text \<open>
  A room is created only within both quotas of its creator at that moment: the rooms of the
  teams he belongs to stay within the configured total, and his creations of the day within the daily
  limit; he is a member of the room's team.
\<close>

theorem created_room_is_within_quotas:
  assumes ok: "store_ok (lv_store l)" and run: "create_room_turn rc now ok ident (Some a) t input l = (Reply st r, l')"
  shows "total_rooms (lv_store l') (team_ids_for_member (lv_store l') (session_user_of a)) \<le> rc_total_rooms rc
    \<and> quota_used Daily_room_creations (session_user_of a) now (lv_store l') \<le> rc_rooms_per_user rc
    \<and> has_team_member (lv_store l') t (session_user_of a) \<and> jget (rooms (lv_store l')) (r_id r) = Some r"
proof -
  let ?u = "session_user_of a" and ?s = "lv_store l"
  from run obtain v s1 s2 where admitted: "queued_room_refused rc now (Some a) t ?s = None"
    and reserve: "reserve_durable_quota Daily_room_creations ?u 1 (rc_rooms_per_user rc) (next_utc_midnight now) now ?s = (Quota_allowed v, Done s1)"
    and set: "set_room r s1 = Done s2" and l': "lv_store l' = discard_durable_mutations s2"
    by (rule create_room_turn_created)
  from admitted have total: "total_rooms ?s (team_ids_for_member ?s ?u) < rc_total_rooms rc" and member: "has_team_member ?s t ?u"
    by (auto simp: queued_room_refused_def room_creation_refused_def split: option.splits if_splits)
  have s1: "s1 = state_of (snd (reserve_durable_quota Daily_room_creations ?u 1 (rc_rooms_per_user rc) (next_utc_midnight now) now ?s))"
    by (simp add: reserve)
  have f1: "rooms s1 = rooms ?s" "teamMembers s1 = teamMembers ?s"
    using quota_tm.field_frame(1) [of teamMembers] by (simp_all add: s1 reserve_durable_quota_def Let_def)
  have data: "store_data s2 = tr_put room_map (jset (r_id r) r (tr_get room_map s1)) (store_data s1)"
    by (rule room_tm.dm_set_data [OF set [unfolded set_room_def]])
  have f2: "rooms s2 = jset (r_id r) r (rooms s1)" "teamMembers s2 = teamMembers s1" "accountQuotaRecords s2 = accountQuotaRecords s1"
    using fields_by_data(3,5,16) [OF data] by simp_all
  have members: "members_of s2 = members_of ?s" using f1 f2 by (auto simp: members_of_def)
  have "team_ids_for_member (lv_store l') ?u = team_ids_for_member ?s ?u" using f1 f2 by (simp add: team_ids_for_member_def l')
  moreover have "total_rooms s2 ts \<le> Suc (total_rooms ?s ts)" for ts using total_rooms_set f1 f2 by metis
  moreover have "quota_used Daily_room_creations ?u now s2 \<le> rc_rooms_per_user rc"
    using reserve_allowed(2) [OF reserve ok next_utc_midnight_bounds(1)] f2 by (simp add: quota_used_def current_quota_def)
  moreover have "total_rooms (lv_store l') = total_rooms s2" "members_of (lv_store l') = members_of ?s" "rooms (lv_store l') = rooms s2"
    "quota_used Daily_room_creations ?u now (lv_store l') = quota_used Daily_room_creations ?u now s2"
    unfolding members [symmetric]
    by (simp_all add: l' total_rooms_def members_of_def fun_eq_iff quota_used_def current_quota_def discard_durable_mutations_def)
  ultimately show ?thesis using total member f2 by (simp add: has_team_member_def) (meson Suc_leI order_trans)
qed

end
