(* ===== verification/Team_Witnesses.thy ===== *)
theory Team_Witnesses
  imports Team_Proofs Live_Witnesses
begin

text \<open>
  The properties of teams, applied to the sample relay: Ann creates a team in an empty relay, and
  removes Bob from the sample team.
\<close>

definition sample_team_config :: team_config where
  "sample_team_config = \<lparr>tc_env = live_env, tc_teams_per_user = 25, tc_collate = length\<rparr>"

definition empty_with_ann :: live where
  "empty_with_ann = fresh_live (state_of (dm_set auth_map ''ann'' (sample_auth ''ann'') sample_empty))"

definition ann_created :: "team reply \<times> live" where
  "ann_created = create_team sample_team_config 0 True id id ''x'' (Some (sample_auth ''ann'')) (J_obj [(''name'', J_str ''Crew'')]) empty_with_ann"

lemma sample_empty_created: "create_relay_store 1000 500 sample_limits = Some sample_empty"
  by (simp add: sample_empty_def create_relay_store_def bc_new_def sample_limits_def)

lemma ann_created_run: "team_run sample_team_config (snd ann_created)"
proof -
  have "teams (lv_store empty_with_ann) = teams sample_empty" "teamMembers (lv_store empty_with_ann) = teamMembers sample_empty"
    by code_simp+
  then have 1: "team_run sample_team_config empty_with_ann"
    by (intro team_run.elsewhere [OF team_run.start [OF sample_empty_created]]) (simp_all add: fresh_live_def)
  have fresh: "jget (teams (lv_store empty_with_ann)) (''team_'' @ ''x'') = None" "members_of (lv_store empty_with_ann) (''team_'' @ ''x'') = None"
    by code_simp+
  have "team_run sample_team_config (snd (create_team sample_team_config 0 True id id ''x'' (Some (sample_auth ''ann''))
      (J_obj [(''name'', J_str ''Crew'')]) empty_with_ann))"
    by (rule team_run.creation) (use 1 fresh in simp_all)
  then show ?thesis by (simp add: ann_created_def)
qed

lemma ann_created_team: "jkeys (teams (lv_store (snd ann_created))) = [''team_x'']"
  by code_simp


definition bob_removed :: "team_member list reply \<times> live" where
  "bob_removed = remove_member_turn sample_team_config 0 True True (Some (sample_auth ''ann'')) ''team'' ''bob'' (fresh_live sample_store)"

lemma bob_removed_reply: "fst bob_removed = Reply 200 [sample_member ''ann'' Owner]"
  by code_simp

lemma sample_members: "members_of sample_store ''team'' = Some [(''ann'', sample_member ''ann'' Owner), (''bob'', sample_member ''bob'' Member)]"
  by code_simp

lemma sample_team_stored: "jget (teams sample_store) ''team'' = Some sample_team"
  by code_simp

lemma removed_member_leaves_nothing_witness:
  "get_team_member (lv_store (snd bob_removed)) ''team'' ''bob'' = None
     \<and> get_team_member (lv_store (snd bob_removed)) ''team'' ''ann'' = Some (sample_member ''ann'' Owner)"
proof -
  have s: "lv_store (fresh_live sample_store) = sample_store" by (simp add: fresh_live_def)
  have run: "remove_member_turn sample_team_config 0 True True (Some (sample_auth ''ann'')) ''team'' ''bob'' (fresh_live sample_store)
      = (Reply 200 [sample_member ''ann'' Owner], snd bob_removed)"
    using bob_removed_reply by (simp add: bob_removed_def prod_eq_iff)
  have "t_id sample_team = ''team''" by (simp add: sample_team_def)
  from removed_member_leaves_nothing [of "fresh_live sample_store", unfolded s, OF sample_store_ok sample_rooms_keyed sample_members
      sample_team_stored this run] show ?thesis
    by (simp add: get_team_member_def sample_members)
qed

end
