(* ===== verification/Room_Witnesses.thy ===== *)
theory Room_Witnesses
  imports Room_Proofs Team_Witnesses
begin

text \<open>
  The properties of rooms, applied to the sample relay: Ann creates a room in her team, becomes its
  first host from her device, and renames it.
\<close>

definition room_cfg :: room_config where
  "room_cfg = \<lparr>rc_env = live_env, rc_rooms_per_user = 50, rc_total_rooms = 250\<rparr>"

definition crew_live :: live where
  "crew_live = fresh_live auth_store"

definition attic_body :: jsv where
  "attic_body = J_obj [(''teamId'', J_str ''team''), (''name'', J_str ''Attic'')]"

definition attic_created :: "room reply \<times> live" where
  "attic_created = create_room_turn room_cfg 0 True ''attic'' (Some (sample_auth ''ann'')) ''team'' (''Attic'', Ask_every_turn) crew_live"

definition attic_room :: room where
  "attic_room = \<lparr>r_id = ''room_attic'', r_team = ''team'', r_epoch = None, r_name = ''Attic'', r_host = ''ann'',
     r_host_user = Some ''ann'', r_host_device = None, r_status = Host_offline, r_policy = Ask_every_turn,
     r_archived = None, r_deleted = None\<rparr>"

lemma attic_reply: "fst attic_created = Reply 201 attic_room"
  by code_simp

lemma created_room_is_within_quotas_witness:
  "total_rooms (lv_store (snd attic_created)) (team_ids_for_member (lv_store (snd attic_created)) ''ann'') \<le> 250"
proof -
  have run: "create_room_turn room_cfg 0 True ''attic'' (Some (sample_auth ''ann'')) ''team'' (''Attic'', Ask_every_turn) crew_live
      = (Reply 201 attic_room, snd attic_created)"
    using attic_reply by (simp add: attic_created_def prod_eq_iff)
  have "store_ok (lv_store crew_live)" by (simp add: crew_live_def fresh_live_def auth_store_ok)
  from created_room_is_within_quotas [OF this run] show ?thesis by (simp add: sample_auth_def room_cfg_def session_user_of_def)
qed

definition host_body :: jsv where
  "host_body = J_obj [(''host'', J_str ''ann''), (''hostUserId'', J_str ''ann''), (''hostDeviceId'', J_str ''ann-device''),
     (''hostStatus'', J_str ''active'')]"

definition attic_hosted :: "room reply \<times> live" where
  "attic_hosted = bootstrap_room_host live_env 0 True (Some (sample_auth ''ann'')) (Some ''tok'') ''room_attic'' host_body (snd attic_created)"

lemma attic_hosted_reply: "map_option r_status (jget (rooms (lv_store (snd attic_hosted))) ''room_attic'') = Some Host_active"
  by code_simp

lemma attic_keyed: "rooms_keyed (lv_store (snd attic_created))" "map_option r_status (jget (rooms (lv_store (snd attic_created))) ''room_attic'') = Some Host_offline"
  by code_simp+

lemma only_reserved_user_becomes_host_witness:
  "\<exists>r. jget (rooms (lv_store (snd attic_hosted))) ''room_attic'' = Some r \<and> r_host_device r = Some ''ann-device''"
proof -
  have run: "bootstrap_room_host live_env 0 True (Some (sample_auth ''ann'')) (Some ''tok'') ''room_attic'' host_body (snd attic_created)
      = (fst attic_hosted, snd attic_hosted)" by (simp add: attic_hosted_def)
  have changed: "jget (rooms (lv_store (snd attic_hosted))) ''room_attic'' \<noteq> jget (rooms (lv_store (snd attic_created))) ''room_attic''"
    using attic_hosted_reply attic_keyed(2) by auto
  have sessions: "map_option ds_device (jget (deviceSessions (lv_store (snd attic_created))) ''tok'') = Some ''ann-device''" by code_simp
  from only_reserved_user_becomes_host [OF attic_keyed(1) run changed] sessions show ?thesis by fastforce
qed

lemma lifecycle_and_settings_keep_authority_witness:
  "authorities (lv_store (snd (change_room_lifecycle live_env 0 True (Some (sample_auth ''ann'')) ''room_attic''
      (J_obj [(''action'', J_str ''archive'')]) (snd attic_hosted)))) ''room_attic''
   = Some (''team'', Some 0, Some ''ann'', Some ''ann-device'', Host_active)"
proof -
  have keyed: "rooms_keyed (lv_store (snd attic_hosted))" by code_simp
  have "authorities (lv_store (snd attic_hosted)) ''room_attic'' = Some (''team'', Some 0, Some ''ann'', Some ''ann-device'', Host_active)"
    by code_simp
  then show ?thesis
    using lifecycle_and_settings_keep_authority [OF keyed, of live_env 0 True "Some (sample_auth ''ann'')" "''room_attic''"
        "J_obj [(''action'', J_str ''archive'')]"] by simp
qed

text \<open>
  A run: Ann's new team gets a room, a device session appears, and Ann's device becomes the host.
\<close>

definition crew_created :: "room reply \<times> live" where
  "crew_created = create_room room_cfg 0 True id id ''attic'' (Some (sample_auth ''ann''))
     (J_obj [(''teamId'', J_str ''team_x''), (''name'', J_str ''Attic'')]) (snd ann_created)"

definition crew_with_device :: live where
  "crew_with_device = put_store (\<lambda>s. s\<lparr>deviceSessions := deviceSessions auth_store\<rparr>) (snd crew_created)"

definition crew_hosted :: "room reply \<times> live" where
  "crew_hosted = bootstrap_room_host live_env 0 True (Some (sample_auth ''ann'')) (Some ''tok'') ''room_attic'' host_body crew_with_device"

lemma crew_hosted_run: "room_run room_cfg sample_team_config (snd crew_hosted)"
proof -
  have "rooms sample_empty = []" "rooms (lv_store (snd ann_created)) = []" by code_simp+
  then have "room_run room_cfg sample_team_config (snd ann_created)"
    by (intro room_run.elsewhere [OF room_run.start [OF sample_empty_created]]) (simp_all add: fresh_live_def)
  then have "room_run room_cfg sample_team_config (snd crew_created)"
    unfolding crew_created_def by (intro room_run.creation) simp_all
  then have "room_run room_cfg sample_team_config crew_with_device"
    by (rule room_run.elsewhere) (simp add: crew_with_device_def put_store_def)
  then have "room_run room_cfg sample_team_config (snd (bootstrap_room_host (rc_env room_cfg) 0 True (Some (sample_auth ''ann''))
      (Some ''tok'') ''room_attic'' host_body crew_with_device))" by (rule room_run.bootstrap)
  then show ?thesis by (simp add: crew_hosted_def room_cfg_def)
qed

lemma crew_hosted_active: "map_option r_status (jget (rooms (lv_store (snd crew_hosted))) ''room_attic'') = Some Host_active"
  by code_simp


end
