(* ===== verification/Turns.thy ===== *)
theory Turns
  imports Prelude
begin

text \<open>
  The turns that serialize the durable mutations of an account
  (apps/relay/src/auth/account-mutation-transaction.ts). A turn is a promise that its release
  resolves; the map of tails remembers the last one of each account, and an acquisition waits for the
  tail it found there. The promises are numbered in the order of the acquisitions. The queue of
  acquireDurableQuotaTransaction (auth/account-quotas.ts) is the same with one key.
\<close>

record ticket =
  tk_user :: string
  tk_prev :: "nat option"
  tk_released :: bool

record turn_queue =
  tq_tails :: "(string, nat) jmap"
  tq_tickets :: "ticket list"

definition no_turns :: turn_queue where
  "no_turns = \<lparr>tq_tails = [], tq_tickets = []\<rparr>"

text \<open>The synchronous part of an acquisition: the turn and its tail.\<close>

definition acquire_turn :: "string \<Rightarrow> turn_queue \<Rightarrow> nat \<times> turn_queue" where
  "acquire_turn u q =
     (let n = length (tq_tickets q) in
      (n, q\<lparr>tq_tails := jset u n (tq_tails q),
            tq_tickets := tq_tickets q @ [\<lparr>tk_user = u, tk_prev = jget (tq_tails q) u, tk_released = False\<rparr>]\<rparr>))"

text \<open>A tail resolves once the tail before it has resolved and its own turn is released.\<close>

function settled :: "ticket list \<Rightarrow> nat \<Rightarrow> bool" where
  "settled ts n \<longleftrightarrow> n < length ts \<and> tk_released (ts ! n)
     \<and> (case tk_prev (ts ! n) of None \<Rightarrow> True | Some p \<Rightarrow> if p < n then settled ts p else False)"
  by auto
termination by (relation "measure snd") auto

declare settled.simps [simp del]

text \<open>\<open>await previous\<close> is over.\<close>

definition granted :: "turn_queue \<Rightarrow> nat \<Rightarrow> bool" where
  "granted q n \<longleftrightarrow> n < length (tq_tickets q)
     \<and> (case tk_prev (tq_tickets q ! n) of None \<Rightarrow> True | Some p \<Rightarrow> settled (tq_tickets q) p)"

text \<open>The function an acquisition returns.\<close>

definition release_turn :: "nat \<Rightarrow> turn_queue \<Rightarrow> turn_queue" where
  "release_turn n q =
     (let t = tq_tickets q ! n in
      q\<lparr>tq_tickets := (tq_tickets q)[n := t\<lparr>tk_released := True\<rparr>],
        tq_tails := (if jget (tq_tails q) (tk_user t) = Some n then jdel (tk_user t) (tq_tails q) else tq_tails q)\<rparr>)"

text \<open>
  \<open>acquireAccountMutationTurns\<close>: the accounts, each once, in the order of the locale, whose collation
  is a parameter; and the release of all turns, the last first.
\<close>

definition ordered_user_ids :: "(string \<Rightarrow> nat) \<Rightarrow> string list \<Rightarrow> string list" where
  "ordered_user_ids collate us = sort_key collate (rev (remdups (rev us)))"

definition release_turns :: "nat list \<Rightarrow> turn_queue \<Rightarrow> turn_queue" where
  "release_turns held q = fold release_turn (rev held) q"

section \<open>The mutations that take turns\<close>

text \<open>
  A mutation on its way: the accounts it has still to acquire, the turn it waits for, and the turns
  it holds. Steps of different mutations interleave at their awaits.
\<close>

record mutation =
  mu_todo :: "string list"
  mu_wait :: "nat option"
  mu_held :: "nat list"

definition new_mutation :: "(string \<Rightarrow> nat) \<Rightarrow> string list \<Rightarrow> mutation" where
  "new_mutation collate us = \<lparr>mu_todo = ordered_user_ids collate us, mu_wait = None, mu_held = []\<rparr>"

fun request_turn :: "mutation \<Rightarrow> turn_queue \<Rightarrow> (mutation \<times> turn_queue) option" where
  "request_turn m q =
     (case (mu_wait m, mu_todo m) of
        (None, u # us) \<Rightarrow> (case acquire_turn u q of (n, q') \<Rightarrow> Some (m\<lparr>mu_todo := us, mu_wait := Some n\<rparr>, q'))
      | _ \<Rightarrow> None)"

fun resume_turn :: "mutation \<Rightarrow> turn_queue \<Rightarrow> (mutation \<times> turn_queue) option" where
  "resume_turn m q =
     (case mu_wait m of
        None \<Rightarrow> None
      | Some n \<Rightarrow> if granted q n then Some (m\<lparr>mu_wait := None, mu_held := mu_held m @ [n]\<rparr>, q) else None)"

fun finish_turns :: "mutation \<Rightarrow> turn_queue \<Rightarrow> (mutation \<times> turn_queue) option" where
  "finish_turns m q =
     (if mu_wait m = None \<and> mu_todo m = [] \<and> mu_held m \<noteq> [] then Some (m\<lparr>mu_held := []\<rparr>, release_turns (mu_held m) q) else None)"

definition mutation_step :: "mutation \<Rightarrow> turn_queue \<Rightarrow> (mutation \<times> turn_queue) option" where
  "mutation_step m q =
     (case request_turn m q of Some r \<Rightarrow> Some r
      | None \<Rightarrow> (case resume_turn m q of Some r \<Rightarrow> Some r | None \<Rightarrow> finish_turns m q))"

definition mutation_done :: "mutation \<Rightarrow> bool" where
  "mutation_done m \<longleftrightarrow> mu_wait m = None \<and> mu_todo m = [] \<and> mu_held m = []"

text \<open>
  New mutations arrive and the others step, in any order. The locale is assumed to tell the accounts
  of one mutation apart.
\<close>

inductive turns_run :: "(string \<Rightarrow> nat) \<Rightarrow> turn_queue \<Rightarrow> mutation list \<Rightarrow> bool" for collate where
  start: "turns_run collate no_turns []"
| arrive: "turns_run collate q ms \<Longrightarrow> inj_on collate (set us) \<Longrightarrow> turns_run collate q (ms @ [new_mutation collate us])"
| step: "turns_run collate q ms \<Longrightarrow> i < length ms \<Longrightarrow> mutation_step (ms ! i) q = Some (m, q') \<Longrightarrow> turns_run collate q' (ms[i := m])"

end
