(* ===== verification/Turn_Proofs.thy ===== *)
theory Turn_Proofs
  imports Turns
begin

text \<open>
  The turns of an account are handed out in the order they were asked for, one at a time; every turn
  comes; and mutations that take several turns never block one another for good.
\<close>

abbreviation tickets :: "turn_queue \<Rightarrow> nat" where "tickets q \<equiv> length (tq_tickets q)"
abbreviation user_of :: "turn_queue \<Rightarrow> nat \<Rightarrow> string" where "user_of q n \<equiv> tk_user (tq_tickets q ! n)"
abbreviation prev_of :: "turn_queue \<Rightarrow> nat \<Rightarrow> nat option" where "prev_of q n \<equiv> tk_prev (tq_tickets q ! n)"
abbreviation released :: "turn_queue \<Rightarrow> nat \<Rightarrow> bool" where "released q n \<equiv> tk_released (tq_tickets q ! n)"

section \<open>The invariant of the tails\<close>

text \<open>
  A turn waits for the last turn of its account before it, or for nothing when all those are
  released; the tail of an account is its last turn, or none when all are released; turns are
  released in order.
\<close>

definition turns_ok :: "turn_queue \<Rightarrow> bool" where
  "turns_ok q \<longleftrightarrow>
     (\<forall>n p. n < tickets q \<longrightarrow> prev_of q n = Some p \<longrightarrow> p < n \<and> user_of q p = user_of q n \<and> (\<forall>m. p < m \<longrightarrow> m < n \<longrightarrow> user_of q m \<noteq> user_of q n))
   \<and> (\<forall>n m. n < tickets q \<longrightarrow> prev_of q n = None \<longrightarrow> m < n \<longrightarrow> user_of q m = user_of q n \<longrightarrow> released q m)
   \<and> (\<forall>u n. jget (tq_tails q) u = Some n \<longrightarrow> n < tickets q \<and> user_of q n = u \<and> (\<forall>m. n < m \<longrightarrow> m < tickets q \<longrightarrow> user_of q m \<noteq> u))
   \<and> (\<forall>u n. jget (tq_tails q) u = None \<longrightarrow> n < tickets q \<longrightarrow> user_of q n = u \<longrightarrow> released q n)
   \<and> (\<forall>n m. n < tickets q \<longrightarrow> released q n \<longrightarrow> m < n \<longrightarrow> user_of q m = user_of q n \<longrightarrow> released q m)"

lemma turns_okD:
  assumes "turns_ok q"
  shows "n < tickets q \<Longrightarrow> prev_of q n = Some p \<Longrightarrow> p < n \<and> user_of q p = user_of q n \<and> (\<forall>m. p < m \<longrightarrow> m < n \<longrightarrow> user_of q m \<noteq> user_of q n)"
    and "n < tickets q \<Longrightarrow> prev_of q n = None \<Longrightarrow> m < n \<Longrightarrow> user_of q m = user_of q n \<Longrightarrow> released q m"
    and "jget (tq_tails q) u = Some n \<Longrightarrow> n < tickets q \<and> user_of q n = u \<and> (\<forall>m. n < m \<longrightarrow> m < tickets q \<longrightarrow> user_of q m \<noteq> u)"
    and "jget (tq_tails q) u = None \<Longrightarrow> n < tickets q \<Longrightarrow> user_of q n = u \<Longrightarrow> released q n"
    and "n < tickets q \<Longrightarrow> released q n \<Longrightarrow> m < n \<Longrightarrow> user_of q m = user_of q n \<Longrightarrow> released q m"
  using assms unfolding turns_ok_def by blast+

lemma settled_released:
  assumes "turns_ok q" and "n < tickets q"
  shows "settled (tq_tickets q) n = released q n"
  using assms(2)
proof (induction n rule: less_induct)
  case (less n)
  have "settled (tq_tickets q) p = True" if "prev_of q n = Some p" "released q n" for p
  proof -
    from turns_okD(1) [OF assms(1) less.prems that(1)] have "p < n" "user_of q p = user_of q n" by simp_all
    with turns_okD(5) [OF assms(1) less.prems that(2)] less show ?thesis by simp
  qed
  then show ?case
    using less.prems turns_okD(1) [OF assms(1) less.prems]
    by (auto simp: settled.simps [of _ n] split: option.split)
qed

lemma granted_iff:
  assumes ok: "turns_ok q"
  shows "granted q n \<longleftrightarrow> n < tickets q \<and> (\<forall>m < n. user_of q m = user_of q n \<longrightarrow> released q m)"
proof (cases "n < tickets q")
  case True
  show ?thesis
  proof (cases "prev_of q n")
    case None
    then show ?thesis using turns_okD(2) [OF ok True None] True by (simp add: granted_def)
  next
    case (Some p)
    from turns_okD(1) [OF ok True Some] have p: "p < n" "user_of q p = user_of q n"
      and last: "\<And>m. p < m \<Longrightarrow> m < n \<Longrightarrow> user_of q m \<noteq> user_of q n" by simp_all
    have "released q m" if "released q p" "m < n" "user_of q m = user_of q n" for m
    proof (cases "m < p")
      case True
      then show ?thesis using turns_okD(5) [OF ok _ that(1)] that p \<open>n < tickets q\<close> by simp
    next
      case False
      then show ?thesis using last [of m] that by (cases "m = p") auto
    qed
    then show ?thesis using p True Some settled_released [OF ok, of p] by (auto simp: granted_def)
  qed
qed (simp add: granted_def)

lemma granted_in_order:
  assumes "turns_ok q" and "granted q n" and "m < n" and "user_of q m = user_of q n"
  shows "released q m"
  using assms granted_iff by blast

section \<open>It is kept\<close>

lemma no_turns_ok: "turns_ok no_turns"
  by (simp add: turns_ok_def no_turns_def)

lemma acquire_turn_simps:
  assumes "acquire_turn u q = (n, q')"
  shows "n = tickets q" "tickets q' = Suc (tickets q)" "user_of q' n = u" "\<not> released q' n" "prev_of q' n = jget (tq_tails q) u"
    "\<And>m. m < tickets q \<Longrightarrow> tq_tickets q' ! m = tq_tickets q ! m" "tq_tails q' = jset u n (tq_tails q)"
  using assms by (auto simp: acquire_turn_def Let_def nth_append)

lemma acquire_turn_ok:
  assumes ok: "turns_ok q" and acq: "acquire_turn u q = (n, q')"
  shows "turns_ok q'"
proof -
  note new = acquire_turn_simps [OF acq]
  have old: "m < tickets q' \<Longrightarrow> m \<noteq> n \<Longrightarrow> m < tickets q" for m using new by simp
  show ?thesis
    unfolding turns_ok_def
  proof (intro conjI allI impI)
    fix k p assume k: "k < tickets q'" "prev_of q' k = Some p"
    have "p < k \<and> user_of q' p = user_of q' k \<and> (\<forall>m. p < m \<longrightarrow> m < k \<longrightarrow> user_of q' m \<noteq> user_of q' k)"
    proof (cases "k = n")
      case True
      then have "jget (tq_tails q) u = Some p" using k new(5) by simp
      from turns_okD(3) [OF ok this] show ?thesis using True new(1,3,6) by simp
    next
      case False
      then have "k < tickets q" using old k(1) by simp
      from turns_okD(1) [OF ok this] show ?thesis using k(2) new(6) \<open>k < tickets q\<close> by simp
    qed
    then show "p < k" "user_of q' p = user_of q' k" "\<And>m. p < m \<Longrightarrow> m < k \<Longrightarrow> user_of q' m \<noteq> user_of q' k" by simp_all
  next
    fix k m assume "k < tickets q'" "prev_of q' k = None" "m < k" "user_of q' m = user_of q' k"
    then show "released q' m" using turns_okD(2) [OF ok, of k m] turns_okD(4) [OF ok, of u m] new old [of k] by (cases "k = n") auto
  next
    fix v k assume v: "jget (tq_tails q') v = Some k"
    have "k < tickets q' \<and> user_of q' k = v \<and> (\<forall>m. k < m \<longrightarrow> m < tickets q' \<longrightarrow> user_of q' m \<noteq> v)"
    proof (cases "v = u")
      case True
      then show ?thesis using v new by simp
    next
      case False
      then have "jget (tq_tails q) v = Some k" using v new(7) by simp
      from turns_okD(3) [OF ok this] show ?thesis using False new(1,2,3,6) by (auto simp: less_Suc_eq)
    qed
    then show "k < tickets q'" "user_of q' k = v" "\<And>m. k < m \<Longrightarrow> m < tickets q' \<Longrightarrow> user_of q' m \<noteq> v" by simp_all
  next
    fix v k assume v: "jget (tq_tails q') v = None" "k < tickets q'" "user_of q' k = v"
    then show "released q' k" using turns_okD(4) [OF ok, of v k] new old [of k] by (cases "k = n") (auto split: if_splits)
  next
    fix k m assume "k < tickets q'" "released q' k" "m < k" "user_of q' m = user_of q' k"
    then show "released q' m" using turns_okD(5) [OF ok, of k m] new old [of k] by (cases "k = n") auto
  qed
qed

lemma release_turn_nth: "tq_tickets (release_turn n q) ! m
    = (if n = m \<and> m < tickets q then (tq_tickets q ! m)\<lparr>tk_released := True\<rparr> else tq_tickets q ! m)"
proof (cases "n < tickets q")
  case True
  then show ?thesis by (cases "n = m") (simp_all add: release_turn_def Let_def)
next
  case False
  then show ?thesis by (auto simp: release_turn_def Let_def list_update_beyond)
qed

lemma release_turn_simps [simp]:
  "tickets (release_turn n q) = tickets q" "user_of (release_turn n q) m = user_of q m" "prev_of (release_turn n q) m = prev_of q m"
  "m < tickets q \<Longrightarrow> released (release_turn n q) m = (m = n \<or> released q m)"
  by (simp add: release_turn_def Let_def) (auto simp: release_turn_nth)

lemma release_turn_ok:
  assumes ok: "turns_ok q" and granted: "granted q n"
  shows "turns_ok (release_turn n q)"
proof -
  let ?q = "release_turn n q"
  from granted have n: "n < tickets q" by (simp add: granted_def)
  have tails: "jget (tq_tails ?q) u = (if jget (tq_tails q) u = Some n \<and> u = user_of q n then None else jget (tq_tails q) u)" for u
    by (auto simp: release_turn_def Let_def)
  show ?thesis
    unfolding turns_ok_def release_turn_simps(1-3)
  proof (intro conjI allI impI)
    fix k p assume "k < tickets q" "prev_of q k = Some p"
    then show "p < k" "user_of q p = user_of q k" "\<And>m. p < m \<Longrightarrow> m < k \<Longrightarrow> user_of q m \<noteq> user_of q k"
      using turns_okD(1) [OF ok] by blast+
  next
    fix k m assume "k < tickets q" "prev_of q k = None" "m < k" "user_of q m = user_of q k"
    then show "released ?q m" using turns_okD(2) [OF ok] by simp
  next
    fix v k assume "jget (tq_tails ?q) v = Some k"
    then have "jget (tq_tails q) v = Some k" by (simp add: tails split: if_splits)
    then show "k < tickets q" "user_of q k = v" "\<And>m. k < m \<Longrightarrow> m < tickets q \<Longrightarrow> user_of q m \<noteq> v"
      using turns_okD(3) [OF ok] by blast+
  next
    fix v k assume v: "jget (tq_tails ?q) v = None" and k: "k < tickets q" "user_of q k = v"
    show "released ?q k"
    proof (cases "jget (tq_tails q) v")
      case None
      then show ?thesis using turns_okD(4) [OF ok None k] k by simp
    next
      case (Some j)
      with v have j: "j = n" "v = user_of q n" by (simp_all add: tails split: if_splits)
      then have "k \<le> n" using turns_okD(3) [OF ok Some] k by (metis linorder_not_le)
      then show ?thesis using granted_in_order [OF ok granted, of k] k j by (cases "k = n") auto
    qed
  next
    fix k m assume "k < tickets q" "released ?q k" "m < k" "user_of q m = user_of q k"
    then show "released ?q m" using turns_okD(5) [OF ok, of k m] granted_in_order [OF ok granted, of m] by auto
  qed
qed

lemma granted_release: "turns_ok q \<Longrightarrow> granted q n \<Longrightarrow> granted q m \<Longrightarrow> granted (release_turn n q) m"
  using granted_iff [of q m] granted_iff [OF release_turn_ok, of q n m] by simp

lemma granted_acquire:
  assumes "turns_ok q" and "acquire_turn u q = (n, q')" and "granted q m"
  shows "granted q' m"
  using assms(3) acquire_turn_simps [OF assms(2)]
  by (auto simp: granted_iff [OF assms(1)] granted_iff [OF acquire_turn_ok [OF assms(1,2)]])

text \<open>The releases of one mutation.\<close>

lemma releases:
  assumes "turns_ok q" and "\<forall>n \<in> set ns. granted q n"
  shows "turns_ok (fold release_turn ns q) \<and> tickets (fold release_turn ns q) = tickets q
    \<and> (\<forall>m. user_of (fold release_turn ns q) m = user_of q m)
    \<and> (\<forall>m. m < tickets q \<longrightarrow> released (fold release_turn ns q) m = (m \<in> set ns \<or> released q m))
    \<and> (\<forall>m. granted q m \<longrightarrow> granted (fold release_turn ns q) m)"
  using assms
proof (induction ns arbitrary: q)
  case (Cons n ns)
  from Cons.prems have n: "granted q n" and ok: "turns_ok (release_turn n q)" by (simp_all add: release_turn_ok)
  have "\<forall>m \<in> set ns. granted (release_turn n q) m" using Cons.prems granted_release [OF Cons.prems(1) n] by simp
  from Cons.IH [OF ok this] show ?case using granted_release [OF Cons.prems(1) n] by auto
qed simp

lemma release_turns:
  assumes "turns_ok q" and "\<forall>n \<in> set ns. granted q n"
  shows "turns_ok (release_turns ns q)" "tickets (release_turns ns q) = tickets q" "user_of (release_turns ns q) m = user_of q m"
    "m < tickets q \<Longrightarrow> released (release_turns ns q) m = (m \<in> set ns \<or> released q m)"
    "granted q m \<Longrightarrow> granted (release_turns ns q) m"
  using releases [OF assms(1), of "rev ns"] assms(2) by (simp_all add: release_turns_def)

section \<open>Mutations and their turns\<close>

definition taken :: "mutation \<Rightarrow> nat set" where
  "taken m = set (mu_held m) \<union> set_option (mu_wait m)"

text \<open>The accounts a mutation holds, waits for and still wants, in the order of the locale.\<close>

definition accounts_of :: "turn_queue \<Rightarrow> mutation \<Rightarrow> string list" where
  "accounts_of q m = map (user_of q) (mu_held m @ (case mu_wait m of None \<Rightarrow> [] | Some n \<Rightarrow> [n])) @ mu_todo m"

definition mutations_ok :: "(string \<Rightarrow> nat) \<Rightarrow> turn_queue \<Rightarrow> mutation list \<Rightarrow> bool" where
  "mutations_ok collate q ms \<longleftrightarrow> turns_ok q
     \<and> (\<forall>n < tickets q. \<not> released q n \<longrightarrow> (\<exists>i < length ms. n \<in> taken (ms ! i)))
     \<and> (\<forall>i < length ms. \<forall>n \<in> taken (ms ! i). n < tickets q \<and> \<not> released q n \<and> (\<forall>j < length ms. n \<in> taken (ms ! j) \<longrightarrow> j = i))
     \<and> (\<forall>i < length ms. \<forall>n \<in> set (mu_held (ms ! i)). granted q n)
     \<and> (\<forall>i < length ms. sorted_wrt (\<lambda>u v. collate u < collate v) (accounts_of q (ms ! i)))"

lemma mutations_okD:
  assumes "mutations_ok collate q ms"
  shows "turns_ok q" and "n < tickets q \<Longrightarrow> \<not> released q n \<Longrightarrow> \<exists>i < length ms. n \<in> taken (ms ! i)"
    and "i < length ms \<Longrightarrow> n \<in> taken (ms ! i) \<Longrightarrow> n < tickets q \<and> \<not> released q n"
    and "i < length ms \<Longrightarrow> j < length ms \<Longrightarrow> n \<in> taken (ms ! i) \<Longrightarrow> n \<in> taken (ms ! j) \<Longrightarrow> j = i"
    and "i < length ms \<Longrightarrow> n \<in> set (mu_held (ms ! i)) \<Longrightarrow> granted q n"
    and "i < length ms \<Longrightarrow> sorted_wrt (\<lambda>u v. collate u < collate v) (accounts_of q (ms ! i))"
  using assms unfolding mutations_ok_def by blast+

lemma accounts_cong: "\<forall>n \<in> taken m. user_of q' n = user_of q n \<Longrightarrow> accounts_of q' m = accounts_of q m"
  by (auto simp: accounts_of_def taken_def split: option.splits)

lemma ordered_user_ids_ascending:
  assumes "inj_on collate (set us)"
  shows "sorted_wrt (\<lambda>u v. collate u < collate v) (ordered_user_ids collate us)"
proof -
  let ?us = "ordered_user_ids collate us"
  have "distinct ?us" "set ?us = set us" by (simp_all add: ordered_user_ids_def)
  then have "distinct (map collate ?us)" using assms by (simp add: distinct_map)
  moreover have "sorted (map collate ?us)" by (simp add: ordered_user_ids_def)
  ultimately have "sorted_wrt (<) (map collate ?us)" by (simp add: strict_sorted_iff)
  then show ?thesis by (simp add: sorted_wrt_map)
qed

lemma arrive_ok:
  assumes ok: "mutations_ok collate q ms" and inj: "inj_on collate (set us)"
  shows "mutations_ok collate q (ms @ [new_mutation collate us])"
proof -
  have new: "taken (new_mutation collate us) = {}" "accounts_of q (new_mutation collate us) = ordered_user_ids collate us"
    "mu_held (new_mutation collate us) = []"
    by (simp_all add: taken_def accounts_of_def new_mutation_def)
  show ?thesis
    using mutations_okD [OF ok] ordered_user_ids_ascending [OF inj] new
    by (simp add: mutations_ok_def nth_append less_Suc_eq) (metis (no_types, lifting))
qed

text \<open>One mutation moves: the turns of the others are untouched.\<close>

lemma move_ok:
  assumes ok: "mutations_ok collate q ms" and i: "i < length ms" and ok': "turns_ok q'" and more: "tickets q \<le> tickets q'"
    and users: "\<forall>n < tickets q. user_of q' n = user_of q n" and granted: "\<forall>n. granted q n \<longrightarrow> granted q' n"
    and open_old: "\<forall>n < tickets q'. \<not> released q' n \<longrightarrow> n \<in> taken m \<or> (n < tickets q \<and> \<not> released q n \<and> n \<notin> taken (ms ! i))"
    and others: "\<forall>n < tickets q. \<not> released q n \<longrightarrow> n \<notin> taken (ms ! i) \<longrightarrow> \<not> released q' n"
    and own: "\<forall>n \<in> taken m. n < tickets q' \<and> \<not> released q' n \<and> (n \<in> taken (ms ! i) \<or> tickets q \<le> n)"
    and held: "\<forall>n \<in> set (mu_held m). granted q' n"
    and ordered: "sorted_wrt (\<lambda>u v. collate u < collate v) (accounts_of q' m)"
  shows "mutations_ok collate q' (ms[i := m])"
proof -
  note D = mutations_okD [OF ok]
  have apart: "n \<notin> taken (ms ! i)" if "j < length ms" "j \<noteq> i" "n \<in> taken (ms ! j)" for n j
    using D(4) [OF i that(1)] that by blast
  have accounts: "accounts_of q' (ms ! j) = accounts_of q (ms ! j)" if "j < length ms" for j
    using D(3) [OF that] users by (intro accounts_cong) blast
  have kept: "n < tickets q' \<and> \<not> released q' n" if "j < length ms" "j \<noteq> i" "n \<in> taken (ms ! j)" for n j
    using D(3) [OF that(1,3)] apart [OF that] others more by auto
  have foreign: "n \<notin> taken m" if "j < length ms" "j \<noteq> i" "n \<in> taken (ms ! j)" for n j
    using D(3) [OF that(1,3)] apart [OF that] own by fastforce
  have unique: "k = j" if "j < length ms" "k < length ms" "n \<in> taken (ms[i := m] ! j)" "n \<in> taken (ms[i := m] ! k)" for j k n
  proof (cases "j = i \<or> k = i")
    case True
    then show ?thesis using that foreign [of k n] foreign [of j n] i by (cases "j = k") auto
  next
    case False
    then show ?thesis using that D(4) [of j k n] by simp
  qed
  have owner: "\<exists>j < length ms. n \<in> taken (ms[i := m] ! j)" if "n < tickets q'" "\<not> released q' n" for n
  proof (cases "n \<in> taken m")
    case True
    then show ?thesis using i by auto
  next
    case False
    with open_old that have n: "n < tickets q" "\<not> released q n" "n \<notin> taken (ms ! i)" by blast+
    from D(2) [OF n(1,2)] n(3) obtain j where "j < length ms" "n \<in> taken (ms ! j)" "j \<noteq> i" by metis
    then show ?thesis by (auto simp: nth_list_update)
  qed
  show ?thesis
    unfolding mutations_ok_def length_list_update
  proof (intro conjI allI impI ballI)
    show "turns_ok q'" by (rule ok')
    show "\<exists>j < length ms. n \<in> taken (ms[i := m] ! j)" if "n < tickets q'" "\<not> released q' n" for n using owner that by simp
    show "n < tickets q'" "\<not> released q' n" if "j < length ms" "n \<in> taken (ms[i := m] ! j)" for j n
      using that kept own i by (cases "j = i"; auto)+
    show "k = j" if "j < length ms" "n \<in> taken (ms[i := m] ! j)" "k < length ms" "n \<in> taken (ms[i := m] ! k)" for j k n
      using unique that by blast
    show "granted q' n" if "j < length ms" "n \<in> set (mu_held (ms[i := m] ! j))" for j n
      using that held granted D(5) [of j n] i by (cases "j = i") auto
    show "sorted_wrt (\<lambda>u v. collate u < collate v) (accounts_of q' (ms[i := m] ! j))" if "j < length ms" for j
      using that ordered accounts D(6) [OF that] i by (cases "j = i") auto
  qed
qed

lemma mutation_step_cases:
  assumes "mutation_step m q = Some (m', q')"
  obtains (request) u us n where "mu_wait m = None" "mu_todo m = u # us" "acquire_turn u q = (n, q')"
      "m' = m\<lparr>mu_todo := us, mu_wait := Some n\<rparr>"
    | (resume) n where "mu_wait m = Some n" "granted q n" "q' = q" "m' = m\<lparr>mu_wait := None, mu_held := mu_held m @ [n]\<rparr>"
    | (finish) "mu_wait m = None" "mu_todo m = []" "mu_held m \<noteq> []" "q' = release_turns (mu_held m) q" "m' = m\<lparr>mu_held := []\<rparr>"
  using assms by (auto simp: mutation_step_def split: option.splits list.splits prod.splits if_splits)

lemma step_ok:
  assumes ok: "mutations_ok collate q ms" and i: "i < length ms" and step: "mutation_step (ms ! i) q = Some (m', q')"
  shows "mutations_ok collate q' (ms[i := m'])"
  using step
proof (cases rule: mutation_step_cases)
  case (request u us n)
  note D = mutations_okD [OF ok] and new = acquire_turn_simps [OF request(3)]
  have taken: "taken m' = insert n (taken (ms ! i))" using request by (auto simp: taken_def)
  have "accounts_of q' m' = accounts_of q (ms ! i)"
    using request D(3) [OF i] new by (auto simp: accounts_of_def taken_def)
  then have ordered: "sorted_wrt (\<lambda>u v. collate u < collate v) (accounts_of q' m')" using D(6) [OF i] by simp
  show ?thesis
    by (rule move_ok [OF ok i acquire_turn_ok [OF D(1) request(3)] _ _ _ _ _ _ _ ordered])
      (use D(3) [OF i] D(5) [OF i] new granted_acquire [OF D(1) request(3)] taken request in \<open>auto simp: less_Suc_eq\<close>)
next
  case (resume n)
  note D = mutations_okD [OF ok]
  have "accounts_of q' m' = accounts_of q (ms ! i)" "taken m' = taken (ms ! i)" using resume by (auto simp: accounts_of_def taken_def)
  then show ?thesis
    using move_ok [OF ok i, of q' m'] D(1) D(3) [OF i] D(5) [OF i] D(6) [OF i] resume by auto
next
  case finish
  note D = mutations_okD [OF ok] and R = release_turns [OF mutations_okD(1) [OF ok], of "mu_held (ms ! i)"]
  have held: "\<forall>n \<in> set (mu_held (ms ! i)). granted q n" using D(5) [OF i] by blast
  have taken: "taken m' = {}" "taken (ms ! i) = set (mu_held (ms ! i))" using finish by (auto simp: taken_def)
  have ordered: "sorted_wrt (\<lambda>u v. collate u < collate v) (accounts_of q' m')" using finish by (simp add: accounts_of_def)
  show ?thesis
    by (rule move_ok [OF ok i _ _ _ _ _ _ _ _ ordered]) (use R [OF held] taken finish in auto)
qed

lemma turns_run_ok: "turns_run collate q ms \<Longrightarrow> mutations_ok collate q ms"
proof (induction rule: turns_run.induct)
  case start
  show ?case by (simp add: mutations_ok_def no_turns_ok) (simp add: no_turns_def)
qed (simp_all add: arrive_ok step_ok)

section \<open>One holder at a time\<close>

text \<open>
  C34: At most one mutation holds the turn of an account, and turns are granted in the order they were
  asked for: while a turn is held, every earlier turn of the account has been released and no later
  one is granted.
\<close>

theorem one_holder_per_account:
  assumes "turns_run collate q ms" and i: "i < length ms" "n \<in> set (mu_held (ms ! i))"
    and k: "k < length (tq_tickets q)" "k \<noteq> n" "tk_user (tq_tickets q ! k) = tk_user (tq_tickets q ! n)"
  shows "(\<forall>j < length ms. k \<notin> set (mu_held (ms ! j))) \<and> (k < n \<longrightarrow> tk_released (tq_tickets q ! k)) \<and> (n < k \<longrightarrow> \<not> granted q k)"
proof -
  note D = mutations_okD [OF turns_run_ok [OF assms(1)]]
  have n: "granted q n" "\<not> released q n" using D(5) [OF i] D(3) [OF i(1), of n] i(2) by (simp_all add: taken_def)
  have before: "released q k" if "k < n" using granted_in_order [OF D(1) n(1) that] k by simp
  have after: "\<not> granted q k" if "n < k" using granted_in_order [OF D(1) _ that] k n(2) by metis
  have "k \<notin> set (mu_held (ms ! j))" if "j < length ms" for j
    using D(5) [OF that, of k] D(3) [OF that, of k] before after k(2) by (cases "k < n") (auto simp: taken_def)
  with before after show ?thesis by blast
qed

section \<open>Every mutation finishes\<close>

lemma unfinished_steps:
  assumes "\<not> mutation_done m" and "mutation_step m q = None"
  obtains n where "mu_wait m = Some n" and "\<not> granted q n"
  using assms by (auto simp: mutation_done_def mutation_step_def acquire_turn_def Let_def split: option.splits list.splits if_splits)

text \<open>The first turn of an account that is not released is granted.\<close>

lemma first_turn:
  assumes "turns_ok q" and "n < tickets q" and "\<not> granted q n" and "\<not> released q n"
  obtains k where "k < n" "user_of q k = user_of q n" "\<not> released q k" "granted q k"
proof -
  define P where "P k \<longleftrightarrow> k < n \<and> user_of q k = user_of q n \<and> \<not> released q k" for k
  from assms(1-3) have "\<exists>k. P k" by (auto simp: granted_iff P_def)
  then obtain k where k: "P k" and least: "\<forall>m < k. \<not> P m" using exists_least_iff [of P] by blast
  have "released q m" if "m < k" "user_of q m = user_of q k" for m
    using least that k unfolding P_def by (metis order.strict_trans)
  then have "granted q k" using k assms(1,2) by (simp add: granted_iff P_def)
  with k that show ?thesis unfolding P_def by blast
qed

text \<open>
  Where nobody can move, the mutation that waits for the greatest account waits for the holder of
  that account, who waits for a greater one.
\<close>

lemma never_stuck:
  assumes ok: "mutations_ok collate q ms" and stuck: "\<forall>i < length ms. mutation_step (ms ! i) q = None"
    and i: "i < length ms" "\<not> mutation_done (ms ! i)"
  shows False
proof -
  note D = mutations_okD [OF ok]
  let ?W = "\<lambda>j n. j < length ms \<and> mu_wait (ms ! j) = Some n"
  let ?key = "\<lambda>n. collate (user_of q n)"
  have greater: "\<exists>j' n'. ?W j' n' \<and> ?key n < ?key n'" if W: "?W j n" for j n
  proof -
    from W have n: "n < tickets q" "\<not> released q n" using D(3) [of j n] by (simp_all add: taken_def)
    have "\<not> granted q n" using W stuck by (auto simp: mutation_step_def)
    from first_turn [OF D(1) n(1) this n(2)] obtain k where k: "k < n" "user_of q k = user_of q n" "\<not> released q k" "granted q k" .
    from D(2) [of k] k n obtain j' where j': "j' < length ms" "k \<in> taken (ms ! j')" by auto
    have "mu_wait (ms ! j') \<noteq> Some k" using stuck j' k(4) by (auto simp: mutation_step_def)
    with j' have held: "k \<in> set (mu_held (ms ! j'))" by (simp add: taken_def)
    then have "\<not> mutation_done (ms ! j')" by (auto simp: mutation_done_def)
    then obtain n' where n': "mu_wait (ms ! j') = Some n'" using stuck j'(1) unfinished_steps by metis
    from D(6) [OF j'(1)] have "?key k < ?key n'"
      using held by (auto simp: accounts_of_def n' sorted_wrt_append)
    then show ?thesis using n' j'(1) k(2) by auto
  qed
  from i stuck obtain n where start: "?W i n" using unfinished_steps by metis
  have fin: "finite {?key n | j n. ?W j n}"
  proof (rule finite_subset)
    show "{?key n | j n. ?W j n} \<subseteq> (\<lambda>j. ?key (the (mu_wait (ms ! j)))) ` {..< length ms}" by force
  qed simp
  from start have "{?key n | j n. ?W j n} \<noteq> {}" by blast
  from Max_in [OF fin this] obtain j n where jn: "?W j n" "?key n = Max {?key n | j n. ?W j n}" by auto
  from greater [OF jn(1)] obtain j' n' where "?W j' n'" "?key n < ?key n'" by blast
  moreover have "?key n' \<le> Max {?key n | j n. ?W j n}" by (rule Max_ge [OF fin]) (use calculation(1) in blast)
  ultimately show False using jn(2) by simp
qed

text \<open>How many steps a mutation has left at most.\<close>

definition steps_left :: "mutation \<Rightarrow> nat" where
  "steps_left m = 2 * length (mu_todo m) + (if mu_wait m = None then 0 else 1) + (if mutation_done m then 0 else 1)"

lemma step_decreases: "mutation_step m q = Some (m', q') \<Longrightarrow> steps_left m' < steps_left m"
  by (erule mutation_step_cases) (auto simp: steps_left_def mutation_done_def)

lemma sum_steps_decreases:
  assumes i: "i < length ms" and step: "mutation_step (ms ! i) q = Some (m, q')"
  shows "sum_list (map steps_left (ms[i := m])) < sum_list (map steps_left ms)"
proof -
  have "sum_list (map steps_left ms) = sum_list (map steps_left (take i ms)) + steps_left (ms ! i) + sum_list (map steps_left (drop (Suc i) ms))"
    using id_take_nth_drop [OF i] by (metis (no_types, lifting) add.assoc list.simps(9) map_append sum_list.Cons sum_list_append)
  then show ?thesis
    using step_decreases [OF step] i by (simp add: upd_conv_take_nth_drop)
qed

lemma done_iff_stuck:
  assumes "turns_run collate q ms"
  shows "list_all mutation_done ms \<longleftrightarrow> \<not> (\<exists>i < length ms. mutation_step (ms ! i) q \<noteq> None)"
proof -
  have "mutation_step m q = None" if "mutation_done m" for m
    using that by (simp add: mutation_done_def mutation_step_def)
  then show ?thesis using never_stuck [OF turns_run_ok [OF assms]] unfolding list_all_length by metis
qed

text \<open>
  C36: Mutations that take the turns of several accounts never deadlock: they are all finished exactly
  when none of them can move, so as long as one is not finished, one of them can move.
\<close>

theorem mutations_never_deadlock:
  assumes "turns_run collate q ms"
  shows "list_all mutation_done ms \<longleftrightarrow> \<not> (\<exists>i < length ms. mutation_step (ms ! i) q \<noteq> None)"
  by (rule done_iff_stuck [OF assms])

text \<open>A move of one of the mutations, in any order.\<close>

definition moves :: "turn_queue \<times> mutation list \<Rightarrow> turn_queue \<times> mutation list \<Rightarrow> bool" where
  "moves x y \<longleftrightarrow> (\<exists>i < length (snd x). \<exists>m. mutation_step (snd x ! i) (fst x) = Some (m, fst y) \<and> snd y = (snd x)[i := m])"

definition work_left :: "turn_queue \<times> mutation list \<Rightarrow> nat" where
  "work_left x = sum_list (map steps_left (snd x))"

lemma moves_decrease: "moves x y \<Longrightarrow> work_left y < work_left x"
  by (auto simp: moves_def work_left_def sum_steps_decreases)

lemma moves_run: "moves x y \<Longrightarrow> turns_run collate (fst x) (snd x) \<Longrightarrow> turns_run collate (fst y) (snd y)"
  by (auto simp: moves_def intro: turns_run.step)

lemma moves_bounded: "(moves ^^ k) x y \<Longrightarrow> work_left y + k \<le> work_left x"
proof (induction k arbitrary: y)
  case (Suc k)
  then obtain z where "(moves ^^ k) x z" "moves z y" by auto
  with Suc.IH moves_decrease show ?case by fastforce
qed simp

text \<open>
  C35: Every mutation finishes: without new arrivals the mutations make at most as many moves as they
  have steps left, in any order of the moves, and from every state they reach, however they got
  there, some further moves finish all of them.
\<close>

theorem every_mutation_finishes:
  assumes "turns_run collate q ms" and "(moves ^^ k) (q, ms) (q1, ms1)"
  shows "k \<le> sum_list (map steps_left ms) \<and> (\<exists>n q2 ms2. (moves ^^ n) (q1, ms1) (q2, ms2) \<and> list_all mutation_done ms2)"
proof -
  have finishes: "\<exists>n y. (moves ^^ n) x y \<and> list_all mutation_done (snd y)" if "turns_run collate (fst x) (snd x)" for x
    using that
  proof (induction "work_left x" arbitrary: x rule: less_induct)
    case less
    show ?case
    proof (cases "list_all mutation_done (snd x)")
      case True
      then show ?thesis by (intro exI [of _ 0] exI [of _ x]) simp
    next
      case False
      with done_iff_stuck [OF less.prems] obtain y where y: "moves x y" by (force simp: moves_def)
      from less.hyps [OF moves_decrease [OF y] moves_run [OF y less.prems]] obtain n z where
        "(moves ^^ n) y z" "list_all mutation_done (snd z)" by blast
      with y show ?thesis by (meson relpowp_Suc_I2)
    qed
  qed
  have "turns_run collate (fst y) (snd y)" if "(moves ^^ k) (q, ms) y" for y k
    using that by (induction k arbitrary: y) (auto simp: assms(1) intro: moves_run)
  from finishes [OF this [OF assms(2)]] moves_bounded [OF assms(2)] show ?thesis
    by (auto simp: work_left_def)
qed

end
