(* ===== verification/Turn_Witnesses.thy ===== *)
theory Turn_Witnesses
  imports Turn_Proofs
begin

text \<open>
  Two mutations that take the turns of Ann and Bob, named in opposite orders: the first holds Ann's
  turn, the second waits for it.
\<close>

definition by_name :: "string \<Rightarrow> nat" where
  "by_name u = (if u = ''ann'' then 0 else 1)"

definition first_mutation :: mutation where
  "first_mutation = \<lparr>mu_todo = [''bob''], mu_wait = None, mu_held = [0]\<rparr>"

definition second_mutation :: mutation where
  "second_mutation = \<lparr>mu_todo = [''bob''], mu_wait = Some 1, mu_held = []\<rparr>"

definition contended :: turn_queue where
  "contended = \<lparr>tq_tails = [(''ann'', 1)], tq_tickets =
     [\<lparr>tk_user = ''ann'', tk_prev = None, tk_released = False\<rparr>, \<lparr>tk_user = ''ann'', tk_prev = Some 0, tk_released = False\<rparr>]\<rparr>"

lemma contended_run: "turns_run by_name contended [first_mutation, second_mutation]"
proof -
  let ?m = "\<lparr>mu_todo = [''ann'', ''bob''], mu_wait = None, mu_held = []\<rparr>"
  let ?w = "?m\<lparr>mu_todo := [''bob''], mu_wait := Some 0\<rparr>"
  let ?q = "\<lparr>tq_tails = [(''ann'', 0)], tq_tickets = [\<lparr>tk_user = ''ann'', tk_prev = None, tk_released = False\<rparr>]\<rparr>"
  have new: "new_mutation by_name [''ann'', ''bob''] = ?m" "new_mutation by_name [''bob'', ''ann''] = ?m" by code_simp+
  have "inj_on by_name (set [''ann'', ''bob''])" "inj_on by_name (set [''bob'', ''ann''])" by (simp_all add: inj_on_def by_name_def)
  then have "turns_run by_name no_turns (([] @ [new_mutation by_name [''ann'', ''bob'']]) @ [new_mutation by_name [''bob'', ''ann'']])"
    by (intro turns_run.arrive turns_run.start)
  then have r0: "turns_run by_name no_turns [?m, ?m]" by (simp only: new append.simps)
  have "mutation_step ([?m, ?m] ! 0) no_turns = Some (?w, ?q)" by code_simp
  from turns_run.step [OF r0 _ this] have r1: "turns_run by_name ?q [?w, ?m]" by simp
  have "mutation_step ([?w, ?m] ! 0) ?q = Some (first_mutation, ?q)" by code_simp
  from turns_run.step [OF r1 _ this] have r2: "turns_run by_name ?q [first_mutation, ?m]" by simp
  have "mutation_step ([first_mutation, ?m] ! 1) ?q = Some (second_mutation, contended)" by code_simp
  from turns_run.step [OF r2 _ this] show ?thesis by simp
qed

lemma one_holder_per_account_witness: "\<not> granted contended 1"
  using one_holder_per_account [OF contended_run, of 0 0 1] by (simp add: first_mutation_def contended_def)

lemma mutations_never_deadlock_witness:
  "\<exists>i < 2. mutation_step ([first_mutation, second_mutation] ! i) contended \<noteq> None"
proof -
  have "\<not> list_all mutation_done [first_mutation, second_mutation]" by code_simp
  with mutations_never_deadlock [OF contended_run] show ?thesis by auto
qed

lemma every_mutation_finishes_witness:
  "\<exists>n q2 ms2. (moves ^^ n) (contended, [first_mutation, second_mutation]) (q2, ms2) \<and> list_all mutation_done ms2"
  using every_mutation_finishes [OF contended_run, of 0] by auto

end
