(* ===== verification/Js_Number.thy ===== *)
theory Js_Number
  imports Directed_Invite
begin

text \<open>
  \<open>Number(value)\<close> as the relay uses it: followed by \<open>Number.isSafeInteger\<close> and a test of the sign. The
  result is the safe integer the number is, or nothing for a fraction, an infinity, \<open>NaN\<close> or an
  integer beyond the safe range.
\<close>

section \<open>Rounding to the nearest double\<close>

text \<open>
  The integer the double nearest to the fraction \<open>p / q\<close> is, if it is one below \<open>2 ^ 53\<close>. From
  \<open>2 ^ k\<close> to \<open>2 ^ (k + 1)\<close> doubles lie \<open>2 ^ (k - 52)\<close> apart; a tie goes to the even one. Below one,
  the double before 1 is \<open>1 - 2 ^ -53\<close>, and the smallest positive one \<open>2 ^ -1074\<close>.
\<close>

fun binary_exponent :: "int \<Rightarrow> nat" where
  "binary_exponent i = (if i < 2 then 0 else Suc (binary_exponent (i div 2)))"

declare binary_exponent.simps [simp del]

definition nearest_integer :: "int \<Rightarrow> int \<Rightarrow> int option" where
  "nearest_integer p q =
     (let n = p div q; r = p mod q in
      if n \<ge> 9007199254740992 then None
      else if r = 0 then Some n
      else if n = 0 then (if (q - r) * 2 ^ 54 \<le> q then Some 1 else if r * 2 ^ 1075 \<le> q then Some 0 else None)
      else
        let k = binary_exponent n; w = 2 ^ (53 - k); even_below = (k < 52 \<or> even n); even_above = (k < 52 \<or> odd n) in
        if r * w < q \<or> (r * w = q \<and> even_below) then Some n
        else if (q - r) * w < q \<or> ((q - r) * w = q \<and> even_above) then Some (n + 1)
        else None)"

definition safe_integer :: "int \<Rightarrow> int option" where
  "safe_integer i = (if \<bar>i\<bar> \<le> max_safe_integer then Some i else None)"

section \<open>Numeric strings\<close>

definition digit_value :: "char \<Rightarrow> int" where
  "digit_value c = (let n = of_char c :: int in
     if 48 \<le> n \<and> n \<le> 57 then n - 48 else if 97 \<le> n \<and> n \<le> 102 then n - 87 else if 65 \<le> n \<and> n \<le> 70 then n - 55 else 16)"

definition digits_in_base :: "int \<Rightarrow> string \<Rightarrow> int" where
  "digits_in_base base ds = foldl (\<lambda>v c. base * v + digit_value c) 0 ds"

definition is_digit_in :: "int \<Rightarrow> char \<Rightarrow> bool" where
  "is_digit_in base c \<longleftrightarrow> digit_value c < base"

text \<open>The exponent part: nothing, or \<open>e\<close> with a signed decimal number.\<close>

definition exponent_value :: "string \<Rightarrow> int option" where
  "exponent_value s = (case s of
     [] \<Rightarrow> Some 0
   | c # cs \<Rightarrow>
       if c \<noteq> CHR ''e'' \<and> c \<noteq> CHR ''E'' then None
       else (let ds = (case cs of [] \<Rightarrow> [] | s # ds \<Rightarrow> if s = CHR ''+'' \<or> s = CHR ''-'' then ds else cs) in
             if ds = [] \<or> \<not> list_all (is_digit_in 10) ds then None
             else Some ((if cs \<noteq> ds \<and> hd cs = CHR ''-'' then -1 else 1) * digits_in_base 10 ds)))"

text \<open>An unsigned decimal literal: digits with an optional point and exponent.\<close>

definition decimal_integer :: "string \<Rightarrow> int option" where
  "decimal_integer s =
     (let whole = takeWhile (is_digit_in 10) s;
          rest = dropWhile (is_digit_in 10) s;
          pointed = (case rest of c # _ \<Rightarrow> c = CHR ''.'' | [] \<Rightarrow> False);
          frac = (if pointed then takeWhile (is_digit_in 10) (tl rest) else []);
          tail = (if pointed then dropWhile (is_digit_in 10) (tl rest) else rest) in
      if whole = [] \<and> frac = [] then None
      else case exponent_value tail of
        None \<Rightarrow> None
      | Some e \<Rightarrow>
          let m = digits_in_base 10 (whole @ frac); x = e - int (length frac) in
          if x \<ge> 0 then nearest_integer (m * 10 ^ nat x) 1 else nearest_integer m (10 ^ nat (- x)))"

text \<open>A literal in base 16, 8 or 2.\<close>

definition based_integer :: "string \<Rightarrow> int option" where
  "based_integer s = (case s of
     z # b # ds \<Rightarrow>
       (let base = (if b = CHR ''x'' \<or> b = CHR ''X'' then 16 else if b = CHR ''o'' \<or> b = CHR ''O'' then 8
                    else if b = CHR ''b'' \<or> b = CHR ''B'' then 2 else 0) in
        if z \<noteq> CHR ''0'' \<or> base = 0 \<or> ds = [] \<or> \<not> list_all (is_digit_in base) ds then None
        else nearest_integer (digits_in_base base ds) 1)
   | _ \<Rightarrow> None)"

definition string_integer :: "string \<Rightarrow> int option" where
  "string_integer text = (case js_trim text of
     [] \<Rightarrow> Some 0
   | c # cs \<Rightarrow>
       (let n = (if c = CHR ''+'' \<or> c = CHR ''-'' then decimal_integer cs
                 else case based_integer (c # cs) of Some v \<Rightarrow> Some v | None \<Rightarrow> decimal_integer (c # cs)) in
        case n of None \<Rightarrow> None | Some v \<Rightarrow> safe_integer (if c = CHR ''-'' then - v else v)))"

text \<open>\<open>Number(v)\<close> of a parsed request value.\<close>

definition number_integer :: "jsv \<Rightarrow> int option" where
  "number_integer v = (case v of
     J_num i \<Rightarrow> safe_integer i
   | J_null \<Rightarrow> Some 0
   | J_bool b \<Rightarrow> Some (if b then 1 else 0)
   | J_str s \<Rightarrow> string_integer s
   | J_arr xs \<Rightarrow> string_integer (js_string v)
   | _ \<Rightarrow> None)"

end
