(* ===== verification/Attachments.thy ===== *)
theory Attachments
  imports Teams Js_Number Fanout
begin

text \<open>
  Encrypted attachments (apps/relay/src/http/attachments.ts): the upload within the live quota, the
  upload window and the capacity of the store, with its rollback; and the download.
\<close>

record attachment_config =
  at_env :: env
  at_max_bytes :: nat
  at_live_quota :: nat
  at_upload_bytes :: int
  at_window_ms :: int
  at_ttl_days :: int

record attachment_target =
  tg_team :: string
  tg_room :: string
  tg_blob :: string

record attachment_payload =
  pl_name :: string
  pl_type :: string
  pl_size :: nat
  pl_epoch :: nat
  pl_sealed :: string

definition max_blob_name :: nat where "max_blob_name = 512"
definition max_blob_type :: nat where "max_blob_type = 160"

section \<open>Validation\<close>

text \<open>\<open>attachmentTargetRemainsAuthorized\<close>; the order of the checks is that of the target's validation.\<close>

definition target_refused :: "auth_session option \<Rightarrow> attachment_target \<Rightarrow> relay_store \<Rightarrow> (nat \<times> http_code) option" where
  "target_refused session tg s =
     (if \<not> jhas (teams s) (tg_team tg) then Some (404, H_team_not_found)
      else if map_option r_team (jget (rooms s) (tg_room tg)) \<noteq> Some (tg_team tg) then Some (404, H_room_not_found)
      else if \<not> is_active_room s (tg_team tg) (tg_room tg) then Some (409, H_conflict)
      else if jhas (attachmentBlobs s) (tg_blob tg) then Some (409, H_conflict)
      else if (case session of None \<Rightarrow> False
               | Some a \<Rightarrow> \<not> can_access_room s (tg_team tg) (tg_room tg) (session_user_of a)) then Some (403, H_forbidden)
      else None)"

definition upload_refused :: "int \<Rightarrow> auth_session option \<Rightarrow> attachment_target \<Rightarrow> relay_store \<Rightarrow> (nat \<times> http_code) option" where
  "upload_refused now session tg s =
     (if (case session of None \<Rightarrow> False | Some a \<Rightarrow> \<not> is_live_account_session s a now) then Some (401, H_authentication_required)
      else target_refused session tg s)"

definition attachment_fields :: "string list" where
  "attachment_fields = [''blobId'', ''teamId'', ''roomId'', ''name'', ''type'', ''size'', ''epoch'', ''sealedBlob'']"

text \<open>\<open>validateAttachmentTarget\<close>: the target, or the refusal.\<close>

definition validate_attachment_target :: "jsv \<Rightarrow> auth_session option \<Rightarrow> relay_store \<Rightarrow> (nat \<times> http_code) + attachment_target" where
  "validate_attachment_target body session s =
     (if \<not> has_exact_keys body attachment_fields then Inl (400, H_invalid_request)
      else
        let t = string_or_empty (field_of body ''teamId''); r = string_or_empty (field_of body ''roomId'');
            blob = normalize_metadata_text (field_of body ''blobId'') max_relay_id in
        if \<not> jhas (teams s) t then Inl (404, H_team_not_found)
        else if map_option r_team (jget (rooms s) r) \<noteq> Some t then Inl (404, H_room_not_found)
        else if \<not> is_active_room s t r then Inl (409, H_conflict)
        else case blob of
          None \<Rightarrow> Inl (400, H_invalid_request)
        | Some b \<Rightarrow>
            if jhas (attachmentBlobs s) b then Inl (409, H_conflict)
            else if (case session of None \<Rightarrow> False | Some a \<Rightarrow> \<not> can_access_room s t r (session_user_of a)) then Inl (403, H_forbidden)
            else Inr \<lparr>tg_team = t, tg_room = r, tg_blob = b\<rparr>)"

definition safe_natural :: "jsv \<Rightarrow> nat option" where
  "safe_natural v = (case number_integer v of None \<Rightarrow> None | Some i \<Rightarrow> if i < 0 then None else Some (nat i))"

definition requested_type :: "jsv \<Rightarrow> string" where
  "requested_type v = (let t = js_trim (case v of J_undefined \<Rightarrow> ''file'' | J_null \<Rightarrow> ''file'' | _ \<Rightarrow> js_string v) in
     if t = [] then ''file'' else t)"

text \<open>\<open>validateAttachmentPayload\<close>.\<close>

definition validate_attachment_payload :: "attachment_config \<Rightarrow> jsv \<Rightarrow> (nat \<times> http_code) + attachment_payload" where
  "validate_attachment_payload ac body =
     (let sealed = (case field_of body ''sealedBlob'' of J_str t \<Rightarrow> t | _ \<Rightarrow> []);
          max_chars = max_ciphertext_chars_for_blob (at_max_bytes ac) in
      case (normalize_metadata_text (field_of body ''name'') max_blob_name,
            normalize_metadata_text (J_str (requested_type (field_of body ''type''))) max_blob_type,
            safe_natural (field_of body ''size'')) of
        (Some name, Some type, Some sz) \<Rightarrow>
          if sz > at_max_bytes ac then Inl (413, H_payload_too_large)
          else (case safe_natural (field_of body ''epoch'') of
            None \<Rightarrow> Inl (400, H_invalid_request)
          | Some epoch \<Rightarrow>
              if sealed = [] then Inl (400, H_invalid_request)
              else if length sealed > max_chars then Inl (413, H_payload_too_large)
              else if \<not> is_strict_exporter_ciphertext sealed max_chars then Inl (400, H_invalid_request)
              else Inr \<lparr>pl_name = name, pl_type = type, pl_size = sz, pl_epoch = epoch, pl_sealed = sealed\<rparr>)
      | _ \<Rightarrow> Inl (400, H_invalid_request))"

section \<open>The quotas\<close>

definition attachment_blob_storage_bytes :: "attachment \<Rightarrow> nat" where
  "attachment_blob_storage_bytes b = utf8_length (a_sealed b)"

definition live_attachment_blob_bytes_for_user :: "int \<Rightarrow> string \<Rightarrow> relay_store \<Rightarrow> nat" where
  "live_attachment_blob_bytes_for_user now u s =
     sum_list (map attachment_blob_storage_bytes
       (filter (\<lambda>b. a_uploader b = Some u \<and> \<not> is_expired_attachment_blob now b) (jvalues (attachmentBlobs s))))"

text \<open>\<open>reserveAttachmentQuota\<close>: a refusal, or the reservation and the store, whose write may throw.\<close>

definition reserve_attachment_quota ::
  "attachment_config \<Rightarrow> int \<Rightarrow> string \<Rightarrow> nat \<Rightarrow> relay_store
     \<Rightarrow> (nat \<times> http_code) + (quota_reservation \<times> (store_error, relay_store) outcome)" where
  "reserve_attachment_quota ac now u bytes s =
     (if live_attachment_blob_bytes_for_user now u s + bytes > at_live_quota ac then Inl (413, H_quota_exceeded)
      else case reserve_durable_quota Attachment_upload_bytes u (int bytes) (at_upload_bytes ac) (now + at_window_ms ac) now s of
        (Quota_denied _ _, _) \<Rightarrow> Inl (429, H_quota_exceeded)
      | (Quota_allowed v, res) \<Rightarrow> Inr (v, res))"

section \<open>Upload\<close>

definition new_attachment :: "attachment_config \<Rightarrow> int \<Rightarrow> auth_session option \<Rightarrow> attachment_target \<Rightarrow> attachment_payload \<Rightarrow> attachment" where
  "new_attachment ac now session tg p =
     \<lparr>a_id = tg_blob tg, a_team = tg_team tg, a_room = tg_room tg, a_name = pl_name p, a_type = pl_type p,
      a_size = pl_size p, a_uploader = map_option session_user_of session, a_epoch = pl_epoch p, a_sealed = pl_sealed p,
      a_created = Iso now, a_expires = Some (Iso (now + at_ttl_days ac * day_ms))\<rparr>"

text \<open>The \<open>catch\<close> block: the blob and the reservation are taken back, then the error is answered.\<close>

definition fail_upload :: "live_error \<Rightarrow> string option \<Rightarrow> quota_reservation option \<Rightarrow> live \<Rightarrow> attachment reply \<times> live" where
  "fail_upload x blob reservation l =
     handle (on_store (\<lambda>s.
         let s1 = (case blob of None \<Rightarrow> s | Some b \<Rightarrow> dm_delete attachment_map b s) in
         case reservation of None \<Rightarrow> Done s1 | Some v \<Rightarrow> rollback_durable_quota v s1) l) (\<lambda>l1.
       ((case x of L_store e \<Rightarrow> if is_capacity_error e then Http_error 507 H_capacity_exceeded
                               else Http_error 503 H_persistence_unavailable
         | L_unavailable \<Rightarrow> Http_error 503 H_persistence_unavailable), l1))"

definition store_attachment :: "bool \<Rightarrow> attachment \<Rightarrow> quota_reservation option \<Rightarrow> live \<Rightarrow> attachment reply \<times> live" where
  "store_attachment ok b reservation l =
     (case seq (on_store (dm_set attachment_map (a_id b) b) l) (save_now ok) of
        Throws x l1 \<Rightarrow> fail_upload x (Some (a_id b)) reservation l1
      | Done l1 \<Rightarrow> (Reply 201 b, l1))"

text \<open>\<open>persistAttachmentWithinQuotaTransaction\<close>.\<close>

definition upload_turn ::
  "attachment_config \<Rightarrow> int \<Rightarrow> bool \<Rightarrow> auth_session option \<Rightarrow> attachment_target \<Rightarrow> attachment_payload \<Rightarrow> live \<Rightarrow> attachment reply \<times> live" where
  "upload_turn ac now ok session tg p l =
     (case upload_refused now session tg (lv_store l) of
        Some (st, code) \<Rightarrow> (Http_error st code, l)
      | None \<Rightarrow>
          (case session of
             None \<Rightarrow> store_attachment ok (new_attachment ac now session tg p) None l
           | Some a \<Rightarrow>
               (case reserve_attachment_quota ac now (session_user_of a) (utf8_length (pl_sealed p)) (lv_store l) of
                  Inl (st, code) \<Rightarrow> (Http_error st code, l)
                | Inr (v, Throws x s) \<Rightarrow> fail_upload (L_store x) None None (l\<lparr>lv_store := s\<rparr>)
                | Inr (v, Done s) \<Rightarrow> store_attachment ok (new_attachment ac now session tg p) (Some v) (l\<lparr>lv_store := s\<rparr>))))"

text \<open>\<open>reclaimDurableCapacity\<close>: whatever has expired is deleted, and the store is saved.\<close>

definition reclaim :: "attachment_config \<Rightarrow> int \<Rightarrow> bool \<Rightarrow> live \<Rightarrow> (live_error, live) outcome" where
  "reclaim ac now ok l = seq (on_store (prune_expired_state (en_mls (at_env ac)) now) l) (save_now ok)"

text \<open>\<open>POST /attachment-blobs\<close>; the admission is checked again after each turn it waits for.\<close>

definition upload_attachment ::
  "attachment_config \<Rightarrow> int \<Rightarrow> bool \<Rightarrow> bool \<Rightarrow> (live \<Rightarrow> live) \<Rightarrow> (live \<Rightarrow> live) \<Rightarrow> auth_session option \<Rightarrow> jsv \<Rightarrow> live
     \<Rightarrow> attachment reply \<times> live" where
  "upload_attachment ac now reclaim_ok ok account_turn quota_turn session body l =
     (if \<not> allowed (at_env ac) session then (Http_error 401 H_authentication_required, l)
      else case reclaim ac now reclaim_ok l of
        Throws _ l1 \<Rightarrow> (Http_error 503 H_persistence_unavailable, l1)
      | Done l1 \<Rightarrow>
          (case validate_attachment_target body session (lv_store l1) of
             Inl (st, code) \<Rightarrow> (Http_error st code, l1)
           | Inr tg \<Rightarrow>
               (case validate_attachment_payload ac body of
                  Inl (st, code) \<Rightarrow> (Http_error st code, l1)
                | Inr p \<Rightarrow>
                    let l2 = (if session = None then l1 else account_turn l1) in
                    (case upload_refused now session tg (lv_store l2) of
                       Some (st, code) \<Rightarrow> (Http_error st code, l2)
                     | None \<Rightarrow> upload_turn ac now ok session tg p (quota_turn l2)))))"

section \<open>Download\<close>

text \<open>\<open>GET /attachment-blobs/:blobId\<close>; an expired blob is deleted when it is asked for.\<close>

definition read_attachment ::
  "env \<Rightarrow> int \<Rightarrow> bool \<Rightarrow> auth_session option \<Rightarrow> string \<Rightarrow> string \<Rightarrow> string \<Rightarrow> live \<Rightarrow> attachment reply \<times> live" where
  "read_attachment e now ok session blob t r l =
     (let s = lv_store l in
      if \<not> allowed e session then (Http_error 401 H_authentication_required, l)
      else case jget (attachmentBlobs s) blob of
        None \<Rightarrow> (Http_error 404 H_not_found, l)
      | Some b \<Rightarrow>
          if t = [] \<or> r = [] then (Http_error 400 H_invalid_request, l)
          else if a_team b \<noteq> t \<or> a_room b \<noteq> r then (Http_error 404 H_not_found, l)
          else if \<not> is_active_room s t r then (Http_error 409 H_conflict, l)
          else if (case session of None \<Rightarrow> False | Some a \<Rightarrow> \<not> can_access_room s t r (session_user_of a))
          then (Http_error 403 H_forbidden, l)
          else if is_expired_attachment_blob now b
          then handle (save_now ok (put_store (dm_delete attachment_map (a_id b)) l)) (\<lambda>l1. (Http_error 410 H_invite_expired, l1))
          else (Reply 200 b, l))"

end
