(* ===== verification/Attachment_Proofs.thy ===== *)
theory Attachment_Proofs
  imports Attachments Room_Proofs
begin

text \<open>
  An upload stays within the live quota and the upload window of its account, and one that fails
  leaves no blob behind.
\<close>

lemmas attachment_frames [simp] =
  quota_tm.field_frame [of attachmentBlobs, simplified]

lemmas quota_frames [simp] =
  attachment_tm.field_frame [of accountQuotaRecords, simplified]

lemma rollback_quota_blobs [simp]: "attachmentBlobs (state_of (rollback_durable_quota v s)) = attachmentBlobs s"
  by (simp add: rollback_durable_quota_def split: option.split)

lemma reserve_quota_blobs [simp]: "attachmentBlobs (state_of (snd (reserve_durable_quota q u n most r now s))) = attachmentBlobs s"
  by (simp add: reserve_durable_quota_def Let_def)

lemma blob_set_data:
  "dm_set attachment_map k b s = Done s' \<Longrightarrow> attachmentBlobs s' = jset k b (attachmentBlobs s)"
  "dm_set attachment_map k b s = Throws x s' \<Longrightarrow> attachmentBlobs s' = attachmentBlobs s"
  using fields_by_data(14) [OF attachment_tm.dm_set_data] fields_by_data(14) [OF attachment_tm.dm_set_throws_data]
  by (simp_all add: attachment_map_def)

lemma blob_delete_data [simp]: "attachmentBlobs (dm_delete attachment_map k s) = jdel k (attachmentBlobs s)"
  using fields_by_data(14) [OF attachment_tm.dm_delete_data [of k s]] by (simp add: attachment_map_def)

section \<open>A failed upload\<close>

lemma fail_upload_error: "is_error (fst (fail_upload x b v l))"
proof -
  have "is_error (thrown_reply e :: attachment reply)" for e by (rule thrown_reply_error)
  then show ?thesis
    by (auto simp: fail_upload_def handle_def Let_def split: outcome.split live_error.split)
qed

lemma fail_upload_blobs:
  "attachmentBlobs (lv_store (snd (fail_upload x b v l)))
   = (case b of None \<Rightarrow> attachmentBlobs (lv_store l) | Some k \<Rightarrow> jdel k (attachmentBlobs (lv_store l)))"
proof -
  have final: "lv_store (snd (handle r (\<lambda>l1. (y, l1)))) = lv_store (state_of r)" for r :: "(live_error, live) outcome" and y :: "attachment reply"
    by (cases r) (simp_all add: handle_def)
  show ?thesis
    unfolding fail_upload_def final by (simp add: Let_def split: option.split)
qed

lemma store_attachment_blobs:
  assumes "jget (attachmentBlobs (lv_store l)) (a_id b) = None"
  shows "if is_error (fst (store_attachment ok b v l))
    then attachmentBlobs (lv_store (snd (store_attachment ok b v l))) = attachmentBlobs (lv_store l)
    else \<exists>s. dm_set attachment_map (a_id b) b (lv_store l) = Done s \<and> fst (store_attachment ok b v l) = Reply 201 b
      \<and> lv_store (snd (store_attachment ok b v l)) = discard_durable_mutations s"
  using assms fail_upload_error
  by (cases "dm_set attachment_map (a_id b) b (lv_store l)"; cases ok)
    (auto simp: store_attachment_def on_store_def save_now_cases put_store_def fail_upload_blobs blob_set_data
      discard_durable_mutations_def jdel_absent jdel_jset_new)

lemma reserve_attachment_cases:
  assumes "reserve_attachment_quota ac now u n s = Inr (v, res)"
  shows "live_attachment_blob_bytes_for_user now u s + n \<le> at_live_quota ac"
    and "reserve_durable_quota Attachment_upload_bytes u (int n) (at_upload_bytes ac) (now + at_window_ms ac) now s = (Quota_allowed v, res)"
  using assms by (auto simp: reserve_attachment_quota_def split: if_splits prod.splits quota_decision.splits)

lemma live_bytes_stored:
  assumes "attachmentBlobs s' = attachmentBlobs s @ [(k, b)]" and "utf8_length (a_sealed b) \<le> n"
  shows "live_attachment_blob_bytes_for_user now u s' \<le> live_attachment_blob_bytes_for_user now u s + n"
  using assms by (simp add: live_attachment_blob_bytes_for_user_def jvalues_def attachment_blob_storage_bytes_def)

lemma admitted_upload:
  assumes "upload_refused now (Some a) tg s = None"
  shows "is_live_account_session s a now" and "can_access_room s (tg_team tg) (tg_room tg) (session_user_of a)"
    and "jget (attachmentBlobs s) (tg_blob tg) = None"
  using assms by (auto simp: upload_refused_def target_refused_def jhas_def split: if_splits)


end
