(* ===== verification/Attachment_Witnesses.thy ===== *)
theory Attachment_Witnesses
  imports Attachment_Proofs Live_Witnesses
begin

text \<open>
  Ann uploads a blob to her room: her quota of eight bytes has room for it, and not for a second one.
  Numbers are read from text as JavaScript reads them.
\<close>

definition att_config :: attachment_config where
  "att_config = \<lparr>at_env = live_env, at_max_bytes = 1000, at_live_quota = 8, at_upload_bytes = 100, at_window_ms = 1000, at_ttl_days = 7\<rparr>"

definition blob_target :: "string \<Rightarrow> attachment_target" where
  "blob_target b = \<lparr>tg_team = ''team'', tg_room = ''room'', tg_blob = b\<rparr>"

definition blob_payload :: attachment_payload where
  "blob_payload = \<lparr>pl_name = ''note'', pl_type = ''file'', pl_size = 3, pl_epoch = 3, pl_sealed = ''sealed''\<rparr>"

definition uploaded :: "attachment reply \<times> live" where
  "uploaded = upload_turn att_config 0 True (Some (sample_auth ''ann'')) (blob_target ''b1'') blob_payload (fresh_live auth_store)"

lemma uploaded_reply: "is_error (fst uploaded) = False"
  by code_simp

lemma second_upload_refused:
  "fst (upload_turn att_config 0 True (Some (sample_auth ''ann'')) (blob_target ''b2'') blob_payload (snd uploaded))
   = Http_error 413 H_quota_exceeded"
  by code_simp


lemma numbers_read:
  "map string_integer ['''', '' 12 '', ''12.0'', ''1e3'', ''0x10'', ''0.5'', ''9007199254740992'', ''-3'', ''1.00000000000000000000001'', ''abc'']
   = [Some 0, Some 12, Some 12, Some 1000, Some 16, None, None, Some (- 3), Some 1, None]"
  by code_simp

end
