(* ===== verification/Auth_Sessions.thy ===== *)
theory Auth_Sessions
  imports Teams Directed_Invite Database
begin

text \<open>
  Account sessions: finding the session of a request (apps/relay/src/auth/session.ts), and signing in
  and out (auth/github.ts). The cookie parser and the GitHub API are parameters: handlers take the
  value of the session cookie, and sign-in a function from the access token to the status and the
  JSON body that GitHub answers.
\<close>

section \<open>The session of a request\<close>

definition normalize_auth_session_id :: "jsv \<Rightarrow> string" where
  "normalize_auth_session_id v = (case normalize_relay_id v max_relay_id of None \<Rightarrow> [] | Some t \<Rightarrow> t)"

definition hash_auth_session_id :: "env \<Rightarrow> string \<Rightarrow> string" where
  "hash_auth_session_id e i = en_sha256 e (utf8_bytes i)"

definition drop_auth_session :: "bool \<Rightarrow> string \<Rightarrow> live \<Rightarrow> (live_error, live) outcome" where
  "drop_auth_session ok h l = save_now ok (put_store (dm_delete auth_map h) l)"

text \<open>\<open>getAuthSession\<close>: the live session of an id; a session that is no longer good is dropped.\<close>

definition get_auth_session :: "env \<Rightarrow> int \<Rightarrow> bool \<Rightarrow> jsv \<Rightarrow> live \<Rightarrow> auth_session option \<times> (live_error, live) outcome" where
  "get_auth_session e now ok v l =
     (let i = normalize_auth_session_id v; h = hash_auth_session_id e i in
      if i = [] then (None, Done l)
      else case jget (authSessions (lv_store l)) h of
        None \<Rightarrow> (None, Done l)
      | Some a \<Rightarrow>
          if \<not> is_auth_session_id_hash (as_hash a) \<or> as_hash a \<noteq> h then (None, drop_auth_session ok h l)
          else if is_account_restricted (lv_store l) (session_user_of a) now then (None, drop_auth_session ok h l)
          else if as_expires a \<le> now then (None, drop_auth_session ok h l)
          else (Some a, Done l))"

definition set_auth_session :: "env \<Rightarrow> string \<Rightarrow> session_user \<Rightarrow> int \<Rightarrow> relay_store \<Rightarrow> (store_error, relay_store) outcome" where
  "set_auth_session e i user expires s =
     (let h = hash_auth_session_id e i in dm_set auth_map h \<lparr>as_hash = h, as_user = user, as_expires = expires\<rparr> s)"

definition delete_auth_session :: "env \<Rightarrow> jsv \<Rightarrow> relay_store \<Rightarrow> relay_store" where
  "delete_auth_session e v s =
     (let i = normalize_auth_session_id v in if i = [] then s else dm_delete auth_map (hash_auth_session_id e i) s)"

subsection \<open>Headers\<close>

definition normalize_transport_session :: "jsv \<Rightarrow> string option" where
  "normalize_transport_session v =
     (case v of J_str s \<Rightarrow> if s \<noteq> [] \<and> length s \<le> 256 \<and> list_all is_id_char s then Some s else None | _ \<Rightarrow> None)"

text \<open>\<open>nativeSessionHeaderMiddleware\<close>: the cookie the routes see, or a refusal.\<close>

definition native_session_header :: "jsv \<Rightarrow> jsv \<Rightarrow> (nat \<times> http_code) + jsv" where
  "native_session_header header cookie =
     (let hs = normalize_transport_session header; cs = normalize_transport_session cookie in
      if header \<noteq> J_undefined \<and> hs = None then Inl (400, H_invalid_request)
      else if hs \<noteq> None \<and> cs \<noteq> None \<and> hs \<noteq> cs then Inl (400, H_invalid_request)
      else Inr (case hs of None \<Rightarrow> cookie | Some h \<Rightarrow> J_str h))"

fun split_comma :: "string \<Rightarrow> string list" where
  "split_comma [] = [[]]"
| "split_comma (c # cs) = (if c = CHR '','' then [] # split_comma cs
     else case split_comma cs of [] \<Rightarrow> [[c]] | w # ws \<Rightarrow> (c # w) # ws)"

definition web_socket_session_prefix :: string where
  "web_socket_session_prefix = ''multaiplayer-session.''"

text \<open>\<open>sessionFromWebSocketProtocols\<close>: no session (\<open>None\<close>), a bad one (\<open>Some None\<close>), or its id.\<close>

definition session_from_protocols :: "jsv \<Rightarrow> string option option" where
  "session_from_protocols header =
     (case header of
        J_arr _ \<Rightarrow> Some None
      | _ \<Rightarrow>
          let given = filter (\<lambda>v. take 21 v = web_socket_session_prefix)
                (map js_trim (split_comma (case header of J_str s \<Rightarrow> s | _ \<Rightarrow> []))) in
          (case given of
             [] \<Rightarrow> None
           | [v] \<Rightarrow> Some (normalize_transport_session (J_str (drop 21 v)))
           | _ \<Rightarrow> Some None))"

text \<open>\<open>getAuthSessionFromRequest\<close>: the transports must agree on one session.\<close>

definition get_auth_session_from_request ::
  "env \<Rightarrow> int \<Rightarrow> bool \<Rightarrow> jsv \<Rightarrow> jsv \<Rightarrow> jsv \<Rightarrow> live \<Rightarrow> auth_session option \<times> (live_error, live) outcome" where
  "get_auth_session_from_request e now ok cookie header protocols l =
     (let hs = normalize_transport_session header; ws = session_from_protocols protocols in
      if header \<noteq> J_undefined \<and> hs = None then (None, Done l)
      else if ws = Some None then (None, Done l)
      else
        let supplied = List.map_filter id [normalize_transport_session cookie, hs, Option.bind ws id] in
        if length (remdups supplied) > 1 then (None, Done l)
        else get_auth_session e now ok (case supplied of [] \<Rightarrow> J_undefined | t # _ \<Rightarrow> J_str t) l)"

section \<open>Retained sessions\<close>

text \<open>
  \<open>selectAuthSessionsToEvict\<close>: the expired sessions of the user and the oldest ones above the cap;
  ties are broken by the locale order of the hashes.
\<close>

definition owned_sessions :: "(string \<Rightarrow> nat) \<Rightarrow> (string, auth_session) jmap \<Rightarrow> string \<Rightarrow> (string \<times> auth_session) list" where
  "owned_sessions collate m u =
     sort_key (\<lambda>(_, a). as_expires a) (sort_key (\<lambda>(h, _). collate h) (filter (\<lambda>(_, a). session_user_of a = u) m))"

definition select_auth_sessions_to_evict ::
  "(string \<Rightarrow> nat) \<Rightarrow> (string, auth_session) jmap \<Rightarrow> string \<Rightarrow> nat \<Rightarrow> nat \<Rightarrow> int \<Rightarrow> (string \<times> auth_session) list" where
  "select_auth_sessions_to_evict collate m u cap reserved now =
     (let owned = owned_sessions collate m u;
          expired = filter (\<lambda>(_, a). as_expires a \<le> now) owned;
          active = filter (\<lambda>(_, a). as_expires a > now) owned
      in expired @ take (length active - (cap - reserved)) active)"

definition delete_auth_sessions :: "string list \<Rightarrow> relay_store \<Rightarrow> relay_store" where
  "delete_auth_sessions hs s = fold (dm_delete auth_map) hs s"

definition session_users :: "relay_store \<Rightarrow> string list" where
  "session_users s = rev (remdups (rev (map session_user_of (jvalues (authSessions s)))))"

definition prune_retained_auth_sessions :: "(string \<Rightarrow> nat) \<Rightarrow> nat \<Rightarrow> int \<Rightarrow> relay_store \<Rightarrow> relay_store" where
  "prune_retained_auth_sessions collate cap now s =
     fold (\<lambda>u s. delete_auth_sessions (map fst (select_auth_sessions_to_evict collate (authSessions s) u cap 0 now)) s)
       (session_users s) s"

text \<open>Reading a stored session back (\<open>normalizeStoredAuthSession\<close>).\<close>

definition has_only_keys :: "jsv \<Rightarrow> string list \<Rightarrow> bool" where
  "has_only_keys v keys = (case v of J_obj fs \<Rightarrow> list_all (\<lambda>(k, _). List.member keys k) fs | _ \<Rightarrow> False)"

definition optional_text :: "jsv \<Rightarrow> nat \<Rightarrow> string option option" where
  "optional_text v n = (if v = J_undefined then Some None
     else case normalize_metadata_text v n of None \<Rightarrow> None | Some t \<Rightarrow> Some (Some t))"

definition normalize_stored_session_user :: "jsv \<Rightarrow> session_user option" where
  "normalize_stored_session_user v =
     (if \<not> has_only_keys v [''id'', ''login'', ''name'', ''avatarUrl''] then None
      else case (normalize_metadata_text (field_of v ''id'') max_user_id, normalize_metadata_text (field_of v ''login'') max_display_name,
                 optional_text (field_of v ''name'') max_display_name, optional_text (field_of v ''avatarUrl'') max_project_path) of
        (Some i, Some login, Some name, Some avatar) \<Rightarrow> Some \<lparr>u_id = i, u_login = login, u_name = name, u_avatar = avatar\<rparr>
      | _ \<Rightarrow> None)"

definition auth_session_max_age_ms :: int where
  "auth_session_max_age_ms = 1000 * 60 * 60 * 24 * 30"

definition normalize_stored_auth_session :: "int \<Rightarrow> jsv \<Rightarrow> auth_session option" where
  "normalize_stored_auth_session now v =
     (if \<not> has_only_keys v [''sessionIdHash'', ''user'', ''expiresAt''] then None
      else case (field_of v ''sessionIdHash'', normalize_stored_session_user (field_of v ''user''), field_of v ''expiresAt'') of
        (J_str h, Some user, J_num x) \<Rightarrow>
          if \<not> is_auth_session_id_hash h \<or> \<bar>x\<bar> > max_safe_integer \<or> x \<le> now \<or> x > now + auth_session_max_age_ms then None
          else Some \<lparr>as_hash = h, as_user = user, as_expires = x\<rparr>
      | _ \<Rightarrow> None)"

section \<open>Signing in and out (github.ts)\<close>

record auth_config =
  ac_env :: env
  ac_max_age :: int
  ac_session_cap :: nat
  ac_collate :: "string \<Rightarrow> nat"
  ac_github :: "string \<Rightarrow> nat \<times> jsv"

text \<open>\<open>closeAuthSessionSockets\<close>.\<close>

definition close_auth_session_sockets :: "auth_session list \<Rightarrow> live \<Rightarrow> live" where
  "close_auth_session_sockets gone l =
     (if gone = [] then l
      else fold (\<lambda>k l. case session_auth l k of
          None \<Rightarrow> l | Some a \<Rightarrow> if List.member gone a then close_socket k 1008 l else l) (sockets_registered l) l)"

text \<open>The \<open>catch\<close> block: the new session goes, the evicted ones come back.\<close>

definition undo_sign_in :: "string \<Rightarrow> string \<Rightarrow> bool \<Rightarrow> (string \<times> auth_session) list \<Rightarrow> relay_store \<Rightarrow> (store_error, relay_store) outcome" where
  "undo_sign_in h u inserted evicted s =
     (let s1 = (if inserted \<and> map_option session_user_of (jget (authSessions s) h) = Some u then dm_delete auth_map h s else s) in
      for_each (\<lambda>(k, a). dm_set auth_map k a) evicted s1)"

definition fail_sign_in :: "live_error \<Rightarrow> string \<Rightarrow> string \<Rightarrow> bool \<Rightarrow> (string \<times> auth_session) list \<Rightarrow> live \<Rightarrow> session_user reply \<times> live" where
  "fail_sign_in x h u inserted evicted l =
     handle (on_store (undo_sign_in h u inserted evicted) l) (\<lambda>l1.
       ((case x of L_store (Entry_capacity _ _) \<Rightarrow> Http_error 507 H_capacity_exceeded
         | _ \<Rightarrow> Http_error 503 H_persistence_unavailable), l1))"

text \<open>\<open>issueVerifiedSession\<close>, within the account turn; \<open>i\<close> is the new session id.\<close>

definition issue_verified_session :: "auth_config \<Rightarrow> int \<Rightarrow> bool \<Rightarrow> string \<Rightarrow> session_user \<Rightarrow> live \<Rightarrow> session_user reply \<times> live" where
  "issue_verified_session ac now ok i user l =
     (if is_account_restricted (lv_store l) (u_id user) now then (Http_error 403 H_account_restricted, l)
      else
        let h = hash_auth_session_id (ac_env ac) i;
            evicted = select_auth_sessions_to_evict (ac_collate ac) (authSessions (lv_store l)) (u_id user) (ac_session_cap ac) 1 now;
            l1 = put_store (delete_auth_sessions (map fst evicted)) l in
        (case on_store (set_auth_session (ac_env ac) i user (now + ac_max_age ac)) l1 of
           Throws x l2 \<Rightarrow> fail_sign_in x h (u_id user) False evicted l2
         | Done l2 \<Rightarrow>
             (case save_now ok l2 of
                Throws x l3 \<Rightarrow> fail_sign_in x h (u_id user) True evicted l3
              | Done l3 \<Rightarrow> (Reply 200 user, close_auth_session_sockets (map snd evicted) l3))))"

definition js_truthy :: "jsv \<Rightarrow> bool" where
  "js_truthy v = (case v of J_undefined \<Rightarrow> False | J_null \<Rightarrow> False | J_bool b \<Rightarrow> b | J_num i \<Rightarrow> i \<noteq> 0 | J_str s \<Rightarrow> s \<noteq> [] | _ \<Rightarrow> True)"

text \<open>The identity in GitHub's answer, if it is one the relay supports.\<close>

definition github_identity :: "jsv \<Rightarrow> session_user option" where
  "github_identity v =
     (let text = (\<lambda>f n. if js_truthy (field_of v f)
                        then (case normalize_metadata_text (field_of v f) n of None \<Rightarrow> None | Some t \<Rightarrow> Some (Some t)) else Some None);
          i = (case field_of v ''id'' of J_num x \<Rightarrow> if \<bar>x\<bar> \<le> max_safe_integer then J_str (''github:'' @ int_digits x) else J_null | _ \<Rightarrow> J_null) in
      case (normalize_metadata_text i max_user_id, normalize_metadata_text (field_of v ''login'') max_display_name,
            text ''name'' max_display_name, text ''avatar_url'' max_project_path) of
        (Some u, Some login, Some name, Some avatar) \<Rightarrow> Some \<lparr>u_id = u, u_login = login, u_name = name, u_avatar = avatar\<rparr>
      | _ \<Rightarrow> None)"

definition max_access_token :: nat where "max_access_token = 8192"

text \<open>\<open>POST /auth/github/verify\<close>; \<open>account_turn\<close> is what happens while the account's turn is awaited.\<close>

definition verify_github :: "auth_config \<Rightarrow> int \<Rightarrow> bool \<Rightarrow> (live \<Rightarrow> live) \<Rightarrow> string \<Rightarrow> jsv \<Rightarrow> live \<Rightarrow> session_user reply \<times> live" where
  "verify_github ac now ok account_turn i body l =
     (case normalize_metadata_text (field_of body ''access_token'') max_access_token of
        None \<Rightarrow> (Http_error 400 H_invalid_request, l)
      | Some token \<Rightarrow>
          (case ac_github ac token of
             (status, answer) \<Rightarrow>
               if status < 200 \<or> 300 \<le> status then (Http_error status H_upstream_unavailable, l)
               else if answer = J_null then (Http_error 500 H_internal_error, l)
               else (case github_identity answer of
                  None \<Rightarrow> (Http_error 502 H_upstream_unavailable, l)
                | Some user \<Rightarrow> issue_verified_session ac now ok i user (account_turn l))))"

text \<open>\<open>POST /auth/logout\<close>.\<close>

definition logout :: "env \<Rightarrow> int \<Rightarrow> bool \<Rightarrow> bool \<Rightarrow> jsv \<Rightarrow> live \<Rightarrow> unit reply \<times> live" where
  "logout e now ok1 ok2 cookie l =
     (if \<not> js_truthy cookie then (Reply 200 (), l)
      else case get_auth_session e now ok1 cookie l of
        (session, res) \<Rightarrow>
          handle res (\<lambda>l1.
          handle (save_now ok2 (close_auth_session_sockets (case session of None \<Rightarrow> [] | Some a \<Rightarrow> [a])
              (put_store (delete_auth_session e cookie) l1))) (\<lambda>l2.
            (Reply 200 (), l2))))"

end
