(* ===== verification/Accounts.thy ===== *)
theory Accounts
  imports Auth_Sessions Rooms
begin

text \<open>
  Accounts: the deletion of what an account owns (apps/relay/src/auth/account-deletion.ts) with its
  route (auth/github.ts), and the restrictions of the operator (auth/account-restrictions.ts). The
  counters that live in memory only (the legacy daily counts and the rate limits) are not part of the
  store of the model.
\<close>

section \<open>Blockers\<close>

record account_deletion_blockers =
  bl_owned_teams :: "(string \<times> string) list"
  bl_hosted_rooms :: "(string \<times> string \<times> string) list"

definition find_account_deletion_blockers :: "(string \<Rightarrow> nat) \<Rightarrow> relay_store \<Rightarrow> string \<Rightarrow> account_deletion_blockers" where
  "find_account_deletion_blockers collate s u =
     (let owned = filter (\<lambda>(t, ms). \<not> (case jget (teams s) t of None \<Rightarrow> False | Some x \<Rightarrow> stamp_set (t_deleted x))
                            \<and> map_option m_role (jget ms u) = Some Owner) (teamMembers s);
          hosted = filter (\<lambda>r. \<not> stamp_set (r_deleted r) \<and> r_host_user r = Some u) (jvalues (rooms s))
      in \<lparr>bl_owned_teams = sort_key (\<lambda>(t, _). collate t)
            (map (\<lambda>x. (t_id x, t_name x)) (List.map_filter (\<lambda>(t, _). jget (teams s) t) owned)),
          bl_hosted_rooms = sort_key (\<lambda>(r, _). collate r) (map (\<lambda>r. (r_id r, r_name r, r_team r)) hosted)\<rparr>)"

definition has_account_deletion_blockers :: "account_deletion_blockers \<Rightarrow> bool" where
  "has_account_deletion_blockers b \<longleftrightarrow> bl_owned_teams b \<noteq> [] \<or> bl_hosted_rooms b \<noteq> []"

section \<open>Deletion\<close>

definition removes_invite :: "string \<Rightarrow> invite \<Rightarrow> bool" where
  "removes_invite u i \<longleftrightarrow> i_creator i = Some u \<or> i_user i = Some u"

definition removed_invite_ids :: "string \<Rightarrow> relay_store \<Rightarrow> string list" where
  "removed_invite_ids u s = map fst (filter (\<lambda>(_, i). removes_invite u i) (invites s))"

definition deattributed :: "string \<Rightarrow> consumed_key_package \<Rightarrow> consumed_key_package" where
  "deattributed h c = \<lparr>ck_hash = h, ck_team = (if truthy (ck_team c) then ck_team c else None), ck_user = None, ck_device = None, ck_at = ck_at c\<rparr>"

definition remove_consumed_key_package_owner_fields :: "string \<Rightarrow> relay_store \<Rightarrow> (store_error, relay_store) outcome" where
  "remove_consumed_key_package_owner_fields u s =
     for_each (\<lambda>(h, c) s. if ck_user c = Some u then dm_set consumed_map h (deattributed h c) s else Done s) (consumedKeyPackages s) s"

text \<open>The identity maps of the summary's initializer, in its order.\<close>

definition delete_identity_records :: "string \<Rightarrow> relay_store \<Rightarrow> (store_error, relay_store) outcome" where
  "delete_identity_records u s =
     (let s1 = dm_delete_where auth_map (\<lambda>_ a. session_user_of a = u) s;
          s2 = s1\<lparr>deviceSessions := jwhere (\<lambda>_ x. ds_user x \<noteq> u) (deviceSessions s1)\<rparr>;
          s3 = dm_delete_where device_map (\<lambda>_ d. d_user d = u) s2;
          s4 = dm_delete_where key_package_map (\<lambda>_ k. k_user k = u) s3
      in seq (remove_consumed_key_package_owner_fields u s4) (\<lambda>s5.
         let s6 = dm_delete_where quota_map (\<lambda>_ q. qr_user q = u) s5 in
         Done (s6\<lparr>deviceChallenges := jwhere (\<lambda>_ c. dc_user c \<noteq> u) (deviceChallenges s6)\<rparr>)))"

definition delete_membership :: "string \<Rightarrow> string \<times> (string, team_member) jmap \<Rightarrow> relay_store \<Rightarrow> (store_error, relay_store) outcome" where
  "delete_membership u tms s =
     (case tms of (t, ms) \<Rightarrow>
        if \<not> jhas ms u then Done s
        else seq (set_team_members t (jdel u ms) s) (\<lambda>s1.
             case jget (teams s1) t of None \<Rightarrow> Done s1 | Some x \<Rightarrow> set_team (x\<lparr>t_members := length (jdel u ms)\<rparr>) s1))"

definition deleted_user_room :: "room \<Rightarrow> room" where
  "deleted_user_room r = r\<lparr>r_host_user := None, r_host_device := None, r_host := ''Deleted user'', r_status := Host_offline\<rparr>"

definition scrub_room :: "string \<Rightarrow> room \<Rightarrow> relay_store \<Rightarrow> (store_error, relay_store) outcome" where
  "scrub_room u r s = (if stamp_set (r_deleted r) \<and> r_host_user r = Some u then set_room (deleted_user_room r) s else Done s)"

definition delete_account_invite_artifacts :: "string \<Rightarrow> relay_store \<Rightarrow> relay_store" where
  "delete_account_invite_artifacts u s =
     (let gone = removed_invite_ids u s;
          s1 = dm_delete_where invite_map (\<lambda>_ i. removes_invite u i) s;
          s2 = dm_delete_where request_map (\<lambda>_ q. q_user q = u \<or> List.member gone (q_invite q)) s1;
          s3 = dm_delete_where response_map (\<lambda>_ r. s_user r = u \<or> b_host_user (s_binding r) = u \<or> List.member gone (s_invite r)) s2
      in dm_delete_where ack_map (\<lambda>_ r. ar_user r = u \<or> List.member gone (ar_invite r)) s3)"

text \<open>\<open>deleteAccountOwnedRelayData\<close>.\<close>

definition delete_account_owned_relay_data :: "string \<Rightarrow> relay_store \<Rightarrow> (store_error, relay_store) outcome" where
  "delete_account_owned_relay_data u s =
     seq (delete_identity_records u s) (\<lambda>s1.
     seq (for_each (delete_membership u) (teamMembers s1) s1) (\<lambda>s2.
     seq (for_each (scrub_room u) (jvalues (rooms s2)) s2) (\<lambda>s3.
     Done (delete_account_invite_artifacts u s3))))"

record account_deletion_summary =
  sm_auth_sessions :: nat
  sm_device_sessions :: nat
  sm_devices :: nat
  sm_key_packages :: nat
  sm_consumed :: nat
  sm_memberships :: nat
  sm_invite_artifacts :: nat
  sm_quotas :: nat
  sm_challenges :: nat

definition count_where :: "(string \<Rightarrow> 'v \<Rightarrow> bool) \<Rightarrow> (string, 'v) jmap \<Rightarrow> nat" where
  "count_where P m = length (filter (\<lambda>(k, v). P k v) m)"

definition deletion_summary :: "string \<Rightarrow> relay_store \<Rightarrow> account_deletion_summary" where
  "deletion_summary u s =
     (let gone = removed_invite_ids u s in
      \<lparr>sm_auth_sessions = count_where (\<lambda>_ a. session_user_of a = u) (authSessions s),
       sm_device_sessions = count_where (\<lambda>_ x. ds_user x = u) (deviceSessions s),
       sm_devices = count_where (\<lambda>_ d. d_user d = u) (devices s),
       sm_key_packages = count_where (\<lambda>_ k. k_user k = u) (keyPackages s),
       sm_consumed = count_where (\<lambda>_ c. ck_user c = Some u) (consumedKeyPackages s),
       sm_memberships = count_where (\<lambda>_ ms. jhas ms u) (teamMembers s),
       sm_invite_artifacts = count_where (\<lambda>_ i. removes_invite u i) (invites s)
         + count_where (\<lambda>_ q. q_user q = u \<or> List.member gone (q_invite q)) (inviteRequests s)
         + count_where (\<lambda>_ r. s_user r = u \<or> b_host_user (s_binding r) = u \<or> List.member gone (s_invite r)) (inviteResponses s)
         + count_where (\<lambda>_ r. ar_user r = u \<or> List.member gone (ar_invite r)) (inviteAckReceipts s),
       sm_quotas = count_where (\<lambda>_ q. qr_user q = u) (accountQuotaRecords s),
       sm_challenges = count_where (\<lambda>_ c. dc_user c = u) (deviceChallenges s)\<rparr>)"

section \<open>Snapshot and restoration\<close>

record account_snapshot =
  sn_auth :: "(string, auth_session) jmap"
  sn_device_sessions :: "(string, device_session) jmap"
  sn_devices :: "(string, device) jmap"
  sn_key_packages :: "(string, key_package) jmap"
  sn_consumed :: "(string, consumed_key_package) jmap"
  sn_rooms :: "(string, room) jmap"
  sn_invites :: "(string, invite) jmap"
  sn_requests :: "(string, invite_request) jmap"
  sn_responses :: "(string, invite_response) jmap"
  sn_receipts :: "(string, ack_receipt) jmap"
  sn_members :: "(string, (string, team_member) jmap) jmap"
  sn_quotas :: "(string, quota_record) jmap"
  sn_challenges :: "(string, device_challenge) jmap"

text \<open>\<open>snapshotAccountDeletionState\<close> before the deletion, and \<open>entriesAtKeys\<close> of the same keys after it.\<close>

definition snapshot_account :: "string \<Rightarrow> relay_store \<Rightarrow> account_snapshot" where
  "snapshot_account u s =
     (let gone = removed_invite_ids u s in
      \<lparr>sn_auth = jwhere (\<lambda>_ a. session_user_of a = u) (authSessions s),
       sn_device_sessions = jwhere (\<lambda>_ x. ds_user x = u) (deviceSessions s),
       sn_devices = jwhere (\<lambda>_ d. d_user d = u) (devices s),
       sn_key_packages = jwhere (\<lambda>_ k. k_user k = u) (keyPackages s),
       sn_consumed = jwhere (\<lambda>_ c. ck_user c = Some u) (consumedKeyPackages s),
       sn_rooms = jwhere (\<lambda>_ r. stamp_set (r_deleted r) \<and> r_host_user r = Some u) (rooms s),
       sn_invites = jwhere (\<lambda>_ i. removes_invite u i) (invites s),
       sn_requests = jwhere (\<lambda>_ q. q_user q = u \<or> List.member gone (q_invite q)) (inviteRequests s),
       sn_responses = jwhere (\<lambda>_ r. s_user r = u \<or> b_host_user (s_binding r) = u \<or> List.member gone (s_invite r)) (inviteResponses s),
       sn_receipts = jwhere (\<lambda>_ r. ar_user r = u \<or> List.member gone (ar_invite r)) (inviteAckReceipts s),
       sn_members = jwhere (\<lambda>_ ms. jhas ms u) (teamMembers s),
       sn_quotas = jwhere (\<lambda>_ q. qr_user q = u) (accountQuotaRecords s),
       sn_challenges = jwhere (\<lambda>_ c. dc_user c = u) (deviceChallenges s)\<rparr>)"

definition entries_at_keys :: "string list \<Rightarrow> (string, 'v) jmap \<Rightarrow> (string, 'v) jmap" where
  "entries_at_keys ks m = List.map_filter (\<lambda>k. map_option (Pair k) (jget m k)) ks"

definition touched_snapshot :: "account_snapshot \<Rightarrow> relay_store \<Rightarrow> account_snapshot" where
  "touched_snapshot b s =
     \<lparr>sn_auth = entries_at_keys (jkeys (sn_auth b)) (authSessions s),
      sn_device_sessions = entries_at_keys (jkeys (sn_device_sessions b)) (deviceSessions s),
      sn_devices = entries_at_keys (jkeys (sn_devices b)) (devices s),
      sn_key_packages = entries_at_keys (jkeys (sn_key_packages b)) (keyPackages s),
      sn_consumed = entries_at_keys (jkeys (sn_consumed b)) (consumedKeyPackages s),
      sn_rooms = entries_at_keys (jkeys (sn_rooms b)) (rooms s),
      sn_invites = entries_at_keys (jkeys (sn_invites b)) (invites s),
      sn_requests = entries_at_keys (jkeys (sn_requests b)) (inviteRequests s),
      sn_responses = entries_at_keys (jkeys (sn_responses b)) (inviteResponses s),
      sn_receipts = entries_at_keys (jkeys (sn_receipts b)) (inviteAckReceipts s),
      sn_members = entries_at_keys (jkeys (sn_members b)) (teamMembers s),
      sn_quotas = entries_at_keys (jkeys (sn_quotas b)) (accountQuotaRecords s),
      sn_challenges = entries_at_keys (jkeys (sn_challenges b)) (deviceChallenges s)\<rparr>"

text \<open>
  \<open>restoreChangedEntries\<close>: an entry the deletion changed comes absent, unless somebody changed it
  since. The keys of the second snapshot are among those of the first.
\<close>

definition to_restore :: "(string, 'v) jmap \<Rightarrow> (string, 'v) jmap \<Rightarrow> (string, 'v) jmap \<Rightarrow> (string \<times> 'v) list" where
  "to_restore before later target = filter (\<lambda>(k, v). jget later k \<noteq> Some v \<and> jget target k = jget later k) before"

definition restore_changed_entries ::
  "'v tracked \<Rightarrow> (string, 'v) jmap \<Rightarrow> (string, 'v) jmap \<Rightarrow> relay_store \<Rightarrow> (store_error, relay_store) outcome" where
  "restore_changed_entries T before later s = for_each (\<lambda>(k, v). dm_set T k v) (to_restore before later (tr_get T s)) s"

definition restore_plain_entries :: "(string, 'v) jmap \<Rightarrow> (string, 'v) jmap \<Rightarrow> (string, 'v) jmap \<Rightarrow> (string, 'v) jmap" where
  "restore_plain_entries before later target = fold (\<lambda>(k, v). jset k v) (to_restore before later target) target"

definition restore_membership ::
  "(string, (string, team_member) jmap) jmap \<Rightarrow> string \<times> (string, team_member) jmap \<Rightarrow> relay_store \<Rightarrow> (store_error, relay_store) outcome" where
  "restore_membership later tms s =
     (case tms of (t, previous) \<Rightarrow>
        let lost = filter (\<lambda>(v, _). case jget later t of None \<Rightarrow> True | Some ms \<Rightarrow> \<not> jhas ms v) previous;
            current = (case members_of s t of None \<Rightarrow> [] | Some ms \<Rightarrow> ms);
            absent = filter (\<lambda>(v, _). \<not> jhas current v) lost;
            ms = fold (\<lambda>(v, m). jset v m) absent current in
        if absent = [] then Done s
        else seq (set_team_members t ms s) (\<lambda>s1.
             case jget (teams s1) t of None \<Rightarrow> Done s1 | Some x \<Rightarrow> set_team (x\<lparr>t_members := length ms\<rparr>) s1))"

definition restore_account_deletion_state :: "account_snapshot \<Rightarrow> account_snapshot \<Rightarrow> relay_store \<Rightarrow> (store_error, relay_store) outcome" where
  "restore_account_deletion_state b a s =
     seq (restore_changed_entries auth_map (sn_auth b) (sn_auth a) s) (\<lambda>s1.
     let s1' = s1\<lparr>deviceSessions := restore_plain_entries (sn_device_sessions b) (sn_device_sessions a) (deviceSessions s1)\<rparr> in
     seq (restore_changed_entries device_map (sn_devices b) (sn_devices a) s1') (\<lambda>s2.
     seq (restore_changed_entries key_package_map (sn_key_packages b) (sn_key_packages a) s2) (\<lambda>s3.
     seq (restore_changed_entries consumed_map (sn_consumed b) (sn_consumed a) s3) (\<lambda>s4.
     seq (restore_changed_entries room_map (sn_rooms b) (sn_rooms a) s4) (\<lambda>s5.
     seq (restore_changed_entries invite_map (sn_invites b) (sn_invites a) s5) (\<lambda>s6.
     seq (restore_changed_entries request_map (sn_requests b) (sn_requests a) s6) (\<lambda>s7.
     seq (restore_changed_entries response_map (sn_responses b) (sn_responses a) s7) (\<lambda>s8.
     seq (restore_changed_entries ack_map (sn_receipts b) (sn_receipts a) s8) (\<lambda>s9.
     seq (for_each (restore_membership (sn_members a)) (sn_members b) s9) (\<lambda>s10.
     seq (restore_changed_entries quota_map (sn_quotas b) (sn_quotas a) s10) (\<lambda>s11.
     Done (s11\<lparr>deviceChallenges := restore_plain_entries (sn_challenges b) (sn_challenges a) (deviceChallenges s11)\<rparr>))))))))))))"

text \<open>
  \<open>deleteAccountOwnedRelayDataWithinTurnAtomically\<close>: a deletion that throws is not undone, a save that
  fails is.
\<close>

definition delete_account_atomically :: "bool \<Rightarrow> string \<Rightarrow> live \<Rightarrow> account_deletion_summary option \<times> live" where
  "delete_account_atomically ok u l =
     (let before = snapshot_account u (lv_store l) in
      case on_store (delete_account_owned_relay_data u) l of
        Throws _ l1 \<Rightarrow> (None, l1)
      | Done l1 \<Rightarrow>
          (case save_now ok l1 of
             Done l2 \<Rightarrow> (Some (deletion_summary u (lv_store l)), l2)
           | Throws _ l2 \<Rightarrow>
               (None, state_of (on_store (restore_account_deletion_state before (touched_snapshot before (lv_store l1))) l2))))"

section \<open>The route\<close>

definition close_user_sockets :: "string \<Rightarrow> live \<Rightarrow> live" where
  "close_user_sockets u l =
     fold (\<lambda>k l. case registered l k of None \<Rightarrow> l
        | Some cs \<Rightarrow> if map_option session_user_of (cs_auth cs) = Some u \<or> cs_user cs = Some u then close_socket k 1008 l else l)
       (sockets_registered l) l"

text \<open>The handler once it has the account's turn.\<close>

definition delete_account_turn :: "auth_config \<Rightarrow> int \<Rightarrow> bool \<Rightarrow> auth_session \<Rightarrow> live \<Rightarrow> account_deletion_summary reply \<times> live" where
  "delete_account_turn ac now ok a l =
     (let s = lv_store l; u = session_user_of a in
      if \<not> is_live_account_session s a now then (Http_error 401 H_authentication_required, l)
      else if has_account_deletion_blockers (find_account_deletion_blockers (ac_collate ac) s u)
      then (Http_error 409 H_account_deletion_blocked, l)
      else
        let ts = map fst (filter (\<lambda>(_, ms). jhas ms u) (teamMembers s)) in
        (case delete_account_atomically ok u l of
           (None, l1) \<Rightarrow> (Http_error 503 H_persistence_unavailable, l1)
         | (Some summary, l1) \<Rightarrow>
             let l2 = fold (\<lambda>t. revoke_team_member_sessions (ac_env ac) now t u) ts l1;
                 l3 = revoke_user_presence (ac_env ac) now u l2
             in (Reply 200 summary, close_user_sockets u l3)))"

definition account_deletion_confirmation :: string where
  "account_deletion_confirmation = ''delete my account''"

text \<open>\<open>DELETE /auth/account\<close>.\<close>

definition delete_account ::
  "auth_config \<Rightarrow> int \<Rightarrow> bool \<Rightarrow> (live \<Rightarrow> live) \<Rightarrow> auth_session option \<Rightarrow> jsv \<Rightarrow> live \<Rightarrow> account_deletion_summary reply \<times> live" where
  "delete_account ac now ok account_turn session body l =
     (case session of
        None \<Rightarrow> (Http_error 401 H_authentication_required, l)
      | Some a \<Rightarrow>
          if field_of body ''confirmation'' \<noteq> J_str account_deletion_confirmation then (Http_error 400 H_invalid_request, l)
          else delete_account_turn ac now ok a (account_turn l))"

end
