(* ===== verification/Auth_Session_Proofs.thy ===== *)
theory Auth_Session_Proofs
  imports Auth_Sessions Room_Proofs
begin

text \<open>
  Signing in keeps the sessions of an account within the cap: the expired and the oldest ones go, their
  sockets are closed, and no other account is touched.
\<close>

section \<open>Evicting sessions\<close>

definition active_of :: "int \<Rightarrow> string \<Rightarrow> (string, auth_session) jmap \<Rightarrow> (string \<times> auth_session) list" where
  "active_of now u m = filter (\<lambda>(_, a). session_user_of a = u \<and> as_expires a > now) m"

lemma delete_auth_sessions_data: "authSessions (delete_auth_sessions hs s) = filter (\<lambda>(k, _). k \<notin> set hs) (authSessions s)"
  unfolding delete_auth_sessions_def
proof (induction hs arbitrary: s)
  case (Cons h hs)
  have "authSessions (dm_delete auth_map h s) = jdel h (authSessions s)"
    using fields_by_data(1) [OF auth_tm.dm_delete_data [of h s]] by (simp add: auth_map_def)
  with Cons show ?case by (auto simp: jdel_def AList.delete_eq case_prod_beta intro!: filter_cong)
qed simp

lemma owned_mset: "mset (owned_sessions collate m u) = mset (filter (\<lambda>(_, a). session_user_of a = u) m)"
  by (simp add: owned_sessions_def)

lemma owned_set: "set (owned_sessions collate m u) = {(h, a) \<in> set m. session_user_of a = u}"
  by (auto simp: owned_sessions_def)

lemma evicted_set:
  "p \<in> set (select_auth_sessions_to_evict collate m u cap reserved now) \<Longrightarrow> p \<in> set m \<and> session_user_of (snd p) = u"
  by (auto simp: select_auth_sessions_to_evict_def Let_def owned_set dest!: in_set_takeD)

lemma active_mset: "mset (filter (\<lambda>(_, a). as_expires a > now) (owned_sessions collate m u)) = mset (active_of now u m)"
proof -
  let ?P = "\<lambda>(_, a). as_expires a > now" and ?Q = "\<lambda>(_, a). session_user_of a = u"
  have 1: "mset (filter ?P (owned_sessions collate m u)) = mset (filter ?P (filter ?Q m))" by (simp only: mset_filter owned_mset)
  have 2: "filter ?P (filter ?Q m) = active_of now u m" by (auto simp: active_of_def intro!: filter_cong)
  show ?thesis using 1 unfolding 2 .
qed

text \<open>What an eviction leaves of the active sessions.\<close>

lemma active_after_eviction:
  assumes gone: "gone = map fst (select_auth_sessions_to_evict collate m u cap reserved now)"
  shows "length (active_of now u (filter (\<lambda>(k, _). k \<notin> set gone) m)) \<le> cap - reserved"
proof -
  let ?xs = "filter (\<lambda>(_, a). as_expires a > now) (owned_sessions collate m u)"
  let ?n = "length ?xs - (cap - reserved)" and ?keep = "\<lambda>(k, _ :: auth_session). k \<notin> set gone"
  have sub: "fst ` set (take ?n ?xs) \<subseteq> set gone"
    by (auto simp: gone select_auth_sessions_to_evict_def Let_def)
  have "active_of now u (filter ?keep m) = filter ?keep (active_of now u m)"
    by (simp add: active_of_def conj_commute conj_left_commute case_prod_beta)
  then have "mset (active_of now u (filter ?keep m)) = mset (filter ?keep ?xs)"
    using active_mset [of now collate m u] by (metis mset_filter)
  then have "length (active_of now u (filter ?keep m)) = length (filter ?keep ?xs)" by (metis size_mset)
  also have "\<dots> = length (filter ?keep (take ?n ?xs)) + length (filter ?keep (drop ?n ?xs))"
    by (metis append_take_drop_id filter_append length_append)
  also have "filter ?keep (take ?n ?xs) = []" using sub by (auto simp: filter_empty_conv)
  also have "length (filter ?keep (drop ?n ?xs)) \<le> length (drop ?n ?xs)" by (rule length_filter_le)
  finally show ?thesis by simp
qed

section \<open>Closing their sockets\<close>

lemma close_sockets_fold:
  "lv_store (fold (\<lambda>k l. case session_auth l k of None \<Rightarrow> l | Some a \<Rightarrow> if List.member gone a then close_socket k 1008 l else l) ks l) = lv_store l
   \<and> lv_sessions (fold (\<lambda>k l. case session_auth l k of None \<Rightarrow> l | Some a \<Rightarrow> if List.member gone a then close_socket k 1008 l else l) ks l) = lv_sessions l
   \<and> set (lv_open (fold (\<lambda>k l. case session_auth l k of None \<Rightarrow> l | Some a \<Rightarrow> if List.member gone a then close_socket k 1008 l else l) ks l))
     = {k \<in> set (lv_open l). \<not> (k \<in> set ks \<and> (\<exists>a \<in> set gone. session_auth l k = Some a))}"
proof (induction ks arbitrary: l)
  case (Cons k ks)
  let ?l = "case session_auth l k of None \<Rightarrow> l | Some a \<Rightarrow> if List.member gone a then close_socket k 1008 l else l"
  have same: "lv_store ?l = lv_store l" "lv_sessions ?l = lv_sessions l"
    by (simp_all add: close_socket_def split: option.split)
  then have auth: "session_auth ?l j = session_auth l j" for j by (simp add: session_auth_def registered_def)
  have "set (lv_open ?l) = {j \<in> set (lv_open l). \<not> (j = k \<and> (\<exists>a \<in> set gone. session_auth l k = Some a))}"
    by (auto simp: close_socket_def split: option.split)
  with Cons.IH [of ?l] same auth show ?case by auto
qed simp

lemma close_auth_session_sockets:
  "lv_store (close_auth_session_sockets gone l) = lv_store l"
  "set (lv_open (close_auth_session_sockets gone l))
     = {k \<in> set (lv_open l). \<not> (k \<in> set (sockets_registered l) \<and> (\<exists>a \<in> set gone. session_auth l k = Some a))}"
  using close_sockets_fold [of gone "sockets_registered l" l] by (auto simp: close_auth_session_sockets_def)

lemma registered_sockets: "session_auth l k = Some a \<Longrightarrow> k \<in> set (sockets_registered l)"
  by (force simp: session_auth_def registered_def sockets_registered_def split: option.splits if_splits dest!: jget_mem)

section \<open>Signing in\<close>

lemma fail_sign_in_error: "fail_sign_in x h u b evicted l \<noteq> (Reply st y, l')"
proof -
  have "thrown_reply e \<noteq> (Reply st y :: session_user reply)" for e by (metis is_error.simps(1) thrown_reply_error)
  then show ?thesis by (auto simp: fail_sign_in_def handle_def split: outcome.split live_error.split store_error.split)
qed

lemma signed_in:
  assumes "issue_verified_session ac now ok i user l = (Reply st x, l')"
  defines "evicted \<equiv> select_auth_sessions_to_evict (ac_collate ac) (authSessions (lv_store l)) (u_id user) (ac_session_cap ac) 1 now"
  obtains s where "\<not> is_account_restricted (lv_store l) (u_id user) now"
    and "set_auth_session (ac_env ac) i user (now + ac_max_age ac) (delete_auth_sessions (map fst evicted) (lv_store l)) = Done s"
    and "x = user" and "l' = close_auth_session_sockets (map snd evicted) (l\<lparr>lv_store := discard_durable_mutations s\<rparr>)"
proof -
  let ?l1 = "put_store (delete_auth_sessions (map fst evicted)) l"
  let ?set = "set_auth_session (ac_env ac) i user (now + ac_max_age ac) (delete_auth_sessions (map fst evicted) (lv_store l))"
  have free: "\<not> is_account_restricted (lv_store l) (u_id user) now" using assms(1) by (auto simp: issue_verified_session_def)
  then have run: "(case on_store (set_auth_session (ac_env ac) i user (now + ac_max_age ac)) ?l1 of
      Throws x l2 \<Rightarrow> fail_sign_in x (hash_auth_session_id (ac_env ac) i) (u_id user) False evicted l2
    | Done l2 \<Rightarrow> (case save_now ok l2 of
        Throws x l3 \<Rightarrow> fail_sign_in x (hash_auth_session_id (ac_env ac) i) (u_id user) True evicted l3
      | Done l3 \<Rightarrow> (Reply 200 user, close_auth_session_sockets (map snd evicted) l3))) = (Reply st x, l')"
    using assms(1) unfolding issue_verified_session_def Let_def evicted_def by simp
  obtain s where set: "?set = Done s"
    using run fail_sign_in_error by (cases ?set) (simp_all add: on_store_def put_store_def)
  have ok using run fail_sign_in_error by (cases ok) (simp_all add: on_store_def put_store_def set save_now_cases)
  then have "x = user" "l' = close_auth_session_sockets (map snd evicted) (l\<lparr>lv_store := discard_durable_mutations s\<rparr>)"
    using run by (simp_all add: on_store_def set save_now_cases put_store_def)
  then show ?thesis using that [OF free set] by simp
qed

lemma jget_filter_keys: "jget (filter (\<lambda>(k, _). k \<notin> K) m) h = (if h \<in> K then None else jget m h)"
  by (induction m) auto

text \<open>What goes is expired or no younger than the active sessions that stay.\<close>

lemma evicted_oldest:
  assumes "(h, a) \<in> set (select_auth_sessions_to_evict collate m u cap reserved now)"
    and "(h', b) \<in> set m" "session_user_of b = u" "(h', b) \<notin> set (select_auth_sessions_to_evict collate m u cap reserved now)"
  shows "as_expires a \<le> now \<or> as_expires a \<le> as_expires b"
proof -
  let ?xs = "filter (\<lambda>(_, a). as_expires a > now) (owned_sessions collate m u)"
  let ?n = "length ?xs - (cap - reserved)" and ?key = "\<lambda>(_ :: string, a). as_expires a"
  have "(h', b) \<in> set (owned_sessions collate m u)" using assms(2,3) by (simp add: owned_set)
  then have "(h', b) \<in> set ?xs" "(h', b) \<notin> set (take ?n ?xs)"
    using assms(4) by (auto simp: select_auth_sessions_to_evict_def Let_def)
  then have "(h', b) \<in> set (drop ?n ?xs)" by (metis Un_iff append_take_drop_id set_append)
  moreover have "sorted (map ?key (owned_sessions collate m u))" by (simp add: owned_sessions_def)
  then have "sorted (map ?key ?xs)" by (rule sorted_filter)
  then have "sorted (map ?key (take ?n ?xs) @ map ?key (drop ?n ?xs))" by (metis append_take_drop_id map_append)
  ultimately have "as_expires a \<le> as_expires b" if "(h, a) \<in> set (take ?n ?xs)"
    using that by (fastforce simp: sorted_append)
  then show ?thesis using assms(1) by (auto simp: select_auth_sessions_to_evict_def Let_def)
qed

text \<open>
  C38: After a sign-in the account holds the new session and at most as many live sessions as the cap
  allows; the sessions of the other accounts are as before; the sessions that went were expired or no
  younger than those that stayed, and their sockets are closed.
\<close>

theorem sign_in_respects_the_cap:
  assumes "store_ok (lv_store l)"
    and run: "issue_verified_session ac now ok i user l = (Reply st x, l')"
    and fresh: "jget (authSessions (lv_store l)) (hash_auth_session_id (ac_env ac) i) = None"
  shows "jget (authSessions (lv_store l')) (hash_auth_session_id (ac_env ac) i)
      = Some \<lparr>as_hash = hash_auth_session_id (ac_env ac) i, as_user = user, as_expires = now + ac_max_age ac\<rparr>
    \<and> length (filter (\<lambda>a. session_user_of a = u_id user \<and> as_expires a > now) (jvalues (authSessions (lv_store l')))) \<le> max 1 (ac_session_cap ac)
    \<and> (\<forall>h a. session_user_of a \<noteq> u_id user \<longrightarrow> (jget (authSessions (lv_store l')) h = Some a \<longleftrightarrow> jget (authSessions (lv_store l)) h = Some a))
    \<and> (\<forall>h h' a b. jget (authSessions (lv_store l)) h = Some a \<and> jget (authSessions (lv_store l')) h = None
        \<and> jget (authSessions (lv_store l)) h' = Some b \<and> jget (authSessions (lv_store l')) h' = Some b \<and> session_user_of b = u_id user
        \<longrightarrow> as_expires a \<le> now \<or> as_expires a \<le> as_expires b)
    \<and> (\<forall>h a k. jget (authSessions (lv_store l)) h = Some a \<and> jget (authSessions (lv_store l')) h = None \<and> session_auth l k = Some a
        \<longrightarrow> k \<notin> set (lv_open l'))"
proof -
  let ?h = "hash_auth_session_id (ac_env ac) i" and ?u = "u_id user" and ?m = "authSessions (lv_store l)"
  define evicted where "evicted = select_auth_sessions_to_evict (ac_collate ac) ?m ?u (ac_session_cap ac) 1 now"
  let ?new = "\<lparr>as_hash = ?h, as_user = user, as_expires = now + ac_max_age ac\<rparr>"
  let ?kept = "filter (\<lambda>(k, _). k \<notin> set (map fst evicted)) ?m"
  have wf: "jwf ?m" using assms(1) by (simp add: store_ok_def store_wf_def)
  from signed_in [OF run, folded evicted_def] obtain s where
    set: "set_auth_session (ac_env ac) i user (now + ac_max_age ac) (delete_auth_sessions (map fst evicted) (lv_store l)) = Done s"
    and l': "l' = close_auth_session_sockets (map snd evicted) (l\<lparr>lv_store := discard_durable_mutations s\<rparr>)" by metis
  have m': "authSessions (lv_store l') = jset ?h ?new ?kept"
    using fields_by_data(1) [OF auth_tm.dm_set_data [OF set [unfolded set_auth_session_def Let_def]]]
    by (simp add: l' close_auth_session_sockets(1) discard_durable_mutations_def delete_auth_sessions_data auth_map_def)
  have entry: "jget ?m h = Some b \<and> session_user_of b = ?u" if "(h, b) \<in> set evicted" for h b
    using that evicted_set [of "(h, b)"] wf by (auto simp: evicted_def)
  have new: "jget (authSessions (lv_store l')) ?h = Some ?new" by (simp add: m')
  have old: "jget (authSessions (lv_store l')) h = (if h \<in> fst ` set evicted then None else jget ?m h)" if "h \<noteq> ?h" for h
    using that by (simp add: m' jget_filter_keys)
  have gone: "(h, a) \<in> set evicted" if "jget ?m h = Some a" "jget (authSessions (lv_store l')) h = None" for h a
    using that old [of h] fresh entry by (cases "h = ?h") (auto split: if_splits)
  have "length (filter (\<lambda>a. session_user_of a = ?u \<and> as_expires a > now) (jvalues ?kept)) \<le> ac_session_cap ac - 1"
    using active_after_eviction [of "map fst evicted"] by (simp add: active_of_def jvalues_def filter_map evicted_def comp_def case_prod_beta)
  moreover have "authSessions (lv_store l') = ?kept @ [(?h, ?new)]"
    unfolding m' by (rule jset_new) (simp add: jget_filter_keys fresh)
  ultimately have cap: "length (filter (\<lambda>a. session_user_of a = ?u \<and> as_expires a > now) (jvalues (authSessions (lv_store l')))) \<le> max 1 (ac_session_cap ac)"
    by (auto simp: jvalues_def)
  have others: "jget (authSessions (lv_store l')) h = Some a \<longleftrightarrow> jget ?m h = Some a" if "session_user_of a \<noteq> ?u" for h a
    using that old [of h] new fresh entry by (cases "h = ?h") (auto simp: session_user_of_def)
  have oldest: "as_expires a \<le> now \<or> as_expires a \<le> as_expires b"
    if "jget ?m h = Some a" "jget (authSessions (lv_store l')) h = None" "jget ?m h' = Some b"
      "jget (authSessions (lv_store l')) h' = Some b" "session_user_of b = ?u" for h h' a b
  proof (rule evicted_oldest)
    show "(h, a) \<in> set (select_auth_sessions_to_evict (ac_collate ac) ?m ?u (ac_session_cap ac) 1 now)"
      using gone [OF that(1,2)] by (simp add: evicted_def)
    have "h' \<noteq> ?h" using that(3) fresh by auto
    then show "(h', b) \<notin> set (select_auth_sessions_to_evict (ac_collate ac) ?m ?u (ac_session_cap ac) 1 now)"
      using old [of h'] that(4) by (force simp: evicted_def split: if_splits)
  qed (use that jget_mem in auto)
  have closed: "k \<notin> set (lv_open l')" if "(h, a) \<in> set evicted" "session_auth l k = Some a" for h a k
  proof -
    let ?l = "l\<lparr>lv_store := discard_durable_mutations s\<rparr>"
    have "session_auth ?l k = Some a" using that(2) by (simp add: session_auth_def registered_def)
    then show ?thesis using registered_sockets [of ?l k a] that(1) by (force simp: l' close_auth_session_sockets(2))
  qed
  show ?thesis using new cap others oldest gone closed by blast
qed

end
