(* ===== verification/Account_Proofs.thy ===== *)
theory Account_Proofs
  imports Accounts Auth_Session_Proofs
begin

text \<open>
  A deleted account leaves nothing behind but what is shared: no session, device, package, quota,
  membership, invite or host identity names it, its sockets are closed, and no other account is
  touched.
\<close>

section \<open>Loops over the maps\<close>

lemma for_each_view:
  assumes "for_each f xs s = Done s'" and "\<And>x s s'. x \<in> set xs \<Longrightarrow> f x s = Done s' \<Longrightarrow> view s' = F x (view s)"
  shows "view s' = fold F xs (view s)"
  using assms
proof (induction xs arbitrary: s)
  case (Cons x xs)
  from Cons.prems(1) obtain s1 where "f x s = Done s1" "for_each f xs s1 = Done s'" by (auto elim: seq_DoneE)
  with Cons.IH [of s1] Cons.prems(2) [of x s s1] Cons.prems(2) show ?case by simp
qed simp

text \<open>A loop over a map that rewrites some of its entries in place.\<close>

definition rewrite_where :: "('k \<Rightarrow> 'v \<Rightarrow> bool) \<Rightarrow> ('k \<Rightarrow> 'v \<Rightarrow> 'v) \<Rightarrow> ('k \<times> 'v) list \<Rightarrow> ('k, 'v) jmap \<Rightarrow> ('k, 'v) jmap" where
  "rewrite_where P g xs m = fold (\<lambda>(k, v) m. if P k v then jset k (g k v) m else m) xs m"

lemma jget_rewrite_where:
  assumes "distinct (map fst xs)"
  shows "jget (rewrite_where P g xs m) k = (case map_of xs k of None \<Rightarrow> jget m k | Some v \<Rightarrow> if P k v then Some (g k v) else jget m k)"
  using assms unfolding rewrite_where_def
proof (induction xs arbitrary: m)
  case (Cons x xs)
  obtain a v where x: "x = (a, v)" by fastforce
  have "map_of xs a = None" using Cons.prems by (simp add: x map_of_eq_None_iff)
  then show ?case using Cons by (auto simp: x split: option.split)
qed simp

lemma jget_rewrite:
  "jwf m \<Longrightarrow> jget (rewrite_where P g m m) k = map_option (\<lambda>v. if P k v then g k v else v) (jget m k)"
  by (simp add: jget_rewrite_where split: option.split)

section \<open>The stages of a deletion\<close>

lemma consumed_data:
  assumes "remove_consumed_key_package_owner_fields u s = Done s'"
  shows "store_data s' = (store_data s)\<lparr>consumedKeyPackages :=
    rewrite_where (\<lambda>_ c. ck_user c = Some u) deattributed (consumedKeyPackages s) (consumedKeyPackages s)\<rparr>"
proof -
  let ?F = "\<lambda>(h, c) (d :: relay_store). if ck_user c = Some u then d\<lparr>consumedKeyPackages := jset h (deattributed h c) (consumedKeyPackages d)\<rparr> else d"
  have step: "store_data t' = ?F x (store_data t)"
    if "(case x of (h, c) \<Rightarrow> \<lambda>s. if ck_user c = Some u then dm_set consumed_map h (deattributed h c) s else Done s) t = Done t'" for x t t'
    using that by (cases x) (auto simp: consumed_tm.dm_set_data split: if_splits)
  have "fold ?F xs d = d\<lparr>consumedKeyPackages := rewrite_where (\<lambda>_ c. ck_user c = Some u) deattributed xs (consumedKeyPackages d)\<rparr>" for xs d
    by (induction xs arbitrary: d) (auto simp: rewrite_where_def)
  with for_each_view [where view = store_data and F = ?F, OF assms [unfolded remove_consumed_key_package_owner_fields_def]] step show ?thesis by simp
qed

lemma membership_erase:
  assumes "delete_membership u (t, ms) s = Done s'"
  shows "erase team_map s' = (if jhas ms u then (erase team_map s)\<lparr>teamMembers := jset t (jdel u ms) (teamMembers (erase team_map s))\<rparr>
    else erase team_map s)"
proof (cases "jhas ms u")
  case False
  then show ?thesis using assms by (simp add: delete_membership_def)
next
  case True
  with assms obtain s0 where set: "set_team_members t (jdel u ms) s = Done s0"
    and team: "(case jget (teams s0) t of None \<Rightarrow> Done s0 | Some x \<Rightarrow> set_team (x\<lparr>t_members := length (jdel u ms)\<rparr>) s0) = Done s'"
    by (auto simp: delete_membership_def elim: seq_DoneE)
  have "erase team_map s' = erase team_map s0"
    using team team_tm.dm_set_Done_erase by (auto simp: set_team_def split: option.splits)
  moreover have "erase team_map s0 = (erase team_map s)\<lparr>teamMembers := jset t (jdel u ms) (teamMembers s)\<rparr>"
    by (simp add: erase_def set_team_members_data [OF set])
  moreover have "teamMembers (erase team_map s) = teamMembers s" by (simp add: erase_def store_data_def)
  ultimately show ?thesis using True by simp
qed

lemma memberships_erase:
  assumes "for_each (delete_membership u) xs s = Done s'"
  shows "erase team_map s' = (erase team_map s)\<lparr>teamMembers := rewrite_where (\<lambda>_ ms. jhas ms u) (\<lambda>_ ms. jdel u ms) xs (teamMembers s)\<rparr>"
proof -
  let ?F = "\<lambda>(t, ms) (d :: relay_store). if jhas ms u then d\<lparr>teamMembers := jset t (jdel u ms) (teamMembers d)\<rparr> else d"
  have "erase team_map t' = ?F x (erase team_map t)" if "delete_membership u x t = Done t'" for x t t'
    using that by (cases x) (simp add: membership_erase)
  moreover have "fold ?F xs d = d\<lparr>teamMembers := rewrite_where (\<lambda>_ ms. jhas ms u) (\<lambda>_ ms. jdel u ms) xs (teamMembers d)\<rparr>" for xs d
    by (induction xs arbitrary: d) (auto simp: rewrite_where_def)
  moreover have "teamMembers (erase team_map s) = teamMembers s" by (simp add: erase_def store_data_def)
  ultimately show ?thesis using for_each_view [where view = "erase team_map" and F = ?F, OF assms] by simp
qed

lemma scrub_data:
  assumes "for_each (scrub_room u) (jvalues (rooms s)) s = Done s'" and "rooms_keyed s"
  shows "store_data s' = (store_data s)\<lparr>rooms :=
    rewrite_where (\<lambda>_ r. stamp_set (r_deleted r) \<and> r_host_user r = Some u) (\<lambda>_. deleted_user_room) (rooms s) (rooms s)\<rparr>"
proof -
  let ?P = "\<lambda>r. stamp_set (r_deleted r) \<and> r_host_user r = Some u"
  let ?F = "\<lambda>r (d :: relay_store). if ?P r then d\<lparr>rooms := jset (r_id r) (deleted_user_room r) (rooms d)\<rparr> else d"
  have step: "store_data t' = ?F r (store_data t)" if "scrub_room u r t = Done t'" for r t t'
  proof -
    have "r_id (deleted_user_room r) = r_id r" by (simp add: deleted_user_room_def)
    then show ?thesis using that by (auto simp: scrub_room_def set_room_def dest!: room_tm.dm_set_data split: if_splits)
  qed
  have "fold ?F (map snd xs) d = d\<lparr>rooms := rewrite_where (\<lambda>_ r. ?P r) (\<lambda>_. deleted_user_room) xs (rooms d)\<rparr>"
    if "list_all (\<lambda>(k, r). r_id r = k) xs" for xs d
    using that by (induction xs arbitrary: d) (auto simp: rewrite_where_def)
  with for_each_view [where view = store_data and F = ?F, OF assms(1)] step assms(2) show ?thesis by (simp add: jvalues_def rooms_keyed_def)
qed

section \<open>What a deletion leaves\<close>

text \<open>The store after a deletion, map by map.\<close>

definition account_gone :: "string \<Rightarrow> relay_store \<Rightarrow> relay_store \<Rightarrow> bool" where
  "account_gone u s s' \<longleftrightarrow>
     authSessions s' = jwhere (\<lambda>_ a. session_user_of a \<noteq> u) (authSessions s)
   \<and> deviceSessions s' = jwhere (\<lambda>_ x. ds_user x \<noteq> u) (deviceSessions s)
   \<and> devices s' = jwhere (\<lambda>_ d. d_user d \<noteq> u) (devices s)
   \<and> keyPackages s' = jwhere (\<lambda>_ k. k_user k \<noteq> u) (keyPackages s)
   \<and> (\<forall>h. jget (consumedKeyPackages s') h = map_option (\<lambda>c. if ck_user c = Some u then deattributed h c else c) (jget (consumedKeyPackages s) h))
   \<and> accountQuotaRecords s' = jwhere (\<lambda>_ q. qr_user q \<noteq> u) (accountQuotaRecords s)
   \<and> deviceChallenges s' = jwhere (\<lambda>_ c. dc_user c \<noteq> u) (deviceChallenges s)
   \<and> (\<forall>t. members_of s' t = map_option (jdel u) (members_of s t))
   \<and> (\<forall>k. jget (rooms s') k = map_option (\<lambda>r. if stamp_set (r_deleted r) \<and> r_host_user r = Some u then deleted_user_room r else r) (jget (rooms s) k))
   \<and> invites s' = jwhere (\<lambda>_ i. \<not> removes_invite u i) (invites s)
   \<and> inviteRequests s' = jwhere (\<lambda>_ q. \<not> (q_user q = u \<or> List.member (removed_invite_ids u s) (q_invite q))) (inviteRequests s)
   \<and> inviteResponses s' = jwhere (\<lambda>_ r. \<not> (s_user r = u \<or> b_host_user (s_binding r) = u \<or> List.member (removed_invite_ids u s) (s_invite r))) (inviteResponses s)
   \<and> inviteAckReceipts s' = jwhere (\<lambda>_ r. \<not> (ar_user r = u \<or> List.member (removed_invite_ids u s) (ar_invite r))) (inviteAckReceipts s)
   \<and> mlsBacklog s' = mlsBacklog s \<and> acceptedMessageReceipts s' = acceptedMessageReceipts s \<and> attachmentBlobs s' = attachmentBlobs s
   \<and> accountRestrictions s' = accountRestrictions s"

lemma store_ok_device_fields [simp]:
  "store_ok (s\<lparr>deviceSessions := m\<rparr>) = store_ok s" "store_ok (s\<lparr>deviceChallenges := n\<rparr>) = store_ok s"
  by (simp_all add: store_ok_def store_wf_def entry_teams_def entry_weights_def map_defs team_mset_def weights_of_def)

lemma identity_data:
  assumes ok: "store_ok s" and run: "delete_identity_records u s = Done s'"
  shows "store_ok s' \<and> store_data s' = (store_data s)\<lparr>authSessions := jwhere (\<lambda>_ a. session_user_of a \<noteq> u) (authSessions s),
      deviceSessions := jwhere (\<lambda>_ x. ds_user x \<noteq> u) (deviceSessions s), devices := jwhere (\<lambda>_ d. d_user d \<noteq> u) (devices s),
      keyPackages := jwhere (\<lambda>_ k. k_user k \<noteq> u) (keyPackages s),
      consumedKeyPackages := rewrite_where (\<lambda>_ c. ck_user c = Some u) deattributed (consumedKeyPackages s) (consumedKeyPackages s),
      accountQuotaRecords := jwhere (\<lambda>_ q. qr_user q \<noteq> u) (accountQuotaRecords s),
      deviceChallenges := jwhere (\<lambda>_ c. dc_user c \<noteq> u) (deviceChallenges s)\<rparr>"
proof -
  define s1 where "s1 = dm_delete_where auth_map (\<lambda>_ a. session_user_of a = u) s"
  define s2 where "s2 = s1\<lparr>deviceSessions := jwhere (\<lambda>_ x. ds_user x \<noteq> u) (deviceSessions s1)\<rparr>"
  define s3 where "s3 = dm_delete_where device_map (\<lambda>_ d. d_user d = u) s2"
  define s4 where "s4 = dm_delete_where key_package_map (\<lambda>_ k. k_user k = u) s3"
  from run obtain s5 where 5: "remove_consumed_key_package_owner_fields u s4 = Done s5"
    and s': "s' = (dm_delete_where quota_map (\<lambda>_ q. qr_user q = u) s5)\<lparr>deviceChallenges :=
      jwhere (\<lambda>_ c. dc_user c \<noteq> u) (deviceChallenges (dm_delete_where quota_map (\<lambda>_ q. qr_user q = u) s5))\<rparr>"
    by (auto simp: delete_identity_records_def Let_def s1_def s2_def s3_def s4_def elim: seq_DoneE)
  have ok1: "store_ok s1" and ok2: "store_ok s2" using ok by (simp_all add: s1_def s2_def auth_tm.dm_delete_where_ok)
  then have ok3: "store_ok s3" by (simp add: s3_def device_tm.dm_delete_where_ok)
  then have ok4: "store_ok s4" by (simp add: s4_def key_package_tm.dm_delete_where_ok)
  have "store_ok (state_of (remove_consumed_key_package_owner_fields u s4))"
    unfolding remove_consumed_key_package_owner_fields_def
    by (rule for_each_state_inv [where P = store_ok]) (auto simp: ok4 consumed_tm.dm_set_ok)
  then have ok5: "store_ok s5" by (simp add: 5)
  have plain: "store_data (t\<lparr>deviceSessions := m\<rparr>) = (store_data t)\<lparr>deviceSessions := m\<rparr>"
    "store_data (t\<lparr>deviceChallenges := n\<rparr>) = (store_data t)\<lparr>deviceChallenges := n\<rparr>" for t m n
    by (simp_all add: store_data_def)
  note d1 = auth_tm.dm_delete_where_data [OF ok, of "\<lambda>_ a. session_user_of a = u", folded s1_def]
  have d2: "store_data s2 = (store_data s1)\<lparr>deviceSessions := jwhere (\<lambda>_ x. ds_user x \<noteq> u) (deviceSessions s1)\<rparr>"
    by (simp add: s2_def plain)
  note d3 = device_tm.dm_delete_where_data [OF ok2, of "\<lambda>_ d. d_user d = u", folded s3_def]
  note d4 = key_package_tm.dm_delete_where_data [OF ok3, of "\<lambda>_ k. k_user k = u", folded s4_def]
  note d5 = consumed_data [OF 5]
  note d6 = quota_tm.dm_delete_where_data [OF ok5, of "\<lambda>_ q. qr_user q = u"]
  have "store_data s' = (store_data s)\<lparr>authSessions := jwhere (\<lambda>_ a. session_user_of a \<noteq> u) (authSessions s),
      deviceSessions := jwhere (\<lambda>_ x. ds_user x \<noteq> u) (deviceSessions s), devices := jwhere (\<lambda>_ d. d_user d \<noteq> u) (devices s),
      keyPackages := jwhere (\<lambda>_ k. k_user k \<noteq> u) (keyPackages s),
      consumedKeyPackages := rewrite_where (\<lambda>_ c. ck_user c = Some u) deattributed (consumedKeyPackages s) (consumedKeyPackages s),
      accountQuotaRecords := jwhere (\<lambda>_ q. qr_user q \<noteq> u) (accountQuotaRecords s),
      deviceChallenges := jwhere (\<lambda>_ c. dc_user c \<noteq> u) (deviceChallenges s)\<rparr>"
    by (simp add: s' plain d6 fields_by_data [OF d6] d5 fields_by_data [OF d5] d4 fields_by_data [OF d4] d3 fields_by_data [OF d3]
        d2 fields_by_data [OF d2] d1 fields_by_data [OF d1])
  moreover have "store_ok s'" by (simp add: s' quota_tm.dm_delete_where_ok ok5)
  ultimately show ?thesis by simp
qed

lemma artifacts_data:
  assumes ok: "store_ok s" and gone_def: "gone = removed_invite_ids u s"
  shows "store_data (delete_account_invite_artifacts u s) = (store_data s)\<lparr>invites := jwhere (\<lambda>_ i. \<not> removes_invite u i) (invites s),
      inviteRequests := jwhere (\<lambda>_ q. \<not> (q_user q = u \<or> List.member gone (q_invite q))) (inviteRequests s),
      inviteResponses := jwhere (\<lambda>_ r. \<not> (s_user r = u \<or> b_host_user (s_binding r) = u \<or> List.member gone (s_invite r))) (inviteResponses s),
      inviteAckReceipts := jwhere (\<lambda>_ r. \<not> (ar_user r = u \<or> List.member gone (ar_invite r))) (inviteAckReceipts s)\<rparr>"
proof -
  define s1 where "s1 = dm_delete_where invite_map (\<lambda>_ i. removes_invite u i) s"
  define s2 where "s2 = dm_delete_where request_map (\<lambda>_ q. q_user q = u \<or> List.member gone (q_invite q)) s1"
  define s3 where "s3 = dm_delete_where response_map (\<lambda>_ r. s_user r = u \<or> b_host_user (s_binding r) = u \<or> List.member gone (s_invite r)) s2"
  have ok1: "store_ok s1" using ok by (simp add: s1_def invite_tm.dm_delete_where_ok)
  then have ok2: "store_ok s2" by (simp add: s2_def request_tm.dm_delete_where_ok)
  then have ok3: "store_ok s3" by (simp add: s3_def response_tm.dm_delete_where_ok)
  note d1 = invite_tm.dm_delete_where_data [OF ok, of "\<lambda>_ i. removes_invite u i", folded s1_def]
  note d2 = request_tm.dm_delete_where_data [OF ok1, of "\<lambda>_ q. q_user q = u \<or> List.member gone (q_invite q)", folded s2_def, simplified]
  note d3 = response_tm.dm_delete_where_data [OF ok2, of "\<lambda>_ r. s_user r = u \<or> b_host_user (s_binding r) = u \<or> List.member gone (s_invite r)", folded s3_def, simplified]
  note d4 = ack_tm.dm_delete_where_data [OF ok3, of "\<lambda>_ r. ar_user r = u \<or> List.member gone (ar_invite r)", simplified]
  have "delete_account_invite_artifacts u s = dm_delete_where ack_map (\<lambda>_ r. ar_user r = u \<or> List.member gone (ar_invite r)) s3"
    by (simp add: delete_account_invite_artifacts_def Let_def s1_def s2_def s3_def flip: gone_def)
  then show ?thesis
    by (simp add: d4 fields_by_data [OF d4] d3 fields_by_data [OF d3] d2 fields_by_data [OF d2] d1 fields_by_data [OF d1])
qed

lemma delete_membership_ok: "store_ok s \<Longrightarrow> jwf ms \<Longrightarrow> store_ok (state_of (delete_membership u (t, ms) s))"
  by (auto simp: delete_membership_def set_team_def team_tm.dm_set_ok set_team_members_ok
      intro!: seq_state_inv [where P = store_ok] split: option.split)

lemma erase_team_fields:
  assumes "erase team_map s' = d"
  shows "authSessions s' = authSessions d" "deviceSessions s' = deviceSessions d" "devices s' = devices d" "keyPackages s' = keyPackages d"
    "consumedKeyPackages s' = consumedKeyPackages d" "accountQuotaRecords s' = accountQuotaRecords d" "deviceChallenges s' = deviceChallenges d"
    "teamMembers s' = teamMembers d" "rooms s' = rooms d" "invites s' = invites d" "inviteRequests s' = inviteRequests d"
    "inviteResponses s' = inviteResponses d" "inviteAckReceipts s' = inviteAckReceipts d" "mlsBacklog s' = mlsBacklog d"
    "acceptedMessageReceipts s' = acceptedMessageReceipts d" "attachmentBlobs s' = attachmentBlobs d" "accountRestrictions s' = accountRestrictions d"
  by (simp_all add: erase_def store_data_def flip: assms)

lemma erase_team_same [simp]:
  "authSessions (erase team_map d) = authSessions d" "deviceSessions (erase team_map d) = deviceSessions d"
  "devices (erase team_map d) = devices d" "keyPackages (erase team_map d) = keyPackages d"
  "consumedKeyPackages (erase team_map d) = consumedKeyPackages d" "accountQuotaRecords (erase team_map d) = accountQuotaRecords d"
  "deviceChallenges (erase team_map d) = deviceChallenges d" "teamMembers (erase team_map d) = teamMembers d"
  "rooms (erase team_map d) = rooms d" "invites (erase team_map d) = invites d" "inviteRequests (erase team_map d) = inviteRequests d"
  "inviteResponses (erase team_map d) = inviteResponses d" "inviteAckReceipts (erase team_map d) = inviteAckReceipts d"
  "mlsBacklog (erase team_map d) = mlsBacklog d" "acceptedMessageReceipts (erase team_map d) = acceptedMessageReceipts d"
  "attachmentBlobs (erase team_map d) = attachmentBlobs d" "accountRestrictions (erase team_map d) = accountRestrictions d"
  by (rule erase_team_fields [OF refl, symmetric])+

lemma deleted_account_data:
  assumes ok: "store_ok s" and keyed: "rooms_keyed s" and run: "delete_account_owned_relay_data u s = Done s'"
  shows "account_gone u s s'"
proof -
  from run obtain s1 s2 s3 where 1: "delete_identity_records u s = Done s1"
    and 2: "for_each (delete_membership u) (teamMembers s1) s1 = Done s2"
    and 3: "for_each (scrub_room u) (jvalues (rooms s2)) s2 = Done s3" and s': "s' = delete_account_invite_artifacts u s3"
    by (auto simp: delete_account_owned_relay_data_def elim!: seq_DoneE)
  from identity_data [OF ok 1] have ok1: "store_ok s1" by simp
  note f1 = fields_by_data [OF conjunct2 [OF identity_data [OF ok 1]], simplified]
  have wf1: "jwf (teamMembers s1)" "\<And>t ms. (t, ms) \<in> set (teamMembers s1) \<Longrightarrow> jwf ms"
    using ok1 by (auto simp: store_ok_def store_wf_def list_all_iff)
  have "store_ok (state_of (for_each (delete_membership u) (teamMembers s1) s1))"
    by (rule for_each_state_inv [where P = store_ok]) (use ok1 wf1(2) delete_membership_ok in force)+
  then have ok2: "store_ok s2" by (simp add: 2)
  note f2 = erase_team_fields [OF memberships_erase [OF 2], simplified]
  have keyed2: "rooms_keyed s2" using keyed f1 f2 by (simp add: rooms_keyed_def erase_def team_map_def)
  have "store_ok (state_of (for_each (scrub_room u) (jvalues (rooms s2)) s2))"
    by (rule for_each_state_inv [where P = store_ok]) (auto simp: ok2 scrub_room_def set_room_def room_tm.dm_set_ok)
  then have ok3: "store_ok s3" by (simp add: 3)
  note d3 = scrub_data [OF 3 keyed2]
  note f3 = fields_by_data [OF d3, simplified]
  have gone: "removed_invite_ids u s = removed_invite_ids u s3"
    using f1 f2 f3 by (simp add: removed_invite_ids_def erase_def team_map_def)
  note f4 = fields_by_data [OF artifacts_data [OF ok3 gone, folded s'], simplified]
  have wf: "jwf (consumedKeyPackages s)" "jwf (rooms s2)" using ok ok2 by (simp_all add: store_ok_def store_wf_def)
  have same: "teamMembers s1 = teamMembers s" using f1 by simp
  have "teamMembers s' = teamMembers s2" using f3 f4 by simp
  also have "\<dots> = rewrite_where (\<lambda>_ ms. jhas ms u) (\<lambda>_. jdel u) (teamMembers s) (teamMembers s)" using f2 same by simp
  finally have "jget (teamMembers s') t = map_option (\<lambda>ms. if jhas ms u then jdel u ms else ms) (jget (teamMembers s) t)" for t
    using wf1(1) same jget_rewrite [of "teamMembers s"] by simp
  then have members: "members_of s' t = map_option (jdel u) (members_of s t)" for t
    by (cases "jget (teamMembers s) t") (auto simp: members_of_def jhas_def jdel_absent)
  have "rooms s' = rewrite_where (\<lambda>_ r. stamp_set (r_deleted r) \<and> r_host_user r = Some u) (\<lambda>_. deleted_user_room) (rooms s) (rooms s)"
    using f1 f2 f3 f4 by simp
  then have rooms: "jget (rooms s') k = map_option (\<lambda>r. if stamp_set (r_deleted r) \<and> r_host_user r = Some u then deleted_user_room r else r) (jget (rooms s) k)" for k
    using wf(2) f1 f2 jget_rewrite [of "rooms s"] by simp
  have "consumedKeyPackages s' = rewrite_where (\<lambda>_ c. ck_user c = Some u) deattributed (consumedKeyPackages s) (consumedKeyPackages s)"
    using f1 f2 f3 f4 by simp
  then have consumed: "jget (consumedKeyPackages s') h = map_option (\<lambda>c. if ck_user c = Some u then deattributed h c else c) (jget (consumedKeyPackages s) h)" for h
    using wf(1) by (simp add: jget_rewrite)
  show ?thesis
    unfolding account_gone_def
    by (intro conjI allI; (rule members | rule rooms | rule consumed | simp add: f1 f2 f3 f4 gone))
qed

lemma account_gone_log: "account_gone u s (discard_durable_mutations x) = account_gone u s x"
  by (simp add: account_gone_def members_of_def discard_durable_mutations_def)

section \<open>The route\<close>

lemma sort_key_Nil [simp]: "sort_key f xs = [] \<longleftrightarrow> xs = []"
  by (metis length_0_conv length_sort)

lemma blockers_gone:
  assumes "\<not> has_account_deletion_blockers (find_account_deletion_blockers collate s u)" 
  shows "jget (rooms s) k = Some r \<Longrightarrow> \<not> stamp_set (r_deleted r) \<Longrightarrow> r_host_user r \<noteq> Some u"
    and "jget (teams s) t = Some x \<Longrightarrow> \<not> stamp_set (t_deleted x) \<Longrightarrow> members_of s t = Some ms \<Longrightarrow> map_option m_role (jget ms u) \<noteq> Some Owner"
proof -
  let ?b = "find_account_deletion_blockers collate s u"
  have none: "filter (\<lambda>r. \<not> stamp_set (r_deleted r) \<and> r_host_user r = Some u) (jvalues (rooms s)) = []"
    using assms(1) by (simp add: has_account_deletion_blockers_def find_account_deletion_blockers_def Let_def)
  show "jget (rooms s) k = Some r \<Longrightarrow> \<not> stamp_set (r_deleted r) \<Longrightarrow> r_host_user r \<noteq> Some u"
    using none by (force simp: filter_empty_conv jvalues_def dest!: jget_mem)
  assume t: "jget (teams s) t = Some x" "\<not> stamp_set (t_deleted x)" and "members_of s t = Some ms"
  then have mem: "(t, ms) \<in> set (teamMembers s)" by (auto simp: members_of_def dest: jget_mem)
  show "map_option m_role (jget ms u) \<noteq> Some Owner"
  proof
    assume "map_option m_role (jget ms u) = Some Owner"
    with t mem have "(t_id x, t_name x) \<in> set (bl_owned_teams ?b)"
      by (force simp: find_account_deletion_blockers_def Let_def List.map_filter_def image_iff)
    then show False using assms(1) by (auto simp: has_account_deletion_blockers_def)
  qed
qed

lemma user_sockets_fold:
  "lv_store (fold (\<lambda>k l. case registered l k of None \<Rightarrow> l | Some cs \<Rightarrow>
      if map_option session_user_of (cs_auth cs) = Some u \<or> cs_user cs = Some u then close_socket k 1008 l else l) ks l) = lv_store l
   \<and> lv_sessions (fold (\<lambda>k l. case registered l k of None \<Rightarrow> l | Some cs \<Rightarrow>
      if map_option session_user_of (cs_auth cs) = Some u \<or> cs_user cs = Some u then close_socket k 1008 l else l) ks l) = lv_sessions l
   \<and> set (lv_open (fold (\<lambda>k l. case registered l k of None \<Rightarrow> l | Some cs \<Rightarrow>
      if map_option session_user_of (cs_auth cs) = Some u \<or> cs_user cs = Some u then close_socket k 1008 l else l) ks l))
     = {k \<in> set (lv_open l). \<not> (k \<in> set ks \<and> (\<exists>cs. registered l k = Some cs \<and> (map_option session_user_of (cs_auth cs) = Some u \<or> cs_user cs = Some u)))}"
proof (induction ks arbitrary: l)
  case (Cons k ks)
  let ?l = "case registered l k of None \<Rightarrow> l | Some cs \<Rightarrow>
      if map_option session_user_of (cs_auth cs) = Some u \<or> cs_user cs = Some u then close_socket k 1008 l else l"
  have same: "lv_store ?l = lv_store l" "lv_sessions ?l = lv_sessions l"
    by (simp_all add: close_socket_def split: option.split)
  then have reg: "registered ?l j = registered l j" for j by (simp add: registered_def)
  have "set (lv_open ?l) = {j \<in> set (lv_open l). \<not> (j = k \<and> (\<exists>cs. registered l k = Some cs
      \<and> (map_option session_user_of (cs_auth cs) = Some u \<or> cs_user cs = Some u)))}"
    by (auto simp: close_socket_def split: option.split)
  with Cons.IH [of ?l] same reg show ?case by auto
qed simp

lemma close_user_sockets:
  "lv_store (close_user_sockets u l) = lv_store l"
  "registered (close_user_sockets u l) k = Some cs \<Longrightarrow> map_option session_user_of (cs_auth cs) = Some u \<or> cs_user cs = Some u
    \<Longrightarrow> k \<notin> set (lv_open (close_user_sockets u l))"
proof -
  note fold = user_sockets_fold [of u "sockets_registered l" l, folded close_user_sockets_def]
  then show "lv_store (close_user_sockets u l) = lv_store l" by simp
  assume cs: "registered (close_user_sockets u l) k = Some cs" "map_option session_user_of (cs_auth cs) = Some u \<or> cs_user cs = Some u"
  then have "registered l k = Some cs" using fold by (simp add: registered_def)
  moreover from this have "k \<in> set (sockets_registered l)"
    by (force simp: registered_def sockets_registered_def split: option.splits if_splits dest!: jget_mem)
  ultimately show "k \<notin> set (lv_open (close_user_sockets u l))" using fold cs(2) by blast
qed

lemma delete_account_turn_reply:
  assumes "delete_account_turn ac now ok a l = (Reply st summary, l')"
  obtains s l1 where "is_live_account_session (lv_store l) a now"
    and "\<not> has_account_deletion_blockers (find_account_deletion_blockers (ac_collate ac) (lv_store l) (session_user_of a))"
    and "delete_account_owned_relay_data (session_user_of a) (lv_store l) = Done s"
    and "lv_store l' = discard_durable_mutations s" and "l' = close_user_sockets (session_user_of a) l1"
proof -
  let ?u = "session_user_of a"
  obtain s where s: "delete_account_owned_relay_data ?u (lv_store l) = Done s" and ok
    using assms by (cases "delete_account_owned_relay_data ?u (lv_store l)"; cases ok)
      (auto simp: delete_account_turn_def delete_account_atomically_def Let_def on_store_def save_now_cases split: if_splits)
  have "lv_store (fold (\<lambda>t. revoke_team_member_sessions (ac_env ac) now t ?u) ts l1) = lv_store l1" for ts l1
    by (induction ts arbitrary: l1) simp_all
  with assms s \<open>ok\<close> show ?thesis
    by (intro that [of s]) (auto simp: delete_account_turn_def delete_account_atomically_def Let_def on_store_def save_now_cases close_user_sockets(1) split: if_splits)
qed


end
