(* ===== verification/Restrictions.thy ===== *)
theory Restrictions
  imports Auth_Sessions
begin

text \<open>
  The operator's restrictions of accounts (apps/relay/src/auth/account-restrictions.ts): a restriction
  is stored and saved before the account is evicted, and taken back when it cannot be saved.
\<close>

definition is_reason_char :: "char \<Rightarrow> bool" where
  "is_reason_char c = (let n = of_char c :: nat in (97 \<le> n \<and> n \<le> 122) \<or> (48 \<le> n \<and> n \<le> 57) \<or> n = 95)"

text \<open>\<open>validateAccountRestriction\<close>, as a test.\<close>

definition valid_account_restriction :: "int \<Rightarrow> restriction \<Rightarrow> bool" where
  "valid_account_restriction now r \<longleftrightarrow>
     re_user r \<noteq> [] \<and> re_user r = js_trim (re_user r) \<and> length (re_user r) \<le> 512 \<and> \<not> has_control (re_user r)
     \<and> 1 \<le> length (re_reason r) \<and> length (re_reason r) \<le> 64 \<and> list_all is_reason_char (re_reason r)
     \<and> date_parse (re_created r) \<noteq> None
     \<and> (case re_expires r of None \<Rightarrow> True
        | Some e \<Rightarrow> \<not> stamp_set (Some e) \<or> (date_parse e \<noteq> None \<and> \<not> stamp_le e now))"

text \<open>\<open>evictAccount\<close>: its sessions, device sessions and challenges go, and its sockets are revoked.\<close>

definition evict_account_records :: "string \<Rightarrow> relay_store \<Rightarrow> relay_store" where
  "evict_account_records u s =
     (let s1 = dm_delete_where auth_map (\<lambda>_ a. session_user_of a = u) s
      in s1\<lparr>deviceSessions := jwhere (\<lambda>_ x. ds_user x \<noteq> u) (deviceSessions s1),
            deviceChallenges := jwhere (\<lambda>_ c. dc_user c \<noteq> u) (deviceChallenges s1)\<rparr>)"

definition restricted_text :: string where
  "restricted_text = ''This account is restricted by the relay operator.''"

definition evict_account :: "env \<Rightarrow> int \<Rightarrow> string \<Rightarrow> live \<Rightarrow> live" where
  "evict_account e now u l = revoke_user_sessions e now u restricted_text (put_store (evict_account_records u) l)"

text \<open>
  \<open>restrictAccount\<close>: nothing for an invalid restriction; a failed first save is undone and thrown, a
  failed second one is thrown after the eviction.
\<close>

definition restrict_account :: "env \<Rightarrow> int \<Rightarrow> bool \<Rightarrow> bool \<Rightarrow> restriction \<Rightarrow> live \<Rightarrow> (live_error, live) outcome option" where
  "restrict_account e now ok1 ok2 r l =
     (if \<not> valid_account_restriction now r then None
      else
        let previous = jget (accountRestrictions (lv_store l)) (re_user r) in
        Some (seq (on_store (dm_set restriction_map (re_user r) r) l) (\<lambda>l1.
          case save_now ok1 l1 of
            Throws x l2 \<Rightarrow>
              seq (on_store (\<lambda>s. case previous of Some p \<Rightarrow> dm_set restriction_map (re_user r) p s
                                 | None \<Rightarrow> Done (dm_delete restriction_map (re_user r) s)) l2) (\<lambda>l3. Throws x l3)
          | Done l2 \<Rightarrow> save_now ok2 (evict_account e now (re_user r) l2))))"

definition unrestrict_account :: "bool \<Rightarrow> string \<Rightarrow> live \<Rightarrow> bool \<times> (live_error, live) outcome" where
  "unrestrict_account ok u l =
     (case jget (accountRestrictions (lv_store l)) u of
        None \<Rightarrow> (False, Done l)
      | Some p \<Rightarrow>
          (True, case save_now ok (put_store (dm_delete restriction_map u) l) of
             Done l1 \<Rightarrow> Done l1
           | Throws x l1 \<Rightarrow> seq (on_store (dm_set restriction_map u p) l1) (\<lambda>l2. Throws x l2)))"

text \<open>\<open>evictRestrictedAccounts\<close>, when the relay starts.\<close>

definition evict_restricted_accounts :: "env \<Rightarrow> int \<Rightarrow> live \<Rightarrow> live" where
  "evict_restricted_accounts e now l =
     fold (\<lambda>(u, r) l.
         if (case re_expires r of None \<Rightarrow> False | Some x \<Rightarrow> stamp_set (Some x) \<and> stamp_le x now)
         then put_store (dm_delete restriction_map u) l else evict_account e now u l)
       (accountRestrictions (lv_store l)) l"

end
