(* ===== verification/Restriction_Proofs.thy ===== *)
theory Restriction_Proofs
  imports Restrictions Auth_Session_Proofs
begin

text \<open>
  A restricted account is locked out at once: its sessions are gone, its sockets are closed, and no
  sign-in succeeds while the restriction lasts.
\<close>

lemma restricted_sign_in:
  "is_account_restricted (lv_store l) (u_id user) t \<Longrightarrow> issue_verified_session ac t ok i user l = (Http_error 403 H_account_restricted, l)"
  by (simp add: issue_verified_session_def)

lemma indexes_ok_store [simp]: "indexes_ok (l\<lparr>lv_store := s\<rparr>) = indexes_ok l"
  by (rule indexes_ok_cong) simp_all

lemma registered_store [simp]: "registered (l\<lparr>lv_store := s\<rparr>) k = registered l k"
  by (rule registered_cong) simp

lemma listens_store [simp]: "listens (l\<lparr>lv_store := s\<rparr>) k = listens l k"
  by (rule listens_cong) simp_all

lemma revoke_user_sessions_store [simp]: "lv_store (revoke_user_sessions e now u text l) = lv_store l"
proof -
  have "lv_store (revoke_user_session e now u text k m) = lv_store m" for k m
    by (simp add: revoke_user_session_def close_socket_def split: option.split)
  then show ?thesis unfolding revoke_user_sessions_def by (simp add: fold_inv [where f = lv_store])
qed

lemma evict_account_records_data:
  assumes "store_ok s"
  shows "store_data (evict_account_records u s) = (store_data s)\<lparr>authSessions := jwhere (\<lambda>_ a. session_user_of a \<noteq> u) (authSessions s),
      deviceSessions := jwhere (\<lambda>_ x. ds_user x \<noteq> u) (deviceSessions s),
      deviceChallenges := jwhere (\<lambda>_ c. dc_user c \<noteq> u) (deviceChallenges s)\<rparr>"
proof -
  note d = auth_tm.dm_delete_where_data [OF assms, of "\<lambda>_ a. session_user_of a = u"]
  have "store_data (t\<lparr>deviceSessions := m, deviceChallenges := n\<rparr>) = (store_data t)\<lparr>deviceSessions := m, deviceChallenges := n\<rparr>" for t m n
    by (simp add: store_data_def)
  then show ?thesis by (simp add: evict_account_records_def Let_def d fields_by_data [OF d])
qed

lemma restrict_account_done:
  assumes "restrict_account e now ok1 ok2 r l = Some (Done l')"
  obtains s where "valid_account_restriction now r" and "dm_set restriction_map (re_user r) r (lv_store l) = Done s"
    and "l' = put_store discard_durable_mutations (evict_account e now (re_user r) (l\<lparr>lv_store := discard_durable_mutations s\<rparr>))"
proof -
  let ?set = "dm_set restriction_map (re_user r) r (lv_store l)"
  have valid: "valid_account_restriction now r" using assms by (simp add: restrict_account_def split: if_splits)
  obtain s where s: "?set = Done s" using assms valid by (cases ?set) (auto simp: restrict_account_def on_store_def)
  have ok1 using assms valid s
    by (cases ok1) (auto simp: restrict_account_def Let_def on_store_def save_now_cases elim!: seq_DoneE split: option.splits)
  with assms valid s have "l' = put_store discard_durable_mutations (evict_account e now (re_user r) (l\<lparr>lv_store := discard_durable_mutations s\<rparr>))"
    by (auto simp: restrict_account_def Let_def on_store_def save_now_cases put_store_def split: if_splits)
  with that valid s show ?thesis by blast
qed

text \<open>
  C40: Once the operator has restricted an account, the restriction is stored; the account's sessions,
  device sessions and challenges are gone and nobody else's are; as long as the restriction lasts every
  sign-in of the account is refused and changes nothing; its sockets are unregistered, closed and silent,
  and the sockets of the others are as before.
\<close>

theorem restricted_account_is_locked_out:
  assumes ok: "store_ok (lv_store l)" and idx: "indexes_ok l"
    and run: "restrict_account e now ok1 ok2 r l = Some (Done l')"
  shows "jget (accountRestrictions (lv_store l')) (re_user r) = Some r
    \<and> authSessions (lv_store l') = jwhere (\<lambda>_ a. session_user_of a \<noteq> re_user r) (authSessions (lv_store l))
    \<and> deviceSessions (lv_store l') = jwhere (\<lambda>_ x. ds_user x \<noteq> re_user r) (deviceSessions (lv_store l))
    \<and> deviceChallenges (lv_store l') = jwhere (\<lambda>_ c. dc_user c \<noteq> re_user r) (deviceChallenges (lv_store l))
    \<and> (\<forall>t ac i user sok. (case re_expires r of None \<Rightarrow> True | Some x \<Rightarrow> stamp_gt x t) \<and> u_id user = re_user r
        \<longrightarrow> issue_verified_session ac t sok i user l' = (Http_error 403 H_account_restricted, l'))
    \<and> (\<forall>k cs. registered l k = Some cs \<longrightarrow>
        (if session_is_users (re_user r) cs then registered l' k = None \<and> k \<notin> set (lv_open l') \<and> \<not> listens l' k
         else registered l' k = Some cs \<and> (k \<in> set (lv_open l') \<longleftrightarrow> k \<in> set (lv_open l)) \<and> (listens l' k \<longleftrightarrow> listens l k)))"
proof -
  let ?u = "re_user r"
  from restrict_account_done [OF run] obtain s where set: "dm_set restriction_map ?u r (lv_store l) = Done s"
    and l': "l' = put_store discard_durable_mutations (evict_account e now ?u (l\<lparr>lv_store := discard_durable_mutations s\<rparr>))" by blast
  let ?l = "l\<lparr>lv_store := evict_account_records ?u (discard_durable_mutations s)\<rparr>"
  have ok_s: "store_ok (discard_durable_mutations s)"
    using restriction_tm.dm_set_done [OF ok set] by (simp add: store_ok_def discard_durable_mutations_def)
  have store: "lv_store l' = discard_durable_mutations (evict_account_records ?u (discard_durable_mutations s))"
    by (simp add: l' put_store_def evict_account_def)
  note f1 = fields_by_data [OF restriction_tm.dm_set_data [OF set]]
  note f2 = fields_by_data [OF evict_account_records_data [OF ok_s, of ?u]]
  have r: "jget (accountRestrictions (lv_store l')) ?u = Some r"
    using f1 f2 by (simp add: store discard_durable_mutations_def restriction_map_def)
  moreover have "issue_verified_session ac t sok i user l' = (Http_error 403 H_account_restricted, l')"
    if "(case re_expires r of None \<Rightarrow> True | Some x \<Rightarrow> stamp_gt x t) \<and> u_id user = ?u" for t ac i user sok
    using that r by (intro restricted_sign_in) (auto simp: is_account_restricted_def split: option.splits)
  moreover have "authSessions (lv_store l') = jwhere (\<lambda>_ a. session_user_of a \<noteq> ?u) (authSessions (lv_store l))"
    "deviceSessions (lv_store l') = jwhere (\<lambda>_ x. ds_user x \<noteq> ?u) (deviceSessions (lv_store l))"
    "deviceChallenges (lv_store l') = jwhere (\<lambda>_ c. dc_user c \<noteq> ?u) (deviceChallenges (lv_store l))"
    using f1 f2 by (simp_all add: store discard_durable_mutations_def restriction_map_def)
  moreover have "if session_is_users ?u cs then registered l' k = None \<and> k \<notin> set (lv_open l') \<and> \<not> listens l' k
      else registered l' k = Some cs \<and> (k \<in> set (lv_open l') \<longleftrightarrow> k \<in> set (lv_open l)) \<and> (listens l' k \<longleftrightarrow> listens l k)"
    if "registered l k = Some cs" for k cs
    using revoked_user_hears_nothing [of ?l k cs e now ?u restricted_text] that idx
    by (simp add: l' put_store_def evict_account_def)
  ultimately show ?thesis by (intro conjI allI impI)
qed

end
