(* ===== verification/Account_Witnesses.thy ===== *)
theory Account_Witnesses
  imports Account_Proofs Restriction_Proofs Live_Witnesses
begin

text \<open>
  Ann signs in again where one session per account is allowed: her old session and its socket go. Bob, a
  member who hosts nothing, deletes his account; Ann, who owns the team, cannot. An operator's restriction locks Ann out.
\<close>

definition acc_config :: auth_config where
  "acc_config = \<lparr>ac_env = live_env, ac_max_age = 1000, ac_session_cap = 1, ac_collate = length, ac_github = (\<lambda>_. (200, J_null))\<rparr>"

definition ann_user :: session_user where
  "ann_user = \<lparr>u_id = ''ann'', u_login = ''ann'', u_name = None, u_avatar = None\<rparr>"

definition signed_in_again :: "session_user reply \<times> live" where
  "signed_in_again = issue_verified_session acc_config 5 True ''new'' ann_user joined_live"

lemma signed_in_reply: "fst signed_in_again = Reply 200 ann_user"
  by code_simp

lemma sign_in_respects_the_cap_witness:
  "jget (authSessions (lv_store (snd signed_in_again))) ''new'' = Some \<lparr>as_hash = ''new'', as_user = ann_user, as_expires = 1005\<rparr>
    \<and> jget (authSessions (lv_store (snd signed_in_again))) ''ann'' = None \<and> 1 \<notin> set (lv_open (snd signed_in_again))"
proof -
  have ok: "store_ok (lv_store joined_live)" by (simp add: joined_live_def fresh_live_def auth_store_ok)
  have run: "issue_verified_session acc_config 5 True ''new'' ann_user joined_live = (Reply 200 ann_user, snd signed_in_again)"
    using signed_in_reply by (simp add: signed_in_again_def prod_eq_iff)
  have hash: "hash_auth_session_id (ac_env acc_config) ''new'' = ''new''" by code_simp
  have fresh: "jget (authSessions (lv_store joined_live)) ''new'' = None" by code_simp
  have gone: "jget (authSessions (lv_store joined_live)) ''ann'' = Some (sample_auth ''ann'')"
    "jget (authSessions (lv_store (snd signed_in_again))) ''ann'' = None" "session_auth joined_live 1 = Some (sample_auth ''ann'')"
    by code_simp+
  note new = sign_in_respects_the_cap [OF ok run, unfolded hash, OF fresh]
  have "1 \<notin> set (lv_open (snd signed_in_again))" using new gone by blast
  then show ?thesis using new gone(2) by (simp add: acc_config_def)
qed

definition two_accounts :: live where
  "two_accounts = (put_store (\<lambda>s. state_of (dm_set auth_map ''bob'' (sample_auth ''bob'') s)) joined_live)
     \<lparr>lv_open := [1, 2], lv_sessions := [(1, ann_session), (2, new_session 2 (Some (sample_auth ''bob'')) ''client2'')]\<rparr>"

definition bob_deleted :: "account_deletion_summary reply \<times> live" where
  "bob_deleted = delete_account acc_config 5 True (\<lambda>l. l) (Some (sample_auth ''bob''))
     (J_obj [(''confirmation'', J_str account_deletion_confirmation)]) two_accounts"

lemma bob_deleted_reply:
  "fst bob_deleted = Reply 200 \<lparr>sm_auth_sessions = 1, sm_device_sessions = 0, sm_devices = 1, sm_key_packages = 0, sm_consumed = 0,
     sm_memberships = 1, sm_invite_artifacts = 0, sm_quotas = 0, sm_challenges = 0\<rparr>"
  by code_simp

lemma owner_cannot_leave:
  "fst (delete_account acc_config 5 True (\<lambda>l. l) (Some (sample_auth ''ann''))
     (J_obj [(''confirmation'', J_str account_deletion_confirmation)]) two_accounts) = Http_error 409 H_account_deletion_blocked"
  by code_simp


definition ann_restriction :: restriction where
  "ann_restriction = \<lparr>re_user = ''ann'', re_reason = ''abuse'', re_created = Iso 0, re_expires = Some (Iso 1000)\<rparr>"

definition ann_restricted :: "(live_error, live) outcome option" where
  "ann_restricted = restrict_account live_env 5 True True ann_restriction joined_live"

definition ann_restricted_live :: live where
  "ann_restricted_live = (case ann_restricted of Some (Done l) \<Rightarrow> l | _ \<Rightarrow> joined_live)"

lemma ann_restricted_done: "ann_restricted = Some (Done ann_restricted_live)"
proof -
  have "case ann_restricted of Some (Done l) \<Rightarrow> True | _ \<Rightarrow> False" by code_simp
  then obtain l where l: "ann_restricted = Some (Done l)" by (auto split: option.splits outcome.splits)
  show ?thesis by (simp only: ann_restricted_live_def l option.case outcome.case)
qed

lemma restricted_account_is_locked_out_witness:
  "issue_verified_session acc_config 999 True ''again'' ann_user ann_restricted_live = (Http_error 403 H_account_restricted, ann_restricted_live)
    \<and> authSessions (lv_store ann_restricted_live) = [] \<and> registered ann_restricted_live 1 = None \<and> \<not> listens ann_restricted_live 1"
proof -
  have ok: "store_ok (lv_store joined_live)" by (simp add: joined_live_def fresh_live_def auth_store_ok)
  have user: "session_is_users ''ann'' ann_session" by code_simp
  have ann: "re_user ann_restriction = ''ann''" "re_expires ann_restriction = Some (Iso 1000)" "u_id ann_user = ''ann''"
    by (simp_all add: ann_restriction_def ann_user_def)
  note out = restricted_account_is_locked_out [OF ok joined_indexes ann_restricted_done [unfolded ann_restricted_def], unfolded ann]
  have "jwhere (\<lambda>_ a. session_user_of a \<noteq> ''ann'') (authSessions (lv_store joined_live)) = []" by code_simp
  with out fresh_session_registered user show ?thesis by (auto simp: ann(3))
qed

end
