(* ===== verification/Schemas.thy ===== *)
theory Schemas
  imports Attachments Auth_Sessions Invite_Responses Restrictions
begin

text \<open>
  The schemas of the persisted records (packages/protocol/src/limits-ids.ts, identity.ts,
  room-team-records.ts, relay-messages.ts): what each refines of the record's type. The relay checks
  them when it reads the stored state back.
\<close>

section \<open>Identifiers and texts\<close>

definition team_id_ok :: "string \<Rightarrow> bool" where
  "team_id_ok s \<longleftrightarrow> 3 \<le> length s \<and> length s \<le> max_relay_id \<and> list_all is_id_char s"

definition text_within :: "int \<Rightarrow> string \<Rightarrow> bool" where
  "text_within n s \<longleftrightarrow> s \<noteq> [] \<and> int (length s) \<le> n"

definition user_id_ok :: "string \<Rightarrow> bool" where
  "user_id_ok s \<longleftrightarrow> s \<noteq> [] \<and> length s \<le> max_user_id"

definition device_id_ok :: "string \<Rightarrow> bool" where
  "device_id_ok s \<longleftrightarrow> 8 \<le> length s \<and> length s \<le> max_device_id"

definition envelope_id_ok :: "string \<Rightarrow> bool" where
  "envelope_id_ok s \<longleftrightarrow> s \<noteq> [] \<and> length s \<le> max_envelope_id"

definition datetime_ok :: "config \<Rightarrow> stamp \<Rightarrow> bool" where
  "datetime_ok cf t \<longleftrightarrow> cf_datetime cf (stamp_text t)"

abbreviation optional_ok :: "('a \<Rightarrow> bool) \<Rightarrow> 'a option \<Rightarrow> bool" where
  "optional_ok P x \<equiv> (case x of None \<Rightarrow> True | Some y \<Rightarrow> P y)"

text \<open>\<open>/^sha256:[a-f0-9]{4}(?::[a-f0-9]{4}){15}$/\<close>.\<close>

definition is_fingerprint :: "string \<Rightarrow> bool" where
  "is_fingerprint s \<longleftrightarrow> take 7 s = ''sha256:'' \<and> length s = 86
     \<and> list_all (\<lambda>(i, c). if i mod 5 = 4 then c = CHR '':'' else is_lower_hex c) (enumerate 0 (drop 7 s))"

text \<open>\<open>/^[0-9a-f]{64}$/\<close>.\<close>

definition is_hex_digest :: "string \<Rightarrow> bool" where
  "is_hex_digest s \<longleftrightarrow> length s = 64 \<and> list_all is_lower_hex s"

text \<open>\<open>/^(?:[A-Za-z0-9+/]{4})*(?:[A-Za-z0-9+/]{2}==|[A-Za-z0-9+/]{3}=)?$/\<close>.\<close>

fun padded_base64 :: "string \<Rightarrow> bool" where
  "padded_base64 [] = True"
| "padded_base64 (a # b # c # d # s) \<longleftrightarrow> b64_value a \<noteq> None \<and> b64_value b \<noteq> None
     \<and> (b64_value c \<noteq> None \<and> b64_value d \<noteq> None \<and> padded_base64 s
        \<or> s = [] \<and> d = CHR ''='' \<and> (b64_value c \<noteq> None \<or> c = CHR ''=''))"
| "padded_base64 _ = False"

section \<open>Records\<close>

definition team_schema :: "config \<Rightarrow> team \<Rightarrow> bool" where
  "team_schema cf x \<longleftrightarrow> team_id_ok (t_id x) \<and> text_within (int max_team_name) (t_name x)
     \<and> optional_ok (datetime_ok cf) (t_archived x) \<and> optional_ok (datetime_ok cf) (t_deleted x)"

definition member_schema :: "config \<Rightarrow> team_member \<Rightarrow> bool" where
  "member_schema cf m \<longleftrightarrow> team_id_ok (m_team m) \<and> user_id_ok (m_user m) \<and> datetime_ok cf (m_joined m)"

definition max_key_text :: int where "max_key_text = 4096"

definition device_schema :: "config \<Rightarrow> device \<Rightarrow> bool" where
  "device_schema cf d \<longleftrightarrow> user_id_ok (d_user d) \<and> device_id_ok (d_device d) \<and> text_within (int max_display_name) (d_display d)
     \<and> text_within max_key_text (d_sig_key d) \<and> is_fingerprint (d_sig_fp d)
     \<and> text_within max_key_text (d_hpke_key d) \<and> is_fingerprint (d_hpke_fp d)
     \<and> datetime_ok cf (d_registered d) \<and> datetime_ok cf (d_last_seen d)"

definition room_schema :: "config \<Rightarrow> room \<Rightarrow> bool" where
  "room_schema cf r \<longleftrightarrow> team_id_ok (r_id r) \<and> team_id_ok (r_team r) \<and> text_within (int max_room_name) (r_name r)
     \<and> text_within (int max_display_name) (r_host r) \<and> optional_ok user_id_ok (r_host_user r) \<and> optional_ok device_id_ok (r_host_device r)
     \<and> optional_ok (datetime_ok cf) (r_archived r) \<and> optional_ok (datetime_ok cf) (r_deleted r)
     \<and> (r_status r = Host_active \<longrightarrow> truthy (r_host_user r))"

definition invite_schema :: "config \<Rightarrow> invite \<Rightarrow> bool" where
  "invite_schema cf i \<longleftrightarrow> envelope_id_ok (i_id i) \<and> team_id_ok (i_team i) \<and> team_id_ok (i_room i)
     \<and> optional_ok user_id_ok (i_creator i) \<and> optional_ok user_id_ok (i_user i) \<and> optional_ok device_id_ok (i_device i)
     \<and> optional_ok is_hash_text (i_kp_hash i) \<and> datetime_ok cf (i_created i) \<and> optional_ok (datetime_ok cf) (i_expires i)"

definition request_schema :: "config \<Rightarrow> invite_request \<Rightarrow> bool" where
  "request_schema cf q \<longleftrightarrow> envelope_id_ok (q_id q) \<and> envelope_id_ok (q_invite q) \<and> user_id_ok (q_user q) \<and> device_id_ok (q_device q)
     \<and> envelope_id_ok (q_kp_id q) \<and> is_hash_text (q_kp_hash q) \<and> q_sealed q \<noteq> [] \<and> datetime_ok cf (q_created q)"

definition response_binding_schema :: "config \<Rightarrow> response_binding \<Rightarrow> bool" where
  "response_binding_schema cf b \<longleftrightarrow> envelope_id_ok (b_invite b) \<and> team_id_ok (b_team b) \<and> team_id_ok (b_room b)
     \<and> is_hash_text (b_kp_hash b) \<and> envelope_id_ok (b_request b) \<and> envelope_id_ok (b_nonce b)
     \<and> user_id_ok (b_user b) \<and> device_id_ok (b_device b) \<and> user_id_ok (b_host_user b) \<and> device_id_ok (b_host_device b)
     \<and> datetime_ok cf (b_expires b) \<and> datetime_ok cf (b_decided b)"

definition response_schema :: "config \<Rightarrow> invite_response \<Rightarrow> bool" where
  "response_schema cf r \<longleftrightarrow> envelope_id_ok (s_request r) \<and> envelope_id_ok (s_invite r) \<and> user_id_ok (s_user r) \<and> device_id_ok (s_device r)
     \<and> is_hash_text (s_kp_hash r) \<and> response_binding_schema cf (s_binding r) \<and> padded_base64 (s_mac r)
     \<and> optional_ok (\<lambda>w. w \<noteq> []) (s_welcome r) \<and> datetime_ok cf (s_created r)
     \<and> (s_status r = Approved) = truthy (s_welcome r)"

definition key_package_schema :: "config \<Rightarrow> key_package \<Rightarrow> bool" where
  "key_package_schema cf k \<longleftrightarrow> envelope_id_ok (k_id k) \<and> k_package k \<noteq> [] \<and> is_hash_text (k_hash k)
     \<and> user_id_ok (k_user k) \<and> device_id_ok (k_device k) \<and> k_identity k \<noteq> [] \<and> datetime_ok cf (k_created k)"

definition attachment_schema :: "config \<Rightarrow> attachment \<Rightarrow> bool" where
  "attachment_schema cf a \<longleftrightarrow> text_within (int max_relay_id) (a_id a) \<and> team_id_ok (a_team a) \<and> team_id_ok (a_room a)
     \<and> text_within (int max_blob_name) (a_name a) \<and> text_within (int max_blob_type) (a_type a)
     \<and> optional_ok user_id_ok (a_uploader a) \<and> a_sealed a \<noteq> [] \<and> datetime_ok cf (a_created a) \<and> optional_ok (datetime_ok cf) (a_expires a)"

definition message_base64 :: "string \<Rightarrow> bool" where
  "message_base64 s \<longleftrightarrow> 4 \<le> length s \<and> padded_base64 s"

definition host_transfer_schema :: "host_transfer \<Rightarrow> bool" where
  "host_transfer_schema h \<longleftrightarrow> envelope_id_ok (h_transfer h) \<and> team_id_ok (h_room h) \<and> is_hex_digest (h_commit h)
     \<and> user_id_ok (h_out_user h) \<and> device_id_ok (h_out_device h) \<and> user_id_ok (h_next_user h) \<and> device_id_ok (h_next_device h)
     \<and> message_base64 (h_signature h) \<and> message_base64 (h_public_key h)"

definition message_schema :: "config \<Rightarrow> mls_message \<Rightarrow> bool" where
  "message_schema cf m \<longleftrightarrow> envelope_id_ok (mm_id m) \<and> team_id_ok (mm_team m) \<and> team_id_ok (mm_room m)
     \<and> device_id_ok (mm_device m) \<and> user_id_ok (mm_user m) \<and> datetime_ok cf (mm_created m) \<and> message_base64 (mm_mls m)
     \<and> optional_ok user_id_ok (mm_next_user m) \<and> optional_ok device_id_ok (mm_next_device m)
     \<and> optional_ok host_transfer_schema (mm_transfer m)
     \<and> mm_handoff m = (truthy (mm_next_user m) \<and> truthy (mm_next_device m) \<and> mm_transfer m \<noteq> None)
     \<and> (mm_handoff m \<longrightarrow> mm_type m = Commit)"

end
