(* ===== verification/Restore.thy ===== *)
theory Restore
  imports Schemas
begin

text \<open>
  Reading the stored state back when the relay starts (apps/relay/src/store-codec.ts and
  store-codec-normalizers.ts): each row is checked against its schema, its limits and the rows it
  refers to; a critical row that fails refuses the start, another one is dropped. The value of a row
  is the record it is the text of.
\<close>

record restore_config =
  rs_cf :: config
  rs_offset :: "string \<Rightarrow> bool"
  rs_blob_max :: nat

abbreviation rs_mls :: "restore_config \<Rightarrow> mls_options" where
  "rs_mls rc \<equiv> en_mls (cf_env (rs_cf rc))"

definition offset_datetime_ok :: "restore_config \<Rightarrow> stamp \<Rightarrow> bool" where
  "offset_datetime_ok rc t \<longleftrightarrow> rs_offset rc (stamp_text t)"

section \<open>Normalizers (store-codec-normalizers.ts)\<close>

definition normalize_team :: "restore_config \<Rightarrow> team \<Rightarrow> team option" where
  "normalize_team rc x = (if team_schema (rs_cf rc) x then Some x else None)"

definition normalize_device :: "restore_config \<Rightarrow> device \<Rightarrow> device option" where
  "normalize_device rc d =
     (let cf = rs_cf rc in
      if \<not> device_schema cf d then None
      else if \<not> valid_p256_spki cf (d_sig_key d) \<or> \<not> valid_p256_hpke_key cf (d_hpke_key d)
        \<or> d_sig_fp d \<noteq> fingerprint_public_key (cf_env cf) (d_sig_key d)
        \<or> d_hpke_fp d \<noteq> fingerprint_public_key (cf_env cf) (d_hpke_key d)
      then None else Some d)"

definition normalize_room :: "restore_config \<Rightarrow> relay_store \<Rightarrow> room \<Rightarrow> room option" where
  "normalize_room rc s r =
     (if \<not> room_schema (rs_cf rc) r \<or> \<not> jhas (teams s) (r_team r) then None
      else if r_status r = Host_active \<and> (\<not> truthy (r_host_user r) \<or> \<not> truthy (r_host_device r) \<or> r_epoch r = None) then None
      else if r_status r = Host_offline \<and> truthy (r_host_device r) then None
      else Some r)"

text \<open>\<open>addStoredMember\<close> over the members of a row.\<close>

fun stored_members :: "config \<Rightarrow> string \<Rightarrow> team_member list \<Rightarrow> (string, team_member) jmap \<Rightarrow> (string, team_member) jmap option" where
  "stored_members cf t [] ms = Some ms"
| "stored_members cf t (m # rest) ms =
     (if \<not> member_schema cf m \<or> m_team m \<noteq> t \<or> length (m_user m) > max_user_id \<or> jhas ms (m_user m) then None
      else stored_members cf t rest (jset (m_user m) m ms))"

definition normalize_invite :: "restore_config \<Rightarrow> relay_store \<Rightarrow> invite \<Rightarrow> invite option" where
  "normalize_invite rc s i =
     (if \<not> invite_schema (rs_cf rc) i then None
      else case normalize_relay_id (J_str (i_id i)) max_envelope_id of
        None \<Rightarrow> None
      | Some ident \<Rightarrow>
          (case (jget (teams s) (i_team i), jget (rooms s) (i_room i)) of
             (Some t, Some r) \<Rightarrow>
               if stamp_set (t_deleted t) \<or> stamp_set (r_deleted r) \<or> r_team r \<noteq> t_id t then None else Some (i\<lparr>i_id := ident\<rparr>)
           | _ \<Rightarrow> None))"

definition normalize_key_package :: "restore_config \<Rightarrow> relay_store \<Rightarrow> key_package \<Rightarrow> key_package option" where
  "normalize_key_package rc s k =
     (if \<not> key_package_schema (rs_cf rc) k \<or> \<not> is_canonical_base64 (k_package k) 32768 then None
      else if get_device s (k_user k) (k_device k) = None then None else Some k)"

definition request_epoch_is_recoverable :: "invite_request \<Rightarrow> nat \<Rightarrow> invite \<Rightarrow> nat \<Rightarrow> bool" where
  "request_epoch_is_recoverable q epoch i accepted \<longleftrightarrow>
     epoch = accepted
     \<or> accepted > 0 \<and> epoch = accepted - 1 \<and> i_user i = Some (q_user q) \<and> i_device i = Some (q_device q)
       \<and> i_kp_hash i = Some (q_kp_hash q)"

definition request_binding_matches :: "invite_request \<Rightarrow> request_binding \<Rightarrow> invite \<Rightarrow> room \<Rightarrow> bool" where
  "request_binding_matches q b i r \<longleftrightarrow>
     request_epoch_is_recoverable q (rb_epoch b) i (case r_epoch r of None \<Rightarrow> 0 | Some n \<Rightarrow> n)
     \<and> rb_invite b = i_id i \<and> rb_team b = i_team i \<and> rb_room b = i_room i \<and> rb_kp_hash b = q_kp_hash q
     \<and> rb_request b = q_id q \<and> rb_user b = q_user q \<and> rb_device b = q_device q
     \<and> Some (rb_host_user b) = r_host_user r \<and> Some (rb_host_device b) = r_host_device r
     \<and> Some (rb_expires b) = map_option stamp_text (i_expires i)"

definition normalize_request :: "restore_config \<Rightarrow> relay_store \<Rightarrow> invite_request \<Rightarrow> invite_request option" where
  "normalize_request rc s q =
     (if \<not> request_schema (rs_cf rc) q then None
      else case (parse_strict_directed_invite_request (\<lambda>x. date_parse (cf_stamp (rs_cf rc) x)) (J_str (q_sealed q)) 1400000, jget (invites s) (q_invite q)) of
        (Some b, Some i) \<Rightarrow>
          (case jget (rooms s) (i_room i) of None \<Rightarrow> None
           | Some r \<Rightarrow> if request_binding_matches q b i r then Some q else None)
      | _ \<Rightarrow> None)"

definition response_linked :: "invite_response \<Rightarrow> invite option \<Rightarrow> bool" where
  "response_linked r i \<longleftrightarrow>
     (let b = s_binding r in
      b_invite b = s_invite r \<and> b_request b = s_request r \<and> b_user b = s_user r \<and> b_device b = s_device r
      \<and> b_kp_hash b = s_kp_hash r \<and> b_status b = s_status r
      \<and> (case i of None \<Rightarrow> False
         | Some x \<Rightarrow> i_team x = b_team b \<and> i_room x = b_room b
             \<and> (s_status r \<noteq> Approved
                \<or> (i_user x = Some (s_user r) \<and> i_device x = Some (s_device r) \<and> i_kp_hash x = Some (s_kp_hash r)))))"

definition normalize_welcome :: "restore_config \<Rightarrow> relay_store \<Rightarrow> invite_response \<Rightarrow> invite_response option" where
  "normalize_welcome rc s r =
     (if response_schema (rs_cf rc) r \<and> response_linked r (jget (invites s) (s_invite r)) \<and> is_canonical_base64 (s_mac r) 128
         \<and> optional_ok (\<lambda>w. is_canonical_base64 w 1400000) (s_welcome r)
      then Some r else None)"

definition normalize_ack :: "restore_config \<Rightarrow> int \<Rightarrow> relay_store \<Rightarrow> ack_receipt \<Rightarrow> ack_receipt option" where
  "normalize_ack rc now s a =
     (if \<not> is_hash_text (ar_kp_hash a) \<or> \<not> offset_datetime_ok rc (ar_acked a) \<or> \<not> offset_datetime_ok rc (ar_expires a) then None
      else case (normalize_relay_id (J_str (ar_invite a)) max_envelope_id, normalize_relay_id (J_str (ar_request a)) max_envelope_id,
                 normalize_relay_id (J_str (ar_team a)) max_relay_id, normalize_metadata_text (J_str (ar_user a)) max_user_id,
                 normalize_metadata_text (J_str (ar_device a)) max_device_id) of
        (Some i, Some q, Some t, Some u, Some d) \<Rightarrow>
          if stamp_le (ar_expires a) now \<or> \<not> jhas (teams s) t \<or> (ar_status a = Approved \<and> \<not> has_team_member s t u) then None
          else Some (a\<lparr>ar_invite := i, ar_request := q, ar_team := t, ar_user := u, ar_device := d\<rparr>)
      | _ \<Rightarrow> None)"

text \<open>\<open>key.split(":")\<close> when it has exactly two parts that are not empty.\<close>

definition split_room_key :: "string \<Rightarrow> (string \<times> string) option" where
  "split_room_key key =
     (let t = takeWhile (\<lambda>c. c \<noteq> CHR '':'') key; r = drop 1 (dropWhile (\<lambda>c. c \<noteq> CHR '':'') key) in
      if t = [] \<or> r = [] \<or> CHR '':'' \<in> set r then None else Some (t, r))"

definition is_known_room :: "relay_store \<Rightarrow> string \<Rightarrow> string \<Rightarrow> bool" where
  "is_known_room s t r \<longleftrightarrow> map_option r_team (jget (rooms s) r) = Some t"

definition receipt_schema :: "restore_config \<Rightarrow> message_receipt \<Rightarrow> bool" where
  "receipt_schema rc x \<longleftrightarrow> is_hex_digest (mr_digest x) \<and> offset_datetime_ok rc (mr_accepted x)"

definition normalize_receipt :: "restore_config \<Rightarrow> int \<Rightarrow> relay_store \<Rightarrow> message_receipt \<Rightarrow> message_receipt option" where
  "normalize_receipt rc now s x =
     (if \<not> receipt_schema rc x then None
      else case (split_room_key (mr_room x), normalize_relay_id (J_str (mr_message x)) max_envelope_id,
                 normalize_metadata_text (J_str (mr_user x)) max_user_id, normalize_metadata_text (J_str (mr_device x)) max_device_id) of
        (Some (t, r), Some m, Some u, Some d) \<Rightarrow>
          if \<not> is_known_room s t r then None
          else (case date_parse (mr_accepted x) of None \<Rightarrow> None
            | Some a \<Rightarrow> if a < now - receipt_retention_ms then None
                        else Some (x\<lparr>mr_message := m, mr_user := u, mr_device := d\<rparr>))
      | _ \<Rightarrow> None)"

definition is_expired_stored_receipt :: "restore_config \<Rightarrow> int \<Rightarrow> message_receipt \<Rightarrow> bool" where
  "is_expired_stored_receipt rc now x \<longleftrightarrow> receipt_schema rc x \<and> stamp_lt (mr_accepted x) (now - receipt_retention_ms)"

definition normalize_attachment :: "restore_config \<Rightarrow> relay_store \<Rightarrow> attachment \<Rightarrow> attachment option" where
  "normalize_attachment rc s a =
     (let max_chars = max_ciphertext_chars_for_blob (rs_blob_max rc) in
      if \<not> attachment_schema (rs_cf rc) a then None
      else case (normalize_relay_id (J_str (a_id a)) max_relay_id, normalize_metadata_text (J_str (a_name a)) max_blob_name,
                 normalize_metadata_text (J_str (a_type a)) max_blob_type) of
        (Some ident, Some name, Some type) \<Rightarrow>
          if \<not> jhas (teams s) (a_team a) \<or> \<not> is_known_room s (a_team a) (a_room a) then None
          else if a_size a > rs_blob_max rc \<or> length (a_sealed a) > max_chars then None
          else if \<not> is_strict_exporter_ciphertext (a_sealed a) max_chars then None
          else Some (a\<lparr>a_id := ident, a_name := name, a_type := type\<rparr>)
      | _ \<Rightarrow> None)"

definition restriction_schema :: "restore_config \<Rightarrow> restriction \<Rightarrow> bool" where
  "restriction_schema rc r \<longleftrightarrow>
     1 \<le> length (re_reason r) \<and> length (re_reason r) \<le> 64 \<and> list_all is_reason_char (re_reason r)
     \<and> offset_datetime_ok rc (re_created r) \<and> optional_ok (offset_datetime_ok rc) (re_expires r)"

definition normalize_restriction :: "restore_config \<Rightarrow> int \<Rightarrow> restriction \<Rightarrow> restriction option" where
  "normalize_restriction rc now r =
     (if \<not> restriction_schema rc r then None
      else case normalize_metadata_text (J_str (re_user r)) max_user_id of
        None \<Rightarrow> None
      | Some u \<Rightarrow> if is_expired_restriction now r then None
                  else Some (r\<lparr>re_user := u, re_expires := (if stamp_set (re_expires r) then re_expires r else None)\<rparr>))"

definition is_expired_stored_restriction :: "restore_config \<Rightarrow> int \<Rightarrow> restriction \<Rightarrow> bool" where
  "is_expired_stored_restriction rc now r \<longleftrightarrow> restriction_schema rc r \<and> optional_ok (\<lambda>t. stamp_le t now) (re_expires r) \<and> re_expires r \<noteq> None"

definition quota_schema :: "quota_record \<Rightarrow> bool" where
  "quota_schema q \<longleftrightarrow> 0 \<le> qr_used q \<and> 0 \<le> qr_reset q \<and> qr_key q = quota_key (qr_quota q) (qr_user q)"

definition normalize_quota :: "int \<Rightarrow> quota_record \<Rightarrow> quota_record option" where
  "normalize_quota now q = (if quota_schema q \<and> qr_reset q > now then Some q else None)"

definition is_expired_stored_quota :: "int \<Rightarrow> quota_record \<Rightarrow> bool" where
  "is_expired_stored_quota now q \<longleftrightarrow> quota_schema q \<and> qr_reset q \<le> now"

definition message_row_valid :: "restore_config \<Rightarrow> string \<Rightarrow> string \<Rightarrow> mls_message \<Rightarrow> bool" where
  "message_row_valid rc t r m \<longleftrightarrow>
     message_schema (rs_cf rc) m \<and> mm_team m = t \<and> mm_room m = r \<and> is_canonical_base64 (mm_mls m) (lim_mls_chars (rs_mls rc))
     \<and> optional_ok (\<lambda>h. is_canonical_base64 (h_signature h) 1400000 \<and> is_canonical_base64 (h_public_key h) 1400000) (mm_transfer m)"

definition normalize_stored_backlog ::
  "restore_config \<Rightarrow> int \<Rightarrow> relay_store \<Rightarrow> string \<times> mls_message list \<Rightarrow> (string \<times> mls_message list) option" where
  "normalize_stored_backlog rc now s row =
     (case split_room_key (fst row) of
        None \<Rightarrow> None
      | Some (t, r) \<Rightarrow>
          if is_known_room s t r \<and> list_all (message_row_valid rc t r) (snd row)
          then Some (room_key t r, prune_mls_backlog (rs_mls rc) now (snd row)) else None)"

text \<open>\<open>normalizeConsumedKeyPackage\<close> (store-codec.ts).\<close>

definition normalize_consumed :: "consumed_key_package \<Rightarrow> consumed_key_package option" where
  "normalize_consumed c =
     (if is_hash_text (ck_hash c) \<and> optional_ok (text_within (int max_relay_id)) (ck_team c)
         \<and> (ck_user c = None \<and> ck_device c = None
            \<or> (case (ck_user c, ck_device c) of
                 (Some u, Some d) \<Rightarrow> text_within (int max_user_id) u \<and> text_within (int max_device_id) d | _ \<Rightarrow> False))
         \<and> date_parse (ck_at c) \<noteq> None
      then Some c else None)"

text \<open>A stored session, as the JSON object \<open>normalizeStoredAuthSession\<close> reads.\<close>

definition stored_session_json :: "auth_session \<Rightarrow> jsv" where
  "stored_session_json a =
     (let optional = (\<lambda>k v. case v of None \<Rightarrow> [] | Some x \<Rightarrow> [(k, J_str x)]); u = as_user a in
      J_obj [(''sessionIdHash'', J_str (as_hash a)),
             (''user'', J_obj ([(''id'', J_str (u_id u)), (''login'', J_str (u_login u))]
                @ optional ''name'' (u_name u) @ optional ''avatarUrl'' (u_avatar u))),
             (''expiresAt'', J_num (as_expires a))])"

section \<open>Applying the rows (store-codec.ts)\<close>

datatype load_error = Row_invalid entity | Relation_invalid | Load_capacity store_error

fun lift_load :: "(store_error, relay_store) outcome \<Rightarrow> (load_error, relay_store) outcome" where
  "lift_load (Done s) = Done s"
| "lift_load (Throws e s) = Throws (Load_capacity e) s"

text \<open>
  \<open>applyStoredRows\<close>: \<open>norm\<close> accepts a row, \<open>app\<close> stores it; a critical row that is neither accepted
  nor discardable throws.
\<close>

definition apply_row ::
  "(stored \<Rightarrow> relay_store \<Rightarrow> 'b option) \<Rightarrow> ('b \<Rightarrow> relay_store \<Rightarrow> (store_error, relay_store) outcome)
     \<Rightarrow> (entity \<times> (stored \<Rightarrow> bool)) option \<Rightarrow> stored \<Rightarrow> relay_store \<Rightarrow> (load_error, relay_store) outcome" where
  "apply_row norm app critical v s =
     (case norm v s of
        Some x \<Rightarrow> lift_load (app x s)
      | None \<Rightarrow> (case critical of None \<Rightarrow> Done s
          | Some (e, discardable) \<Rightarrow> if discardable v then Done s else Throws (Row_invalid e) s))"

definition apply_rows ::
  "(stored \<Rightarrow> relay_store \<Rightarrow> 'b option) \<Rightarrow> ('b \<Rightarrow> relay_store \<Rightarrow> (store_error, relay_store) outcome)
     \<Rightarrow> (entity \<times> (stored \<Rightarrow> bool)) option \<Rightarrow> stored list \<Rightarrow> relay_store \<Rightarrow> (load_error, relay_store) outcome" where
  "apply_rows norm app critical rows s = for_each (apply_row norm app critical) rows s"

type_synonym stage = "relay_store \<Rightarrow> (load_error, relay_store) outcome"

text \<open>Storing a row unless its key is there already, or unless it has expired.\<close>

definition set_new :: "'v tracked \<Rightarrow> string \<Rightarrow> 'v \<Rightarrow> relay_store \<Rightarrow> (store_error, relay_store) outcome" where
  "set_new T k v s = (if jhas (tr_get T s) k then Done s else dm_set T k v s)"

definition set_unless :: "bool \<Rightarrow> 'v tracked \<Rightarrow> string \<Rightarrow> 'v \<Rightarrow> relay_store \<Rightarrow> (store_error, relay_store) outcome" where
  "set_unless gone T k v s = (if gone then Done s else dm_set T k v s)"

definition load_teams :: "restore_config \<Rightarrow> stored list \<Rightarrow> stage" where
  "load_teams rc = apply_rows (\<lambda>v _. case v of V_team x \<Rightarrow> normalize_team rc x | _ \<Rightarrow> None)
     (\<lambda>x. dm_set team_map (t_id x) x) (Some (E_teams, \<lambda>_. False))"

definition load_rooms :: "restore_config \<Rightarrow> stored list \<Rightarrow> stage" where
  "load_rooms rc = apply_rows (\<lambda>v s. case v of V_room r \<Rightarrow> normalize_room rc s r | _ \<Rightarrow> None)
     (\<lambda>r. dm_set room_map (r_id r) r) (Some (E_rooms, \<lambda>_. False))"

definition load_invites :: "restore_config \<Rightarrow> int \<Rightarrow> stored list \<Rightarrow> stage" where
  "load_invites rc now = apply_rows (\<lambda>v s. case v of V_invite i \<Rightarrow> normalize_invite rc s i | _ \<Rightarrow> None)
     (\<lambda>i. set_unless (is_expired_invite now i) invite_map (i_id i) i) None"

definition load_devices :: "restore_config \<Rightarrow> stored list \<Rightarrow> stage" where
  "load_devices rc = apply_rows (\<lambda>v _. case v of V_device d \<Rightarrow> normalize_device rc d | _ \<Rightarrow> None)
     (\<lambda>d. dm_set device_map (device_key (d_user d) (d_device d)) d) (Some (E_devices, \<lambda>_. False))"

definition load_key_packages :: "restore_config \<Rightarrow> stored list \<Rightarrow> stage" where
  "load_key_packages rc = apply_rows (\<lambda>v s. case v of V_key_package k \<Rightarrow> normalize_key_package rc s k | _ \<Rightarrow> None)
     (\<lambda>k. set_new key_package_map (k_id k) k) None"

definition load_consumed :: "stored list \<Rightarrow> stage" where
  "load_consumed = apply_rows (\<lambda>v _. case v of V_consumed c \<Rightarrow> normalize_consumed c | _ \<Rightarrow> None)
     (\<lambda>c. dm_set consumed_map (ck_hash c) c) (Some (E_consumedKeyPackages, \<lambda>_. False))"

definition load_requests :: "restore_config \<Rightarrow> stored list \<Rightarrow> stage" where
  "load_requests rc = apply_rows (\<lambda>v s. case v of V_request q \<Rightarrow> normalize_request rc s q | _ \<Rightarrow> None)
     (\<lambda>q. set_new request_map (q_id q) q) None"

definition load_responses :: "restore_config \<Rightarrow> stored list \<Rightarrow> stage" where
  "load_responses rc = apply_rows (\<lambda>v s. case v of V_response r \<Rightarrow> normalize_welcome rc s r | _ \<Rightarrow> None)
     (\<lambda>r. set_new response_map (s_request r) r) None"

text \<open>\<open>applyStoredTeamMembers\<close>; an empty row restores nothing.\<close>

definition apply_stored_team_members :: "restore_config \<Rightarrow> string \<Rightarrow> team_member list \<Rightarrow> stage" where
  "apply_stored_team_members rc t ms s =
     (case normalize_relay_id (J_str t) max_relay_id of
        None \<Rightarrow> Throws (Row_invalid E_teamMembers) s
      | Some t' \<Rightarrow>
          if \<not> jhas (teams s) t' then Throws (Row_invalid E_teamMembers) s
          else (case stored_members (rs_cf rc) t' ms [] of
            None \<Rightarrow> Throws (Row_invalid E_teamMembers) s
          | Some m \<Rightarrow> if m = [] then Done s else lift_load (set_team_members t' m s)))"

fun load_members :: "restore_config \<Rightarrow> string list \<Rightarrow> stored list \<Rightarrow> stage" where
  "load_members rc seen [] s = Done s"
| "load_members rc seen (v # vs) s =
     (case v of
        V_members t ms \<Rightarrow>
          if t = [] \<or> List.member seen t then Throws (Row_invalid E_teamMembers) s
          else seq (apply_stored_team_members rc t ms s) (load_members rc (t # seen) vs)
      | _ \<Rightarrow> Throws (Row_invalid E_teamMembers) s)"

definition load_acks :: "restore_config \<Rightarrow> int \<Rightarrow> stored list \<Rightarrow> stage" where
  "load_acks rc now = apply_rows (\<lambda>v s. case v of V_ack a \<Rightarrow> normalize_ack rc now s a | _ \<Rightarrow> None)
     (\<lambda>a. dm_set ack_map (ar_request a) a) None"

definition load_receipts :: "restore_config \<Rightarrow> int \<Rightarrow> stored list \<Rightarrow> stage" where
  "load_receipts rc now = apply_rows (\<lambda>v s. case v of V_receipt x \<Rightarrow> normalize_receipt rc now s x | _ \<Rightarrow> None)
     (\<lambda>x. dm_set receipt_map (receipt_key (mr_room x) (mr_message x)) x)
     (Some (E_acceptedMessageReceipts, \<lambda>v. case v of V_receipt x \<Rightarrow> is_expired_stored_receipt rc now x | _ \<Rightarrow> False))"

definition load_attachments :: "restore_config \<Rightarrow> int \<Rightarrow> stored list \<Rightarrow> stage" where
  "load_attachments rc now = apply_rows (\<lambda>v s. case v of V_attachment a \<Rightarrow> normalize_attachment rc s a | _ \<Rightarrow> None)
     (\<lambda>a. set_unless (is_expired_attachment_blob now a) attachment_map (a_id a) a) None"

definition load_sessions :: "int \<Rightarrow> stored list \<Rightarrow> stage" where
  "load_sessions now = apply_rows (\<lambda>v _. case v of V_auth a \<Rightarrow> normalize_stored_auth_session now (stored_session_json a) | _ \<Rightarrow> None)
     (\<lambda>a. dm_set auth_map (as_hash a) a) None"

definition load_restrictions :: "restore_config \<Rightarrow> int \<Rightarrow> stored list \<Rightarrow> stage" where
  "load_restrictions rc now = apply_rows (\<lambda>v _. case v of V_restriction r \<Rightarrow> normalize_restriction rc now r | _ \<Rightarrow> None)
     (\<lambda>r. dm_set restriction_map (re_user r) r)
     (Some (E_accountRestrictions, \<lambda>v. case v of V_restriction r \<Rightarrow> is_expired_stored_restriction rc now r | _ \<Rightarrow> False))"

definition load_quotas :: "int \<Rightarrow> stored list \<Rightarrow> stage" where
  "load_quotas now = apply_rows (\<lambda>v _. case v of V_quota q \<Rightarrow> normalize_quota now q | _ \<Rightarrow> None)
     (\<lambda>q. dm_set quota_map (qr_key q) q)
     (Some (E_accountQuotaRecords, \<lambda>v. case v of V_quota q \<Rightarrow> is_expired_stored_quota now q | _ \<Rightarrow> False))"

definition load_backlogs :: "restore_config \<Rightarrow> int \<Rightarrow> (string, mls_message list) jmap \<Rightarrow> stage" where
  "load_backlogs rc now backlog = apply_rows (\<lambda>v s. case v of V_backlog k ms \<Rightarrow> normalize_stored_backlog rc now s (k, ms) | _ \<Rightarrow> None)
     (\<lambda>(k, ms) s. if ms = [] then Done s else dm_set backlog_map k ms s) (Some (E_mlsBacklog, \<lambda>_. False))
     (map (\<lambda>(k, ms). V_backlog k ms) backlog)"

section \<open>The relationships\<close>

definition one_shot_key_packages :: "relay_store \<Rightarrow> bool" where
  "one_shot_key_packages s \<longleftrightarrow>
     distinct (map k_hash (jvalues (keyPackages s)))
     \<and> list_all (\<lambda>k. \<not> jhas (consumedKeyPackages s) (k_hash k)) (jvalues (keyPackages s))"

definition team_membership_valid :: "string list \<Rightarrow> relay_store \<Rightarrow> string \<Rightarrow> team \<Rightarrow> bool" where
  "team_membership_valid restored s t x \<longleftrightarrow>
     t_members x = 0 \<and> (case members_of s t of None \<Rightarrow> True | Some ms \<Rightarrow> ms = [])
     \<or> List.member restored t
       \<and> (case members_of s t of None \<Rightarrow> False
          | Some ms \<Rightarrow> length ms = t_members x \<and> length (filter (\<lambda>m. m_role m = Owner) (jvalues ms)) = 1)"

definition room_host_valid :: "relay_store \<Rightarrow> room \<Rightarrow> bool" where
  "room_host_valid s r \<longleftrightarrow> (truthy (r_host_user r) \<longrightarrow> has_team_member s (r_team r) (the (r_host_user r)))"

definition validate_critical_relationships :: "string list \<Rightarrow> stage" where
  "validate_critical_relationships restored s =
     (if one_shot_key_packages s \<and> list_all (\<lambda>(t, x). team_membership_valid restored s t x) (teams s)
         \<and> list_all (room_host_valid s) (jvalues (rooms s))
      then Done s else Throws Relation_invalid s)"

text \<open>\<open>applyStoredRelayState\<close>: its stages in order.\<close>

definition restored_teams :: "(entity \<Rightarrow> stored list) \<Rightarrow> string list" where
  "restored_teams rows = List.map_filter (\<lambda>v. case v of V_members t _ \<Rightarrow> Some t | _ \<Rightarrow> None) (rows E_teamMembers)"

definition load_stages :: "restore_config \<Rightarrow> int \<Rightarrow> (entity \<Rightarrow> stored list) \<Rightarrow> (string, mls_message list) jmap \<Rightarrow> stage list" where
  "load_stages rc now rows backlog =
     [load_teams rc (rows E_teams), load_rooms rc (rows E_rooms), load_invites rc now (rows E_invites),
      load_devices rc (rows E_devices), load_key_packages rc (rows E_keyPackages), load_consumed (rows E_consumedKeyPackages),
      load_requests rc (rows E_inviteRequests), load_responses rc (rows E_inviteResponses), load_members rc [] (rows E_teamMembers),
      load_acks rc now (rows E_inviteAckReceipts), load_receipts rc now (rows E_acceptedMessageReceipts),
      load_attachments rc now (rows E_attachmentBlobs), load_sessions now (rows E_authSessions),
      load_restrictions rc now (rows E_accountRestrictions), load_quotas now (rows E_accountQuotaRecords),
      load_backlogs rc now backlog]"

definition apply_stored_state :: "restore_config \<Rightarrow> int \<Rightarrow> (entity \<Rightarrow> stored list) \<Rightarrow> (string, mls_message list) jmap \<Rightarrow> stage" where
  "apply_stored_state rc now rows backlog s =
     seq (for_each (\<lambda>f. f) (load_stages rc now rows backlog) s) (validate_critical_relationships (restored_teams rows))"

text \<open>\<open>loadRelayStore\<close> (store-persistence.ts): \<open>None\<close> is a refusal to start.\<close>

definition load_relay_store :: "restore_config \<Rightarrow> int \<Rightarrow> database \<Rightarrow> relay_store \<Rightarrow> relay_store option" where
  "load_relay_store rc now d s =
     (case load_normalized_state d of
        Nothing_stored \<Rightarrow> Some s
      | Unreadable \<Rightarrow> None
      | Loaded rows backlog \<Rightarrow>
          (case apply_stored_state rc now rows backlog s of
             Done s' \<Rightarrow> Some (discard_durable_mutations s') | Throws _ _ \<Rightarrow> None))"

end
