(* ===== verification/Restore_Proofs.thy ===== *)
theory Restore_Proofs
  imports Restore Room_Proofs
begin

text \<open>
  Reading the stored state back: the stages of a start one by one, each over one map of the store,
  and the state a start that is not refused ends with, whatever rows the database holds.
\<close>

section \<open>Stages\<close>

lemma lift_load_state [simp]: "state_of (lift_load r) = state_of r"
  by (cases r) auto

lemma lift_load_Done [simp]: "lift_load r = Done s \<longleftrightarrow> r = Done s"
  by (cases r) auto

lemma apply_rows_inv:
  assumes "\<And>v t x. P t \<Longrightarrow> norm v t = Some x \<Longrightarrow> P (state_of (app x t))" and "P s"
  shows "P (state_of (apply_rows norm app critical rows s))"
  unfolding apply_rows_def
proof (rule for_each_state_inv [where P = P])
  show "P (state_of (apply_row norm app critical v t))" if "P t" for v t
    using assms(1) that by (auto simp: apply_row_def split: option.split)
qed (use assms(2) in simp)

lemma jwf_stored_members: "stored_members cf t ms m0 = Some m \<Longrightarrow> jwf m0 \<Longrightarrow> jwf m"
  by (induction cf t ms m0 rule: stored_members.induct) (auto split: if_splits)

lemma load_members_inv:
  assumes "\<And>t ms s. P s \<Longrightarrow> jwf ms \<Longrightarrow> P (state_of (set_team_members t ms s))" and "P s"
  shows "P (state_of (load_members rc seen rows s))"
  using assms(2)
proof (induction rc seen rows s rule: load_members.induct)
  case (2 rc seen v vs s)
  have step: "P (state_of (apply_stored_team_members rc t ms s))" for t ms
    using 2(2) assms(1) by (auto simp: apply_stored_team_members_def dest: jwf_stored_members split: option.split)
  show ?case
    using 2(2) by (cases v) (auto intro!: seq_state_inv [where P = P] step 2(1))
qed simp

text \<open>A loop over stages, split at one of them.\<close>

lemma for_each_append: "for_each f (xs @ ys) s = seq (for_each f xs s) (for_each f ys)"
proof (induction xs arbitrary: s)
  case (Cons x xs)
  then show ?case by (cases "f x s") auto
qed simp

lemma stages_frame:
  assumes "\<And>g t. g \<in> set gs \<Longrightarrow> f (state_of (g t)) = f t" and "for_each (\<lambda>g. g) gs s = Done s'"
  shows "f s' = f s"
proof -
  have "f (state_of (for_each (\<lambda>g. g) gs s)) = f s"
    by (rule for_each_state_inv [where P = "\<lambda>t. f t = f s"]) (use assms(1) in auto)
  with assms(2) show ?thesis by simp
qed

lemma stage_of:
  assumes "for_each (\<lambda>g. g) (pre @ X # post) s = Done s'"
  obtains t t' where "for_each (\<lambda>g. g) pre s = Done t" "X t = Done t'" "for_each (\<lambda>g. g) post t' = Done s'"
  using assms by (auto simp: for_each_append elim!: seq_DoneE)

section \<open>What a stage stores\<close>

context tracked_map begin

lemma stage_frame:
  assumes "\<And>x s. app x s = Done s \<or> (\<exists>k v. app x s = dm_set T k v s)"
    and "\<And>s. f (store_data s) = f s" and "\<And>m s. f (tr_put T m s) = f s"
  shows "f (state_of (apply_rows norm app critical rows s)) = f s"
proof (rule apply_rows_inv [where P = "\<lambda>t. f t = f s"])
  fix x t
  assume "f t = f s"
  moreover have "f (state_of (app x t)) = f t"
    using assms(1) [of x t] field_frame(1) [of f, OF assms(2,3)] by auto
  ultimately show "f (state_of (app x t)) = f s" by simp
qed simp

lemma stage_store_ok:
  assumes "\<And>x s. app x s = Done s \<or> (\<exists>k v. app x s = dm_set T k v s)" and "store_ok s"
  shows "store_ok (state_of (apply_rows norm app critical rows s))"
proof (rule apply_rows_inv [where P = store_ok])
  fix x t assume "store_ok t"
  then show "store_ok (state_of (app x t))" using assms(1) [of x t] dm_set_ok by auto
qed (rule assms(2))

text \<open>Every value of the map was there before or comes from an accepted row.\<close>

lemma dm_set_values:
  "jget (tr_get T (state_of (dm_set T k v s))) j = Some x \<Longrightarrow> j = k \<and> x = v \<or> jget (tr_get T s) j = Some x"
proof (cases "dm_set T k v s")
  case (Throws e s')
  then have "tr_get T s' = tr_get T s" using dm_set_throws_data get_data by metis
  moreover assume "jget (tr_get T (state_of (dm_set T k v s))) j = Some x"
  ultimately show ?thesis using Throws by simp
qed (auto dest: dm_set_get split: if_splits)

lemma stage_values:
  assumes app: "\<And>x s. app x s = Done s \<or> app x s = dm_set T (key x) x s"
    and run: "apply_rows norm app critical rows s = Done s'"
    and norm: "\<And>v t x. erase T t = erase T s \<Longrightarrow> norm v t = Some x \<Longrightarrow> Q x"
    and old: "tr_get T s = []"
    and stored: "jget (tr_get T s') k = Some x"
  shows "k = key x \<and> Q x"
proof -
  let ?P = "\<lambda>t. erase T t = erase T s \<and> (\<forall>k x. jget (tr_get T t) k = Some x \<longrightarrow> k = key x \<and> Q x)"
  have "?P (state_of (apply_rows norm app critical rows s))"
  proof (rule apply_rows_inv [where P = ?P])
    fix v t x
    assume P: "?P t" and x: "norm v t = Some x"
    from app [of x t] show "?P (state_of (app x t))"
    proof
      assume set: "app x t = dm_set T (key x) x t"
      have "erase T (state_of (app x t)) = erase T s" unfolding set using dm_set_erase P by simp
      moreover have "j = key y \<and> Q y" if "jget (tr_get T (state_of (app x t))) j = Some y" for j y
        using dm_set_values [OF that [unfolded set]] P norm [OF conjunct1 [OF P] x] by blast
      ultimately show ?thesis by blast
    qed (use P in simp)
  qed (use old in simp)
  with run stored show ?thesis by simp
qed

end

section \<open>Each stage leaves the other maps alone\<close>

lemmas stage_apps = set_new_def set_unless_def

lemma team_stage:
  assumes "\<And>s. f (store_data s) = f s" and "\<And>m s. f (s\<lparr>teams := m\<rparr>) = f s"
  shows "f (state_of (load_teams rc rows s)) = f s"
  unfolding load_teams_def by (rule team_tm.stage_frame) (use assms in \<open>auto simp: team_map_def stage_apps\<close>)

lemma room_stage:
  assumes "\<And>s. f (store_data s) = f s" and "\<And>m s. f (s\<lparr>rooms := m\<rparr>) = f s"
  shows "f (state_of (load_rooms rc rows s)) = f s"
  unfolding load_rooms_def by (rule room_tm.stage_frame) (use assms in \<open>auto simp: room_map_def stage_apps\<close>)

lemma invite_stage:
  assumes "\<And>s. f (store_data s) = f s" and "\<And>m s. f (s\<lparr>invites := m\<rparr>) = f s"
  shows "f (state_of (load_invites rc now rows s)) = f s"
  unfolding load_invites_def by (rule invite_tm.stage_frame) (use assms in \<open>auto simp: invite_map_def stage_apps\<close>)

lemma device_stage:
  assumes "\<And>s. f (store_data s) = f s" and "\<And>m s. f (s\<lparr>devices := m\<rparr>) = f s"
  shows "f (state_of (load_devices rc rows s)) = f s"
  unfolding load_devices_def by (rule device_tm.stage_frame) (use assms in \<open>auto simp: device_map_def stage_apps\<close>)

lemma key_package_stage:
  assumes "\<And>s. f (store_data s) = f s" and "\<And>m s. f (s\<lparr>keyPackages := m\<rparr>) = f s"
  shows "f (state_of (load_key_packages rc rows s)) = f s"
  unfolding load_key_packages_def by (rule key_package_tm.stage_frame) (use assms in \<open>auto simp: key_package_map_def stage_apps\<close>)

lemma consumed_stage:
  assumes "\<And>s. f (store_data s) = f s" and "\<And>m s. f (s\<lparr>consumedKeyPackages := m\<rparr>) = f s"
  shows "f (state_of (load_consumed rows s)) = f s"
  unfolding load_consumed_def by (rule consumed_tm.stage_frame) (use assms in \<open>auto simp: consumed_map_def stage_apps\<close>)

lemma request_stage:
  assumes "\<And>s. f (store_data s) = f s" and "\<And>m s. f (s\<lparr>inviteRequests := m\<rparr>) = f s"
  shows "f (state_of (load_requests rc rows s)) = f s"
  unfolding load_requests_def by (rule request_tm.stage_frame) (use assms in \<open>auto simp: request_map_def stage_apps\<close>)

lemma response_stage:
  assumes "\<And>s. f (store_data s) = f s" and "\<And>m s. f (s\<lparr>inviteResponses := m\<rparr>) = f s"
  shows "f (state_of (load_responses rc rows s)) = f s"
  unfolding load_responses_def by (rule response_tm.stage_frame) (use assms in \<open>auto simp: response_map_def stage_apps\<close>)

lemma ack_stage:
  assumes "\<And>s. f (store_data s) = f s" and "\<And>m s. f (s\<lparr>inviteAckReceipts := m\<rparr>) = f s"
  shows "f (state_of (load_acks rc now rows s)) = f s"
  unfolding load_acks_def by (rule ack_tm.stage_frame) (use assms in \<open>auto simp: ack_map_def stage_apps\<close>)

lemma receipt_stage:
  assumes "\<And>s. f (store_data s) = f s" and "\<And>m s. f (s\<lparr>acceptedMessageReceipts := m\<rparr>) = f s"
  shows "f (state_of (load_receipts rc now rows s)) = f s"
  unfolding load_receipts_def by (rule receipt_tm.stage_frame) (use assms in \<open>auto simp: receipt_map_def stage_apps\<close>)

lemma attachment_stage:
  assumes "\<And>s. f (store_data s) = f s" and "\<And>m s. f (s\<lparr>attachmentBlobs := m\<rparr>) = f s"
  shows "f (state_of (load_attachments rc now rows s)) = f s"
  unfolding load_attachments_def by (rule attachment_tm.stage_frame) (use assms in \<open>auto simp: attachment_map_def stage_apps\<close>)

lemma session_stage:
  assumes "\<And>s. f (store_data s) = f s" and "\<And>m s. f (s\<lparr>authSessions := m\<rparr>) = f s"
  shows "f (state_of (load_sessions now rows s)) = f s"
  unfolding load_sessions_def by (rule auth_tm.stage_frame) (use assms in \<open>auto simp: auth_map_def stage_apps\<close>)

lemma restriction_stage:
  assumes "\<And>s. f (store_data s) = f s" and "\<And>m s. f (s\<lparr>accountRestrictions := m\<rparr>) = f s"
  shows "f (state_of (load_restrictions rc now rows s)) = f s"
  unfolding load_restrictions_def by (rule restriction_tm.stage_frame) (use assms in \<open>auto simp: restriction_map_def stage_apps\<close>)

lemma quota_stage:
  assumes "\<And>s. f (store_data s) = f s" and "\<And>m s. f (s\<lparr>accountQuotaRecords := m\<rparr>) = f s"
  shows "f (state_of (load_quotas now rows s)) = f s"
  unfolding load_quotas_def by (rule quota_tm.stage_frame) (use assms in \<open>auto simp: quota_map_def stage_apps\<close>)

lemma backlog_put: "tr_put backlog_map m s = s\<lparr>mlsBacklog := m\<rparr>"
  by (simp add: backlog_map_def)

lemma backlog_stage:
  assumes "\<And>s. f (store_data s) = f s" and "\<And>m s. f (s\<lparr>mlsBacklog := m\<rparr>) = f s"
  shows "f (state_of (load_backlogs rc now backlog s)) = f s"
  unfolding load_backlogs_def by (rule backlog_tm.stage_frame) (use assms in \<open>auto simp: backlog_put, blast\<close>)

lemma members_stage:
  assumes "\<And>s. f (store_data s) = f s" and "\<And>m s. f (s\<lparr>teamMembers := m\<rparr>) = f s"
  shows "f (state_of (load_members rc seen rows s)) = f s"
proof (rule load_members_inv [where P = "\<lambda>t. f t = f s"])
  fix t ms u
  assume u: "f u = f s"
  have "f (state_of (set_team_members t ms u)) = f u"
  proof (cases "set_team_members t ms u")
    case (Done u')
    with set_team_members_data [OF Done] assms show ?thesis by (metis state_of.simps(1))
  next
    case (Throws x u')
    with set_team_members_throws_data [OF Throws] assms show ?thesis by (metis state_of.simps(2))
  qed
  with u show "f (state_of (set_team_members t ms u)) = f s" by simp
qed simp

lemmas teams_kept [simp] =
  room_stage [of teams, simplified] invite_stage [of teams, simplified]
  device_stage [of teams, simplified] key_package_stage [of teams, simplified]
  consumed_stage [of teams, simplified] request_stage [of teams, simplified]
  response_stage [of teams, simplified] members_stage [of teams, simplified]
  ack_stage [of teams, simplified] receipt_stage [of teams, simplified]
  attachment_stage [of teams, simplified] session_stage [of teams, simplified]
  restriction_stage [of teams, simplified] quota_stage [of teams, simplified]
  backlog_stage [of teams, simplified]

lemmas rooms_kept [simp] =
  invite_stage [of rooms, simplified] device_stage [of rooms, simplified]
  key_package_stage [of rooms, simplified] consumed_stage [of rooms, simplified]
  request_stage [of rooms, simplified] response_stage [of rooms, simplified]
  members_stage [of rooms, simplified] ack_stage [of rooms, simplified]
  receipt_stage [of rooms, simplified] attachment_stage [of rooms, simplified]
  session_stage [of rooms, simplified] restriction_stage [of rooms, simplified]
  quota_stage [of rooms, simplified] backlog_stage [of rooms, simplified]

lemmas devices_kept [simp] =
  key_package_stage [of devices, simplified] consumed_stage [of devices, simplified]
  request_stage [of devices, simplified] response_stage [of devices, simplified]
  members_stage [of devices, simplified] ack_stage [of devices, simplified]
  receipt_stage [of devices, simplified] attachment_stage [of devices, simplified]
  session_stage [of devices, simplified] restriction_stage [of devices, simplified]
  quota_stage [of devices, simplified] backlog_stage [of devices, simplified]

lemmas keyPackages_kept [simp] =
  consumed_stage [of keyPackages, simplified] request_stage [of keyPackages, simplified]
  response_stage [of keyPackages, simplified] members_stage [of keyPackages, simplified]
  ack_stage [of keyPackages, simplified] receipt_stage [of keyPackages, simplified]
  attachment_stage [of keyPackages, simplified] session_stage [of keyPackages, simplified]
  restriction_stage [of keyPackages, simplified] quota_stage [of keyPackages, simplified]
  backlog_stage [of keyPackages, simplified]

end
