(* ===== verification/Restore_Safety.thy ===== *)
theory Restore_Safety
  imports Restore_Proofs Samples
begin

text \<open>
  A start that is not refused ends with a sound state, whatever rows the database holds: the counters
  are right, every team that has members has exactly one owner, every room belongs to a stored team
  and its host is a member, every device has valid keys with their own fingerprints, and no
  KeyPackage can be claimed twice.
\<close>

section \<open>The accounting\<close>

lemma load_stages_ok:
  assumes "g \<in> set (load_stages rc now rows backlog)" and "store_ok s"
  shows "store_ok (state_of (g s))"
proof -
  note rowwise = load_teams_def load_rooms_def load_invites_def load_devices_def load_key_packages_def load_consumed_def
    load_requests_def load_responses_def load_acks_def load_receipts_def load_attachments_def load_sessions_def
    load_restrictions_def load_quotas_def load_backlogs_def
  note oks = team_tm.dm_set_ok room_tm.dm_set_ok invite_tm.dm_set_ok device_tm.dm_set_ok key_package_tm.dm_set_ok
    consumed_tm.dm_set_ok request_tm.dm_set_ok response_tm.dm_set_ok ack_tm.dm_set_ok receipt_tm.dm_set_ok
    attachment_tm.dm_set_ok auth_tm.dm_set_ok restriction_tm.dm_set_ok quota_tm.dm_set_ok backlog_tm.dm_set_ok
  have rows: "store_ok (state_of (apply_rows norm app critical r s))"
    if "\<And>x t. store_ok t \<Longrightarrow> store_ok (state_of (app x t))" for norm app critical r
    by (rule apply_rows_inv [where P = store_ok]) (use that assms(2) in auto)
  have "store_ok (state_of (load_members rc [] r s))" for r
    by (rule load_members_inv [where P = store_ok]) (use assms(2) in \<open>auto intro: set_team_members_ok\<close>)
  with assms show ?thesis
    unfolding load_stages_def rowwise
    by (auto simp: stage_apps oks intro!: rows)
qed

section \<open>What each stage accepts\<close>

lemma team_values:
  assumes "load_teams rc rows s = Done s'" and "teams s = []" and "jget (teams s') k = Some x"
  shows "k = t_id x \<and> team_schema (rs_cf rc) x"
  by (rule team_tm.stage_values [OF _ assms(1) [unfolded load_teams_def]])
     (use assms(2,3) in \<open>auto simp: team_map_def normalize_team_def split: stored.splits if_splits\<close>)

definition room_sound :: "relay_store \<Rightarrow> room \<Rightarrow> bool" where
  "room_sound s r \<longleftrightarrow> jhas (teams s) (r_team r)
     \<and> (r_status r = Host_active \<longrightarrow> truthy (r_host_user r) \<and> truthy (r_host_device r) \<and> r_epoch r \<noteq> None)
     \<and> (r_status r = Host_offline \<longrightarrow> \<not> truthy (r_host_device r))"

lemma room_values:
  assumes "load_rooms rc rows s = Done s'" and "rooms s = []" and "jget (rooms s') k = Some r"
  shows "k = r_id r \<and> room_sound s r"
proof (rule room_tm.stage_values [OF _ assms(1) [unfolded load_rooms_def]])
  fix v t x
  assume "erase room_map t = erase room_map s" and x: "(case v of V_room r \<Rightarrow> normalize_room rc t r | _ \<Rightarrow> None) = Some x"
  from arg_cong [where f = teams, OF this(1)] have "teams t = teams s" by (simp add: erase_def room_map_def)
  with x show "room_sound s x"
    by (auto simp: normalize_room_def room_sound_def split: stored.splits if_splits)
qed (use assms(2,3) in \<open>auto simp: room_map_def\<close>)

definition device_sound :: "restore_config \<Rightarrow> device \<Rightarrow> bool" where
  "device_sound rc d \<longleftrightarrow>
     (let cf = rs_cf rc in valid_p256_spki cf (d_sig_key d) \<and> valid_p256_hpke_key cf (d_hpke_key d)
        \<and> d_sig_fp d = fingerprint_public_key (cf_env cf) (d_sig_key d)
        \<and> d_hpke_fp d = fingerprint_public_key (cf_env cf) (d_hpke_key d))"

lemma device_values:
  assumes "load_devices rc rows s = Done s'" and "devices s = []" and "jget (devices s') k = Some d"
  shows "k = device_key (d_user d) (d_device d) \<and> device_sound rc d"
  by (rule device_tm.stage_values [OF _ assms(1) [unfolded load_devices_def]])
     (use assms(2,3) in \<open>auto simp: device_map_def normalize_device_def device_sound_def Let_def split: stored.splits if_splits\<close>)

lemma key_package_values:
  assumes "load_key_packages rc rows s = Done s'" and "keyPackages s = []" and "jget (keyPackages s') i = Some k"
  shows "i = k_id k \<and> get_device s (k_user k) (k_device k) \<noteq> None"
proof (rule key_package_tm.stage_values [OF _ assms(1) [unfolded load_key_packages_def]])
  fix v t x
  assume "erase key_package_map t = erase key_package_map s"
    and x: "(case v of V_key_package k \<Rightarrow> normalize_key_package rc t k | _ \<Rightarrow> None) = Some x"
  from arg_cong [where f = devices, OF this(1)] have "devices t = devices s" by (simp add: erase_def key_package_map_def)
  with x show "get_device s (k_user x) (k_device x) \<noteq> None"
    by (auto simp: normalize_key_package_def get_device_def split: stored.splits if_splits)
qed (use assms(2,3) in \<open>auto simp: key_package_map_def set_new_def\<close>)

section \<open>A start that is not refused\<close>

lemma load_stages_parts:
  assumes "for_each (\<lambda>g. g) (load_stages rc now rows backlog) s = Done s'"
  obtains s1 s2 s3 s4 s5 where "load_teams rc (rows E_teams) s = Done s1" "load_rooms rc (rows E_rooms) s1 = Done s2"
    "load_invites rc now (rows E_invites) s2 = Done s3" "load_devices rc (rows E_devices) s3 = Done s4"
    "load_key_packages rc (rows E_keyPackages) s4 = Done s5"
    "for_each (\<lambda>g. g) (drop 5 (load_stages rc now rows backlog)) s5 = Done s'"
  using assms by (auto simp: load_stages_def elim!: seq_DoneE)

lemma loaded_records:
  assumes run: "for_each (\<lambda>g. g) (load_stages rc now rows backlog) s = Done s'"
    and fresh: "teams s = []" "rooms s = []" "devices s = []" "keyPackages s = []"
  shows "jget (teams s') t = Some x \<Longrightarrow> t_id x = t"
    and "jget (rooms s') k = Some r \<Longrightarrow> r_id r = k \<and> room_sound s' r"
    and "jget (devices s') j = Some d \<Longrightarrow> j = device_key (d_user d) (d_device d) \<and> device_sound rc d"
    and "jget (keyPackages s') i = Some p \<Longrightarrow> k_id p = i \<and> get_device s' (k_user p) (k_device p) \<noteq> None"
proof -
  from run obtain s1 s2 s3 s4 s5 where s1: "load_teams rc (rows E_teams) s = Done s1" and s2: "load_rooms rc (rows E_rooms) s1 = Done s2"
    and s3: "load_invites rc now (rows E_invites) s2 = Done s3" and s4: "load_devices rc (rows E_devices) s3 = Done s4"
    and s5: "load_key_packages rc (rows E_keyPackages) s4 = Done s5"
    and rest: "for_each (\<lambda>g. g) (drop 5 (load_stages rc now rows backlog)) s5 = Done s'" by (rule load_stages_parts)
  have "teams s' = teams s5" "rooms s' = rooms s5"
    by (rule stages_frame [OF _ rest], auto simp: load_stages_def)+
  moreover have "devices s' = devices s5" "keyPackages s' = keyPackages s5"
    by (rule stages_frame [OF _ rest], auto simp: load_stages_def)+
  moreover note frames = arg_cong [where f = "\<lambda>r. f (state_of r)" for f :: "relay_store \<Rightarrow> 'f"]
  have "teams s5 = teams s1" using frames [OF s2, of teams] frames [OF s3, of teams] frames [OF s4, of teams] frames [OF s5, of teams] by simp
  moreover have "rooms s1 = []" "rooms s5 = rooms s2"
    using frames [OF s1, of rooms] frames [OF s3, of rooms] frames [OF s4, of rooms] frames [OF s5, of rooms] fresh
    by (simp_all add: team_stage [of rooms, simplified])
  moreover have "devices s3 = []" "devices s5 = devices s4"
    using frames [OF s1, of devices] frames [OF s2, of devices] frames [OF s3, of devices] frames [OF s5, of devices] fresh
    by (simp_all add: team_stage [of devices, simplified] room_stage [of devices, simplified] invite_stage [of devices, simplified])
  moreover have "keyPackages s4 = []"
    using frames [OF s1, of keyPackages] frames [OF s2, of keyPackages] frames [OF s3, of keyPackages] frames [OF s4, of keyPackages] fresh
    by (simp add: team_stage [of keyPackages, simplified] room_stage [of keyPackages, simplified]
        invite_stage [of keyPackages, simplified] device_stage [of keyPackages, simplified])
  ultimately show "jget (teams s') t = Some x \<Longrightarrow> t_id x = t"
    and "jget (rooms s') k = Some r \<Longrightarrow> r_id r = k \<and> room_sound s' r"
    and "jget (devices s') j = Some d \<Longrightarrow> j = device_key (d_user d) (d_device d) \<and> device_sound rc d"
    and "jget (keyPackages s') i = Some p \<Longrightarrow> k_id p = i \<and> get_device s' (k_user p) (k_device p) \<noteq> None"
    using team_values [OF s1 fresh(1)] room_values [OF s2] device_values [OF s4] key_package_values [OF s5]
    by (auto simp: room_sound_def get_device_def)
qed

lemma relations_checked:
  assumes "validate_critical_relationships restored s = Done s'"
  shows "s' = s" and "one_shot_key_packages s"
    and "jget (teams s) t = Some x \<Longrightarrow> team_membership_valid restored s t x"
    and "jget (rooms s) k = Some r \<Longrightarrow> room_host_valid s r"
  using assms
  by (auto simp: validate_critical_relationships_def list_all_iff jvalues_def dest!: jget_mem split: if_splits)

lemma membership_counted:
  "team_membership_valid restored s t x \<Longrightarrow>
     (case members_of s t of None \<Rightarrow> t_members x = 0
      | Some ms \<Rightarrow> length ms = t_members x \<and> (ms = [] \<or> length (filter (\<lambda>m. m_role m = Owner) (jvalues ms)) = 1))"
  by (auto simp: team_membership_valid_def split: option.splits)

lemma one_shot_packages_ok:
  assumes "one_shot_key_packages s" and "jwf (keyPackages s)" and "\<And>i p. jget (keyPackages s) i = Some p \<Longrightarrow> k_id p = i"
  shows "packages_ok s"
proof -
  have "\<not> jhas (consumedKeyPackages s) (k_hash p)" if "(i, p) \<in> set (keyPackages s)" for i p
    using assms(1) that by (force simp: one_shot_key_packages_def list_all_iff jvalues_def)
  moreover have "inj_on (\<lambda>(i, k). k_hash k) (set (keyPackages s))"
  proof -
    have "distinct (map (\<lambda>(i, k). k_hash k) (keyPackages s))"
      using assms(1) by (simp add: one_shot_key_packages_def jvalues_def comp_def case_prod_unfold)
    then show ?thesis by (simp add: distinct_map)
  qed
  ultimately show ?thesis using assms(2,3) by (auto simp: packages_ok_def)
qed

text \<open>
  C27: A start that is not refused ends with a sound state, whatever rows the database holds: the
  counters are exact and within their limits; every team is stored under its own id and its member
  count is the size of its membership, which is empty or has exactly one owner; every room belongs to
  a stored team, an active one has its host user, device and epoch, an offline one no device, and a
  room's host is a member of its team; every device has valid keys whose fingerprints are their own;
  and the KeyPackages are of registered devices, distinct, and none of them was consumed before.
\<close>

theorem restored_state_is_safe:
  assumes "create_relay_store m n limits = Some s0" and "0 \<le> m" and "0 \<le> n" and "0 \<le> bl_mls_room limits" and "0 \<le> bl_att_team limits"
    and load: "apply_stored_state rc now rows backlog s0 = Done s"
  shows "store_ok s \<and> packages_ok s
     \<and> (\<forall>t x. jget (teams s) t = Some x \<longrightarrow> t_id x = t
          \<and> (case members_of s t of None \<Rightarrow> t_members x = 0
             | Some ms \<Rightarrow> length ms = t_members x \<and> (ms = [] \<or> length (filter (\<lambda>m. m_role m = Owner) (jvalues ms)) = 1)))
     \<and> (\<forall>k r. jget (rooms s) k = Some r \<longrightarrow> r_id r = k \<and> room_sound s r
          \<and> (truthy (r_host_user r) \<longrightarrow> has_team_member s (r_team r) (the (r_host_user r))))
     \<and> (\<forall>k d. jget (devices s) k = Some d \<longrightarrow> k = device_key (d_user d) (d_device d) \<and> device_sound rc d)
     \<and> (\<forall>k p. jget (keyPackages s) k = Some p \<longrightarrow> get_device s (k_user p) (k_device p) \<noteq> None)"
proof -
  from load obtain s1 where run: "for_each (\<lambda>g. g) (load_stages rc now rows backlog) s0 = Done s1"
    and rel: "validate_critical_relationships (restored_teams rows) s1 = Done s"
    by (auto simp: apply_stored_state_def elim!: seq_DoneE)
  note checked = relations_checked [OF rel]
  have fresh: "teams s0 = []" "rooms s0 = []" "devices s0 = []" "keyPackages s0 = []"
    using assms(1) by (auto simp: create_relay_store_def empty_store_def split: option.splits)
  note records = loaded_records [OF run fresh, folded checked(1)]
  have "store_ok (state_of (for_each (\<lambda>g. g) (load_stages rc now rows backlog) s0))"
    by (rule for_each_state_inv [where P = store_ok]) (use load_stages_ok store_ok_empty [OF assms(1-5)] in auto)
  then have ok: "store_ok s" by (simp add: run checked(1))
  moreover have "packages_ok s"
    using checked(1,2) records(4) key_package_tm.get_wf [of s] ok by (intro one_shot_packages_ok) (auto simp: store_ok_def key_package_map_def)
  ultimately show ?thesis
    using checked(1,4) records membership_counted [OF checked(3)] by (auto simp: room_host_valid_def)
qed

section \<open>A start that is refused\<close>

lemma apply_rows_refused:
  assumes "v \<in> set rows" and "\<And>t. norm v t = None" and "critical = Some (e, d)" and "\<not> d v"
  shows "apply_rows norm app critical rows s \<noteq> Done s'"
  unfolding apply_rows_def using assms(1)
proof (induction rows arbitrary: s)
  case (Cons x xs)
  show ?case
  proof (cases "x = v")
    case True
    then show ?thesis using assms(2-4) by (simp add: apply_row_def)
  next
    case False
    with Cons show ?thesis by (cases "apply_row norm app critical x s") auto
  qed
qed simp

lemma short_device_refused:
  assumes "V_device d \<in> set (rows E_devices)" and "length (d_device d) < 8"
  shows "apply_stored_state rc now rows backlog s \<noteq> Done s'"
proof
  assume "apply_stored_state rc now rows backlog s = Done s'"
  then obtain s1 where "for_each (\<lambda>g. g) (load_stages rc now rows backlog) s = Done s1"
    by (auto simp: apply_stored_state_def elim!: seq_DoneE)
  then obtain s3 s4 where "load_devices rc (rows E_devices) s3 = Done s4" by (rule load_stages_parts)
  have "normalize_device rc d = None"
    using assms(2) by (simp add: normalize_device_def device_schema_def device_id_ok_def Let_def)
  then have "load_devices rc (rows E_devices) s3 \<noteq> Done s4"
    unfolding load_devices_def by (intro apply_rows_refused [OF assms(1), where d = "\<lambda>_. False"]) simp_all
  with \<open>load_devices rc (rows E_devices) s3 = Done s4\<close> show False by contradiction
qed

lemma thrown_is_error: "thrown_reply x \<noteq> Reply st r"
  using thrown_reply_error [of x] by (metis is_error.simps(1))

lemma refusal_is_error: "normalize_device_registration cf body a = Inl r \<Longrightarrow> r \<noteq> Reply st d"
  by (auto simp: normalize_device_registration_def split: option.splits if_splits)

lemma registered_device_stored:
  assumes "register_device_turn cf now ok a i l = (Reply st d, l')"
  shows "d \<in> set (jvalues (devices (lv_store l')))"
proof -
  from assms obtain l1 where set: "on_store (set_device d) l = Done l1" and save: "save_now ok l1 = Done l'"
    by (auto simp: register_device_turn_def Let_def handle_def thrown_is_error split: if_splits outcome.splits live_error.splits store_error.splits)
  from set obtain s1 where "set_device d (lv_store l) = Done s1" and l1: "lv_store l1 = s1"
    by (cases "set_device d (lv_store l)") (auto simp: on_store_simps)
  from device_tm.dm_set_get [OF this(1) [unfolded set_device_def]] l1
  have "jget (devices (lv_store l1)) (device_key (d_user d) (d_device d)) = Some d" by (simp add: device_map_def)
  moreover have "devices (lv_store l') = devices (lv_store l1)"
    using save by (auto simp: save_now_cases split: if_splits)
  ultimately show ?thesis by (force simp: jvalues_def dest: jget_mem)
qed

text \<open>
  C28: The registration of a device takes device ids of fewer than eight characters, which the schema of a stored
  device does not: once such a device is registered and in the database, the relay does not start.
\<close>

theorem short_device_id_blocks_restart:
  assumes "register_device cf now ok session body l = (Reply st d, l')" and "length (d_device d) < 8"
    and "set (to_stored_rows later (lv_store l') E_devices) \<subseteq> set (rows E_devices)"
  shows "apply_stored_state rc start rows backlog s \<noteq> Done s'"
proof -
  from assms(1) obtain a i where "register_device_turn cf now ok a i l = (Reply st d, l')"
    by (auto simp: register_device_def split: if_splits option.splits sum.splits
        dest: refusal_is_error)
  then have "V_device d \<in> set (rows E_devices)"
    using registered_device_stored assms(3) by (fastforce simp: to_stored_rows_def)
  then show ?thesis using assms(2) by (rule short_device_refused)
qed

end
