(* ===== verification/Restart.thy ===== *)
theory Restart
  imports Restore_Safety
begin

text \<open>
  What was stored fits again: a store whose maps are parts of the maps of a sound store, under the
  same limits, takes every further entry of that store. The proof is made once for every map.
\<close>

section \<open>Parts of a store\<close>

abbreviation sub_map :: "('k, 'v) jmap \<Rightarrow> ('k, 'v) jmap \<Rightarrow> bool" where
  "sub_map m n \<equiv> mset m \<subseteq># mset n"

definition part_of :: "relay_store \<Rightarrow> relay_store \<Rightarrow> bool" where
  "part_of s u \<longleftrightarrow> sub_map (authSessions s) (authSessions u) \<and> sub_map (accountRestrictions s) (accountRestrictions u)
     \<and> sub_map (accountQuotaRecords s) (accountQuotaRecords u) \<and> sub_map (teams s) (teams u) \<and> sub_map (rooms s) (rooms u)
     \<and> sub_map (invites s) (invites u) \<and> sub_map (inviteRequests s) (inviteRequests u)
     \<and> sub_map (inviteResponses s) (inviteResponses u) \<and> sub_map (inviteAckReceipts s) (inviteAckReceipts u)
     \<and> sub_map (acceptedMessageReceipts s) (acceptedMessageReceipts u) \<and> sub_map (devices s) (devices u)
     \<and> sub_map (keyPackages s) (keyPackages u) \<and> sub_map (consumedKeyPackages s) (consumedKeyPackages u)
     \<and> sub_map (attachmentBlobs s) (attachmentBlobs u) \<and> sub_map (mlsBacklog s) (mlsBacklog u)
     \<and> sub_map (teamMembers s) (teamMembers u)"

lemma part_of_frame [simp]:
  "part_of (s\<lparr>st_cap := c\<rparr>) u = part_of s u" "part_of (s\<lparr>st_bytes := b\<rparr>) u = part_of s u"
  "part_of (s\<lparr>st_log := l\<rparr>) u = part_of s u" "part_of (store_data s) u = part_of s u"
  by (simp_all add: part_of_def store_data_def)

lemma sum_sub:
  fixes f :: "'a \<Rightarrow> 'b multiset"
  assumes "A \<subseteq># B" shows "(\<Sum>x\<in>#A. f x) \<subseteq># (\<Sum>x\<in>#B. f x)"
proof -
  from assms obtain C where "B = A + C" by (auto simp: mset_subset_eq_exists_conv)
  then show ?thesis by simp
qed

lemma part_entries: "part_of s u \<Longrightarrow> entry_teams s \<subseteq># entry_teams u"
  unfolding part_of_def entry_teams_def team_mset_def member_teams_def
  by (intro subset_mset.add_mono image_mset_subseteq_mono sum_sub) (simp_all add: map_defs)

lemma part_weights: "part_of s u \<Longrightarrow> entry_weights s \<subseteq># entry_weights u"
  unfolding part_of_def entry_weights_def weights_of_def
  by (intro subset_mset.add_mono) (simp_all add: map_defs image_mset_subseteq_mono)

section \<open>A further entry fits\<close>

locale part_map = tracked_map T for T :: "'v tracked" +
  assumes get_part: "part_of s u \<Longrightarrow> sub_map (tr_get T s) (tr_get T u)"
    and put_part: "part_of s u \<Longrightarrow> sub_map m (tr_get T u) \<Longrightarrow> part_of (tr_put T m s) u"
begin

lemma dm_set_fits:
  assumes ok: "store_ok s" "store_ok u" and limits: "store_limits s = store_limits u" and part: "part_of s u"
    and new: "jget (tr_get T s) k = None" and fits: "add_mset (k, v) (mset (tr_get T s)) \<subseteq># mset (tr_get T u)"
  obtains s' where "dm_set T k v s = Done s'"
proof -
  have "part_of (tr_put T (jset k v (tr_get T s)) s) u" by (rule put_part [OF part]) (use fits new in \<open>simp add: mset_jset_new\<close>)
  from fits_mono [OF store_ok_fits [OF ok(2)] part_entries [OF this] part_weights [OF this]]
  have "fits s (entry_teams (tr_put T (jset k v (tr_get T s)) s)) (entry_weights (tr_put T (jset k v (tr_get T s)) s))"
    using fits_limits [OF limits] by simp
  with dm_set_complete [OF ok(1)] that show ?thesis by blast
qed

text \<open>Where a stage stands: \<open>T\<close> holds the entries read so far, the other maps are as they were.\<close>

definition stands :: "relay_store \<Rightarrow> relay_store \<Rightarrow> (string, 'v) jmap \<Rightarrow> relay_store \<Rightarrow> bool" where
  "stands s u m t \<longleftrightarrow> store_ok t \<and> store_limits t = store_limits u \<and> part_of t u \<and> erase T t = erase T s \<and> tr_get T t = m"

lemma stands_step:
  assumes t: "stands s u m t" and u: "store_ok u" and new: "k \<notin> fst ` set m" and fits: "add_mset (k, v) (mset m) \<subseteq># mset (tr_get T u)"
  obtains t' where "dm_set T k v t = Done t'" "stands s u (m @ [(k, v)]) t'"
proof -
  have none: "jget (tr_get T t) k = None" using t new by (simp add: stands_def map_of_eq_None_iff)
  obtain t' where set: "dm_set T k v t = Done t'"
    by (rule dm_set_fits [of t u k v]) (use t u none fits in \<open>auto simp: stands_def\<close>)
  have m: "tr_get T t' = m @ [(k, v)]"
    using dm_set_get [OF set] none t by (simp add: stands_def jset_new)
  have "part_of (tr_put T (jset k v (tr_get T t)) (store_data t)) u"
    by (rule put_part) (use t none fits in \<open>simp_all add: stands_def mset_jset_new\<close>)
  then have "part_of t' u" using dm_set_data [OF set] by (metis part_of_frame(4))
  with set m t show ?thesis
    by (intro that) (auto simp: stands_def dm_set_limits dm_set_Done_erase dest: dm_set_done [rotated])
qed

lemma stage_replays:
  assumes u: "store_ok u" and t: "stands s u (map (\<lambda>x. (key x, val x)) ys) t"
    and all: "mset (map (\<lambda>x. (key x, val x)) (ys @ xs)) = mset (tr_get T u)"
    and norm: "\<And>x t. x \<in> set xs \<Longrightarrow> erase T t = erase T s \<Longrightarrow> norm (con x) t = Some (row x)"
    and app: "\<And>x t. x \<in> set xs \<Longrightarrow> jget (tr_get T t) (key x) = None \<Longrightarrow> app (row x) t = dm_set T (key x) (val x) t"
  obtains t' where "apply_rows norm app critical (map con xs) t = Done t'" "stands s u (map (\<lambda>x. (key x, val x)) (ys @ xs)) t'"
proof -
  have "\<exists>t'. apply_rows norm app critical (map con xs) t = Done t' \<and> stands s u (map (\<lambda>x. (key x, val x)) (ys @ xs)) t'"
    using t all norm app
  proof (induction xs arbitrary: ys t)
    case Nil
    then show ?case by (simp add: apply_rows_def)
  next
    case (Cons x xs)
    let ?kv = "\<lambda>x. (key x, val x)"
    have "jwf (tr_get T u)" using u by (simp add: store_ok_def get_wf)
    then have "distinct (map fst (map ?kv (ys @ x # xs)))" using Cons.prems(2) by (metis mset_eq_imp_distinct_iff mset_map)
    then have new: "key x \<notin> fst ` set (map ?kv ys)" by (auto simp: comp_def)
    have "add_mset (key x, val x) (mset (map ?kv ys)) \<subseteq># mset (tr_get T u)" unfolding Cons.prems(2) [symmetric] by simp
    from stands_step [OF Cons.prems(1) u new this] obtain t1 where set: "dm_set T (key x) (val x) t = Done t1"
      and t1: "stands s u (map ?kv (ys @ [x])) t1" by auto
    have "jget (tr_get T t) (key x) = None" using Cons.prems(1) new by (simp add: stands_def map_of_eq_None_iff)
    with set Cons.prems(1,3,4) have "apply_row norm app critical (con x) t = Done t1"
      by (simp add: apply_row_def stands_def)
    moreover obtain t' where "apply_rows norm app critical (map con xs) t1 = Done t'" "stands s u (map ?kv ((ys @ [x]) @ xs)) t'"
      using Cons.IH [OF t1] Cons.prems(2-4) by auto
    ultimately show ?case by (auto simp: apply_rows_def)
  qed
  with that show ?thesis by blast
qed

end

interpretation auth_pm: part_map auth_map
  by unfold_locales (simp_all add: part_of_def auth_map_def)
interpretation restriction_pm: part_map restriction_map
  by unfold_locales (simp_all add: part_of_def restriction_map_def)
interpretation quota_pm: part_map quota_map
  by unfold_locales (simp_all add: part_of_def quota_map_def)
interpretation team_pm: part_map team_map
  by unfold_locales (simp_all add: part_of_def team_map_def)
interpretation room_pm: part_map room_map
  by unfold_locales (simp_all add: part_of_def room_map_def)
interpretation invite_pm: part_map invite_map
  by unfold_locales (simp_all add: part_of_def invite_map_def)
interpretation request_pm: part_map request_map
  by unfold_locales (simp_all add: part_of_def request_map_def)
interpretation response_pm: part_map response_map
  by unfold_locales (simp_all add: part_of_def response_map_def)
interpretation ack_pm: part_map ack_map
  by unfold_locales (simp_all add: part_of_def ack_map_def)
interpretation receipt_pm: part_map receipt_map
  by unfold_locales (simp_all add: part_of_def receipt_map_def)
interpretation device_pm: part_map device_map
  by unfold_locales (simp_all add: part_of_def device_map_def)
interpretation key_package_pm: part_map key_package_map
  by unfold_locales (simp_all add: part_of_def key_package_map_def)
interpretation consumed_pm: part_map consumed_map
  by unfold_locales (simp_all add: part_of_def consumed_map_def)
interpretation attachment_pm: part_map attachment_map
  by unfold_locales (simp_all add: part_of_def attachment_map_def)
interpretation backlog_pm: part_map backlog_map
  by unfold_locales (simp_all add: part_of_def backlog_map_def)

end
