(* ===== verification/Restart_Proofs.thy ===== *)
theory Restart_Proofs
  imports Restart
begin

text \<open>
  A restart: the stages of a start, each over the rows of one map of a sound store, rebuild that
  store in the order in which the rows refer to each other.
\<close>

section \<open>How far a start has come\<close>

definition filled :: "bool \<Rightarrow> ('k, 'v) jmap \<Rightarrow> ('k, 'v) jmap \<Rightarrow> bool" where
  "filled b m n \<longleftrightarrow> (if b then mset m = mset n else m = [])"

text \<open>The maps of the first \<open>n\<close> stages are those of \<open>u\<close>, the later ones are still empty.\<close>

definition rebuilt :: "nat \<Rightarrow> relay_store \<Rightarrow> relay_store \<Rightarrow> bool" where
  "rebuilt n s u \<longleftrightarrow> filled (0 < n) (teams s) (teams u) \<and> filled (1 < n) (rooms s) (rooms u)
     \<and> filled (2 < n) (invites s) (invites u) \<and> filled (3 < n) (devices s) (devices u)
     \<and> filled (4 < n) (keyPackages s) (keyPackages u) \<and> filled (5 < n) (consumedKeyPackages s) (consumedKeyPackages u)
     \<and> filled (6 < n) (inviteRequests s) (inviteRequests u) \<and> filled (7 < n) (inviteResponses s) (inviteResponses u)
     \<and> filled (8 < n) (teamMembers s) (teamMembers u) \<and> filled (9 < n) (inviteAckReceipts s) (inviteAckReceipts u)
     \<and> filled (10 < n) (acceptedMessageReceipts s) (acceptedMessageReceipts u)
     \<and> filled (11 < n) (attachmentBlobs s) (attachmentBlobs u) \<and> filled (12 < n) (authSessions s) (authSessions u)
     \<and> filled (13 < n) (accountRestrictions s) (accountRestrictions u)
     \<and> filled (14 < n) (accountQuotaRecords s) (accountQuotaRecords u) \<and> filled (15 < n) (mlsBacklog s) (mlsBacklog u)"

definition rebuilding :: "nat \<Rightarrow> relay_store \<Rightarrow> relay_store \<Rightarrow> bool" where
  "rebuilding n s u \<longleftrightarrow> store_ok s \<and> store_limits s = store_limits u \<and> rebuilt n s u"

lemma filled_simps [simp]: "filled True m n \<longleftrightarrow> mset m = mset n" "filled False m n \<longleftrightarrow> m = []"
  by (simp_all add: filled_def)

lemma filled_sub: "filled b m n \<Longrightarrow> sub_map m n"
  by (auto simp: filled_def split: if_splits)

lemma rebuilt_data [simp]: "rebuilt n (store_data s) u = rebuilt n s u"
  by (simp add: rebuilt_def store_data_def)

lemma rebuilt_part: "rebuilt n s u \<Longrightarrow> part_of s u"
  by (auto simp: rebuilt_def part_of_def intro: filled_sub)

lemma same_lookup: "mset m = mset n \<Longrightarrow> jwf n \<Longrightarrow> jget m = jget n"
  by (metis map_of_eqI mset_eq_imp_distinct_iff mset_map mset_eq_setD set_map map_of_inject_set)

lemma mset_map_split:
  assumes "mset ys = mset (map f xs)"
  obtains xs' where "ys = map f xs'" "mset xs' = mset xs"
proof -
  have "\<exists>xs'. ys = map f xs' \<and> mset xs' = mset xs"
    using assms
  proof (induction ys arbitrary: xs)
    case (Cons y ys)
    then have "y \<in> f ` set xs" by (metis list.set_intros(1) mset_eq_setD set_map)
    then obtain x where x: "x \<in> set xs" "y = f x" by auto
    then have xs: "mset xs = add_mset x (mset (remove1 x xs))" by simp
    with Cons.prems x(2) have "mset ys = mset (map f (remove1 x xs))" by (simp del: mset_remove1)
    from Cons.IH [OF this] obtain xs' where "ys = map f xs'" "mset xs' = mset (remove1 x xs)" by blast
    with x xs show ?case by (intro exI [of _ "x # xs'"]) simp
  qed simp
  with that show ?thesis by blast
qed

section \<open>One stage\<close>

locale stage_map = part_map T for T :: "'v tracked" +
  fixes place :: nat
  assumes place_empty: "rebuilt place s u \<Longrightarrow> tr_get T s = []"
    and place_filled: "rebuilt place s u \<Longrightarrow> mset m = mset (tr_get T u) \<Longrightarrow> rebuilt (Suc place) (tr_put T m s) u"
begin

lemma stage_refills:
  assumes u: "store_ok u" and t: "rebuilding place t u" and rows: "mset vs = mset (map con (tr_get T u))"
    and norm: "\<And>k v t. (k, v) \<in> set (tr_get T u) \<Longrightarrow> rebuilt place (tr_put T [] t) u \<Longrightarrow> norm (con (k, v)) t = Some (row k v)"
    and app: "\<And>k v t. (k, v) \<in> set (tr_get T u) \<Longrightarrow> jget (tr_get T t) k = None \<Longrightarrow> app (row k v) t = dm_set T k v t"
  shows "\<exists>t'. apply_rows norm app critical vs t = Done t' \<and> rebuilding (Suc place) t' u"
proof -
  obtain xs where vs: "vs = map con xs" and xs: "mset xs = mset (tr_get T u)" by (rule mset_map_split [OF rows])
  have parts: "part_of t u" and empty: "tr_get T t = []"
    using t by (auto simp: rebuilding_def rebuilt_part place_empty)
  have erased: "rebuilt place (tr_put T [] t') u" if "erase T t' = erase T t" for t'
  proof -
    have "erase T t = store_data t" unfolding erase_def using empty by (metis get_data put_get)
    with that have "store_data (tr_put T [] t') = store_data t" by (simp add: erase_def put_data)
    with t show ?thesis unfolding rebuilding_def by (metis rebuilt_data)
  qed
  have sets: "set xs = set (tr_get T u)" using xs by (rule mset_eq_setD)
  obtain t' where t': "apply_rows norm app critical (map con xs) t = Done t'" "stands t u (map (\<lambda>x. (fst x, snd x)) ([] @ xs)) t'"
  proof (rule stage_replays [OF u, where s = t and t = t and ys = "[]" and key = fst and val = snd and con = con and xs = xs
      and row = "\<lambda>x. row (fst x) (snd x)" and norm = norm and app = app])
    show "stands t u (map (\<lambda>x. (fst x, snd x)) []) t" using t parts empty by (simp add: stands_def rebuilding_def)
    show "mset (map (\<lambda>x. (fst x, snd x)) ([] @ xs)) = mset (tr_get T u)" using xs by simp
    show "norm (con x) t'' = Some (row (fst x) (snd x))" if "x \<in> set xs" "erase T t'' = erase T t" for x t''
      using norm [of "fst x" "snd x"] that erased by (simp add: sets)
    show "app (row (fst x) (snd x)) t'' = dm_set T (fst x) (snd x) t''" if "x \<in> set xs" "jget (tr_get T t'') (fst x) = None" for x t''
      using app [of "fst x" "snd x"] that by (simp add: sets)
  qed blast
  then have st: "store_ok t'" "store_limits t' = store_limits u" "erase T t' = erase T t" "tr_get T t' = xs"
    by (simp_all add: stands_def)
  have "rebuilt (Suc place) (tr_put T xs t) u" by (rule place_filled) (use t xs in \<open>simp_all add: rebuilding_def\<close>)
  moreover have "store_data t' = store_data (tr_put T xs t)" by (rule data_by_erase) (use st in simp_all)
  ultimately have "rebuilt (Suc place) t' u" by (metis rebuilt_data)
  with t'(1) st show ?thesis by (auto simp: vs rebuilding_def)
qed

end

interpretation team_st: stage_map team_map 0
  by unfold_locales (simp_all add: rebuilt_def team_map_def)
interpretation room_st: stage_map room_map 1
  by unfold_locales (simp_all add: rebuilt_def room_map_def)
interpretation invite_st: stage_map invite_map 2
  by unfold_locales (simp_all add: rebuilt_def invite_map_def)
interpretation device_st: stage_map device_map 3
  by unfold_locales (simp_all add: rebuilt_def device_map_def)
interpretation key_package_st: stage_map key_package_map 4
  by unfold_locales (simp_all add: rebuilt_def key_package_map_def)
interpretation consumed_st: stage_map consumed_map 5
  by unfold_locales (simp_all add: rebuilt_def consumed_map_def)
interpretation request_st: stage_map request_map 6
  by unfold_locales (simp_all add: rebuilt_def request_map_def)
interpretation response_st: stage_map response_map 7
  by unfold_locales (simp_all add: rebuilt_def response_map_def)
interpretation ack_st: stage_map ack_map 9
  by unfold_locales (simp_all add: rebuilt_def ack_map_def)
interpretation receipt_st: stage_map receipt_map 10
  by unfold_locales (simp_all add: rebuilt_def receipt_map_def)
interpretation attachment_st: stage_map attachment_map 11
  by unfold_locales (simp_all add: rebuilt_def attachment_map_def)
interpretation auth_st: stage_map auth_map 12
  by unfold_locales (simp_all add: rebuilt_def auth_map_def)
interpretation restriction_st: stage_map restriction_map 13
  by unfold_locales (simp_all add: rebuilt_def restriction_map_def)
interpretation quota_st: stage_map quota_map 14
  by unfold_locales (simp_all add: rebuilt_def quota_map_def)
interpretation backlog_st: stage_map backlog_map 15
  by unfold_locales (simp_all add: rebuilt_def backlog_map_def)


section \<open>What can be restored\<close>

text \<open>
  Every record is stored under its own key, is not expired, and passes its normalizer unchanged; the
  relationships a start checks hold.
\<close>

definition restorable :: "restore_config \<Rightarrow> int \<Rightarrow> relay_store \<Rightarrow> bool" where
  "restorable rc now s \<longleftrightarrow>
     list_all (\<lambda>(k, x). k = t_id x \<and> normalize_team rc x = Some x) (teams s)
   \<and> list_all (\<lambda>(k, r). k = r_id r \<and> normalize_room rc s r = Some r) (rooms s)
   \<and> list_all (\<lambda>(k, i). k = i_id i \<and> normalize_invite rc s i = Some i \<and> \<not> is_expired_invite now i) (invites s)
   \<and> list_all (\<lambda>(k, d). k = device_key (d_user d) (d_device d) \<and> normalize_device rc d = Some d) (devices s)
   \<and> list_all (\<lambda>(k, p). k = k_id p \<and> normalize_key_package rc s p = Some p) (keyPackages s)
   \<and> list_all (\<lambda>(k, c). k = ck_hash c \<and> normalize_consumed c = Some c) (consumedKeyPackages s)
   \<and> list_all (\<lambda>(k, q). k = q_id q \<and> normalize_request rc s q = Some q) (inviteRequests s)
   \<and> list_all (\<lambda>(k, r). k = s_request r \<and> normalize_welcome rc s r = Some r) (inviteResponses s)
   \<and> list_all (\<lambda>(t, ms). t \<noteq> [] \<and> normalize_relay_id (J_str t) max_relay_id = Some t \<and> jhas (teams s) t
        \<and> ms \<noteq> [] \<and> stored_members (rs_cf rc) t (jvalues ms) [] = Some ms) (teamMembers s)
   \<and> list_all (\<lambda>(k, a). k = ar_request a \<and> normalize_ack rc now s a = Some a) (inviteAckReceipts s)
   \<and> list_all (\<lambda>(k, x). k = receipt_key (mr_room x) (mr_message x) \<and> normalize_receipt rc now s x = Some x) (acceptedMessageReceipts s)
   \<and> list_all (\<lambda>(k, a). k = a_id a \<and> normalize_attachment rc s a = Some a \<and> \<not> is_expired_attachment_blob now a) (attachmentBlobs s)
   \<and> list_all (\<lambda>(k, a). k = as_hash a \<and> normalize_stored_auth_session now (stored_session_json a) = Some a) (authSessions s)
   \<and> list_all (\<lambda>(k, r). k = re_user r \<and> normalize_restriction rc now r = Some r) (accountRestrictions s)
   \<and> list_all (\<lambda>(k, q). k = qr_key q \<and> normalize_quota now q = Some q) (accountQuotaRecords s)
   \<and> list_all (\<lambda>(k, ms). ms \<noteq> [] \<and> prune_mls_backlog (rs_mls rc) now ms = ms
        \<and> normalize_stored_backlog rc now s (k, ms) = Some (k, ms)) (mlsBacklog s)
   \<and> one_shot_key_packages s \<and> list_all (\<lambda>(t, x). team_membership_valid (jkeys (teamMembers s)) s t x) (teams s)
   \<and> list_all (room_host_valid s) (jvalues (rooms s))"

section \<open>The normalizers look up what is rebuilt already\<close>

lemma rebuilt_lookups:
  assumes "rebuilt n t u" and "store_ok u"
  shows "0 < n \<Longrightarrow> jget (teams t) = jget (teams u)" and "1 < n \<Longrightarrow> jget (rooms t) = jget (rooms u)"
    and "2 < n \<Longrightarrow> jget (invites t) = jget (invites u)" and "3 < n \<Longrightarrow> jget (devices t) = jget (devices u)"
    and "8 < n \<Longrightarrow> jget (teamMembers t) = jget (teamMembers u)"
  using assms by (auto simp: rebuilt_def store_ok_def store_wf_def intro!: same_lookup)

lemmas lookup_defs = jhas_def get_device_def has_team_member_def members_of_def is_known_room_def

lemma room_lookups:
  assumes "jget (teams t) = jget (teams u)"
  shows "normalize_room rc t = normalize_room rc u"
  by (rule ext) (unfold normalize_room_def lookup_defs assms, rule refl)

lemma invite_lookups:
  assumes "jget (teams t) = jget (teams u)" and "jget (rooms t) = jget (rooms u)"
  shows "normalize_invite rc t = normalize_invite rc u"
  by (rule ext) (unfold normalize_invite_def lookup_defs assms, rule refl)

lemma key_package_lookups:
  assumes "jget (devices t) = jget (devices u)"
  shows "normalize_key_package rc t = normalize_key_package rc u"
  by (rule ext) (unfold normalize_key_package_def lookup_defs assms, rule refl)

lemma request_lookups:
  assumes "jget (invites t) = jget (invites u)" and "jget (rooms t) = jget (rooms u)"
  shows "normalize_request rc t = normalize_request rc u"
  by (rule ext) (unfold normalize_request_def lookup_defs assms, rule refl)

lemma welcome_lookups:
  assumes "jget (invites t) = jget (invites u)"
  shows "normalize_welcome rc t = normalize_welcome rc u"
  by (rule ext) (unfold normalize_welcome_def lookup_defs assms, rule refl)

lemma ack_lookups:
  assumes "jget (teams t) = jget (teams u)" and "jget (teamMembers t) = jget (teamMembers u)"
  shows "normalize_ack rc now t = normalize_ack rc now u"
  by (rule ext) (unfold normalize_ack_def lookup_defs assms, rule refl)

lemma receipt_lookups:
  assumes "jget (rooms t) = jget (rooms u)"
  shows "normalize_receipt rc now t = normalize_receipt rc now u"
  by (rule ext) (unfold normalize_receipt_def lookup_defs assms, rule refl)

lemma attachment_lookups:
  assumes "jget (teams t) = jget (teams u)" and "jget (rooms t) = jget (rooms u)"
  shows "normalize_attachment rc t = normalize_attachment rc u"
  by (rule ext) (unfold normalize_attachment_def lookup_defs assms, rule refl)

lemma stored_backlog_lookups:
  assumes "jget (rooms t) = jget (rooms u)"
  shows "normalize_stored_backlog rc now t = normalize_stored_backlog rc now u"
  by (rule ext) (unfold normalize_stored_backlog_def lookup_defs assms, rule refl)

lemmas normalizer_lookups = room_lookups invite_lookups key_package_lookups request_lookups welcome_lookups ack_lookups
  receipt_lookups attachment_lookups stored_backlog_lookups

section \<open>The stages\<close>

lemma restorable_entries:
  assumes "restorable rc now u"
  shows "(k, v1) \<in> set (teams u) \<Longrightarrow> k = t_id v1 \<and> normalize_team rc v1 = Some v1"
    and "(k, v2) \<in> set (rooms u) \<Longrightarrow> k = r_id v2 \<and> normalize_room rc u v2 = Some v2"
    and "(k, v3) \<in> set (invites u) \<Longrightarrow> k = i_id v3 \<and> normalize_invite rc u v3 = Some v3 \<and> \<not> is_expired_invite now v3"
    and "(k, v4) \<in> set (devices u) \<Longrightarrow> k = device_key (d_user v4) (d_device v4) \<and> normalize_device rc v4 = Some v4"
    and "(k, v5) \<in> set (keyPackages u) \<Longrightarrow> k = k_id v5 \<and> normalize_key_package rc u v5 = Some v5"
    and "(k, v6) \<in> set (consumedKeyPackages u) \<Longrightarrow> k = ck_hash v6 \<and> normalize_consumed v6 = Some v6"
    and "(k, v7) \<in> set (inviteRequests u) \<Longrightarrow> k = q_id v7 \<and> normalize_request rc u v7 = Some v7"
    and "(k, v8) \<in> set (inviteResponses u) \<Longrightarrow> k = s_request v8 \<and> normalize_welcome rc u v8 = Some v8"
    and "(k, v9) \<in> set (inviteAckReceipts u) \<Longrightarrow> k = ar_request v9 \<and> normalize_ack rc now u v9 = Some v9"
    and "(k, v10) \<in> set (acceptedMessageReceipts u) \<Longrightarrow> k = receipt_key (mr_room v10) (mr_message v10) \<and> normalize_receipt rc now u v10 = Some v10"
    and "(k, v11) \<in> set (attachmentBlobs u) \<Longrightarrow> k = a_id v11 \<and> normalize_attachment rc u v11 = Some v11 \<and> \<not> is_expired_attachment_blob now v11"
    and "(k, v12) \<in> set (authSessions u) \<Longrightarrow> k = as_hash v12 \<and> normalize_stored_auth_session now (stored_session_json v12) = Some v12"
    and "(k, v13) \<in> set (accountRestrictions u) \<Longrightarrow> k = re_user v13 \<and> normalize_restriction rc now v13 = Some v13"
    and "(k, v14) \<in> set (accountQuotaRecords u) \<Longrightarrow> k = qr_key v14 \<and> normalize_quota now v14 = Some v14"
    and "(k, ms) \<in> set (teamMembers u) \<Longrightarrow> k \<noteq> [] \<and> normalize_relay_id (J_str k) max_relay_id = Some k \<and> jhas (teams u) k
      \<and> ms \<noteq> [] \<and> stored_members (rs_cf rc) k (jvalues ms) [] = Some ms"
  using assms unfolding restorable_def list_all_iff by fast+

text \<open>Of the rows of a restorable store, none is left out as expired.\<close>

lemma stored_rows:
  assumes "restorable rc now u"
  shows "to_stored_rows now u E_teams = map (\<lambda>(k, x). V_team x) (teams u)" "to_stored_rows now u E_rooms = map (\<lambda>(k, x). V_room x) (rooms u)"
  "to_stored_rows now u E_devices = map (\<lambda>(k, x). V_device x) (devices u)"
  "to_stored_rows now u E_keyPackages = map (\<lambda>(k, x). V_key_package x) (keyPackages u)"
  "to_stored_rows now u E_consumedKeyPackages = map (\<lambda>(k, x). V_consumed x) (consumedKeyPackages u)"
  "to_stored_rows now u E_inviteRequests = map (\<lambda>(k, x). V_request x) (inviteRequests u)"
  "to_stored_rows now u E_inviteResponses = map (\<lambda>(k, x). V_response x) (inviteResponses u)"
  "to_stored_rows now u E_inviteAckReceipts = map (\<lambda>(k, x). V_ack x) (inviteAckReceipts u)"
  "to_stored_rows now u E_acceptedMessageReceipts = map (\<lambda>(k, x). V_receipt x) (acceptedMessageReceipts u)"
  "to_stored_rows now u E_invites = map (\<lambda>(k, x). V_invite x) (invites u)"
  "to_stored_rows now u E_attachmentBlobs = map (\<lambda>(k, x). V_attachment x) (attachmentBlobs u)"
  "to_stored_rows now u E_authSessions = map (\<lambda>(k, x). V_auth x) (authSessions u)"
  "to_stored_rows now u E_accountRestrictions = map (\<lambda>(k, x). V_restriction x) (accountRestrictions u)"
  "to_stored_rows now u E_accountQuotaRecords = map (\<lambda>(k, x). V_quota x) (accountQuotaRecords u)"
proof -
  note e = restorable_entries [OF assms]
  have all: "filter P (map snd m) = map snd m" if "\<And>k v. (k, v) \<in> set m \<Longrightarrow> P v" for P and m :: "(string \<times> 'a) list"
    using that by (force simp: filter_id_conv)
  have "filter (\<lambda>i. \<not> is_expired_invite now i) (map snd (invites u)) = map snd (invites u)"
    by (rule all) (simp add: e(3))
  moreover have "filter (\<lambda>a. \<not> is_expired_attachment_blob now a) (map snd (attachmentBlobs u)) = map snd (attachmentBlobs u)"
    by (rule all) (simp add: e(11))
  moreover have "\<not> is_expired_restriction now r" if "normalize_restriction rc now r = Some r" for r
    using that by (simp add: normalize_restriction_def split: if_splits option.splits)
  then have "filter (\<lambda>r. \<not> is_expired_restriction now r) (map snd (accountRestrictions u)) = map snd (accountRestrictions u)"
    by (intro all) (use e(13) in blast)
  moreover have "qr_reset q > now" if "normalize_quota now q = Some q" for q
    using that by (simp add: normalize_quota_def split: if_splits)
  then have "filter (\<lambda>q. qr_reset q > now) (map snd (accountQuotaRecords u)) = map snd (accountQuotaRecords u)"
    by (intro all) (use e(14) in blast)
  moreover have "\<not> as_expires a \<le> now \<and> is_auth_session_id_hash (as_hash a)"
    if "normalize_stored_auth_session now (stored_session_json a) = Some a" for a
    using that by (auto simp: normalize_stored_auth_session_def stored_session_json_def field_of_def Let_def split: if_splits option.splits jsv.splits)
  then have "stored_auth_sessions now (authSessions u) = map snd (authSessions u)"
    unfolding stored_auth_sessions_def by (intro arg_cong [where f = "map snd"]) (use e(12) in \<open>auto simp: filter_id_conv\<close>)
  ultimately show 
   "to_stored_rows now u E_teams = map (\<lambda>(k, x). V_team x) (teams u)" "to_stored_rows now u E_rooms = map (\<lambda>(k, x). V_room x) (rooms u)"
  "to_stored_rows now u E_devices = map (\<lambda>(k, x). V_device x) (devices u)"
  "to_stored_rows now u E_keyPackages = map (\<lambda>(k, x). V_key_package x) (keyPackages u)"
  "to_stored_rows now u E_consumedKeyPackages = map (\<lambda>(k, x). V_consumed x) (consumedKeyPackages u)"
  "to_stored_rows now u E_inviteRequests = map (\<lambda>(k, x). V_request x) (inviteRequests u)"
  "to_stored_rows now u E_inviteResponses = map (\<lambda>(k, x). V_response x) (inviteResponses u)"
  "to_stored_rows now u E_inviteAckReceipts = map (\<lambda>(k, x). V_ack x) (inviteAckReceipts u)"
  "to_stored_rows now u E_acceptedMessageReceipts = map (\<lambda>(k, x). V_receipt x) (acceptedMessageReceipts u)"
  "to_stored_rows now u E_invites = map (\<lambda>(k, x). V_invite x) (invites u)"
  "to_stored_rows now u E_attachmentBlobs = map (\<lambda>(k, x). V_attachment x) (attachmentBlobs u)"
  "to_stored_rows now u E_authSessions = map (\<lambda>(k, x). V_auth x) (authSessions u)"
  "to_stored_rows now u E_accountRestrictions = map (\<lambda>(k, x). V_restriction x) (accountRestrictions u)"
  "to_stored_rows now u E_accountQuotaRecords = map (\<lambda>(k, x). V_quota x) (accountQuotaRecords u)"
    by (simp_all add: to_stored_rows_def jvalues_def case_prod_unfold comp_def)
qed

lemma teams_rebuilt:
  assumes u: "store_ok u" and r: "restorable rc now u" and t: "rebuilding 0 t u" and rows: "mset vs = mset (to_stored_rows now u E_teams)"
  shows "\<exists>t'. load_teams rc vs t = Done t' \<and> rebuilding (Suc 0) t' u"
proof -
  note entries = restorable_entries(1) [OF r]
  show ?thesis
    unfolding load_teams_def using entries rows
    by (intro team_st.stage_refills [OF u t, where con = "\<lambda>(k, x). V_team x" and row = "\<lambda>k x. x"])
       (auto simp: team_map_def stored_rows [OF r] stage_apps jhas_def)
qed

lemma rooms_rebuilt:
  assumes u: "store_ok u" and r: "restorable rc now u" and t: "rebuilding 1 t u" and rows: "mset vs = mset (to_stored_rows now u E_rooms)"
  shows "\<exists>t'. load_rooms rc vs t = Done t' \<and> rebuilding (Suc 1) t' u"
proof -
  note entries = restorable_entries(2) [OF r]
  have "normalize_room rc t v = Some v" if "(k, v) \<in> set (rooms u)" "rebuilt 1 (t\<lparr>rooms := []\<rparr>) u" for k v t
    using entries [OF that(1)] rebuilt_lookups(1) [OF that(2) u] by (simp add: normalizer_lookups [of t u])
  then show ?thesis
    unfolding load_rooms_def using entries rows
    by (intro room_st.stage_refills [OF u t, where con = "\<lambda>(k, x). V_room x" and row = "\<lambda>k x. x"])
       (auto simp: room_map_def stored_rows [OF r] stage_apps jhas_def)
qed

lemma invites_rebuilt:
  assumes u: "store_ok u" and r: "restorable rc now u" and t: "rebuilding 2 t u" and rows: "mset vs = mset (to_stored_rows now u E_invites)"
  shows "\<exists>t'. load_invites rc now vs t = Done t' \<and> rebuilding (Suc 2) t' u"
proof -
  note entries = restorable_entries(3) [OF r]
  have "normalize_invite rc t v = Some v" if "(k, v) \<in> set (invites u)" "rebuilt 2 (t\<lparr>invites := []\<rparr>) u" for k v t
    using entries [OF that(1)] rebuilt_lookups(1) [OF that(2) u] rebuilt_lookups(2) [OF that(2) u] by (simp add: normalizer_lookups [of t u])
  then show ?thesis
    unfolding load_invites_def using entries rows
    by (intro invite_st.stage_refills [OF u t, where con = "\<lambda>(k, x). V_invite x" and row = "\<lambda>k x. x"])
       (auto simp: invite_map_def stored_rows [OF r] stage_apps jhas_def)
qed

lemma devices_rebuilt:
  assumes u: "store_ok u" and r: "restorable rc now u" and t: "rebuilding 3 t u" and rows: "mset vs = mset (to_stored_rows now u E_devices)"
  shows "\<exists>t'. load_devices rc vs t = Done t' \<and> rebuilding (Suc 3) t' u"
proof -
  note entries = restorable_entries(4) [OF r]
  show ?thesis
    unfolding load_devices_def using entries rows
    by (intro device_st.stage_refills [OF u t, where con = "\<lambda>(k, x). V_device x" and row = "\<lambda>k x. x"])
       (auto simp: device_map_def stored_rows [OF r] stage_apps jhas_def)
qed

lemma keyPackages_rebuilt:
  assumes u: "store_ok u" and r: "restorable rc now u" and t: "rebuilding 4 t u" and rows: "mset vs = mset (to_stored_rows now u E_keyPackages)"
  shows "\<exists>t'. load_key_packages rc vs t = Done t' \<and> rebuilding (Suc 4) t' u"
proof -
  note entries = restorable_entries(5) [OF r]
  have "normalize_key_package rc t v = Some v" if "(k, v) \<in> set (keyPackages u)" "rebuilt 4 (t\<lparr>keyPackages := []\<rparr>) u" for k v t
    using entries [OF that(1)] rebuilt_lookups(4) [OF that(2) u] by (simp add: normalizer_lookups [of t u])
  then show ?thesis
    unfolding load_key_packages_def using entries rows
    by (intro key_package_st.stage_refills [OF u t, where con = "\<lambda>(k, x). V_key_package x" and row = "\<lambda>k x. x"])
       (auto simp: key_package_map_def stored_rows [OF r] stage_apps jhas_def)
qed

lemma consumedKeyPackages_rebuilt:
  assumes u: "store_ok u" and r: "restorable rc now u" and t: "rebuilding 5 t u" and rows: "mset vs = mset (to_stored_rows now u E_consumedKeyPackages)"
  shows "\<exists>t'. load_consumed vs t = Done t' \<and> rebuilding (Suc 5) t' u"
proof -
  note entries = restorable_entries(6) [OF r]
  show ?thesis
    unfolding load_consumed_def using entries rows
    by (intro consumed_st.stage_refills [OF u t, where con = "\<lambda>(k, x). V_consumed x" and row = "\<lambda>k x. x"])
       (auto simp: consumed_map_def stored_rows [OF r] stage_apps jhas_def)
qed

lemma inviteRequests_rebuilt:
  assumes u: "store_ok u" and r: "restorable rc now u" and t: "rebuilding 6 t u" and rows: "mset vs = mset (to_stored_rows now u E_inviteRequests)"
  shows "\<exists>t'. load_requests rc vs t = Done t' \<and> rebuilding (Suc 6) t' u"
proof -
  note entries = restorable_entries(7) [OF r]
  have "normalize_request rc t v = Some v" if "(k, v) \<in> set (inviteRequests u)" "rebuilt 6 (t\<lparr>inviteRequests := []\<rparr>) u" for k v t
    using entries [OF that(1)] rebuilt_lookups(3) [OF that(2) u] rebuilt_lookups(2) [OF that(2) u] by (simp add: normalizer_lookups [of t u])
  then show ?thesis
    unfolding load_requests_def using entries rows
    by (intro request_st.stage_refills [OF u t, where con = "\<lambda>(k, x). V_request x" and row = "\<lambda>k x. x"])
       (auto simp: request_map_def stored_rows [OF r] stage_apps jhas_def)
qed

lemma inviteResponses_rebuilt:
  assumes u: "store_ok u" and r: "restorable rc now u" and t: "rebuilding 7 t u" and rows: "mset vs = mset (to_stored_rows now u E_inviteResponses)"
  shows "\<exists>t'. load_responses rc vs t = Done t' \<and> rebuilding (Suc 7) t' u"
proof -
  note entries = restorable_entries(8) [OF r]
  have "normalize_welcome rc t v = Some v" if "(k, v) \<in> set (inviteResponses u)" "rebuilt 7 (t\<lparr>inviteResponses := []\<rparr>) u" for k v t
    using entries [OF that(1)] rebuilt_lookups(3) [OF that(2) u] by (simp add: normalizer_lookups [of t u])
  then show ?thesis
    unfolding load_responses_def using entries rows
    by (intro response_st.stage_refills [OF u t, where con = "\<lambda>(k, x). V_response x" and row = "\<lambda>k x. x"])
       (auto simp: response_map_def stored_rows [OF r] stage_apps jhas_def)
qed

lemma inviteAckReceipts_rebuilt:
  assumes u: "store_ok u" and r: "restorable rc now u" and t: "rebuilding 9 t u" and rows: "mset vs = mset (to_stored_rows now u E_inviteAckReceipts)"
  shows "\<exists>t'. load_acks rc now vs t = Done t' \<and> rebuilding (Suc 9) t' u"
proof -
  note entries = restorable_entries(9) [OF r]
  have "normalize_ack rc now t v = Some v" if "(k, v) \<in> set (inviteAckReceipts u)" "rebuilt 9 (t\<lparr>inviteAckReceipts := []\<rparr>) u" for k v t
    using entries [OF that(1)] rebuilt_lookups(1) [OF that(2) u] rebuilt_lookups(5) [OF that(2) u] by (simp add: normalizer_lookups [of t u])
  then show ?thesis
    unfolding load_acks_def using entries rows
    by (intro ack_st.stage_refills [OF u t, where con = "\<lambda>(k, x). V_ack x" and row = "\<lambda>k x. x"])
       (auto simp: ack_map_def stored_rows [OF r] stage_apps jhas_def)
qed

lemma acceptedMessageReceipts_rebuilt:
  assumes u: "store_ok u" and r: "restorable rc now u" and t: "rebuilding 10 t u" and rows: "mset vs = mset (to_stored_rows now u E_acceptedMessageReceipts)"
  shows "\<exists>t'. load_receipts rc now vs t = Done t' \<and> rebuilding (Suc 10) t' u"
proof -
  note entries = restorable_entries(10) [OF r]
  have "normalize_receipt rc now t v = Some v" if "(k, v) \<in> set (acceptedMessageReceipts u)" "rebuilt 10 (t\<lparr>acceptedMessageReceipts := []\<rparr>) u" for k v t
    using entries [OF that(1)] rebuilt_lookups(2) [OF that(2) u] by (simp add: normalizer_lookups [of t u])
  then show ?thesis
    unfolding load_receipts_def using entries rows
    by (intro receipt_st.stage_refills [OF u t, where con = "\<lambda>(k, x). V_receipt x" and row = "\<lambda>k x. x"])
       (auto simp: receipt_map_def stored_rows [OF r] stage_apps jhas_def)
qed

lemma attachmentBlobs_rebuilt:
  assumes u: "store_ok u" and r: "restorable rc now u" and t: "rebuilding 11 t u" and rows: "mset vs = mset (to_stored_rows now u E_attachmentBlobs)"
  shows "\<exists>t'. load_attachments rc now vs t = Done t' \<and> rebuilding (Suc 11) t' u"
proof -
  note entries = restorable_entries(11) [OF r]
  have "normalize_attachment rc t v = Some v" if "(k, v) \<in> set (attachmentBlobs u)" "rebuilt 11 (t\<lparr>attachmentBlobs := []\<rparr>) u" for k v t
    using entries [OF that(1)] rebuilt_lookups(1) [OF that(2) u] rebuilt_lookups(2) [OF that(2) u] by (simp add: normalizer_lookups [of t u])
  then show ?thesis
    unfolding load_attachments_def using entries rows
    by (intro attachment_st.stage_refills [OF u t, where con = "\<lambda>(k, x). V_attachment x" and row = "\<lambda>k x. x"])
       (auto simp: attachment_map_def stored_rows [OF r] stage_apps jhas_def)
qed

lemma authSessions_rebuilt:
  assumes u: "store_ok u" and r: "restorable rc now u" and t: "rebuilding 12 t u" and rows: "mset vs = mset (to_stored_rows now u E_authSessions)"
  shows "\<exists>t'. load_sessions now vs t = Done t' \<and> rebuilding (Suc 12) t' u"
proof -
  note entries = restorable_entries(12) [OF r]
  show ?thesis
    unfolding load_sessions_def using entries rows
    by (intro auth_st.stage_refills [OF u t, where con = "\<lambda>(k, x). V_auth x" and row = "\<lambda>k x. x"])
       (auto simp: auth_map_def stored_rows [OF r] stage_apps jhas_def)
qed

lemma accountRestrictions_rebuilt:
  assumes u: "store_ok u" and r: "restorable rc now u" and t: "rebuilding 13 t u" and rows: "mset vs = mset (to_stored_rows now u E_accountRestrictions)"
  shows "\<exists>t'. load_restrictions rc now vs t = Done t' \<and> rebuilding (Suc 13) t' u"
proof -
  note entries = restorable_entries(13) [OF r]
  show ?thesis
    unfolding load_restrictions_def using entries rows
    by (intro restriction_st.stage_refills [OF u t, where con = "\<lambda>(k, x). V_restriction x" and row = "\<lambda>k x. x"])
       (auto simp: restriction_map_def stored_rows [OF r] stage_apps jhas_def)
qed

lemma accountQuotaRecords_rebuilt:
  assumes u: "store_ok u" and r: "restorable rc now u" and t: "rebuilding 14 t u" and rows: "mset vs = mset (to_stored_rows now u E_accountQuotaRecords)"
  shows "\<exists>t'. load_quotas now vs t = Done t' \<and> rebuilding (Suc 14) t' u"
proof -
  note entries = restorable_entries(14) [OF r]
  show ?thesis
    unfolding load_quotas_def using entries rows
    by (intro quota_st.stage_refills [OF u t, where con = "\<lambda>(k, x). V_quota x" and row = "\<lambda>k x. x"])
       (auto simp: quota_map_def stored_rows [OF r] stage_apps jhas_def)
qed

lemma mlsBacklog_rebuilt:
  assumes u: "store_ok u" and r: "restorable rc now u" and t: "rebuilding 15 t u"
    and rows: "mset backlog = mset (to_stored_backlog (rs_mls rc) now u)"
  shows "\<exists>t'. load_backlogs rc now backlog t = Done t' \<and> rebuilding (Suc 15) t' u"
proof -
  have entries: "ms \<noteq> [] \<and> prune_mls_backlog (rs_mls rc) now ms = ms \<and> normalize_stored_backlog rc now u (k, ms) = Some (k, ms)"
    if "(k, ms) \<in> set (mlsBacklog u)" for k ms
    using r that unfolding restorable_def list_all_iff by fast
  have same: "(k, prune_mls_backlog (rs_mls rc) now ms) = (k, ms)" if "(k, ms) \<in> set (mlsBacklog u)" for k ms
    using entries [OF that] by simp
  then have "map (\<lambda>(k, ms). (k, prune_mls_backlog (rs_mls rc) now ms)) (mlsBacklog u) = mlsBacklog u"
    by (intro map_idI) auto
  then have all: "to_stored_backlog (rs_mls rc) now u = mlsBacklog u"
    using entries by (auto simp: to_stored_backlog_def filter_id_conv)
  have norm: "normalize_stored_backlog rc now t (k, v) = Some (k, v)" if "(k, v) \<in> set (mlsBacklog u)" "rebuilt 15 (t\<lparr>mlsBacklog := []\<rparr>) u" for k v t
    using entries [OF that(1)] rebuilt_lookups(2) [OF that(2) u] by (simp add: normalizer_lookups [of t u])
  have get: "tr_get backlog_map = mlsBacklog" by (simp add: backlog_map_def)
  have "mset (map (\<lambda>(k, ms). V_backlog k ms) backlog) = mset (map (\<lambda>(k, ms). V_backlog k ms) (tr_get backlog_map u))"
    using rows by (simp add: get all)
  then show ?thesis
    unfolding load_backlogs_def
    by (rule backlog_st.stage_refills [OF u t, where con = "\<lambda>(k, ms). V_backlog k ms" and row = Pair])
       (use norm entries in \<open>auto simp: get backlog_put\<close>)
qed

section \<open>The members\<close>

lemma ec_adjust_complete:
  assumes "ec_counts c E" and "int (size E) + int n \<le> ec_max c"
    and "\<And>j. t = Some j \<Longrightarrow> j \<noteq> [] \<Longrightarrow> int (count E (Some j)) + int n \<le> ec_max_team c"
  shows "\<exists>c'. ec_adjust (int n) t c = Done c'"
  using assms by (cases t) (auto simp: ec_adjust_def ec_counts_def Let_def)

lemma members_fit:
  assumes t: "store_ok t" "store_limits t = store_limits u" "part_of t u" and u: "store_ok u" and new: "jget (teamMembers t) k = None"
    and sub: "add_mset (k, ms) (mset (teamMembers t)) \<subseteq># mset (teamMembers u)"
  obtains t' where "set_team_members k ms t = Done t'"
proof -
  let ?t = "t\<lparr>st_cap := st_cap t, teamMembers := jset k ms (teamMembers t)\<rparr>"
  have "part_of ?t u" using t(3) sub new by (simp add: part_of_def mset_jset_new)
  from fits_mono [OF store_ok_fits [OF u] part_entries [OF this] subset_mset.order_refl]
  have room: "fits t (entry_teams ?t) (entry_weights u)" using fits_limits [OF t(2)] by simp
  obtain R where R: "entry_teams t = member_teams (teamMembers t) + R"
    and R': "\<And>m c. entry_teams (t\<lparr>st_cap := c, teamMembers := m\<rparr>) = member_teams m + R"
    by (rule entry_teams_members [of t]) blast
  have "entry_teams ?t = entry_teams t + replicate_mset (Suc (length ms)) (Some k)"
    unfolding R R' by (simp add: member_teams_def mset_jset_new [OF new])
  then have "\<exists>c. ec_adjust (int (Suc (length ms))) (Some k) (st_cap t) = Done c"
    using room t(1) by (intro ec_adjust_complete) (auto simp: fits_def store_ok_def simp del: of_nat_Suc)
  then show ?thesis using that new by (auto simp: set_team_members_slots team_slots_def members_of_def simp del: of_nat_Suc)
qed

definition members_stand :: "relay_store \<Rightarrow> relay_store \<Rightarrow> (string, (string, team_member) jmap) jmap \<Rightarrow> relay_store \<Rightarrow> bool" where
  "members_stand s u m t \<longleftrightarrow> store_ok t \<and> store_limits t = store_limits u \<and> store_data t = (store_data s)\<lparr>teamMembers := m\<rparr>"

lemma members_stand_fields:
  assumes "members_stand s u m t" shows "teamMembers t = m" and "teams t = teams s"
  using fields_by_data(4,16) [of t "(store_data s)\<lparr>teamMembers := m\<rparr>"] assms
  by (simp_all add: members_stand_def store_data_def)

lemma set_team_members_limits: "set_team_members k ms t = Done t' \<Longrightarrow> store_limits t' = store_limits t"
  using ec_Done_limits(1) by (auto simp: set_team_members_def Let_def store_limits_def log_mutation_def split: outcome.splits)

lemma members_step:
  assumes t: "members_stand s u m t" and s: "part_of s u" and u: "store_ok u" and wf: "jwf ms" and new: "k \<notin> fst ` set m"
    and sub: "add_mset (k, ms) (mset m) \<subseteq># mset (teamMembers u)"
  obtains t' where "set_team_members k ms t = Done t'" "members_stand s u (m @ [(k, ms)]) t'"
proof -
  have m: "teamMembers t = m" using t by (rule members_stand_fields)
  have none: "jget m k = None" using new by (simp add: map_of_eq_None_iff)
  have "sub_map m (teamMembers u)" using sub by (metis mset_subset_eq_add_mset_cancel mset_subset_eq_insertD subset_mset.less_imp_le)
  then have "part_of ((store_data s)\<lparr>teamMembers := m\<rparr>) u" using s by (simp add: part_of_def store_data_def)
  then have "part_of t u" using t unfolding members_stand_def by (metis part_of_frame(4))
  then obtain t' where set: "set_team_members k ms t = Done t'"
    by (rule members_fit [where u = u and k = k and ms = ms and t = t, rotated 2]) (use t u none sub in \<open>simp_all add: m members_stand_def\<close>)
  have "store_data t' = (store_data s)\<lparr>teamMembers := m @ [(k, ms)]\<rparr>"
    using set_team_members_data [OF set] t by (simp add: members_stand_def m jset_new [OF none])
  moreover have "store_ok t'" using set_team_members_ok [of t ms k] t wf set by (simp add: members_stand_def)
  ultimately show ?thesis using that set set_team_members_limits [OF set] t by (simp add: members_stand_def)
qed

lemma members_replayed:
  assumes u: "store_ok u" and s: "part_of s u" and t: "members_stand s u ys t" and all: "mset (ys @ xs) = mset (teamMembers u)"
    and entries: "\<And>k ms. (k, ms) \<in> set xs \<Longrightarrow> k \<noteq> [] \<and> normalize_relay_id (J_str k) max_relay_id = Some k \<and> jhas (teams s) k
        \<and> ms \<noteq> [] \<and> stored_members (rs_cf rc) k (jvalues ms) [] = Some ms"
    and seen: "set seen = fst ` set ys"
  shows "\<exists>t'. load_members rc seen (map (\<lambda>(k, ms). V_members k (jvalues ms)) xs) t = Done t' \<and> members_stand s u (ys @ xs) t'"
  using t all entries seen
proof (induction xs arbitrary: ys t seen)
  case Nil
  then show ?case by simp
next
  case (Cons x xs)
  obtain k ms where x: "x = (k, ms)" by (cases x)
  note e = Cons.prems(3) [of k ms, unfolded x, simplified]
  have "distinct (map fst (ys @ x # xs))"
    using u Cons.prems(2) by (metis mset_eq_imp_distinct_iff mset_map store_ok_def store_wf_def)
  then have new: "k \<notin> fst ` set ys" by (auto simp: x)
  have "add_mset (k, ms) (mset ys) \<subseteq># mset (teamMembers u)" unfolding Cons.prems(2) [symmetric] by (simp add: x)
  moreover have "jwf ms" using e jwf_stored_members [of "rs_cf rc" k "jvalues ms" "[]" ms] by simp
  ultimately obtain t1 where set: "set_team_members k ms t = Done t1" and t1: "members_stand s u (ys @ [(k, ms)]) t1"
    using members_step [OF Cons.prems(1) s u _ new] by blast
  have "apply_stored_team_members rc k (jvalues ms) t = Done t1"
    using e set members_stand_fields(2) [OF Cons.prems(1)] by (simp add: apply_stored_team_members_def)
  moreover obtain t' where "load_members rc (k # seen) (map (\<lambda>(k, ms). V_members k (jvalues ms)) xs) t1 = Done t'"
    "members_stand s u ((ys @ [(k, ms)]) @ xs) t'"
    using Cons.IH [OF t1, of "k # seen"] Cons.prems(2-4) by (auto simp: x)
  ultimately show ?case using e new Cons.prems(4) by (auto simp: x)
qed

lemma teamMembers_rebuilt:
  assumes u: "store_ok u" and r: "restorable rc now u" and t: "rebuilding 8 t u" and rows: "mset vs = mset (to_stored_rows now u E_teamMembers)"
  shows "\<exists>t'. load_members rc [] vs t = Done t' \<and> rebuilding (Suc 8) t' u"
proof -
  obtain xs where vs: "vs = map (\<lambda>(k, ms). V_members k (jvalues ms)) xs" and xs: "mset xs = mset (teamMembers u)"
    by (rule mset_map_split [of vs "\<lambda>(k, ms). V_members k (jvalues ms)" "teamMembers u"]) (use rows in \<open>simp add: to_stored_rows_def\<close>)
  have part: "part_of t u" using t rebuilt_part by (auto simp: rebuilding_def)
  have "teamMembers t = []" "rebuilt 8 t u" using t by (simp_all add: rebuilding_def rebuilt_def)
  then have stand: "members_stand t u [] t" using t by (simp add: members_stand_def rebuilding_def store_data_def)
  have teams: "jget (teams t) = jget (teams u)" by (rule rebuilt_lookups(1) [OF \<open>rebuilt 8 t u\<close> u]) simp
  have sets: "set xs = set (teamMembers u)" using xs by (rule mset_eq_setD)
  have entries: "k \<noteq> [] \<and> normalize_relay_id (J_str k) max_relay_id = Some k \<and> jhas (teams t) k
      \<and> ms \<noteq> [] \<and> stored_members (rs_cf rc) k (jvalues ms) [] = Some ms" if "(k, ms) \<in> set xs" for k ms
    using restorable_entries(15) [OF r, of k ms] that by (simp add: sets jhas_def teams)
  obtain t' where t': "load_members rc [] vs t = Done t'" "members_stand t u xs t'"
    using members_replayed [OF u part stand, of xs rc "[]"] xs entries by (auto simp: vs)
  have "rebuilt (Suc 8) ((store_data t)\<lparr>teamMembers := xs\<rparr>) u"
    using t xs by (simp add: rebuilding_def rebuilt_def store_data_def)
  then have "rebuilt (Suc 8) t' u" using t'(2) unfolding members_stand_def by (metis rebuilt_data)
  with t' show ?thesis by (auto simp: members_stand_def rebuilding_def)
qed

section \<open>A restart\<close>

definition same_records :: "relay_store \<Rightarrow> relay_store \<Rightarrow> bool" where
  "same_records s u \<longleftrightarrow> mset (teams s) = mset (teams u) \<and> mset (teamMembers s) = mset (teamMembers u)
     \<and> mset (rooms s) = mset (rooms u) \<and> mset (mlsBacklog s) = mset (mlsBacklog u)
     \<and> mset (acceptedMessageReceipts s) = mset (acceptedMessageReceipts u) \<and> mset (invites s) = mset (invites u)
     \<and> mset (inviteRequests s) = mset (inviteRequests u) \<and> mset (inviteResponses s) = mset (inviteResponses u)
     \<and> mset (inviteAckReceipts s) = mset (inviteAckReceipts u) \<and> mset (devices s) = mset (devices u)
     \<and> mset (keyPackages s) = mset (keyPackages u) \<and> mset (consumedKeyPackages s) = mset (consumedKeyPackages u)
     \<and> mset (attachmentBlobs s) = mset (attachmentBlobs u) \<and> mset (authSessions s) = mset (authSessions u)
     \<and> mset (accountRestrictions s) = mset (accountRestrictions u) \<and> mset (accountQuotaRecords s) = mset (accountQuotaRecords u)"

lemma rebuilt_records: "rebuilt 16 s u \<Longrightarrow> same_records s u"
  by (simp add: rebuilt_def same_records_def)

lemma stages_run:
  assumes u: "store_ok u" and r: "restorable rc now u" and t: "rebuilding 0 t u"
    and rows: "\<And>e. e \<in> set json_entities \<Longrightarrow> mset (rows e) = mset (to_stored_rows now u e)"
    and backlog: "mset backlog = mset (to_stored_backlog (rs_mls rc) now u)"
  shows "\<exists>t'. for_each (\<lambda>g. g) (load_stages rc now rows backlog) t = Done t' \<and> rebuilding 16 t' u"
proof -
  note s0 = t
  obtain t1 where "load_teams rc (rows E_teams) t = Done t1" and s1: "rebuilding 1 t1 u"
    using teams_rebuilt [OF u r s0 rows [of E_teams]] by (auto simp: json_entities_def)
  moreover obtain t2 where "load_rooms rc (rows E_rooms) t1 = Done t2" and s2: "rebuilding 2 t2 u"
    using rooms_rebuilt [OF u r s1 rows [of E_rooms]] by (auto simp: json_entities_def numeral_2_eq_2)
  moreover obtain t3 where "load_invites rc now (rows E_invites) t2 = Done t3" and s3: "rebuilding 3 t3 u"
    using invites_rebuilt [OF u r s2 rows [of E_invites]] by (auto simp: json_entities_def)
  moreover obtain t4 where "load_devices rc (rows E_devices) t3 = Done t4" and s4: "rebuilding 4 t4 u"
    using devices_rebuilt [OF u r s3 rows [of E_devices]] by (auto simp: json_entities_def)
  moreover obtain t5 where "load_key_packages rc (rows E_keyPackages) t4 = Done t5" and s5: "rebuilding 5 t5 u"
    using keyPackages_rebuilt [OF u r s4 rows [of E_keyPackages]] by (auto simp: json_entities_def)
  moreover obtain t6 where "load_consumed (rows E_consumedKeyPackages) t5 = Done t6" and s6: "rebuilding 6 t6 u"
    using consumedKeyPackages_rebuilt [OF u r s5 rows [of E_consumedKeyPackages]] by (auto simp: json_entities_def)
  moreover obtain t7 where "load_requests rc (rows E_inviteRequests) t6 = Done t7" and s7: "rebuilding 7 t7 u"
    using inviteRequests_rebuilt [OF u r s6 rows [of E_inviteRequests]] by (auto simp: json_entities_def)
  moreover obtain t8 where "load_responses rc (rows E_inviteResponses) t7 = Done t8" and s8: "rebuilding 8 t8 u"
    using inviteResponses_rebuilt [OF u r s7 rows [of E_inviteResponses]] by (auto simp: json_entities_def)
  moreover obtain t9 where "load_members rc [] (rows E_teamMembers) t8 = Done t9" and s9: "rebuilding 9 t9 u"
    using teamMembers_rebuilt [OF u r s8 rows [of E_teamMembers]] by (auto simp: json_entities_def)
  moreover obtain t10 where "load_acks rc now (rows E_inviteAckReceipts) t9 = Done t10" and s10: "rebuilding 10 t10 u"
    using inviteAckReceipts_rebuilt [OF u r s9 rows [of E_inviteAckReceipts]] by (auto simp: json_entities_def)
  moreover obtain t11 where "load_receipts rc now (rows E_acceptedMessageReceipts) t10 = Done t11" and s11: "rebuilding 11 t11 u"
    using acceptedMessageReceipts_rebuilt [OF u r s10 rows [of E_acceptedMessageReceipts]] by (auto simp: json_entities_def)
  moreover obtain t12 where "load_attachments rc now (rows E_attachmentBlobs) t11 = Done t12" and s12: "rebuilding 12 t12 u"
    using attachmentBlobs_rebuilt [OF u r s11 rows [of E_attachmentBlobs]] by (auto simp: json_entities_def)
  moreover obtain t13 where "load_sessions now (rows E_authSessions) t12 = Done t13" and s13: "rebuilding 13 t13 u"
    using authSessions_rebuilt [OF u r s12 rows [of E_authSessions]] by (auto simp: json_entities_def)
  moreover obtain t14 where "load_restrictions rc now (rows E_accountRestrictions) t13 = Done t14" and s14: "rebuilding 14 t14 u"
    using accountRestrictions_rebuilt [OF u r s13 rows [of E_accountRestrictions]] by (auto simp: json_entities_def)
  moreover obtain t15 where "load_quotas now (rows E_accountQuotaRecords) t14 = Done t15" and s15: "rebuilding 15 t15 u"
    using accountQuotaRecords_rebuilt [OF u r s14 rows [of E_accountQuotaRecords]] by (auto simp: json_entities_def)
  moreover obtain t16 where "load_backlogs rc now backlog t15 = Done t16" and "rebuilding 16 t16 u"
    using mlsBacklog_rebuilt [OF u r s15 backlog] by auto
  ultimately show ?thesis by (simp add: load_stages_def)
qed

lemma restored_teams_keys:
  assumes "mset (rows E_teamMembers) = mset (to_stored_rows now u E_teamMembers)"
  shows "set (restored_teams rows) = set (jkeys (teamMembers u))"
proof -
  have named: "t \<in> set (restored_teams rows) \<longleftrightarrow> (\<exists>ms. V_members t ms \<in> set (rows E_teamMembers))" for t
  proof -
    have "t \<in> set (List.map_filter (\<lambda>v. case v of V_members t _ \<Rightarrow> Some t | _ \<Rightarrow> None) vs) \<longleftrightarrow> (\<exists>ms. V_members t ms \<in> set vs)" for vs
      by (induction vs) (auto split: stored.splits)
    then show ?thesis by (simp add: restored_teams_def)
  qed
  have "set (rows E_teamMembers) = (\<lambda>(t, ms). V_members t (jvalues ms)) ` set (teamMembers u)"
    using mset_eq_setD [OF assms] by (simp add: to_stored_rows_def)
  then show ?thesis unfolding set_eq_iff named by (force simp: jkeys_def)
qed

lemma relations_rebuilt:
  assumes t: "rebuilt 16 t u" and u: "store_ok u" and r: "restorable rc now u"
    and rows: "mset (rows E_teamMembers) = mset (to_stored_rows now u E_teamMembers)"
  shows "validate_critical_relationships (restored_teams rows) t = Done t"
proof -
  from t have eqs: "mset (keyPackages t) = mset (keyPackages u)" "mset (consumedKeyPackages t) = mset (consumedKeyPackages u)"
    "mset (teams t) = mset (teams u)" "mset (rooms t) = mset (rooms u)" by (simp_all add: rebuilt_def)
  note sets = eqs [THEN mset_eq_setD]
  have members: "members_of t = members_of u" using rebuilt_lookups(5) [OF t u] by (simp add: members_of_def fun_eq_iff)
  have consumed: "jhas (consumedKeyPackages t) = jhas (consumedKeyPackages u)"
    using same_lookup [OF eqs(2)] u by (simp add: store_ok_def store_wf_def jhas_def fun_eq_iff)
  have "mset (map k_hash (jvalues (keyPackages t))) = mset (map k_hash (jvalues (keyPackages u)))"
    unfolding jvalues_def using eqs(1) by (metis mset_map)
  from mset_eq_imp_distinct_iff [OF this] have "one_shot_key_packages t = one_shot_key_packages u"
    by (simp add: one_shot_key_packages_def consumed list_all_iff) (simp add: jvalues_def sets(1))
  moreover have "team_membership_valid (restored_teams rows) t = team_membership_valid (jkeys (teamMembers u)) u"
    by (simp add: fun_eq_iff team_membership_valid_def members restored_teams_keys [where rows = rows and now = now and u = u, OF rows])
  moreover have "room_host_valid t = room_host_valid u"
    by (simp add: fun_eq_iff room_host_valid_def has_team_member_def members)
  ultimately show ?thesis
    using r by (simp add: restorable_def validate_critical_relationships_def list_all_iff sets jvalues_def)
qed

lemma limits_nonneg:
  assumes "store_ok s"
  shows "0 \<le> ec_max (st_cap s) \<and> 0 \<le> ec_max_team (st_cap s)
    \<and> 0 \<le> bl_mls_room (bc_limits (st_bytes s)) \<and> 0 \<le> bl_att_team (bc_limits (st_bytes s))"
proof -
  have "fits s {#} {#}" using fits_mono [OF store_ok_fits [OF assms]] by simp
  moreover have "0 \<le> bl_limit l (Room_level [])" "0 \<le> bl_limit l (Team_level Attachment_blobs [])"
    if "\<forall>k. wsum k {#} \<le> bl_limit l k" for l using that by (metis wsum_empty)+
  ultimately show ?thesis by (auto simp: fits_def bl_limit_def)
qed

lemma restart_rebuilds:
  assumes "store_ok s" and "restorable rc now s" and "create_relay_store m n limits = Some s0" and "store_limits s = (m, n, limits)"
    and rows: "\<And>e. e \<in> set json_entities \<Longrightarrow> mset (rows e) = mset (to_stored_rows now s e)"
    and backlog: "mset backlog = mset (to_stored_backlog (rs_mls rc) now s)"
  shows "\<exists>s'. apply_stored_state rc now rows backlog s0 = Done s' \<and> store_ok s' \<and> store_limits s' = (m, n, limits) \<and> same_records s' s"
proof -
  obtain b where b: "bc_new limits = Some b" and s0: "s0 = empty_store (ec_configure m n) b"
    using assms(3) by (auto simp: create_relay_store_def split: option.splits)
  have lim: "store_limits s0 = (m, n, limits)"
    using b by (auto simp: s0 store_limits_def empty_store_def ec_configure_def bc_new_def split: if_splits)
  have "0 \<le> m \<and> 0 \<le> n \<and> 0 \<le> bl_mls_room limits \<and> 0 \<le> bl_att_team limits"
    using limits_nonneg [OF assms(1)] assms(4) by (simp add: store_limits_def)
  with store_ok_empty [OF assms(3)] have "store_ok s0" by blast
  moreover have "rebuilt 0 s0 s" by (simp add: s0 rebuilt_def empty_store_def)
  ultimately have "rebuilding 0 s0 s" using lim assms(4) by (simp add: rebuilding_def)
  from stages_run [OF assms(1,2) this rows backlog] obtain s' where
    run: "for_each (\<lambda>g. g) (load_stages rc now rows backlog) s0 = Done s'" and s': "rebuilding 16 s' s" by blast
  have "validate_critical_relationships (restored_teams rows) s' = Done s'"
    using s' relations_rebuilt [OF _ assms(1,2), of s' rows] rows [of E_teamMembers] by (simp add: rebuilding_def json_entities_def)
  with run s' assms(4) show ?thesis by (simp add: apply_stored_state_def rebuilding_def rebuilt_records)
qed

end
