(* ===== verification/Restart_Persistence.thy ===== *)
theory Restart_Persistence
  imports Restart_Proofs Persistence_Proofs
begin

text \<open>
  From the memory to SQLite and back: what the coordinator saved is what the relay starts with.
\<close>

section \<open>The loaded rows are the records of the memory\<close>

lemma restorable_live:
  assumes u: "store_wf u" and r: "restorable rc now u" and v: "entry_value u e k = Some v" and e: "e \<noteq> E_mlsBacklog"
  shows "live_row now v"
proof -
  have members: "to_stored_rows now u E_teamMembers = map (\<lambda>(t, ms). V_members t (jvalues ms)) (teamMembers u)"
    by (simp add: to_stored_rows_def)
  have "v \<in> set (to_stored_rows now u e)"
    using v e by (cases e)
      (force simp: entry_value_def stored_rows [OF r] members dest!: jget_mem split: option.splits if_splits)+
  then show ?thesis using stored_rows_entries [OF u e] by blast
qed

lemma distinct_con:
  assumes "jwf m" and "\<And>k x. (k, x) \<in> set m \<Longrightarrow> k = key x" and "inj V"
  shows "distinct (map (\<lambda>(k, x). V x) m)"
proof -
  have "inj_on (\<lambda>(k, x). V x) (set m)"
  proof (rule inj_onI)
    fix p q assume "p \<in> set m" "q \<in> set m" "(case p of (k, x) \<Rightarrow> V x) = (case q of (k, x) \<Rightarrow> V x)"
    with assms(2) [of "fst p" "snd p"] assms(2) [of "fst q" "snd q"] injD [OF assms(3), of "snd p" "snd q"]
    show "p = q" by (cases p; cases q) simp
  qed
  moreover have "distinct m" using assms(1) by (simp add: distinct_map)
  ultimately show ?thesis by (simp add: distinct_map)
qed

lemma distinct_stored_rows:
  assumes u: "store_wf u" and r: "restorable rc now u" and e: "e \<in> set json_entities"
  shows "distinct (to_stored_rows now u e)"
proof -
  note keys = restorable_entries [OF r] and wf = u [unfolded store_wf_def]
  have "distinct (to_stored_rows now u E_teams)"
    unfolding stored_rows [OF r] by (rule distinct_con [where key = "t_id"]) (use wf keys(1) in \<open>auto simp: inj_def\<close>)
  moreover
  have "distinct (to_stored_rows now u E_rooms)"
    unfolding stored_rows [OF r] by (rule distinct_con [where key = "r_id"]) (use wf keys(2) in \<open>auto simp: inj_def\<close>)
  moreover
  have "distinct (to_stored_rows now u E_invites)"
    unfolding stored_rows [OF r] by (rule distinct_con [where key = "i_id"]) (use wf keys(3) in \<open>auto simp: inj_def\<close>)
  moreover
  have "distinct (to_stored_rows now u E_devices)"
    unfolding stored_rows [OF r] by (rule distinct_con [where key = "\<lambda>d. device_key (d_user d) (d_device d)"]) (use wf keys(4) in \<open>auto simp: inj_def\<close>)
  moreover
  have "distinct (to_stored_rows now u E_keyPackages)"
    unfolding stored_rows [OF r] by (rule distinct_con [where key = "k_id"]) (use wf keys(5) in \<open>auto simp: inj_def\<close>)
  moreover
  have "distinct (to_stored_rows now u E_consumedKeyPackages)"
    unfolding stored_rows [OF r] by (rule distinct_con [where key = "ck_hash"]) (use wf keys(6) in \<open>auto simp: inj_def\<close>)
  moreover
  have "distinct (to_stored_rows now u E_inviteRequests)"
    unfolding stored_rows [OF r] by (rule distinct_con [where key = "q_id"]) (use wf keys(7) in \<open>auto simp: inj_def\<close>)
  moreover
  have "distinct (to_stored_rows now u E_inviteResponses)"
    unfolding stored_rows [OF r] by (rule distinct_con [where key = "s_request"]) (use wf keys(8) in \<open>auto simp: inj_def\<close>)
  moreover
  have "distinct (to_stored_rows now u E_inviteAckReceipts)"
    unfolding stored_rows [OF r] by (rule distinct_con [where key = "ar_request"]) (use wf keys(9) in \<open>auto simp: inj_def\<close>)
  moreover
  have "distinct (to_stored_rows now u E_acceptedMessageReceipts)"
    unfolding stored_rows [OF r] by (rule distinct_con [where key = "\<lambda>x. receipt_key (mr_room x) (mr_message x)"]) (use wf keys(10) in \<open>auto simp: inj_def\<close>)
  moreover
  have "distinct (to_stored_rows now u E_attachmentBlobs)"
    unfolding stored_rows [OF r] by (rule distinct_con [where key = "a_id"]) (use wf keys(11) in \<open>auto simp: inj_def\<close>)
  moreover
  have "distinct (to_stored_rows now u E_authSessions)"
    unfolding stored_rows [OF r] by (rule distinct_con [where key = "as_hash"]) (use wf keys(12) in \<open>auto simp: inj_def\<close>)
  moreover
  have "distinct (to_stored_rows now u E_accountRestrictions)"
    unfolding stored_rows [OF r] by (rule distinct_con [where key = "re_user"]) (use wf keys(13) in \<open>auto simp: inj_def\<close>)
  moreover
  have "distinct (to_stored_rows now u E_accountQuotaRecords)"
    unfolding stored_rows [OF r] by (rule distinct_con [where key = "qr_key"]) (use wf keys(14) in \<open>auto simp: inj_def\<close>)
  moreover have "jwf (teamMembers u)" using wf by simp
  note same = eq_key_imp_eq_value [OF this] and this
  then have "distinct (to_stored_rows now u E_teamMembers)"
    unfolding to_stored_rows_def by (auto simp: distinct_map intro!: inj_onI intro: same)
  ultimately show ?thesis using e by (auto simp: json_entities_def)
qed

lemma loaded_are_stored:
  assumes run: "persisting lim now c" and saved: "save_pending_changes lim now fault c = Done c'"
    and ok: "store_wf (co_store c)" and r: "restorable rc now (co_store c)" and keys: "identified (co_store c) e"
    and e: "e \<in> set json_entities"
  obtains vs where "load_json_rows e (co_db c') = Some vs" "mset vs = mset (to_stored_rows now (co_store c) e)"
proof -
  have e': "e \<noteq> E_mlsBacklog" using e by (auto simp: json_entities_def)
  from loaded_rows [OF run saved ok keys e'] obtain vs where vs: "load_json_rows e (co_db c') = Some vs" "distinct vs"
    "\<And>v. v \<in> set vs \<Longrightarrow> \<exists>k. entry_value (co_store c) e k = Some v"
    "set (filter (live_row now) vs) = set (to_stored_rows now (co_store c) e)" by blast
  have "filter (live_row now) vs = vs"
    using vs(3) restorable_live [OF ok r _ e'] by (auto simp: filter_id_conv)
  with vs distinct_stored_rows [OF ok r e] that show ?thesis by (metis set_eq_iff_mset_eq_distinct)
qed


end
