(* ===== verification/Restore_Witnesses.thy ===== *)
theory Restore_Witnesses
  imports Restart_Persistence Live_Witnesses Persistence_Witnesses
begin

text \<open>
  The properties of a start on concrete data: the sample team with its owner, its member and its
  active room is saved and read back; and a device with a short id is registered by its endpoint.
\<close>

definition start_env :: env where
  "start_env = live_env\<lparr>en_sha256 := (\<lambda>_. replicate 64 (CHR ''a''))\<rparr>"

definition start_config :: restore_config where
  "start_config = \<lparr>rs_cf = sample_config\<lparr>cf_env := start_env\<rparr>, rs_offset = (\<lambda>_. True), rs_blob_max = 1000\<rparr>"

definition kept_store :: relay_store where
  "kept_store = state_of (set_room sample_room
     (state_of (set_team_members ''team'' [(''ann'', sample_member ''ann'' Owner), (''bob'', sample_member ''bob'' Member)]
       (state_of (set_team sample_team sample_empty)))))"

definition kept_coordinator :: coordinator where
  "kept_coordinator = \<lparr>co_store = kept_store, co_pending = [], co_healthy = True, co_db = empty_database\<rparr>"

abbreviation kept_saved :: coordinator where
  "kept_saved \<equiv> state_of (save_pending_changes (rs_mls start_config) 0 False kept_coordinator)"

lemma kept_restorable: "restorable start_config 0 kept_store"
  by code_simp

lemma kept_loads: "is_done (apply_stored_state start_config 0 (to_stored_rows 0 kept_store) [] sample_empty)"
  by code_simp

lemma kept_database: "db_versioned (co_db kept_saved)" "load_mls_backlog_rows (co_db kept_saved) = Some []"
  by code_simp+

lemma sample_created: "create_relay_store 1000 500 sample_limits = Some sample_empty"
  by (simp add: sample_empty_def create_relay_store_def bc_new_def sample_limits_def)

lemma restored_state_is_safe_witness:
  "\<exists>s. apply_stored_state start_config 0 (to_stored_rows 0 kept_store) [] sample_empty = Done s \<and> store_ok s \<and> packages_ok s"
proof -
  obtain s where s: "apply_stored_state start_config 0 (to_stored_rows 0 kept_store) [] sample_empty = Done s"
    using kept_loads by (auto simp: is_done_iff)
  have "0 \<le> (1000 :: int)" "0 \<le> (500 :: int)" "0 \<le> bl_mls_room sample_limits" "0 \<le> bl_att_team sample_limits"
    by (simp_all add: sample_limits_def)
  from restored_state_is_safe [OF sample_created this s] s show ?thesis by blast
qed

lemma kept_store_ok: "store_ok kept_store"
  unfolding kept_store_def set_room_def set_team_def
  by (intro room_tm.dm_set_ok set_team_members_ok team_tm.dm_set_ok store_ok_empty [OF sample_created]) (simp_all add: sample_limits_def)

lemma kept_entries: "teams kept_store = [(''team'', sample_team)]" "rooms kept_store = [(''room'', sample_room)]"
  "teamMembers kept_store = [(''team'', [(''ann'', sample_member ''ann'' Owner), (''bob'', sample_member ''bob'' Member)])]"
  by code_simp+

lemma kept_others: "authSessions kept_store = []" "accountRestrictions kept_store = []" "accountQuotaRecords kept_store = []"
  "invites kept_store = []" "inviteRequests kept_store = []" "inviteResponses kept_store = []" "inviteAckReceipts kept_store = []"
  "acceptedMessageReceipts kept_store = []" "devices kept_store = []" "keyPackages kept_store = []" "consumedKeyPackages kept_store = []"
  "attachmentBlobs kept_store = []" "mlsBacklog kept_store = []"
  by code_simp+

lemma kept_identified: "identified kept_store e"
proof -
  have "wf_key e k \<and> row_identity e v = Some (persisted_key e k)" if "entry_value kept_store e k = Some v" for k v
    using that
    by (cases e) (auto simp: entry_value_def kept_entries kept_others wf_key_def persisted_key_def row_identity_def
        storage_key_for_row_def sample_team_def sample_room_def split: if_splits)
  then show ?thesis by (simp add: identified_def)
qed

lemma kept_persisting: "persisting (rs_mls start_config) 0 kept_coordinator"
proof -
  have "logged sample_empty kept_store"
    unfolding kept_store_def set_room_def set_team_def
    by (intro room_sm.dm_set_logged [THEN [2] logged_trans] set_team_members_logged [THEN [2] logged_trans] team_sm.dm_set_logged)
  moreover have "st_log kept_store = [(E_teams, ''team''), (E_teamMembers, ''team''), (E_rooms, ''room'')]" by code_simp
  ultimately show ?thesis
    using persisting.mutate [OF persisting.start [OF sample_created] _ , of kept_store "rs_mls start_config" 0]
    by (simp add: kept_coordinator_def keys_ok_def)
qed


section \<open>A device with a short id\<close>

definition hpke_text :: string where
  "hpke_text = ''BEFBQUFBQUFBQUFBQUFBQUFBQUFBQUFBQUFBQUFBQUFBQUFBQUFBQUFBQUFBQUFBQUFBQUFBQUFBQUFBQUFBQUE=''"

lemma hpke_encoded: "b64_encode (char_of (4 :: nat) # replicate 64 (CHR ''A'')) = hpke_text"
  by code_simp

definition short_device_body :: jsv where
  "short_device_body = J_obj [(''deviceId'', J_str ''mac''), (''signaturePublicKey'', J_str ''QUJD''), (''hpkePublicKey'', J_str hpke_text),
     (''signatureKeyFingerprint'', J_str (fingerprint_public_key start_env ''QUJD'')),
     (''hpkeKeyFingerprint'', J_str (fingerprint_public_key start_env hpke_text))]"

abbreviation short_registration :: "device reply \<times> live" where
  "short_registration \<equiv> register_device (rs_cf start_config) 5 True (Some (sample_auth ''ann'')) short_device_body connected_live"

definition short_identity :: device_identity where
  "short_identity = \<lparr>di_user = ''ann'', di_device = ''mac'', di_display = ''ann'', di_sig_key = ''QUJD'',
     di_sig_fp = fingerprint_public_key start_env ''QUJD'', di_hpke_key = hpke_text,
     di_hpke_fp = fingerprint_public_key start_env hpke_text\<rparr>"

lemma hpke_shape: "length hpke_text = 88" "\<not> has_control hpke_text" "js_trim hpke_text = hpke_text" "hpke_text \<noteq> []"
  by code_simp+

lemma short_key_texts:
  "normalize_metadata_text (J_str hpke_text) 1000 = Some hpke_text"
  "valid_p256_hpke_key (rs_cf start_config) hpke_text" "valid_p256_spki (rs_cf start_config) ''QUJD''"
proof -
  show "normalize_metadata_text (J_str hpke_text) 1000 = Some hpke_text"
    using hpke_shape by (simp add: normalize_metadata_text_def string_or_empty_def Let_def)
  show "valid_p256_spki (rs_cf start_config) ''QUJD''" by code_simp
  have "b64_decode hpke_text = Some (char_of (4 :: nat) # replicate 64 (CHR ''A''))" by (metis b64_roundtrip hpke_encoded)
  then show "valid_p256_hpke_key (rs_cf start_config) hpke_text"
    using hpke_shape hpke_encoded
    by (simp add: valid_p256_hpke_key_def is_canonical_base64_def b64_bytes_def start_config_def sample_config_def hpke_encoded)
qed

lemma short_fingerprints:
  "fingerprint_public_key start_env k = ''sha256:aaaa:aaaa:aaaa:aaaa:aaaa:aaaa:aaaa:aaaa:aaaa:aaaa:aaaa:aaaa:aaaa:aaaa:aaaa:aaaa''"
  unfolding fingerprint_public_key_def start_env_def by (simp add: numeral_eq_Suc)

lemma short_texts:
  "normalize_metadata_text (J_str ''sha256:aaaa:aaaa:aaaa:aaaa:aaaa:aaaa:aaaa:aaaa:aaaa:aaaa:aaaa:aaaa:aaaa:aaaa:aaaa:aaaa'') max_fingerprint
     = Some ''sha256:aaaa:aaaa:aaaa:aaaa:aaaa:aaaa:aaaa:aaaa:aaaa:aaaa:aaaa:aaaa:aaaa:aaaa:aaaa:aaaa''"
  "normalize_metadata_text (J_str ''mac'') max_device_id = Some ''mac''" "normalize_metadata_text (J_str ''QUJD'') 1000 = Some ''QUJD''"
  "normalize_metadata_text (J_str (display_name_for_user (as_user (sample_auth ''ann'')))) max_display_name = Some ''ann''"
  "session_user_of (sample_auth ''ann'') = ''ann''" "normalize_optional_metadata_text J_undefined max_user_id = Some []"
  by code_simp+

lemma short_normalized: "normalize_device_registration (rs_cf start_config) short_device_body (sample_auth ''ann'') = Inr short_identity"
proof -
  have config: "cf_key_chars (rs_cf start_config) = 1000" "cf_env (rs_cf start_config) = start_env"
    by (simp_all add: start_config_def sample_config_def)
  show ?thesis
    by (simp add: normalize_device_registration_def normalized_device_identity_fields_def short_device_body_def field_of_def
        short_key_texts short_texts short_fingerprints config device_fingerprints_match_def short_identity_def)
qed

lemma short_turn: "case fst (register_device_turn (rs_cf start_config) 5 True (sample_auth ''ann'') short_identity connected_live) of
    Reply st d \<Rightarrow> st = 201 \<and> d_device d = ''mac'' | _ \<Rightarrow> False"
  by code_simp

lemma short_registered: "case fst short_registration of Reply st d \<Rightarrow> st = 201 \<and> d_device d = ''mac'' | _ \<Rightarrow> False"
proof -
  have "allowed (cf_env (rs_cf start_config)) (Some (sample_auth ''ann''))" by code_simp
  with short_turn show ?thesis by (simp add: register_device_def short_normalized)
qed

lemma short_device_id_blocks_restart_witness:
  "\<not> is_done (apply_stored_state start_config 5 (to_stored_rows 5 (lv_store (snd short_registration))) [] sample_empty)"
proof -
  obtain st d where r: "short_registration = (Reply st d, snd short_registration)" and d: "d_device d = ''mac''"
    using short_registered by (cases short_registration; cases "fst short_registration") auto
  have "length (d_device d) < 8" by (simp add: d)
  from short_device_id_blocks_restart [where later = 5 and rows = "to_stored_rows 5 (lv_store (snd short_registration))", OF r this subset_refl]
  show ?thesis by (auto simp: is_done_iff)
qed

end
