(* ===== verification/Config.thy ===== *)
theory Config
  imports Attachments "HOL-Library.Monad_Syntax"
begin

text \<open>
  The configuration of the relay (apps/relay/src/config.ts): the \<open>.env\<close> files, the parsers of the
  environment variables, and \<open>loadRelayConfig\<close>; \<open>None\<close> is the exception that keeps the relay from
  starting. The path resolution and the URL parser of Node are parameters; with them come the check
  before a deployment (predeploy-check.ts) and the limits that relay-app.ts hands to the components.
\<close>

type_synonym environ = "string \<Rightarrow> string option"

section \<open>The .env files\<close>

definition newline :: char where "newline = CHR 0x0A"
definition carriage_return :: char where "carriage_return = CHR 0x0D"

text \<open>\<open>contents.split(/\r?\n/)\<close>.\<close>

fun split_lines :: "string \<Rightarrow> string list" where
  "split_lines [] = [[]]"
| "split_lines (c # cs) =
     (if c = newline then [] # split_lines cs
      else if c = carriage_return \<and> cs \<noteq> [] \<and> hd cs = newline then split_lines cs
      else case split_lines cs of [] \<Rightarrow> [[c]] | l # ls \<Rightarrow> (c # l) # ls)"

definition is_name_start :: "char \<Rightarrow> bool" where
  "is_name_start c = (let n = of_char c :: nat in (65 \<le> n \<and> n \<le> 90) \<or> (97 \<le> n \<and> n \<le> 122) \<or> n = 95)"

definition is_name_char :: "char \<Rightarrow> bool" where
  "is_name_char c = (let n = of_char c :: nat in is_name_start c \<or> (48 \<le> n \<and> n \<le> 57))"

text \<open>\<open>value.replace(/\s+#.*$/, "")\<close> of a text without line breaks.\<close>

fun strip_comment :: "string \<Rightarrow> string" where
  "strip_comment [] = []"
| "strip_comment (c # cs) =
     (if is_space c \<and> (case dropWhile is_space cs of d # _ \<Rightarrow> d = CHR ''#'' | [] \<Rightarrow> False) then []
      else c # strip_comment cs)"

definition quoted_by :: "char \<Rightarrow> string \<Rightarrow> bool" where
  "quoted_by q s \<longleftrightarrow> s \<noteq> [] \<and> hd s = q \<and> last s = q"

definition normalize_env_file_value :: "string \<Rightarrow> string" where
  "normalize_env_file_value v =
     (let t = js_trim v in
      if quoted_by (CHR 0x22) t \<or> quoted_by (CHR 0x27) t then butlast (tl t) else strip_comment t)"

text \<open>\<open>/^([A-Za-z_][A-Za-z0-9_]*)\s*=\s*(.*)$/\<close>; the dot matches no line break.\<close>

definition env_line :: "string \<Rightarrow> (string \<times> string) option" where
  "env_line t =
     (let key = takeWhile is_name_char t; rest = dropWhile is_space (dropWhile is_name_char t) in
      case rest of
        [] \<Rightarrow> None
      | c # cs \<Rightarrow>
          let v = dropWhile is_space cs in
          if key = [] \<or> \<not> is_name_start (hd key) \<or> c \<noteq> CHR ''='' \<or> newline \<in> set v \<or> carriage_return \<in> set v then None
          else Some (key, v))"

text \<open>Assigning a text to the key \<open>__proto__\<close> of an object leaves the object as it is.\<close>

definition parse_env_line :: "string \<Rightarrow> (string, string) jmap \<Rightarrow> (string, string) jmap" where
  "parse_env_line line parsed =
     (let t = js_trim line in
      if t = [] \<or> hd t = CHR ''#'' then parsed
      else case env_line t of
        None \<Rightarrow> parsed
      | Some (k, v) \<Rightarrow> if k = ''__proto__'' then parsed else jset k (normalize_env_file_value v) parsed)"

definition parse_env_file :: "string \<Rightarrow> (string, string) jmap" where
  "parse_env_file contents = fold parse_env_line (split_lines contents) []"

definition relay_env_file_candidates :: "(string list \<Rightarrow> string) \<Rightarrow> string \<Rightarrow> environ \<Rightarrow> string list" where
  "relay_env_file_candidates resolve cwd env =
     (let named = (case env ''MULTAIPLAYER_RELAY_ENV_FILE'' of None \<Rightarrow> [] | Some p \<Rightarrow> if p = [] then [] else resolve [p]) in
      rev (remdups (rev (filter (\<lambda>p. p \<noteq> [])
        [named, resolve [cwd, ''apps/relay/.env''], resolve [cwd, ''.env''], resolve [cwd, ''../..'', ''.env'']]))))"

definition merge_env_file :: "string \<Rightarrow> environ \<Rightarrow> environ" where
  "merge_env_file contents env =
     fold (\<lambda>(k, v) e. case e k of None \<Rightarrow> e(k \<mapsto> v) | Some _ \<Rightarrow> e) (parse_env_file contents) env"

definition load_relay_env_files :: "(string list \<Rightarrow> string) \<Rightarrow> (string \<Rightarrow> string option) \<Rightarrow> string \<Rightarrow> environ \<Rightarrow> environ" where
  "load_relay_env_files resolve read cwd env =
     fold (\<lambda>path e. case read path of None \<Rightarrow> e | Some contents \<Rightarrow> merge_env_file contents e)
       (relay_env_file_candidates resolve cwd env) env"

section \<open>The variables\<close>

text \<open>\<open>/^-?(?:0|[1-9]\d*)$/\<close>.\<close>

definition is_integer_text :: "string \<Rightarrow> bool" where
  "is_integer_text s =
     (let ds = (case s of c # cs \<Rightarrow> if c = CHR ''-'' then cs else s | [] \<Rightarrow> []) in
      ds = ''0'' \<or> (ds \<noteq> [] \<and> hd ds \<noteq> CHR ''0'' \<and> list_all (is_digit_in 10) ds))"

definition parse_integer_env :: "environ \<Rightarrow> string \<Rightarrow> int \<Rightarrow> int \<Rightarrow> int \<Rightarrow> int option" where
  "parse_integer_env env name fallback lo hi =
     (case env name of
        None \<Rightarrow> Some fallback
      | Some v \<Rightarrow>
          if \<not> is_integer_text (js_trim v) then None
          else (case string_integer (js_trim v) of
            None \<Rightarrow> None
          | Some n \<Rightarrow> if n < lo \<or> n > hi then None else Some n))"

text \<open>\<open>toLowerCase\<close>, as far as it can make a text one of the ASCII words below.\<close>

definition lower_char :: "char \<Rightarrow> char" where
  "lower_char c = (let n = of_char c :: nat in
     if (65 \<le> n \<and> n \<le> 90) \<or> (192 \<le> n \<and> n \<le> 222 \<and> n \<noteq> 215) then char_of (n + 32) else c)"

definition parse_boolean_env :: "environ \<Rightarrow> string \<Rightarrow> bool \<Rightarrow> bool option" where
  "parse_boolean_env env name fallback =
     (case env name of
        None \<Rightarrow> Some fallback
      | Some v \<Rightarrow>
          let t = map lower_char (js_trim v) in
          if List.member [''1'', ''true'', ''yes'', ''on''] t then Some True
          else if List.member [''0'', ''false'', ''no'', ''off''] t then Some False
          else None)"

definition normalize_metrics_token :: "string option \<Rightarrow> string option" where
  "normalize_metrics_token v =
     (case v of
        None \<Rightarrow> None
      | Some raw \<Rightarrow> let token = js_trim raw in if token = [] \<or> length token < 32 then None else Some token)"

text \<open>The fields of a parsed \<open>URL\<close> that the relay reads; \<open>None\<close> when the constructor throws.\<close>

record url_parts =
  url_protocol :: string
  url_username :: string
  url_password :: string
  url_hostname :: string
  url_port :: string
  url_pathname :: string
  url_search :: string
  url_hash :: string
  url_origin :: string

definition normalize_configured_origin :: "(string \<Rightarrow> url_parts option) \<Rightarrow> string \<Rightarrow> string option" where
  "normalize_configured_origin parse v =
     (case parse v of
        None \<Rightarrow> None
      | Some u \<Rightarrow>
          if \<not> List.member ['''', ''/''] (url_pathname u) \<or> url_search u \<noteq> [] \<or> url_hash u \<noteq> [] then None
          else if url_username u \<noteq> [] \<or> url_password u \<noteq> [] then None
          else if List.member [''http:'', ''https:''] (url_protocol u) then Some (url_origin u)
          else if url_protocol u = ''tauri:'' \<and> url_hostname u = ''localhost'' \<and> url_port u = [] then Some ''tauri://localhost''
          else None)"

text \<open>\<open>split(/[\s,]+/)\<close> without the empty items.\<close>

fun list_items :: "string \<Rightarrow> string \<Rightarrow> string list" where
  "list_items item [] = (if item = [] then [] else [rev item])"
| "list_items item (c # cs) =
     (if is_space c \<or> c = CHR '','' then (if item = [] then [] else [rev item]) @ list_items [] cs
      else list_items (c # item) cs)"

definition parse_list_env :: "string option \<Rightarrow> string list" where
  "parse_list_env v = list_items [] (case v of None \<Rightarrow> [] | Some s \<Rightarrow> s)"

fun add_origins :: "(string \<Rightarrow> url_parts option) \<Rightarrow> string list \<Rightarrow> string list \<Rightarrow> string list option" where
  "add_origins parse [] origins = Some origins"
| "add_origins parse (x # xs) origins =
     (case normalize_configured_origin parse x of
        None \<Rightarrow> None
      | Some t \<Rightarrow> if t = [] then None else add_origins parse xs (if List.member origins t then origins else origins @ [t]))"

definition parse_allowed_origin_env :: "(string \<Rightarrow> url_parts option) \<Rightarrow> string option \<Rightarrow> string list option" where
  "parse_allowed_origin_env parse v = add_origins parse (parse_list_env v) []"

section \<open>The configuration\<close>

text \<open>\<open>RelayConfig\<close>; the groups of fields that are objects in the code are records of their own.\<close>

record rate_limit_caps =
  cap_auth :: int
  cap_read :: int
  cap_mutation :: int
  cap_attachment :: int
  cap_websocket :: int
  cap_connect :: int

record connection_caps =
  cap_per_user :: int
  cap_per_device :: int

record shutdown_times =
  drain_ms :: int
  grace_ms :: int

record creation_caps =
  teams_per_user :: int
  rooms_per_user :: int

record relay_config =
  rf_node_env :: string
  rf_port :: int
  rf_data_path :: string
  rf_disk_headroom :: int
  rf_wal_pages :: int
  rf_backlog_limit :: int
  rf_backlog_days :: int
  rf_invite_days :: int
  rf_blob_days :: int
  rf_blob_max :: int
  rf_blob_live_quota :: int
  rf_blob_upload_bytes :: int
  rf_blob_upload_ms :: int
  rf_json_body :: int
  rf_mls_message :: int
  rf_metrics_token :: "string option"
  rf_debug :: bool
  rf_origins :: "string list"
  rf_auth :: bool
  rf_rate_limits :: bool
  rf_trust_proxy :: bool
  rf_structured_logs :: bool
  rf_exit_on_poison :: bool
  rf_rate_window :: int
  rf_network_multiplier :: int
  rf_rate_caps :: rate_limit_caps
  rf_connection_caps :: connection_caps
  rf_shutdown :: shutdown_times
  rf_creation_caps :: creation_caps
  rf_room_cap :: int
  rf_device_cap :: int
  rf_session_cap :: int
  rf_key_package_cap :: int
  rf_validation_cap :: int
  rf_invite_cap :: int
  rf_entries :: int
  rf_entries_per_team :: int
  rf_byte_limits :: byte_limits

definition load_rate_limit_caps :: "environ \<Rightarrow> rate_limit_caps option" where
  "load_rate_limit_caps env = do {
     a \<leftarrow> parse_integer_env env ''MULTAIPLAYER_RELAY_RATE_LIMIT_AUTH'' 30 1 10000;
     r \<leftarrow> parse_integer_env env ''MULTAIPLAYER_RELAY_RATE_LIMIT_READ'' 300 1 100000;
     m \<leftarrow> parse_integer_env env ''MULTAIPLAYER_RELAY_RATE_LIMIT_MUTATION'' 120 1 100000;
     t \<leftarrow> parse_integer_env env ''MULTAIPLAYER_RELAY_RATE_LIMIT_ATTACHMENT'' 60 1 10000;
     w \<leftarrow> parse_integer_env env ''MULTAIPLAYER_RELAY_RATE_LIMIT_WEBSOCKET'' 600 1 100000;
     c \<leftarrow> parse_integer_env env ''MULTAIPLAYER_RELAY_RATE_LIMIT_WEBSOCKET_CONNECT'' 120 1 100000;
     Some \<lparr>cap_auth = a, cap_read = r, cap_mutation = m, cap_attachment = t, cap_websocket = w, cap_connect = c\<rparr> }"

definition load_connection_caps :: "environ \<Rightarrow> connection_caps option" where
  "load_connection_caps env = do {
     u \<leftarrow> parse_integer_env env ''MULTAIPLAYER_RELAY_WEBSOCKET_CONNECTION_CAP_USER'' 20 1 1000;
     d \<leftarrow> parse_integer_env env ''MULTAIPLAYER_RELAY_WEBSOCKET_CONNECTION_CAP_DEVICE'' 5 1 100;
     Some \<lparr>cap_per_user = u, cap_per_device = d\<rparr> }"

definition load_shutdown_times :: "environ \<Rightarrow> shutdown_times option" where
  "load_shutdown_times env = do {
     d \<leftarrow> parse_integer_env env ''MULTAIPLAYER_RELAY_SHUTDOWN_DRAIN_MS'' 0 0 60000;
     g \<leftarrow> parse_integer_env env ''MULTAIPLAYER_RELAY_SHUTDOWN_GRACE_MS'' 10000 1000 120000;
     Some \<lparr>drain_ms = d, grace_ms = g\<rparr> }"

definition load_creation_caps :: "environ \<Rightarrow> creation_caps option" where
  "load_creation_caps env = do {
     t \<leftarrow> parse_integer_env env ''MULTAIPLAYER_RELAY_DAILY_TEAM_CREATION_CAP'' 25 0 10000;
     r \<leftarrow> parse_integer_env env ''MULTAIPLAYER_RELAY_DAILY_ROOM_CREATION_CAP'' 100 0 100000;
     Some \<lparr>teams_per_user = t, rooms_per_user = r\<rparr> }"

definition load_byte_limits :: "environ \<Rightarrow> int \<Rightarrow> byte_limits option" where
  "load_byte_limits env blob = do {
     g \<leftarrow> parse_integer_env env ''MULTAIPLAYER_RELAY_MAX_MLS_BACKLOG_BYTES'' 50000000 1000000 10000000000;
     t \<leftarrow> parse_integer_env env ''MULTAIPLAYER_RELAY_MAX_MLS_BACKLOG_BYTES_PER_TEAM'' 25000000 500000 10000000000;
     r \<leftarrow> parse_integer_env env ''MULTAIPLAYER_RELAY_MAX_MLS_BACKLOG_BYTES_PER_ROOM'' 5000000 100000 1000000000;
     a \<leftarrow> parse_integer_env env ''MULTAIPLAYER_RELAY_MAX_ATTACHMENT_BLOB_BYTES'' 500000000 blob 10000000000;
     b \<leftarrow> parse_integer_env env ''MULTAIPLAYER_RELAY_MAX_ATTACHMENT_BLOB_BYTES_PER_TEAM'' 250000000 blob 10000000000;
     Some \<lparr>bl_mls_global = g, bl_mls_team = t, bl_mls_room = r, bl_att_global = a, bl_att_team = b\<rparr> }"

definition validate_ciphertext_byte_ceilings :: "int \<Rightarrow> int \<Rightarrow> byte_limits \<Rightarrow> bool" where
  "validate_ciphertext_byte_ceilings blob live_quota l \<longleftrightarrow>
     \<not> (bl_mls_room l > bl_mls_team l \<or> bl_mls_team l > bl_mls_global l)
     \<and> \<not> bl_att_team l > bl_att_global l \<and> \<not> blob > bl_att_team l \<and> \<not> live_quota > bl_att_global l"

text \<open>\<open>Math.ceil(Math.max(1_000_000, attachmentBlobMaxBytes * 1.5 + 100_000))\<close>.\<close>

definition json_body_limit :: "int \<Rightarrow> int" where
  "json_body_limit blob = max 1000000 ((3 * blob + 1) div 2 + 100000)"

definition load_relay_config :: "(string list \<Rightarrow> string) \<Rightarrow> (string \<Rightarrow> url_parts option) \<Rightarrow> environ \<Rightarrow> relay_config option" where
  "load_relay_config resolve parse env = do {
     let node = (case env ''NODE_ENV'' of None \<Rightarrow> ''development'' | Some v \<Rightarrow> v);
     blob \<leftarrow> parse_integer_env env ''MULTAIPLAYER_ATTACHMENT_BLOB_MAX_BYTES'' 5000000 1 50000000;
     entries \<leftarrow> parse_integer_env env ''MULTAIPLAYER_RELAY_MAX_DURABLE_ENTRIES'' 250000 1000 10000000;
     limits \<leftarrow> load_byte_limits env blob;
     live_quota \<leftarrow> parse_integer_env env ''MULTAIPLAYER_ATTACHMENT_BLOB_LIVE_QUOTA_BYTES'' 50000000 blob 10000000000;
     (if validate_ciphertext_byte_ceilings blob live_quota limits then Some () else None);
     proxy \<leftarrow> parse_boolean_env env ''MULTAIPLAYER_RELAY_TRUST_PROXY_HEADERS'' False;
     port \<leftarrow> parse_integer_env env ''PORT'' 4321 1 65535;
     headroom \<leftarrow> parse_integer_env env ''MULTAIPLAYER_RELAY_MIN_DISK_HEADROOM_BYTES'' 1000000000 100000000 1000000000000;
     pages \<leftarrow> parse_integer_env env ''MULTAIPLAYER_RELAY_SQLITE_WAL_AUTOCHECKPOINT_PAGES'' 1000 50 10000;
     backlog \<leftarrow> parse_integer_env env ''MULTAIPLAYER_RELAY_BACKLOG_LIMIT'' 200 1 1000;
     days \<leftarrow> parse_integer_env env ''MULTAIPLAYER_RELAY_BACKLOG_RETENTION_DAYS'' 30 1 365;
     invite_days \<leftarrow> parse_integer_env env ''MULTAIPLAYER_RELAY_INVITE_TTL_DAYS'' 7 1 365;
     blob_days \<leftarrow> parse_integer_env env ''MULTAIPLAYER_ATTACHMENT_BLOB_TTL_DAYS'' 30 1 365;
     upload_bytes \<leftarrow> parse_integer_env env ''MULTAIPLAYER_ATTACHMENT_BLOB_UPLOAD_BYTES_PER_WINDOW'' 50000000 blob 10000000000;
     upload_ms \<leftarrow> parse_integer_env env ''MULTAIPLAYER_ATTACHMENT_BLOB_UPLOAD_WINDOW_MS'' 3600000 60000 86400000;
     message \<leftarrow> parse_integer_env env ''MULTAIPLAYER_RELAY_MLS_MESSAGE_MAX_BYTES'' 1000000 4096 5000000;
     debug \<leftarrow> parse_boolean_env env ''MULTAIPLAYER_RELAY_DEBUG'' False;
     origins \<leftarrow> parse_allowed_origin_env parse (env ''MULTAIPLAYER_RELAY_ALLOWED_ORIGINS'');
     unsafe \<leftarrow> parse_boolean_env env ''MULTAIPLAYER_RELAY_UNSAFE_DISABLE_AUTH'' False;
     rates \<leftarrow> parse_boolean_env env ''MULTAIPLAYER_RELAY_RATE_LIMITS'' True;
     logs \<leftarrow> parse_boolean_env env ''MULTAIPLAYER_RELAY_STRUCTURED_LOGS'' (node = ''production'');
     exits \<leftarrow> parse_boolean_env env ''MULTAIPLAYER_RELAY_EXIT_ON_PERSISTENCE_POISON'' (node = ''production'');
     window \<leftarrow> parse_integer_env env ''MULTAIPLAYER_RELAY_RATE_LIMIT_WINDOW_MS'' 60000 1000 3600000;
     multiplier \<leftarrow> parse_integer_env env ''MULTAIPLAYER_RELAY_RATE_LIMIT_TRUSTED_NETWORK_MULTIPLIER'' 8 1 100;
     rate_caps \<leftarrow> load_rate_limit_caps env;
     connections \<leftarrow> load_connection_caps env;
     times \<leftarrow> load_shutdown_times env;
     creation \<leftarrow> load_creation_caps env;
     room_cap \<leftarrow> parse_integer_env env ''MULTAIPLAYER_RELAY_TOTAL_ROOM_CAP_USER'' 500 1 100000;
     device_cap \<leftarrow> parse_integer_env env ''MULTAIPLAYER_RELAY_REGISTERED_DEVICE_CAP_USER'' 25 1 10000;
     session_cap \<leftarrow> parse_integer_env env ''MULTAIPLAYER_RELAY_RETAINED_AUTH_SESSION_CAP_USER'' 20 1 1000;
     package_cap \<leftarrow> parse_integer_env env ''MULTAIPLAYER_RELAY_LIVE_KEY_PACKAGE_CAP_USER'' 250 1 100000;
     validation_cap \<leftarrow> parse_integer_env env ''MULTAIPLAYER_RELAY_KEY_PACKAGE_VALIDATION_CAP_USER'' 40 1 10000;
     invite_cap \<leftarrow> parse_integer_env env ''MULTAIPLAYER_RELAY_LIVE_INVITE_CAP_USER'' 100 1 100000;
     per_team \<leftarrow> parse_integer_env env ''MULTAIPLAYER_RELAY_MAX_DURABLE_ENTRIES_PER_TEAM'' (min 25000 (entries - 1)) 100 (entries - 1);
     Some \<lparr>rf_node_env = node, rf_port = port,
       rf_data_path = resolve [case env ''MULTAIPLAYER_RELAY_DATA_PATH'' of None \<Rightarrow> ''.multaiplayer/relay-store.sqlite'' | Some p \<Rightarrow> p],
       rf_disk_headroom = headroom, rf_wal_pages = pages, rf_backlog_limit = backlog, rf_backlog_days = days,
       rf_invite_days = invite_days, rf_blob_days = blob_days, rf_blob_max = blob, rf_blob_live_quota = live_quota,
       rf_blob_upload_bytes = upload_bytes, rf_blob_upload_ms = upload_ms, rf_json_body = json_body_limit blob,
       rf_mls_message = message, rf_metrics_token = normalize_metrics_token (env ''MULTAIPLAYER_RELAY_METRICS_TOKEN''),
       rf_debug = debug, rf_origins = origins, rf_auth = (\<not> unsafe), rf_rate_limits = rates, rf_trust_proxy = proxy,
       rf_structured_logs = logs, rf_exit_on_poison = exits, rf_rate_window = window, rf_network_multiplier = multiplier,
       rf_rate_caps = rate_caps, rf_connection_caps = connections, rf_shutdown = times, rf_creation_caps = creation,
       rf_room_cap = room_cap, rf_device_cap = device_cap, rf_session_cap = session_cap, rf_key_package_cap = package_cap,
       rf_validation_cap = validation_cap, rf_invite_cap = invite_cap, rf_entries = entries, rf_entries_per_team = per_team,
       rf_byte_limits = limits\<rparr> }"

text \<open>The buckets of the rate limiter are the keys of its caps (http/middleware.ts).\<close>

datatype rate_bucket = Rate_auth | Rate_read | Rate_mutation | Rate_attachment | Rate_websocket | Rate_connect

fun bucket_text :: "rate_bucket \<Rightarrow> string" where
  "bucket_text Rate_auth = ''auth''"
| "bucket_text Rate_read = ''read''"
| "bucket_text Rate_mutation = ''mutation''"
| "bucket_text Rate_attachment = ''attachment''"
| "bucket_text Rate_websocket = ''websocket''"
| "bucket_text Rate_connect = ''websocketConnect''"

fun bucket_cap :: "rate_limit_caps \<Rightarrow> rate_bucket \<Rightarrow> int" where
  "bucket_cap r Rate_auth = cap_auth r"
| "bucket_cap r Rate_read = cap_read r"
| "bucket_cap r Rate_mutation = cap_mutation r"
| "bucket_cap r Rate_attachment = cap_attachment r"
| "bucket_cap r Rate_websocket = cap_websocket r"
| "bucket_cap r Rate_connect = cap_connect r"

section \<open>What the configuration hands to the components (relay-app.ts)\<close>

text \<open>\<open>createRelayLimits\<close> with the retention of \<open>createMlsBacklogPruner\<close>.\<close>

definition configured_mls_options :: "relay_config \<Rightarrow> mls_options" where
  "configured_mls_options c =
     \<lparr>lim_message_bytes = nat (rf_mls_message c), lim_mls_chars = (nat (rf_mls_message c) * 4 + 2) div 3 + 1024,
      lim_envelope_id = max_envelope_id, lim_device_id = max_device_id, lim_user_id = max_user_id,
      lim_backlog = nat (rf_backlog_limit c), lim_retention_days = rf_backlog_days c\<rparr>"

definition configured_store :: "relay_config \<Rightarrow> relay_store option" where
  "configured_store c = create_relay_store (rf_entries c) (rf_entries_per_team c) (rf_byte_limits c)"

section \<open>The check before a deployment (predeploy-check.ts)\<close>

text \<open>
  The free bytes of the file system, when they could be measured, and whether the validator of
  KeyPackages can be executed are read from the machine.
\<close>

datatype violation = Not_production | No_origin | Auth_not_required | Rate_limits_off | Debug_on | No_metrics_token
  | No_structured_logs | No_exit_on_poison | Team_ceiling_not_lower | Disk_headroom | Headroom_unknown
  | No_validator_path | Validator_not_executable

definition violations :: "relay_config \<Rightarrow> int option \<Rightarrow> string option \<Rightarrow> (string \<Rightarrow> bool) \<Rightarrow> violation list" where
  "violations c available validator executable =
     (if rf_node_env c \<noteq> ''production'' then [Not_production] else [])
     @ (if rf_origins c = [] then [No_origin] else [])
     @ (if \<not> rf_auth c then [Auth_not_required] else [])
     @ (if \<not> rf_rate_limits c then [Rate_limits_off] else [])
     @ (if rf_debug c then [Debug_on] else [])
     @ (if \<not> truthy (rf_metrics_token c) then [No_metrics_token] else [])
     @ (if \<not> rf_structured_logs c then [No_structured_logs] else [])
     @ (if \<not> rf_exit_on_poison c then [No_exit_on_poison] else [])
     @ (if rf_entries_per_team c \<ge> rf_entries c then [Team_ceiling_not_lower] else [])
     @ (case available of None \<Rightarrow> [Headroom_unknown] | Some n \<Rightarrow> if n < rf_disk_headroom c then [Disk_headroom] else [])
     @ (if \<not> truthy validator then [No_validator_path]
        else if \<not> executable (the validator) then [Validator_not_executable] else [])"

definition predeploy_check :: "relay_config \<Rightarrow> int option \<Rightarrow> string option \<Rightarrow> (string \<Rightarrow> bool) \<Rightarrow> bool" where
  "predeploy_check c available validator executable \<longleftrightarrow> violations c available validator executable = []"

end
