(* ===== verification/Guards.thy ===== *)
theory Guards
  imports Config Key_Packages Auth_Sessions
begin

text \<open>
  What stands between a request and its route (apps/relay/src/relay-app.ts): the origin policy and
  the CSRF check (http/origin-policy.ts), the session header (auth/session.ts), the availability of
  the persistence (http/persistence-availability.ts), the shutdown (lifecycle.ts), the rate limiter
  (http/middleware.ts) and the limit on the body (http/errors.ts), in the order in which they are
  mounted. The cookie and body parsers, the CORS middleware, which only sets headers and answers
  OPTIONS, and the matching of mount paths are libraries.
\<close>

section \<open>Requests\<close>

text \<open>
  A header is the list of its values; \<open>rq_cookie\<close> is the session cookie as the cookie parser left it,
  \<open>rq_body_read\<close> tells whether the body parser of the attachment routes has read a body.
\<close>

record http_request =
  rq_method :: string
  rq_path :: string
  rq_origin :: "string option"
  rq_fetch_site :: "string option"
  rq_cookie :: jsv
  rq_session_header :: jsv
  rq_real_ip :: "string list"
  rq_forwarded_for :: "string list"
  rq_remote :: "string option"
  rq_content_length :: "string list"
  rq_body_read :: bool

section \<open>Origins (origin-policy.ts)\<close>

definition is_allowed_origin :: "relay_config \<Rightarrow> string option \<Rightarrow> bool" where
  "is_allowed_origin c origin =
     (case origin of
        None \<Rightarrow> True
      | Some x \<Rightarrow> if rf_origins c \<noteq> [] then List.member (rf_origins c) x else rf_node_env c \<noteq> ''production'')"

definition is_mutation :: "string \<Rightarrow> bool" where
  "is_mutation m \<longleftrightarrow> List.member [''POST'', ''PUT'', ''PATCH'', ''DELETE''] m"

definition is_cookie_authenticated_mutation :: "string \<Rightarrow> jsv \<Rightarrow> bool" where
  "is_cookie_authenticated_mutation m cookie \<longleftrightarrow> is_mutation m \<and> (case cookie of J_str _ \<Rightarrow> True | _ \<Rightarrow> False)"

definition cookie_mutation_allowed :: "http_request \<Rightarrow> jsv \<Rightarrow> bool" where
  "cookie_mutation_allowed rq cookie \<longleftrightarrow>
     \<not> is_cookie_authenticated_mutation (rq_method rq) cookie
     \<or> rq_origin rq \<noteq> None \<or> rq_fetch_site rq = None \<or> rq_fetch_site rq = Some ''none''"

section \<open>Availability (persistence-availability.ts, lifecycle.ts)\<close>

definition is_exempt_path :: "string \<Rightarrow> bool" where
  "is_exempt_path p \<longleftrightarrow> List.member [''/healthz'', ''/readyz'', ''/metrics''] p"

section \<open>The rate limiter (middleware.ts)\<close>

definition starts_with :: "string \<Rightarrow> string \<Rightarrow> bool" where
  "starts_with p s \<longleftrightarrow> take (length p) s = p"

definition rate_limit_bucket_for_request :: "http_request \<Rightarrow> rate_bucket option" where
  "rate_limit_bucket_for_request rq =
     (let path = rq_path rq; m = rq_method rq in
      if is_exempt_path path \<or> path = ''/auth/config'' then None
      else if starts_with ''/auth/'' path then Some Rate_auth
      else if starts_with ''/attachment-blobs'' path then Some Rate_attachment
      else if m = ''GET'' then Some Rate_read
      else if is_mutation m then Some Rate_mutation
      else None)"

definition rate_key :: "rate_bucket \<Rightarrow> string \<Rightarrow> string" where
  "rate_key b client = bucket_text b @ '':'' @ client"

definition rate_capacity :: "relay_config \<Rightarrow> rate_bucket \<Rightarrow> string \<Rightarrow> int" where
  "rate_capacity c b client =
     bucket_cap (rf_rate_caps c) b * (if starts_with ''trusted-network:'' client then rf_network_multiplier c else 1)"

text \<open>\<open>pruneRateLimitStore\<close>. The store and the time of the next pruning are those of a \<open>budget\<close>.\<close>

definition prune_rate_limit_store :: "int \<Rightarrow> int \<Rightarrow> budget \<Rightarrow> budget" where
  "prune_rate_limit_store window now b =
     (if now < bg_next b then b
      else
        let kept = jwhere (\<lambda>_ r. \<not> bu_seen r + window * 2 \<le> now) (bg_accounts b) in
        \<lparr>bg_accounts = kept,
         bg_next = (if kept = [] then now + window else Min (set (map (\<lambda>r. bu_seen r + window * 2) (jvalues kept))))\<rparr>)"

text \<open>
  \<open>consumeRateLimit\<close>: whether a token was there, and the time at which the bucket is full, or has a
  token, again. Tokens are counted in units of \<open>1 / windowMs\<close>, which makes the arithmetic exact.
\<close>

definition consume_rate_limit :: "relay_config \<Rightarrow> int \<Rightarrow> rate_bucket \<Rightarrow> string \<Rightarrow> budget \<Rightarrow> (bool \<times> int) \<times> budget" where
  "consume_rate_limit c now b client st =
     (let window = rf_rate_window c in
      if \<not> rf_rate_limits c then ((True, now + window), st)
      else
        let st1 = prune_rate_limit_store window now st;
            key = rate_key b client;
            capacity = rate_capacity c b client;
            tokens = refilled capacity window now (jget (bg_accounts st1) key);
            allowed = tokens \<ge> window;
            remaining = (if allowed then tokens - window else tokens);
            reset = now + ceil_div (if allowed then capacity * window - remaining else window - remaining) capacity;
            prune_at = now + window * 2
        in ((allowed, reset),
            \<lparr>bg_accounts = jset key \<lparr>bu_tokens = remaining, bu_updated = now, bu_seen = now\<rparr> (bg_accounts st1),
             bg_next = (if bg_next st1 = 0 then prune_at else min (bg_next st1) prune_at)\<rparr>))"

fun consume_each :: "relay_config \<Rightarrow> int \<Rightarrow> rate_bucket \<Rightarrow> string list \<Rightarrow> bool \<times> int \<Rightarrow> budget \<Rightarrow> (bool \<times> int) \<times> budget" where
  "consume_each c now b [] result st = (result, st)"
| "consume_each c now b (client # clients) result st =
     (case consume_rate_limit c now b client st of
        (r, st') \<Rightarrow> if \<not> fst r then (r, st') else consume_each c now b clients r st')"

definition consume_rate_limits :: "relay_config \<Rightarrow> int \<Rightarrow> rate_bucket \<Rightarrow> string list \<Rightarrow> budget \<Rightarrow> (bool \<times> int) \<times> budget" where
  "consume_rate_limits c now b clients st = consume_each c now b clients (True, now + rf_rate_window c) st"

subsection \<open>Who a client is\<close>

definition first_header_value :: "string list \<Rightarrow> string option" where
  "first_header_value values =
     (case values of [] \<Rightarrow> None | v # _ \<Rightarrow> if js_trim v = [] then None else Some (js_trim v))"

definition first_forwarded_for_ip :: "string list \<Rightarrow> string option" where
  "first_forwarded_for_ip values =
     (case first_header_value values of
        None \<Rightarrow> None
      | Some v \<Rightarrow> let ip = js_trim (takeWhile (\<lambda>x. x \<noteq> CHR '','') v) in if ip = [] then None else Some ip)"

definition client_ip_identity :: "relay_config \<Rightarrow> http_request \<Rightarrow> string" where
  "client_ip_identity c rq =
     (let forwarded =
            (if rf_trust_proxy c
             then (case first_header_value (rq_real_ip rq) of Some ip \<Rightarrow> Some ip | None \<Rightarrow> first_forwarded_for_ip (rq_forwarded_for rq))
             else None);
          ip = (case forwarded of Some x \<Rightarrow> x | None \<Rightarrow> if truthy (rq_remote rq) then the (rq_remote rq) else ''unknown'')
      in ''ip:'' @ ip)"

definition identities_of :: "string \<Rightarrow> auth_session option \<Rightarrow> string list" where
  "identities_of ip session =
     (case session of
        None \<Rightarrow> [ip]
      | Some a \<Rightarrow> [''trusted-network:'' @ drop 3 ip, ''session:'' @ as_hash a])"

text \<open>\<open>clientRateLimitIdentities\<close>; reading the session may drop it, which saves.\<close>

definition client_rate_limit_identities ::
  "env \<Rightarrow> relay_config \<Rightarrow> int \<Rightarrow> bool \<Rightarrow> http_request \<Rightarrow> jsv \<Rightarrow> live \<Rightarrow> string list \<times> (live_error, live) outcome" where
  "client_rate_limit_identities e c now ok rq cookie l =
     (let (session, out) =
            (if normalize_auth_session_id cookie = [] then (None, Done l)
             else get_auth_session e now ok (J_str (normalize_auth_session_id cookie)) l)
      in (identities_of (client_ip_identity c rq) session, out))"

section \<open>The length of the body (errors.ts)\<close>

definition content_length_refusal :: "int \<Rightarrow> bool \<Rightarrow> string list \<Rightarrow> (nat \<times> http_code) option" where
  "content_length_refusal limit body_read header =
     (if body_read then None
      else case header of
        [] \<Rightarrow> None
      | v # _ \<Rightarrow>
          (case string_integer v of
             None \<Rightarrow> Some (400, H_invalid_request)
           | Some n \<Rightarrow> if n < 0 then Some (400, H_invalid_request)
                       else if n > limit then Some (413, H_payload_too_large) else None))"

definition ordinary_json_body_limit :: "relay_config \<Rightarrow> int" where
  "ordinary_json_body_limit c = min (rf_json_body c) 2000000"

section \<open>The guards in their order (relay-app.ts)\<close>

text \<open>
  A refusal, a preflight answered by the CORS middleware, an exception, or the session cookie that the
  routes will see.
\<close>

datatype guard_answer = Refused nat http_code | Rate_limited rate_bucket int | Preflight | Crashed live_error | Passed jsv

definition rate_limit_request ::
  "env \<Rightarrow> relay_config \<Rightarrow> int \<Rightarrow> bool \<Rightarrow> http_request \<Rightarrow> jsv \<Rightarrow> live \<Rightarrow> budget \<Rightarrow> guard_answer option \<times> live \<times> budget" where
  "rate_limit_request e c now ok rq cookie l st =
     (case rate_limit_bucket_for_request rq of
        None \<Rightarrow> (None, l, st)
      | Some b \<Rightarrow>
          (case client_rate_limit_identities e c now ok rq cookie l of
             (ids, Throws x l') \<Rightarrow> (Some (Crashed x), l', st)
           | (ids, Done l') \<Rightarrow>
               (case consume_rate_limits c now b ids st of
                  ((True, _), st') \<Rightarrow> (None, l', st')
                | ((False, reset), st') \<Rightarrow> (Some (Rate_limited b (ceil_div (max 0 (reset - now)) 1000)), l', st'))))"

definition content_length_guards :: "(string \<Rightarrow> string \<Rightarrow> bool) \<Rightarrow> relay_config \<Rightarrow> http_request \<Rightarrow> (nat \<times> http_code) option" where
  "content_length_guards mounted c rq =
     (let attachment = mounted ''/attachment-blobs'' (rq_path rq) in
      case (if attachment then content_length_refusal (rf_json_body c) False (rq_content_length rq) else None) of
        Some r \<Rightarrow> Some r
      | None \<Rightarrow> content_length_refusal (ordinary_json_body_limit c) (attachment \<and> rq_body_read rq) (rq_content_length rq))"

definition guard_request ::
  "(string \<Rightarrow> string \<Rightarrow> bool) \<Rightarrow> env \<Rightarrow> relay_config \<Rightarrow> bool \<Rightarrow> bool \<Rightarrow> int \<Rightarrow> bool \<Rightarrow> http_request \<Rightarrow> live \<Rightarrow> budget
     \<Rightarrow> guard_answer \<times> live \<times> budget" where
  "guard_request mounted e c healthy shutting_down now ok rq l st =
     (if \<not> is_allowed_origin c (rq_origin rq) then (Refused 403 H_forbidden, l, st)
      else if rq_method rq = ''OPTIONS'' then (Preflight, l, st)
      else case native_session_header (rq_session_header rq) (rq_cookie rq) of
        Inl (status, code) \<Rightarrow> (Refused status code, l, st)
      | Inr cookie \<Rightarrow>
          if \<not> cookie_mutation_allowed rq cookie then (Refused 403 H_forbidden, l, st)
          else if \<not> healthy \<and> \<not> is_exempt_path (rq_path rq) then (Refused 503 H_persistence_unavailable, l, st)
          else if shutting_down \<and> \<not> is_exempt_path (rq_path rq) then (Refused 503 H_relay_shutting_down, l, st)
          else case rate_limit_request e c now ok rq cookie l st of
            (Some answer, l', st') \<Rightarrow> (answer, l', st')
          | (None, l', st') \<Rightarrow>
              (case content_length_guards mounted c rq of
                 Some (status, code) \<Rightarrow> (Refused status code, l', st')
               | None \<Rightarrow> (Passed cookie, l', st')))"

end
