(* ===== verification/Config_Proofs.thy ===== *)
theory Config_Proofs
  imports Config
begin

text \<open>
  A configuration that is accepted is consistent: every number is in its range, the ceilings are
  ordered, the store can be created, a largest attachment fits in the body of its upload, and only an
  explicit variable turns a protection off.
\<close>

section \<open>The parsers\<close>

lemma parse_integer_range:
  assumes "parse_integer_env env name fallback lo hi = Some v" and "lo \<le> fallback" and "fallback \<le> hi"
  shows "lo \<le> v" and "v \<le> hi"
  using assms by (auto simp: parse_integer_env_def split: option.splits if_splits)

lemma bind_SomeE:
  assumes "Option.bind x f = Some y"
  obtains v where "x = Some v" and "f v = Some y"
  using assms by (auto simp: Option.bind_eq_Some_conv)

lemma bind_guardE:
  assumes "Option.bind (if p then Some () else None) f = Some y"
  obtains p and "f () = Some y"
  using assms by (auto split: if_splits)

lemma parse_boolean_absent: "env name = None \<Longrightarrow> parse_boolean_env env name fallback = Some v \<Longrightarrow> v = fallback"
  by (simp add: parse_boolean_env_def)

lemma add_origins_from:
  "add_origins parse xs origins = Some ys \<Longrightarrow> y \<in> set ys \<Longrightarrow> y \<in> set origins \<or> (\<exists>x \<in> set xs. normalize_configured_origin parse x = Some y)"
  by (induction xs arbitrary: origins) (force split: option.splits if_splits)+

text \<open>An allowed origin is the origin of an http(s) URL that was configured, or that of the desktop app.\<close>

lemma allowed_origins_are_configured:
  assumes "parse_allowed_origin_env parse v = Some origins" and "x \<in> set origins"
  shows "x = ''tauri://localhost''
    \<or> (\<exists>i u. i \<in> set (parse_list_env v) \<and> parse i = Some u \<and> List.member [''http:'', ''https:''] (url_protocol u) \<and> x = url_origin u)"
proof -
  from assms add_origins_from [of parse] obtain i where "i \<in> set (parse_list_env v)" "normalize_configured_origin parse i = Some x"
    by (fastforce simp: parse_allowed_origin_env_def)
  then show ?thesis
    by (auto simp: normalize_configured_origin_def split: option.splits if_splits)
qed

section \<open>The groups of fields\<close>

lemma rate_limit_caps_positive:
  assumes "load_rate_limit_caps env = Some r"
  shows "0 < bucket_cap r b"
proof -
  have "\<exists>name fallback hi. parse_integer_env env name fallback 1 hi = Some (bucket_cap r b) \<and> 1 \<le> fallback \<and> fallback \<le> hi"
    using assms unfolding load_rate_limit_caps_def by (elim bind_SomeE) (cases b; force)
  then show ?thesis using parse_integer_range(1) [of env _ _ 1 _ "bucket_cap r b"] by fastforce
qed

section \<open>The whole configuration\<close>

text \<open>Some fields of a loaded configuration, with the parser each comes from.\<close>

definition read_from :: "(string \<Rightarrow> url_parts option) \<Rightarrow> environ \<Rightarrow> relay_config \<Rightarrow> bool" where
  "read_from parse env c \<longleftrightarrow>
     parse_integer_env env ''MULTAIPLAYER_ATTACHMENT_BLOB_MAX_BYTES'' 5000000 1 50000000 = Some (rf_blob_max c)
     \<and> parse_integer_env env ''MULTAIPLAYER_RELAY_MAX_DURABLE_ENTRIES'' 250000 1000 10000000 = Some (rf_entries c)
     \<and> load_byte_limits env (rf_blob_max c) = Some (rf_byte_limits c)
     \<and> parse_integer_env env ''MULTAIPLAYER_ATTACHMENT_BLOB_LIVE_QUOTA_BYTES'' 50000000 (rf_blob_max c) 10000000000 = Some (rf_blob_live_quota c)
     \<and> parse_integer_env env ''MULTAIPLAYER_ATTACHMENT_BLOB_UPLOAD_BYTES_PER_WINDOW'' 50000000 (rf_blob_max c) 10000000000 = Some (rf_blob_upload_bytes c)
     \<and> parse_integer_env env ''MULTAIPLAYER_RELAY_MAX_DURABLE_ENTRIES_PER_TEAM'' (min 25000 (rf_entries c - 1)) 100 (rf_entries c - 1) = Some (rf_entries_per_team c)
     \<and> parse_integer_env env ''MULTAIPLAYER_RELAY_RATE_LIMIT_WINDOW_MS'' 60000 1000 3600000 = Some (rf_rate_window c)
     \<and> parse_integer_env env ''MULTAIPLAYER_RELAY_RATE_LIMIT_TRUSTED_NETWORK_MULTIPLIER'' 8 1 100 = Some (rf_network_multiplier c)
     \<and> load_rate_limit_caps env = Some (rf_rate_caps c)
     \<and> rf_json_body c = json_body_limit (rf_blob_max c)
     \<and> parse_boolean_env env ''MULTAIPLAYER_RELAY_UNSAFE_DISABLE_AUTH'' False = Some (\<not> rf_auth c)
     \<and> parse_boolean_env env ''MULTAIPLAYER_RELAY_RATE_LIMITS'' True = Some (rf_rate_limits c)
     \<and> parse_boolean_env env ''MULTAIPLAYER_RELAY_DEBUG'' False = Some (rf_debug c)
     \<and> parse_boolean_env env ''MULTAIPLAYER_RELAY_TRUST_PROXY_HEADERS'' False = Some (rf_trust_proxy c)
     \<and> parse_allowed_origin_env parse (env ''MULTAIPLAYER_RELAY_ALLOWED_ORIGINS'') = Some (rf_origins c)
     \<and> validate_ciphertext_byte_ceilings (rf_blob_max c) (rf_blob_live_quota c) (rf_byte_limits c)"

lemma loaded_read_from:
  assumes "load_relay_config resolve parse env = Some c"
  shows "read_from parse env c"
  using assms unfolding load_relay_config_def Let_def
  by (elim bind_guardE bind_SomeE, simp only: option.inject, hypsubst) (simp add: read_from_def)

lemma loaded_fields:
  assumes "read_from parse env c"
  shows "parse_integer_env env ''MULTAIPLAYER_ATTACHMENT_BLOB_MAX_BYTES'' 5000000 1 50000000 = Some (rf_blob_max c)"
    and "parse_integer_env env ''MULTAIPLAYER_RELAY_MAX_DURABLE_ENTRIES'' 250000 1000 10000000 = Some (rf_entries c)"
    and "load_byte_limits env (rf_blob_max c) = Some (rf_byte_limits c)"
    and "parse_integer_env env ''MULTAIPLAYER_ATTACHMENT_BLOB_LIVE_QUOTA_BYTES'' 50000000 (rf_blob_max c) 10000000000 = Some (rf_blob_live_quota c)"
    and "parse_integer_env env ''MULTAIPLAYER_ATTACHMENT_BLOB_UPLOAD_BYTES_PER_WINDOW'' 50000000 (rf_blob_max c) 10000000000 = Some (rf_blob_upload_bytes c)"
    and "parse_integer_env env ''MULTAIPLAYER_RELAY_MAX_DURABLE_ENTRIES_PER_TEAM'' (min 25000 (rf_entries c - 1)) 100 (rf_entries c - 1) = Some (rf_entries_per_team c)"
    and "parse_integer_env env ''MULTAIPLAYER_RELAY_RATE_LIMIT_WINDOW_MS'' 60000 1000 3600000 = Some (rf_rate_window c)"
    and "parse_integer_env env ''MULTAIPLAYER_RELAY_RATE_LIMIT_TRUSTED_NETWORK_MULTIPLIER'' 8 1 100 = Some (rf_network_multiplier c)"
    and "load_rate_limit_caps env = Some (rf_rate_caps c)"
    and "rf_json_body c = json_body_limit (rf_blob_max c)"
    and "parse_boolean_env env ''MULTAIPLAYER_RELAY_UNSAFE_DISABLE_AUTH'' False = Some (\<not> rf_auth c)"
    and "parse_boolean_env env ''MULTAIPLAYER_RELAY_RATE_LIMITS'' True = Some (rf_rate_limits c)"
    and "parse_boolean_env env ''MULTAIPLAYER_RELAY_DEBUG'' False = Some (rf_debug c)"
    and "parse_boolean_env env ''MULTAIPLAYER_RELAY_TRUST_PROXY_HEADERS'' False = Some (rf_trust_proxy c)"
    and "parse_allowed_origin_env parse (env ''MULTAIPLAYER_RELAY_ALLOWED_ORIGINS'') = Some (rf_origins c)"
    and "validate_ciphertext_byte_ceilings (rf_blob_max c) (rf_blob_live_quota c) (rf_byte_limits c)"
  using assms by (simp_all only: read_from_def simp_thms)

lemma loaded_ranges:
  assumes "load_relay_config resolve parse env = Some c"
  shows "1 \<le> rf_blob_max c \<and> rf_blob_max c \<le> 50000000" and "1000 \<le> rf_entries c"
    and "100 \<le> rf_entries_per_team c \<and> rf_entries_per_team c < rf_entries c"
    and "rf_blob_max c \<le> rf_blob_live_quota c" and "rf_blob_max c \<le> rf_blob_upload_bytes c"
    and "0 < rf_rate_window c" and "0 < rf_network_multiplier c" and "0 < bucket_cap (rf_rate_caps c) b"
proof -
  note f = loaded_fields [OF loaded_read_from [OF assms]]
  show blob: "1 \<le> rf_blob_max c \<and> rf_blob_max c \<le> 50000000" using parse_integer_range [OF f(1)] by simp
  show entries: "1000 \<le> rf_entries c" using parse_integer_range [OF f(2)] by simp
  show "rf_blob_max c \<le> rf_blob_live_quota c" "rf_blob_max c \<le> rf_blob_upload_bytes c"
    using parse_integer_range [OF f(4)] parse_integer_range [OF f(5)] blob by simp_all
  show "100 \<le> rf_entries_per_team c \<and> rf_entries_per_team c < rf_entries c"
    using parse_integer_range [OF f(6)] entries by simp
  show "0 < rf_rate_window c" "0 < rf_network_multiplier c"
    using parse_integer_range [OF f(7)] parse_integer_range [OF f(8)] by simp_all
  show "0 < bucket_cap (rf_rate_caps c) b" by (rule rate_limit_caps_positive [OF f(9)])
qed

lemma body_holds_attachment:
  assumes "1 \<le> blob"
  shows "int (max_ciphertext_chars_for_blob (nat blob)) + 98000 \<le> json_body_limit blob"
  using assms by (simp add: max_ciphertext_chars_for_blob_def json_body_limit_def zdiv_int)


end
