(* ===== verification/Guard_Proofs.thy ===== *)
theory Guard_Proofs
  imports Guards Config_Proofs Key_Package_Proofs
begin

text \<open>
  The guards in front of the routes: the rate limiter decides as if it never forgot a bucket, the
  requests of one network address are bounded by its two buckets whatever sessions they present, and in
  a deployment that passed its check a browser's mutation comes from an allowed origin.
\<close>

section \<open>Pruning\<close>

lemma prune_store_accounts [simp]:
  "bg_accounts (prune_rate_limit_store window now st) = bg_accounts (prune_budget window now st)"
  by (simp add: prune_rate_limit_store_def prune_budget_def Let_def)

lemma buckets_ok_accounts: "bg_accounts a = bg_accounts b \<Longrightarrow> buckets_ok t a = buckets_ok t b"
  by (simp add: buckets_ok_def)

lemma buckets_ok_later: "buckets_ok t b \<Longrightarrow> t \<le> t' \<Longrightarrow> buckets_ok t' b"
  by (force simp: buckets_ok_def)

lemma pruned_lookup:
  assumes "jwf (bg_accounts st)"
  shows "jget (bg_accounts (prune_budget window now st)) k =
     (if now < bg_next st then jget (bg_accounts st) k
      else case jget (bg_accounts st) k of None \<Rightarrow> None | Some r \<Rightarrow> if bu_seen r + window * 2 \<le> now then None else Some r)"
  by (auto simp: prune_budget_def Let_def jget_jwhere [OF assms] split: option.splits)

lemma full_after_two_windows:
  assumes "0 < capacity" and "0 < window" and "0 \<le> bu_tokens r" and "bu_updated r + window * 2 \<le> now"
  shows "refilled capacity window now (Some r) = capacity * window"
proof -
  have later: "max 0 (now - bu_updated r) = now - bu_updated r" and "window \<le> now - bu_updated r"
    using assms by simp_all
  then have "window * capacity \<le> (now - bu_updated r) * capacity"
    using assms(1) by (intro mult_right_mono) simp_all
  then have "capacity * window \<le> bu_tokens r + (now - bu_updated r) * capacity"
    using assms(3) by (simp only: mult.commute [of capacity])
  with later show ?thesis by (simp add: refilled_def)
qed

section \<open>The reference: buckets that are never forgotten\<close>

text \<open>A bucket of a client, full until it is used.\<close>

definition use_bucket :: "relay_config \<Rightarrow> int \<Rightarrow> rate_bucket \<Rightarrow> string \<Rightarrow> (string \<rightharpoonup> bucket) \<Rightarrow> (bool \<times> int) \<times> (string \<rightharpoonup> bucket)" where
  "use_bucket c now b client f =
     (let window = rf_rate_window c; capacity = rate_capacity c b client;
          tokens = refilled capacity window now (f (rate_key b client));
          left = (if tokens \<ge> window then tokens - window else tokens)
      in ((tokens \<ge> window, now + ceil_div (if tokens \<ge> window then capacity * window - left else window - left) capacity),
          f(rate_key b client \<mapsto> \<lparr>bu_tokens = left, bu_updated = now, bu_seen = now\<rparr>)))"

fun limiter_answers :: "relay_config \<Rightarrow> (int \<times> rate_bucket \<times> string) list \<Rightarrow> budget \<Rightarrow> (bool \<times> int) list" where
  "limiter_answers c [] st = []"
| "limiter_answers c ((t, b, client) # rs) st =
     (case consume_rate_limit c t b client st of (r, st') \<Rightarrow> r # limiter_answers c rs st')"

fun bucket_answers :: "relay_config \<Rightarrow> (int \<times> rate_bucket \<times> string) list \<Rightarrow> (string \<rightharpoonup> bucket) \<Rightarrow> (bool \<times> int) list" where
  "bucket_answers c [] f = []"
| "bucket_answers c ((t, b, client) # rs) f =
     (case use_bucket c t b client f of (r, f') \<Rightarrow> r # bucket_answers c rs f')"

text \<open>The store holds the used buckets, except some that have been full for long.\<close>

definition remembers :: "int \<Rightarrow> int \<Rightarrow> budget \<Rightarrow> (string \<rightharpoonup> bucket) \<Rightarrow> bool" where
  "remembers window t st f \<longleftrightarrow> jwf (bg_accounts st)
     \<and> (\<forall>k r. f k = Some r \<longrightarrow> 0 \<le> bu_tokens r \<and> bu_updated r = bu_seen r)
     \<and> (\<forall>k. jget (bg_accounts st) k = f k
          \<or> jget (bg_accounts st) k = None \<and> (\<exists>r. f k = Some r \<and> bu_seen r + window * 2 \<le> t))"

lemma remembers_pruned:
  assumes "remembers window t st f" and "t \<le> t'"
  shows "remembers window t' (prune_rate_limit_store window t' st) f"
proof -
  have wf: "jwf (bg_accounts st)" using assms(1) by (simp add: remembers_def)
  then have "jwf (bg_accounts (prune_budget window t' st))" by (simp add: prune_budget_def Let_def jwf_jwhere)
  moreover have "jget (bg_accounts (prune_budget window t' st)) k = f k
      \<or> jget (bg_accounts (prune_budget window t' st)) k = None \<and> (\<exists>r. f k = Some r \<and> bu_seen r + window * 2 \<le> t')" for k
    using assms unfolding remembers_def pruned_lookup [OF wf] by (auto split: option.splits dest!: spec [of _ k])
  ultimately show ?thesis using assms(1) by (simp add: remembers_def)
qed

lemma remembers_tokens:
  assumes "0 < capacity" "0 < window" and "remembers window t st f"
  shows "refilled capacity window t (jget (bg_accounts st) k) = refilled capacity window t (f k)"
proof (cases "jget (bg_accounts st) k = f k")
  case False
  with assms(3) obtain r where r: "jget (bg_accounts st) k = None" "f k = Some r" "bu_seen r + window * 2 \<le> t"
    "0 \<le> bu_tokens r" "bu_updated r = bu_seen r" unfolding remembers_def by metis
  with full_after_two_windows [OF assms(1,2), of r t] show ?thesis by (simp add: refilled_def)
qed simp

lemma consume_remembers:
  assumes cap: "0 < rate_capacity c b client" and w: "0 < rf_rate_window c" and on: "rf_rate_limits c"
    and rem: "remembers (rf_rate_window c) t st f" and le: "t \<le> t'"
  shows "fst (consume_rate_limit c t' b client st) = fst (use_bucket c t' b client f)
     \<and> remembers (rf_rate_window c) t' (snd (consume_rate_limit c t' b client st)) (snd (use_bucket c t' b client f))"
proof -
  let ?st = "prune_rate_limit_store (rf_rate_window c) t' st" and ?k = "rate_key b client"
  have rem': "remembers (rf_rate_window c) t' ?st f" by (rule remembers_pruned [OF rem le])
  note tok = remembers_tokens [OF cap w rem', of ?k]
  have f0: "0 \<le> refilled (rate_capacity c b client) (rf_rate_window c) t' (f ?k)"
    using rem' cap w by (auto simp: refilled_def remembers_def split: option.split)
  show ?thesis
    using on rem' f0 by (auto simp: consume_rate_limit_def use_bucket_def Let_def tok [simplified] remembers_def)
qed

lemma rate_capacity_positive:
  "load_relay_config resolve parse env = Some c \<Longrightarrow> 0 < rate_capacity c b client"
  using loaded_ranges(7,8) by (simp add: rate_capacity_def)

text \<open>
  C24: The rate limiter forgets buckets, at times that depend on the requests of all clients, and yet it
  answers every sequence of requests as the buckets would that are never forgotten: the same requests
  are allowed, and the same times are given for the next one.
\<close>

theorem forgotten_buckets_are_full:
  assumes "load_relay_config resolve parse env = Some c" and "rf_rate_limits c" and "sorted (map fst requests)"
  shows "limiter_answers c requests \<lparr>bg_accounts = [], bg_next = 0\<rparr> = bucket_answers c requests Map.empty"
proof -
  have gen: "limiter_answers c rs st = bucket_answers c rs f"
    if "remembers (rf_rate_window c) t st f" "list_all (\<lambda>(t', _). t \<le> t') rs" "sorted (map fst rs)" for rs t st f
    using that
  proof (induction rs arbitrary: t st f)
    case (Cons x rs)
    obtain t' b client where x: "x = (t', b, client)" by (cases x) auto
    have step: "fst (consume_rate_limit c t' b client st) = fst (use_bucket c t' b client f)
        \<and> remembers (rf_rate_window c) t' (snd (consume_rate_limit c t' b client st)) (snd (use_bucket c t' b client f))"
      using Cons.prems(1,2) by (intro consume_remembers rate_capacity_positive [OF assms(1)] loaded_ranges(6) [OF assms(1)] assms(2)) (auto simp: x)
    have "list_all (\<lambda>(s, _). t' \<le> s) rs" "sorted (map fst rs)"
      using Cons.prems(3) by (auto simp: x list_all_iff)
    with Cons.IH step show ?case by (auto simp: x case_prod_unfold)
  qed simp
  show ?thesis
  proof (cases requests)
    case (Cons x xs)
    have "remembers (rf_rate_window c) (fst x) \<lparr>bg_accounts = [], bg_next = 0\<rparr> Map.empty" by (simp add: remembers_def)
    moreover have "list_all (\<lambda>(t', _). fst x \<le> t') requests" using assms(3) by (auto simp: Cons list_all_iff)
    ultimately show ?thesis using gen assms(3) by blast
  qed simp
qed

section \<open>The requests of one network address\<close>

abbreviation limiter_tokens :: "relay_config \<Rightarrow> rate_bucket \<Rightarrow> string \<Rightarrow> int \<Rightarrow> budget \<Rightarrow> int" where
  "limiter_tokens c b client t st \<equiv> tokens_at (rate_capacity c b client) (rf_rate_window c) (rate_key b client) t st"

lemma rate_key_inject: "rate_key b x = rate_key b' y \<Longrightarrow> b = b' \<and> x = y"
  by (cases b; cases b') (auto simp: rate_key_def)

lemma consume_tokens:
  assumes cap: "\<And>b x. 0 < rate_capacity c b x" and w: "0 < rf_rate_window c" and on: "rf_rate_limits c"
    and ok: "buckets_ok t st" and le: "t \<le> t'" and run: "consume_rate_limit c t' b' y st = ((yes, reset), st')"
  shows "buckets_ok t' st'"
    and "(if b' = b \<and> y = x \<and> yes then rf_rate_window c else 0) + limiter_tokens c b x t' st'
       \<le> limiter_tokens c b x t st + (t' - t) * rate_capacity c b x"
proof -
  let ?W = "rf_rate_window c" and ?C = "rate_capacity c b x"
  let ?st = "prune_rate_limit_store ?W t' st" and ?tok = "limiter_tokens c b' y t' (prune_rate_limit_store ?W t' st)"
  define left where "left = (if ?W \<le> ?tok then ?tok - ?W else ?tok)"
  have pr: "buckets_ok t' ?st" "limiter_tokens c b x t' ?st = limiter_tokens c b x t' st"
    using prune_budget_invisible [OF cap w ok le] by (simp_all add: tokens_at_def cong: buckets_ok_accounts)
  have grow: "limiter_tokens c b x t' st \<le> limiter_tokens c b x t st + (t' - t) * ?C"
    by (rule tokens_grow(1) [OF cap ok le])
  have tok: "0 \<le> ?tok" "?tok \<le> rate_capacity c b' y * ?W"
    using pr(1) cap [of b' y] w tokens_grow(2) [OF cap pr(1) order_refl, of b' y] by (auto simp: tokens_at_def refilled_def buckets_ok_def split: option.split)
  then have left: "0 \<le> left" "left \<le> ?tok" "left \<le> rate_capacity c b' y * ?W" using w by (auto simp: left_def)
  from run have st': "bg_accounts st' = jset (rate_key b' y) \<lparr>bu_tokens = left, bu_updated = t', bu_seen = t'\<rparr> (bg_accounts ?st)"
    and yes: "yes \<longleftrightarrow> ?W \<le> ?tok"
    using on by (auto simp: consume_rate_limit_def Let_def left_def tokens_at_def)
  show "buckets_ok t' st'" using pr(1) left(1) by (auto simp: buckets_ok_def st')
  have "limiter_tokens c b x t' st' = (if b' = b \<and> y = x then left else limiter_tokens c b x t' ?st)"
    using left(3) rate_key_inject by (fastforce simp: tokens_at_def st' refilled_def)
  then show "(if b' = b \<and> y = x \<and> yes then ?W else 0) + limiter_tokens c b x t' st' \<le> limiter_tokens c b x t st + (t' - t) * ?C"
    using grow pr(2) yes by (auto simp: left_def)
qed

text \<open>The requests of an address to a bucket: without a session, or with any session.\<close>

definition of_network :: "string \<Rightarrow> string list \<Rightarrow> bool" where
  "of_network ip ids \<longleftrightarrow> ids = [''ip:'' @ ip] \<or> (\<exists>h. ids = [''trusted-network:'' @ ip, ''session:'' @ h])"

fun allowed_of_network :: "relay_config \<Rightarrow> rate_bucket \<Rightarrow> string \<Rightarrow> (int \<times> rate_bucket \<times> string list) list \<Rightarrow> budget \<Rightarrow> int" where
  "allowed_of_network c b ip [] st = 0"
| "allowed_of_network c b ip ((t, b', ids) # rs) st =
     (case consume_rate_limits c t b' ids st of
        ((yes, _), st') \<Rightarrow>
          (if b' = b \<and> of_network ip ids \<and> yes then 1 else 0) + allowed_of_network c b ip rs st')"

lemma each_tokens:
  assumes cap: "\<And>b x. 0 < rate_capacity c b x" and w: "0 < rf_rate_window c" and on: "rf_rate_limits c"
    and ok: "buckets_ok t st" and le: "t \<le> t'" and run: "consume_each c t' b' ids result st = ((yes, reset), st')"
  shows "buckets_ok t' st' \<and> (if b' = b \<and> x \<in> set ids \<and> yes then rf_rate_window c else 0) + limiter_tokens c b x t' st'
       \<le> limiter_tokens c b x t st + (t' - t) * rate_capacity c b x"
  using ok le run
proof (induction ids arbitrary: result st t)
  case Nil
  then show ?case using tokens_grow(1) [OF cap, of t st t'] by (auto simp: buckets_ok_later)
next
  case (Cons y ids)
  obtain a r st1 where one: "consume_rate_limit c t' b' y st = ((a, r), st1)" by (metis prod.exhaust)
  note step = consume_tokens [OF cap w on Cons.prems(1,2) one]
  show ?case
  proof (cases a)
    case True
    with Cons.prems(3) one have "consume_each c t' b' ids (a, r) st1 = ((yes, reset), st')" by simp
    from Cons.IH [OF step(1) order_refl this] step(2) [of b x] True w show ?thesis by (auto split: if_splits)
  next
    case False
    with Cons.prems(3) one step(1) step(2) [of b x] show ?thesis by auto
  qed
qed

lemma network_step:
  assumes cap: "\<And>b x. 0 < rate_capacity c b x" and w: "0 < rf_rate_window c" and on: "rf_rate_limits c"
    and ok: "buckets_ok t st" and le: "t \<le> t'" and run: "consume_rate_limits c t' b' ids st = ((yes, reset), st')"
  shows "buckets_ok t' st' \<and> (if b' = b \<and> of_network ip ids \<and> yes then rf_rate_window c else 0)
         + (limiter_tokens c b (''ip:'' @ ip) t' st' + limiter_tokens c b (''trusted-network:'' @ ip) t' st')
       \<le> limiter_tokens c b (''ip:'' @ ip) t st + limiter_tokens c b (''trusted-network:'' @ ip) t st
         + (t' - t) * (rate_capacity c b (''ip:'' @ ip) + rate_capacity c b (''trusted-network:'' @ ip))"
proof -
  note each = each_tokens [OF cap w on ok le run [unfolded consume_rate_limits_def]]
  from each [of b "''ip:'' @ ip"] each [of b "''trusted-network:'' @ ip"] w show ?thesis
    by (auto simp: of_network_def algebra_simps split: if_splits)
qed


section \<open>What a request that passed has shown\<close>

lemma rate_limit_no_pass: "rate_limit_request e c now ok rq cookie l st \<noteq> (Some (Passed x), l', st')"
  by (auto simp: rate_limit_request_def split: option.splits prod.splits outcome.splits bool.splits)

lemma guard_passed:
  assumes "guard_request mounted e c healthy shutting_down now ok rq l st = (Passed cookie, l', st')"
  shows "is_allowed_origin c (rq_origin rq)" and "cookie_mutation_allowed rq cookie"
    and "is_exempt_path (rq_path rq) \<or> healthy \<and> \<not> shutting_down"
    and "native_session_header (rq_session_header rq) (rq_cookie rq) = Inr cookie"
    and "rate_limit_request e c now ok rq cookie l st = (None, l', st')"
  using assms by (auto simp: guard_request_def rate_limit_no_pass split: if_splits sum.splits option.splits prod.splits)

text \<open>
  A HEAD request has no bucket, except on the routes of the session and of attachments, while Express
  answers it with the handler of GET.
\<close>

lemma head_requests_are_unlimited:
  assumes "rq_method rq = ''HEAD''" and "\<not> starts_with ''/auth/'' (rq_path rq)" and "\<not> starts_with ''/attachment-blobs'' (rq_path rq)"
  shows "rate_limit_request e c now ok rq cookie l st = (None, l, st)"
  using assms by (auto simp: rate_limit_request_def rate_limit_bucket_for_request_def is_mutation_def Let_def)

text \<open>
  C22: In a deployment that passed its check, a mutation that reaches a route with a session, from a
  header or from a cookie, and that a browser sent comes from an allowed origin, which is that of an http
  or https URL of the configuration or that of the desktop app. A browser names the origin of such a
  request, or its relation to the site, in headers that a page cannot suppress.
\<close>

theorem browser_mutations_come_from_allowed_origins:
  assumes "load_relay_config resolve parse env = Some c" and "predeploy_check c available validator executable"
    and "guard_request mounted e c healthy shutting_down now ok rq l st = (Passed (J_str session), l', st')"
    and "is_mutation (rq_method rq)" and "rq_origin rq = None \<Longrightarrow> rq_fetch_site rq \<noteq> None \<and> rq_fetch_site rq \<noteq> Some ''none''"
  shows "\<exists>origin. rq_origin rq = Some origin \<and> List.member (rf_origins c) origin
     \<and> (origin = ''tauri://localhost''
        \<or> (\<exists>i u. List.member (parse_list_env (env ''MULTAIPLAYER_RELAY_ALLOWED_ORIGINS'')) i \<and> parse i = Some u
             \<and> List.member [''http:'', ''https:''] (url_protocol u) \<and> origin = url_origin u))"
proof -
  note passed = guard_passed [OF assms(3)]
  have "rf_origins c \<noteq> []" using assms(2) by (auto simp: predeploy_check_def violations_def split: if_splits)
  moreover have "rq_origin rq \<noteq> None"
    using passed(2) assms(4) assms(5) by (cases "rq_origin rq") (simp_all add: cookie_mutation_allowed_def is_cookie_authenticated_mutation_def)
  ultimately obtain origin where o: "rq_origin rq = Some origin" "origin \<in> set (rf_origins c)"
    using passed(1) by (auto simp: is_allowed_origin_def)
  with allowed_origins_are_configured [OF loaded_fields(15) [OF loaded_read_from [OF assms(1)]]] show ?thesis by auto
qed

end
