(* ===== verification/Operator_Tools.thy ===== *)
theory Operator_Tools
  imports Restrictions Config
begin

text \<open>
  The offline tools of the operator, which run while the relay is stopped: retiring a device
  (apps/relay/src/retire-device.ts), restricting an account (manage-account-restriction.ts), and the
  save of a whole state they use (\<open>saveNormalizedRelayState\<close> of sqlite-state-repository.ts). \<open>None\<close> is
  an exception, after which the database is as it was; \<open>resolve\<close> is that of the path library.
\<close>

section \<open>Saving a whole state (sqlite-state-repository.ts)\<close>

text \<open>The key a row is saved under; a row without one is left out.\<close>

definition key_for_item :: "entity \<Rightarrow> stored \<Rightarrow> string option" where
  "key_for_item e v =
     (if e = E_acceptedMessageReceipts
      then (case v of V_receipt r \<Rightarrow> (if mr_message r = [] then None else Some (stringify (Jlist [Jstr (mr_room r), Jstr (mr_message r)])))
            | _ \<Rightarrow> None)
      else row_identity e v)"

text \<open>\<open>saveJsonRows\<close>: a second row of the same key violates the primary key.\<close>

fun save_json_rows :: "entity \<Rightarrow> stored list \<Rightarrow> (string, stored) jmap \<Rightarrow> (string, stored) jmap option" where
  "save_json_rows e [] rows = Some rows"
| "save_json_rows e (v # vs) rows =
     (case key_for_item e v of
        None \<Rightarrow> save_json_rows e vs rows
      | Some k \<Rightarrow> if jhas rows k then None else save_json_rows e vs (jset k v rows))"

definition upsert_room_epochs :: "stored list \<Rightarrow> (string, nat) jmap \<Rightarrow> (string, nat) jmap" where
  "upsert_room_epochs vs epochs =
     fold (\<lambda>v m. case v of V_room r \<Rightarrow> jset (room_key (r_team r) (r_id r)) (case r_epoch r of None \<Rightarrow> 0 | Some n \<Rightarrow> n) m | _ \<Rightarrow> m) vs epochs"

definition prune_mls_message_rows :: "(string, mls_message list) jmap \<Rightarrow> message_row list \<Rightarrow> message_row list" where
  "prune_mls_message_rows backlog rows =
     (let retained = fold (\<lambda>(k, ms) m. jset k (filter (\<lambda>i. i \<noteq> []) (map mm_id ms)) m) backlog [] in
      jwhere (\<lambda>(r, i) _. case jget retained r of None \<Rightarrow> False | Some ids \<Rightarrow> List.member ids i) rows)"

definition save_normalized_state :: "(entity \<Rightarrow> stored list) \<Rightarrow> (string, mls_message list) jmap \<Rightarrow> database \<Rightarrow> database option" where
  "save_normalized_state rows backlog d =
     (if list_ex (\<lambda>e. save_json_rows e (rows e) [] = None) json_entities then None
      else Some (d\<lparr>db_versioned := True,
        db_rows := (\<lambda>e. case save_json_rows e (rows e) [] of None \<Rightarrow> [] | Some m \<Rightarrow> m),
        db_epochs := upsert_room_epochs (rows E_rooms) (db_epochs d),
        db_messages := prune_mls_message_rows backlog (db_messages d)\<rparr>))"

section \<open>Retiring a device (retire-device.ts)\<close>

definition is_hosted_by_device :: "string \<Rightarrow> string \<Rightarrow> stored \<Rightarrow> bool" where
  "is_hosted_by_device u dev v = (case v of V_room r \<Rightarrow> r_host_user r = Some u \<and> r_host_device r = Some dev | _ \<Rightarrow> False)"

definition is_owned_by_device :: "string \<Rightarrow> string \<Rightarrow> stored \<Rightarrow> bool" where
  "is_owned_by_device u dev v = (case v of
     V_device d \<Rightarrow> d_user d = u \<and> d_device d = dev | V_key_package k \<Rightarrow> k_user k = u \<and> k_device k = dev | _ \<Rightarrow> False)"

definition retire_device :: "string \<Rightarrow> string \<Rightarrow> database \<Rightarrow> database option" where
  "retire_device u dev d =
     (case load_normalized_state d of
        Loaded rows backlog \<Rightarrow>
          if list_ex (is_hosted_by_device u dev) (rows E_rooms) then None
          else
            let retained = (\<lambda>e. filter (\<lambda>v. \<not> is_owned_by_device u dev v) (rows e)) in
            if length (retained E_devices) = length (rows E_devices) then None
            else save_normalized_state (rows(E_devices := retained E_devices, E_keyPackages := retained E_keyPackages)) backlog d
      | _ \<Rightarrow> None)"

definition valid_identifier :: "string option \<Rightarrow> bool" where
  "valid_identifier v = (case v of None \<Rightarrow> False | Some s \<Rightarrow> s \<noteq> [] \<and> s = js_trim s \<and> length s \<le> 512 \<and> \<not> has_control s)"

definition cli_option :: "string list \<Rightarrow> string \<Rightarrow> string option" where
  "cli_option args name =
     (let prefix = ''--'' @ name @ ''='' in
      map_option (drop (length prefix)) (find (\<lambda>a. take (length prefix) a = prefix) args))"

definition cli_operands :: "string list \<Rightarrow> string list" where
  "cli_operands args = filter (\<lambda>a. take 2 a \<noteq> ''--'') args"

definition operand :: "nat \<Rightarrow> string list \<Rightarrow> string option" where
  "operand n args = (if n < length (cli_operands args) then Some (cli_operands args ! n) else None)"

text \<open>The path of the database: the option when it is there, the variable otherwise.\<close>

definition cli_data_path :: "environ \<Rightarrow> string list \<Rightarrow> string option" where
  "cli_data_path env args =
     (let p = (case cli_option args ''data-path'' of Some x \<Rightarrow> Some x | None \<Rightarrow> env ''MULTAIPLAYER_RELAY_DATA_PATH'') in
      if truthy p then p else None)"

definition retire_arguments :: "(string list \<Rightarrow> string) \<Rightarrow> environ \<Rightarrow> string list \<Rightarrow> (string \<times> string \<times> string) option" where
  "retire_arguments resolve env args =
     (if \<not> List.member args ''--confirm-relay-stopped'' then None
      else if \<not> valid_identifier (operand 0 args) \<or> \<not> valid_identifier (operand 1 args) then None
      else if cli_option args ''confirm-device-id'' \<noteq> operand 1 args then None
      else map_option (\<lambda>p. (the (operand 0 args), the (operand 1 args), resolve [p])) (cli_data_path env args))"

section \<open>Restricting an account (manage-account-restriction.ts)\<close>

datatype restriction_action = Restrict | Unrestrict

text \<open>The restrictions of the stored state by their user, the last one of a user wins.\<close>

definition stored_restrictions :: "stored list \<Rightarrow> (string, restriction) jmap" where
  "stored_restrictions rows = fold (\<lambda>v m. case v of V_restriction r \<Rightarrow> jset (re_user r) r m | _ \<Rightarrow> m) rows []"

definition manage_account_restriction ::
  "int \<Rightarrow> restriction_action \<Rightarrow> string \<Rightarrow> string \<Rightarrow> stamp option \<Rightarrow> database \<Rightarrow> database option" where
  "manage_account_restriction now action u reason expires d =
     (case load_normalized_state d of
        Loaded rows backlog \<Rightarrow>
          let restrictions = stored_restrictions (rows E_accountRestrictions);
              r = \<lparr>re_user = u, re_reason = reason, re_created = Iso now,
                   re_expires = (if stamp_set expires then expires else None)\<rparr>;
              save = (\<lambda>m. save_normalized_state (rows(E_accountRestrictions := map V_restriction (jvalues m))) backlog d) in
          (case action of
             Restrict \<Rightarrow> if valid_account_restriction now r then save (jset u r restrictions) else None
           | Unrestrict \<Rightarrow> save (jdel u restrictions))
      | _ \<Rightarrow> None)"

definition restriction_arguments ::
  "(string list \<Rightarrow> string) \<Rightarrow> environ \<Rightarrow> string list \<Rightarrow> (restriction_action \<times> string \<times> string \<times> string option \<times> string) option" where
  "restriction_arguments resolve env args =
     (if \<not> List.member args ''--confirm-relay-stopped'' then None
      else
        let action = (if operand 0 args = Some ''restrict'' then Some Restrict
                      else if operand 0 args = Some ''unrestrict'' then Some Unrestrict else None);
            expires = cli_option args ''expires-at'' in
        (case (action, operand 1 args, cli_data_path env args) of
           (Some a, Some u, Some p) \<Rightarrow>
             if u = [] then None
             else Some (a, u, (case operand 2 args of None \<Rightarrow> ''operator_restriction'' | Some r \<Rightarrow> r),
                        (if truthy expires then expires else None), resolve [p])
         | _ \<Rightarrow> None))"

end
