(* ===== verification/Operator_Proofs.thy ===== *)
theory Operator_Proofs
  imports Operator_Tools
begin

text \<open>
  The operator's tools write back what they read, except for what they are asked to change: saving a
  loaded state leaves it as it was, and retiring a device takes the device and its KeyPackages only.
\<close>

section \<open>Saving what was loaded\<close>

lemma key_of_identity: "row_identity e v = Some k \<Longrightarrow> key_for_item e v = Some k"
  by (auto simp: key_for_item_def row_identity_def storage_key_for_row_def split: stored.splits option.splits if_splits)

lemma save_json_rows_append:
  assumes "distinct (map fst (m @ kvs))" and "list_all (\<lambda>(k, v). key_for_item e v = Some k) kvs"
  shows "save_json_rows e (map snd kvs) m = Some (m @ kvs)"
  using assms
proof (induction kvs arbitrary: m)
  case (Cons x kvs)
  obtain k v where x: "x = (k, v)" by (cases x)
  have "jget m k = None" using Cons.prems(1) by (auto simp: x map_of_eq_None_iff)
  with Cons.IH [of "m @ [(k, v)]"] Cons.prems show ?case by (simp add: x jhas_def jset_new)
qed simp

text \<open>A table in the order of its keys.\<close>

definition key_order :: "entity \<Rightarrow> database \<Rightarrow> (string, stored) jmap" where
  "key_order e d = sort_key fst (db_rows d e)"

lemma sort_key_same: "sorted (map f xs) \<Longrightarrow> sort_key f xs = xs"
  by (rule sort_key_id_if_sorted)

lemma saved_rows_load:
  assumes "load_json_rows e d = Some vs" and "jwf (db_rows d e)"
    and "db_rows d' e = filter (\<lambda>(k, v). P v) (key_order e d)"
  shows "save_json_rows e (filter P vs) [] = Some (filter (\<lambda>(k, v). P v) (key_order e d))" and "load_json_rows e d' = Some (filter P vs)"
proof -
  let ?kvs = "filter (\<lambda>(k, v). P v) (key_order e d)"
  have ids: "row_identity e v = Some k" if "(k, v) \<in> set (key_order e d)" for k v
    using assms(1) that by (auto simp: load_json_rows_def key_order_def list_all_iff split: if_splits)
  have vs: "filter P vs = map snd ?kvs"
    using assms(1) by (auto simp: load_json_rows_def key_order_def jvalues_def filter_map comp_def case_prod_unfold split: if_splits)
  have "distinct (map fst (key_order e d))"
    using assms(2) by (metis key_order_def mset_eq_imp_distinct_iff mset_map mset_sort)
  then have "distinct (map fst ?kvs)" by (rule distinct_map_filter)
  then show "save_json_rows e (filter P vs) [] = Some ?kvs"
    using save_json_rows_append [of "[]" ?kvs e] ids by (auto simp: vs list_all_iff key_of_identity)
  have "sorted (map fst ?kvs)" by (simp add: key_order_def sorted_filter)
  then show "load_json_rows e d' = Some (filter P vs)"
    using ids by (auto simp: load_json_rows_def assms(3) sort_key_same jvalues_def vs list_all_iff)
qed

lemma saved_messages_stay:
  assumes "load_mls_backlog_rows d = Some backlog" and "list_all (\<lambda>x. row_id x \<noteq> []) (db_messages d)"
  shows "prune_mls_message_rows backlog (db_messages d) = db_messages d"
proof -
  let ?groups = "group_by row_room (ordered_messages d)" and ?ids = "\<lambda>ms. filter (\<lambda>i. i \<noteq> []) (map mm_id ms)"
  have backlog: "backlog = map (\<lambda>(r, xs). (r, map row_message xs)) ?groups" and ok: "list_all message_row_ok (db_messages d)"
    using assms(1) by (auto simp: load_mls_backlog_rows_def split: if_splits)
  have fold: "fold (\<lambda>(k, ms) m. jset k (?ids ms) m) xs m = m @ map (\<lambda>(k, ms). (k, ?ids ms)) xs"
    if "distinct (map fst m @ map fst xs)" for xs :: "(string, mls_message list) jmap" and m
    using that
  proof (induction xs arbitrary: m)
    case (Cons x xs)
    obtain k ms where x: "x = (k, ms)" by (cases x)
    have "jget m k = None" using Cons.prems by (auto simp: x map_of_eq_None_iff)
    with Cons.IH [of "m @ [(k, ?ids ms)]"] Cons.prems show ?case by (simp add: x jset_new)
  qed simp
  have keys: "map fst backlog = map fst ?groups" by (simp add: backlog comp_def case_prod_unfold)
  then have "distinct (map fst backlog)" using group_by_wf [of row_room "ordered_messages d"] by simp
  then have retained: "fold (\<lambda>(k, ms) m. jset k (?ids ms) m) backlog [] = map (\<lambda>(k, ms). (k, ?ids ms)) backlog"
    using fold [of "[]" backlog] by simp
  have "case jget (map (\<lambda>(k, ms). (k, ?ids ms)) backlog) r of None \<Rightarrow> False | Some ids \<Rightarrow> List.member ids i" if x: "((r, i), y) \<in> set (db_messages d)" for r i y
  proof -
    let ?xs = "filter (\<lambda>x. row_room x = r) (ordered_messages d)"
    have mem: "((r, i), y) \<in> set ?xs" using x by (simp add: ordered_messages_def)
    then have "?xs \<noteq> []" by (metis list.set(1) empty_iff)
    then have "jget ?groups r = Some ?xs" by (simp only: group_by_get if_False)
    then have "jget backlog r = Some (map row_message ?xs)" by (simp add: backlog map_of_map)
    then have "jget (map (\<lambda>(k, ms). (k, ?ids ms)) backlog) r = Some (?ids (map row_message ?xs))" by (simp add: map_of_map)
    moreover have "mm_id (row_message ((r, i), y)) = i" "i \<noteq> []"
      using ok assms(2) x by (auto simp: list_all_iff message_row_ok_def)
    ultimately show ?thesis using mem by (simp only: option.case) force
  qed
  then show ?thesis
    by (auto simp: prune_mls_message_rows_def retained jwhere_def Let_def filter_id_conv)
qed

section \<open>Retiring a device\<close>

text \<open>
  C29: A device is retired only when it is registered and hosts no room, active or not; then the next
  start reads exactly the rows it would have read, without the device and its KeyPackages.
\<close>

theorem retired_device_is_gone:
  assumes "retire_device u dev d = Some d'" and loaded: "load_normalized_state d = Loaded rows backlog"
    and tables: "list_all (\<lambda>e. jwf (db_rows d e)) json_entities" "list_all (\<lambda>x. row_id x \<noteq> []) (db_messages d)"
  shows "load_normalized_state d' =
       Loaded (rows(E_devices := filter (\<lambda>v. \<not> is_owned_by_device u dev v) (rows E_devices),
                    E_keyPackages := filter (\<lambda>v. \<not> is_owned_by_device u dev v) (rows E_keyPackages))) backlog
     \<and> list_ex (is_owned_by_device u dev) (rows E_devices) \<and> \<not> list_ex (is_hosted_by_device u dev) (rows E_rooms)"
proof -
  let ?P = "\<lambda>e v. e = E_devices \<or> e = E_keyPackages \<longrightarrow> \<not> is_owned_by_device u dev v"
  let ?rows = "\<lambda>e. filter (?P e) (rows e)"
  have new: "rows(E_devices := filter (\<lambda>v. \<not> is_owned_by_device u dev v) (rows E_devices),
        E_keyPackages := filter (\<lambda>v. \<not> is_owned_by_device u dev v) (rows E_keyPackages)) = ?rows"
    by (auto simp: fun_eq_iff)
  from assms(1) have room: "\<not> list_ex (is_hosted_by_device u dev) (rows E_rooms)"
    and some: "length (filter (\<lambda>v. \<not> is_owned_by_device u dev v) (rows E_devices)) \<noteq> length (rows E_devices)"
    and save: "save_normalized_state ?rows backlog d = Some d'"
    by (auto simp: retire_device_def loaded Let_def new split: if_splits)
  have rows: "load_json_rows e d = Some (rows e)" if "e \<in> set json_entities" for e
    using loaded that by (auto simp: load_normalized_state_def list_all_iff split: if_splits option.splits)
  have messages: "load_mls_backlog_rows d = Some backlog"
    using loaded by (auto simp: load_normalized_state_def split: if_splits option.splits)
  have wf: "jwf (db_rows d e)" if "e \<in> set json_entities" for e using tables(1) that by (simp add: list_all_iff)
  have d': "db_versioned d'" "db_messages d' = db_messages d"
    "db_rows d' e = (case save_json_rows e (?rows e) [] of None \<Rightarrow> [] | Some m \<Rightarrow> m)" for e
    using save saved_messages_stay [OF messages tables(2)] by (auto simp: save_normalized_state_def split: if_splits)
  have same: "load_json_rows e d' = Some (?rows e)" if e: "e \<in> set json_entities" for e
  proof (rule saved_rows_load(2) [OF rows [OF e] wf [OF e]])
    have "save_json_rows e (?rows e) [] = Some (filter (\<lambda>(k, v). ?P e v) (key_order e d))"
      by (rule saved_rows_load(1) [OF rows [OF e] wf [OF e], where d' = "d\<lparr>db_rows := \<lambda>e'. filter (\<lambda>(k, v). ?P e v) (key_order e d)\<rparr>"]) simp
    then show "db_rows d' e = filter (\<lambda>(k, v). ?P e v) (key_order e d)" by (simp only: d'(3) option.case)
  qed
  have none: "row_identity E_mlsBacklog v = None" for v by (simp add: row_identity_def storage_key_for_row_def)
  have "rows e = [] \<and> load_json_rows e d' = Some []" if "e \<notin> set json_entities" for e
  proof -
    have e: "e = E_mlsBacklog" using that by (cases e) (simp_all add: json_entities_def)
    have "rows e = (case load_json_rows e d of None \<Rightarrow> [] | Some vs \<Rightarrow> vs)"
      using loaded by (auto simp: load_normalized_state_def split: if_splits option.splits)
    then have "rows e = []" by (cases "db_rows d e") (auto simp: e load_json_rows_def none jvalues_def)
    with d'(3) [of e] show ?thesis by (simp add: e load_json_rows_def jvalues_def)
  qed
  with same have "(\<lambda>e. case load_json_rows e d' of None \<Rightarrow> [] | Some vs \<Rightarrow> vs) = ?rows"
    by (intro ext, rename_tac e, case_tac "e \<in> set json_entities") auto
  moreover have "load_mls_backlog_rows d' = Some backlog"
    using messages by (simp only: load_mls_backlog_rows_def ordered_messages_def d'(2))
  ultimately have "load_normalized_state d' = Loaded ?rows backlog"
    using same d'(1) by (simp add: load_normalized_state_def list_all_iff)
  moreover have "list_ex (is_owned_by_device u dev) (rows E_devices)"
    using some by (auto simp: list_ex_iff filter_id_conv intro: ccontr)
  ultimately show ?thesis using room new by simp
qed

end
