(* ===== verification/Guard_Witnesses.thy ===== *)
theory Guard_Witnesses
  imports Guard_Proofs Operator_Proofs Live_Witnesses
begin

text \<open>
  The properties of the configuration, the guards and the operator's tools on concrete data: the
  environment of a production relay that allows the desktop app, requests of one address with and
  without a session, and the retirement of Ann's second device.
\<close>

definition production_env :: environ where
  "production_env = [''NODE_ENV'' \<mapsto> ''production'', ''MULTAIPLAYER_RELAY_ALLOWED_ORIGINS'' \<mapsto> ''tauri://localhost'',
     ''MULTAIPLAYER_RELAY_METRICS_TOKEN'' \<mapsto> replicate 32 (CHR ''m''), ''MULTAIPLAYER_RELAY_RATE_LIMIT_MUTATION'' \<mapsto> ''2'']"

definition desktop_url :: "string \<Rightarrow> url_parts option" where
  "desktop_url v = (if v = ''tauri://localhost''
     then Some \<lparr>url_protocol = ''tauri:'', url_username = [], url_password = [], url_hostname = ''localhost'', url_port = [],
            url_pathname = [], url_search = [], url_hash = [], url_origin = ''null''\<rparr>
     else None)"

definition production_config :: relay_config where
  "production_config = the (load_relay_config concat desktop_url production_env)"

lemma production_loads: "load_relay_config concat desktop_url production_env = Some production_config"
proof -
  have "load_relay_config concat desktop_url production_env \<noteq> None" by code_simp
  then show ?thesis by (auto simp: production_config_def)
qed

lemma production_fields:
  "rf_rate_limits production_config" "rf_rate_window production_config = 60000" "rf_network_multiplier production_config = 8"
  "cap_mutation (rf_rate_caps production_config) = 2" "rf_origins production_config = [''tauri://localhost'']"
  "predeploy_check production_config (Some 2000000000) (Some ''/validator'') (\<lambda>_. True)"
  unfolding production_config_def by code_simp+


lemma forgotten_buckets_are_full_witness:
  "limiter_answers production_config [(0, Rate_mutation, ''ip:a''), (1, Rate_read, ''ip:b''), (200000, Rate_mutation, ''ip:a'')]
       \<lparr>bg_accounts = [], bg_next = 0\<rparr>
     = bucket_answers production_config [(0, Rate_mutation, ''ip:a''), (1, Rate_read, ''ip:b''), (200000, Rate_mutation, ''ip:a'')] Map.empty"
  by (rule forgotten_buckets_are_full [OF production_loads production_fields(1)]) simp

abbreviation network_calls :: "(int \<times> rate_bucket \<times> string list) list" where
  "network_calls \<equiv> [(0, Rate_mutation, [''ip:a'']), (0, Rate_mutation, [''trusted-network:a'', ''session:x'']), (1, Rate_mutation, [''ip:a''])]"


definition desktop_request :: http_request where
  "desktop_request = \<lparr>rq_method = ''POST'', rq_path = ''/teams'', rq_origin = Some ''tauri://localhost'', rq_fetch_site = Some ''cross-site'',
     rq_cookie = J_str ''abc'', rq_session_header = J_undefined, rq_real_ip = [], rq_forwarded_for = [], rq_remote = Some ''a'',
     rq_content_length = [''12''], rq_body_read = False\<rparr>"

abbreviation desktop_guarded :: "guard_answer \<times> live \<times> budget" where
  "desktop_guarded \<equiv> guard_request (\<lambda>_ _. False) live_env production_config True False 0 True desktop_request joined_live
     \<lparr>bg_accounts = [], bg_next = 0\<rparr>"

lemma desktop_passes: "fst desktop_guarded = Passed (J_str ''abc'')"
  unfolding production_config_def by code_simp

lemma browser_mutations_come_from_allowed_origins_witness:
  "fst desktop_guarded = Passed (J_str ''abc'') \<and> List.member (rf_origins production_config) (the (rq_origin desktop_request))"
proof -
  obtain l' st' where run: "desktop_guarded = (Passed (J_str ''abc''), l', st')"
    using desktop_passes by (cases desktop_guarded) auto
  have "is_mutation (rq_method desktop_request)" "rq_origin desktop_request \<noteq> None"
    by (simp_all add: desktop_request_def is_mutation_def)
  with browser_mutations_come_from_allowed_origins [OF production_loads production_fields(6) run] desktop_passes
  show ?thesis by auto
qed

section \<open>The retirement of a device\<close>

definition stored_devices :: database where
  "stored_devices = empty_database\<lparr>db_versioned := True, db_rows := (\<lambda>_. [])(E_devices :=
     [(''ann:ann-device'', V_device (sample_device ''ann'' ''ann-device'')),
      (''ann:ann-laptop'', V_device (sample_device ''ann'' ''ann-laptop''))])\<rparr>"

lemma device_retired:
  "retire_device ''ann'' ''ann-laptop'' stored_devices \<noteq> None"
  "load_json_rows E_devices stored_devices =
     Some [V_device (sample_device ''ann'' ''ann-device''), V_device (sample_device ''ann'' ''ann-laptop'')]"
  "list_all (\<lambda>e. jwf (db_rows stored_devices e)) json_entities" "db_messages stored_devices = []"
  "list_all (\<lambda>e. load_json_rows e stored_devices \<noteq> None) json_entities" "load_mls_backlog_rows stored_devices = Some []"
  by code_simp+

lemma retired_device_is_gone_witness:
  "\<exists>d' rows. retire_device ''ann'' ''ann-laptop'' stored_devices = Some d' \<and> load_normalized_state d' = Loaded rows []
     \<and> rows E_devices = [V_device (sample_device ''ann'' ''ann-device'')]"
proof -
  obtain d' where d': "retire_device ''ann'' ''ann-laptop'' stored_devices = Some d'" using device_retired(1) by auto
  have loaded: "load_normalized_state stored_devices
      = Loaded (\<lambda>e. case load_json_rows e stored_devices of None \<Rightarrow> [] | Some vs \<Rightarrow> vs) []"
    using device_retired(5,6) by (simp add: load_normalized_state_def) (simp add: stored_devices_def)
  have "list_all (\<lambda>x. row_id x \<noteq> []) (db_messages stored_devices)" by (simp add: device_retired(4))
  from retired_device_is_gone [OF d' loaded device_retired(3) this] d' show ?thesis
    by (simp add: device_retired(2) is_owned_by_device_def sample_device_def)
qed

end
