(* ===== verification/Spec2Isabelle.thy ===== *)
theory Spec2Isabelle
  imports Fanout_Witnesses Live_Witnesses Invite_Witnesses Key_Package_Witnesses
    Persistence_Witnesses Room_Witnesses Turn_Witnesses Attachment_Witnesses Account_Witnesses
    Restore_Witnesses Guard_Witnesses
begin

text \<open>
  A verification library for the relay of multAIplayer (apps/relay/src) and the wire records it
  shares with its clients (packages/protocol/src).

  The program. The relay is the only server of multAIplayer: it keeps teams, rooms, devices, invites,
  MLS KeyPackages, encrypted messages and attachments of its users in memory, answers HTTP requests
  and WebSocket messages about them, and writes every durable change to SQLite before it answers. It
  never sees plaintext; what it must get right is who may do what, in which order MLS Commits are
  accepted, that a failed write leaves no trace, that quotas hold, and that a restart brings back what
  was acknowledged.

  A handler of the code is one function from the state and its inputs to a reply and the state after
  it; an exception is the constructor \<open>Throws\<close> of \<open>outcome\<close>, with the state at the throw. A request
  reads the clock once in the model (\<open>now\<close>); the random tokens it draws and the results of the saves
  it makes (\<open>ok\<close>, one per save, in their order) are arguments. Where the code awaits something that
  lets other requests run, the handler takes what they do to the relay as an argument (\<open>meanwhile\<close> or
  \<open>turn\<close>), so its later checks run on a state that may have changed; the properties quantify over it.

  State
  \<^item> Prelude, Js_Values, Js_Number, Json: exceptions, the insertion-ordered Map of JavaScript as an
    association list (\<open>jmap\<close>), the text functions, numbers read from text, and JSON.stringify. A
    string is a list of characters below U+0100; text beyond it is outside the model.
  \<^item> Records: the records of room-team-records.ts, relay-messages.ts and of state.ts, field by field.
  \<^item> Capacity: DurableEntryCapacity of state.ts and DurableByteCapacity of store-byte-capacity.ts, the
    counters that bound the retained entries and bytes. Each operation refines the operation of the
    multiset of entries, or of weights, that the counter stands for.
  \<^item> Store, Store_Accounting, Store_Rollback, Store_Effects: the sixteen durable maps of
    InMemoryRelayStore with their mutation log, the challenges and device sessions. The locale
    \<open>tracked_map\<close> states what a map must tell about its entries and proves once, for all of them, that
    the counters stay exact (\<open>store_ok\<close>), what each operation does to the data, and that writing an
    old value back never hits a ceiling, on which every rollback of the code relies.
  \<^item> Live, Sockets, Sockets_Proofs: the client sessions, the indexes of sockets by room, team and
    workspace, presence, and the frames sent, in order (\<open>lv_out\<close>); joining, leaving and revoking of
    ws/rooms.ts. The locale \<open>socket_revocation\<close> is interpreted for users and for team members.

  Rules and requests
  \<^item> Text_Limits, Directed_Invite: limits.ts and opaque.ts. The strict parser of directed invites is
    proved to accept exactly the canonical texts; its recursion takes one step of fuel more than the
    text has characters, and every step consumes one, so the fuel never runs out.
  \<^item> Domain, Quotas, Retention: relay-domain.ts, authz.ts, auth/account-quotas.ts, the test of
    restrictions, and what store-codec.ts and ws/fanout.ts forget with time.
  \<^item> Turns, Turn_Proofs: the queues of auth/account-mutation-transaction.ts. \<open>turns_run\<close> is the run of
    any number of mutations that take the turns of several accounts, interleaved in any way; \<open>moves\<close>
    is one step of one of them. One mutation at a time holds the turn of an account, some mutation can
    always step, and all finish. The order of localeCompare is a parameter (\<open>collate\<close>).
  \<^item> Http, Devices, Teams, Rooms, Invites, Invite_Responses, Key_Packages, Attachments: the routes of
    http/*.ts, each whole, with its early returns, its turn, its save and its rollback.
  \<^item> Auth_Sessions, Accounts, Restrictions: auth/session.ts, auth/github.ts, auth/account-deletion.ts
    and auth/account-restrictions.ts.
  \<^item> Fanout: ws/fanout.ts, the publishing of an MLS message in a turn of its room's queue. Dispatch: the
    admission, validation and dispatch of ws/connection*.ts.

  \<^item> Config: config.ts, with the ceilings and the limits that relay-app.ts hands to the components, and
    predeploy-check.ts. Guards: what relay-app.ts mounts in front of the routes, in its order (the origin
    policy, the session header, the CSRF check, availability, the rate limiter and the length of the
    body). Tokens of the rate limiter are counted in exact fractions, where the code has doubles.

  Storage
  \<^item> Database, Persistence, Persistence_Log: store-mutations.ts, sqlite-state-repository.ts,
    sqlite-persistence.ts, store-persistence.ts. A table is a map from its key, a statement the
    function its SQL text denotes, a transaction all or nothing. The locale \<open>stored_map\<close>, an extension
    of \<open>tracked_map\<close>, shows that every change of a durable map is in the log; \<open>persisting\<close> is the run
    of a coordinator through mutations, failed saves, poisoning and saves that return.
  \<^item> Schemas, Restore: the schemas of the stored records and the load at start of store-codec.ts and
    store-codec-normalizers.ts, in sixteen stages and a final check of the relationships. A row is the
    record it is the text of; a row of another table in a stage is one that fails its schema.
  \<^item> Operator_Tools: retire-device.ts and manage-account-restriction.ts, which run while the relay is
    stopped, with the save of a whole state of sqlite-state-repository.ts.
  \<^item> Restart, Restart_Proofs, Restart_Persistence: the locales \<open>part_map\<close> and \<open>stage_map\<close>, extensions of
    \<open>tracked_map\<close> interpreted for every map: the records of a sound store fit again whatever part of
    them is there, and the stage of a map rebuilds it. \<open>restorable\<close> says that every record passes the
    check its row must pass; \<open>same_records\<close> compares two stores map by map.

  What is shown
  \<^item> Publishing (Fanout_Proofs): Commits come from the active host, carry consecutive epochs, handoffs
    are signed by the host; a refused publish changes nothing; an id is bound to its digest.
  \<^item> Live sockets (Sockets_Proofs, Dispatch_Proofs): the indexes agree with the sessions in every
    reachable state; who joins or publishes is a member on a registered device; who is removed hears
    nothing any more.
  \<^item> Devices, invites and KeyPackages (Devices_Proofs, Invite_Proofs, Key_Package_Proofs): proof of
    possession, keys bound to ids, admission of the approved requester only, one use of a package,
    the quotas and the rate of validations.
  \<^item> Teams, rooms, accounts (Team_Proofs, Room_Proofs, Attachment_Proofs, Auth_Session_Proofs,
    Account_Proofs, Restriction_Proofs): one owner per team and well-typed rooms over all runs
    (\<open>team_run\<close>, \<open>room_run\<close>), the quotas, what deletion, removal and restriction leave behind.
  \<^item> Configuration and guards (Config_Proofs, Guard_Proofs): an accepted configuration is consistent; a
    browser's mutation comes from an allowed origin; forgetting buckets changes no answer of the rate
    limiter, and one network address gets no more than its two buckets hold.
  \<^item> Turns (Turn_Proofs): exclusion, order, progress and termination.
  \<^item> Storage (Persistence_Proofs, Database_Proofs, Restore_Safety, Restart_Persistence): after a save that
    returned the tables are the memory; a stale Commit writes nothing; the start from any database is
    sound or refused; a restart after a save loses nothing, from any history; a device id that
    registration accepts makes the start fail; and a retired device is gone with its KeyPackages, and
    nothing else (Operator_Proofs).
  The theories named ..._Witnesses apply each property with hypotheses to concrete data (Samples,
  Flow_Samples), evaluated by simplification.

  Parameters. SHA-256, the verification of signatures, the tests of P-256 keys, the reading of
  timestamps (Date.parse and the date-time formats of the schemas), the collation key, the external
  validator of KeyPackages, the URL, cookie and body parsers, the CORS middleware and the matching of
  mount paths of Express, the answers of the GitHub API and nanoid are arguments
  of the definitions (records \<open>env\<close>, \<open>config\<close>, \<open>auth_config\<close>, \<open>restore_config\<close>); the properties hold
  for every choice of them, unless a hypothesis says otherwise. The limits the configuration sets are
  fields of the same records.

  Not modelled
  \<^item> apps/desktop: the client, its React views, its local history and its Codex, git and terminal
    integrations. It reaches the relay through the requests modelled here.
  \<^item> lifecycle.ts, observability.ts, runtime-control.ts, index.ts, production-entrypoint.ts, http/ops.ts,
    http/upstream.ts, mls/*.ts: timers, sockets and processes of Node, metrics and logs; and http/debug.ts,
    which serves loopback requests of a development relay only.
  \<^item> plaintext-events.ts: what clients encrypt; the relay never parses it.
  \<^item> Human-readable texts of errors, cookie attributes, pragmas and file modes of the database, the
    in-memory counters of old versions, and three unused normalizers of limits.ts.
\<close>

end
